(* ===== verification/Prelude.thy ===== *)
theory Prelude
  imports Main "HOL-Library.AList" "HOL-Library.Char_ord" "HOL-Library.List_Lexorder"
begin

text \<open>
  Shared vocabulary of the development.

  \<^item> Python text is a \<^typ>\<open>string\<close>, one \<^typ>\<open>char\<close> per code point. The alphabet of
    the model is Latin-1 with one exchange: the code \<open>0xFF\<close> stands for U+2026, the ellipsis that
    the audit log appends to truncated text, instead of the letter U+00FF; the order of the codes is the
    order of the code points.
    Python \<open>bytes\<close> are lists of \<^typ>\<open>char\<close> as well, and \<open>utf8\<close> is the encoding
    between the two.
  \<^item> A Python \<open>dict\<close> is an association list in insertion order
    (\<open>AList.update\<close> and \<open>AList.delete\<close> keep Python's order, \<open>map_of\<close> is \<open>get\<close>).
  \<^item> A fallible operation returns a value of \<open>'e + 'a\<close>, with \<open>Inl\<close> for the exception.
  \<^item> A stateful operation returns its result paired with the new state.
\<close>

section \<open>Collections of facts\<close>

named_theorems py_simps \<open>unfolding equations of the Python helpers\<close>
named_theorems wf_intros \<open>preservation of the components' invariants\<close>

section \<open>Results and dictionaries\<close>

type_synonym bytes = "char list"
type_synonym ('k, 'v) dict = "('k \<times> 'v) list"

abbreviation keys :: "('k, 'v) dict \<Rightarrow> 'k list" where
  "keys d \<equiv> map fst d"

definition is_ok :: "'e + 'a \<Rightarrow> bool" where
  "is_ok r = (case r of Inl _ \<Rightarrow> False | Inr _ \<Rightarrow> True)"

lemma is_ok_simps [simp]: "is_ok (Inr x)" "\<not> is_ok (Inl e)"
  by (simp_all add: is_ok_def)

lemma is_ok_iff: "is_ok r \<longleftrightarrow> (\<exists>x. r = Inr x)"
  by (cases r) simp_all

text \<open>Emptiness of a lookup in an association list, in the form the component proofs use.\<close>

lemma map_of_eq_None_keys: "map_of d k = None \<longleftrightarrow> k \<notin> set (keys d)"
  by (simp add: map_of_eq_None_iff)

lemma distinct_keys_update [wf_intros]: "distinct (keys d) \<Longrightarrow> distinct (keys (AList.update k v d))"
  by (rule AList.distinct_update)

lemma distinct_keys_delete [wf_intros]: "distinct (keys d) \<Longrightarrow> distinct (keys (AList.delete k d))"
  by (rule AList.distinct_delete)

lemma set_keys_update: "set (keys (AList.update k v d)) = insert k (set (keys d))"
  by (simp add: AList.dom_update)

lemma set_keys_delete: "set (keys (AList.delete k d)) = set (keys d) - {k}"
  by (simp add: AList.delete_keys)

lemma update_fresh: "k \<notin> set (keys d) \<Longrightarrow> AList.update k v d = d @ [(k, v)]"
  by (induction d) auto

lemma find_Some_in: "List.find P xs = Some x \<Longrightarrow> x \<in> set xs \<and> P x"
  by (induction xs) (auto split: if_splits)

lemma find_by_id:
  "distinct (map f rows) \<Longrightarrow> r \<in> set rows \<Longrightarrow> List.find (\<lambda>x. f x = f r) rows = Some r"
  by (induction rows) (auto simp: image_iff)

lemma distinct_map_filter: "distinct (map f xs) \<Longrightarrow> distinct (map f (filter P xs))"
  by (induction xs) auto

section \<open>Runs of a transition function\<close>

text \<open>The state after a list of calls; \<open>state_at step cs s i\<close> is the state before call \<open>i\<close>.\<close>

fun run_steps :: "('c \<Rightarrow> 's \<Rightarrow> 'r \<times> 's) \<Rightarrow> 'c list \<Rightarrow> 's \<Rightarrow> 's" where
  "run_steps step [] s = s"
| "run_steps step (c # cs) s = run_steps step cs (snd (step c s))"

definition state_at :: "('c \<Rightarrow> 's \<Rightarrow> 'r \<times> 's) \<Rightarrow> 'c list \<Rightarrow> 's \<Rightarrow> nat \<Rightarrow> 's" where
  "state_at step cs s i = run_steps step (take i cs) s"

definition result_at :: "('c \<Rightarrow> 's \<Rightarrow> 'r \<times> 's) \<Rightarrow> 'c list \<Rightarrow> 's \<Rightarrow> nat \<Rightarrow> 'r" where
  "result_at step cs s i = fst (step (cs ! i) (state_at step cs s i))"

lemma run_steps_append: "run_steps step (as @ bs) s = run_steps step bs (run_steps step as s)"
  by (induction as arbitrary: s) simp_all

lemma state_at_0 [simp]: "state_at step cs s 0 = s"
  by (simp add: state_at_def)

lemma state_at_Suc: "i < length cs \<Longrightarrow> state_at step cs s (Suc i) = snd (step (cs ! i) (state_at step cs s i))"
  by (simp add: state_at_def take_Suc_conv_app_nth run_steps_append)

lemma step_at:
  "i < length cs \<Longrightarrow> step (cs ! i) (state_at step cs s i) = (result_at step cs s i, state_at step cs s (Suc i))"
  by (simp add: state_at_Suc result_at_def)

lemma run_invariant:
  assumes "I s" "\<And>c s. I s \<Longrightarrow> c \<in> set cs \<Longrightarrow> I (snd (step c s))" "i \<le> length cs"
  shows "I (state_at step cs s i)"
  using assms(3)
proof (induction i)
  case (Suc i)
  then show ?case using assms(2) [of "state_at step cs s i" "cs ! i"] by (simp add: state_at_Suc)
qed (simp add: assms(1))

text \<open>A property that fails at the start and holds before call \<open>j\<close> was established by an earlier call.\<close>

lemma run_established:
  assumes "\<not> P s" "P (state_at step cs s j)" "j \<le> length cs"
  shows "\<exists>i < j. \<not> P (state_at step cs s i) \<and> P (state_at step cs s (Suc i))"
  using assms
proof (induction j)
  case (Suc j)
  then show ?case by (cases "P (state_at step cs s j)") (auto intro: less_SucI)
qed simp

text \<open>
  Tokens that can be used once. A successful use needs a token that is not spent and spends it, and a
  spent token stays spent until it is issued again; so between two uses of a token it is issued.
\<close>

locale single_use =
  fixes step :: "'c \<Rightarrow> 's \<Rightarrow> 'r \<times> 's"
    and used :: "'c \<Rightarrow> 'r \<Rightarrow> 'k \<Rightarrow> bool"
    and issued :: "'c \<Rightarrow> 'k \<Rightarrow> bool"
    and spent :: "'s \<Rightarrow> 'k \<Rightarrow> bool"
    and inv :: "'s \<Rightarrow> bool"
  assumes unspent: "inv s \<Longrightarrow> step c s = (r, s') \<Longrightarrow> used c r k \<Longrightarrow> \<not> spent s k"
    and spends: "inv s \<Longrightarrow> step c s = (r, s') \<Longrightarrow> used c r k \<Longrightarrow> spent s' k"
    and stays: "inv s \<Longrightarrow> step c s = (r, s') \<Longrightarrow> spent s k \<Longrightarrow> \<not> issued c k \<Longrightarrow> spent s' k"
    and inv_step: "inv s \<Longrightarrow> step c s = (r, s') \<Longrightarrow> inv s'"
begin

lemma inv_at: "inv s \<Longrightarrow> i \<le> length cs \<Longrightarrow> inv (state_at step cs s i)"
  by (rule run_invariant) (auto intro: inv_step [OF _ prod.collapse [symmetric]])

lemma spent_until_issued:
  assumes "inv s" "i \<le> j" "j \<le> length cs" "spent (state_at step cs s i) k"
    and "\<And>m. i \<le> m \<Longrightarrow> m < j \<Longrightarrow> \<not> issued (cs ! m) k"
  shows "spent (state_at step cs s j) k"
  using assms(2-5)
proof (induction j rule: dec_induct)
  case (step n)
  then have "spent (state_at step cs s n) k" by simp
  then show ?case
    using stays [OF inv_at [OF assms(1), of n cs] step_at [of n cs step s], of k] step by simp
qed simp

lemma used_once:
  assumes "inv s" "i < j" "j < length cs"
    and "used (cs ! i) (result_at step cs s i) k" "used (cs ! j) (result_at step cs s j) k"
  shows "\<exists>m. i < m \<and> m < j \<and> issued (cs ! m) k"
proof (rule ccontr)
  assume none: "\<not> ?thesis"
  have now: "spent (state_at step cs s (Suc i)) k"
    using spends [OF inv_at [OF assms(1), of i cs] step_at [of i cs step s]] assms by simp
  have "spent (state_at step cs s j) k"
    by (rule spent_until_issued [OF assms(1) _ _ now]) (use assms none in auto)
  then show False
    using unspent [OF inv_at [OF assms(1), of j cs] step_at [of j cs step s]] assms by simp
qed

end

text \<open>
  Tokens that are accepted with an expiry. An accepted token is remembered until its expiry, and a
  remembered token is refused; so with a clock that does not run backwards a token is not accepted
  again before the expiry it was accepted with.
\<close>

locale expiring_use =
  fixes step :: "'c \<Rightarrow> 's \<Rightarrow> 'r \<times> 's"
    and used :: "'c \<Rightarrow> 'r \<Rightarrow> bool"
    and clock :: "'c \<Rightarrow> int"
    and token :: "'c \<Rightarrow> 'k"
    and until :: "'c \<Rightarrow> int"
    and remembers :: "'s \<Rightarrow> 'k \<Rightarrow> int \<Rightarrow> bool"
    and inv :: "'s \<Rightarrow> bool"
  assumes marks: "inv s \<Longrightarrow> step c s = (r, s') \<Longrightarrow> used c r \<Longrightarrow> remembers s' (token c) (until c)"
    and refuses: "inv s \<Longrightarrow> step c s = (r, s') \<Longrightarrow> remembers s (token c) t \<Longrightarrow> clock c < t \<Longrightarrow> \<not> used c r"
    and keeps: "inv s \<Longrightarrow> step c s = (r, s') \<Longrightarrow> remembers s k t \<Longrightarrow> clock c < t \<Longrightarrow> remembers s' k t"
    and inv_kept: "inv s \<Longrightarrow> step c s = (r, s') \<Longrightarrow> inv s'"
begin

lemma inv_before: "inv s \<Longrightarrow> i \<le> length cs \<Longrightarrow> inv (state_at step cs s i)"
  by (rule run_invariant) (auto intro: inv_kept [OF _ prod.collapse [symmetric]])

lemma remembered_before_expiry:
  assumes "inv s" "sorted (map clock cs)" "i \<le> j" "j < length cs" "clock (cs ! j) < t"
    and "remembers (state_at step cs s i) k t"
  shows "remembers (state_at step cs s j) k t"
  using assms(3-6)
proof (induction j rule: dec_induct)
  case (step n)
  have "clock (cs ! n) \<le> clock (cs ! Suc n)" using sorted_nth_mono [OF assms(2), of n "Suc n"] step(4) by simp
  then have now: "clock (cs ! n) < t" using step(5) by simp
  have "remembers (state_at step cs s n) k t" using step now by simp
  then show ?case
    using keeps [OF inv_before [OF assms(1), of n cs] step_at [of n cs step s]] step(4) now by simp
qed simp

lemma no_reuse:
  assumes "inv s" "sorted (map clock cs)" "i < j" "j < length cs"
    and "used (cs ! i) (result_at step cs s i)" "used (cs ! j) (result_at step cs s j)"
    and "token (cs ! i) = token (cs ! j)"
  shows "until (cs ! i) \<le> clock (cs ! j)"
proof (rule ccontr)
  assume early: "\<not> until (cs ! i) \<le> clock (cs ! j)"
  have "remembers (state_at step cs s (Suc i)) (token (cs ! i)) (until (cs ! i))"
    using marks [OF inv_before [OF assms(1), of i cs] step_at [of i cs step s]] assms by simp
  then have "remembers (state_at step cs s j) (token (cs ! i)) (until (cs ! i))"
    by (rule remembered_before_expiry [OF assms(1,2), rotated 3]) (use assms early in auto)
  then show False
    using refuses [OF inv_before [OF assms(1), of j cs] step_at [of j cs step s], of "until (cs ! i)"] assms early by simp
qed

end

section \<open>UTF-8\<close>

definition ellipsis :: char where
  "ellipsis = CHR 0xFF"

definition utf8_char :: "char \<Rightarrow> bytes" where
  "utf8_char c = (let n = (of_char c :: nat) in
     if n < 0x80 then [c]
     else if n = 0xFF then [CHR 0xE2, CHR 0x80, CHR 0xA6]
     else [char_of (0xC0 + n div 0x40), char_of (0x80 + n mod 0x40)])"

definition utf8 :: "string \<Rightarrow> bytes" where
  "utf8 s = concat (map utf8_char s)"

text \<open>The decoder, needed only to show that the encoding loses nothing.\<close>

fun utf8_decode :: "bytes \<Rightarrow> string" where
  "utf8_decode [] = []"
| "utf8_decode (b # bs) =
     (let n = (of_char b :: nat) in
      if n < 0x80 then b # utf8_decode bs
      else if n = 0xE2 then ellipsis # utf8_decode (drop 2 bs)
      else (case bs of [] \<Rightarrow> []
            | b2 # bs2 \<Rightarrow> char_of ((n - 0xC0) * 0x40 + (of_char b2 - 0x80)) # utf8_decode bs2))"

lemma utf8_decode_char: "utf8_decode (utf8_char c @ bs) = c # utf8_decode bs"
proof -
  define n where "n = (of_char c :: nat)"
  have n: "n < 256" and c: "char_of n = c" unfolding n_def by simp_all
  consider "n < 0x80" | "n = 0xFF" | "0x80 \<le> n" "n \<noteq> 0xFF" by linarith
  then show ?thesis
  proof cases
    case 1
    then show ?thesis by (simp add: utf8_char_def n_def Let_def)
  next
    case 2
    then have "(of_char c :: nat) = of_char (CHR 0xFF)" by (simp add: n_def)
    then have "c = CHR 0xFF" by (simp only: of_char_eq_iff)
    then show ?thesis by (simp add: utf8_char_def ellipsis_def Let_def)
  next
    case 3
    have d: "0xC0 + n div 0x40 < 256" "0x80 + n mod 0x40 < 256" "n div 0x40 \<le> 3" using n by auto
    have "utf8_char c = [char_of (0xC0 + n div 0x40), char_of (0x80 + n mod 0x40)]"
      using 3 by (simp add: utf8_char_def n_def Let_def)
    then show ?thesis using 3 d c n
      by (simp add: Let_def of_char_mod_256)
  qed
qed

lemma utf8_decode_utf8: "utf8_decode (utf8 s) = s"
  by (induction s) (simp_all add: utf8_def utf8_decode_char)

lemma utf8_inj [simp]: "utf8 s = utf8 t \<longleftrightarrow> s = t"
  by (metis utf8_decode_utf8)

lemma utf8_append: "utf8 (s @ t) = utf8 s @ utf8 t"
  by (simp add: utf8_def)

end
