(* ===== verification/Py_Number.thy ===== *)
theory Py_Number
  imports Prelude
begin

text \<open>
  Texts of Python's numbers: the digits that \<open>str\<close> prints for an \<open>int\<close>, the number literals of the \<open>json\<close> module, the
  double a literal denotes (\<open>float(text)\<close>, which rounds once, to nearest, ties to even) and the text \<open>float.__repr__\<close>
  prints for a double: the shortest digits that read back as the same double, the nearest ones among them. A
  float of the model is the text \<open>json.dumps\<close> prints for it, since that text determines the double.
\<close>

section \<open>Integers\<close>

definition hexdig :: "nat \<Rightarrow> char" where
  "hexdig n = ''0123456789abcdef'' ! n"

fun jnat :: "nat \<Rightarrow> string" where
  "jnat n = (if n < 10 then [hexdig n] else jnat (n div 10) @ [hexdig (n mod 10)])"

declare jnat.simps [simp del]

definition jint :: "int \<Rightarrow> string" where
  "jint i = (if i < 0 then CHR ''-'' # jnat (nat (- i)) else jnat (nat i))"

definition digit_val :: "char \<Rightarrow> nat option" where
  "digit_val c = (let n = (of_char c :: nat) in if 48 \<le> n \<and> n \<le> 57 then Some (n - 48) else None)"

definition is_digit :: "char \<Rightarrow> bool" where
  "is_digit c \<longleftrightarrow> digit_val c \<noteq> None"

fun digits_val :: "nat \<Rightarrow> string \<Rightarrow> nat" where
  "digits_val acc [] = acc"
| "digits_val acc (c # cs) = digits_val (acc * 10 + the (digit_val c)) cs"

text \<open>The digits of an integer, with code equations that compute in binary.\<close>

definition jdec :: "int \<Rightarrow> string" where
  "jdec i = jnat (nat i)"

lemma jdec_code [code]: "jdec i = (if i < 10 then [hexdig (nat i)] else jdec (i div 10) @ [hexdig (nat (i mod 10))])"
proof -
  have "nat i div 10 = nat (i div 10)" "10 \<le> i \<Longrightarrow> nat i mod 10 = nat (i mod 10)"
    by (simp_all add: nat_div_distrib' nat_mod_distrib)
  moreover have "nat i < 10 \<longleftrightarrow> i < 10" by linarith
  ultimately show ?thesis by (simp add: jdec_def jnat.simps [of "nat i"])
qed

lemma jint_code [code]: "jint i = (if i < 0 then CHR ''-'' # jdec (- i) else jdec i)"
  by (simp add: jint_def jdec_def)

lemma digit_table: "\<forall>n \<in> set [0..<10]. digit_val (hexdig n) = Some n"
  by code_simp

lemma digit_val_hexdig: "n < 10 \<Longrightarrow> digit_val (hexdig n) = Some n"
  using digit_table by simp

lemma is_digit_hexdig [simp]: "n < 10 \<Longrightarrow> is_digit (hexdig n)"
  by (simp add: is_digit_def digit_val_hexdig)

lemma jnat_small: "n < 10 \<Longrightarrow> jnat n = [hexdig n]"
  by (subst jnat.simps) simp

lemma jnat_big: "\<not> n < 10 \<Longrightarrow> jnat n = jnat (n div 10) @ [hexdig (n mod 10)]"
  by (subst jnat.simps) simp

lemma jnat_digits: "\<forall>c \<in> set (jnat n). is_digit c"
proof (induction n rule: jnat.induct)
  case (1 n)
  then show ?case by (cases "n < 10") (auto simp: jnat_small jnat_big)
qed

lemma jnat_nonempty: "jnat n \<noteq> []"
  by (subst jnat.simps) simp

lemma digits_val_append: "digits_val a (xs @ [c]) = digits_val a xs * 10 + the (digit_val c)"
  by (induction xs arbitrary: a) simp_all

lemma digits_val_jnat: "digits_val 0 (jnat n) = n"
proof (induction n rule: jnat.induct)
  case (1 n)
  then show ?case
    by (cases "n < 10") (simp_all add: jnat_small jnat_big digits_val_append digit_val_hexdig)
qed

lemma hexdig_zero: "\<forall>n \<in> set [1..<10]. hexdig n \<noteq> CHR ''0''"
  by code_simp

lemma hexdig_0: "hexdig 0 = CHR ''0''"
  by (simp add: hexdig_def)

lemma hd_jnat_pos: "0 < n \<Longrightarrow> hd (jnat n) \<noteq> CHR ''0''"
proof (induction n rule: jnat.induct)
  case (1 n)
  show ?case
  proof (cases "n < 10")
    case True
    with "1.prems" hexdig_zero show ?thesis by (simp add: jnat_small)
  next
    case False
    with "1.IH" show ?thesis by (simp add: jnat_big jnat_nonempty)
  qed
qed

lemma hd_jnat_digit: "is_digit (hd (jnat n))"
  using jnat_digits [of n] jnat_nonempty [of n] by (cases "jnat n") auto

lemma digit_not_minus: "is_digit c \<Longrightarrow> c \<noteq> CHR ''-''"
  by (auto simp: is_digit_def digit_val_def)

lemma jint_Cons:
  obtains c cs where "jint i = c # cs" "is_digit c \<or> c = CHR ''-''"
proof (cases "i < 0")
  case True
  then show ?thesis using that by (simp add: jint_def)
next
  case False
  obtain c cs where c: "jnat (nat i) = c # cs" using jnat_nonempty by (cases "jnat (nat i)") auto
  then show ?thesis using that False hd_jnat_digit [of "nat i"] by (simp add: jint_def)
qed

section \<open>Literals\<close>

text \<open>The parts of a number literal: its sign, the digits before and after the point, the exponent.\<close>

record literal =
  li_negative :: bool
  li_whole :: string
  li_fraction :: string
  li_exponent :: "(bool \<times> string) option"

definition span_digits :: "string \<Rightarrow> string \<times> string" where
  "span_digits s = (takeWhile is_digit s, dropWhile is_digit s)"

definition take_sign :: "string \<Rightarrow> bool \<times> string" where
  "take_sign s = (case s of [] \<Rightarrow> (False, [])
     | c # r \<Rightarrow> if c = CHR ''-'' then (True, r) else if c = CHR ''+'' then (False, r) else (False, s))"

definition whole_part :: "string \<Rightarrow> string \<times> string" where
  "whole_part s = (case s of [] \<Rightarrow> ([], []) | c # r \<Rightarrow> if c = CHR ''0'' then ([c], r) else span_digits s)"

definition fraction_part :: "string \<Rightarrow> string \<times> string" where
  "fraction_part s = (case s of [] \<Rightarrow> ([], [])
     | c # r \<Rightarrow> if c = CHR ''.'' \<and> fst (span_digits r) \<noteq> [] then span_digits r else ([], s))"

definition exponent_part :: "string \<Rightarrow> (bool \<times> string) option \<times> string" where
  "exponent_part s = (case s of [] \<Rightarrow> (None, [])
     | c # r \<Rightarrow> if c = CHR ''e'' \<or> c = CHR ''E'' then
         (case take_sign r of (neg, r') \<Rightarrow> if fst (span_digits r') \<noteq> [] then (Some (neg, fst (span_digits r')), snd (span_digits r')) else (None, s))
       else (None, s))"

definition read_number :: "string \<Rightarrow> (literal \<times> string) option" where
  "read_number s =
     (let (neg, s1) = (case s of c # r \<Rightarrow> if c = CHR ''-'' then (True, r) else (False, s) | [] \<Rightarrow> (False, [])) in
      case whole_part s1 of (whole, s2) \<Rightarrow>
        if whole = [] then None
        else (case fraction_part s2 of (fraction, s3) \<Rightarrow>
          (case exponent_part s3 of (expo, s4) \<Rightarrow>
             Some (\<lparr>li_negative = neg, li_whole = whole, li_fraction = fraction, li_exponent = expo\<rparr>, s4))))"

definition is_float :: "literal \<Rightarrow> bool" where
  "is_float l \<longleftrightarrow> li_fraction l \<noteq> [] \<or> li_exponent l \<noteq> None"

definition literal_int :: "literal \<Rightarrow> int" where
  "literal_int l = (let n = int (digits_val 0 (li_whole l)) in if li_negative l then - n else n)"

text \<open>What may follow a number in a text that was printed.\<close>

definition num_end :: "string \<Rightarrow> bool" where
  "num_end r \<longleftrightarrow> (r = [] \<or> \<not> is_digit (hd r) \<and> hd r \<notin> set ''.eE'')"

section \<open>Doubles\<close>

text \<open>A finite double is \<open>m * 2 ^ e\<close> with a significand of 53 bits, or fewer when \<open>e = -1074\<close>.\<close>

datatype py_float = Finite bool int int | Infinite bool

text \<open>The quotient rounded to the nearest integer, ties to even.\<close>

definition round_div :: "int \<Rightarrow> int \<Rightarrow> int" where
  "round_div a b = (let q = a div b; r = a mod b in
     if 2 * r < b then q else if b < 2 * r then q + 1 else if even q then q else q + 1)"

function bit_length :: "int \<Rightarrow> int" where
  "bit_length n = (if n \<le> 0 then 0 else 1 + bit_length (n div 2))"
  by pat_completeness auto
termination by (relation "measure nat") auto

declare bit_length.simps [simp del]

text \<open>\<open>p / q\<close> times \<open>b ^ -e\<close> as a fraction.\<close>

definition rescale :: "int \<Rightarrow> int \<Rightarrow> int \<Rightarrow> int \<Rightarrow> int \<times> int" where
  "rescale b p q e = (if 0 \<le> e then (p, q * b ^ nat e) else (p * b ^ nat (- e), q))"

definition nearest_double :: "bool \<Rightarrow> int \<Rightarrow> int \<Rightarrow> py_float" where
  "nearest_double neg p q =
     (let e0 = max (bit_length p - bit_length q - 53) (- 1074);
          e1 = (case rescale 2 p q e0 of (p', q') \<Rightarrow> if 2 ^ 53 \<le> p' div q' then e0 + 1 else e0);
          m1 = (case rescale 2 p q e1 of (p', q') \<Rightarrow> round_div p' q');
          (m, e) = (if m1 = 2 ^ 53 then (2 ^ 52, e1 + 1) else (m1, e1))
      in if 971 < e then Infinite neg else Finite neg m e)"

text \<open>The float of a literal: its digits times a power of ten, rounded once.\<close>

definition float_of_literal :: "literal \<Rightarrow> py_float" where
  "float_of_literal l =
     (let d = int (digits_val 0 (li_whole l @ li_fraction l));
          x = (case li_exponent l of None \<Rightarrow> 0 | Some (neg, ds) \<Rightarrow> let n = int (digits_val 0 ds) in if neg then - n else n)
      in if d = 0 then Finite (li_negative l) 0 (- 1074)
         else case rescale 10 d 1 (int (length (li_fraction l)) - x) of (p, q) \<Rightarrow> nearest_double (li_negative l) p q)"

definition float_of_text :: "string \<Rightarrow> py_float option" where
  "float_of_text t = (case read_number t of
     Some (l, r) \<Rightarrow> if r = [] \<and> is_float l then Some (float_of_literal l) else None | None \<Rightarrow> None)"

section \<open>The text of a double\<close>

text \<open>The largest \<open>k\<close> with \<open>10 ^ k\<close> at most \<open>p / q\<close>.\<close>

definition log10_floor :: "int \<Rightarrow> int \<Rightarrow> int" where
  "log10_floor p q =
     (if q \<le> p then int (length (jint (p div q))) - 1
      else let l = int (length (jint q)) - int (length (jint p)) in if q \<le> p * 10 ^ nat l then - l else - l - 1)"

text \<open>The number \<open>d * 10 ^ s\<close> in the format of \<open>repr\<close>: without trailing zeros, and with an exponent when the decimal point is more
  than 16 digits to the right or more than three zeros to the left of the digits.\<close>

definition strip_zeros :: "string \<Rightarrow> string" where
  "strip_zeros ds = rev (dropWhile (\<lambda>c. c = CHR ''0'') (rev ds))"

definition exponent_text :: "int \<Rightarrow> string" where
  "exponent_text x = ''e'' @ (if x < 0 then ''-'' else ''+'') @ (if \<bar>x\<bar> < 10 then ''0'' else []) @ jint \<bar>x\<bar>"

definition float_format :: "bool \<Rightarrow> int \<Rightarrow> int \<Rightarrow> string" where
  "float_format neg d s =
     (let ds = strip_zeros (jint d); decpt = int (length (jint d)) + s; n = nat decpt
      in (if neg then ''-'' else []) @
         (if - 4 < decpt \<and> decpt \<le> 16 then
            if decpt \<le> 0 then ''0.'' @ replicate (nat (- decpt)) (CHR ''0'') @ ds
            else if length ds \<le> n then ds @ replicate (n - length ds) (CHR ''0'') @ ''.0''
            else take n ds @ ''.'' @ drop n ds
          else take 1 ds @ (if 1 < length ds then CHR ''.'' # drop 1 ds else []) @ exponent_text (decpt - 1)))"

text \<open>The decimals with \<open>n\<close> digits next to \<open>m * 2 ^ e\<close>, the nearer one first.\<close>

definition decimals_near :: "bool \<Rightarrow> int \<Rightarrow> int \<Rightarrow> nat \<Rightarrow> string list" where
  "decimals_near neg m e n =
     (case rescale 2 m 1 (- e) of (p, q) \<Rightarrow>
        let s = log10_floor p q - int n + 1 in
        case rescale 10 p q s of (p', q') \<Rightarrow>
          let d = p' div q'; r = 2 * (p' mod q') in
          map (\<lambda>x. float_format neg x s) (if r < q' \<or> r = q' \<and> even d then [d, d + 1] else [d + 1, d]))"

text \<open>The shortest of them that reads back. Seventeen digits identify a double, so that the search finds one.\<close>

definition json_float :: "py_float \<Rightarrow> string" where
  "json_float x =
     (case x of Infinite neg \<Rightarrow> if neg then ''-Infinity'' else ''Infinity''
      | Finite neg m e \<Rightarrow>
          if m = 0 then (if neg then ''-0.0'' else ''0.0'')
          else (case find (\<lambda>t. float_of_text t = Some x) (concat (map (decimals_near neg m e) [1..<18])) of
            Some t \<Rightarrow> t | None \<Rightarrow> ''0.0''))"

text \<open>The texts of floats.\<close>

definition nonfinite_texts :: "string list" where
  "nonfinite_texts = [''NaN'', ''Infinity'', ''-Infinity'']"

definition float_canonical :: "string \<Rightarrow> bool" where
  "float_canonical t \<longleftrightarrow> t \<in> set nonfinite_texts \<or> (case float_of_text t of Some x \<Rightarrow> json_float x = t | None \<Rightarrow> False)"

section \<open>Reading what was printed\<close>

lemma digits_num_end:
  assumes "num_end r"
  shows "span_digits (s @ r) = (fst (span_digits s), snd (span_digits s) @ r)"
proof (cases "\<forall>c \<in> set s. is_digit c")
  case True
  then have "dropWhile is_digit s = []" "takeWhile is_digit s = s" by (simp_all add: takeWhile_eq_all_conv)
  moreover have "takeWhile is_digit r = [] \<and> dropWhile is_digit r = r"
    using assms by (cases r) (auto simp: num_end_def)
  ultimately show ?thesis using True by (simp add: span_digits_def) (metis takeWhile_eq_all_conv)
next
  case False
  then obtain c where "c \<in> set s" "\<not> is_digit c" by blast
  then show ?thesis by (simp add: span_digits_def takeWhile_append1 dropWhile_append1)
qed

lemma whole_part_append: "num_end r \<Longrightarrow> s \<noteq> [] \<Longrightarrow> whole_part (s @ r) = (fst (whole_part s), snd (whole_part s) @ r)"
  using digits_num_end [of r s] by (cases s) (auto simp: whole_part_def)

lemma fraction_part_append:
  assumes "num_end r"
  shows "fraction_part (s @ r) = (fst (fraction_part s), snd (fraction_part s) @ r)"
proof (cases s)
  case Nil
  then show ?thesis using assms by (cases r) (auto simp: fraction_part_def num_end_def)
next
  case (Cons c t)
  then show ?thesis using digits_num_end [OF assms, of t] by (auto simp: fraction_part_def)
qed

lemma take_sign_append: "s \<noteq> [] \<Longrightarrow> take_sign (s @ r) = (fst (take_sign s), snd (take_sign s) @ r)"
  by (cases s) (auto simp: take_sign_def)

lemma exponent_part_append:
  assumes "num_end r" "snd (exponent_part s) = []"
  shows "exponent_part (s @ r) = (fst (exponent_part s), r)"
proof (cases s)
  case Nil
  then show ?thesis using assms(1) by (cases r) (auto simp: exponent_part_def num_end_def)
next
  case (Cons c t)
  obtain neg u where u: "take_sign t = (neg, u)" by fastforce
  have d: "fst (span_digits u) \<noteq> []" "snd (span_digits u) = []" and c: "c = CHR ''e'' \<or> c = CHR ''E''"
    using assms(2) Cons u by (auto simp: exponent_part_def split: if_splits)
  have "t \<noteq> []" using d(1) u by (auto simp: take_sign_def span_digits_def)
  from take_sign_append [OF this, of r] u have "take_sign (t @ r) = (neg, u @ r)" by simp
  then show ?thesis using digits_num_end [OF assms(1), of u] d c Cons u by (auto simp: exponent_part_def)
qed

lemma whole_part_Nil [simp]: "whole_part [] = ([], [])"
  by (simp add: whole_part_def)

lemma read_number_append:
  assumes "read_number t = Some (l, [])" "num_end r"
  shows "read_number (t @ r) = Some (l, r)"
proof -
  obtain neg s1 where s1: "(case t of c # r \<Rightarrow> if c = CHR ''-'' then (True, r) else (False, t) | [] \<Rightarrow> (False, [])) = (neg, s1)"
    by fastforce
  obtain whole s2 where s2: "whole_part s1 = (whole, s2)" by fastforce
  obtain fraction s3 where s3: "fraction_part s2 = (fraction, s3)" by fastforce
  obtain expo s4 where s4: "exponent_part s3 = (expo, s4)" by fastforce
  have l: "whole \<noteq> []" "s4 = []" "l = \<lparr>li_negative = neg, li_whole = whole, li_fraction = fraction, li_exponent = expo\<rparr>"
    using assms(1) s1 s2 s3 s4 by (auto simp: read_number_def split: if_splits)
  have ne: "s1 \<noteq> []" using l(1) s2 by auto
  then have "(case t @ r of c # u \<Rightarrow> if c = CHR ''-'' then (True, u) else (False, t @ r) | [] \<Rightarrow> (False, [])) = (neg, s1 @ r)"
    using s1 by (cases t) (auto split: if_splits)
  then show ?thesis
    using whole_part_append [OF assms(2) ne] fraction_part_append [OF assms(2), of s2] exponent_part_append [OF assms(2), of s3]
      s2 s3 s4 l by (simp add: read_number_def)
qed

lemma read_number_jint:
  assumes "num_end r"
  shows "\<exists>l. read_number (jint i @ r) = Some (l, r) \<and> \<not> is_float l \<and> literal_int l = i"
proof -
  define n where "n = nat \<bar>i\<bar>"
  have j: "jint i = (if i < 0 then CHR ''-'' # jnat n else jnat n)" by (auto simp: jint_def n_def)
  obtain c cs where c: "jnat n = c # cs" using jnat_nonempty by (cases "jnat n") auto
  have dig: "is_digit c" "c \<noteq> CHR ''-''" using hd_jnat_digit [of n] digit_not_minus c by auto
  have w: "whole_part (jnat n) = (jnat n, [])"
  proof (cases "n = 0")
    case True
    then show ?thesis by (simp add: whole_part_def jnat_small hexdig_0)
  next
    case False
    then have "c \<noteq> CHR ''0''" using hd_jnat_pos [of n] c by simp
    then show ?thesis using jnat_digits [of n] c by (simp add: whole_part_def span_digits_def takeWhile_eq_all_conv)
  qed
  let ?l = "\<lparr>li_negative = i < 0, li_whole = jnat n, li_fraction = [], li_exponent = None\<rparr>"
  have "read_number (jint i) = Some (?l, [])"
    using j c dig w by (auto simp: read_number_def fraction_part_def exponent_part_def)
  from read_number_append [OF this assms] show ?thesis
    by (auto simp: is_float_def literal_int_def digits_val_jnat n_def Let_def)
qed

lemma float_of_literal_text: "float_of_text ''0.0'' = Some (Finite False 0 (- 1074))" "float_of_text ''-0.0'' = Some (Finite True 0 (- 1074))"
  by code_simp+

text \<open>The text of a float is canonical, and reading it gives the same text again.\<close>

lemma json_float_canonical: "float_canonical (json_float x)"
proof (cases x)
  case (Infinite neg)
  then show ?thesis by (simp add: float_canonical_def json_float_def nonfinite_texts_def)
next
  case (Finite neg m e)
  show ?thesis
  proof (cases "m \<noteq> 0 \<and> find (\<lambda>t. float_of_text t = Some x) (concat (map (decimals_near neg m e) [1..<18])) \<noteq> None")
    case True
    then obtain t where t: "find (\<lambda>t. float_of_text t = Some x) (concat (map (decimals_near neg m e) [1..<18])) = Some t" by blast
    then have "float_of_text t = Some x" by (auto simp: find_Some_iff)
    moreover have "json_float x = t" using True Finite t by (simp add: json_float_def)
    ultimately show ?thesis by (simp add: float_canonical_def)
  next
    case False
    then have "json_float x = (if m = 0 \<and> neg then ''-0.0'' else ''0.0'')" using Finite by (auto simp: json_float_def)
    then show ?thesis by (auto simp: float_canonical_def float_of_literal_text) (simp_all add: json_float_def)
  qed
qed

lemma read_canonical:
  assumes "float_canonical t" "t \<notin> set nonfinite_texts" "num_end r"
  shows "\<exists>l. read_number (t @ r) = Some (l, r) \<and> is_float l \<and> json_float (float_of_literal l) = t"
proof -
  from assms(1,2) obtain l where l: "read_number t = Some (l, [])" "is_float l" "json_float (float_of_literal l) = t"
    by (auto simp: float_canonical_def float_of_text_def split: option.splits if_splits)
  with read_number_append [OF l(1) assms(3)] show ?thesis by blast
qed

text \<open>Its characters are printable, and the first is a digit, a minus sign or a letter of the constants.\<close>

lemma digits_chars: "c \<in> set (fst (span_digits s)) \<Longrightarrow> is_digit c" "s = fst (span_digits s) @ snd (span_digits s)"
  by (auto simp: span_digits_def dest: set_takeWhileD)

definition number_char :: "char \<Rightarrow> bool" where
  "number_char c \<longleftrightarrow> is_digit c \<or> c \<in> set ''+-.eE''"

lemma digits_number_chars: "span_digits s = (a, b) \<Longrightarrow> list_all number_char b \<Longrightarrow> list_all number_char s"
  using digits_chars(1) [where s = s] digits_chars(2) [of s]
  by (auto simp: list_all_iff number_char_def)

lemma whole_part_chars: "whole_part s = (a, b) \<Longrightarrow> list_all number_char b \<Longrightarrow> list_all number_char s"
  using digits_number_chars [of s] by (cases s) (auto simp: whole_part_def number_char_def is_digit_def digit_val_def split: if_splits)

lemma fraction_part_chars: "fraction_part s = (a, b) \<Longrightarrow> list_all number_char b \<Longrightarrow> list_all number_char s"
  using digits_number_chars [of "tl s"] by (cases s) (auto simp: fraction_part_def number_char_def split: if_splits)

lemma exponent_part_chars: "exponent_part s = (a, b) \<Longrightarrow> list_all number_char b \<Longrightarrow> list_all number_char s"
proof -
  assume e: "exponent_part s = (a, b)" "list_all number_char b"
  have "list_all number_char t" if "take_sign t = (neg, u)" "list_all number_char u" for t neg u
    using that by (cases t) (auto simp: take_sign_def number_char_def split: if_splits)
  moreover obtain c t where "s = c # t \<or> s = []" by (cases s) auto
  moreover obtain neg u where "take_sign t = (neg, u)" by fastforce
  moreover obtain x y where "span_digits u = (x, y)" by fastforce
  ultimately show ?thesis using e digits_number_chars [of u x y]
    by (auto simp: exponent_part_def number_char_def split: if_splits)
qed

lemma read_number_chars: "read_number t = Some (l, []) \<Longrightarrow> list_all number_char t"
proof -
  assume r: "read_number t = Some (l, [])"
  obtain neg s1 where s1: "(case t of c # r \<Rightarrow> if c = CHR ''-'' then (True, r) else (False, t) | [] \<Rightarrow> (False, [])) = (neg, s1)"
    by fastforce
  obtain whole s2 where s2: "whole_part s1 = (whole, s2)" by fastforce
  obtain fraction s3 where s3: "fraction_part s2 = (fraction, s3)" by fastforce
  obtain expo s4 where s4: "exponent_part s3 = (expo, s4)" by fastforce
  have "s4 = []" using r s1 s2 s3 s4 by (auto simp: read_number_def split: if_splits)
  then have "list_all number_char s1"
    using whole_part_chars [OF s2] fraction_part_chars [OF s3] exponent_part_chars [OF s4] by simp
  then show ?thesis using s1 by (cases t) (auto simp: number_char_def split: if_splits)
qed

lemma read_number_Nil [simp]: "read_number [] = None"
  by (simp add: read_number_def)

lemma read_number_Cons: "read_number (c # r) = Some x \<Longrightarrow> is_digit c \<or> c = CHR ''-''"
  by (auto simp: read_number_def whole_part_def span_digits_def is_digit_def digit_val_def split: if_splits)

lemma canonical_chars:
  assumes "float_canonical t"
  shows "\<exists>c cs. t = c # cs \<and> (is_digit c \<or> c \<in> set ''-NI'')" "\<forall>c \<in> set t. 0x20 \<le> (of_char c :: nat)"
proof -
  have "(\<exists>c cs. t = c # cs \<and> (is_digit c \<or> c \<in> set ''-NI'')) \<and> (\<forall>c \<in> set t. 0x20 \<le> (of_char c :: nat))"
  proof (cases "t \<in> set nonfinite_texts")
    case True
    then show ?thesis by (auto simp: nonfinite_texts_def)
  next
    case False
    with assms obtain l where l: "read_number t = Some (l, [])"
      by (auto simp: float_canonical_def float_of_text_def split: option.splits if_splits)
    then obtain c cs where c: "t = c # cs" by (cases t) auto
    have "number_char x \<Longrightarrow> 0x20 \<le> (of_char x :: nat)" for x
      by (auto simp: number_char_def is_digit_def digit_val_def Let_def split: if_splits)
    then show ?thesis using read_number_chars [OF l] read_number_Cons [of c cs] l c by (auto simp: list_all_iff)
  qed
  then show "\<exists>c cs. t = c # cs \<and> (is_digit c \<or> c \<in> set ''-NI'')" "\<forall>c \<in> set t. 0x20 \<le> (of_char c :: nat)" by blast+
qed

end
