(* ===== verification/Json.thy ===== *)
theory Json
  imports Py_Number
begin

text \<open>
  JSON values and the two functions of Python's \<open>json\<close> module that every component calls:
  \<open>json.dumps(v, sort_keys=True, separators=(",", ":"))\<close>, with and without
  \<open>ensure_ascii\<close>, and \<open>json.loads\<close>. A float is the text that is printed for it, \<open>NaN\<close> and the two
  infinities included; objects are dictionaries, so their keys are distinct (\<open>json_wf\<close>). \<open>finite_json\<close> says that
  \<open>allow_nan=False\<close> does not raise, and \<open>json_mode\<close> is what pydantic dumps in JSON mode. The main facts are
  the round trip \<open>loads_dumps\<close> and the injectivity of the canonical text up to the order of
  the keys, \<open>dumps_inj\<close>.
\<close>

section \<open>Values\<close>

datatype json =
    JNull
  | JBool bool
  | JInt int
  | JFloat string
  | JStr string
  | JArr "json list"
  | JObj "(string \<times> json) list"

fun json_wf :: "json \<Rightarrow> bool" where
  "json_wf (JArr vs) = list_all json_wf vs"
| "json_wf (JObj kvs) = (distinct (keys kvs) \<and> list_all (\<lambda>p. json_wf (snd p)) kvs)"
| "json_wf (JFloat t) = float_canonical t"
| "json_wf _ = True"

text \<open>The same value with the keys of every object in code-point order.\<close>

fun norm :: "json \<Rightarrow> json" where
  "norm (JArr vs) = JArr (map norm vs)"
| "norm (JObj kvs) = JObj (sort_key fst (map (\<lambda>p. (fst p, norm (snd p))) kvs))"
| "norm v = v"

text \<open>No float of the value is \<open>NaN\<close> or infinite; otherwise \<open>json.dumps(..., allow_nan=False)\<close> raises a \<open>ValueError\<close>.\<close>

fun finite_json :: "json \<Rightarrow> bool" where
  "finite_json (JArr vs) = list_all finite_json vs"
| "finite_json (JObj kvs) = list_all (\<lambda>p. finite_json (snd p)) kvs"
| "finite_json (JFloat t) = (t \<notin> set nonfinite_texts)"
| "finite_json _ = True"

text \<open>\<open>model_dump(mode="json")\<close> of a value of type \<open>Any\<close>: \<open>NaN\<close> and the infinities become \<open>None\<close>, the default of
  pydantic's setting \<open>ser_json_inf_nan\<close>.\<close>

fun json_mode :: "json \<Rightarrow> json" where
  "json_mode (JArr vs) = JArr (map json_mode vs)"
| "json_mode (JObj kvs) = JObj (map (\<lambda>p. (fst p, json_mode (snd p))) kvs)"
| "json_mode (JFloat t) = (if t \<in> set nonfinite_texts then JNull else JFloat t)"
| "json_mode v = v"

definition jget :: "(string \<times> json) list \<Rightarrow> string \<Rightarrow> json option" where
  "jget = map_of"

section \<open>Printing\<close>

abbreviation QUOTE :: char where "QUOTE \<equiv> CHR 0x22"
abbreviation BSLASH :: char where "BSLASH \<equiv> CHR 0x5C"

definition hex4 :: "nat \<Rightarrow> string" where
  "hex4 n = [hexdig (n div 0x1000 mod 16), hexdig (n div 0x100 mod 16),
             hexdig (n div 0x10 mod 16), hexdig (n mod 16)]"

definition codepoint :: "char \<Rightarrow> nat" where
  "codepoint c = (if c = ellipsis then 0x2026 else of_char c)"

definition esc_char :: "bool \<Rightarrow> char \<Rightarrow> string" where
  "esc_char ascii c =
     (if c = QUOTE then [BSLASH, QUOTE]
      else if c = BSLASH then [BSLASH, BSLASH]
      else if c = CHR 0x08 then [BSLASH, CHR ''b'']
      else if c = CHR 0x0C then [BSLASH, CHR ''f'']
      else if c = CHR 0x0A then [BSLASH, CHR ''n'']
      else if c = CHR 0x0D then [BSLASH, CHR ''r'']
      else if c = CHR 0x09 then [BSLASH, CHR ''t'']
      else if (of_char c :: nat) < 0x20 \<or> (ascii \<and> 0x7E < (of_char c :: nat))
      then [BSLASH, CHR ''u''] @ hex4 (codepoint c)
      else [c])"

definition jstr :: "bool \<Rightarrow> string \<Rightarrow> string" where
  "jstr ascii s = QUOTE # concat (map (esc_char ascii) s) @ [QUOTE]"

fun commas :: "string list \<Rightarrow> string" where
  "commas [] = []"
| "commas [x] = x"
| "commas (x # y # ys) = x @ CHR '','' # commas (y # ys)"

definition member_text :: "bool \<Rightarrow> string \<times> string \<Rightarrow> string" where
  "member_text ascii p = jstr ascii (fst p) @ CHR '':'' # snd p"

fun dumps :: "bool \<Rightarrow> json \<Rightarrow> string" where
  "dumps ascii JNull = ''null''"
| "dumps ascii (JBool b) = (if b then ''true'' else ''false'')"
| "dumps ascii (JInt i) = jint i"
| "dumps ascii (JFloat t) = t"
| "dumps ascii (JStr s) = jstr ascii s"
| "dumps ascii (JArr vs) = CHR ''['' # commas (map (dumps ascii) vs) @ '']''"
| "dumps ascii (JObj kvs) =
     CHR ''{'' # commas (map (member_text ascii)
       (sort_key fst (map (\<lambda>p. (fst p, dumps ascii (snd p))) kvs))) @ ''}''"

section \<open>Parsing\<close>

definition is_ws :: "char \<Rightarrow> bool" where
  "is_ws c \<longleftrightarrow> c = CHR '' '' \<or> c = CHR 0x09 \<or> c = CHR 0x0A \<or> c = CHR 0x0D"

definition skip_ws :: "string \<Rightarrow> string" where
  "skip_ws = dropWhile is_ws"

definition hex_val :: "char \<Rightarrow> nat option" where
  "hex_val c = (let n = (of_char c :: nat) in
     if 48 \<le> n \<and> n \<le> 57 then Some (n - 48)
     else if 97 \<le> n \<and> n \<le> 102 then Some (n - 87)
     else if 65 \<le> n \<and> n \<le> 70 then Some (n - 55) else None)"

text \<open>A four-digit escape; code points outside the model's alphabet are refused.\<close>

definition from_hex4 :: "char \<Rightarrow> char \<Rightarrow> char \<Rightarrow> char \<Rightarrow> char option" where
  "from_hex4 a b c d =
     (case (hex_val a, hex_val b, hex_val c, hex_val d) of
        (Some w, Some x, Some y, Some z) \<Rightarrow>
          (let n = w * 0x1000 + x * 0x100 + y * 0x10 + z in
           if n = 0x2026 then Some ellipsis
           else if n < 256 \<and> n \<noteq> 0xFF then Some (char_of n) else None)
      | _ \<Rightarrow> None)"

definition simple_escape :: "char \<Rightarrow> char option" where
  "simple_escape c =
     (if c = QUOTE then Some QUOTE else if c = BSLASH then Some BSLASH
      else if c = CHR ''/'' then Some (CHR ''/'')
      else if c = CHR ''b'' then Some (CHR 0x08) else if c = CHR ''f'' then Some (CHR 0x0C)
      else if c = CHR ''n'' then Some (CHR 0x0A) else if c = CHR ''r'' then Some (CHR 0x0D)
      else if c = CHR ''t'' then Some (CHR 0x09) else None)"

fun parse_esc :: "string \<Rightarrow> (char \<times> string) option" where
  "parse_esc [] = None"
| "parse_esc (e # r) =
     (if e = CHR ''u''
      then (case r of w # x # y # z # r' \<Rightarrow> map_option (\<lambda>c. (c, r')) (from_hex4 w x y z) | _ \<Rightarrow> None)
      else map_option (\<lambda>c. (c, r)) (simple_escape e))"

lemma parse_esc_shorter: "parse_esc s = Some (c, r) \<Longrightarrow> length r < length s"
  by (cases s) (auto split: if_splits list.splits)

text \<open>The body of a string literal, after its opening quote.\<close>

function parse_str :: "string \<Rightarrow> (string \<times> string) option" where
  "parse_str [] = None"
| "parse_str (c # r) =
     (if c = QUOTE then Some ([], r)
      else if c = BSLASH then
        (case parse_esc r of None \<Rightarrow> None
         | Some (d, r') \<Rightarrow> map_option (\<lambda>(t, u). (d # t, u)) (parse_str r'))
      else if (of_char c :: nat) < 0x20 then None
      else map_option (\<lambda>(t, u). (c # t, u)) (parse_str r))"
  by pat_completeness auto
termination
  by (relation "measure length") (auto dest: parse_esc_shorter)

definition parse_num :: "string \<Rightarrow> (json \<times> string) option" where
  "parse_num s = (case read_number s of None \<Rightarrow> None
     | Some (l, r) \<Rightarrow> Some (if is_float l then JFloat (json_float (float_of_literal l)) else JInt (literal_int l), r))"

definition parse_constant :: "string \<Rightarrow> (json \<times> string) option" where
  "parse_constant s =
     (if take 3 s = ''NaN'' then Some (JFloat ''NaN'', drop 3 s)
      else if take 8 s = ''Infinity'' then Some (JFloat ''Infinity'', drop 8 s)
      else if take 9 s = ''-Infinity'' then Some (JFloat ''-Infinity'', drop 9 s) else None)"

text \<open>A parsed object is a Python \<open>dict\<close>: a repeated key keeps its place and takes the last value.\<close>

definition py_dict :: "(string \<times> 'v) list \<Rightarrow> (string \<times> 'v) list" where
  "py_dict ps = fold (\<lambda>(k, v) d. AList.update k v d) ps []"

text \<open>The parser spends one unit of fuel per nesting level and per element; \<open>loads\<close> gives it one
  more than the length of the text.\<close>

fun parse_val :: "nat \<Rightarrow> string \<Rightarrow> (json \<times> string) option"
and parse_elems :: "nat \<Rightarrow> string \<Rightarrow> (json list \<times> string) option"
and parse_members :: "nat \<Rightarrow> string \<Rightarrow> ((string \<times> json) list \<times> string) option" where
  "parse_val 0 s = None"
| "parse_val (Suc f) s =
     (case s of [] \<Rightarrow> None
      | c # r \<Rightarrow>
         if c = QUOTE then map_option (\<lambda>(t, u). (JStr t, u)) (parse_str r)
         else if c = CHR ''{'' then
           (case skip_ws r of [] \<Rightarrow> None
            | d # r2 \<Rightarrow> if d = CHR ''}'' then Some (JObj [], r2)
                else map_option (\<lambda>(ms, u). (JObj (py_dict ms), u)) (parse_members f (d # r2)))
         else if c = CHR ''['' then
           (case skip_ws r of [] \<Rightarrow> None
            | d # r2 \<Rightarrow> if d = CHR '']'' then Some (JArr [], r2)
                else map_option (\<lambda>(vs, u). (JArr vs, u)) (parse_elems f (d # r2)))
         else if take 4 s = ''null'' then Some (JNull, drop 4 s)
         else if take 4 s = ''true'' then Some (JBool True, drop 4 s)
         else if take 5 s = ''false'' then Some (JBool False, drop 5 s)
         else (case parse_num s of Some x \<Rightarrow> Some x | None \<Rightarrow> parse_constant s))"
| "parse_elems 0 s = None"
| "parse_elems (Suc f) s =
     (case parse_val f s of None \<Rightarrow> None
      | Some (v, r) \<Rightarrow>
         (case skip_ws r of [] \<Rightarrow> None
          | d # r2 \<Rightarrow> if d = CHR '']'' then Some ([v], r2)
              else if d = CHR '','' then map_option (\<lambda>(vs, u). (v # vs, u)) (parse_elems f (skip_ws r2))
              else None))"
| "parse_members 0 s = None"
| "parse_members (Suc f) s =
     (case s of [] \<Rightarrow> None
      | q # r \<Rightarrow>
         if q \<noteq> QUOTE then None
         else (case parse_str r of None \<Rightarrow> None
          | Some (k, r1) \<Rightarrow>
             (case skip_ws r1 of [] \<Rightarrow> None
              | d # r2 \<Rightarrow> if d \<noteq> CHR '':'' then None
                 else (case parse_val f (skip_ws r2) of None \<Rightarrow> None
                  | Some (v, r3) \<Rightarrow>
                     (case skip_ws r3 of [] \<Rightarrow> None
                      | e # r4 \<Rightarrow> if e = CHR ''}'' then Some ([(k, v)], r4)
                          else if e = CHR '','' then
                            map_option (\<lambda>(ms, u). ((k, v) # ms, u)) (parse_members f (skip_ws r4))
                          else None)))))"

definition loads :: "string \<Rightarrow> json option" where
  "loads s = (case parse_val (Suc (length s)) (skip_ws s) of
     Some (v, r) \<Rightarrow> (if skip_ws r = [] then Some v else None)
   | None \<Rightarrow> None)"

section \<open>Parsing what was printed\<close>

lemma skip_ws_simps [simp]:
  "skip_ws [] = []"
  "skip_ws (c # r) = (if is_ws c then skip_ws r else c # r)"
  by (simp_all add: skip_ws_def)

lemma hexdig_table: "\<forall>n \<in> set [0..<16]. hex_val (hexdig n) = Some n"
  by code_simp

lemma hex_val_hexdig: "n < 16 \<Longrightarrow> hex_val (hexdig n) = Some n"
  using hexdig_table by simp

lemma hex4_value:
  assumes "n < 0x10000"
  shows "n div 0x1000 mod 16 * 0x1000 + n div 0x100 mod 16 * 0x100 + n div 0x10 mod 16 * 0x10 + n mod 16 = (n::nat)"
proof -
  define a b c where "a = n div 16" and "b = a div 16" and "c = b div 16"
  have bc: "n div 0x100 = b" "n div 0x1000 = c"
    by (simp_all add: a_def b_def c_def div_mult2_eq [symmetric])
  have "c < 16" using assms bc(2) by linarith
  moreover have "n = a * 16 + n mod 16" "a = b * 16 + a mod 16" "b = c * 16 + b mod 16"
    by (simp_all add: a_def b_def c_def div_mult_mod_eq)
  ultimately show ?thesis unfolding bc a_def [symmetric] by simp
qed

lemma from_hex4_value:
  assumes "n < 0x10000"
  shows "from_hex4 (hexdig (n div 0x1000 mod 16)) (hexdig (n div 0x100 mod 16))
     (hexdig (n div 0x10 mod 16)) (hexdig (n mod 16)) =
     (if n = 0x2026 then Some ellipsis else if n < 256 \<and> n \<noteq> 0xFF then Some (char_of n) else None)"
  unfolding from_hex4_def by (simp add: hex_val_hexdig Let_def hex4_value [OF assms] del: mod_less)

lemma from_hex4_codepoint:
  "from_hex4 (hexdig (codepoint c div 0x1000 mod 16)) (hexdig (codepoint c div 0x100 mod 16))
     (hexdig (codepoint c div 0x10 mod 16)) (hexdig (codepoint c mod 16)) = Some c"
proof -
  have small: "codepoint c < 0x10000"
    by (auto simp: codepoint_def intro: less_trans [OF nat_of_char_less_256])
  have "c \<noteq> ellipsis \<Longrightarrow> (of_char c :: nat) \<noteq> 0xFF"
    using of_char_eq_iff [of c ellipsis, where 'a = nat] by (simp add: ellipsis_def)
  moreover have "(of_char c :: nat) \<noteq> 0x2026"
    using nat_of_char_less_256 [of c] by linarith
  ultimately show ?thesis
    unfolding from_hex4_value [OF small] by (simp add: codepoint_def)
qed

lemma parse_str_esc:
  "parse_str (esc_char ascii c @ r) = map_option (\<lambda>(t, u). (c # t, u)) (parse_str r)"
  by (auto simp: esc_char_def simple_escape_def hex4_def from_hex4_codepoint)

lemma parse_str_jstr: "parse_str (concat (map (esc_char ascii) s) @ QUOTE # r) = Some (s, r)"
  by (induction s) (simp_all add: parse_str_esc)

subsection \<open>Numbers\<close>

lemma parse_num_jint: "num_end r \<Longrightarrow> parse_num (jint i @ r) = Some (JInt i, r)"
  using read_number_jint [of r i] by (auto simp: parse_num_def)

lemma parse_num_float:
  assumes "float_canonical t" "num_end r"
  shows "(case parse_num (t @ r) of Some x \<Rightarrow> Some x | None \<Rightarrow> parse_constant (t @ r)) = Some (JFloat t, r)"
proof (cases "t \<in> set nonfinite_texts")
  case True
  then have "parse_num (t @ r) = None" "parse_constant (t @ r) = Some (JFloat t, r)"
    by (auto simp: nonfinite_texts_def parse_num_def parse_constant_def read_number_def whole_part_def span_digits_def is_digit_def digit_val_def)
  then show ?thesis by simp
next
  case False
  then show ?thesis using read_canonical [OF assms(1) _ assms(2)] by (auto simp: parse_num_def)
qed

subsection \<open>Values\<close>

lemma digit_neq:
  "is_digit c \<Longrightarrow> c \<noteq> QUOTE \<and> c \<noteq> CHR ''{'' \<and> c \<noteq> CHR ''['' \<and> c \<noteq> CHR '']'' \<and> c \<noteq> CHR ''n'' \<and>
     c \<noteq> CHR ''t'' \<and> c \<noteq> CHR ''f'' \<and> \<not> is_ws c"
  by (auto simp: is_digit_def digit_val_def is_ws_def)

lemma dumps_Cons:
  assumes "json_wf v"
  obtains c cs where "dumps ascii v = c # cs" "\<not> is_ws c" "c \<noteq> CHR '']''"
proof (cases v)
  case (JFloat t)
  with assms obtain c cs where c: "t = c # cs" "is_digit c \<or> c \<in> set ''-NI''" using canonical_chars(1) [of t] by auto
  from c(2) have "\<not> is_ws c" "c \<noteq> CHR '']''"
    using digit_neq [of c] by (elim disjE; auto simp: is_ws_def)+
  with JFloat c(1) show ?thesis by (intro that) simp_all
next
  case (JInt i)
  obtain c cs where c: "jint i = c # cs" "is_digit c \<or> c = CHR ''-''" by (rule jint_Cons)
  from c(2) have "\<not> is_ws c" "c \<noteq> CHR '']''"
    using digit_neq [of c] by (elim disjE; simp add: is_ws_def)+
  with JInt c(1) show ?thesis by (intro that) simp_all
next
  case (JBool b)
  then show ?thesis using that by (cases b) (auto simp: is_ws_def)
qed (use that in \<open>auto simp: jstr_def is_ws_def split: if_splits\<close>)

lemma skip_ws_dumps [simp]: "json_wf v \<Longrightarrow> skip_ws (dumps ascii v @ r) = dumps ascii v @ r"
  by (erule dumps_Cons [of v ascii]) simp

lemma num_end_sep [simp]: "num_end []" "num_end (CHR '','' # r)" "num_end (CHR '']'' # r)" "num_end (CHR ''}'' # r)"
  by (simp_all add: num_end_def is_digit_def digit_val_def Let_def)

text \<open>What the induction on values provides for one value.\<close>

definition reads_back :: "bool \<Rightarrow> json \<Rightarrow> bool" where
  "reads_back ascii v \<longleftrightarrow> json_wf v \<and> (\<forall>f r. length (dumps ascii v) \<le> f \<longrightarrow> num_end r \<longrightarrow>
     parse_val f (dumps ascii v @ r) = Some (norm v, r))"

lemma reads_backD:
  "reads_back ascii v \<Longrightarrow> length (dumps ascii v) \<le> f \<Longrightarrow> num_end r \<Longrightarrow>
     parse_val f (dumps ascii v @ r) = Some (norm v, r)"
  by (simp add: reads_back_def)

lemma reads_back_wfD: "reads_back ascii v \<Longrightarrow> json_wf v"
  by (simp add: reads_back_def)

lemma parse_elems_dumps:
  assumes "list_all (reads_back ascii) vs" "vs \<noteq> []" "length (commas (map (dumps ascii) vs)) < f"
  shows "parse_elems f (commas (map (dumps ascii) vs) @ CHR '']'' # r) = Some (map norm vs, r)"
  using assms
proof (induction vs arbitrary: f)
  case (Cons v vs)
  obtain f' where f: "f = Suc f'" using Cons.prems(3) by (cases f) auto
  show ?case
  proof (cases vs)
    case Nil
    with Cons.prems f show ?thesis by (simp add: reads_backD is_ws_def)
  next
    case (Cons w ws)
    have v: "parse_val f' (dumps ascii v @ CHR '','' # t) = Some (norm v, CHR '','' # t)" for t
      using Cons.prems f local.Cons by (intro reads_backD) auto
    have "parse_elems f' (commas (map (dumps ascii) vs) @ CHR '']'' # r) = Some (map norm vs, r)"
      using Cons.prems f local.Cons by (intro Cons.IH) auto
    moreover have "skip_ws (commas (map (dumps ascii) vs) @ t) = commas (map (dumps ascii) vs) @ t" for t
      using local.Cons Cons.prems(1) by (cases ws) (simp_all add: reads_back_def)
    ultimately show ?thesis using local.Cons f v by (simp add: is_ws_def)
  qed
qed simp

lemma insort_key_map_snd:
  "insort_key fst (fst p, g (snd p)) (map (\<lambda>p. (fst p, g (snd p))) xs) =
     map (\<lambda>p. (fst p, g (snd p))) (insort_key fst p xs)"
  by (induction xs) auto

lemma sort_key_map_snd:
  "sort_key fst (map (\<lambda>p. (fst p, g (snd p))) kvs) = map (\<lambda>p. (fst p, g (snd p))) (sort_key fst kvs)"
  by (induction kvs) (simp_all add: sort_key_def insort_key_map_snd)

abbreviation members :: "bool \<Rightarrow> (string \<times> json) list \<Rightarrow> string" where
  "members ascii ps \<equiv> commas (map (\<lambda>p. member_text ascii (fst p, dumps ascii (snd p))) ps)"

lemma dumps_JObj: "dumps ascii (JObj kvs) = CHR ''{'' # members ascii (sort_key fst kvs) @ ''}''"
  by (simp add: sort_key_map_snd o_def)

lemma norm_JObj: "norm (JObj kvs) = JObj (map (\<lambda>p. (fst p, norm (snd p))) (sort_key fst kvs))"
  by (simp add: sort_key_map_snd)

lemma members_Cons: "ps \<noteq> [] \<Longrightarrow> \<exists>cs. members ascii ps = QUOTE # cs"
  by (cases ps rule: list.exhaust, simp, case_tac x22) (auto simp: member_text_def jstr_def)

lemma parse_members_dumps:
  assumes "list_all (\<lambda>p. reads_back ascii (snd p)) ps" "ps \<noteq> []" "length (members ascii ps) < f"
  shows "parse_members f (members ascii ps @ CHR ''}'' # r) =
     Some (map (\<lambda>p. (fst p, norm (snd p))) ps, r)"
  using assms
proof (induction ps arbitrary: f)
  case (Cons p ps)
  obtain f' where f: "f = Suc f'" using Cons.prems(3) by (cases f) auto
  show ?case
  proof (cases ps)
    case Nil
    with Cons.prems f show ?thesis
      by (simp add: reads_backD reads_back_wfD is_ws_def member_text_def jstr_def parse_str_jstr)
  next
    case (Cons q qs)
    have v: "parse_val f' (dumps ascii (snd p) @ CHR '','' # t) = Some (norm (snd p), CHR '','' # t)" for t
      using Cons.prems f local.Cons by (intro reads_backD) (auto simp: member_text_def jstr_def)
    have "parse_members f' (members ascii ps @ CHR ''}'' # r) =
        Some (map (\<lambda>p. (fst p, norm (snd p))) ps, r)"
      using Cons.prems f local.Cons by (intro Cons.IH) (auto simp: member_text_def jstr_def)
    moreover have "skip_ws (members ascii ps @ t) = members ascii ps @ t" for t
      using members_Cons [of ps ascii] local.Cons by (auto simp: is_ws_def)
    moreover have "members ascii (p # ps) = QUOTE # concat (map (esc_char ascii) (fst p)) @
        QUOTE # CHR '':'' # dumps ascii (snd p) @ CHR '','' # members ascii ps"
      using local.Cons by (simp add: member_text_def jstr_def)
    moreover have "json_wf (snd p)" using Cons.prems(1) reads_back_wfD by auto
    ultimately show ?thesis using local.Cons f v
      by (simp add: is_ws_def parse_str_jstr)
  qed
qed simp

lemma fold_update_fresh:
  "distinct (keys (acc @ ps)) \<Longrightarrow> fold (\<lambda>(k, v) d. AList.update k v d) ps acc = acc @ ps"
proof (induction ps arbitrary: acc)
  case (Cons p ps)
  then have "AList.update (fst p) (snd p) acc = acc @ [p]"
    by (subst update_fresh) auto
  with Cons.IH [of "acc @ [p]"] Cons.prems show ?case by (simp add: case_prod_beta)
qed simp

lemma py_dict_distinct: "distinct (keys ps) \<Longrightarrow> py_dict ps = ps"
  using fold_update_fresh [of "[]" ps] by (simp add: py_dict_def)

lemma distinct_keys_sort: "distinct (keys kvs) \<Longrightarrow> distinct (keys (sort_key fst kvs))"
  by (simp add: distinct_map)

lemma keys_map_snd [simp]: "keys (map (\<lambda>p. (fst p, g (snd p))) ps) = keys ps"
  by simp

lemma reads_back_JArr:
  assumes "list_all (reads_back ascii) vs"
  shows "reads_back ascii (JArr vs)"
  unfolding reads_back_def
proof (intro conjI allI impI)
  show "json_wf (JArr vs)" using assms by (simp add: list_all_iff reads_back_def)
  fix f r assume f: "length (dumps ascii (JArr vs)) \<le> f" and "num_end r"
  obtain f' where f': "f = Suc f'" using f by (cases f) auto
  show "parse_val f (dumps ascii (JArr vs) @ r) = Some (norm (JArr vs), r)"
  proof (cases "vs = []")
    case True
    then show ?thesis using f' by (simp add: is_ws_def)
  next
    case False
    then obtain v ws where vs: "vs = v # ws" by (cases vs) auto
    obtain c cs where c: "dumps ascii v = c # cs" "\<not> is_ws c" "c \<noteq> CHR '']''"
      using dumps_Cons [of v ascii] assms vs by (auto simp: reads_back_def)
    have "commas (map (dumps ascii) vs) = c # tl (commas (map (dumps ascii) vs))"
      using vs c by (cases ws) simp_all
    then obtain t where t: "commas (map (dumps ascii) vs) = c # t" by blast
    have "parse_elems f' (commas (map (dumps ascii) vs) @ CHR '']'' # r) = Some (map norm vs, r)"
      using f f' by (intro parse_elems_dumps [OF assms False]) simp
    then show ?thesis using f' t c by simp
  qed
qed

lemma reads_back_JObj:
  assumes "list_all (\<lambda>p. reads_back ascii (snd p)) kvs" "distinct (keys kvs)"
  shows "reads_back ascii (JObj kvs)"
  unfolding reads_back_def
proof (intro conjI allI impI)
  show "json_wf (JObj kvs)" using assms by (simp add: list_all_iff reads_back_def)
  fix f r assume f: "length (dumps ascii (JObj kvs)) \<le> f" and "num_end r"
  let ?ps = "sort_key fst kvs"
  obtain f' where f': "f = Suc f'" using f by (cases f) auto
  have all: "list_all (\<lambda>p. reads_back ascii (snd p)) ?ps" using assms(1) by (simp add: list_all_iff)
  show "parse_val f (dumps ascii (JObj kvs) @ r) = Some (norm (JObj kvs), r)"
  proof (cases "kvs = []")
    case True
    then show ?thesis using f' by (simp add: is_ws_def)
  next
    case False
    then have ne: "?ps \<noteq> []" by (metis set_empty set_sort)
    obtain cs where cs: "members ascii ?ps = QUOTE # cs" using members_Cons [OF ne] by blast
    have "parse_members f' (members ascii ?ps @ CHR ''}'' # r) =
        Some (map (\<lambda>p. (fst p, norm (snd p))) ?ps, r)"
      using f f' by (intro parse_members_dumps [OF all ne]) (simp add: dumps_JObj del: dumps.simps)
    moreover have "py_dict (map (\<lambda>p. (fst p, norm (snd p))) ?ps) = map (\<lambda>p. (fst p, norm (snd p))) ?ps"
      by (rule py_dict_distinct) (simp add: distinct_keys_sort [OF assms(2)] o_def)
    ultimately show ?thesis using f' cs
      by (simp add: dumps_JObj norm_JObj is_ws_def del: dumps.simps norm.simps)
  qed
qed

lemma reads_back_JInt: "reads_back ascii (JInt i)"
  unfolding reads_back_def
proof (intro conjI allI impI)
  fix f r assume f: "length (dumps ascii (JInt i)) \<le> f" and r: "num_end r"
  obtain c cs where c: "jint i = c # cs" "is_digit c \<or> c = CHR ''-''" by (rule jint_Cons)
  then have ne: "c \<noteq> QUOTE" "c \<noteq> CHR ''{''" "c \<noteq> CHR ''[''" "c \<noteq> CHR ''n''" "c \<noteq> CHR ''t''" "c \<noteq> CHR ''f''"
    using digit_neq [of c] by auto
  obtain f' where "f = Suc f'" using f c by (cases f) auto
  with ne c parse_num_jint [OF r, of i] show "parse_val f (dumps ascii (JInt i) @ r) = Some (norm (JInt i), r)"
    by simp
qed simp

lemma reads_back_JFloat:
  assumes "float_canonical t"
  shows "reads_back ascii (JFloat t)"
  unfolding reads_back_def
proof (intro conjI allI impI)
  fix f r assume f: "length (dumps ascii (JFloat t)) \<le> f" and r: "num_end r"
  obtain c cs where c: "t = c # cs" "is_digit c \<or> c \<in> set ''-NI''" using canonical_chars(1) [OF assms] by blast
  then have "c \<noteq> QUOTE" "c \<noteq> CHR ''{''" "c \<noteq> CHR ''[''" "c \<noteq> CHR ''n''" "c \<noteq> CHR ''t''" "c \<noteq> CHR ''f''"
    using digit_neq [of c] by auto
  moreover obtain f' where "f = Suc f'" using f c by (cases f) auto
  ultimately show "parse_val f (dumps ascii (JFloat t) @ r) = Some (norm (JFloat t), r)"
    using parse_num_float [OF assms r, unfolded c(1) append_Cons] c(1) by simp
qed (simp add: assms)

lemma reads_back_wf: "json_wf v \<Longrightarrow> reads_back ascii v"
proof (induction v)
  case (JArr vs)
  then show ?case by (intro reads_back_JArr) (auto simp: list_all_iff)
next
  case (JObj kvs)
  then show ?case by (intro reads_back_JObj) (fastforce simp: list_all_iff)+
next
  case (JStr s)
  show ?case
    unfolding reads_back_def by (auto simp: jstr_def parse_str_jstr elim!: Suc_le_D [THEN exE])
next
  case (JInt i)
  show ?case by (rule reads_back_JInt)
next
  case (JFloat t)
  then show ?case by (intro reads_back_JFloat) simp
qed (auto simp: reads_back_def elim!: Suc_le_D [THEN exE] split: if_splits)

theorem loads_dumps: "json_wf v \<Longrightarrow> loads (dumps ascii v) = Some (norm v)"
  using reads_backD [OF reads_back_wf, of v ascii "Suc (length (dumps ascii v))" "[]"]
    skip_ws_dumps [of v ascii "[]"]
  by (simp add: loads_def)

lemma dumps_norm: "dumps ascii (norm v) = dumps ascii v"
proof (induction v)
  case (JArr vs)
  then show ?case by (simp add: o_def cong: map_cong)
next
  case (JObj kvs)
  have "sort_key fst (sort_key fst kvs) = sort_key fst kvs"
    by (rule sort_key_id_if_sorted) simp
  moreover have "members ascii (map (\<lambda>p. (fst p, norm (snd p))) (sort_key fst kvs)) =
      members ascii (sort_key fst kvs)"
    unfolding map_map o_def by (rule arg_cong [where f = commas], rule map_cong) (auto simp: JObj [unfolded snds.simps])
  ultimately show ?case
    by (simp add: dumps_JObj norm_JObj sort_key_map_snd del: dumps.simps norm.simps)
qed simp_all

theorem dumps_inj: "json_wf v \<Longrightarrow> json_wf w \<Longrightarrow> dumps ascii v = dumps ascii w \<longleftrightarrow> norm v = norm w"
  by (metis loads_dumps dumps_norm option.inject)

section \<open>Lookups in canonical objects\<close>

lemma map_of_sort_key: "distinct (keys kvs) \<Longrightarrow> map_of (sort_key fst kvs) = map_of kvs"
  using map_of_inject_set [of "sort_key fst kvs" kvs] by (simp add: distinct_keys_sort)

lemma map_of_map_snd: "map_of (map (\<lambda>p. (fst p, g (snd p))) ps) k = map_option g (map_of ps k)"
  by (induction ps) auto

lemma norm_JObj_lookup:
  assumes "norm (JObj a) = norm (JObj b)" "distinct (keys a)" "distinct (keys b)"
  shows "map_option norm (map_of a k) = map_option norm (map_of b k)"
proof -
  have "map_of (map (\<lambda>p. (fst p, norm (snd p))) (sort_key fst a)) k =
      map_of (map (\<lambda>p. (fst p, norm (snd p))) (sort_key fst b)) k"
    using assms(1) by (simp add: norm_JObj del: norm.simps)
  then show ?thesis by (simp only: map_of_map_snd map_of_sort_key [OF assms(2)] map_of_sort_key [OF assms(3)])
qed

lemma dumps_JObj_lookup:
  assumes "dumps ascii (JObj a) = dumps ascii (JObj b)" "json_wf (JObj a)" "json_wf (JObj b)"
  shows "map_option norm (map_of a k) = map_option norm (map_of b k)"
  using assms by (intro norm_JObj_lookup) (simp_all add: dumps_inj del: dumps.simps norm.simps)

lemma norm_leaf [simp]:
  "norm v = JStr s \<longleftrightarrow> v = JStr s" "norm v = JInt i \<longleftrightarrow> v = JInt i"
  "norm v = JNull \<longleftrightarrow> v = JNull" "norm v = JBool b \<longleftrightarrow> v = JBool b"
  by (cases v; simp)+

lemma json_wf_norm: "json_wf v \<Longrightarrow> json_wf (norm v)"
proof (induction v)
  case (JObj kvs)
  then show ?case
    by (auto simp: norm_JObj list_all_iff distinct_keys_sort o_def simp del: norm.simps)
qed (auto simp: list_all_iff)

text \<open>The canonical text holds no control character, so a record is one line of a log.\<close>

lemma esc_char_printable: "x \<in> set (esc_char ascii c) \<Longrightarrow> 0x20 \<le> (of_char x :: nat)"
proof -
  have h: "\<forall>n \<in> set [0..<16]. 0x20 \<le> (of_char (hexdig n) :: nat)" by code_simp
  then have "n < 16 \<Longrightarrow> 0x20 \<le> (of_char (hexdig n) :: nat)" for n by simp
  then show "x \<in> set (esc_char ascii c) \<Longrightarrow> ?thesis"
    by (auto simp: esc_char_def hex4_def split: if_splits)
qed

lemma jstr_printable: "x \<in> set (jstr ascii s) \<Longrightarrow> 0x20 \<le> (of_char x :: nat)"
  by (auto simp: jstr_def dest: esc_char_printable)

lemma digit_printable: "is_digit x \<Longrightarrow> 0x20 \<le> (of_char x :: nat)"
  by (auto simp: is_digit_def digit_val_def Let_def split: if_splits)

lemma jint_printable: "x \<in> set (jint i) \<Longrightarrow> 0x20 \<le> (of_char x :: nat)"
  using jnat_digits by (auto simp: jint_def digit_printable split: if_splits)

lemma commas_set: "x \<in> set (commas xs) \<Longrightarrow> x = CHR '','' \<or> (\<exists>y \<in> set xs. x \<in> set y)"
  by (induction xs rule: commas.induct) auto

lemma dumps_printable: "json_wf v \<Longrightarrow> x \<in> set (dumps ascii v) \<Longrightarrow> 0x20 \<le> (of_char x :: nat)"
proof (induction v)
  case (JArr vs)
  then show ?case by (auto simp: list_all_iff dest!: commas_set)
next
  case (JObj kvs)
  then show ?case
    by (auto simp: dumps_JObj member_text_def list_all_iff simp del: dumps.simps dest!: commas_set jstr_printable) fastforce
next
  case (JFloat t)
  then show ?case using canonical_chars(2) [of t] by simp
qed (auto dest: jstr_printable jint_printable split: if_splits)

lemma dumps_no_newline: "json_wf v \<Longrightarrow> CHR 0x0A \<notin> set (dumps ascii v)" "json_wf v \<Longrightarrow> CHR 0x0D \<notin> set (dumps ascii v)"
  using dumps_printable [of v "CHR 0x0A" ascii] dumps_printable [of v "CHR 0x0D" ascii] by auto

section \<open>Parsed values are dictionaries\<close>

lemma distinct_fold_update:
  "distinct (keys d) \<Longrightarrow> distinct (keys (fold (\<lambda>(k, v). AList.update k v) ps d))"
  by (induction ps arbitrary: d) (auto intro: AList.distinct_update)

lemma set_update_vals: "p \<in> set (AList.update k v d) \<Longrightarrow> p = (k, v) \<or> p \<in> set d"
  by (induction d) (auto split: if_splits)

lemma fold_update_vals:
  "p \<in> set (fold (\<lambda>(k, v). AList.update k v) ps d) \<Longrightarrow> p \<in> set ps \<or> p \<in> set d"
proof (induction ps arbitrary: d)
  case (Cons q ps)
  then show ?case using set_update_vals by (cases q) fastforce
qed simp

lemma json_wf_py_dict: "list_all (\<lambda>p. json_wf (snd p)) ms \<Longrightarrow> json_wf (JObj (py_dict ms))"
  using fold_update_vals [of _ ms "[]"] distinct_fold_update [of "[]" ms]
  by (auto simp: py_dict_def list_all_iff)

lemma parse_num_wf: "parse_num s = Some (v, r) \<Longrightarrow> json_wf v"
  by (auto simp: parse_num_def json_float_canonical split: option.splits)

lemma parse_constant_wf: "parse_constant s = Some (v, r) \<Longrightarrow> json_wf v"
  by (auto simp: parse_constant_def float_canonical_def nonfinite_texts_def split: if_splits)

lemma parse_wf:
  "(\<forall>s v r. parse_val f s = Some (v, r) \<longrightarrow> json_wf v) \<and>
   (\<forall>s vs r. parse_elems f s = Some (vs, r) \<longrightarrow> list_all json_wf vs) \<and>
   (\<forall>s ms r. parse_members f s = Some (ms, r) \<longrightarrow> list_all (\<lambda>p. json_wf (snd p)) ms)"
proof (induction f)
  case (Suc f)
  then have val: "json_wf v" if "parse_val f s = Some (v, r)" for s v r using that by blast
  have elems: "list_all json_wf vs" if "parse_elems f s = Some (vs, r)" for s vs r using Suc that by blast
  have mems: "list_all (\<lambda>p. json_wf (snd p)) ms" if "parse_members f s = Some (ms, r)" for s ms r using Suc that by blast
  show ?case
  proof (intro conjI allI impI)
    fix s v r
    assume "parse_val (Suc f) s = Some (v, r)"
    then show "json_wf v"
      by (auto split: list.splits if_splits option.splits simp del: json_wf.simps(2) dest!: mems elems dest: parse_num_wf parse_constant_wf
          intro: json_wf_py_dict) simp_all
  next
    fix s vs r
    assume "parse_elems (Suc f) s = Some (vs, r)"
    then show "list_all json_wf vs"
      by (auto split: option.splits list.splits if_splits) (erule val elems)+
  next
    fix s ms r
    assume "parse_members (Suc f) s = Some (ms, r)"
    then show "list_all (\<lambda>p. json_wf (snd p)) ms"
      by (auto split: option.splits list.splits if_splits) (erule val mems)+
  qed
qed simp

theorem loads_wf: "loads s = Some v \<Longrightarrow> json_wf v"
  by (auto simp: loads_def simp del: parse_val.simps split: option.splits if_splits
      dest: parse_wf [THEN conjunct1, rule_format])

section \<open>JSON mode\<close>

lemma json_mode_wf: "json_wf v \<Longrightarrow> json_wf (json_mode v)"
proof (induction v)
  case (JObj kvs)
  then show ?case by (auto simp: list_all_iff o_def)
qed (auto simp: list_all_iff)

lemma json_mode_finite: "finite_json v \<Longrightarrow> json_mode v = v"
proof (induction v)
  case (JArr vs)
  then show ?case by (auto simp: list_all_iff intro: map_idI)
next
  case (JObj kvs)
  then show ?case by (auto simp: list_all_iff intro!: map_idI)
qed auto

lemma finite_json_mode: "finite_json (json_mode v)"
proof (induction v)
  case (JObj kvs)
  then show ?case by (auto simp: list_all_iff)
qed (auto simp: list_all_iff)

lemma finite_norm: "finite_json (norm v) = finite_json v"
proof (induction v)
  case (JObj kvs)
  then show ?case by (auto simp: norm_JObj list_all_iff simp del: norm.simps)
qed (auto simp: list_all_iff)

end
