(* ===== verification/Py_Time.thy ===== *)
theory Py_Time
  imports Json
begin

text \<open>
  Timestamps. A \<open>datetime\<close> is its instant in microseconds since the epoch, whether it carries a
  time zone, and the text pydantic prints for it in JSON mode. Comparisons of aware datetimes and of
  their \<open>timestamp()\<close> floats are comparisons of instants: between 1970 and 2255 the double nearest
  to \<open>n / 10^6\<close> is strictly monotone in \<open>n\<close>.

  The stores keep integers obtained by \<open>int(value.timestamp() * 1_000_000)\<close>. That expression
  rounds twice in double precision before it truncates, and the model computes exactly that:
  \<open>float_micros\<close> is the nearest double to \<open>n / 10^6\<close>, multiplied by \<open>10^6\<close> and rounded to
  53 bits again (round half to even), then truncated. \<open>float_micros_bounds\<close> shows that the result
  is the exact instant or one microsecond less.
\<close>

record datetime =
  dt_instant :: int
  dt_aware :: bool
  dt_text :: string

section \<open>Double precision\<close>

text \<open>The quotient rounded to the nearest integer, ties to even.\<close>

definition rdiv :: "nat \<Rightarrow> nat \<Rightarrow> nat" where
  "rdiv a b = (let q = a div b; r = a mod b in
     if 2 * r < b then q else if b < 2 * r then q + 1 else if even q then q else q + 1)"

fun nbits :: "nat \<Rightarrow> nat" where
  "nbits n = (if n = 0 then 0 else Suc (nbits (n div 2)))"

declare nbits.simps [simp del]

text \<open>The least scaling \<open>2^e\<close> that gives \<open>a * 2^e / 10^6\<close> a significand of 53 bits.\<close>

function scale_exp :: "nat \<Rightarrow> nat \<Rightarrow> nat" where
  "scale_exp a e = (if 0 < a \<and> a * 2 ^ e < 2 ^ 52 * 10 ^ 6 then scale_exp a (Suc e) else e)"
  by pat_completeness auto
termination
proof (relation "measure (\<lambda>(a, e). 2 ^ 52 * 10 ^ 6 - a * 2 ^ e)")
  show "wf (measure (\<lambda>(a, e). 2 ^ 52 * 10 ^ 6 - a * 2 ^ e :: nat))" by simp
next
  fix a e :: nat
  assume a: "0 < a \<and> a * 2 ^ e < 2 ^ 52 * 10 ^ 6"
  then have "a * 2 ^ e < a * 2 ^ Suc e" by simp
  with a have "(2 ^ 52 * 10 ^ 6 :: nat) - a * 2 ^ Suc e < 2 ^ 52 * 10 ^ 6 - a * 2 ^ e"
    by (metis diff_less_mono2)
  then show "((a, Suc e), a, e) \<in> measure (\<lambda>(a, e). 2 ^ 52 * 10 ^ 6 - a * 2 ^ e)" by simp
qed

declare scale_exp.simps [simp del]

text \<open>Rounding an integer significand to 53 bits.\<close>

definition round53 :: "nat \<Rightarrow> nat" where
  "round53 p = (let s = nbits p - 53 in rdiv p (2 ^ s) * 2 ^ s)"

definition float_micros :: "nat \<Rightarrow> nat" where
  "float_micros a = (let e = scale_exp a 0; m = rdiv (a * 2 ^ e) (10 ^ 6)
     in round53 (m * 10 ^ 6) div 2 ^ e)"

text \<open>The helper of auth.py and approvals.py; a naive datetime is a \<open>ValueError\<close>.\<close>

definition micros :: "datetime \<Rightarrow> int" where
  "micros d = (if 0 \<le> dt_instant d then int (float_micros (nat (dt_instant d)))
     else - int (float_micros (nat (- dt_instant d))))"

definition datetime_to_microseconds :: "datetime \<Rightarrow> string + int" where
  "datetime_to_microseconds d =
     (if \<not> dt_aware d then Inl ''timestamps must include a timezone'' else Inr (micros d))"

subsection \<open>Error bounds\<close>

lemma rdiv_error:
  assumes "0 < b"
  shows "2 * (rdiv a b * b) \<le> 2 * a + b" "2 * a \<le> 2 * (rdiv a b * b) + b"
proof -
  define q r where "q = a div b" and "r = a mod b"
  have a: "a = q * b + r" "r < b" using assms by (simp_all add: q_def r_def)
  have "rdiv a b = (if 2 * r < b then q else if b < 2 * r then q + 1 else if even q then q else q + 1)"
    by (simp add: rdiv_def q_def r_def Let_def)
  then show "2 * (rdiv a b * b) \<le> 2 * a + b" "2 * a \<le> 2 * (rdiv a b * b) + b"
    using a by (auto simp: algebra_simps split: if_splits)
qed

lemma nbits_0 [simp]: "nbits 0 = 0"
  by (subst nbits.simps) simp

lemma scale_exp_0 [simp]: "scale_exp 0 e = e"
  by (subst scale_exp.simps) simp

lemma nbits_le: "0 < p \<Longrightarrow> 2 ^ (nbits p - 1) \<le> p"
proof (induction p rule: nbits.induct)
  case (1 p)
  show ?case
  proof (cases "p = 1")
    case True
    then show ?thesis by (subst nbits.simps) simp
  next
    case False
    with "1.prems" have half: "0 < p div 2" by auto
    then have "0 < nbits (p div 2)" by (subst nbits.simps) simp
    then have "nbits p - 1 = Suc (nbits (p div 2) - 1)" using "1.prems" by (subst nbits.simps) simp
    moreover have "2 ^ (nbits (p div 2) - 1) \<le> p div 2" using "1" half by simp
    ultimately show ?thesis by simp
  qed
qed

lemma round53_error:
  "2 ^ 53 * round53 p \<le> 2 ^ 53 * p + p" "2 ^ 53 * p \<le> 2 ^ 53 * round53 p + p"
proof -
  define s where "s = nbits p - 53"
  have r: "round53 p = rdiv p (2 ^ s) * 2 ^ s" by (simp add: round53_def s_def Let_def)
  have "2 ^ 53 * round53 p \<le> 2 ^ 53 * p + p \<and> 2 ^ 53 * p \<le> 2 ^ 53 * round53 p + p"
  proof (cases "s = 0")
    case True
    then show ?thesis by (simp add: r rdiv_def)
  next
    case False
    then have "nbits p - 1 = 52 + s" "0 < p" by (cases "p = 0"; simp add: s_def)+
    with nbits_le [of p] have "2 ^ 52 * 2 ^ s \<le> p" by (simp add: power_add)
    moreover have "2 * round53 p \<le> 2 * p + 2 ^ s" "2 * p \<le> 2 * round53 p + 2 ^ s"
      using rdiv_error [of "2 ^ s" p] by (simp_all add: r)
    ultimately show ?thesis by simp
  qed
  then show "2 ^ 53 * round53 p \<le> 2 ^ 53 * p + p" "2 ^ 53 * p \<le> 2 ^ 53 * round53 p + p" by simp_all
qed

lemma scale_exp_ge: "0 < a \<Longrightarrow> 2 ^ 52 * 10 ^ 6 \<le> a * 2 ^ scale_exp a e"
proof (induction a e rule: scale_exp.induct)
  case (1 a e)
  then show ?case
    by (cases "a * 2 ^ e < 2 ^ 52 * 10 ^ 6") (simp_all add: scale_exp.simps [of a e] del: power_Suc)
qed

text \<open>The two rounding errors together stay below one unit of the scale \<open>E\<close>.\<close>

lemma double_rounding_error:
  fixes x P R E :: nat
  assumes "2 * P \<le> 2 * x + 10 ^ 6" "2 * x \<le> 2 * P + 10 ^ 6"
    and "2 ^ 53 * R \<le> 2 ^ 53 * P + P" "2 ^ 53 * P \<le> 2 ^ 53 * R + P"
    and "x + E \<le> 2 ^ 52 * E" "2 ^ 52 * 10 ^ 6 \<le> x"
  shows "R < x + E \<and> x \<le> R + E"
proof -
  have n: "(2::nat) ^ 53 = 9007199254740992" "(2::nat) ^ 52 = 4503599627370496" "(10::nat) ^ 6 = 1000000"
    by simp_all
  note a = assms [unfolded n]
  have "R < x + E" using a by linarith
  moreover have "x \<le> R + E" using a by linarith
  ultimately show ?thesis ..
qed

theorem float_micros_bounds:
  assumes "a < 2 ^ 52"
  shows "float_micros a \<le> a" "a \<le> float_micros a + 1"
proof -
  have "float_micros a \<le> a \<and> a \<le> float_micros a + 1"
  proof (cases "a = 0")
    case True
    then show ?thesis by (simp add: float_micros_def rdiv_def round53_def)
  next
    case False
    define E where "E = (2::nat) ^ scale_exp a 0"
    define m where "m = rdiv (a * E) (10 ^ 6)"
    define R where "R = round53 (m * 10 ^ 6)"
    have f: "float_micros a = R div E" by (simp add: float_micros_def R_def m_def E_def Let_def)
    have E: "2 ^ 52 * 10 ^ 6 \<le> a * E" "0 < E" using scale_exp_ge [of a 0] False by (simp_all add: E_def)
    have aE: "a * E + E \<le> 2 ^ 52 * E" using assms
      by (metis Suc_leI add.commute mult_Suc mult_le_mono1)
    have X: "2 * (m * 10 ^ 6) \<le> 2 * (a * E) + 10 ^ 6" "2 * (a * E) \<le> 2 * (m * 10 ^ 6) + 10 ^ 6"
      using rdiv_error [of "10 ^ 6" "a * E"] by (simp_all add: m_def)
    have R: "2 ^ 53 * R \<le> 2 ^ 53 * (m * 10 ^ 6) + m * 10 ^ 6" "2 ^ 53 * (m * 10 ^ 6) \<le> 2 ^ 53 * R + m * 10 ^ 6"
      using round53_error [of "m * 10 ^ 6"] by (simp_all add: R_def)
    have "R < a * E + E" "a * E \<le> R + E"
      using double_rounding_error [OF X R aE E(1)] by simp_all
    then have up: "R < (a + 1) * E" and lo: "(a - 1) * E \<le> R"
      by (simp_all add: algebra_simps diff_mult_distrib)
    have "R div E < a + 1" using up E by (simp add: less_mult_imp_div_less)
    moreover have "a - 1 \<le> R div E" using lo E by (simp add: less_eq_div_iff_mult_less_eq)
    ultimately show ?thesis using f by linarith
  qed
  then show "float_micros a \<le> a" "a \<le> float_micros a + 1" by simp_all
qed

corollary micros_bounds:
  assumes "0 \<le> dt_instant d" "dt_instant d < 2 ^ 52"
  shows "micros d \<le> dt_instant d" "dt_instant d \<le> micros d + 1"
  using assms float_micros_bounds [of "nat (dt_instant d)"] by (simp_all add: micros_def nat_less_iff)

section \<open>Differences of timestamps\<close>

text \<open>\<open>value.timestamp()\<close> as a double: a significand and the exponent of its scaling.\<close>

definition timestamp :: "int \<Rightarrow> int \<times> nat" where
  "timestamp i = (let a = nat \<bar>i\<bar>; e = scale_exp a 0 in (sgn i * int (rdiv (a * 2 ^ e) (10 ^ 6)), e))"

text \<open>\<open>a.timestamp() - b.timestamp() > k\<close>: the difference of two doubles of the same binade is
  exact, so the comparison is one of integers over the common scale.\<close>

definition timestamp_diff_gt :: "int \<Rightarrow> int \<Rightarrow> int \<Rightarrow> bool" where
  "timestamp_diff_gt a b k =
     (case timestamp a of (m, e) \<Rightarrow> case timestamp b of (n, f) \<Rightarrow> k * 2 ^ (e + f) < m * 2 ^ f - n * 2 ^ e)"

lemma timestamp_diff_self [simp]: "timestamp_diff_gt a a k \<longleftrightarrow> k < 0"
  by (simp add: timestamp_diff_gt_def mult_less_0_iff split: prod.splits)

section \<open>Evaluation on integers\<close>

text \<open>The same computations on \<^typ>\<open>int\<close>, which evaluates in binary; they are the code equations of
  \<open>micros\<close> and \<open>timestamp\<close>.\<close>

definition rdiv_int :: "int \<Rightarrow> int \<Rightarrow> int" where
  "rdiv_int a b = (let q = a div b; r = a mod b in
     if 2 * r < b then q else if b < 2 * r then q + 1 else if even q then q else q + 1)"

definition nbits_int :: "int \<Rightarrow> nat" where
  "nbits_int p = nbits (nat p)"

definition scale_exp_int :: "int \<Rightarrow> nat \<Rightarrow> nat" where
  "scale_exp_int a e = scale_exp (nat a) e"

definition float_micros_int :: "int \<Rightarrow> int" where
  "float_micros_int a = (let e = scale_exp_int a 0; p = rdiv_int (a * 2 ^ e) (10 ^ 6) * 10 ^ 6; s = nbits_int p - 53
     in rdiv_int p (2 ^ s) * 2 ^ s div 2 ^ e)"

lemma rdiv_int_of_nat: "rdiv_int (int a) (int b) = int (rdiv a b)"
proof -
  have "2 * (int a mod int b) < int b \<longleftrightarrow> 2 * (a mod b) < b" "int b < 2 * (int a mod int b) \<longleftrightarrow> b < 2 * (a mod b)"
    unfolding zmod_int [symmetric] by linarith+
  then show ?thesis by (simp add: rdiv_int_def rdiv_def Let_def zdiv_int [symmetric])
qed

lemma nbits_int_code [code]: "nbits_int p = (if p \<le> 0 then 0 else Suc (nbits_int (p div 2)))"
proof -
  have "nat (p div 2) = nat p div 2" by (simp add: nat_div_distrib')
  then show ?thesis by (simp add: nbits_int_def nbits.simps [of "nat p"])
qed

lemma scale_exp_int_code [code]:
  "scale_exp_int a e = (if 0 < a \<and> a * 2 ^ e < 2 ^ 52 * 10 ^ 6 then scale_exp_int a (Suc e) else e)"
proof -
  have "nat a * 2 ^ e < 2 ^ 52 * 10 ^ 6 \<longleftrightarrow> a * 2 ^ e < 2 ^ 52 * 10 ^ 6" if "0 < a"
  proof -
    have "int (nat a * 2 ^ e) = a * 2 ^ e" using that by simp
    then show ?thesis by (metis (mono_tags) of_nat_less_iff of_nat_mult of_nat_numeral of_nat_power)
  qed
  then show ?thesis by (cases "0 < a") (simp_all add: scale_exp_int_def scale_exp.simps [of "nat a" e])
qed

lemma float_micros_int: "float_micros_int (int a) = int (float_micros a)"
proof -
  have r: "rdiv_int (int a * 2 ^ e) (10 ^ 6) = int (rdiv (a * 2 ^ e) (10 ^ 6))" for e
    using rdiv_int_of_nat [of "a * 2 ^ e" "10 ^ 6"] by simp
  have s: "rdiv_int (int p * 1000000) (2 ^ s) = int (rdiv (p * 1000000) (2 ^ s))" for p s
    using rdiv_int_of_nat [of "p * 1000000" "2 ^ s"] by simp
  have n: "nbits_int (int p * 1000000) = nbits (p * 1000000)" for p
    by (simp add: nbits_int_def nat_mult_distrib)
  show ?thesis
    by (simp add: float_micros_int_def float_micros_def round53_def Let_def scale_exp_int_def r [simplified] s n zdiv_int)
qed

lemma micros_code [code]:
  "micros d = (if 0 \<le> dt_instant d then float_micros_int (dt_instant d) else - float_micros_int (- dt_instant d))"
  using float_micros_int [of "nat (dt_instant d)"] float_micros_int [of "nat (- dt_instant d)"]
  by (auto simp: micros_def split: if_splits)

lemma timestamp_code [code]:
  "timestamp i = (let a = \<bar>i\<bar>; e = scale_exp_int a 0 in (sgn i * rdiv_int (a * 2 ^ e) (10 ^ 6), e))"
  using rdiv_int_of_nat [of "nat \<bar>i\<bar> * 2 ^ scale_exp (nat \<bar>i\<bar>) 0" "10 ^ 6"]
  by (simp add: timestamp_def Let_def scale_exp_int_def)

section \<open>ISO 8601 text of a UTC datetime\<close>

text \<open>\<open>datetime.fromtimestamp(us / 1_000_000, tz=UTC).isoformat()\<close>: the proleptic Gregorian date of a day
  number (days since 1970-01-01, years counted from 1 March) and the time of day, with the fraction
  only when it is not zero.\<close>

definition civil_from_days :: "int \<Rightarrow> int \<times> int \<times> int" where
  "civil_from_days days =
     (let z = days + 719468; era = z div 146097; doe = z mod 146097;
          yoe = (doe - doe div 1460 + doe div 36524 - doe div 146096) div 365;
          doy = doe - (365 * yoe + yoe div 4 - yoe div 100);
          mp = (5 * doy + 2) div 153;
          d = doy - (153 * mp + 2) div 5 + 1;
          m = (if mp < 10 then mp + 3 else mp - 9)
      in (yoe + era * 400 + (if m \<le> 2 then 1 else 0), m, d))"

definition pad :: "nat \<Rightarrow> int \<Rightarrow> string" where
  "pad w n = (let s = jint n in replicate (w - length s) (CHR ''0'') @ s)"

definition iso_utc :: "int \<Rightarrow> string" where
  "iso_utc us =
     (case civil_from_days (us div 86400000000) of (y, m, d) \<Rightarrow>
        let t = us mod 86400000000; s = t div 1000000; f = t mod 1000000 in
        pad 4 y @ ''-'' @ pad 2 m @ ''-'' @ pad 2 d @ ''T'' @
        pad 2 (s div 3600) @ '':'' @ pad 2 (s div 60 mod 60) @ '':'' @ pad 2 (s mod 60) @
        (if f = 0 then [] else ''.'' @ pad 6 f) @ ''+00:00'')"

section \<open>Properties\<close>

text \<open>C34. The integer that the replay and approval stores keep for a timestamp between 1970 and 2112 is the
  exact instant or one microsecond less: the double rounding of \<open>int(value.timestamp() * 1_000_000)\<close>
  never moves a deadline into the future and never by more than a microsecond into the past.\<close>

theorem stored_microseconds_exact_or_one_less:
  assumes "dt_aware d" "0 \<le> dt_instant d" "dt_instant d < 2 ^ 52"
  shows "datetime_to_microseconds d \<in> {Inr (dt_instant d), Inr (dt_instant d - 1)}"
proof -
  have "micros d \<le> dt_instant d" "dt_instant d \<le> micros d + 1"
    using micros_bounds assms(2,3) by blast+
  then have "micros d = dt_instant d \<or> micros d = dt_instant d - 1" by linarith
  then show ?thesis using assms(1) by (auto simp: datetime_to_microseconds_def)
qed

theorem stored_microseconds_exact_or_one_less_witness:
  "let d = \<lparr>dt_instant = 1125556720156870, dt_aware = True, dt_text = []\<rparr> in
     datetime_to_microseconds d \<in> {Inr (dt_instant d), Inr (dt_instant d - 1)} \<and>
     datetime_to_microseconds d = Inr 1125556720156869"
proof -
  let ?d = "\<lparr>dt_instant = 1125556720156870, dt_aware = True, dt_text = []\<rparr>"
  have "datetime_to_microseconds ?d = Inr 1125556720156869"
    by code_simp
  then show ?thesis using stored_microseconds_exact_or_one_less [of ?d] by simp
qed

end
