(* ===== verification/Models.thy ===== *)
theory Models
  imports Py_Time
begin

text \<open>
  models.py: the signed task envelope, the agent identity and the task result, with the field
  constraints and validators that pydantic enforces before any of the gateway's code sees a task.
\<close>

record agent_identity =
  ai_provider :: string
  ai_model :: "string option"
  ai_session_id :: string

record task_envelope =
  te_version :: string
  te_task_id :: string
  te_issued_at :: datetime
  te_expires_at :: datetime
  te_agent :: agent_identity
  te_capability :: string
  te_arguments :: "(string \<times> json) list"
  te_approval_id :: "string option"
  te_nonce :: string
  te_signature :: string

datatype task_status = Completed | Denied | Approval_required | Failed

record task_result =
  tr_task_id :: string
  tr_status :: task_status
  tr_output :: "(string \<times> json) list"
  tr_error :: "string option"
  tr_audit_id :: string

section \<open>Character classes of the patterns\<close>

definition is_lower :: "char \<Rightarrow> bool" where
  "is_lower c \<longleftrightarrow> 97 \<le> (of_char c :: nat) \<and> (of_char c :: nat) \<le> 122"

definition is_upper :: "char \<Rightarrow> bool" where
  "is_upper c \<longleftrightarrow> 65 \<le> (of_char c :: nat) \<and> (of_char c :: nat) \<le> 90"

definition len_between :: "nat \<Rightarrow> nat \<Rightarrow> string \<Rightarrow> bool" where
  "len_between lo hi s \<longleftrightarrow> lo \<le> length s \<and> length s \<le> hi"

text \<open>The pattern \<open>^[a-z][a-z0-9_.-]{2,80}$\<close>.\<close>

definition capability_pattern :: "string \<Rightarrow> bool" where
  "capability_pattern s =
     (case s of [] \<Rightarrow> False
      | c # cs \<Rightarrow> is_lower c \<and> list_all (\<lambda>d. is_lower d \<or> is_digit d \<or> d \<in> set ''_.-'') cs \<and>
          len_between 2 80 cs)"

text \<open>The pattern \<open>^[A-Za-z0-9_-]+$\<close>.\<close>

definition approval_id_pattern :: "string \<Rightarrow> bool" where
  "approval_id_pattern s \<longleftrightarrow>
     s \<noteq> [] \<and> list_all (\<lambda>d. is_lower d \<or> is_upper d \<or> is_digit d \<or> d \<in> set ''_-'') s"

section \<open>Validation\<close>

definition agent_identity_valid :: "agent_identity \<Rightarrow> bool" where
  "agent_identity_valid a \<longleftrightarrow>
     len_between 1 64 (ai_provider a) \<and>
     (case ai_model a of None \<Rightarrow> True | Some m \<Rightarrow> length m \<le> 128) \<and>
     len_between 1 128 (ai_session_id a)"

definition require_timezone :: "datetime \<Rightarrow> bool" where
  "require_timezone d = dt_aware d"

definition validate_time_window :: "task_envelope \<Rightarrow> bool" where
  "validate_time_window t \<longleftrightarrow> \<not> dt_instant (te_expires_at t) \<le> dt_instant (te_issued_at t)"

definition task_envelope_valid :: "task_envelope \<Rightarrow> bool" where
  "task_envelope_valid t \<longleftrightarrow>
     te_version t = ''1'' \<and>
     len_between 8 128 (te_task_id t) \<and>
     require_timezone (te_issued_at t) \<and> require_timezone (te_expires_at t) \<and>
     agent_identity_valid (te_agent t) \<and>
     capability_pattern (te_capability t) \<and>
     json_wf (JObj (te_arguments t)) \<and>
     (case te_approval_id t of None \<Rightarrow> True
      | Some a \<Rightarrow> len_between 16 128 a \<and> approval_id_pattern a) \<and>
     len_between 16 128 (te_nonce t) \<and>
     len_between 43 128 (te_signature t) \<and>
     validate_time_window t"

definition opt_str :: "string option \<Rightarrow> json" where
  "opt_str s = (case s of None \<Rightarrow> JNull | Some x \<Rightarrow> JStr x)"

lemma opt_str_inj [simp]: "opt_str a = opt_str b \<longleftrightarrow> a = b"
  by (auto simp: opt_str_def split: option.splits)

lemma json_wf_opt_str [simp]: "json_wf (opt_str a)" and norm_opt_str [simp]: "norm (opt_str a) = opt_str a"
  by (simp_all add: opt_str_def split: option.splits)

definition agent_json :: "agent_identity \<Rightarrow> json" where
  "agent_json a = JObj [(''provider'', JStr (ai_provider a)), (''model'', opt_str (ai_model a)),
     (''session_id'', JStr (ai_session_id a))]"

lemma json_wf_agent_json [simp]: "json_wf (agent_json a)"
  by (simp add: agent_json_def)

lemma norm_agent_json_inj: "norm (agent_json a) = norm (agent_json b) \<longleftrightarrow> a = b"
proof
  assume n: "norm (agent_json a) = norm (agent_json b)"
  have l: "map_option norm (map_of [(''provider'', JStr (ai_provider a)), (''model'', opt_str (ai_model a)),
     (''session_id'', JStr (ai_session_id a))] k) = map_option norm (map_of [(''provider'', JStr (ai_provider b)),
     (''model'', opt_str (ai_model b)), (''session_id'', JStr (ai_session_id b))] k)" for k
    using n unfolding agent_json_def by (rule norm_JObj_lookup) simp_all
  show "a = b"
    using l [of "''provider''"] l [of "''model''"] l [of "''session_id''"] by simp
qed simp

end
