(* ===== verification/Crypto.thy ===== *)
theory Crypto
  imports Json
begin

text \<open>
  The cryptographic vocabulary. \<open>hmac.new(key, message, sha256).digest()\<close> is a parameter of the
  model, a function from a key and a message to the digest bytes; nothing is assumed of it unless a
  theorem says so. The encodings around it are computed: hexadecimal digests, unpadded URL-safe
  base64, and the domain-separated digest \<open>_keyed_digest\<close> that audit.py, audit_anchor.py and
  approvals.py each define in the same words.
\<close>

type_synonym hmac_fn = "bytes \<Rightarrow> bytes \<Rightarrow> bytes"

section \<open>Hexadecimal\<close>

definition hex_byte :: "char \<Rightarrow> string" where
  "hex_byte c = [hexdig (of_char c div 16), hexdig (of_char c mod 16)]"

definition hexlify :: "bytes \<Rightarrow> string" where
  "hexlify bs = concat (map hex_byte bs)"

lemma hexdig_inj: "m < 16 \<Longrightarrow> n < 16 \<Longrightarrow> hexdig m = hexdig n \<Longrightarrow> m = n"
  by (metis hex_val_hexdig option.inject)

lemma of_char_div_16: "(of_char c :: nat) div 16 < 16"
  using nat_of_char_less_256 [of c] by linarith

lemma hex_byte_inj: "hex_byte c = hex_byte d \<Longrightarrow> c = d"
proof -
  assume h: "hex_byte c = hex_byte d"
  have "(of_char c :: nat) div 16 = of_char d div 16"
    by (rule hexdig_inj) (use h in \<open>simp_all add: hex_byte_def of_char_div_16\<close>)
  moreover have "(of_char c :: nat) mod 16 = of_char d mod 16"
    by (rule hexdig_inj) (use h in \<open>simp_all add: hex_byte_def\<close>)
  ultimately have "(of_char c :: nat) = of_char d" by (metis div_mult_mod_eq)
  then show "c = d" by simp
qed

lemma hexlify_Cons: "hexlify (c # cs) = hex_byte c @ hexlify cs"
  by (simp add: hexlify_def)

lemma length_hex_byte [simp]: "length (hex_byte c) = 2"
  by (simp add: hex_byte_def)

lemma hexlify_inj [simp]: "hexlify a = hexlify b \<longleftrightarrow> a = b"
proof (induction a arbitrary: b)
  case Nil
  then show ?case by (cases b) (simp_all add: hexlify_def hex_byte_def)
next
  case (Cons c cs)
  show ?case
  proof (cases b)
    case Nil
    then show ?thesis by (simp add: hexlify_def hex_byte_def)
  next
    case (Cons d ds)
    then show ?thesis using Cons.IH [of ds] by (auto simp: hexlify_Cons dest: hex_byte_inj)
  qed
qed

lemma length_hexlify [simp]: "length (hexlify bs) = 2 * length bs"
  by (induction bs) (simp_all add: hexlify_def hex_byte_def)

section \<open>URL-safe base64 without padding\<close>

definition b64_char :: "nat \<Rightarrow> char" where
  "b64_char n = ''ABCDEFGHIJKLMNOPQRSTUVWXYZabcdefghijklmnopqrstuvwxyz0123456789-_'' ! n"

text \<open>Three bytes are a 24-bit number, printed as four characters of six bits.\<close>

definition n24 :: "char \<Rightarrow> char \<Rightarrow> char \<Rightarrow> nat" where
  "n24 a b c = of_char a * 0x10000 + of_char b * 0x100 + of_char c"

definition quad :: "nat \<Rightarrow> string" where
  "quad n = [b64_char (n div 0x40000), b64_char (n div 0x1000 mod 64), b64_char (n div 0x40 mod 64),
     b64_char (n mod 64)]"

fun urlsafe_b64encode :: "bytes \<Rightarrow> string" where
  "urlsafe_b64encode [] = []"
| "urlsafe_b64encode [a] = take 2 (quad (n24 a (CHR 0x00) (CHR 0x00))) @ ''==''"
| "urlsafe_b64encode [a, b] = take 3 (quad (n24 a b (CHR 0x00))) @ ''=''"
| "urlsafe_b64encode (a # b # c # r) = quad (n24 a b c) @ urlsafe_b64encode r"

definition rstrip_eq :: "string \<Rightarrow> string" where
  "rstrip_eq s = rev (dropWhile (\<lambda>c. c = CHR ''='') (rev s))"

section \<open>Digests and their comparison\<close>

definition keyed_digest :: "hmac_fn \<Rightarrow> bytes \<Rightarrow> bytes \<Rightarrow> bytes \<Rightarrow> string" where
  "keyed_digest hm key domain payload = hexlify (hm key (domain @ CHR 0x00 # payload))"

text \<open>\<open>hmac.compare_digest\<close> on two strings: a \<open>TypeError\<close> (\<open>None\<close>) unless both are ASCII.\<close>

definition is_ascii :: "string \<Rightarrow> bool" where
  "is_ascii s = list_all (\<lambda>c. (of_char c :: nat) < 0x80) s"

definition compare_digest :: "string \<Rightarrow> string \<Rightarrow> bool option" where
  "compare_digest a b = (if is_ascii a \<and> is_ascii b then Some (a = b) else None)"

lemma compare_digest_True [simp]: "compare_digest a b = Some True \<longleftrightarrow> a = b \<and> is_ascii a"
  by (auto simp: compare_digest_def)

lemma is_ascii_append [simp]: "is_ascii (a @ b) \<longleftrightarrow> is_ascii a \<and> is_ascii b"
  by (simp add: is_ascii_def)

lemma is_ascii_hexlify [simp]: "is_ascii (hexlify bs)"
proof -
  have "\<forall>n \<in> set [0..<16]. (of_char (hexdig n) :: nat) < 0x80" by code_simp
  then have h: "n < 16 \<Longrightarrow> (of_char (hexdig n) :: nat) < 0x80" for n by simp
  then show ?thesis
    by (induction bs) (simp_all add: hexlify_def hex_byte_def is_ascii_def of_char_div_16)
qed

lemma is_ascii_keyed_digest [simp]: "is_ascii (keyed_digest hm k d p)"
  by (simp add: keyed_digest_def)

text \<open>
  The NUL byte frames the domain: two digests over different domains, or over different payloads,
  are digests of different messages. Equal digests of different inputs therefore exhibit two
  different messages with the same MAC, a \<open>mac_clash\<close>.
\<close>

definition mac_clash :: "hmac_fn \<Rightarrow> bytes \<Rightarrow> bytes \<Rightarrow> bytes \<Rightarrow> bool" where
  "mac_clash hm key a b \<longleftrightarrow> a \<noteq> b \<and> hm key a = hm key b"

definition framed :: "bytes \<Rightarrow> bytes \<Rightarrow> bytes" where
  "framed domain payload = domain @ CHR 0x00 # payload"

lemma framed_inj:
  assumes "CHR 0x00 \<notin> set d" "CHR 0x00 \<notin> set d'" "framed d p = framed d' p'"
  shows "d = d' \<and> p = p'"
  using assms(3,1,2)
proof (induction d arbitrary: d')
  case Nil
  then show ?case by (cases d') (auto simp: framed_def)
next
  case (Cons x xs)
  then show ?case by (cases d') (auto simp: framed_def)
qed

lemma keyed_digest_eq:
  assumes "keyed_digest hm key d p = keyed_digest hm key d' p'" "CHR 0x00 \<notin> set d" "CHR 0x00 \<notin> set d'"
  shows "d = d' \<and> p = p' \<or> mac_clash hm key (framed d p) (framed d' p')"
  using assms framed_inj [OF assms(2,3)] by (auto simp: keyed_digest_def mac_clash_def framed_def)

lemma keyed_digest_same_domain:
  assumes "keyed_digest hm key d p = keyed_digest hm key d p'"
  shows "p = p' \<or> mac_clash hm key (framed d p) (framed d p')"
  using assms by (auto simp: keyed_digest_def mac_clash_def framed_def)

section \<open>The base64 text determines the bytes\<close>

fun b64_nopad :: "bytes \<Rightarrow> string" where
  "b64_nopad [] = []"
| "b64_nopad [a] = take 2 (quad (n24 a (CHR 0x00) (CHR 0x00)))"
| "b64_nopad [a, b] = take 3 (quad (n24 a b (CHR 0x00)))"
| "b64_nopad (a # b # c # r) = quad (n24 a b c) @ b64_nopad r"

definition b64_val :: "char \<Rightarrow> nat" where
  "b64_val c = length (takeWhile (\<lambda>d. d \<noteq> c)
     ''ABCDEFGHIJKLMNOPQRSTUVWXYZabcdefghijklmnopqrstuvwxyz0123456789-_'')"

lemma b64_table: "\<forall>n \<in> set [0..<64]. b64_val (b64_char n) = n \<and> b64_char n \<noteq> CHR ''=''"
  by code_simp

lemma b64_val_char: "n < 64 \<Longrightarrow> b64_val (b64_char n) = n"
  using b64_table by simp

lemma b64_char_not_eq: "n < 64 \<Longrightarrow> b64_char n \<noteq> CHR ''=''"
  using b64_table by simp

lemma sextets: "n div 0x40000 * 0x40000 + n div 0x1000 mod 64 * 0x1000 + n div 0x40 mod 64 * 0x40 + n mod 64 = (n::nat)"
proof -
  define a b c where "a = n div 64" and "b = a div 64" and "c = b div 64"
  have bc: "n div 0x1000 = b" "n div 0x40000 = c"
    by (simp_all add: a_def b_def c_def div_mult2_eq [symmetric])
  have "n = a * 64 + n mod 64" "a = b * 64 + a mod 64" "b = c * 64 + b mod 64"
    by (simp_all add: a_def b_def c_def div_mult_mod_eq)
  then show ?thesis unfolding bc a_def [symmetric] by linarith
qed

lemma sextets_inj:
  assumes "(m::nat) div 0x40000 = n div 0x40000" "m div 0x1000 mod 64 = n div 0x1000 mod 64"
    "m div 0x40 mod 64 = n div 0x40 mod 64" "m mod 64 = n mod 64"
  shows "m = n"
  using sextets [of m] sextets [of n] unfolding assms by simp

lemma digit256:
  assumes "q * 256 + r = q' * 256 + r'" "r < 256" "r' < (256::nat)"
  shows "q = q' \<and> r = r'"
proof -
  have "(q * 256 + r) div 256 = q" "(q' * 256 + r') div 256 = q'" using assms(2,3) by simp_all
  with assms(1) show ?thesis by simp
qed

lemma bytes_inj:
  fixes a b c :: nat
  assumes "a * 65536 + b * 256 + c = a' * 65536 + b' * 256 + c'"
    and "b < 256" "c < 256" "b' < 256" "c' < 256"
  shows "a = a' \<and> b = b' \<and> c = c'"
proof -
  have "(a * 256 + b) * 256 + c = (a' * 256 + b') * 256 + c'" using assms(1) by simp
  then have "a * 256 + b = a' * 256 + b'" "c = c'" using digit256 assms(3,5) by blast+
  moreover from this(1) have "a = a'" "b = b'" using digit256 assms(2,4) by blast+
  ultimately show ?thesis by simp
qed

lemma b64_char_inj: "m < 64 \<Longrightarrow> n < 64 \<Longrightarrow> b64_char m = b64_char n \<longleftrightarrow> m = n"
  by (metis b64_val_char)

lemma n24_less: "n24 a b c < 0x1000000"
  using nat_of_char_less_256 [of a] nat_of_char_less_256 [of b] nat_of_char_less_256 [of c]
  unfolding n24_def by linarith

lemma n24_inj:
  assumes "n24 a b c = n24 a' b' c'"
  shows "a = a' \<and> b = b' \<and> c = c'"
proof -
  have "(of_char a :: nat) = of_char a' \<and> (of_char b :: nat) = of_char b' \<and> (of_char c :: nat) = of_char c'"
    by (rule bytes_inj [OF assms [unfolded n24_def]]) (rule nat_of_char_less_256)+
  then show ?thesis by (simp only: of_char_eq_iff)
qed

lemma quad_inj:
  assumes "quad m = quad n" "m < 0x1000000" "n < 0x1000000"
  shows "m = n"
proof -
  have d: "m div 0x40000 < 64" "n div 0x40000 < 64" using assms(2,3) by linarith+
  have mod: "x mod 64 < 64" for x :: nat by simp
  have "b64_char (m div 0x40000) = b64_char (n div 0x40000)"
    "b64_char (m div 0x1000 mod 64) = b64_char (n div 0x1000 mod 64)"
    "b64_char (m div 0x40 mod 64) = b64_char (n div 0x40 mod 64)"
    "b64_char (m mod 64) = b64_char (n mod 64)"
    using assms(1) unfolding quad_def list.inject by blast+
  note e = this [unfolded b64_char_inj [OF d] b64_char_inj [OF mod mod]]
  show ?thesis by (rule sextets_inj [OF e])
qed

lemma quad_n24_inj: "quad (n24 a b c) = quad (n24 a' b' c') \<Longrightarrow> a = a' \<and> b = b' \<and> c = c'"
  by (rule n24_inj) (rule quad_inj [OF _ n24_less n24_less])

lemma quad_one: "quad (n24 a (CHR 0x00) (CHR 0x00)) = take 2 (quad (n24 a (CHR 0x00) (CHR 0x00))) @ [b64_char 0, b64_char 0]"
proof -
  have "n24 a (CHR 0x00) (CHR 0x00) = (of_char a * 0x400) * 64" "(of_char a * 0x400 :: nat) = of_char a * 16 * 64"
    by (simp_all add: n24_def)
  then have "n24 a (CHR 0x00) (CHR 0x00) div 0x40 mod 64 = 0" "n24 a (CHR 0x00) (CHR 0x00) mod 64 = 0" by simp_all
  then show ?thesis unfolding quad_def by simp
qed

lemma quad_two: "quad (n24 a b (CHR 0x00)) = take 3 (quad (n24 a b (CHR 0x00))) @ [b64_char 0]"
proof -
  have "n24 a b (CHR 0x00) = (of_char a * 0x400 + of_char b * 4) * 64" by (simp add: n24_def)
  then have "n24 a b (CHR 0x00) mod 64 = 0" by simp
  then show ?thesis unfolding quad_def by simp
qed

lemma length_quad [simp]: "length (quad n) = 4"
  by (simp add: quad_def)

lemma b64_nopad_inj: "b64_nopad x = b64_nopad y \<Longrightarrow> x = y"
proof (induction x arbitrary: y rule: b64_nopad.induct)
  case 1
  then show ?case by (cases y rule: b64_nopad.cases) (auto dest: arg_cong [where f = length])
next
  case (2 a)
  then show ?case
  proof (cases y rule: b64_nopad.cases)
    case (2 a')
    with "2.prems" have "quad (n24 a (CHR 0x00) (CHR 0x00)) = quad (n24 a' (CHR 0x00) (CHR 0x00))"
      by (subst (1 2) quad_one) simp
    with 2 show ?thesis by (auto dest: quad_n24_inj)
  qed (auto dest: arg_cong [where f = length])
next
  case (3 a b)
  then show ?case
  proof (cases y rule: b64_nopad.cases)
    case (3 a' b')
    with "3.prems" have "quad (n24 a b (CHR 0x00)) = quad (n24 a' b' (CHR 0x00))"
      by (subst (1 2) quad_two) simp
    with 3 show ?thesis by (auto dest: quad_n24_inj)
  qed (auto dest: arg_cong [where f = length])
next
  case (4 a b c r)
  then show ?case
  proof (cases y rule: b64_nopad.cases)
    case (4 a' b' c' r')
    with "4.prems" "4.IH" [of r'] show ?thesis by (auto dest: quad_n24_inj)
  qed (auto dest: arg_cong [where f = length])
qed

lemma quad_no_eq: "c \<in> set (quad n) \<Longrightarrow> n < 0x1000000 \<Longrightarrow> c \<noteq> CHR ''=''"
proof -
  assume "n < 0x1000000"
  then have "n div 0x40000 < 64" by linarith
  then show "c \<in> set (quad n) \<Longrightarrow> c \<noteq> CHR ''=''" 
    by (auto simp: quad_def b64_char_not_eq dest: sym)
qed

lemma b64_nopad_no_eq: "c \<in> set (b64_nopad bs) \<Longrightarrow> c \<noteq> CHR ''=''"
  by (induction bs rule: b64_nopad.induct) (auto dest!: quad_no_eq [OF _ n24_less] in_set_takeD)

lemma urlsafe_b64encode_pad: "\<exists>k. urlsafe_b64encode bs = b64_nopad bs @ replicate k (CHR ''='')"
proof (induction bs rule: b64_nopad.induct)
  case (2 a)
  show ?case by (rule exI [of _ 2]) (simp add: numeral_2_eq_2)
next
  case (3 a b)
  show ?case by (rule exI [of _ 1]) simp
qed auto

lemma rstrip_eq_replicate:
  assumes "\<And>c. c \<in> set s \<Longrightarrow> c \<noteq> CHR ''=''"
  shows "rstrip_eq (s @ replicate k (CHR ''='')) = s"
proof -
  have "dropWhile (\<lambda>c. c = CHR ''='') (rev s) = rev s"
    using assms [of "hd (rev s)"] by (cases "rev s") (auto simp: dropWhile_eq_self_iff dest: arg_cong [where f = set])
  moreover have "dropWhile (\<lambda>c. c = CHR ''='') (replicate k (CHR ''='') @ rev s) = dropWhile (\<lambda>c. c = CHR ''='') (rev s)"
    by (rule dropWhile_append2) simp
  ultimately show ?thesis by (simp add: rstrip_eq_def)
qed

lemma b64_text_inj: "rstrip_eq (urlsafe_b64encode a) = rstrip_eq (urlsafe_b64encode b) \<longleftrightarrow> a = b"
  using urlsafe_b64encode_pad [of a] urlsafe_b64encode_pad [of b]
  by (auto simp: rstrip_eq_replicate b64_nopad_no_eq dest: b64_nopad_inj)

lemma b64_char_ascii: "n < 64 \<Longrightarrow> (of_char (b64_char n) :: nat) < 0x80"
proof -
  let ?t = "''ABCDEFGHIJKLMNOPQRSTUVWXYZabcdefghijklmnopqrstuvwxyz0123456789-_''"
  have "list_all (\<lambda>c. (of_char c :: nat) < 0x80) ?t" by simp
  then show "n < 64 \<Longrightarrow> (of_char (b64_char n) :: nat) < 0x80"
    unfolding b64_char_def by (rule list_all_length [THEN iffD1, rule_format]) simp_all
qed

lemma quad_ascii: "c \<in> set (quad n) \<Longrightarrow> n < 0x1000000 \<Longrightarrow> (of_char c :: nat) < 0x80"
proof -
  assume "n < 0x1000000"
  then have "n div 0x40000 < 64" by linarith
  then show "c \<in> set (quad n) \<Longrightarrow> (of_char c :: nat) < 0x80"
    by (auto simp: quad_def b64_char_ascii)
qed

lemma b64_nopad_ascii: "c \<in> set (b64_nopad bs) \<Longrightarrow> (of_char c :: nat) < 0x80"
  by (induction bs rule: b64_nopad.induct) (auto dest!: quad_ascii [OF _ n24_less] in_set_takeD)

lemma is_ascii_b64_text [simp]: "is_ascii (rstrip_eq (urlsafe_b64encode bs))"
  using urlsafe_b64encode_pad [of bs]
  by (auto simp: rstrip_eq_replicate b64_nopad_no_eq is_ascii_def list_all_iff b64_nopad_ascii)

section \<open>A concrete MAC\<close>

text \<open>A function of the right shape (32 bytes of the reversed message) on which examples are evaluated.\<close>

definition toy_mac :: hmac_fn where
  "toy_mac k m = take 32 (rev m @ replicate 32 (CHR 0x00))"

lemma length_toy_mac [simp]: "length (toy_mac k m) = 32"
  by (simp add: toy_mac_def)

end
