(* ===== verification/Auth.thy ===== *)
theory Auth
  imports Models Crypto
begin

text \<open>
  auth.py: the canonical payload and the signature of a task, the two replay guards, and
  \<open>verify_task\<close>. The replay guards share a contract, stated as the locale
  \<open>replay_guard\<close>: a nonce that was accepted is refused until its expiry. The client lemma of the
  locale is that no call of a run is accepted while an earlier accepted call with the same nonce has
  not expired; both guards interpret it.
\<close>

section \<open>Canonical payload and signature\<close>

definition task_json :: "task_envelope \<Rightarrow> (string \<times> json) list" where
  "task_json t =
     [(''version'', JStr (te_version t)), (''task_id'', JStr (te_task_id t)),
      (''issued_at'', JStr (dt_text (te_issued_at t))), (''expires_at'', JStr (dt_text (te_expires_at t))),
      (''agent'', agent_json (te_agent t)), (''capability'', JStr (te_capability t)),
      (''arguments'', json_mode (JObj (te_arguments t))), (''approval_id'', opt_str (te_approval_id t)),
      (''nonce'', JStr (te_nonce t))]"

definition canonical_payload :: "task_envelope \<Rightarrow> bytes" where
  "canonical_payload t =
     (let data = task_json t;
          data = (if te_approval_id t = None then AList.delete ''approval_id'' data else data)
      in utf8 (dumps True (JObj data)))"

definition compute_task_signature :: "hmac_fn \<Rightarrow> task_envelope \<Rightarrow> string \<Rightarrow> string" where
  "compute_task_signature hm t secret =
     rstrip_eq (urlsafe_b64encode (hm (utf8 secret) (canonical_payload t)))"

text \<open>Everything the signature covers: all fields but the signature itself, the arguments as they are dumped in JSON
  mode, up to the order of their keys.\<close>

definition same_signed_fields :: "task_envelope \<Rightarrow> task_envelope \<Rightarrow> bool" where
  "same_signed_fields t u \<longleftrightarrow>
     te_version t = te_version u \<and> te_task_id t = te_task_id u \<and>
     dt_text (te_issued_at t) = dt_text (te_issued_at u) \<and>
     dt_text (te_expires_at t) = dt_text (te_expires_at u) \<and>
     te_agent t = te_agent u \<and> te_capability t = te_capability u \<and>
     norm (json_mode (JObj (te_arguments t))) = norm (json_mode (JObj (te_arguments u))) \<and>
     te_approval_id t = te_approval_id u \<and> te_nonce t = te_nonce u"

definition signed_json :: "task_envelope \<Rightarrow> (string \<times> json) list" where
  "signed_json t = (if te_approval_id t = None then AList.delete ''approval_id'' (task_json t) else task_json t)"

lemma canonical_payload_signed: "canonical_payload t = utf8 (dumps True (JObj (signed_json t)))"
  by (simp add: canonical_payload_def signed_json_def Let_def)

lemma json_wf_signed: "json_wf (JObj (te_arguments t)) \<Longrightarrow> json_wf (JObj (signed_json t))"
  using json_mode_wf [of "JObj (te_arguments t)"] by (simp add: signed_json_def task_json_def)

lemma signed_json_lookup:
  "map_of (signed_json t) ''version'' = Some (JStr (te_version t))"
  "map_of (signed_json t) ''task_id'' = Some (JStr (te_task_id t))"
  "map_of (signed_json t) ''issued_at'' = Some (JStr (dt_text (te_issued_at t)))"
  "map_of (signed_json t) ''expires_at'' = Some (JStr (dt_text (te_expires_at t)))"
  "map_of (signed_json t) ''agent'' = Some (agent_json (te_agent t))"
  "map_of (signed_json t) ''capability'' = Some (JStr (te_capability t))"
  "map_of (signed_json t) ''arguments'' = Some (json_mode (JObj (te_arguments t)))"
  "map_of (signed_json t) ''approval_id'' = map_option JStr (te_approval_id t)"
  "map_of (signed_json t) ''nonce'' = Some (JStr (te_nonce t))"
  by (auto simp: signed_json_def task_json_def opt_str_def)

lemma map_option_JStr_norm: "map_option norm (map_option JStr a) = map_option JStr a"
  by (cases a) simp_all

lemma map_option_JStr_inj: "map_option JStr a = map_option JStr b \<longleftrightarrow> a = b"
  by (cases a; cases b) simp_all

lemma canonical_payload_fields:
  assumes "json_wf (JObj (te_arguments t))" "json_wf (JObj (te_arguments u))"
    and "canonical_payload t = canonical_payload u"
  shows "same_signed_fields t u"
proof -
  have eq: "map_option norm (map_of (signed_json t) k) = map_option norm (map_of (signed_json u) k)" for k
    using assms by (intro dumps_JObj_lookup [where ascii = True])
      (simp_all add: canonical_payload_signed json_wf_signed del: dumps.simps json_wf.simps)
  note e = eq [of "''version''"] eq [of "''task_id''"] eq [of "''issued_at''"] eq [of "''expires_at''"]
    eq [of "''agent''"] eq [of "''capability''"] eq [of "''arguments''"] eq [of "''approval_id''"] eq [of "''nonce''"]
  show ?thesis
    using e unfolding same_signed_fields_def signed_json_lookup map_option_JStr_norm map_option_JStr_inj
    by (simp add: norm_agent_json_inj del: norm.simps) simp
qed

lemma is_ascii_signature [simp]: "is_ascii (compute_task_signature hm t secret)"
  by (simp add: compute_task_signature_def)

lemma signature_fields:
  assumes "json_wf (JObj (te_arguments t))" "json_wf (JObj (te_arguments u))"
    and "compute_task_signature hm t secret = compute_task_signature hm u secret"
  shows "same_signed_fields t u \<or> mac_clash hm (utf8 secret) (canonical_payload t) (canonical_payload u)"
  using assms canonical_payload_fields [OF assms(1,2)]
  by (auto simp: compute_task_signature_def b64_text_inj mac_clash_def)

section \<open>The contract of a replay guard\<close>

datatype auth_error = Value_error string | Replay_unavailable string | Type_error

text \<open>A call of a guard: the environment's choice for it, the guard's clock, the nonce and its expiry.\<close>

type_synonym 'x guard_call = "'x \<times> int \<times> string \<times> int"

abbreviation call_now :: "'x guard_call \<Rightarrow> int" where "call_now c \<equiv> fst (snd c)"
abbreviation call_nonce :: "'x guard_call \<Rightarrow> string" where "call_nonce c \<equiv> fst (snd (snd c))"
abbreviation call_expiry :: "'x guard_call \<Rightarrow> int" where "call_expiry c \<equiv> snd (snd (snd c))"

fun run_guard ::
  "('x \<Rightarrow> int \<Rightarrow> string \<Rightarrow> int \<Rightarrow> 's \<Rightarrow> (auth_error + unit) \<times> 's) \<Rightarrow> 'x guard_call list \<Rightarrow> 's \<Rightarrow> bool list" where
  "run_guard check [] s = []"
| "run_guard check ((x, now, nonce, expiry) # cs) s =
     (case check x now nonce expiry s of (r, s') \<Rightarrow> is_ok r # run_guard check cs s')"

lemma length_run_guard [simp]: "length (run_guard check cs s) = length cs"
  by (induction check cs s rule: run_guard.induct) (simp_all split: prod.splits)

locale replay_guard =
  fixes check :: "'x \<Rightarrow> int \<Rightarrow> string \<Rightarrow> int \<Rightarrow> 's \<Rightarrow> (auth_error + unit) \<times> 's"
    and remembers :: "'s \<Rightarrow> string \<Rightarrow> int \<Rightarrow> bool"
    and inv :: "'s \<Rightarrow> bool"
  assumes accepted: "inv s \<Longrightarrow> check x now n e s = (Inr u, s') \<Longrightarrow> now < e \<and> remembers s' n e"
    and refused: "inv s \<Longrightarrow> remembers s n t \<Longrightarrow> now < t \<Longrightarrow> \<not> is_ok (fst (check x now n e s))"
    and kept: "inv s \<Longrightarrow> remembers s n t \<Longrightarrow> now < t \<Longrightarrow> remembers (snd (check x now m e s)) n t"
    and inv_check: "inv s \<Longrightarrow> inv (snd (check x now m e s))"
begin

lemma remembered_never_accepted:
  assumes "inv s" "remembers s n t" "sorted (map call_now cs)" "j < length cs"
    and "run_guard check cs s ! j" "call_nonce (cs ! j) = n"
  shows "t \<le> call_now (cs ! j)"
  using assms
proof (induction cs arbitrary: s j)
  case (Cons c cs)
  obtain x now m e where c: "c = (x, now, m, e)" by (cases c)
  obtain r s' where r: "check x now m e s = (r, s')" by fastforce
  show ?case
  proof (rule ccontr)
    assume late: "\<not> t \<le> call_now ((c # cs) ! j)"
    have "now \<le> call_now ((c # cs) ! j)"
      using Cons.prems(3,4) c by (cases j) auto
    then have now: "now < t" using late by simp
    show False
    proof (cases j)
      case 0
      then show False using Cons.prems c r refused [OF Cons.prems(1,2) now, of x e] by simp
    next
      case (Suc i)
      have "inv s'" "remembers s' n t"
        using inv_check [OF Cons.prems(1), of x now m e] kept [OF Cons.prems(1,2) now, of x m e] r by simp_all
      then have "t \<le> call_now (cs ! i)"
        by (rule Cons.IH) (use Cons.prems Suc c r in auto)
      with late Suc show False by simp
    qed
  qed
qed simp

lemma no_replay:
  assumes "inv s" "sorted (map call_now cs)" "i < j" "j < length cs"
    and "run_guard check cs s ! i" "run_guard check cs s ! j"
    and "call_nonce (cs ! i) = call_nonce (cs ! j)"
  shows "call_expiry (cs ! i) \<le> call_now (cs ! j)"
  using assms
proof (induction cs arbitrary: s i j)
  case (Cons c cs)
  obtain x now m e where c: "c = (x, now, m, e)" by (cases c)
  obtain r s' where r: "check x now m e s = (r, s')" by fastforce
  obtain k where j: "j = Suc k" using Cons.prems(3) by (cases j) auto
  have inv': "inv s'" using inv_check [OF Cons.prems(1), of x now m e] r by simp
  show ?case
  proof (cases i)
    case 0
    then have "is_ok r" using Cons.prems(5) c r by simp
    then obtain u where "r = Inr u" by (cases r) simp_all
    then have "remembers s' m e" using accepted [OF Cons.prems(1), of x now m e u s'] r by simp
    from remembered_never_accepted [OF inv' this, of cs k] show ?thesis
      using Cons.prems c r j 0 by simp
  next
    case (Suc i')
    have "call_expiry (cs ! i') \<le> call_now (cs ! k)"
      by (rule Cons.IH [OF inv']) (use Cons.prems Suc c r j in simp_all)
    then show ?thesis using Suc j by simp
  qed
qed simp

text \<open>A call is accepted only before its expiry, so a pair of nonce and expiry is accepted once.\<close>

lemma accepted_in_time:
  "inv s \<Longrightarrow> i < length cs \<Longrightarrow> run_guard check cs s ! i \<Longrightarrow> call_now (cs ! i) < call_expiry (cs ! i)"
proof (induction cs arbitrary: s i)
  case (Cons c cs)
  obtain x now m e where c: "c = (x, now, m, e)" by (cases c)
  obtain r s' where r: "check x now m e s = (r, s')" by fastforce
  show ?case
  proof (cases i)
    case 0
    then obtain u where "r = Inr u" using Cons.prems(3) c r by (cases r) simp_all
    then show ?thesis using accepted [OF Cons.prems(1), of x now m e u s'] r c 0 by simp
  next
    case (Suc k)
    have "inv s'" using inv_check [OF Cons.prems(1), of x now m e] r by simp
    then show ?thesis using Cons.IH [of s' k] Cons.prems c r Suc by simp
  qed
qed simp

lemma accepted_once:
  assumes "inv s" "sorted (map call_now cs)" "i < length cs" "j < length cs"
    and "run_guard check cs s ! i" "run_guard check cs s ! j"
    and "call_nonce (cs ! i) = call_nonce (cs ! j)" "call_expiry (cs ! i) = call_expiry (cs ! j)"
  shows "i = j"
proof (rule ccontr)
  assume "i \<noteq> j"
  then consider "i < j" | "j < i" by linarith
  then show False
  proof cases
    case 1
    then show False using no_replay [OF assms(1,2) 1] accepted_in_time [of s j cs] assms by simp
  next
    case 2
    then show False using no_replay [OF assms(1,2) 2] accepted_in_time [of s i cs] assms by simp
  qed
qed

end

section \<open>The in-memory guard\<close>

record mem_guard =
  mg_seen :: "(string, int) dict"
  mg_max_entries :: int

definition mem_guard_init :: "int \<Rightarrow> auth_error + mem_guard" where
  "mem_guard_init max_entries =
     (if max_entries < 1 then Inl (Value_error ''max_entries must be positive'')
      else Inr \<lparr>mg_seen = [], mg_max_entries = max_entries\<rparr>)"

text \<open>The purge is a mutation of the dictionary and stays when a later check raises.\<close>

definition mem_check_and_mark ::
  "unit \<Rightarrow> int \<Rightarrow> string \<Rightarrow> int \<Rightarrow> mem_guard \<Rightarrow> (auth_error + unit) \<times> mem_guard" where
  "mem_check_and_mark _ now_timestamp nonce expires_timestamp g =
     (if expires_timestamp \<le> now_timestamp then (Inl (Value_error ''task expired''), g)
      else
        let expired = map fst (filter (\<lambda>(_, seen_expiry). seen_expiry \<le> now_timestamp) (mg_seen g));
            seen = foldl (\<lambda>d k. AList.delete k d) (mg_seen g) expired;
            g' = g\<lparr>mg_seen := seen\<rparr>
        in if nonce \<in> set (keys seen) then (Inl (Value_error ''replayed task nonce''), g')
           else if mg_max_entries g \<le> int (length seen)
             then (Inl (Replay_unavailable ''replay guard capacity exhausted''), g')
           else (Inr (), g'\<lparr>mg_seen := AList.update nonce expires_timestamp seen\<rparr>))"

definition mem_remembers :: "mem_guard \<Rightarrow> string \<Rightarrow> int \<Rightarrow> bool" where
  "mem_remembers g n t \<longleftrightarrow> map_of (mg_seen g) n = Some t"

definition mem_guard_wf :: "mem_guard \<Rightarrow> bool" where
  "mem_guard_wf g \<longleftrightarrow> distinct (keys (mg_seen g)) \<and> int (length (mg_seen g)) \<le> mg_max_entries g"

lemma map_of_foldl_delete:
  "map_of (foldl (\<lambda>d k. AList.delete k d) d ks) n = (if n \<in> set ks then None else map_of d n)"
  by (induction ks arbitrary: d) (auto simp: AList.delete_conv)

lemma foldl_delete_shrinks:
  "distinct (keys d) \<Longrightarrow> distinct (keys (foldl (\<lambda>d k. AList.delete k d) d ks))
     \<and> length (foldl (\<lambda>d k. AList.delete k d) d ks) \<le> length d"
proof (induction ks arbitrary: d)
  case (Cons k ks)
  have "length (AList.delete k d) \<le> length d" by (rule AList.length_delete_le)
  then show ?case using Cons.IH [OF AList.distinct_delete [OF Cons.prems, of k]] by simp
qed simp

lemma in_expired_keys:
  assumes "distinct (keys d)" "map_of d n = Some t"
  shows "n \<in> set (map fst (filter (\<lambda>(_, e). e \<le> now) d)) \<longleftrightarrow> t \<le> (now :: int)"
  using assms by (auto simp: image_iff) (metis Some_eq_map_of_iff option.inject)

lemma length_update_fresh: "k \<notin> set (keys d) \<Longrightarrow> length (AList.update k v d) = Suc (length d)"
  by (simp add: update_fresh)

lemmas mem_guard_defs = mem_check_and_mark_def mem_remembers_def mem_guard_wf_def Let_def

interpretation mem: replay_guard mem_check_and_mark mem_remembers mem_guard_wf
proof
  fix s s' :: mem_guard and x :: unit and now e t :: int and n m :: string and u :: unit
  let ?d = "\<lambda>s. foldl (\<lambda>d k. AList.delete k d) (mg_seen s)
    (map fst (filter (\<lambda>(_, e). e \<le> now) (mg_seen s)))"
  have shrink: "distinct (keys (?d s)) \<and> length (?d s) \<le> length (mg_seen s)" if "mem_guard_wf s"
    using that by (intro foldl_delete_shrinks) (simp add: mem_guard_wf_def)
  have live: "map_of (?d s) n = Some t" if "mem_guard_wf s" "mem_remembers s n t" "now < t"
    using that in_expired_keys [of "mg_seen s" n t now]
    by (simp add: map_of_foldl_delete mem_guard_wf_def mem_remembers_def del: set_map set_filter)
  have live_key: "n \<in> set (keys (?d s))" if "mem_guard_wf s" "mem_remembers s n t" "now < t"
    using live [OF that] map_of_eq_None_keys [of "?d s" n] by simp
  show "now < e \<and> mem_remembers s' n e" if "mem_guard_wf s" "mem_check_and_mark x now n e s = (Inr u, s')"
    using that by (auto simp: mem_guard_defs AList.update_conv split: if_splits)
  show "\<not> is_ok (fst (mem_check_and_mark x now n e s))" if "mem_guard_wf s" "mem_remembers s n t" "now < t"
    using live_key [OF that] by (simp add: mem_check_and_mark_def Let_def)
  show "mem_remembers (snd (mem_check_and_mark x now m e s)) n t"
    if "mem_guard_wf s" "mem_remembers s n t" "now < t"
    using live [OF that] live_key [OF that] that(2)
    by (auto simp: mem_check_and_mark_def mem_remembers_def Let_def AList.update_conv)
  show "mem_guard_wf (snd (mem_check_and_mark x now m e s))" if "mem_guard_wf s"
    using shrink [OF that] that
    by (auto simp: mem_check_and_mark_def mem_guard_wf_def Let_def length_update_fresh AList.distinct_update)
qed

section \<open>The SQLite guard\<close>

text \<open>
  The database file: its kind on disk, the verdict of \<open>PRAGMA quick_check\<close>, the columns of
  \<open>seen_nonces\<close> and the rows of \<open>replay_metadata\<close> (\<open>None\<close> before the table exists), and the
  rows of \<open>seen_nonces\<close>. A statement that SQLite refuses (\<open>fault\<close>) ends the
  transaction in a rollback; so does a violated \<open>PRIMARY KEY\<close> or \<open>CHECK\<close> constraint.
\<close>

datatype file_kind = Absent | Regular_file | Symbolic_link | Other_kind

record seen_row =
  sr_nonce_hmac :: string
  sr_expires_at_us :: int
  sr_created_at_us :: int

record replay_db =
  rd_kind :: file_kind
  rd_quick_check :: bool
  rd_columns :: "string list option"
  rd_metadata :: "(string, string) dict option"
  rd_seen :: "seen_row list"

record sqlite_guard =
  sg_key :: bytes
  sg_max_entries :: int

datatype db_fault = No_fault | Mkdir_fault | Db_fault

definition nonce_hmac :: "hmac_fn \<Rightarrow> sqlite_guard \<Rightarrow> string \<Rightarrow> string" where
  "nonce_hmac hm g nonce = keyed_digest hm (sg_key g) ''replay-nonce-v1'' (utf8 nonce)"

definition seen_columns :: "string list" where
  "seen_columns = [''nonce_hmac'', ''expires_at_us'', ''created_at_us'']"

definition assert_safe_database_path :: "replay_db \<Rightarrow> auth_error + unit" where
  "assert_safe_database_path db =
     (case rd_kind db of
        Absent \<Rightarrow> Inr ()
      | Symbolic_link \<Rightarrow> Inl (Replay_unavailable ''replay database cannot be a symbolic link'')
      | Other_kind \<Rightarrow> Inl (Replay_unavailable ''replay database is not a regular file'')
      | Regular_file \<Rightarrow> Inr ())"

definition sqlite_verify :: "bool \<Rightarrow> sqlite_guard \<Rightarrow> replay_db \<Rightarrow> auth_error + unit" where
  "sqlite_verify fault g db =
     (case assert_safe_database_path db of Inl e \<Rightarrow> Inl e
      | Inr _ \<Rightarrow>
        if fault then Inl (Replay_unavailable ''replay database is unavailable'')
        else if \<not> rd_quick_check db then Inl (Replay_unavailable ''replay database integrity check failed'')
        else case rd_metadata db of
          None \<Rightarrow> Inl (Replay_unavailable ''replay database is unavailable'')
        | Some meta \<Rightarrow>
          if map_of meta ''schema_version'' \<noteq> Some ''1''
            then Inl (Replay_unavailable ''unsupported replay database schema'')
          else if set (case rd_columns db of None \<Rightarrow> [] | Some cols \<Rightarrow> cols) \<noteq> set seen_columns
            then Inl (Replay_unavailable ''unexpected replay database schema'')
          else if sg_max_entries g < int (length (rd_seen db))
            then Inl (Replay_unavailable ''replay database exceeds configured capacity'')
          else Inr ())"

text \<open>The transaction of \<open>_initialize\<close>: the tables when they are missing, the schema version, the
  purge at the guard's clock. Its result is the committed database or the exception after a rollback.\<close>

definition initialize_transaction :: "datetime \<Rightarrow> replay_db \<Rightarrow> auth_error + replay_db" where
  "initialize_transaction now db =
     (let cols = (case rd_columns db of None \<Rightarrow> seen_columns | Some c \<Rightarrow> c);
          meta = (case rd_metadata db of None \<Rightarrow> [] | Some m \<Rightarrow> m);
          version = map_of meta ''schema_version'' in
      if ''expires_at_us'' \<notin> set cols then Inl (Replay_unavailable ''replay database is unavailable'')
      else if version \<noteq> None \<and> version \<noteq> Some ''1'' then Inl (Replay_unavailable ''unsupported replay database schema'')
      else case datetime_to_microseconds now of
        Inl msg \<Rightarrow> Inl (Value_error msg)
      | Inr now_us \<Rightarrow> Inr (db\<lparr>rd_kind := Regular_file, rd_columns := Some cols,
            rd_metadata := Some (if version = None then meta @ [(''schema_version'', ''1'')] else meta),
            rd_seen := filter (\<lambda>r. \<not> sr_expires_at_us r \<le> now_us) (rd_seen db)\<rparr>))"

definition sqlite_initialize ::
  "db_fault \<Rightarrow> bool \<Rightarrow> datetime \<Rightarrow> sqlite_guard \<Rightarrow> replay_db \<Rightarrow> (auth_error + unit) \<times> replay_db" where
  "sqlite_initialize fault verify_fault now g db =
     (if fault = Mkdir_fault then (Inl (Replay_unavailable ''replay database directory is unavailable''), db)
      else case assert_safe_database_path db of Inl e \<Rightarrow> (Inl e, db)
      | Inr _ \<Rightarrow>
        if fault = Db_fault then (Inl (Replay_unavailable ''replay database is unavailable''), db)
        else case initialize_transaction now db of
          Inl e \<Rightarrow> (Inl e, db\<lparr>rd_kind := Regular_file\<rparr>)
        | Inr db' \<Rightarrow> (sqlite_verify verify_fault g db', db'))"

text \<open>The constructor; \<open>busy_timeout_seconds\<close> in milliseconds.\<close>

definition sqlite_guard_init ::
  "db_fault \<Rightarrow> bool \<Rightarrow> datetime \<Rightarrow> string \<Rightarrow> int \<Rightarrow> int \<Rightarrow> replay_db \<Rightarrow> (auth_error + sqlite_guard) \<times> replay_db" where
  "sqlite_guard_init fault verify_fault now key max_entries busy_timeout db =
     (if length (utf8 key) < 32 then
        (Inl (Value_error ''replay guard key must contain at least 32 UTF-8 bytes''), db)
      else if max_entries < 1 then (Inl (Value_error ''max_entries must be positive''), db)
      else if busy_timeout \<le> 0 then (Inl (Value_error ''busy_timeout_seconds must be positive''), db)
      else let g = \<lparr>sg_key = utf8 key, sg_max_entries = max_entries\<rparr> in
        (case sqlite_initialize fault verify_fault now g db of
           (Inl e, db') \<Rightarrow> (Inl e, db') | (Inr _, db') \<Rightarrow> (Inr g, db')))"

text \<open>The transaction of \<open>check_and_mark\<close>, on integer microseconds.\<close>

definition check_and_mark_us ::
  "hmac_fn \<Rightarrow> sqlite_guard \<Rightarrow> bool \<Rightarrow> int \<Rightarrow> string \<Rightarrow> int \<Rightarrow> replay_db \<Rightarrow> (auth_error + unit) \<times> replay_db" where
  "check_and_mark_us hm g fault now_us nonce expires_at_us db =
     (if expires_at_us \<le> now_us then (Inl (Value_error ''task expired''), db)
      else let h = nonce_hmac hm g nonce in
        if fault then (Inl (Replay_unavailable ''replay database is unavailable''), db)
        else let live = filter (\<lambda>r. \<not> sr_expires_at_us r \<le> now_us) (rd_seen db) in
          if List.find (\<lambda>r. sr_nonce_hmac r = h) live \<noteq> None
            then (Inl (Value_error ''replayed task nonce''), db)
          else if sg_max_entries g \<le> int (length live)
            then (Inl (Replay_unavailable ''replay guard capacity exhausted''), db)
          else if length h \<noteq> 64 then (Inl (Replay_unavailable ''replay database is unavailable''), db)
          else (Inr (), db\<lparr>rd_seen := live @ [\<lparr>sr_nonce_hmac = h, sr_expires_at_us = expires_at_us,
                   sr_created_at_us = now_us\<rparr>]\<rparr>))"

definition sqlite_check_and_mark ::
  "hmac_fn \<Rightarrow> sqlite_guard \<Rightarrow> bool \<Rightarrow> datetime \<Rightarrow> string \<Rightarrow> datetime \<Rightarrow> replay_db \<Rightarrow> (auth_error + unit) \<times> replay_db" where
  "sqlite_check_and_mark hm g fault now nonce expires_at db =
     (case datetime_to_microseconds now of Inl msg \<Rightarrow> (Inl (Value_error msg), db)
      | Inr now_us \<Rightarrow> (case datetime_to_microseconds expires_at of Inl msg \<Rightarrow> (Inl (Value_error msg), db)
      | Inr expires_at_us \<Rightarrow> check_and_mark_us hm g fault now_us nonce expires_at_us db))"

definition sqlite_remembers :: "hmac_fn \<Rightarrow> sqlite_guard \<Rightarrow> replay_db \<Rightarrow> string \<Rightarrow> int \<Rightarrow> bool" where
  "sqlite_remembers hm g db n t \<longleftrightarrow>
     (\<exists>r \<in> set (rd_seen db). sr_nonce_hmac r = nonce_hmac hm g n \<and> sr_expires_at_us r = t)"

definition replay_db_wf :: "sqlite_guard \<Rightarrow> replay_db \<Rightarrow> bool" where
  "replay_db_wf g db \<longleftrightarrow>
     distinct (map sr_nonce_hmac (rd_seen db)) \<and> int (length (rd_seen db)) \<le> sg_max_entries g \<and>
     (\<forall>r \<in> set (rd_seen db). length (sr_nonce_hmac r) = 64)"

lemma find_not_None: "List.find P xs \<noteq> None \<longleftrightarrow> (\<exists>x \<in> set xs. P x)"
  using find_None_iff [of P xs] by auto

lemma check_and_mark_us_ok:
  "check_and_mark_us hm g fault now n e db = (Inr u, db') \<Longrightarrow>
     now < e \<and> \<not> fault \<and> (\<forall>r \<in> set (rd_seen db). now < sr_expires_at_us r \<longrightarrow> sr_nonce_hmac r \<noteq> nonce_hmac hm g n) \<and>
     int (length (filter (\<lambda>r. now < sr_expires_at_us r) (rd_seen db))) < sg_max_entries g \<and>
     length (nonce_hmac hm g n) = 64 \<and>
     db' = db\<lparr>rd_seen := filter (\<lambda>r. now < sr_expires_at_us r) (rd_seen db) @
       [\<lparr>sr_nonce_hmac = nonce_hmac hm g n, sr_expires_at_us = e, sr_created_at_us = now\<rparr>]\<rparr>"
  by (auto simp: check_and_mark_us_def Let_def find_None_iff not_le split: if_splits)

lemma check_and_mark_us_error: "check_and_mark_us hm g fault now n e db = (Inl err, db') \<Longrightarrow> db' = db"
  by (auto simp: check_and_mark_us_def Let_def split: if_splits)

lemma replay_db_wf_check:
  assumes "replay_db_wf g db"
  shows "replay_db_wf g (snd (check_and_mark_us hm g fault now n e db))"
proof (cases "check_and_mark_us hm g fault now n e db")
  case (Pair r db')
  show ?thesis
  proof (cases r)
    case (Inl err)
    with Pair check_and_mark_us_error assms show ?thesis by fastforce
  next
    case (Inr u)
    note ok = check_and_mark_us_ok [OF Pair [unfolded Inr]]
    have "distinct (map sr_nonce_hmac (filter (\<lambda>r. now < sr_expires_at_us r) (rd_seen db)))"
      using assms by (simp add: replay_db_wf_def distinct_map_filter)
    with assms ok Pair show ?thesis by (auto simp: replay_db_wf_def)
  qed
qed

interpretation sqlite: replay_guard "check_and_mark_us hm g" "sqlite_remembers hm g" "replay_db_wf g" for hm g
proof
  fix s s' :: replay_db and x :: bool and now e t :: int and n m :: string and u :: unit
  show "now < e \<and> sqlite_remembers hm g s' n e" if "check_and_mark_us hm g x now n e s = (Inr u, s')"
    using check_and_mark_us_ok [OF that] by (auto simp: sqlite_remembers_def)
  show "\<not> is_ok (fst (check_and_mark_us hm g x now n e s))" if "sqlite_remembers hm g s n t" "now < t"
    using that check_and_mark_us_ok [of hm g x now n e s]
    by (cases "check_and_mark_us hm g x now n e s") (auto simp: is_ok_iff sqlite_remembers_def)
  show "sqlite_remembers hm g (snd (check_and_mark_us hm g x now m e s)) n t"
    if "sqlite_remembers hm g s n t" "now < t"
  proof (cases "check_and_mark_us hm g x now m e s")
    case (Pair r s')
    with that check_and_mark_us_ok [of hm g x now m e s _ s'] check_and_mark_us_error [of hm g x now m e s _ s']
    show ?thesis by (cases r) (auto simp: sqlite_remembers_def)
  qed
qed (rule replay_db_wf_check)

text \<open>After the constructor has succeeded the database has the expected layout, holds no expired row and
  is within capacity; \<open>replay_db_wf\<close> follows for every database whose rows satisfy the table's
  own constraints.\<close>

lemma initialize_transaction_ok:
  assumes "initialize_transaction now db = Inr db'"
  shows "rd_kind db' = Regular_file \<and> dt_aware now \<and>
    rd_seen db' = filter (\<lambda>r. micros now < sr_expires_at_us r) (rd_seen db)"
  using assms unfolding initialize_transaction_def Let_def datetime_to_microseconds_def
  by (simp split: if_splits) (auto simp: not_le)

lemma sqlite_verify_fault: "sqlite_verify fault g db = Inr u \<Longrightarrow> sqlite_verify False g db = Inr ()"
  by (simp add: sqlite_verify_def split: sum.splits if_splits)

lemma sqlite_initialize_ok:
  assumes "sqlite_initialize fault vf now g db = (Inr u, db')"
  shows "sqlite_verify False g db' = Inr () \<and> rd_kind db' = Regular_file \<and> dt_aware now \<and>
    rd_seen db' = filter (\<lambda>r. micros now < sr_expires_at_us r) (rd_seen db)"
proof -
  from assms have "initialize_transaction now db = Inr db'" "sqlite_verify vf g db' = Inr u"
    by (auto simp: sqlite_initialize_def split: if_splits sum.splits)
  then show ?thesis using initialize_transaction_ok sqlite_verify_fault by blast
qed

lemma sqlite_verify_capacity: "sqlite_verify fault g db = Inr u \<Longrightarrow> int (length (rd_seen db)) \<le> sg_max_entries g"
  by (auto simp: sqlite_verify_def split: sum.splits if_splits option.splits)

lemma sqlite_initialize_wf:
  assumes "sqlite_initialize fault vf now g db = (Inr u, db')"
    and "distinct (map sr_nonce_hmac (rd_seen db))" "\<forall>r \<in> set (rd_seen db). length (sr_nonce_hmac r) = 64"
  shows "replay_db_wf g db'"
  using sqlite_initialize_ok [OF assms(1)] assms(2,3) sqlite_verify_capacity [of False g db']
  by (auto simp: replay_db_wf_def distinct_map_filter)

section \<open>verify\_task\<close>

text \<open>\<open>now\<close> is the clock reading of \<open>verify_task\<close>; the guard reads its own.\<close>

definition verify_task ::
  "hmac_fn \<Rightarrow> (string \<Rightarrow> datetime \<Rightarrow> 's \<Rightarrow> (auth_error + unit) \<times> 's) option \<Rightarrow> int \<Rightarrow> int \<Rightarrow> int \<Rightarrow>
   task_envelope \<Rightarrow> string \<Rightarrow> 's \<Rightarrow> (auth_error + unit) \<times> 's" where
  "verify_task hm guard max_clock_skew_seconds max_task_lifetime_seconds now t secret s =
     (let lifetime = dt_instant (te_expires_at t) - dt_instant (te_issued_at t) in
      if max_task_lifetime_seconds * 1000000 < lifetime
        then (Inl (Value_error ''task lifetime exceeds maximum''), s)
      else if dt_instant (te_expires_at t) \<le> now then (Inl (Value_error ''task expired''), s)
      else if timestamp_diff_gt (dt_instant (te_issued_at t)) now max_clock_skew_seconds
        then (Inl (Value_error ''task issued in the future''), s)
      else let expected = compute_task_signature hm t secret in
        (case compare_digest expected (te_signature t) of
           None \<Rightarrow> (Inl Type_error, s)
         | Some False \<Rightarrow> (Inl (Value_error ''invalid task signature''), s)
         | Some True \<Rightarrow>
             (case guard of None \<Rightarrow> (Inr (), s)
              | Some check_and_mark \<Rightarrow> check_and_mark (te_nonce t) (te_expires_at t) s)))"

lemma verify_task_ok:
  assumes "verify_task hm (Some check) skew lifetime now t secret s = (Inr u, s')"
  shows "te_signature t = compute_task_signature hm t secret \<and> now < dt_instant (te_expires_at t) \<and>
    dt_instant (te_expires_at t) - dt_instant (te_issued_at t) \<le> lifetime * 1000000 \<and>
    \<not> timestamp_diff_gt (dt_instant (te_issued_at t)) now skew \<and>
    check (te_nonce t) (te_expires_at t) s = (Inr (), s')"
  using assms
  by (auto simp: verify_task_def Let_def compare_digest_def not_le split: if_splits option.splits bool.splits)

text \<open>A task that is refused before the guard is asked leaves the guard's state untouched.\<close>

lemma verify_task_unsigned:
  "te_signature t \<noteq> compute_task_signature hm t secret \<Longrightarrow>
     \<exists>e. verify_task hm check skew lifetime now t secret s = (Inl e, s)"
  by (auto simp: verify_task_def Let_def compare_digest_def split: if_splits option.splits bool.splits)

section \<open>Properties\<close>

text \<open>C8. \<open>verify_task\<close> accepts a task exactly when its lifetime is within the maximum, it has not expired, it
  is not issued further in the future than the allowed skew, its signature is the one computed with the
  shared secret, and the replay guard accepts its nonce; the guard's new state is then the one of that
  call.\<close>

theorem verify_task_accepts_iff:
  "verify_task hm (Some check) skew lifetime now t secret s = (Inr (), s') \<longleftrightarrow>
     dt_instant (te_expires_at t) - dt_instant (te_issued_at t) \<le> lifetime * 1000000 \<and>
     now < dt_instant (te_expires_at t) \<and>
     \<not> timestamp_diff_gt (dt_instant (te_issued_at t)) now skew \<and>
     te_signature t = compute_task_signature hm t secret \<and>
     check (te_nonce t) (te_expires_at t) s = (Inr (), s')"
  using is_ascii_signature [of hm t secret]
  by (auto simp: verify_task_def Let_def compare_digest_def simp del: is_ascii_signature split: if_splits option.splits bool.splits)

text \<open>C9. The signature covers every field of the envelope: an accepted task whose signature is the one a
  client computed for a task has the same version, id, times, agent, capability, approval id, nonce and
  (up to key order) arguments as that task, unless two different payloads have the same MAC. Arguments may hold any
  JSON value, floats included; \<open>NaN\<close> and the infinities are signed as the null that pydantic dumps for them, so
  that they are compared as null.\<close>

theorem signature_covers_every_field:
  assumes "json_wf (JObj (te_arguments t))" "json_wf (JObj (te_arguments u))"
    and "te_signature u = compute_task_signature hm t secret"
    and "is_ok (fst (verify_task hm (Some check) skew lifetime now u secret s))"
  shows "same_signed_fields t u \<or> mac_clash hm (utf8 secret) (canonical_payload t) (canonical_payload u)"
proof -
  have "te_signature u = compute_task_signature hm u secret"
    using assms(4) verify_task_unsigned [of u hm secret "Some check" skew lifetime now s] by force
  with assms show ?thesis by (simp add: signature_fields)
qed

text \<open>In every sequence of calls of the SQLite guard with a clock that does not run backwards, whatever
  database faults occur between them, a nonce accepted once is not accepted again before the expiry it
  was accepted with.\<close>

theorem sqlite_guard_no_replay:
  assumes "replay_db_wf g db" "sorted (map call_now cs)" "i < j" "j < length cs"
    and "run_guard (check_and_mark_us hm g) cs db ! i" "run_guard (check_and_mark_us hm g) cs db ! j"
    and "call_nonce (cs ! i) = call_nonce (cs ! j)"
  shows "call_expiry (cs ! i) \<le> call_now (cs ! j)"
  using assms by (rule sqlite.no_replay)

text \<open>The in-memory guard gives the same guarantee, although it keeps the purge of a refused call.\<close>

theorem mem_guard_no_replay:
  assumes "mem_guard_wf g" "sorted (map call_now cs)" "i < j" "j < length cs"
    and "run_guard mem_check_and_mark cs g ! i" "run_guard mem_check_and_mark cs g ! j"
    and "call_nonce (cs ! i) = call_nonce (cs ! j)"
  shows "call_expiry (cs ! i) \<le> call_now (cs ! j)"
  using assms by (rule mem.no_replay)

text \<open>A call of the SQLite guard keeps the table's invariant (unique fingerprints of 64 characters, never
  more rows than \<open>max_entries\<close>); a refused call leaves the database as it was, and an accepted one
  leaves exactly the live rows and the new one.\<close>

theorem sqlite_guard_transaction:
  assumes "replay_db_wf g db" "check_and_mark_us hm g fault now n e db = (r, db')"
  shows "replay_db_wf g db' \<and>
    (case r of Inl _ \<Rightarrow> db' = db
     | Inr _ \<Rightarrow> now < e \<and>
         map sr_nonce_hmac (rd_seen db') =
           map sr_nonce_hmac (filter (\<lambda>x. now < sr_expires_at_us x) (rd_seen db)) @ [nonce_hmac hm g n])"
  using assms replay_db_wf_check [OF assms(1), of hm fault now n e] check_and_mark_us_ok [of hm g fault now n e db _ db']
    check_and_mark_us_error [of hm g fault now n e db _ db']
  by (cases r) auto

section \<open>Examples\<close>

definition ex_guard :: sqlite_guard where
  "ex_guard = \<lparr>sg_key = replicate 32 (CHR ''k''), sg_max_entries = 2\<rparr>"

definition ex_db :: replay_db where
  "ex_db = \<lparr>rd_kind = Regular_file, rd_quick_check = True, rd_columns = Some seen_columns,
     rd_metadata = Some [(''schema_version'', ''1'')], rd_seen = []\<rparr>"

definition ex_time :: "int \<Rightarrow> datetime" where
  "ex_time i = \<lparr>dt_instant = i, dt_aware = True, dt_text = jint i\<rparr>"

definition ex_task :: "string \<Rightarrow> task_envelope" where
  "ex_task cap = (let t = \<lparr>te_version = ''1'', te_task_id = ''task-0001'', te_issued_at = ex_time 2000000,
     te_expires_at = ex_time 9000000,
     te_agent = \<lparr>ai_provider = ''p'', ai_model = None, ai_session_id = ''s''\<rparr>,
     te_capability = cap, te_arguments = [(''path'', JStr ''a'')], te_approval_id = None,
     te_nonce = ''nonce-0123456789'', te_signature = []\<rparr>
   in t\<lparr>te_signature := compute_task_signature toy_mac t ''secret''\<rparr>)"

lemma ex_db_wf: "replay_db_wf ex_guard ex_db"
  by (simp add: replay_db_wf_def ex_guard_def ex_db_def)

theorem signature_covers_every_field_witness:
  "let t = ex_task ''files.read'';
       v = verify_task toy_mac (Some (\<lambda>n e. check_and_mark_us toy_mac ex_guard False 2000000 n (dt_instant e)))
         60 300 2000000 t ''secret'' ex_db
   in is_ok (fst v) \<and> (same_signed_fields t t \<or>
       mac_clash toy_mac (utf8 ''secret'') (canonical_payload t) (canonical_payload t))"
proof -
  let ?t = "ex_task ''files.read''"
  let ?c = "\<lambda>n e. check_and_mark_us toy_mac ex_guard False 2000000 n (dt_instant e)"
  have sig: "te_signature ?t = compute_task_signature toy_mac ?t ''secret''"
    by (simp add: ex_task_def Let_def compute_task_signature_def canonical_payload_def task_json_def)
  have times: "dt_instant (te_issued_at ?t) = 2000000" "dt_instant (te_expires_at ?t) = 9000000"
    and n: "te_nonce ?t = ''nonce-0123456789''" and a: "te_arguments ?t = [(''path'', JStr ''a'')]"
    by (simp_all add: ex_task_def Let_def ex_time_def)
  have guard: "is_ok (fst (?c (te_nonce ?t) (te_expires_at ?t) ex_db))"
    unfolding times n by code_simp
  have ok: "is_ok (fst (verify_task toy_mac (Some ?c) 60 300 2000000 ?t ''secret'' ex_db))"
    using guard by (simp add: verify_task_def Let_def times compare_digest_def sig)
  have wf: "json_wf (JObj (te_arguments ?t))" by (simp add: a)
  show ?thesis using signature_covers_every_field [OF wf wf sig ok] ok by (simp add: Let_def)
qed

theorem sqlite_guard_no_replay_witness:
  "let cs = [(False, 1, ''n'', 5), (True, 2, ''m'', 9), (False, 3, ''n'', 5), (False, 6, ''n'', 9)] in
     run_guard (check_and_mark_us toy_mac ex_guard) cs ex_db = [True, False, False, True] \<and>
     call_expiry (cs ! 0) \<le> call_now (cs ! 3)"
proof -
  let ?cs = "[(False, 1, ''n'', 5), (True, 2, ''m'', 9), (False, 3, ''n'', 5), (False, 6, ''n'', 9)] :: bool guard_call list"
  have r: "run_guard (check_and_mark_us toy_mac ex_guard) ?cs ex_db = [True, False, False, True]" by code_simp
  have "call_expiry (?cs ! 0) \<le> call_now (?cs ! 3)"
    by (rule sqlite_guard_no_replay [OF ex_db_wf, where hm = toy_mac]) (simp_all add: r del: run_guard.simps)
  with r show ?thesis by (simp add: Let_def)
qed

theorem mem_guard_no_replay_witness:
  "let cs = [((), 1, ''n'', 5), ((), 3, ''n'', 5), ((), 6, ''n'', 9)]; g = \<lparr>mg_seen = [], mg_max_entries = 1\<rparr> in
     run_guard mem_check_and_mark cs g = [True, False, True] \<and> call_expiry (cs ! 0) \<le> call_now (cs ! 2)"
proof -
  let ?cs = "[((), 1, ''n'', 5), ((), 3, ''n'', 5), ((), 6, ''n'', 9)] :: unit guard_call list"
  let ?g = "\<lparr>mg_seen = [], mg_max_entries = 1\<rparr>"
  have r: "run_guard mem_check_and_mark ?cs ?g = [True, False, True]" by code_simp
  have "call_expiry (?cs ! 0) \<le> call_now (?cs ! 2)"
    by (rule mem_guard_no_replay [where g = ?g]) (simp_all add: r mem_guard_wf_def del: run_guard.simps)
  with r show ?thesis by (simp add: Let_def)
qed

theorem sqlite_guard_transaction_witness:
  "case check_and_mark_us toy_mac ex_guard False 1 ''n'' 5 ex_db of (r, db') \<Rightarrow>
     is_ok r \<and> replay_db_wf ex_guard db'"
proof -
  obtain r db' where c: "check_and_mark_us toy_mac ex_guard False 1 ''n'' 5 ex_db = (r, db')" by fastforce
  have "is_ok (fst (check_and_mark_us toy_mac ex_guard False 1 ''n'' 5 ex_db))" by code_simp
  with c sqlite_guard_transaction [OF ex_db_wf c] show ?thesis by simp
qed

end
