(* ===== verification/Hash_Chain.thy ===== *)
theory Hash_Chain
  imports Crypto
begin

text \<open>
  What the audit log and the anchor file have in common: files of text lines read with Python's universal
  newlines, and chains of records in which each record names the MAC of the one before. The locale
  \<open>mac_chain\<close> states the laws of such records; its client lemmas say that the last MAC determines the
  whole chain, and that the MAC at one position determines the chain up to it.
\<close>

section \<open>Lines\<close>

abbreviation NL :: char where "NL \<equiv> CHR 0x0A"
abbreviation CR :: char where "CR \<equiv> CHR 0x0D"

fun translate_newlines :: "string \<Rightarrow> string" where
  "translate_newlines [] = []"
| "translate_newlines (c # cs) =
     (if c = CR then NL # (case cs of d # ds \<Rightarrow> if d = NL then translate_newlines ds else translate_newlines (d # ds) | [] \<Rightarrow> [])
      else c # translate_newlines cs)"

fun split_lines :: "string \<Rightarrow> string list" where
  "split_lines [] = []"
| "split_lines (c # cs) =
     (if c = NL then [] # split_lines cs
      else case split_lines cs of [] \<Rightarrow> [[c]] | l # ls \<Rightarrow> (c # l) # ls)"

text \<open>The lines a text-mode file yields, without their line ends.\<close>

definition text_lines :: "string \<Rightarrow> string list" where
  "text_lines text = split_lines (translate_newlines text)"

definition ends_with_newline :: "string \<Rightarrow> bool" where
  "ends_with_newline text \<longleftrightarrow> text \<noteq> [] \<and> last text = NL"

lemma split_lines_line: "NL \<notin> set l \<Longrightarrow> split_lines (l @ NL # r) = l # split_lines r"
  by (induction l) auto

lemma split_lines_nonempty: "s \<noteq> [] \<Longrightarrow> split_lines s \<noteq> []"
  by (cases s) (auto split: list.splits)

lemma split_lines_append: "s = [] \<or> last s = NL \<Longrightarrow> split_lines (s @ r) = split_lines s @ split_lines r"
proof (induction s rule: split_lines.induct)
  case (2 c cs)
  show ?case
  proof (cases "c = NL")
    case True
    then show ?thesis using 2 by (cases cs) auto
  next
    case False
    then have "cs \<noteq> []" "last cs = NL" using 2(3) by (auto split: if_splits)
    moreover from this obtain l ls where "split_lines cs = l # ls"
      using split_lines_nonempty [of cs] by (cases "split_lines cs") auto
    ultimately show ?thesis using 2(2) False by simp
  qed
qed simp

lemma translate_append:
  "s = [] \<or> last s = NL \<Longrightarrow> translate_newlines (s @ r) = translate_newlines s @ translate_newlines r"
proof (induction s rule: translate_newlines.induct)
  case (2 c cs)
  then show ?case by (cases cs) (auto split: if_splits list.splits)
qed simp

lemma translate_id: "CR \<notin> set s \<Longrightarrow> translate_newlines s = s"
  by (induction s rule: translate_newlines.induct) auto

lemma translate_last: "s \<noteq> [] \<Longrightarrow> last s = NL \<Longrightarrow> translate_newlines s \<noteq> [] \<and> last (translate_newlines s) = NL"
proof (induction s rule: translate_newlines.induct)
  case (2 c cs)
  then show ?case by (cases cs) (auto split: if_splits list.splits)
qed simp

lemma text_lines_append_line:
  assumes "content = [] \<or> last content = NL" "NL \<notin> set l" "CR \<notin> set l"
  shows "text_lines (content @ l @ [NL]) = text_lines content @ [l]"
proof -
  have "translate_newlines (content @ l @ [NL]) = translate_newlines content @ l @ [NL]"
    using assms translate_append [of content "l @ [NL]"] translate_id [of "l @ [NL]"] by simp
  moreover have "translate_newlines content = [] \<or> last (translate_newlines content) = NL"
    using assms(1) translate_last [of content] by (cases "content = []") auto
  ultimately show ?thesis
    using assms(2) split_lines_append [of "translate_newlines content" "l @ [NL]"] split_lines_line [of l "[]"]
    by (simp add: text_lines_def)
qed

lemma text_lines_nonempty: "content \<noteq> [] \<Longrightarrow> last content = NL \<Longrightarrow> text_lines content \<noteq> []"
  using translate_last [of content] unfolding text_lines_def
  by (cases "translate_newlines content") (auto split: list.splits)

section \<open>Chains of authenticated records\<close>

fun chained :: "('e \<Rightarrow> string) \<Rightarrow> ('e \<Rightarrow> string) \<Rightarrow> string \<Rightarrow> 'e list \<Rightarrow> bool" where
  "chained mac prev g [] = True"
| "chained mac prev g (e # es) \<longleftrightarrow> prev e = g \<and> chained mac prev (mac e) es"

fun last_mac :: "('e \<Rightarrow> string) \<Rightarrow> string \<Rightarrow> 'e list \<Rightarrow> string" where
  "last_mac mac g [] = g"
| "last_mac mac g (e # es) = last_mac mac (mac e) es"

lemma chained_append: "chained mac prev g (xs @ ys) \<longleftrightarrow> chained mac prev g xs \<and> chained mac prev (last_mac mac g xs) ys"
  by (induction xs arbitrary: g) auto

lemma last_mac_append: "last_mac mac g (xs @ ys) = last_mac mac (last_mac mac g xs) ys"
  by (induction xs arbitrary: g) auto

lemma last_mac_last: "last_mac mac g es = (if es = [] then g else mac (last es))"
  by (induction es arbitrary: g) auto

locale mac_chain =
  fixes mac :: "'e \<Rightarrow> string"
    and prev :: "'e \<Rightarrow> string"
    and body :: "'e \<Rightarrow> bytes"
    and authentic :: "'e \<Rightarrow> bool"
    and same :: "'e \<Rightarrow> 'e \<Rightarrow> bool"
    and clash :: "bytes \<Rightarrow> bytes \<Rightarrow> bool"
  assumes body_determines: "authentic x \<Longrightarrow> authentic y \<Longrightarrow> body x = body y \<Longrightarrow> same x y \<and> prev x = prev y"
    and mac_determines: "authentic x \<Longrightarrow> authentic y \<Longrightarrow> mac x = mac y \<Longrightarrow> body x = body y \<or> clash (body x) (body y)"
begin

lemma chain_determined:
  assumes "length xs = length ys" "chained mac prev g xs" "chained mac prev g ys"
    and "list_all authentic xs" "list_all authentic ys" "last_mac mac g xs = last_mac mac g ys"
  shows "list_all2 same xs ys \<or> (\<exists>x \<in> set xs. \<exists>y \<in> set ys. clash (body x) (body y))"
  using assms
proof (induction xs arbitrary: ys rule: rev_induct)
  case (snoc x xs)
  then obtain ys' y where ys: "ys = ys' @ [y]" by (metis length_0_conv rev_exhaust snoc_eq_iff_butlast)
  note s = snoc.prems [unfolded ys chained_append last_mac_append, simplified]
  from s have "body x = body y \<or> clash (body x) (body y)" using mac_determines by blast
  then show ?case
  proof
    assume "body x = body y"
    then have "same x y" "prev x = prev y" using body_determines s by blast+
    then show ?thesis using snoc.IH [of ys'] s ys by (auto simp: list_all2_appendI)
  qed (use ys in auto)
qed simp

lemma prefix_determined:
  assumes "n \<le> length xs" "n \<le> length ys" "chained mac prev g xs" "chained mac prev g ys"
    and "list_all authentic xs" "list_all authentic ys"
    and "last_mac mac g (take n xs) = last_mac mac g (take n ys)"
  shows "list_all2 same (take n xs) (take n ys) \<or> (\<exists>x \<in> set xs. \<exists>y \<in> set ys. clash (body x) (body y))"
proof -
  have part: "chained mac prev g (take n zs) \<and> list_all authentic (take n zs)"
    if "chained mac prev g zs" "list_all authentic zs" for zs
    using that chained_append [of mac prev g "take n zs" "drop n zs"] by (auto simp: list_all_iff dest: in_set_takeD)
  have "list_all2 same (take n xs) (take n ys) \<or> (\<exists>x \<in> set (take n xs). \<exists>y \<in> set (take n ys). clash (body x) (body y))"
    by (rule chain_determined) (use part assms in simp_all)
  then show ?thesis by (meson in_set_takeD)
qed

end

end
