(* ===== verification/Approvals.thy ===== *)
theory Approvals
  imports Auth
begin

text \<open>
  approvals.py: the approval store. A request that the policy puts behind an approval becomes a row in
  state \<open>pending\<close>; the operator's command moves it to \<open>approved\<close> or \<open>denied\<close>; the resubmitted
  task moves an approved row to \<open>consumed\<close>. Every row carries an HMAC over its own fields and the HMAC
  of the request it was created for, and every operation is one transaction.

  The state column is text, as in the table: a row read back may hold anything, and
  \<open>verify_stored\<close> is what the code trusts.
\<close>

section \<open>Errors, rows and records\<close>

datatype approval_error =
    Approval_unavailable string
  | Approval_not_found
  | Approval_pending
  | Approval_denied
  | Approval_consumed
  | Approval_expired
  | Approval_mismatch
  | Approval_state string
  | Approval_value_error string
  | Approval_type_error

definition approval_error_text :: "approval_error \<Rightarrow> string" where
  "approval_error_text e =
     (case e of
        Approval_unavailable msg \<Rightarrow> msg
      | Approval_not_found \<Rightarrow> ''approval not found''
      | Approval_pending \<Rightarrow> ''approval is still pending''
      | Approval_denied \<Rightarrow> ''approval was denied''
      | Approval_consumed \<Rightarrow> ''approval was already used''
      | Approval_expired \<Rightarrow> ''approval expired''
      | Approval_mismatch \<Rightarrow> ''approval does not match submitted task''
      | Approval_state st \<Rightarrow> ''approval is already '' @ st
      | Approval_value_error msg \<Rightarrow> msg
      | Approval_type_error \<Rightarrow> ''comparing strings with non-ASCII characters is not supported'')"

record approval_record =
  ar_approval_id :: string
  ar_request_fingerprint :: string
  ar_task_id :: string
  ar_capability :: string
  ar_provider :: string
  ar_model :: "string option"
  ar_state :: string
  ar_created_at :: datetime
  ar_expires_at :: datetime
  ar_decided_at :: "datetime option"
  ar_consumed_at :: "datetime option"

record stored_approval =
  sa_approval_id :: string
  sa_request_hmac :: string
  sa_task_id :: string
  sa_capability :: string
  sa_provider :: string
  sa_model :: "string option"
  sa_state :: string
  sa_created_at_us :: int
  sa_expires_at_us :: int
  sa_decided_at_us :: "int option"
  sa_consumed_at_us :: "int option"
  sa_row_hmac :: string

record approval_db =
  ad_kind :: file_kind
  ad_quick_check :: bool
  ad_columns :: "string list option"
  ad_metadata :: "(string, string) dict option"
  ad_rows :: "stored_approval list"

record approval_store =
  as_key :: bytes
  as_max_entries :: int
  as_ttl_seconds :: int

definition safe_dict :: "approval_record \<Rightarrow> (string \<times> json) list" where
  "safe_dict r =
     [(''approval_id'', JStr (ar_approval_id r)), (''request_fingerprint'', JStr (ar_request_fingerprint r)),
      (''task_id'', JStr (ar_task_id r)), (''capability'', JStr (ar_capability r)),
      (''provider'', JStr (ar_provider r)), (''model'', opt_str (ar_model r)), (''state'', JStr (ar_state r)),
      (''created_at'', JStr (dt_text (ar_created_at r))), (''expires_at'', JStr (dt_text (ar_expires_at r))),
      (''decided_at'', opt_str (map_option dt_text (ar_decided_at r))),
      (''consumed_at'', opt_str (map_option dt_text (ar_consumed_at r)))]"

section \<open>Digests\<close>

definition canonical_bytes :: "(string \<times> json) list \<Rightarrow> bytes" where
  "canonical_bytes fs = utf8 (dumps False (JObj fs))"

definition request_fields :: "task_envelope \<Rightarrow> (string \<times> json) list" where
  "request_fields t =
     [(''version'', JStr (te_version t)), (''task_id'', JStr (te_task_id t)), (''agent'', agent_json (te_agent t)),
      (''capability'', JStr (te_capability t)), (''arguments'', json_mode (JObj (te_arguments t)))]"

definition approval_request_payload :: "task_envelope \<Rightarrow> bytes" where
  "approval_request_payload t = canonical_bytes (request_fields t)"

definition request_hmac :: "hmac_fn \<Rightarrow> approval_store \<Rightarrow> task_envelope \<Rightarrow> string" where
  "request_hmac hm st t = keyed_digest hm (as_key st) ''approval-request-v1'' (approval_request_payload t)"

definition row_hmac :: "hmac_fn \<Rightarrow> approval_store \<Rightarrow> (string \<times> json) list \<Rightarrow> string" where
  "row_hmac hm st fs = keyed_digest hm (as_key st) ''approval-row-v1'' (canonical_bytes fs)"

definition opt_int :: "int option \<Rightarrow> json" where
  "opt_int i = (case i of None \<Rightarrow> JNull | Some n \<Rightarrow> JInt n)"

definition stored_fields :: "stored_approval \<Rightarrow> (string \<times> json) list" where
  "stored_fields r =
     [(''approval_id'', JStr (sa_approval_id r)), (''request_hmac'', JStr (sa_request_hmac r)),
      (''task_id'', JStr (sa_task_id r)), (''capability'', JStr (sa_capability r)),
      (''provider'', JStr (sa_provider r)), (''model'', opt_str (sa_model r)), (''state'', JStr (sa_state r)),
      (''created_at_us'', JInt (sa_created_at_us r)), (''expires_at_us'', JInt (sa_expires_at_us r)),
      (''decided_at_us'', opt_int (sa_decided_at_us r)), (''consumed_at_us'', opt_int (sa_consumed_at_us r))]"

definition approval_states :: "string list" where
  "approval_states = [''pending'', ''approved'', ''denied'', ''consumed'']"

definition verify_stored :: "hmac_fn \<Rightarrow> approval_store \<Rightarrow> stored_approval \<Rightarrow> approval_error + unit" where
  "verify_stored hm st r =
     (if sa_state r \<notin> set approval_states then Inl (Approval_unavailable ''invalid approval state'')
      else if sa_expires_at_us r \<le> sa_created_at_us r then Inl (Approval_unavailable ''invalid approval timestamps'')
      else case compare_digest (row_hmac hm st (stored_fields r)) (sa_row_hmac r) of
        None \<Rightarrow> Inl Approval_type_error
      | Some False \<Rightarrow> Inl (Approval_unavailable ''approval record HMAC is invalid'')
      | Some True \<Rightarrow> Inr ())"

definition new_stored ::
  "hmac_fn \<Rightarrow> approval_store \<Rightarrow> string \<Rightarrow> task_envelope \<Rightarrow> string \<Rightarrow> int \<Rightarrow> int \<Rightarrow> stored_approval" where
  "new_stored hm st token t req created expires =
     (let r = \<lparr>sa_approval_id = ''apr_'' @ token, sa_request_hmac = req, sa_task_id = te_task_id t,
        sa_capability = te_capability t, sa_provider = ai_provider (te_agent t), sa_model = ai_model (te_agent t),
        sa_state = ''pending'', sa_created_at_us = created, sa_expires_at_us = expires,
        sa_decided_at_us = None, sa_consumed_at_us = None, sa_row_hmac = []\<rparr>
      in r\<lparr>sa_row_hmac := row_hmac hm st (stored_fields r)\<rparr>)"

definition replace_state ::
  "hmac_fn \<Rightarrow> approval_store \<Rightarrow> stored_approval \<Rightarrow> string \<Rightarrow> int option \<Rightarrow> int option \<Rightarrow> stored_approval" where
  "replace_state hm st r state decided consumed =
     (let r1 = r\<lparr>sa_state := state\<rparr>;
          r2 = (case decided of None \<Rightarrow> r1 | Some _ \<Rightarrow> r1\<lparr>sa_decided_at_us := decided\<rparr>);
          r3 = (case consumed of None \<Rightarrow> r2 | Some _ \<Rightarrow> r2\<lparr>sa_consumed_at_us := consumed\<rparr>)
      in r3\<lparr>sa_row_hmac := row_hmac hm st (stored_fields r3)\<rparr>)"

definition microseconds_to_datetime :: "int \<Rightarrow> datetime" where
  "microseconds_to_datetime us = \<lparr>dt_instant = us, dt_aware = True, dt_text = iso_utc us\<rparr>"

definition record_from_stored :: "stored_approval \<Rightarrow> approval_record" where
  "record_from_stored r =
     \<lparr>ar_approval_id = sa_approval_id r, ar_request_fingerprint = take 16 (sa_request_hmac r),
      ar_task_id = sa_task_id r, ar_capability = sa_capability r, ar_provider = sa_provider r,
      ar_model = sa_model r, ar_state = sa_state r,
      ar_created_at = microseconds_to_datetime (sa_created_at_us r),
      ar_expires_at = microseconds_to_datetime (sa_expires_at_us r),
      ar_decided_at = map_option microseconds_to_datetime (sa_decided_at_us r),
      ar_consumed_at = map_option microseconds_to_datetime (sa_consumed_at_us r)\<rparr>"

section \<open>Transactions\<close>

text \<open>A transaction commits the rows its body computed or rolls back; \<open>fault\<close> is an error that SQLite or
  the operating system raises.\<close>

definition transaction ::
  "bool \<Rightarrow> approval_db \<Rightarrow> (approval_error + 'a \<times> stored_approval list) \<Rightarrow> (approval_error + 'a) \<times> approval_db" where
  "transaction fault db body =
     (if fault then (Inl (Approval_unavailable ''approval database is unavailable''), db)
      else case body of Inl e \<Rightarrow> (Inl e, db) | Inr (x, rows) \<Rightarrow> (Inr x, db\<lparr>ad_rows := rows\<rparr>))"

definition delete_expired :: "int \<Rightarrow> stored_approval list \<Rightarrow> stored_approval list" where
  "delete_expired now_us rows = filter (\<lambda>r. \<not> sa_expires_at_us r \<le> now_us) rows"

definition load ::
  "hmac_fn \<Rightarrow> approval_store \<Rightarrow> stored_approval list \<Rightarrow> string \<Rightarrow> approval_error + stored_approval" where
  "load hm st rows approval_id =
     (case List.find (\<lambda>r. sa_approval_id r = approval_id) rows of
        None \<Rightarrow> Inl Approval_not_found
      | Some r \<Rightarrow> (case verify_stored hm st r of Inl e \<Rightarrow> Inl e | Inr _ \<Rightarrow> Inr r))"

text \<open>The table's constraints: unique ids, 64-character digests, known states.\<close>

definition row_constraints :: "stored_approval \<Rightarrow> bool" where
  "row_constraints r \<longleftrightarrow> length (sa_request_hmac r) = 64 \<and> sa_state r \<in> set approval_states \<and>
     length (sa_row_hmac r) = 64"

definition insert_row :: "stored_approval \<Rightarrow> stored_approval list \<Rightarrow> approval_error + stored_approval list" where
  "insert_row r rows =
     (if row_constraints r \<and> sa_approval_id r \<notin> set (map sa_approval_id rows) then Inr (rows @ [r])
      else Inl (Approval_unavailable ''approval database is unavailable''))"

definition update_row :: "stored_approval \<Rightarrow> stored_approval list \<Rightarrow> approval_error + stored_approval list" where
  "update_row r rows =
     (if row_constraints r then Inr (map (\<lambda>x. if sa_approval_id x = sa_approval_id r then r else x) rows)
      else Inl (Approval_unavailable ''approval database is unavailable''))"

section \<open>Operations\<close>

definition dt_plus_seconds :: "datetime \<Rightarrow> int \<Rightarrow> datetime" where
  "dt_plus_seconds d s = d\<lparr>dt_instant := dt_instant d + s * 1000000\<rparr>"

definition live_request :: "string \<Rightarrow> int \<Rightarrow> stored_approval \<Rightarrow> bool" where
  "live_request req now_us r \<longleftrightarrow> sa_request_hmac r = req \<and> sa_state r \<in> {''pending'', ''approved''} \<and>
     now_us < sa_expires_at_us r"

definition create_body ::
  "hmac_fn \<Rightarrow> approval_store \<Rightarrow> string \<Rightarrow> int \<Rightarrow> int \<Rightarrow> task_envelope \<Rightarrow> stored_approval list \<Rightarrow>
   approval_error + stored_approval \<times> stored_approval list" where
  "create_body hm st token now_us expires_at_us t rows0 =
     (let req = request_hmac hm st t; rows = delete_expired now_us rows0 in
      case sort_key (\<lambda>r. - sa_created_at_us r) (filter (live_request req now_us) rows) of
        r # _ \<Rightarrow> (case verify_stored hm st r of Inl e \<Rightarrow> Inl e | Inr _ \<Rightarrow> Inr (r, rows))
      | [] \<Rightarrow>
          if as_max_entries st \<le> int (length rows) then Inl (Approval_unavailable ''approval store capacity exhausted'')
          else let r = new_stored hm st token t req now_us expires_at_us in
            (case insert_row r rows of Inl e \<Rightarrow> Inl e | Inr rows' \<Rightarrow> Inr (r, rows')))"

definition with_clock :: "datetime \<Rightarrow> (int \<Rightarrow> (approval_error + 'a) \<times> 's) \<Rightarrow> 's \<Rightarrow> (approval_error + 'a) \<times> 's" where
  "with_clock now f s =
     (case datetime_to_microseconds now of Inl msg \<Rightarrow> (Inl (Approval_value_error msg), s) | Inr us \<Rightarrow> f us)"

definition create ::
  "hmac_fn \<Rightarrow> approval_store \<Rightarrow> bool \<Rightarrow> datetime \<Rightarrow> string \<Rightarrow> task_envelope \<Rightarrow> approval_db \<Rightarrow>
   (approval_error + approval_record) \<times> approval_db" where
  "create hm st fault now token t db =
     with_clock now (\<lambda>now_us. with_clock (dt_plus_seconds now (as_ttl_seconds st)) (\<lambda>expires_at_us.
       (case transaction fault db (create_body hm st token now_us expires_at_us t (ad_rows db)) of
          (Inl e, db') \<Rightarrow> (Inl e, db')
        | (Inr r, db') \<Rightarrow> (Inr (record_from_stored r), db'))) db) db"

fun verify_rows :: "hmac_fn \<Rightarrow> approval_store \<Rightarrow> stored_approval list \<Rightarrow> approval_error + approval_record list" where
  "verify_rows hm st [] = Inr []"
| "verify_rows hm st (r # rs) =
     (case verify_stored hm st r of Inl e \<Rightarrow> Inl e
      | Inr _ \<Rightarrow> (case verify_rows hm st rs of Inl e \<Rightarrow> Inl e | Inr xs \<Rightarrow> Inr (record_from_stored r # xs)))"

definition list_pending ::
  "hmac_fn \<Rightarrow> approval_store \<Rightarrow> bool \<Rightarrow> datetime \<Rightarrow> approval_db \<Rightarrow>
   (approval_error + approval_record list) \<times> approval_db" where
  "list_pending hm st fault now db =
     with_clock now (\<lambda>now_us.
       transaction fault db
         (let rows = delete_expired now_us (ad_rows db) in
          case verify_rows hm st (sort_key sa_created_at_us (filter (\<lambda>r. sa_state r = ''pending'') rows)) of
            Inl e \<Rightarrow> Inl e | Inr records \<Rightarrow> Inr (records, rows))) db"

definition request_matches :: "stored_approval \<Rightarrow> string \<Rightarrow> approval_error + unit" where
  "request_matches r req =
     (case compare_digest (sa_request_hmac r) req of
        None \<Rightarrow> Inl Approval_type_error
      | Some False \<Rightarrow> Inl Approval_mismatch
      | Some True \<Rightarrow> Inr ())"

definition inspect ::
  "hmac_fn \<Rightarrow> approval_store \<Rightarrow> bool \<Rightarrow> datetime \<Rightarrow> string \<Rightarrow> task_envelope \<Rightarrow> approval_db \<Rightarrow>
   (approval_error + approval_record) \<times> approval_db" where
  "inspect hm st fault now approval_id t db =
     with_clock now (\<lambda>now_us.
       if fault then (Inl (Approval_unavailable ''approval database is unavailable''), db)
       else case load hm st (ad_rows db) approval_id of Inl e \<Rightarrow> (Inl e, db)
       | Inr r \<Rightarrow>
         if sa_expires_at_us r \<le> now_us then (Inl Approval_expired, db)
         else case request_matches r (request_hmac hm st t) of Inl e \<Rightarrow> (Inl e, db)
         | Inr _ \<Rightarrow> (Inr (record_from_stored r), db)) db"

definition decide_body ::
  "hmac_fn \<Rightarrow> approval_store \<Rightarrow> int \<Rightarrow> string \<Rightarrow> string \<Rightarrow> string option \<Rightarrow> stored_approval list \<Rightarrow>
   approval_error + stored_approval \<times> stored_approval list" where
  "decide_body hm st now_us approval_id decision req rows =
     (case load hm st rows approval_id of Inl e \<Rightarrow> Inl e
      | Inr r \<Rightarrow>
        if sa_expires_at_us r \<le> now_us then Inl Approval_expired
        else case (case req of None \<Rightarrow> Inr () | Some h \<Rightarrow> request_matches r h) of Inl e \<Rightarrow> Inl e
        | Inr _ \<Rightarrow>
          if sa_state r = decision then Inr (r, rows)
          else if sa_state r \<noteq> ''pending'' then Inl (Approval_state (sa_state r))
          else let updated = replace_state hm st r decision (Some now_us) None in
            (case update_row updated rows of Inl e \<Rightarrow> Inl e | Inr rows' \<Rightarrow> Inr (updated, rows')))"

definition decide ::
  "hmac_fn \<Rightarrow> approval_store \<Rightarrow> bool \<Rightarrow> datetime \<Rightarrow> string \<Rightarrow> string \<Rightarrow> task_envelope option \<Rightarrow> approval_db \<Rightarrow>
   (approval_error + approval_record) \<times> approval_db" where
  "decide hm st fault now approval_id decision t db =
     with_clock now (\<lambda>now_us.
       (case transaction fault db
          (decide_body hm st now_us approval_id decision (map_option (request_hmac hm st) t) (ad_rows db)) of
          (Inl e, db') \<Rightarrow> (Inl e, db')
        | (Inr r, db') \<Rightarrow> (Inr (record_from_stored r), db'))) db"

definition approve ::
  "hmac_fn \<Rightarrow> approval_store \<Rightarrow> bool \<Rightarrow> datetime \<Rightarrow> string \<Rightarrow> task_envelope \<Rightarrow> approval_db \<Rightarrow>
   (approval_error + approval_record) \<times> approval_db" where
  "approve hm st fault now approval_id t db = decide hm st fault now approval_id ''approved'' (Some t) db"

definition deny ::
  "hmac_fn \<Rightarrow> approval_store \<Rightarrow> bool \<Rightarrow> datetime \<Rightarrow> string \<Rightarrow> approval_db \<Rightarrow>
   (approval_error + approval_record) \<times> approval_db" where
  "deny hm st fault now approval_id db = decide hm st fault now approval_id ''denied'' None db"

definition consume_body ::
  "hmac_fn \<Rightarrow> approval_store \<Rightarrow> int \<Rightarrow> string \<Rightarrow> string \<Rightarrow> stored_approval list \<Rightarrow>
   approval_error + stored_approval \<times> stored_approval list" where
  "consume_body hm st now_us approval_id req rows =
     (case load hm st rows approval_id of Inl e \<Rightarrow> Inl e
      | Inr r \<Rightarrow>
        if sa_expires_at_us r \<le> now_us then Inl Approval_expired
        else case request_matches r req of Inl e \<Rightarrow> Inl e
        | Inr _ \<Rightarrow>
          if sa_state r = ''pending'' then Inl Approval_pending
          else if sa_state r = ''denied'' then Inl Approval_denied
          else if sa_state r = ''consumed'' then Inl Approval_consumed
          else let updated = replace_state hm st r ''consumed'' None (Some now_us) in
            (case update_row updated rows of Inl e \<Rightarrow> Inl e | Inr rows' \<Rightarrow> Inr (updated, rows')))"

definition consume ::
  "hmac_fn \<Rightarrow> approval_store \<Rightarrow> bool \<Rightarrow> datetime \<Rightarrow> string \<Rightarrow> task_envelope \<Rightarrow> approval_db \<Rightarrow>
   (approval_error + approval_record) \<times> approval_db" where
  "consume hm st fault now approval_id t db =
     with_clock now (\<lambda>now_us.
       (case transaction fault db (consume_body hm st now_us approval_id (request_hmac hm st t) (ad_rows db)) of
          (Inl e, db') \<Rightarrow> (Inl e, db')
        | (Inr r, db') \<Rightarrow> (Inr (record_from_stored r), db'))) db"

section \<open>Opening and checking the database\<close>

definition approval_columns :: "string list" where
  "approval_columns = [''approval_id'', ''request_hmac'', ''task_id'', ''capability'', ''provider'', ''model'',
     ''state'', ''created_at_us'', ''expires_at_us'', ''decided_at_us'', ''consumed_at_us'', ''row_hmac'']"

definition approval_path_safe :: "approval_db \<Rightarrow> approval_error + unit" where
  "approval_path_safe db =
     (case ad_kind db of
        Absent \<Rightarrow> Inr ()
      | Symbolic_link \<Rightarrow> Inl (Approval_unavailable ''approval database cannot be a symbolic link'')
      | Other_kind \<Rightarrow> Inl (Approval_unavailable ''approval database is not a regular file'')
      | Regular_file \<Rightarrow> Inr ())"

definition approvals_verify :: "hmac_fn \<Rightarrow> approval_store \<Rightarrow> bool \<Rightarrow> approval_db \<Rightarrow> approval_error + unit" where
  "approvals_verify hm st fault db =
     (case approval_path_safe db of Inl e \<Rightarrow> Inl e
      | Inr _ \<Rightarrow>
        if fault then Inl (Approval_unavailable ''approval database is unavailable'')
        else if \<not> ad_quick_check db then Inl (Approval_unavailable ''approval database integrity check failed'')
        else case ad_metadata db of
          None \<Rightarrow> Inl (Approval_unavailable ''approval database is unavailable'')
        | Some meta \<Rightarrow>
          if map_of meta ''schema_version'' \<noteq> Some ''1''
            then Inl (Approval_unavailable ''unsupported approval database schema'')
          else if set (case ad_columns db of None \<Rightarrow> [] | Some cols \<Rightarrow> cols) \<noteq> set approval_columns
            then Inl (Approval_unavailable ''unexpected approval database schema'')
          else if as_max_entries st < int (length (ad_rows db))
            then Inl (Approval_unavailable ''approval database exceeds configured capacity'')
          else (case verify_rows hm st (ad_rows db) of Inl e \<Rightarrow> Inl e | Inr _ \<Rightarrow> Inr ()))"

definition approvals_initialize_transaction :: "datetime \<Rightarrow> approval_db \<Rightarrow> approval_error + approval_db" where
  "approvals_initialize_transaction now db =
     (let cols = (case ad_columns db of None \<Rightarrow> approval_columns | Some c \<Rightarrow> c);
          meta = (case ad_metadata db of None \<Rightarrow> [] | Some m \<Rightarrow> m);
          version = map_of meta ''schema_version'' in
      if \<not> set [''request_hmac'', ''state'', ''expires_at_us''] \<subseteq> set cols
        then Inl (Approval_unavailable ''approval database is unavailable'')
      else if version \<noteq> None \<and> version \<noteq> Some ''1''
        then Inl (Approval_unavailable ''unsupported approval database schema'')
      else case datetime_to_microseconds now of
        Inl msg \<Rightarrow> Inl (Approval_value_error msg)
      | Inr now_us \<Rightarrow> Inr (db\<lparr>ad_kind := Regular_file, ad_columns := Some cols,
            ad_metadata := Some (if version = None then meta @ [(''schema_version'', ''1'')] else meta),
            ad_rows := delete_expired now_us (ad_rows db)\<rparr>))"

definition approvals_initialize ::
  "hmac_fn \<Rightarrow> approval_store \<Rightarrow> db_fault \<Rightarrow> bool \<Rightarrow> datetime \<Rightarrow> approval_db \<Rightarrow> (approval_error + unit) \<times> approval_db" where
  "approvals_initialize hm st fault verify_fault now db =
     (if fault = Mkdir_fault then (Inl (Approval_unavailable ''approval database directory is unavailable''), db)
      else case approval_path_safe db of Inl e \<Rightarrow> (Inl e, db)
      | Inr _ \<Rightarrow>
        if fault = Db_fault then (Inl (Approval_unavailable ''approval database is unavailable''), db)
        else case approvals_initialize_transaction now db of
          Inl e \<Rightarrow> (Inl e, db\<lparr>ad_kind := Regular_file\<rparr>)
        | Inr db' \<Rightarrow> (approvals_verify hm st verify_fault db', db'))"

definition approval_store_init ::
  "hmac_fn \<Rightarrow> db_fault \<Rightarrow> bool \<Rightarrow> datetime \<Rightarrow> string \<Rightarrow> int \<Rightarrow> int \<Rightarrow> int \<Rightarrow> approval_db \<Rightarrow>
   (approval_error + approval_store) \<times> approval_db" where
  "approval_store_init hm fault verify_fault now key max_entries ttl_seconds busy_timeout db =
     (if length (utf8 key) < 32 then
        (Inl (Approval_value_error ''approval key must contain at least 32 UTF-8 bytes''), db)
      else if max_entries < 1 then (Inl (Approval_value_error ''max_entries must be positive''), db)
      else if ttl_seconds < 30 then (Inl (Approval_value_error ''ttl_seconds must be at least 30''), db)
      else if busy_timeout \<le> 0 then (Inl (Approval_value_error ''busy_timeout_seconds must be positive''), db)
      else let st = \<lparr>as_key = utf8 key, as_max_entries = max_entries, as_ttl_seconds = ttl_seconds\<rparr> in
        (case approvals_initialize hm st fault verify_fault now db of
           (Inl e, db') \<Rightarrow> (Inl e, db') | (Inr _, db') \<Rightarrow> (Inr st, db')))"

text \<open>The operator's command checks the task file against its signature before it approves.\<close>

definition verify_approval_task :: "hmac_fn \<Rightarrow> task_envelope \<Rightarrow> string \<Rightarrow> approval_error + unit" where
  "verify_approval_task hm t secret =
     (if te_approval_id t \<noteq> None then
        Inl (Approval_value_error ''approval task file must contain the original request without approval_id'')
      else let digest = hm (utf8 secret) (canonical_payload t);
               expected = rstrip_eq (urlsafe_b64encode digest) in
        (case compare_digest expected (te_signature t) of
           None \<Rightarrow> Inl Approval_type_error
         | Some False \<Rightarrow> Inl (Approval_value_error ''invalid task signature'')
         | Some True \<Rightarrow> Inr ()))"

section \<open>Runs\<close>

datatype approval_op =
    Create task_envelope string
  | List_pending
  | Inspect string task_envelope
  | Approve string task_envelope
  | Deny_op string
  | Consume string task_envelope

text \<open>A call: whether the database fails, the clock, the operation.\<close>

type_synonym approval_call = "bool \<times> datetime \<times> approval_op"

definition one :: "('e + 'a) \<times> 's \<Rightarrow> ('e + 'a list) \<times> 's" where
  "one p = (case p of (Inl e, s) \<Rightarrow> (Inl e, s) | (Inr x, s) \<Rightarrow> (Inr [x], s))"

fun approval_step ::
  "hmac_fn \<Rightarrow> approval_store \<Rightarrow> approval_call \<Rightarrow> approval_db \<Rightarrow> (approval_error + approval_record list) \<times> approval_db" where
  "approval_step hm st (fault, now, Create t token) db = one (create hm st fault now token t db)"
| "approval_step hm st (fault, now, List_pending) db = list_pending hm st fault now db"
| "approval_step hm st (fault, now, Inspect k t) db = one (inspect hm st fault now k t db)"
| "approval_step hm st (fault, now, Approve k t) db = one (approve hm st fault now k t db)"
| "approval_step hm st (fault, now, Deny_op k) db = one (deny hm st fault now k db)"
| "approval_step hm st (fault, now, Consume k t) db = one (consume hm st fault now k t db)"

section \<open>What the operations do to the rows\<close>

lemma with_clock_ok: "with_clock now f s = (Inr x, s') \<longleftrightarrow> dt_aware now \<and> f (micros now) = (Inr x, s')"
  by (simp add: with_clock_def datetime_to_microseconds_def)

lemma with_clock_error:
  "with_clock now f s = (Inl e, s') \<Longrightarrow> s' = s \<or> f (micros now) = (Inl e, s')"
  by (auto simp: with_clock_def datetime_to_microseconds_def split: if_splits)

lemma transaction_ok:
  "transaction fault db body = (Inr x, db') \<longleftrightarrow>
     \<not> fault \<and> (\<exists>rows. body = Inr (x, rows) \<and> db' = db\<lparr>ad_rows := rows\<rparr>)"
  by (auto simp: transaction_def split: sum.splits)

lemma transaction_error: "transaction fault db body = (Inl e, db') \<Longrightarrow> db' = db"
  by (auto simp: transaction_def split: if_splits sum.splits)

lemma load_ok:
  "load hm st rows k = Inr r \<Longrightarrow> r \<in> set rows \<and> sa_approval_id r = k \<and> verify_stored hm st r = Inr ()"
  by (auto simp: load_def split: option.splits sum.splits dest: find_Some_in)

lemma request_matches_ok [simp]:
  "request_matches r req = Inr u \<longleftrightarrow> sa_request_hmac r = req \<and> is_ascii req"
  by (auto simp: request_matches_def compare_digest_def split: option.splits bool.splits)

lemma create_body_ok:
  assumes "create_body hm st token now_us expires t rows = Inr (r, rows')"
  shows "r \<in> set (delete_expired now_us rows) \<and> rows' = delete_expired now_us rows \<and>
      live_request (request_hmac hm st t) now_us r \<or>
    r = new_stored hm st token t (request_hmac hm st t) now_us expires \<and>
      rows' = delete_expired now_us rows @ [r] \<and> row_constraints r \<and>
      sa_approval_id r \<notin> set (map sa_approval_id (delete_expired now_us rows)) \<and>
      int (length (delete_expired now_us rows)) < as_max_entries st \<and>
      (\<forall>x \<in> set (delete_expired now_us rows). \<not> live_request (request_hmac hm st t) now_us x)"
proof (cases "sort_key (\<lambda>r. - sa_created_at_us r)
    (filter (live_request (request_hmac hm st t) now_us) (delete_expired now_us rows))")
  case Nil
  then have "filter (live_request (request_hmac hm st t) now_us) (delete_expired now_us rows) = []"
    by (metis length_0_conv length_sort)
  then have none: "\<forall>x \<in> set (delete_expired now_us rows). \<not> live_request (request_hmac hm st t) now_us x"
    by (simp add: filter_empty_conv)
  from assms Nil show ?thesis
    by (intro disjI2) (auto simp: create_body_def Let_def insert_row_def none split: if_splits sum.splits)
next
  case (Cons x xs)
  then have "x \<in> set (filter (live_request (request_hmac hm st t) now_us) (delete_expired now_us rows))"
    by (metis list.set_intros(1) set_sort)
  with assms Cons show ?thesis
    by (intro disjI1) (auto simp: create_body_def Let_def split: sum.splits)
qed

lemma decide_body_ok:
  assumes "decide_body hm st now_us k decision req rows = Inr (r', rows')"
  shows "\<exists>r \<in> set rows. sa_approval_id r = k \<and> verify_stored hm st r = Inr () \<and> now_us < sa_expires_at_us r \<and>
    (\<forall>h. req = Some h \<longrightarrow> sa_request_hmac r = h) \<and>
    (sa_state r = decision \<and> rows' = rows \<and> r' = r \<or>
     sa_state r = ''pending'' \<and> r' = replace_state hm st r decision (Some now_us) None \<and> row_constraints r' \<and>
       rows' = map (\<lambda>x. if sa_approval_id x = sa_approval_id r' then r' else x) rows)"
proof -
  from assms obtain r where l: "load hm st rows k = Inr r"
    by (auto simp: decide_body_def split: sum.splits)
  from load_ok [OF l] assms show ?thesis
    by (intro bexI [of _ r])
      (auto simp: decide_body_def l Let_def update_row_def split: if_splits sum.splits option.splits)
qed

lemma consume_body_ok:
  assumes "consume_body hm st now_us k req rows = Inr (r', rows')"
  shows "\<exists>r \<in> set rows. sa_approval_id r = k \<and> verify_stored hm st r = Inr () \<and> now_us < sa_expires_at_us r \<and>
    sa_request_hmac r = req \<and> sa_state r = ''approved'' \<and>
    r' = replace_state hm st r ''consumed'' None (Some now_us) \<and> row_constraints r' \<and>
    rows' = map (\<lambda>x. if sa_approval_id x = sa_approval_id r' then r' else x) rows"
proof -
  from assms obtain r where l: "load hm st rows k = Inr r"
    by (auto simp: consume_body_def split: sum.splits)
  from load_ok [OF l] have "sa_state r \<in> set approval_states"
    by (auto simp: verify_stored_def split: if_splits)
  with load_ok [OF l] assms show ?thesis
    by (intro bexI [of _ r])
      (auto simp: consume_body_def l Let_def update_row_def approval_states_def split: if_splits sum.splits)
qed

lemma replace_state_fields [simp]:
  "sa_approval_id (replace_state hm st r s d c) = sa_approval_id r"
  "sa_request_hmac (replace_state hm st r s d c) = sa_request_hmac r"
  "sa_task_id (replace_state hm st r s d c) = sa_task_id r"
  "sa_capability (replace_state hm st r s d c) = sa_capability r"
  "sa_state (replace_state hm st r s d c) = s"
  "sa_created_at_us (replace_state hm st r s d c) = sa_created_at_us r"
  "sa_expires_at_us (replace_state hm st r s d c) = sa_expires_at_us r"
  "sa_decided_at_us (replace_state hm st r s d c) = (if d = None then sa_decided_at_us r else d)"
  "sa_consumed_at_us (replace_state hm st r s d c) = (if c = None then sa_consumed_at_us r else c)"
  by (auto simp: replace_state_def Let_def split: option.splits)

lemma new_stored_fields [simp]:
  "sa_approval_id (new_stored hm st tok t h c e) = ''apr_'' @ tok"
  "sa_request_hmac (new_stored hm st tok t h c e) = h"
  "sa_task_id (new_stored hm st tok t h c e) = te_task_id t"
  "sa_capability (new_stored hm st tok t h c e) = te_capability t"
  "sa_state (new_stored hm st tok t h c e) = ''pending''"
  "sa_created_at_us (new_stored hm st tok t h c e) = c"
  "sa_expires_at_us (new_stored hm st tok t h c e) = e"
  "sa_decided_at_us (new_stored hm st tok t h c e) = None"
  "sa_consumed_at_us (new_stored hm st tok t h c e) = None"
  by (simp_all add: new_stored_def Let_def)

lemma stored_fields_row_hmac [simp]: "stored_fields (r\<lparr>sa_row_hmac := h\<rparr>) = stored_fields r"
  by (simp add: stored_fields_def)

lemma is_ascii_row_hmac [simp]: "is_ascii (row_hmac hm st f)"
  by (simp add: row_hmac_def)

lemma verify_stored_replace:
  "verify_stored hm st r = Inr () \<Longrightarrow> s \<in> set approval_states \<Longrightarrow> verify_stored hm st (replace_state hm st r s d c) = Inr ()"
proof -
  have "sa_row_hmac (replace_state hm st r s d c) = row_hmac hm st (stored_fields (replace_state hm st r s d c))"
    by (simp add: replace_state_def Let_def)
  then show "verify_stored hm st r = Inr () \<Longrightarrow> s \<in> set approval_states \<Longrightarrow> ?thesis"
    by (auto simp: verify_stored_def compare_digest_def split: if_splits)
qed

lemma verify_stored_new: "c < e \<Longrightarrow> verify_stored hm st (new_stored hm st tok t h c e) = Inr ()"
proof -
  have "sa_row_hmac (new_stored hm st tok t h c e) = row_hmac hm st (stored_fields (new_stored hm st tok t h c e))"
    by (simp add: new_stored_def Let_def stored_fields_def)
  then show "c < e \<Longrightarrow> ?thesis"
    by (simp add: verify_stored_def compare_digest_def approval_states_def)
qed

text \<open>One call either leaves a row out, keeps it, inserts a pending one, or moves one from pending to a
  decision or from approved to consumed.\<close>

inductive row_change ::
  "hmac_fn \<Rightarrow> approval_store \<Rightarrow> int \<Rightarrow> int \<Rightarrow> stored_approval list \<Rightarrow> approval_op \<Rightarrow> stored_approval \<Rightarrow> bool"
  for hm st now_us expires rows where
  inserted: "row_change hm st now_us expires rows (Create t tok)
      (new_stored hm st tok t (request_hmac hm st t) now_us expires)"
| approved: "r \<in> set rows \<Longrightarrow> sa_state r = ''pending'' \<Longrightarrow> sa_request_hmac r = request_hmac hm st t \<Longrightarrow>
      now_us < sa_expires_at_us r \<Longrightarrow> row_change hm st now_us expires rows (Approve (sa_approval_id r) t)
      (replace_state hm st r ''approved'' (Some now_us) None)"
| denied: "r \<in> set rows \<Longrightarrow> sa_state r = ''pending'' \<Longrightarrow> now_us < sa_expires_at_us r \<Longrightarrow>
      row_change hm st now_us expires rows (Deny_op (sa_approval_id r))
      (replace_state hm st r ''denied'' (Some now_us) None)"
| consumed: "r \<in> set rows \<Longrightarrow> sa_state r = ''approved'' \<Longrightarrow> sa_request_hmac r = request_hmac hm st t \<Longrightarrow>
      now_us < sa_expires_at_us r \<Longrightarrow> row_change hm st now_us expires rows (Consume (sa_approval_id r) t)
      (replace_state hm st r ''consumed'' None (Some now_us))"

text \<open>The effect of a successful call on the table, operation by operation.\<close>

inductive table_change ::
  "hmac_fn \<Rightarrow> approval_store \<Rightarrow> int \<Rightarrow> int \<Rightarrow> approval_op \<Rightarrow> stored_approval list \<Rightarrow> stored_approval list \<Rightarrow> bool"
  for hm st now_us expires op rows where
  same: "table_change hm st now_us expires op rows rows"
| purge: "table_change hm st now_us expires op rows (delete_expired now_us rows)"
| insertion: "row_change hm st now_us expires rows op r \<Longrightarrow> sa_state r = ''pending'' \<Longrightarrow>
    sa_approval_id r \<notin> set (map sa_approval_id (delete_expired now_us rows)) \<Longrightarrow>
    int (length (delete_expired now_us rows)) < as_max_entries st \<Longrightarrow>
    \<forall>x \<in> set (delete_expired now_us rows). \<not> live_request (sa_request_hmac r) now_us x \<Longrightarrow>
    table_change hm st now_us expires op rows (delete_expired now_us rows @ [r])"
| replacement: "row_change hm st now_us expires rows op r \<Longrightarrow> sa_state r \<noteq> ''pending'' \<Longrightarrow>
    table_change hm st now_us expires op rows
      (map (\<lambda>x. if sa_approval_id x = sa_approval_id r then r else x) rows)"

definition expires_us :: "approval_store \<Rightarrow> datetime \<Rightarrow> int" where
  "expires_us st now = micros (dt_plus_seconds now (as_ttl_seconds st))"

lemma one_ok: "one p = (Inr xs, s) \<longleftrightarrow> (\<exists>x. p = (Inr x, s) \<and> xs = [x])"
  by (auto simp: one_def split: prod.splits sum.splits)

lemma one_error: "one p = (Inl e, s) \<longleftrightarrow> p = (Inl e, s)"
  by (auto simp: one_def split: prod.splits sum.splits)

lemma create_ok:
  assumes "create hm st fault now token t db = (Inr x, db')"
  shows "dt_aware now \<and> (\<exists>r rows. create_body hm st token (micros now) (expires_us st now) t (ad_rows db) = Inr (r, rows) \<and>
    x = record_from_stored r \<and> db' = db\<lparr>ad_rows := rows\<rparr>)"
  using assms unfolding create_def with_clock_ok expires_us_def
  by (auto simp: transaction_ok split: prod.splits sum.splits)

lemma decide_ok:
  assumes "decide hm st fault now k decision t db = (Inr x, db')"
  shows "dt_aware now \<and> (\<exists>r rows. decide_body hm st (micros now) k decision (map_option (request_hmac hm st) t) (ad_rows db)
      = Inr (r, rows) \<and> x = record_from_stored r \<and> db' = db\<lparr>ad_rows := rows\<rparr>)"
  using assms unfolding decide_def with_clock_ok
  by (auto simp: transaction_ok split: prod.splits sum.splits)

lemma consume_ok:
  assumes "consume hm st fault now k t db = (Inr x, db')"
  shows "dt_aware now \<and> (\<exists>r rows. consume_body hm st (micros now) k (request_hmac hm st t) (ad_rows db) = Inr (r, rows) \<and>
    x = record_from_stored r \<and> db' = db\<lparr>ad_rows := rows\<rparr>)"
  using assms unfolding consume_def with_clock_ok
  by (auto simp: transaction_ok split: prod.splits sum.splits)

lemma approval_step_error:
  "approval_step hm st (fault, now, op) db = (Inl e, db') \<Longrightarrow> db' = db"
  by (cases op)
    (auto simp: one_error create_def list_pending_def inspect_def approve_def deny_def decide_def consume_def
      split: prod.splits sum.splits if_splits dest!: with_clock_error dest: transaction_error)

lemma decide_table_change:
  assumes "decide_body hm st now_us k d req rows = Inr (r', rows')"
    and "d = ''approved'' \<and> (\<exists>t. op = Approve k t \<and> req = Some (request_hmac hm st t)) \<or> d = ''denied'' \<and> op = Deny_op k"
  shows "table_change hm st now_us expires op rows rows'"
proof -
  from decide_body_ok [OF assms(1)] obtain r where r: "r \<in> set rows" "sa_approval_id r = k"
    "now_us < sa_expires_at_us r" "\<forall>h. req = Some h \<longrightarrow> sa_request_hmac r = h"
    and ch: "rows' = rows \<or> sa_state r = ''pending'' \<and> r' = replace_state hm st r d (Some now_us) None \<and>
       rows' = map (\<lambda>x. if sa_approval_id x = sa_approval_id r' then r' else x) rows"
    by blast
  from ch show ?thesis
  proof
    assume ch: "sa_state r = ''pending'' \<and> r' = replace_state hm st r d (Some now_us) None \<and>
       rows' = map (\<lambda>x. if sa_approval_id x = sa_approval_id r' then r' else x) rows"
    then have "row_change hm st now_us expires rows op r'"
      using assms(2) r row_change.approved [of r rows] row_change.denied [of r rows] by blast
    moreover have "sa_state r' \<noteq> ''pending''" using assms(2) ch by auto
    ultimately show ?thesis using table_change.replacement ch by blast
  qed (simp add: table_change.same)
qed

lemma approval_step_ok:
  assumes "approval_step hm st (fault, now, op) db = (Inr xs, db')"
  shows "dt_aware now \<and> table_change hm st (micros now) (expires_us st now) op (ad_rows db) (ad_rows db')"
proof (cases op)
  case (Create t tok)
  from assms [unfolded Create approval_step.simps one_ok] create_ok obtain r rows where
    c: "dt_aware now" "create_body hm st tok (micros now) (expires_us st now) t (ad_rows db) = Inr (r, rows)"
      "db' = db\<lparr>ad_rows := rows\<rparr>" by metis
  from create_body_ok [OF c(2)] show ?thesis
    using c(1,3) row_change.inserted [of hm st "micros now" "expires_us st now" "ad_rows db" t tok]
    by (auto simp: Create intro: table_change.purge table_change.insertion)
next
  case List_pending
  with assms show ?thesis
    by (auto simp: list_pending_def with_clock_ok transaction_ok Let_def
        intro: table_change.purge split: sum.splits)
next
  case (Inspect k t)
  with assms show ?thesis
    by (auto simp: inspect_def one_ok with_clock_ok intro: table_change.same split: if_splits sum.splits)
next
  case (Approve k t)
  then obtain r rows where "dt_aware now" "db' = db\<lparr>ad_rows := rows\<rparr>"
    "decide_body hm st (micros now) k ''approved'' (Some (request_hmac hm st t)) (ad_rows db) = Inr (r, rows)"
    using assms decide_ok by (fastforce simp: one_ok approve_def)
  then show ?thesis using decide_table_change Approve by fastforce
next
  case (Deny_op k)
  then obtain r rows where "dt_aware now" "db' = db\<lparr>ad_rows := rows\<rparr>"
    "decide_body hm st (micros now) k ''denied'' None (ad_rows db) = Inr (r, rows)"
    using assms decide_ok by (fastforce simp: one_ok deny_def)
  then show ?thesis using decide_table_change Deny_op by fastforce
next
  case (Consume k t)
  with assms [unfolded Consume approval_step.simps one_ok] consume_ok obtain r' rows where
    c: "dt_aware now" "consume_body hm st (micros now) k (request_hmac hm st t) (ad_rows db) = Inr (r', rows)"
      "db' = db\<lparr>ad_rows := rows\<rparr>" by metis
  from consume_body_ok [OF c(2)] obtain r where r: "r \<in> set (ad_rows db)" "sa_approval_id r = k"
    "micros now < sa_expires_at_us r" "sa_request_hmac r = request_hmac hm st t" "sa_state r = ''approved''"
    "r' = replace_state hm st r ''consumed'' None (Some (micros now))"
    "rows = map (\<lambda>x. if sa_approval_id x = sa_approval_id r' then r' else x) (ad_rows db)"
    by blast
  then have "row_change hm st (micros now) (expires_us st now) (ad_rows db) (Consume k t) r'"
    using row_change.consumed [of r "ad_rows db"] by blast
  then show ?thesis
    using table_change.replacement [of hm st "micros now" "expires_us st now" "ad_rows db" "Consume k t" r'] c r Consume
    by simp
qed

inductive_cases row_changeE: "row_change hm st now_us expires rows op r"
inductive_cases table_changeE: "table_change hm st now_us expires op rows rows'"

lemma delete_expired_set: "set (delete_expired now_us rows) = {r \<in> set rows. now_us < sa_expires_at_us r}"
  by (auto simp: delete_expired_def)

lemma table_change_row:
  "table_change hm st now_us expires op rows rows' \<Longrightarrow> r' \<in> set rows' \<Longrightarrow>
     r' \<in> set rows \<or> row_change hm st now_us expires rows op r'"
  by (erule table_changeE) (auto simp: delete_expired_set)

section \<open>The invariant of the table\<close>

definition open_row :: "stored_approval \<Rightarrow> bool" where
  "open_row r \<longleftrightarrow> sa_state r \<in> {''pending'', ''approved''}"

text \<open>Which time stamps a row carries in which state.\<close>

definition stamps_ok :: "stored_approval \<Rightarrow> bool" where
  "stamps_ok r \<longleftrightarrow>
     (sa_decided_at_us r = None \<longleftrightarrow> sa_state r = ''pending'') \<and> (sa_consumed_at_us r = None \<longleftrightarrow> sa_state r \<noteq> ''consumed'')"

definition approvals_wf :: "hmac_fn \<Rightarrow> approval_store \<Rightarrow> approval_db \<Rightarrow> bool" where
  "approvals_wf hm st db \<longleftrightarrow>
     distinct (map sa_approval_id (ad_rows db)) \<and> int (length (ad_rows db)) \<le> as_max_entries st \<and>
     (\<forall>r \<in> set (ad_rows db). verify_stored hm st r = Inr () \<and> stamps_ok r) \<and>
     (\<forall>r \<in> set (ad_rows db). \<forall>q \<in> set (ad_rows db).
        open_row r \<and> open_row q \<and> sa_request_hmac r = sa_request_hmac q \<longrightarrow> r = q)"

lemma distinct_map_eqD: "distinct (map f xs) \<Longrightarrow> x \<in> set xs \<Longrightarrow> y \<in> set xs \<Longrightarrow> f x = f y \<Longrightarrow> x = y"
  by (auto simp: distinct_map inj_on_def)

lemma map_replace_ids: "map sa_approval_id (map (\<lambda>x. if sa_approval_id x = sa_approval_id r then r else x) rows) = map sa_approval_id rows"
  by (induction rows) auto

lemma approvals_wf_purge:
  "approvals_wf hm st db \<Longrightarrow> approvals_wf hm st (db\<lparr>ad_rows := delete_expired now_us (ad_rows db)\<rparr>)"
proof -
  have "length (delete_expired now_us rows) \<le> length rows" for rows by (simp add: delete_expired_def)
  then have "int (length (delete_expired now_us rows)) \<le> int (length rows)" for rows by simp
  from this [of "ad_rows db"] show "approvals_wf hm st db \<Longrightarrow> ?thesis"
    by (auto simp: approvals_wf_def delete_expired_set) (simp add: delete_expired_def distinct_map_filter)
qed

lemma approvals_wf_insert:
  assumes "approvals_wf hm st db" "now_us < expires"
    and "row_change hm st now_us expires (ad_rows db) op r" "sa_state r = ''pending''"
    and "sa_approval_id r \<notin> set (map sa_approval_id (delete_expired now_us (ad_rows db)))"
    and "int (length (delete_expired now_us (ad_rows db))) < as_max_entries st"
    and "\<forall>x \<in> set (delete_expired now_us (ad_rows db)). \<not> live_request (sa_request_hmac r) now_us x"
  shows "approvals_wf hm st (db\<lparr>ad_rows := delete_expired now_us (ad_rows db) @ [r]\<rparr>)"
proof -
  have r: "verify_stored hm st r = Inr () \<and> stamps_ok r"
    by (rule row_changeE [OF assms(3)])
      (use assms(4) in \<open>simp_all add: verify_stored_new [OF assms(2)] stamps_ok_def\<close>)
  have "\<forall>x \<in> set (delete_expired now_us (ad_rows db)). open_row x \<longrightarrow> sa_request_hmac r \<noteq> sa_request_hmac x"
    using assms(7) by (auto simp: live_request_def open_row_def delete_expired_set)
  with approvals_wf_purge [OF assms(1), of now_us] r assms(5,6) show ?thesis
    unfolding approvals_wf_def by auto
qed

lemma approvals_wf_replace:
  assumes "approvals_wf hm st db"
    and "row_change hm st now_us expires (ad_rows db) op r'" "sa_state r' \<noteq> ''pending''"
  shows "approvals_wf hm st (db\<lparr>ad_rows := map (\<lambda>x. if sa_approval_id x = sa_approval_id r' then r' else x) (ad_rows db)\<rparr>)"
proof -
  obtain r where r: "r \<in> set (ad_rows db)" "sa_approval_id r = sa_approval_id r'"
    "sa_request_hmac r = sa_request_hmac r'" "open_row r" and r': "verify_stored hm st r' = Inr () \<and> stamps_ok r'"
  proof (rule row_changeE [OF assms(2)])
  qed (use assms(1,3) in \<open>auto simp: approvals_wf_def open_row_def stamps_ok_def verify_stored_replace approval_states_def\<close>)
  have eq: "x = r" if "x \<in> set (ad_rows db)" "sa_approval_id x = sa_approval_id r'" for x
    using assms(1) r that distinct_map_eqD [of sa_approval_id "ad_rows db" x r] by (simp add: approvals_wf_def)
  have op: "x = r" if "x \<in> set (ad_rows db)" "open_row x" "sa_request_hmac x = sa_request_hmac r'" for x
    using assms(1) r that unfolding approvals_wf_def by metis
  have rows: "x = r' \<or> x \<in> set (ad_rows db) \<and> x \<noteq> r"
    if "x \<in> set (map (\<lambda>x. if sa_approval_id x = sa_approval_id r' then r' else x) (ad_rows db))" for x
    using that r(2) by auto
  show ?thesis
    unfolding approvals_wf_def
  proof (intro conjI ballI impI)
    show "distinct (map sa_approval_id (ad_rows (db\<lparr>ad_rows :=
      map (\<lambda>x. if sa_approval_id x = sa_approval_id r' then r' else x) (ad_rows db)\<rparr>)))"
      using assms(1) map_replace_ids [of r' "ad_rows db"] by (simp add: approvals_wf_def del: map_map)
  next
    fix x y
    assume "x \<in> set (ad_rows (db\<lparr>ad_rows := map (\<lambda>x. if sa_approval_id x = sa_approval_id r' then r' else x) (ad_rows db)\<rparr>))"
      "y \<in> set (ad_rows (db\<lparr>ad_rows := map (\<lambda>x. if sa_approval_id x = sa_approval_id r' then r' else x) (ad_rows db)\<rparr>))"
      and xy: "open_row x \<and> open_row y \<and> sa_request_hmac x = sa_request_hmac y"
    then have "x = r' \<or> x \<in> set (ad_rows db) \<and> x \<noteq> r" "y = r' \<or> y \<in> set (ad_rows db) \<and> y \<noteq> r"
      using rows by simp_all
    then show "x = y" using xy op assms(1) unfolding approvals_wf_def by metis
  qed (use assms(1) r' in \<open>auto simp: approvals_wf_def\<close>)
qed

lemma approvals_wf_table_change:
  assumes "approvals_wf hm st db" "now_us < expires"
    and "table_change hm st now_us expires op (ad_rows db) rows'"
  shows "approvals_wf hm st (db\<lparr>ad_rows := rows'\<rparr>)"
  using assms(3)
proof (cases rule: table_change.cases)
  case same
  then show ?thesis using assms(1) by simp
next
  case purge
  then show ?thesis using approvals_wf_purge [OF assms(1)] by simp
next
  case (insertion r)
  then show ?thesis using approvals_wf_insert [OF assms(1,2) insertion(2-6)] by simp
next
  case (replacement r)
  then show ?thesis using approvals_wf_replace [OF assms(1) replacement(2,3)] by simp
qed

text \<open>The clock readings for which the stored expiry is known to lie after the stored creation time.\<close>

definition clock_in_range :: "approval_store \<Rightarrow> datetime \<Rightarrow> bool" where
  "clock_in_range st now \<longleftrightarrow>
     0 \<le> dt_instant now \<and> dt_instant now + as_ttl_seconds st * 1000000 < 2 ^ 52 \<and> 30 \<le> as_ttl_seconds st"

lemma expires_after_now: "clock_in_range st now \<Longrightarrow> micros now < expires_us st now"
proof -
  assume c: "clock_in_range st now"
  let ?e = "dt_plus_seconds now (as_ttl_seconds st)"
  have i: "dt_instant ?e = dt_instant now + as_ttl_seconds st * 1000000" by (simp add: dt_plus_seconds_def)
  have "dt_instant now < 2 ^ 52" using c unfolding clock_in_range_def by linarith
  then have "micros now \<le> dt_instant now" using micros_bounds(1) c by (simp add: clock_in_range_def)
  moreover have "dt_instant ?e \<le> micros ?e + 1"
    by (rule micros_bounds(2)) (use c i in \<open>simp_all add: clock_in_range_def\<close>)
  ultimately show ?thesis using c i unfolding clock_in_range_def expires_us_def by linarith
qed

lemma approvals_wf_step:
  assumes "approvals_wf hm st db" "clock_in_range st now" "approval_step hm st (fault, now, op) db = (r, db')"
  shows "approvals_wf hm st db'"
proof (cases r)
  case (Inl e)
  then show ?thesis using assms approval_step_error by blast
next
  case (Inr xs)
  note ok = approval_step_ok [OF assms(3) [unfolded Inr]]
  have "approvals_wf hm st (db\<lparr>ad_rows := ad_rows db'\<rparr>)"
    by (rule approvals_wf_table_change [OF assms(1) expires_after_now [OF assms(2)]]) (use ok in blast)
  then show ?thesis by (simp add: approvals_wf_def)
qed

section \<open>An approval is used once\<close>

definition call_op :: "approval_call \<Rightarrow> approval_op" where
  "call_op c = snd (snd c)"

definition used_by :: "approval_call \<Rightarrow> approval_error + approval_record list \<Rightarrow> string \<Rightarrow> bool" where
  "used_by c r k \<longleftrightarrow> is_ok r \<and> (\<exists>t. call_op c = Consume k t)"

definition issued_by :: "approval_call \<Rightarrow> string \<Rightarrow> bool" where
  "issued_by c k \<longleftrightarrow> (\<exists>t token. call_op c = Create t token \<and> k = ''apr_'' @ token)"

definition spent :: "approval_db \<Rightarrow> string \<Rightarrow> bool" where
  "spent db k \<longleftrightarrow> (\<forall>r \<in> set (ad_rows db). sa_approval_id r = k \<longrightarrow> sa_state r = ''consumed'')"

lemma consume_step_ok:
  assumes "approval_step hm st (fault, now, Consume k t) db = (Inr xs, db')"
  shows "dt_aware now \<and> (\<exists>r \<in> set (ad_rows db). sa_approval_id r = k \<and> verify_stored hm st r = Inr () \<and>
    micros now < sa_expires_at_us r \<and> sa_request_hmac r = request_hmac hm st t \<and> sa_state r = ''approved'' \<and>
    ad_rows db' = map (\<lambda>x. if sa_approval_id x = k
      then replace_state hm st r ''consumed'' None (Some (micros now)) else x) (ad_rows db))"
proof -
  from assms consume_ok obtain r' rows where
    c: "dt_aware now" "consume_body hm st (micros now) k (request_hmac hm st t) (ad_rows db) = Inr (r', rows)"
      "db' = db\<lparr>ad_rows := rows\<rparr>" unfolding approval_step.simps one_ok by metis
  from consume_body_ok [OF c(2)] c show ?thesis by (auto intro!: bexI)
qed

interpretation approvals: single_use "approval_step hm st" used_by issued_by spent "\<lambda>_. True" for hm st
proof
  fix db db' :: approval_db and c :: approval_call and r :: "approval_error + approval_record list" and k :: string
  obtain fault now op where c: "c = (fault, now, op)" by (cases c)
  assume s: "approval_step hm st c db = (r, db')"
  have use: "\<exists>q \<in> set (ad_rows db). sa_approval_id q = k \<and> sa_state q = ''approved'' \<and>
      ad_rows db' = map (\<lambda>x. if sa_approval_id x = k
        then replace_state hm st q ''consumed'' None (Some (micros now)) else x) (ad_rows db)" if "used_by c r k"
  proof -
    from that c obtain t xs where "op = Consume k t" "r = Inr xs"
      by (auto simp: used_by_def call_op_def is_ok_iff)
    with s c consume_step_ok show ?thesis by blast
  qed
  show "\<not> spent db k" if "used_by c r k"
    using use [OF that] by (auto simp: spent_def)
  show "spent db' k" if "used_by c r k"
    using use [OF that] by (auto simp: spent_def)
  show "spent db' k" if sp: "spent db k" "\<not> issued_by c k"
  proof (cases r)
    case (Inl e)
    then show ?thesis using approval_step_error s c sp(1) by blast
  next
    case (Inr xs)
    note tc = conjunct2 [OF approval_step_ok [OF s [unfolded c Inr]]]
    show ?thesis unfolding spent_def
    proof (intro ballI impI)
      fix x
      assume x: "x \<in> set (ad_rows db')" "sa_approval_id x = k"
      from table_change_row [OF tc x(1)] show "sa_state x = ''consumed''"
      proof
        assume "row_change hm st (micros now) (expires_us st now) (ad_rows db) op x"
        then show ?thesis
          by (rule row_changeE) (use sp x(2) c in \<open>auto simp: spent_def issued_by_def call_op_def\<close>)
      qed (use sp x in \<open>simp add: spent_def\<close>)
    qed
  qed
qed simp

section \<open>Where an approval comes from\<close>

text \<open>The part of a task that an approval is for.\<close>

definition same_request :: "task_envelope \<Rightarrow> task_envelope \<Rightarrow> bool" where
  "same_request t u \<longleftrightarrow> te_version t = te_version u \<and> te_task_id t = te_task_id u \<and> te_agent t = te_agent u \<and>
     te_capability t = te_capability u \<and> norm (json_mode (JObj (te_arguments t))) = norm (json_mode (JObj (te_arguments u)))"

lemma request_fields_lookup:
  "map_of (request_fields t) ''version'' = Some (JStr (te_version t))"
  "map_of (request_fields t) ''task_id'' = Some (JStr (te_task_id t))"
  "map_of (request_fields t) ''agent'' = Some (agent_json (te_agent t))"
  "map_of (request_fields t) ''capability'' = Some (JStr (te_capability t))"
  "map_of (request_fields t) ''arguments'' = Some (json_mode (JObj (te_arguments t)))"
  by (simp_all add: request_fields_def)

lemma json_wf_request: "json_wf (JObj (te_arguments t)) \<Longrightarrow> json_wf (JObj (request_fields t))"
  using json_mode_wf [of "JObj (te_arguments t)"] by (simp add: request_fields_def)

lemma canonical_bytes_lookup:
  assumes "json_wf (JObj a)" "json_wf (JObj b)" "canonical_bytes a = canonical_bytes b"
  shows "map_option norm (map_of a k) = map_option norm (map_of b k)"
  using assms by (intro dumps_JObj_lookup [where ascii = False])
    (simp_all add: canonical_bytes_def del: dumps.simps json_wf.simps)

lemma request_payload_fields:
  assumes "json_wf (JObj (te_arguments t))" "json_wf (JObj (te_arguments u))"
    and "approval_request_payload t = approval_request_payload u"
  shows "same_request t u"
proof -
  note e = canonical_bytes_lookup [OF json_wf_request [OF assms(1)] json_wf_request [OF assms(2)]
      assms(3) [unfolded approval_request_payload_def]]
  show ?thesis
    using e [of "''version''"] e [of "''task_id''"] e [of "''agent''"] e [of "''capability''"] e [of "''arguments''"]
    unfolding same_request_def request_fields_lookup by (simp add: norm_agent_json_inj del: norm.simps) simp
qed

lemma request_hmac_fields:
  assumes "json_wf (JObj (te_arguments t))" "json_wf (JObj (te_arguments u))" "request_hmac hm st t = request_hmac hm st u"
  shows "same_request t u \<or> mac_clash hm (as_key st) (framed ''approval-request-v1'' (approval_request_payload t))
      (framed ''approval-request-v1'' (approval_request_payload u))"
  using keyed_digest_same_domain [OF assms(3) [unfolded request_hmac_def]] request_payload_fields [OF assms(1,2)] by blast

lemma opt_int_inj [simp]: "opt_int a = opt_int b \<longleftrightarrow> a = b"
  by (auto simp: opt_int_def split: option.splits)

lemma opt_int_norm [simp]: "norm (opt_int a) = opt_int a" "json_wf (opt_int a)"
  by (simp_all add: opt_int_def split: option.splits)

lemma stored_fields_inj:
  assumes "canonical_bytes (stored_fields r) = canonical_bytes (stored_fields q)" "sa_row_hmac r = sa_row_hmac q"
  shows "r = q"
proof -
  have wf: "json_wf (JObj (stored_fields x))" for x by (simp add: stored_fields_def)
  have look: "map_of (stored_fields x) ''approval_id'' = Some (JStr (sa_approval_id x))"
    "map_of (stored_fields x) ''request_hmac'' = Some (JStr (sa_request_hmac x))"
    "map_of (stored_fields x) ''task_id'' = Some (JStr (sa_task_id x))"
    "map_of (stored_fields x) ''capability'' = Some (JStr (sa_capability x))"
    "map_of (stored_fields x) ''provider'' = Some (JStr (sa_provider x))"
    "map_of (stored_fields x) ''model'' = Some (opt_str (sa_model x))"
    "map_of (stored_fields x) ''state'' = Some (JStr (sa_state x))"
    "map_of (stored_fields x) ''created_at_us'' = Some (JInt (sa_created_at_us x))"
    "map_of (stored_fields x) ''expires_at_us'' = Some (JInt (sa_expires_at_us x))"
    "map_of (stored_fields x) ''decided_at_us'' = Some (opt_int (sa_decided_at_us x))"
    "map_of (stored_fields x) ''consumed_at_us'' = Some (opt_int (sa_consumed_at_us x))" for x
    by (simp_all add: stored_fields_def)
  note e = canonical_bytes_lookup [OF wf wf assms(1)]
  show ?thesis
    using e [of "''approval_id''"] e [of "''request_hmac''"] e [of "''task_id''"] e [of "''capability''"]
      e [of "''provider''"] e [of "''model''"] e [of "''state''"] e [of "''created_at_us''"]
      e [of "''expires_at_us''"] e [of "''decided_at_us''"] e [of "''consumed_at_us''"] assms(2)
    unfolding look by simp
qed

lemma verify_stored_hmac: "verify_stored hm st r = Inr () \<Longrightarrow> sa_row_hmac r = row_hmac hm st (stored_fields r)"
  by (auto simp: verify_stored_def compare_digest_def split: if_splits option.splits bool.splits)

definition holds_row :: "string \<Rightarrow> string \<Rightarrow> (string \<Rightarrow> bool) \<Rightarrow> approval_db \<Rightarrow> bool" where
  "holds_row k h P db \<longleftrightarrow> (\<exists>r \<in> set (ad_rows db). sa_approval_id r = k \<and> sa_request_hmac r = h \<and> P (sa_state r))"

lemma step_row_origin:
  assumes "approval_step hm st c db = (r, db')" "\<not> holds_row k h P db" "holds_row k h P db'"
  shows "is_ok r \<and> (\<exists>now_us expires x. row_change hm st now_us expires (ad_rows db) (call_op c) x \<and>
    sa_approval_id x = k \<and> sa_request_hmac x = h \<and> P (sa_state x))"
proof -
  obtain fault now op where c: "c = (fault, now, op)" by (cases c)
  show ?thesis
  proof (cases r)
    case (Inl e)
    then have "db' = db" using approval_step_error assms(1) c by blast
    then show ?thesis using assms(2,3) by simp
  next
    case (Inr xs)
    note tc = conjunct2 [OF approval_step_ok [OF assms(1) [unfolded c Inr]]]
    from assms(3) obtain x where x: "x \<in> set (ad_rows db')" "sa_approval_id x = k" "sa_request_hmac x = h" "P (sa_state x)"
      by (auto simp: holds_row_def)
    with assms(2) have "x \<notin> set (ad_rows db)" by (auto simp: holds_row_def)
    with table_change_row [OF tc x(1)] x Inr c show ?thesis by (auto simp: call_op_def)
  qed
qed

lemma approved_row_origin:
  assumes "approval_step hm st c db = (r, db')"
    and "\<not> holds_row k h (\<lambda>s. s = ''approved'') db" "holds_row k h (\<lambda>s. s = ''approved'') db'"
  shows "is_ok r \<and> holds_row k h (\<lambda>_. True) db \<and> (\<exists>u. call_op c = Approve k u \<and> request_hmac hm st u = h)"
proof -
  from step_row_origin [OF assms] obtain now_us expires x where ok: "is_ok r"
    and x: "row_change hm st now_us expires (ad_rows db) (call_op c) x"
      "sa_approval_id x = k" "sa_request_hmac x = h" "sa_state x = ''approved''" by auto
  show ?thesis by (rule row_changeE [OF x(1)]) (use ok x in \<open>auto simp: holds_row_def\<close>)
qed

lemma any_row_origin:
  assumes "approval_step hm st c db = (r, db')" "\<not> holds_row k h (\<lambda>_. True) db" "holds_row k h (\<lambda>_. True) db'"
  shows "is_ok r \<and> (\<exists>v token. call_op c = Create v token \<and> k = ''apr_'' @ token \<and> request_hmac hm st v = h)"
proof -
  from step_row_origin [OF assms] obtain now_us expires x where ok: "is_ok r"
    and x: "row_change hm st now_us expires (ad_rows db) (call_op c) x"
      "sa_approval_id x = k" "sa_request_hmac x = h" by auto
  show ?thesis by (rule row_changeE [OF x(1)]) (use ok x assms(2) in \<open>auto simp: holds_row_def\<close>)
qed

section \<open>The intended flow\<close>

lemma load_succeeds:
  "distinct (map sa_approval_id rows) \<Longrightarrow> r \<in> set rows \<Longrightarrow> verify_stored hm st r = Inr () \<Longrightarrow>
     load hm st rows (sa_approval_id r) = Inr r"
  by (simp add: load_def find_by_id)

lemma length_keyed_digest: "(\<And>k m. length (hm k m) = 32) \<Longrightarrow> length (keyed_digest hm key d p) = 64"
  by (simp add: keyed_digest_def)

lemma row_hmac_new: "sa_row_hmac (new_stored hm st tok t h c e) = row_hmac hm st (stored_fields (new_stored hm st tok t h c e))"
  by (simp add: new_stored_def Let_def stored_fields_def)

lemma row_hmac_replace: "sa_row_hmac (replace_state hm st r s d c) = row_hmac hm st (stored_fields (replace_state hm st r s d c))"
  by (simp add: replace_state_def Let_def)

lemma create_succeeds:
  fixes hm st t now token db
  defines "r \<equiv> new_stored hm st token t (request_hmac hm st t) (micros now) (expires_us st now)"
    and "rows \<equiv> delete_expired (micros now) (ad_rows db)"
  assumes "\<And>k m. length (hm k m) = 32" "dt_aware now"
    and "int (length rows) < as_max_entries st" "''apr_'' @ token \<notin> set (map sa_approval_id rows)"
    and "\<forall>x \<in> set rows. \<not> live_request (request_hmac hm st t) (micros now) x"
  shows "create hm st False now token t db = (Inr (record_from_stored r), db\<lparr>ad_rows := rows @ [r]\<rparr>)"
proof -
  have "filter (live_request (request_hmac hm st t) (micros now)) rows = []"
    using assms(7) by (simp add: filter_empty_conv)
  moreover have "row_constraints r"
    by (simp add: r_def row_constraints_def row_hmac_new request_hmac_def row_hmac_def length_keyed_digest assms(3) approval_states_def)
  ultimately have "create_body hm st token (micros now) (expires_us st now) t (ad_rows db) = Inr (r, rows @ [r])"
    using assms(5,6) by (simp add: create_body_def insert_row_def Let_def flip: rows_def r_def) (simp add: r_def)
  then show ?thesis
    using assms(4) by (simp add: create_def with_clock_def datetime_to_microseconds_def dt_plus_seconds_def expires_us_def transaction_def)
qed

lemma decide_succeeds:
  fixes hm st now r d
  defines "r' \<equiv> replace_state hm st r d (Some (micros now)) None"
  assumes "\<And>k m. length (hm k m) = 32" "dt_aware now"
    and "distinct (map sa_approval_id (ad_rows db))" "r \<in> set (ad_rows db)" "verify_stored hm st r = Inr ()"
    and "sa_state r = ''pending''" "d \<in> {''approved'', ''denied''}" "micros now < sa_expires_at_us r"
    and "length (sa_request_hmac r) = 64" "\<And>u. t = Some u \<Longrightarrow> sa_request_hmac r = request_hmac hm st u"
  shows "decide hm st False now (sa_approval_id r) d t db = (Inr (record_from_stored r'),
    db\<lparr>ad_rows := map (\<lambda>x. if sa_approval_id x = sa_approval_id r then r' else x) (ad_rows db)\<rparr>)"
proof -
  have id: "sa_approval_id r' = sa_approval_id r" by (simp add: r'_def)
  have c: "row_constraints r'"
    using assms(8,10) by (auto simp: r'_def row_constraints_def row_hmac_replace row_hmac_def length_keyed_digest assms(2) approval_states_def)
  have m: "(case map_option (request_hmac hm st) t of None \<Rightarrow> Inr () | Some h \<Rightarrow> request_matches r h) = Inr ()"
    using assms(11) by (cases t) (simp_all, simp add: request_hmac_def)
  have "decide_body hm st (micros now) (sa_approval_id r) d (map_option (request_hmac hm st) t) (ad_rows db) =
      Inr (r', map (\<lambda>x. if sa_approval_id x = sa_approval_id r then r' else x) (ad_rows db))"
    unfolding decide_body_def load_succeeds [OF assms(4-6)] sum.case m update_row_def
    using assms(7-9) c id by (auto simp: Let_def simp flip: r'_def)
  then show ?thesis
    using assms(3) by (simp add: decide_def with_clock_def datetime_to_microseconds_def transaction_def)
qed

lemma consume_succeeds:
  fixes hm st now r
  defines "r' \<equiv> replace_state hm st r ''consumed'' None (Some (micros now))"
  assumes "\<And>k m. length (hm k m) = 32" "dt_aware now"
    and "distinct (map sa_approval_id (ad_rows db))" "r \<in> set (ad_rows db)" "verify_stored hm st r = Inr ()"
    and "sa_state r = ''approved''" "micros now < sa_expires_at_us r" "sa_request_hmac r = request_hmac hm st t"
  shows "consume hm st False now (sa_approval_id r) t db = (Inr (record_from_stored r'),
    db\<lparr>ad_rows := map (\<lambda>x. if sa_approval_id x = sa_approval_id r then r' else x) (ad_rows db)\<rparr>)"
proof -
  have id: "sa_approval_id r' = sa_approval_id r" by (simp add: r'_def)
  have c: "row_constraints r'"
    by (simp add: r'_def row_constraints_def row_hmac_replace row_hmac_def assms(9) request_hmac_def length_keyed_digest assms(2) approval_states_def)
  have m: "request_matches r (request_hmac hm st t) = Inr ()"
    using assms(9) by (simp add: request_hmac_def)
  have "consume_body hm st (micros now) (sa_approval_id r) (request_hmac hm st t) (ad_rows db) =
      Inr (r', map (\<lambda>x. if sa_approval_id x = sa_approval_id r then r' else x) (ad_rows db))"
    unfolding consume_body_def load_succeeds [OF assms(4-6)] sum.case m update_row_def
    using assms(7,8) c id by (simp add: Let_def flip: r'_def)
  then show ?thesis
    using assms(3) by (simp add: consume_def with_clock_def datetime_to_microseconds_def transaction_def)
qed

lemma verify_stored_consts: "verify_stored hm st r = Inr () \<Longrightarrow> sa_state r \<in> set approval_states"
  by (auto simp: verify_stored_def split: if_splits)

section \<open>Properties\<close>

text \<open>Over any sequence of store operations, whatever faults occur and however the clock moves, two
  successful consumptions of the same approval id are separated by a creation that drew the same random
  token again: an approval authorises one execution.\<close>

theorem approval_consumed_once:
  assumes "i < j" "j < length cs"
    and "call_op (cs ! i) = Consume k t" "is_ok (result_at (approval_step hm st) cs db i)"
    and "call_op (cs ! j) = Consume k u" "is_ok (result_at (approval_step hm st) cs db j)"
  shows "\<exists>m v token. i < m \<and> m < j \<and> call_op (cs ! m) = Create v token \<and> k = ''apr_'' @ token"
  using approvals.used_once [where s = db and cs = cs and hm = hm and st = st and i = i and j = j and k = k] assms by (auto simp: used_by_def issued_by_def)

text \<open>In every run that starts with an empty table, an approval that a task consumes was created by an
  earlier submission and approved by an operator after that, and both were for a request with the
  digest of the consuming task's request.\<close>

theorem consumed_approval_was_approved:
  assumes "ad_rows db = []" "j < length cs"
    and "call_op (cs ! j) = Consume k t" "is_ok (result_at (approval_step hm st) cs db j)"
  shows "\<exists>m i u v token. m < i \<and> i < j \<and>
    call_op (cs ! m) = Create v token \<and> k = ''apr_'' @ token \<and> is_ok (result_at (approval_step hm st) cs db m) \<and>
    call_op (cs ! i) = Approve k u \<and> is_ok (result_at (approval_step hm st) cs db i) \<and>
    request_hmac hm st v = request_hmac hm st t \<and> request_hmac hm st u = request_hmac hm st t"
proof -
  let ?h = "request_hmac hm st t" and ?at = "state_at (approval_step hm st) cs db"
  note step = step_at [where step = "approval_step hm st" and cs = cs and s = db]
  obtain xs where "approval_step hm st (cs ! j) (?at j) = (Inr xs, ?at (Suc j))"
    using step [of j] assms by (auto simp: is_ok_iff)
  then have "holds_row k ?h (\<lambda>s. s = ''approved'') (?at j)"
    using consume_step_ok [of hm st "fst (cs ! j)" "fst (snd (cs ! j))" k t] assms(3)
    by (cases "cs ! j") (fastforce simp: call_op_def holds_row_def)
  moreover have none: "\<not> holds_row k ?h P db" for P using assms(1) by (simp add: holds_row_def)
  ultimately obtain i where i: "i < j" "\<not> holds_row k ?h (\<lambda>s. s = ''approved'') (?at i)"
    "holds_row k ?h (\<lambda>s. s = ''approved'') (?at (Suc i))"
    using run_established [of "holds_row k ?h (\<lambda>s. s = ''approved'')" db] assms(2) by (metis less_or_eq_imp_le)
  have u: "is_ok (result_at (approval_step hm st) cs db i) \<and> holds_row k ?h (\<lambda>_. True) (?at i) \<and>
      (\<exists>u. call_op (cs ! i) = Approve k u \<and> request_hmac hm st u = ?h)"
    by (rule approved_row_origin [OF step]) (use i assms(2) in simp_all)
  then obtain m where m: "m < i" "\<not> holds_row k ?h (\<lambda>_. True) (?at m)" "holds_row k ?h (\<lambda>_. True) (?at (Suc m))"
    using run_established [of "holds_row k ?h (\<lambda>_. True)" db "approval_step hm st" cs i] none i(1) assms(2) by auto
  have "is_ok (result_at (approval_step hm st) cs db m) \<and>
      (\<exists>v token. call_op (cs ! m) = Create v token \<and> k = ''apr_'' @ token \<and> request_hmac hm st v = ?h)"
    by (rule any_row_origin [OF step]) (use m i assms(2) in simp_all)
  with u m(1) i(1) show ?thesis by blast
qed

text \<open>An approval is bound to one action: when the store accepts a task for an approval, the task has the same
  version, id, agent, capability and (up to key order) arguments as any other task with the stored request
  digest, unless two different requests have the same MAC.\<close>

theorem approval_bound_to_request:
  assumes "json_wf (JObj (te_arguments t))" "json_wf (JObj (te_arguments u))"
    and "consume hm st fault now k t db = (Inr x, db')"
    and "\<And>r. r \<in> set (ad_rows db) \<Longrightarrow> sa_approval_id r = k \<Longrightarrow> sa_request_hmac r = request_hmac hm st u"
  shows "same_request t u \<or> mac_clash hm (as_key st) (framed ''approval-request-v1'' (approval_request_payload t))
      (framed ''approval-request-v1'' (approval_request_payload u))"
proof -
  have "approval_step hm st (fault, now, Consume k t) db = (Inr [x], db')"
    using assms(3) by (simp add: one_def)
  then have "request_hmac hm st t = request_hmac hm st u"
    using consume_step_ok assms(4) by metis
  then show ?thesis by (rule request_hmac_fields [OF assms(1,2)])
qed

text \<open>C35. Every operation keeps the table's invariant: unique ids within capacity, every row authenticated by its
  HMAC and carrying the time stamps of its state, and at most one open (pending or approved) row for each
  request.\<close>

theorem approvals_invariant:
  assumes "approvals_wf hm st db" "\<forall>c \<in> set cs. clock_in_range st (fst (snd c))"
  shows "approvals_wf hm st (run_steps (approval_step hm st) cs db)"
proof -
  have "approvals_wf hm st (state_at (approval_step hm st) cs db (length cs))"
  proof (rule run_invariant)
    show "approvals_wf hm st (snd (approval_step hm st c s))" if "approvals_wf hm st s" "c \<in> set cs" for c s
      using that assms(2) approvals_wf_step [of hm st s "fst (snd c)" "fst c" "snd (snd c)"]
      by (metis prod.collapse)
  qed (simp_all add: assms(1))
  then show ?thesis by (simp add: state_at_def)
qed

text \<open>A stored row cannot be edited in place: two rows that both pass \<open>_verify_stored\<close> and carry the same row
  HMAC are equal in every field, unless two different rows have the same MAC.\<close>

theorem stored_approval_tamper_evident:
  assumes "verify_stored hm st r = Inr ()" "verify_stored hm st q = Inr ()" "sa_row_hmac r = sa_row_hmac q"
  shows "r = q \<or> mac_clash hm (as_key st) (framed ''approval-row-v1'' (canonical_bytes (stored_fields r)))
      (framed ''approval-row-v1'' (canonical_bytes (stored_fields q)))"
proof -
  have "row_hmac hm st (stored_fields r) = row_hmac hm st (stored_fields q)"
    using verify_stored_hmac assms by metis
  from keyed_digest_same_domain [OF this [unfolded row_hmac_def]] stored_fields_inj [OF _ assms(3)] show ?thesis by blast
qed

text \<open>The intended flow works: with a 32-byte MAC, room in the table, a fresh token and no open row for the same
  request, a submission creates a pending approval, the operator's approval of it succeeds, and the
  resubmitted task consumes it, as long as the approval and the consumption come before the stored
  expiry.\<close>

theorem approval_flow_succeeds:
  fixes hm st t db now1 now2 now3 token
  defines "db1 \<equiv> snd (create hm st False now1 token t db)"
    and "db2 \<equiv> snd (approve hm st False now2 (''apr_'' @ token) t (snd (create hm st False now1 token t db)))"
  assumes "\<And>k m. length (hm k m) = 32" "approvals_wf hm st db"
    and "clock_in_range st now1" "dt_aware now1" "dt_aware now2" "dt_aware now3"
    and "micros now2 < expires_us st now1" "micros now3 < expires_us st now1"
    and "int (length (delete_expired (micros now1) (ad_rows db))) < as_max_entries st"
    and "''apr_'' @ token \<notin> set (map sa_approval_id (delete_expired (micros now1) (ad_rows db)))"
    and "\<forall>x \<in> set (delete_expired (micros now1) (ad_rows db)). \<not> live_request (request_hmac hm st t) (micros now1) x"
  shows "is_ok (fst (create hm st False now1 token t db)) \<and>
    is_ok (fst (approve hm st False now2 (''apr_'' @ token) t db1)) \<and>
    is_ok (fst (consume hm st False now3 (''apr_'' @ token) t db2)) \<and>
    \<not> is_ok (fst (consume hm st fault now4 (''apr_'' @ token) u
      (snd (consume hm st False now3 (''apr_'' @ token) t db2))))"
proof -
  let ?rows = "delete_expired (micros now1) (ad_rows db)"
  let ?r = "new_stored hm st token t (request_hmac hm st t) (micros now1) (expires_us st now1)"
  let ?a = "replace_state hm st ?r ''approved'' (Some (micros now2)) None"
  let ?c = "replace_state hm st ?a ''consumed'' None (Some (micros now3))"
  have len: "length (request_hmac hm st t) = 64" by (simp add: request_hmac_def length_keyed_digest assms(3))
  have vr: "verify_stored hm st ?r = Inr ()" by (rule verify_stored_new) (rule expires_after_now [OF assms(5)])
  have va: "verify_stored hm st ?a = Inr ()" by (rule verify_stored_replace [OF vr]) (simp add: approval_states_def)
  have d: "distinct (map sa_approval_id (?rows @ [?r]))"
    using assms(4,12) approvals_wf_purge [OF assms(4), of "micros now1"] by (simp add: approvals_wf_def)
  have keep: "map (\<lambda>x. if sa_approval_id x = ''apr_'' @ token then q else x) ?rows = ?rows" for q
    using assms(12) by (intro map_idI) force
  have c: "create hm st False now1 token t db = (Inr (record_from_stored ?r), db\<lparr>ad_rows := ?rows @ [?r]\<rparr>)"
    by (rule create_succeeds) (use assms in simp_all)
  then have db1: "db1 = db\<lparr>ad_rows := ?rows @ [?r]\<rparr>" by (simp add: db1_def)
  have a: "approve hm st False now2 (''apr_'' @ token) t db1 = (Inr (record_from_stored ?a), db\<lparr>ad_rows := ?rows @ [?a]\<rparr>)"
    using decide_succeeds [of hm now2 db1 ?r st "''approved''" "Some t"] assms(3,7,9) d vr len keep
    by (simp add: approve_def db1)
  then have db2: "db2 = db\<lparr>ad_rows := ?rows @ [?a]\<rparr>" by (simp add: db2_def flip: db1_def)
  have "consume hm st False now3 (''apr_'' @ token) t db2 = (Inr (record_from_stored ?c), db\<lparr>ad_rows := ?rows @ [?c]\<rparr>)"
    using consume_succeeds [of hm now3 db2 ?a st t] assms(3,8,10) d va keep by (simp add: db2)
  moreover have "\<not> is_ok (fst (consume hm st fault now4 (''apr_'' @ token) u (db\<lparr>ad_rows := ?rows @ [?c]\<rparr>)))"
  proof
    let ?db = "db\<lparr>ad_rows := ?rows @ [?c]\<rparr>"
    assume "is_ok (fst (consume hm st fault now4 (''apr_'' @ token) u ?db))"
    then obtain x db' where "consume hm st fault now4 (''apr_'' @ token) u ?db = (Inr x, db')"
      by (metis is_ok_iff prod.collapse)
    then have "approval_step hm st (fault, now4, Consume (''apr_'' @ token) u) ?db = (Inr [x], db')"
      by (simp add: one_def)
    from conjunct2 [OF consume_step_ok [OF this]] assms(12) show False by force
  qed
  ultimately show ?thesis using c a by simp
qed

section \<open>Examples\<close>

definition ex_store :: approval_store where
  "ex_store = \<lparr>as_key = replicate 32 (CHR ''k''), as_max_entries = 2, as_ttl_seconds = 30\<rparr>"

definition ex_approvals :: approval_db where
  "ex_approvals = \<lparr>ad_kind = Regular_file, ad_quick_check = True, ad_columns = Some approval_columns,
     ad_metadata = Some [(''schema_version'', ''1'')], ad_rows = []\<rparr>"

definition ex_request :: task_envelope where
  "ex_request = \<lparr>te_version = ''1'', te_task_id = ''task-0001'', te_issued_at = ex_time 0,
     te_expires_at = ex_time 9, te_agent = \<lparr>ai_provider = ''p'', ai_model = None, ai_session_id = ''s''\<rparr>,
     te_capability = ''process.run'', te_arguments = [], te_approval_id = None,
     te_nonce = ''nonce-0123456789'', te_signature = []\<rparr>"

definition ex_row :: "int \<Rightarrow> stored_approval" where
  "ex_row i = (let r = new_stored toy_mac ex_store ''a'' ex_request (request_hmac toy_mac ex_store ex_request) 1 30000001;
      a = replace_state toy_mac ex_store r ''approved'' (Some 2) None in
    if i = 0 then r else if i = 1 then a else replace_state toy_mac ex_store a ''consumed'' None (Some 3))"

lemma ex_micros:
  "micros (ex_time 1) = 1" "micros (ex_time 2) = 2" "micros (ex_time 3) = 3" "micros (ex_time 30000002) = 30000002"
  "expires_us ex_store (ex_time 1) = 30000001"
  by code_simp+

lemma ex_aware [simp]: "dt_aware (ex_time i)"
  by (simp add: ex_time_def)

lemma ex_in_range: "clock_in_range ex_store (ex_time 1)" "clock_in_range ex_store (ex_time 2)"
  "clock_in_range ex_store (ex_time 3)" "clock_in_range ex_store (ex_time 30000002)"
  by (simp_all add: clock_in_range_def ex_store_def ex_time_def)

lemma ex_rows_verify: "verify_stored toy_mac ex_store (ex_row i) = Inr ()"
proof -
  have "verify_stored toy_mac ex_store (ex_row 0) = Inr ()"
    unfolding ex_row_def Let_def by (simp add: verify_stored_new)
  then show ?thesis
    unfolding ex_row_def Let_def by (simp add: verify_stored_replace approval_states_def)
qed

lemma ex_create:
  "create toy_mac ex_store False (ex_time 1) ''a'' ex_request ex_approvals =
     (Inr (record_from_stored (ex_row 0)), ex_approvals\<lparr>ad_rows := [ex_row 0]\<rparr>)"
  by (subst create_succeeds)
    (simp_all add: ex_approvals_def delete_expired_def ex_store_def ex_micros [unfolded ex_store_def] ex_row_def Let_def)

lemma ex_approve:
  "approve toy_mac ex_store False (ex_time 2) ''apr_a'' ex_request (ex_approvals\<lparr>ad_rows := [ex_row 0]\<rparr>) =
     (Inr (record_from_stored (ex_row 1)), ex_approvals\<lparr>ad_rows := [ex_row 1]\<rparr>)"
  using decide_succeeds [of toy_mac "ex_time 2" "ex_approvals\<lparr>ad_rows := [ex_row 0]\<rparr>" "ex_row 0" ex_store "''approved''" "Some ex_request"]
    ex_rows_verify [of 0]
  by (simp add: approve_def ex_row_def Let_def ex_micros request_hmac_def length_keyed_digest)

lemma ex_consume:
  "consume toy_mac ex_store False (ex_time 3) ''apr_a'' ex_request (ex_approvals\<lparr>ad_rows := [ex_row 1]\<rparr>) =
     (Inr (record_from_stored (ex_row 2)), ex_approvals\<lparr>ad_rows := [ex_row 2]\<rparr>)"
  using consume_succeeds [of toy_mac "ex_time 3" "ex_approvals\<lparr>ad_rows := [ex_row 1]\<rparr>" "ex_row 1" ex_store ex_request]
    ex_rows_verify [of 1]
  by (simp add: ex_row_def Let_def ex_micros)

definition ex_calls :: "approval_call list" where
  "ex_calls = [(False, ex_time 1, Create ex_request ''a''), (False, ex_time 2, Approve ''apr_a'' ex_request),
     (False, ex_time 3, Consume ''apr_a'' ex_request)]"

lemmas ex_run = ex_calls_def result_at_def state_at_def one_def ex_create ex_approve ex_consume call_op_def

theorem consumed_approval_was_approved_witness:
  "is_ok (result_at (approval_step toy_mac ex_store) ex_calls ex_approvals 2) \<and>
   (\<exists>i u. i < 2 \<and> call_op (ex_calls ! i) = Approve ''apr_a'' u)"
proof -
  have ok: "is_ok (result_at (approval_step toy_mac ex_store) ex_calls ex_approvals 2)"
    by (simp add: ex_run numeral_2_eq_2)
  have "ad_rows ex_approvals = []" "2 < length ex_calls" "call_op (ex_calls ! 2) = Consume ''apr_a'' ex_request"
    by (simp_all add: ex_approvals_def ex_calls_def call_op_def)
  from consumed_approval_was_approved [OF this ok] ok show ?thesis by blast
qed

theorem approval_bound_to_request_witness:
  "is_ok (fst (consume toy_mac ex_store False (ex_time 3) ''apr_a'' ex_request (ex_approvals\<lparr>ad_rows := [ex_row 1]\<rparr>))) \<and>
   (same_request ex_request ex_request \<or> mac_clash toy_mac (as_key ex_store)
      (framed ''approval-request-v1'' (approval_request_payload ex_request))
      (framed ''approval-request-v1'' (approval_request_payload ex_request)))"
proof -
  have wf: "json_wf (JObj (te_arguments ex_request))" by (simp add: ex_request_def)
  have "sa_request_hmac r = request_hmac toy_mac ex_store ex_request"
    if "r \<in> set (ad_rows (ex_approvals\<lparr>ad_rows := [ex_row 1]\<rparr>))" for r
    using that by (simp add: ex_row_def Let_def)
  from approval_bound_to_request [OF wf wf ex_consume this] ex_consume show ?thesis by simp
qed

lemma ex_approvals_wf: "approvals_wf toy_mac ex_store ex_approvals"
  by (simp add: approvals_wf_def ex_approvals_def ex_store_def)

theorem approvals_invariant_witness:
  "approvals_wf toy_mac ex_store (run_steps (approval_step toy_mac ex_store) ex_calls ex_approvals) \<and>
   map sa_state (ad_rows (run_steps (approval_step toy_mac ex_store) ex_calls ex_approvals)) = [''consumed'']"
proof -
  have "\<forall>c \<in> set ex_calls. clock_in_range ex_store (fst (snd c))" by (simp add: ex_calls_def ex_in_range)
  from approvals_invariant [OF ex_approvals_wf this] show ?thesis by (simp add: ex_run) (simp add: ex_row_def Let_def)
qed

theorem stored_approval_tamper_evident_witness:
  "verify_stored toy_mac ex_store (ex_row 1) = Inr () \<and> (ex_row 1 = ex_row 1 \<or>
     mac_clash toy_mac (as_key ex_store) (framed ''approval-row-v1'' (canonical_bytes (stored_fields (ex_row 1))))
      (framed ''approval-row-v1'' (canonical_bytes (stored_fields (ex_row 1)))))"
  using stored_approval_tamper_evident [OF ex_rows_verify [of 1] ex_rows_verify [of 1] refl] ex_rows_verify [of 1] by blast

text \<open>After the expiry of the first approval the purge makes room and the same token can be drawn again.\<close>

definition ex_row2 :: "int \<Rightarrow> stored_approval" where
  "ex_row2 i = (let r = new_stored toy_mac ex_store ''a'' ex_request (request_hmac toy_mac ex_store ex_request) 30000002 60000002;
      a = replace_state toy_mac ex_store r ''approved'' (Some 30000003) None in
    if i = 0 then r else if i = 1 then a else replace_state toy_mac ex_store a ''consumed'' None (Some 30000004))"

definition ex_calls2 :: "approval_call list" where
  "ex_calls2 = ex_calls @ [(False, ex_time 30000002, Create ex_request ''a''),
     (False, ex_time 30000003, Approve ''apr_a'' ex_request), (False, ex_time 30000004, Consume ''apr_a'' ex_request)]"

lemma ex_micros2: "micros (ex_time 30000003) = 30000003" "micros (ex_time 30000004) = 30000004"
  "expires_us ex_store (ex_time 30000002) = 60000002"
  by code_simp+

lemma ex_rows2_verify: "verify_stored toy_mac ex_store (ex_row2 i) = Inr ()"
proof -
  have "verify_stored toy_mac ex_store (ex_row2 0) = Inr ()"
    unfolding ex_row2_def Let_def by (simp add: verify_stored_new)
  then show ?thesis
    unfolding ex_row2_def Let_def by (simp add: verify_stored_replace approval_states_def)
qed

lemma ex_create2:
  "create toy_mac ex_store False (ex_time 30000002) ''a'' ex_request (ex_approvals\<lparr>ad_rows := [ex_row 2]\<rparr>) =
     (Inr (record_from_stored (ex_row2 0)), ex_approvals\<lparr>ad_rows := [ex_row2 0]\<rparr>)"
  by (subst create_succeeds)
    (simp_all add: delete_expired_def ex_store_def ex_micros [unfolded ex_store_def] ex_micros2 [unfolded ex_store_def]
      ex_row_def ex_row2_def Let_def)

lemma ex_approve2:
  "approve toy_mac ex_store False (ex_time 30000003) ''apr_a'' ex_request (ex_approvals\<lparr>ad_rows := [ex_row2 0]\<rparr>) =
     (Inr (record_from_stored (ex_row2 1)), ex_approvals\<lparr>ad_rows := [ex_row2 1]\<rparr>)"
  using decide_succeeds [of toy_mac "ex_time 30000003" "ex_approvals\<lparr>ad_rows := [ex_row2 0]\<rparr>" "ex_row2 0" ex_store "''approved''" "Some ex_request"]
    ex_rows2_verify [of 0]
  by (simp add: approve_def ex_row2_def Let_def ex_micros2 request_hmac_def length_keyed_digest)

lemma ex_consume2:
  "consume toy_mac ex_store False (ex_time 30000004) ''apr_a'' ex_request (ex_approvals\<lparr>ad_rows := [ex_row2 1]\<rparr>) =
     (Inr (record_from_stored (ex_row2 2)), ex_approvals\<lparr>ad_rows := [ex_row2 2]\<rparr>)"
  using consume_succeeds [of toy_mac "ex_time 30000004" "ex_approvals\<lparr>ad_rows := [ex_row2 1]\<rparr>" "ex_row2 1" ex_store ex_request]
    ex_rows2_verify [of 1]
  by (simp add: ex_row2_def Let_def ex_micros2)

lemmas ex_run2 = ex_run ex_calls2_def ex_create2 ex_approve2 ex_consume2

theorem approval_consumed_once_witness:
  "is_ok (result_at (approval_step toy_mac ex_store) ex_calls2 ex_approvals 2) \<and>
   is_ok (result_at (approval_step toy_mac ex_store) ex_calls2 ex_approvals 5) \<and>
   (\<exists>m v token. 2 < m \<and> m < 5 \<and> call_op (ex_calls2 ! m) = Create v token \<and> ''apr_a'' = ''apr_'' @ token)"
proof -
  have ok: "is_ok (result_at (approval_step toy_mac ex_store) ex_calls2 ex_approvals 2)"
    "is_ok (result_at (approval_step toy_mac ex_store) ex_calls2 ex_approvals 5)"
    by (simp_all add: ex_run2 numeral_eq_Suc)
  have "call_op (ex_calls2 ! 2) = Consume ''apr_a'' ex_request" "call_op (ex_calls2 ! 5) = Consume ''apr_a'' ex_request"
    "(2::nat) < 5" "5 < length ex_calls2"
    by (simp_all add: ex_calls2_def ex_calls_def call_op_def)
  from approval_consumed_once [OF this(3,4,1) ok(1) this(2) ok(2)] ok show ?thesis by blast
qed

theorem approval_flow_succeeds_witness:
  "is_ok (fst (create toy_mac ex_store False (ex_time 1) ''a'' ex_request ex_approvals)) \<and>
   is_ok (fst (approve toy_mac ex_store False (ex_time 2) ''apr_a'' ex_request
     (snd (create toy_mac ex_store False (ex_time 1) ''a'' ex_request ex_approvals))))"
  using approval_flow_succeeds [of toy_mac ex_store ex_approvals "ex_time 1" "ex_time 2" "ex_time 3" "''a''" ex_request]
  by (simp add: ex_approvals_wf ex_in_range ex_micros) (simp add: ex_approvals_def ex_store_def delete_expired_def)

end
