(* ===== verification/Redaction.thy ===== *)
theory Redaction
  imports Json
begin

text \<open>
  The text redaction of audit.py (\<open>_safe_text\<close>): four regular-expression substitutions and a length
  limit. Every repetition in the four patterns is over a character class, so a pattern is a list of
  pieces (the capture groups and the text between them), a piece a choice between sequences of atoms, and
  backtracking is the list of all matches in the order in which Python's engine tries them.
\<close>

section \<open>Character classes\<close>

definition code :: "char \<Rightarrow> nat" where
  "code c = of_char c"

definition lower :: "char \<Rightarrow> char" where
  "lower c = (if 65 \<le> code c \<and> code c \<le> 90 then char_of (code c + 32) else c)"

definition is_alpha :: "char \<Rightarrow> bool" where
  "is_alpha c \<longleftrightarrow> 97 \<le> code (lower c) \<and> code (lower c) \<le> 122"

definition is_dec :: "char \<Rightarrow> bool" where
  "is_dec c \<longleftrightarrow> 48 \<le> code c \<and> code c \<le> 57"

text \<open>\<open>\s\<close> and the word characters of \<open>\b\<close>, on the model's alphabet.\<close>

definition is_space :: "char \<Rightarrow> bool" where
  "is_space c \<longleftrightarrow> 9 \<le> code c \<and> code c \<le> 13 \<or> 28 \<le> code c \<and> code c \<le> 32 \<or>
     code c = 133 \<or> code c = 160"

definition is_word :: "char \<Rightarrow> bool" where
  "is_word c \<longleftrightarrow> is_alpha c \<or> is_dec c \<or> c = CHR ''_'' \<or>
     code c \<in> {170, 178, 179, 181, 185, 186, 188, 189, 190} \<or> 192 \<le> code c \<and> c \<noteq> ellipsis \<and>
     code c \<noteq> 215 \<and> code c \<noteq> 247"

section \<open>Matching\<close>

datatype atom =
    One "char \<Rightarrow> bool"
  | Greedy nat "char \<Rightarrow> bool"
  | Lazy_any
  | Optional "char \<Rightarrow> bool"
  | Boundary

type_synonym piece = "atom list list"

definition split_at :: "string \<Rightarrow> nat \<Rightarrow> string \<times> string" where
  "split_at s i = (take i s, drop i s)"

text \<open>The matches of an atom at the start of a text that follows the character \<open>prev\<close>.\<close>

fun match_atom :: "atom \<Rightarrow> char option \<Rightarrow> string \<Rightarrow> (string \<times> string) list" where
  "match_atom (One p) prev s = (case s of [] \<Rightarrow> [] | c # cs \<Rightarrow> if p c then [([c], cs)] else [])"
| "match_atom (Greedy n p) prev s = map (split_at s) (rev [n..<Suc (length (takeWhile p s))])"
| "match_atom Lazy_any prev s = map (split_at s) [0..<Suc (length s)]"
| "match_atom (Optional p) prev s =
     (case s of [] \<Rightarrow> [([], s)] | c # cs \<Rightarrow> if p c then [([c], cs), ([], s)] else [([], s)])"
| "match_atom Boundary prev s =
     (let left = (case prev of None \<Rightarrow> False | Some c \<Rightarrow> is_word c);
          right = (case s of [] \<Rightarrow> False | c # _ \<Rightarrow> is_word c)
      in if left \<noteq> right then [([], s)] else [])"

definition last_char :: "char option \<Rightarrow> string \<Rightarrow> char option" where
  "last_char prev u = (if u = [] then prev else Some (last u))"

fun match_seq :: "atom list \<Rightarrow> char option \<Rightarrow> string \<Rightarrow> (string \<times> string) list" where
  "match_seq [] prev s = [([], s)]"
| "match_seq (a # as) prev s =
     concat (map (\<lambda>(u, r). map (\<lambda>(v, r'). (u @ v, r')) (match_seq as (last_char prev u) r)) (match_atom a prev s))"

definition match_piece :: "piece \<Rightarrow> char option \<Rightarrow> string \<Rightarrow> (string \<times> string) list" where
  "match_piece alts prev s = concat (map (\<lambda>as. match_seq as prev s) alts)"

fun match_pieces :: "piece list \<Rightarrow> char option \<Rightarrow> string \<Rightarrow> (string list \<times> string) list" where
  "match_pieces [] prev s = [([], s)]"
| "match_pieces (p # ps) prev s =
     concat (map (\<lambda>(u, r). map (\<lambda>(us, r'). (u # us, r')) (match_pieces ps (last_char prev u) r)) (match_piece p prev s))"

text \<open>\<open>pattern.sub\<close>: the leftmost match is replaced and the search goes on behind it. The four patterns
  never match the empty text; the guard on the length makes that explicit.\<close>

function sub_text :: "piece list \<Rightarrow> (string list \<Rightarrow> string) \<Rightarrow> char option \<Rightarrow> string \<Rightarrow> string" where
  "sub_text ps f prev [] = []"
| "sub_text ps f prev (c # cs) =
     (case match_pieces ps prev (c # cs) of
        (segs, rest) # _ \<Rightarrow>
          if length rest \<le> length cs then f segs @ sub_text ps f (last_char prev (concat segs)) rest
          else c # sub_text ps f (Some c) cs
      | [] \<Rightarrow> c # sub_text ps f (Some c) cs)"
  by pat_completeness auto
termination by (relation "measure (\<lambda>(ps, f, prev, s). length s)") auto

section \<open>The four patterns\<close>

definition ci :: "char \<Rightarrow> atom" where
  "ci c = One (\<lambda>d. lower d = lower c)"

definition word_ci :: "string \<Rightarrow> atom list" where
  "word_ci s = map ci s"

definition pem_class :: "char \<Rightarrow> bool" where
  "pem_class c \<longleftrightarrow> is_alpha c \<or> is_dec c \<or> c = CHR '' ''"

definition private_key_pattern :: "piece list" where
  "private_key_pattern =
     [[word_ci ''-----BEGIN '' @ [Greedy 0 pem_class] @ word_ci ''PRIVATE KEY-----'' @ [Lazy_any] @
       word_ci ''-----END '' @ [Greedy 0 pem_class] @ word_ci ''PRIVATE KEY-----'']]"

definition bearer_class :: "char \<Rightarrow> bool" where
  "bearer_class c \<longleftrightarrow> is_alpha c \<or> is_dec c \<or> c \<in> set ''._~+/=-''"

definition bearer_pattern :: "piece list" where
  "bearer_pattern = [[[Boundary] @ word_ci ''Bearer'' @ [Greedy 1 is_space, Greedy 1 bearer_class]]]"

definition uri_credential_pattern :: "piece list" where
  "uri_credential_pattern =
     [[[Boundary, One is_alpha, Greedy 0 (\<lambda>c. is_alpha c \<or> is_dec c \<or> c \<in> set ''+.-'')] @ word_ci ''://''],
      [[Greedy 1 (\<lambda>c. \<not> is_space c \<and> c \<notin> set ''/:@''), One (\<lambda>c. c = CHR '':''),
        Greedy 1 (\<lambda>c. \<not> is_space c \<and> c \<notin> set ''@/''), One (\<lambda>c. c = CHR ''@'')]]]"

definition dash_class :: atom where
  "dash_class = Optional (\<lambda>c. c = CHR ''_'' \<or> c = CHR ''-'')"

definition secret_words :: "atom list list" where
  "secret_words = map word_ci [''password'', ''passwd'', ''secret'', ''token''] @
     [word_ci ''api'' @ [dash_class] @ word_ci ''key''] @
     map word_ci [''authorization'', ''cookie'', ''signature''] @
     [word_ci ''private'' @ [dash_class] @ word_ci ''key'', word_ci ''client'' @ [dash_class] @ word_ci ''secret'']"

definition key_value_secret_pattern :: "piece list" where
  "key_value_secret_pattern =
     [map (\<lambda>w. [Boundary] @ w @ [Boundary]) secret_words,
      [[Greedy 0 is_space, One (\<lambda>c. c = CHR '':'' \<or> c = CHR ''=''), Greedy 0 is_space]],
      [[Greedy 1 (\<lambda>c. \<not> is_space c \<and> c \<notin> set '',;'')]]]"

section \<open>safe\_text\<close>

definition redact :: "string \<Rightarrow> string" where
  "redact text =
     (let t1 = sub_text private_key_pattern (\<lambda>_. ''[REDACTED PRIVATE KEY]'') None text;
          t2 = sub_text bearer_pattern (\<lambda>_. ''Bearer [REDACTED]'') None t1;
          t3 = sub_text uri_credential_pattern (\<lambda>g. g ! 0 @ ''[REDACTED]@'') None t2
      in sub_text key_value_secret_pattern (\<lambda>g. g ! 0 @ g ! 1 @ ''[REDACTED]'') None t3)"

definition truncate_text :: "nat \<Rightarrow> string \<Rightarrow> string" where
  "truncate_text limit text =
     (if length text \<le> limit then text else take limit text @ ellipsis # ''[truncated]'')"

definition safe_text :: "nat \<Rightarrow> string \<Rightarrow> string" where
  "safe_text limit text = truncate_text limit (redact text)"

lemma length_safe_text: "length (safe_text limit text) \<le> limit + 12"
  by (simp add: safe_text_def truncate_text_def)

end
