(* ===== verification/Audit_Anchor.thy ===== *)
theory Audit_Anchor
  imports Hash_Chain Approvals Redaction
begin

text \<open>
  audit_anchor.py: the external anchor, a file of HMAC-chained checkpoints, each naming how many records
  the audit log had and the HMAC of its last record. The file is its decoded text. The parser of ISO
  timestamps (\<open>datetime.fromisoformat\<close>) is a parameter \<open>fromiso\<close>: \<open>None\<close> when it raises, otherwise
  whether the result carries a time zone. A write may fail after some characters, and \<open>os.write\<close>, whose
  result the code does not look at, may write fewer than it was given.
\<close>

section \<open>Errors and files\<close>

datatype audit_error =
    Audit_integrity string
  | Audit_lock string
  | Anchor_not_initialized string
  | Anchor_integrity string
  | Anchor_lock string
  | Audit_value_error string
  | Audit_type_error
  | Audit_nonfinite

datatype anchor_file = No_anchor | Anchor_link | Anchor_not_regular | Anchor_text string

datatype write_io = Write_ok | Write_fault nat | Write_short nat

record checkpoint_io =
  ck_uuid :: string
  ck_now :: string
  ck_write :: write_io

record file_anchor =
  fa_key :: bytes
  fa_audit_log_id :: string

record anchor_verification =
  av_checkpoints :: int
  av_records :: int
  av_last_hmac :: string
  av_last_checkpoint_hmac :: string

definition genesis_hmac :: string where
  "genesis_hmac = replicate 64 (CHR ''0'')"

section \<open>Field checks\<close>

definition is_ascii_space :: "char \<Rightarrow> bool" where
  "is_ascii_space c \<longleftrightarrow> c = CHR '' '' \<or> 9 \<le> code c \<and> code c \<le> 13"

definition is_hex :: "char \<Rightarrow> bool" where
  "is_hex c \<longleftrightarrow> hex_val c \<noteq> None"

lemma dropWhile_shorter: "dropWhile p s = a # b # r \<Longrightarrow> length r < length s"
  using length_dropWhile_le [of p s] by simp

text \<open>\<open>bytes.fromhex\<close> succeeds: pairs of hexadecimal digits, with white space allowed between the pairs.\<close>

function fromhex :: "string \<Rightarrow> bool" where
  "fromhex s =
     (case dropWhile is_ascii_space s of [] \<Rightarrow> True | [_] \<Rightarrow> False
      | a # b # r \<Rightarrow> is_hex a \<and> is_hex b \<and> fromhex r)"
  by pat_completeness auto
termination by (relation "measure length") (auto dest: dropWhile_shorter)

declare fromhex.simps [simp del]

definition validate_hex_digest :: "string \<Rightarrow> json option \<Rightarrow> audit_error + string" where
  "validate_hex_digest field v =
     (case v of Some (JStr s) \<Rightarrow>
        if length s \<noteq> 64 \<or> \<not> fromhex s then Inl (Anchor_integrity (''invalid '' @ field)) else Inr s
      | _ \<Rightarrow> Inl (Anchor_integrity (''invalid '' @ field)))"

definition validate_timestamp :: "(string \<Rightarrow> bool option) \<Rightarrow> json option \<Rightarrow> audit_error + unit" where
  "validate_timestamp fromiso v =
     (case v of Some (JStr s) \<Rightarrow>
        (case fromiso s of None \<Rightarrow> Inl (Anchor_integrity ''invalid checkpoint timestamp'')
         | Some aware \<Rightarrow> if aware then Inr () else Inl (Anchor_integrity ''checkpoint timestamp must include a timezone''))
      | _ \<Rightarrow> Inl (Anchor_integrity ''invalid checkpoint timestamp''))"

text \<open>\<open>UUID(text)\<close> succeeds: after \<open>urn:\<close>, \<open>uuid:\<close>, braces and hyphens are removed, 32 characters that
  \<open>int(text, 16)\<close> accepts (a sign, a prefix and single underscores included).\<close>

function remove_all :: "string \<Rightarrow> string \<Rightarrow> string" where
  "remove_all p s =
     (case s of [] \<Rightarrow> []
      | c # cs \<Rightarrow> if p \<noteq> [] \<and> take (length p) s = p then remove_all p (drop (length p) s) else c # remove_all p cs)"
  by pat_completeness auto
termination by (relation "measure (\<lambda>(p, s). length s)") auto

declare remove_all.simps [simp del]

fun hex_digits :: "bool \<Rightarrow> string \<Rightarrow> bool" where
  "hex_digits after_digit [] = after_digit"
| "hex_digits after_digit (c # cs) =
     (if c = CHR ''_'' then after_digit \<and> cs \<noteq> [] \<and> hex_digits False cs else is_hex c \<and> hex_digits True cs)"

definition strip_by :: "(char \<Rightarrow> bool) \<Rightarrow> string \<Rightarrow> string" where
  "strip_by p s = rev (dropWhile p (rev (dropWhile p s)))"

definition int16_ok :: "string \<Rightarrow> bool" where
  "int16_ok s0 =
     (let s = strip_by is_space s0;
          s = (case s of c # cs \<Rightarrow> if c = CHR ''+'' \<or> c = CHR ''-'' then cs else s | [] \<Rightarrow> []) in
      if take 2 s = ''0x'' \<or> take 2 s = ''0X'' then
        (case drop 2 s of c # cs \<Rightarrow> if c = CHR ''_'' then hex_digits False cs else hex_digits False (c # cs) | [] \<Rightarrow> False)
      else hex_digits False s)"

definition uuid_ok :: "string \<Rightarrow> bool" where
  "uuid_ok s =
     (let h = remove_all ''uuid:'' (remove_all ''urn:'' s);
          h = remove_all ''-'' (strip_by (\<lambda>c. c = CHR ''{'' \<or> c = CHR ''}'') h)
      in length h = 32 \<and> int16_ok h)"

definition at_line :: "string \<Rightarrow> nat \<Rightarrow> string" where
  "at_line msg n = msg @ '' at line '' @ jnat n"

section \<open>Checkpoints\<close>

definition expected_keys :: "string list" where
  "expected_keys = [''version'', ''checkpoint_id'', ''timestamp'', ''audit_log_id'', ''records'', ''last_hmac'',
     ''previous_checkpoint_hmac'', ''checkpoint_hmac'']"

text \<open>\<open>checkpoint["version"] != 1\<close>: \<open>True == 1\<close> and \<open>1.0 == 1\<close> in Python.\<close>

definition version_is_1 :: "json option \<Rightarrow> bool" where
  "version_is_1 v \<longleftrightarrow> v = Some (JInt 1) \<or> v = Some (JBool True) \<or> v = Some (JFloat ''1.0'')"

definition decode_checkpoint :: "nat \<Rightarrow> string \<Rightarrow> audit_error + (string \<times> json) list" where
  "decode_checkpoint n line =
     (if line = [] then Inl (Anchor_integrity (at_line ''blank audit anchor checkpoint'' n))
      else case loads line of
        None \<Rightarrow> Inl (Anchor_integrity (at_line ''invalid JSON audit anchor checkpoint'' n))
      | Some (JObj c) \<Rightarrow>
          if set (keys c) \<noteq> set expected_keys then Inl (Anchor_integrity (at_line ''unexpected audit anchor schema'' n))
          else if \<not> version_is_1 (map_of c ''version'')
            then Inl (Anchor_integrity (at_line ''unsupported audit anchor version'' n))
          else Inr c
      | Some _ \<Rightarrow> Inl (Anchor_integrity (''audit anchor checkpoint at line '' @ jnat n @ '' must be an object'')))"

definition validate_checkpoint_identity ::
  "(string \<Rightarrow> bool option) \<Rightarrow> file_anchor \<Rightarrow> nat \<Rightarrow> string list \<Rightarrow> (string \<times> json) list \<Rightarrow> audit_error + string" where
  "validate_checkpoint_identity fromiso fa n ids c =
     (case map_of c ''checkpoint_id'' of
        Some (JStr i) \<Rightarrow>
          if \<not> uuid_ok i then Inl (Anchor_integrity (at_line ''invalid checkpoint ID'' n))
          else if i \<in> set ids then Inl (Anchor_integrity (at_line ''duplicate checkpoint ID'' n))
          else (case validate_timestamp fromiso (map_of c ''timestamp'') of Inl e \<Rightarrow> Inl e
            | Inr _ \<Rightarrow>
              if map_of c ''audit_log_id'' \<noteq> Some (JStr (fa_audit_log_id fa))
                then Inl (Anchor_integrity (at_line ''audit log ID mismatch'' n))
              else Inr i)
      | _ \<Rightarrow> Inl (Anchor_integrity (at_line ''invalid checkpoint ID'' n)))"

definition checkpoint_digest :: "hmac_fn \<Rightarrow> file_anchor \<Rightarrow> (string \<times> json) list \<Rightarrow> string" where
  "checkpoint_digest hm fa c = keyed_digest hm (fa_key fa) ''audit-anchor-checkpoint-v1'' (canonical_bytes c)"

text \<open>The checks of one checkpoint after its identity: the record count, its growth, the audit HMAC, the link to
  the previous checkpoint and the checkpoint's own HMAC.\<close>

definition check_checkpoint ::
  "hmac_fn \<Rightarrow> file_anchor \<Rightarrow> nat \<Rightarrow> int \<Rightarrow> string \<Rightarrow> (string \<times> json) list \<Rightarrow> audit_error + int \<times> string \<times> string" where
  "check_checkpoint hm fa n previous_records previous_hmac c =
     (case map_of c ''records'' of
        Some (JInt records) \<Rightarrow>
          if records < 0 then Inl (Anchor_integrity (at_line ''invalid record count'' n))
          else if records \<le> previous_records then Inl (Anchor_integrity (at_line ''non-monotonic record count'' n))
          else (case validate_hex_digest ''last audit HMAC'' (map_of c ''last_hmac'') of Inl e \<Rightarrow> Inl e
            | Inr last_hmac \<Rightarrow>
              if records = 0 \<and> last_hmac \<noteq> genesis_hmac
                then Inl (Anchor_integrity ''zero-record checkpoint must use the audit genesis HMAC'')
              else if map_of c ''previous_checkpoint_hmac'' \<noteq> Some (JStr previous_hmac)
                then Inl (Anchor_integrity (at_line ''broken audit anchor chain'' n))
              else (case validate_hex_digest ''checkpoint HMAC'' (map_of c ''checkpoint_hmac'') of Inl e \<Rightarrow> Inl e
                | Inr mac \<Rightarrow>
                  (case compare_digest mac (checkpoint_digest hm fa (AList.delete ''checkpoint_hmac'' c)) of
                     None \<Rightarrow> Inl Audit_type_error
                   | Some False \<Rightarrow> Inl (Anchor_integrity (at_line ''invalid checkpoint HMAC'' n))
                   | Some True \<Rightarrow> Inr (records, last_hmac, mac))))
      | _ \<Rightarrow> Inl (Anchor_integrity (at_line ''invalid record count'' n)))"

fun scan_checkpoints ::
  "hmac_fn \<Rightarrow> (string \<Rightarrow> bool option) \<Rightarrow> file_anchor \<Rightarrow> nat \<Rightarrow> string list \<Rightarrow> anchor_verification \<Rightarrow> string list \<Rightarrow>
   audit_error + anchor_verification" where
  "scan_checkpoints hm fromiso fa n ids v [] = Inr v"
| "scan_checkpoints hm fromiso fa n ids v (line # ls) =
     (case decode_checkpoint n line of Inl e \<Rightarrow> Inl e
      | Inr c \<Rightarrow> (case validate_checkpoint_identity fromiso fa n ids c of Inl e \<Rightarrow> Inl e
      | Inr i \<Rightarrow> (case check_checkpoint hm fa n (av_records v) (av_last_checkpoint_hmac v) c of Inl e \<Rightarrow> Inl e
      | Inr (records, last_hmac, mac) \<Rightarrow>
          scan_checkpoints hm fromiso fa (Suc n) (i # ids)
            \<lparr>av_checkpoints = av_checkpoints v + 1, av_records = records, av_last_hmac = last_hmac,
             av_last_checkpoint_hmac = mac\<rparr> ls)))"

definition initial_anchor :: anchor_verification where
  "initial_anchor = \<lparr>av_checkpoints = 0, av_records = -1, av_last_hmac = genesis_hmac,
     av_last_checkpoint_hmac = genesis_hmac\<rparr>"

definition assert_safe_anchor_path :: "anchor_file \<Rightarrow> audit_error + unit" where
  "assert_safe_anchor_path f =
     (case f of Anchor_link \<Rightarrow> Inl (Anchor_integrity ''audit anchor cannot be a symbolic link'')
      | Anchor_not_regular \<Rightarrow> Inl (Anchor_integrity ''audit anchor path is not a regular file'')
      | _ \<Rightarrow> Inr ())"

definition anchor_verify ::
  "hmac_fn \<Rightarrow> (string \<Rightarrow> bool option) \<Rightarrow> file_anchor \<Rightarrow> anchor_file \<Rightarrow> audit_error + anchor_verification" where
  "anchor_verify hm fromiso fa f =
     (case assert_safe_anchor_path f of Inl e \<Rightarrow> Inl e
      | Inr _ \<Rightarrow>
        (case f of Anchor_text content \<Rightarrow>
           if content = [] then Inl (Anchor_not_initialized ''audit anchor is not initialized'')
           else if \<not> ends_with_newline content then Inl (Anchor_integrity ''audit anchor must end with a newline'')
           else scan_checkpoints hm fromiso fa 1 [] initial_anchor (text_lines content)
         | _ \<Rightarrow> Inl (Anchor_not_initialized ''audit anchor is not initialized'')))"

section \<open>Writing checkpoints\<close>

definition validate_state :: "int \<Rightarrow> string \<Rightarrow> audit_error + unit" where
  "validate_state records last_hmac =
     (if records < 0 then Inl (Audit_value_error ''anchor record count must be a non-negative integer'')
      else case validate_hex_digest ''last audit HMAC'' (Some (JStr last_hmac)) of Inl e \<Rightarrow> Inl e
      | Inr _ \<Rightarrow>
        if records = 0 \<and> last_hmac \<noteq> genesis_hmac
          then Inl (Audit_value_error ''zero-record checkpoint must use the audit genesis HMAC'')
        else Inr ())"

definition unsigned_checkpoint :: "file_anchor \<Rightarrow> checkpoint_io \<Rightarrow> int \<Rightarrow> string \<Rightarrow> string \<Rightarrow> (string \<times> json) list" where
  "unsigned_checkpoint fa io records last_hmac previous =
     [(''version'', JInt 1), (''checkpoint_id'', JStr (ck_uuid io)), (''timestamp'', JStr (ck_now io)),
      (''audit_log_id'', JStr (fa_audit_log_id fa)), (''records'', JInt records), (''last_hmac'', JStr last_hmac),
      (''previous_checkpoint_hmac'', JStr previous)]"

definition checkpoint_line ::
  "hmac_fn \<Rightarrow> file_anchor \<Rightarrow> checkpoint_io \<Rightarrow> int \<Rightarrow> string \<Rightarrow> string \<Rightarrow> string" where
  "checkpoint_line hm fa io records last_hmac previous =
     (let c = unsigned_checkpoint fa io records last_hmac previous
      in dumps False (JObj (c @ [(''checkpoint_hmac'', JStr (checkpoint_digest hm fa c))])))"

definition anchor_content :: "anchor_file \<Rightarrow> string" where
  "anchor_content f = (case f of Anchor_text content \<Rightarrow> content | _ \<Rightarrow> [])"

definition append_checkpoint ::
  "hmac_fn \<Rightarrow> file_anchor \<Rightarrow> checkpoint_io \<Rightarrow> int \<Rightarrow> string \<Rightarrow> string \<Rightarrow> anchor_file \<Rightarrow> (audit_error + unit) \<times> anchor_file" where
  "append_checkpoint hm fa io records last_hmac previous f =
     (case assert_safe_anchor_path f of Inl e \<Rightarrow> (Inl e, f)
      | Inr _ \<Rightarrow>
        let encoded = checkpoint_line hm fa io records last_hmac previous @ [NL]; old = anchor_content f in
        (case ck_write io of
           Write_ok \<Rightarrow> (Inr (), Anchor_text (old @ encoded))
         | Write_fault k \<Rightarrow> (Inl (Anchor_integrity ''audit anchor write failed''), Anchor_text (old @ take k encoded))
         | Write_short k \<Rightarrow> (Inr (), Anchor_text (old @ take k encoded))))"

definition anchor_bootstrap ::
  "hmac_fn \<Rightarrow> (string \<Rightarrow> bool option) \<Rightarrow> file_anchor \<Rightarrow> checkpoint_io \<Rightarrow> int \<Rightarrow> string \<Rightarrow> anchor_file \<Rightarrow>
   (audit_error + anchor_verification) \<times> anchor_file" where
  "anchor_bootstrap hm fromiso fa io records last_hmac f =
     (case validate_state records last_hmac of Inl e \<Rightarrow> (Inl e, f)
      | Inr _ \<Rightarrow> (case assert_safe_anchor_path f of Inl e \<Rightarrow> (Inl e, f)
      | Inr _ \<Rightarrow>
        if anchor_content f \<noteq> [] then (Inl (Anchor_integrity ''audit anchor is already initialized''), f)
        else (case append_checkpoint hm fa io records last_hmac genesis_hmac f of
          (Inl e, f') \<Rightarrow> (Inl e, f')
        | (Inr _, f') \<Rightarrow> (anchor_verify hm fromiso fa f', f'))))"

definition anchor_append ::
  "hmac_fn \<Rightarrow> (string \<Rightarrow> bool option) \<Rightarrow> file_anchor \<Rightarrow> checkpoint_io \<Rightarrow> int \<Rightarrow> string \<Rightarrow> anchor_file \<Rightarrow>
   (audit_error + anchor_verification) \<times> anchor_file" where
  "anchor_append hm fromiso fa io records last_hmac f =
     (case validate_state records last_hmac of Inl e \<Rightarrow> (Inl e, f)
      | Inr _ \<Rightarrow> (case anchor_verify hm fromiso fa f of Inl e \<Rightarrow> (Inl e, f)
      | Inr v \<Rightarrow>
        if records \<le> av_records v then (Inl (Anchor_integrity ''audit anchor record count must increase''), f)
        else (case append_checkpoint hm fa io records last_hmac (av_last_checkpoint_hmac v) f of
          (Inl e, f') \<Rightarrow> (Inl e, f')
        | (Inr _, f') \<Rightarrow> (anchor_verify hm fromiso fa f', f'))))"

definition derive_audit_log_id :: "hmac_fn \<Rightarrow> string \<Rightarrow> audit_error + string" where
  "derive_audit_log_id hm audit_key =
     (if length (utf8 audit_key) < 32 then Inl (Audit_value_error ''audit key must contain at least 32 UTF-8 bytes'')
      else Inr (keyed_digest hm (utf8 audit_key) ''audit-anchor-log-id-v1'' ''systeme-local-audit-log''))"

text \<open>The constructor; the lock timeout in milliseconds.\<close>

definition file_anchor_init :: "string \<Rightarrow> string \<Rightarrow> int \<Rightarrow> audit_error + file_anchor" where
  "file_anchor_init key audit_log_id lock_timeout =
     (if length (utf8 key) < 32 then Inl (Audit_value_error ''audit anchor key must contain at least 32 UTF-8 bytes'')
      else if lock_timeout \<le> 0 then Inl (Audit_value_error ''audit anchor lock timeout must be positive'')
      else case validate_hex_digest ''audit log ID'' (Some (JStr audit_log_id)) of Inl e \<Rightarrow> Inl e
      | Inr _ \<Rightarrow> Inr \<lparr>fa_key = utf8 key, fa_audit_log_id = audit_log_id\<rparr>)"

section \<open>The checkpoints of a verified anchor\<close>

text \<open>A checkpoint as a record of a chain: its MAC, the MAC it names, and the bytes the MAC is over.\<close>

definition str_field :: "string \<Rightarrow> (string \<times> json) list \<Rightarrow> string" where
  "str_field k c = (case map_of c k of Some (JStr s) \<Rightarrow> s | _ \<Rightarrow> [])"

definition int_field :: "string \<Rightarrow> (string \<times> json) list \<Rightarrow> int" where
  "int_field k c = (case map_of c k of Some (JInt i) \<Rightarrow> i | _ \<Rightarrow> -1)"

definition unsigned :: "string \<Rightarrow> (string \<times> json) list \<Rightarrow> (string \<times> json) list" where
  "unsigned mac_key c = AList.delete mac_key c"

definition signed_by :: "hmac_fn \<Rightarrow> bytes \<Rightarrow> bytes \<Rightarrow> string \<Rightarrow> string \<Rightarrow> (string \<times> json) list \<Rightarrow> bool" where
  "signed_by hm key domain mac_key prev_key c \<longleftrightarrow>
     json_wf (JObj c) \<and> prev_key \<noteq> mac_key \<and> (\<exists>p. map_of c prev_key = Some (JStr p)) \<and>
     map_of c mac_key = Some (JStr (keyed_digest hm key domain (canonical_bytes (unsigned mac_key c))))"

definition same_object :: "string \<Rightarrow> (string \<times> json) list \<Rightarrow> (string \<times> json) list \<Rightarrow> bool" where
  "same_object mac_key c d \<longleftrightarrow> norm (JObj (unsigned mac_key c)) = norm (JObj (unsigned mac_key d))"

lemma json_wf_unsigned: "json_wf (JObj c) \<Longrightarrow> json_wf (JObj (unsigned k c))"
  by (auto simp: unsigned_def AList.delete_eq list_all_iff distinct_map_filter)

interpretation signed_chain: mac_chain "str_field mac_key" "str_field prev_key" "\<lambda>c. canonical_bytes (unsigned mac_key c)"
  "signed_by hm key domain mac_key prev_key" "same_object mac_key"
  "\<lambda>a b. mac_clash hm key (framed domain a) (framed domain b)"
  for hm key domain mac_key prev_key
proof
  fix x y :: "(string \<times> json) list"
  assume s: "signed_by hm key domain mac_key prev_key x" "signed_by hm key domain mac_key prev_key y"
  then have wf: "json_wf (JObj (unsigned mac_key x))" "json_wf (JObj (unsigned mac_key y))"
    by (simp_all add: signed_by_def json_wf_unsigned del: json_wf.simps)
  show "same_object mac_key x y \<and> str_field prev_key x = str_field prev_key y"
    if b: "canonical_bytes (unsigned mac_key x) = canonical_bytes (unsigned mac_key y)"
  proof
    show "same_object mac_key x y"
      using b wf by (simp add: same_object_def canonical_bytes_def dumps_inj del: dumps.simps norm.simps json_wf.simps)
    have "map_option norm (map_of (unsigned mac_key x) prev_key) = map_option norm (map_of (unsigned mac_key y) prev_key)"
      by (rule canonical_bytes_lookup [OF wf b])
    with s show "str_field prev_key x = str_field prev_key y"
      by (auto simp: signed_by_def unsigned_def str_field_def AList.delete_conv')
  qed
  show "canonical_bytes (unsigned mac_key x) = canonical_bytes (unsigned mac_key y) \<or>
      mac_clash hm key (framed domain (canonical_bytes (unsigned mac_key x)))
        (framed domain (canonical_bytes (unsigned mac_key y)))"
    if "str_field mac_key x = str_field mac_key y"
    using s that by (intro keyed_digest_same_domain) (simp add: signed_by_def str_field_def)
qed

abbreviation anchor_signed :: "hmac_fn \<Rightarrow> file_anchor \<Rightarrow> (string \<times> json) list \<Rightarrow> bool" where
  "anchor_signed hm fa \<equiv> signed_by hm (fa_key fa) ''audit-anchor-checkpoint-v1'' ''checkpoint_hmac'' ''previous_checkpoint_hmac''"

abbreviation anchor_chained :: "string \<Rightarrow> (string \<times> json) list list \<Rightarrow> bool" where
  "anchor_chained \<equiv> chained (str_field ''checkpoint_hmac'') (str_field ''previous_checkpoint_hmac'')"

lemma validate_hex_digest_ok:
  "validate_hex_digest field v = Inr s \<longleftrightarrow> v = Some (JStr s) \<and> length s = 64 \<and> fromhex s"
  by (auto simp: validate_hex_digest_def split: option.splits json.splits)

lemma decode_checkpoint_ok: "decode_checkpoint n line = Inr c \<Longrightarrow> loads line = Some (JObj c)"
  by (auto simp: decode_checkpoint_def split: if_splits option.splits json.splits)

lemma case_JInt: "(case v of Some (JInt i) \<Rightarrow> f i | _ \<Rightarrow> Inl e) = Inr x \<longleftrightarrow> (\<exists>i. v = Some (JInt i) \<and> f i = Inr x)"
  by (auto split: option.splits json.splits)

lemma case_Inr: "(case r of Inl e \<Rightarrow> Inl e | Inr y \<Rightarrow> g y) = Inr x \<longleftrightarrow> (\<exists>y. r = Inr y \<and> g y = Inr x)"
  by (cases r) auto

lemma if_Inr: "(if b then Inl e else r) = Inr x \<longleftrightarrow> \<not> b \<and> r = Inr x"
  by simp

lemma case_compare: "(case compare_digest a b of None \<Rightarrow> Inl e | Some False \<Rightarrow> Inl e' | Some True \<Rightarrow> r) = Inr x \<longleftrightarrow>
   a = b \<and> is_ascii a \<and> r = Inr x"
  by (auto simp: compare_digest_def split: bool.splits)

lemmas check_Inr = case_JInt case_Inr if_Inr case_compare validate_hex_digest_ok

lemma check_checkpoint_ok:
  assumes "check_checkpoint hm fa n pr ph c = Inr (records, lh, mac)" "json_wf (JObj c)"
  shows "anchor_signed hm fa c \<and> str_field ''checkpoint_hmac'' c = mac \<and> str_field ''previous_checkpoint_hmac'' c = ph \<and>
    int_field ''records'' c = records \<and> str_field ''last_hmac'' c = lh \<and> pr < records \<and> 0 \<le> records"
  using assms unfolding check_checkpoint_def check_Inr
  by (auto simp: signed_by_def checkpoint_digest_def unsigned_def str_field_def int_field_def simp del: json_wf.simps)

text \<open>The state of a scan as a function of the checkpoints seen so far.\<close>

definition scan_state :: "anchor_verification \<Rightarrow> (string \<times> json) list list \<Rightarrow> anchor_verification" where
  "scan_state v cs = (if cs = [] then v else
     \<lparr>av_checkpoints = av_checkpoints v + int (length cs), av_records = int_field ''records'' (last cs),
      av_last_hmac = str_field ''last_hmac'' (last cs),
      av_last_checkpoint_hmac = str_field ''checkpoint_hmac'' (last cs)\<rparr>)"

lemma scan_checkpoints_ok:
  assumes "scan_checkpoints hm fromiso fa n ids v ls = Inr v'"
  shows "\<exists>cs. map loads ls = map (\<lambda>c. Some (JObj c)) cs \<and> anchor_chained (av_last_checkpoint_hmac v) cs \<and>
    list_all (anchor_signed hm fa) cs \<and> v' = scan_state v cs \<and>
    sorted_wrt (<) (av_records v # map (int_field ''records'') cs)"
  using assms
proof (induction hm fromiso fa n ids v ls rule: scan_checkpoints.induct)
  case (2 hm fromiso fa n ids v line ls)
  from "2.prems" obtain c i records lh mac where d: "decode_checkpoint n line = Inr c"
    "validate_checkpoint_identity fromiso fa n ids c = Inr i"
    "check_checkpoint hm fa n (av_records v) (av_last_checkpoint_hmac v) c = Inr (records, lh, mac)"
    by (auto split: sum.splits)
  let ?v = "\<lparr>av_checkpoints = av_checkpoints v + 1, av_records = records, av_last_hmac = lh, av_last_checkpoint_hmac = mac\<rparr>"
  have l: "loads line = Some (JObj c)" by (rule decode_checkpoint_ok [OF d(1)])
  note k = check_checkpoint_ok [OF d(3) loads_wf [OF l]]
  from "2.prems" d have "scan_checkpoints hm fromiso fa (Suc n) (i # ids) ?v ls = Inr v'" by simp
  from "2.IH" [OF d refl refl this] obtain cs where cs: "map loads ls = map (\<lambda>c. Some (JObj c)) cs"
    "anchor_chained mac cs" "list_all (anchor_signed hm fa) cs" "v' = scan_state ?v cs"
    "sorted_wrt (<) (records # map (int_field ''records'') cs)" by auto
  have "sorted_wrt (<) (av_records v # map (int_field ''records'') (c # cs))" using cs(5) k by auto
  with cs k l show ?case
    by (intro exI [of _ "c # cs"]) (auto simp: scan_state_def)
qed (auto simp: scan_state_def)

lemma scan_checkpoints_append:
  assumes "scan_checkpoints hm fromiso fa n ids v ls = Inr v'"
    and "\<And>c. Some (JObj c) \<in> loads ` set ls \<Longrightarrow> str_field ''checkpoint_id'' c \<notin> set new"
    and "set new \<inter> set ids = {}"
  shows "\<exists>ids'. set new \<inter> set ids' = {} \<and>
    scan_checkpoints hm fromiso fa n ids v (ls @ ls') = scan_checkpoints hm fromiso fa (n + length ls) ids' v' ls'"
  using assms
proof (induction hm fromiso fa n ids v ls rule: scan_checkpoints.induct)
  case (2 hm fromiso fa n ids v line ls)
  from "2.prems"(1) obtain c i records lh mac where d: "decode_checkpoint n line = Inr c"
    "validate_checkpoint_identity fromiso fa n ids c = Inr i"
    "check_checkpoint hm fa n (av_records v) (av_last_checkpoint_hmac v) c = Inr (records, lh, mac)"
    by (auto split: sum.splits)
  have "i = str_field ''checkpoint_id'' c"
    using d(2) by (auto simp: validate_checkpoint_identity_def str_field_def split: option.splits json.splits if_splits sum.splits)
  then have fresh: "set new \<inter> set (i # ids) = {}"
    using "2.prems"(2) [of c] "2.prems"(3) decode_checkpoint_ok [OF d(1)] by auto
  show ?case
    using "2.IH" [OF d refl refl _ _ fresh] "2.prems"(1,2) d by simp
qed auto

section \<open>Writing and reading back\<close>

lemma is_hex_hexdig: "n < 16 \<Longrightarrow> is_hex (hexdig n)"
  by (simp add: is_hex_def hex_val_hexdig)

lemma hex_not_space: "is_hex c \<Longrightarrow> \<not> is_ascii_space c"
  by (auto simp: is_hex_def hex_val_def is_ascii_space_def code_def Let_def split: if_splits)

lemma fromhex_pair: "is_hex a \<Longrightarrow> is_hex b \<Longrightarrow> fromhex (a # b # r) = fromhex r"
  by (subst fromhex.simps) (simp add: hex_not_space)

lemma fromhex_Nil [simp]: "fromhex []"
  by (subst fromhex.simps) simp

lemma fromhex_hexlify [simp]: "fromhex (hexlify bs)"
proof (induction bs)
  case (Cons b bs)
  have "(of_char b :: nat) div 16 < 16" by (rule of_char_div_16)
  then show ?case
    using Cons by (simp add: hexlify_Cons hex_byte_def fromhex_pair is_hex_hexdig)
qed (simp add: hexlify_def)

lemma fromhex_zeros: "fromhex (replicate (2 * n) (CHR ''0''))"
  by (induction n) (simp_all add: fromhex_pair is_hex_def hex_val_def)

lemma genesis_ok [simp]: "length genesis_hmac = 64" "fromhex genesis_hmac"
  using fromhex_zeros [of 32] by (simp_all add: genesis_hmac_def)

lemma keyed_digest_ok: "(\<And>k m. length (hm k m) = 32) \<Longrightarrow> length (keyed_digest hm k d p) = 64 \<and> fromhex (keyed_digest hm k d p)"
  by (simp add: keyed_digest_def)

definition signed_checkpoint :: "hmac_fn \<Rightarrow> file_anchor \<Rightarrow> checkpoint_io \<Rightarrow> int \<Rightarrow> string \<Rightarrow> string \<Rightarrow> (string \<times> json) list" where
  "signed_checkpoint hm fa io records last_hmac previous =
     (let c = unsigned_checkpoint fa io records last_hmac previous
      in c @ [(''checkpoint_hmac'', JStr (checkpoint_digest hm fa c))])"

lemma checkpoint_line_eq: "checkpoint_line hm fa io r l p = dumps False (JObj (signed_checkpoint hm fa io r l p))"
  by (simp add: checkpoint_line_def signed_checkpoint_def Let_def)

lemma json_wf_signed_checkpoint: "json_wf (JObj (signed_checkpoint hm fa io r l p))"
  by (simp add: signed_checkpoint_def unsigned_checkpoint_def Let_def)

text \<open>What the reader gets back: the same fields, in key order.\<close>

definition sorted_obj :: "(string \<times> json) list \<Rightarrow> (string \<times> json) list" where
  "sorted_obj c = map (\<lambda>p. (fst p, norm (snd p))) (sort_key fst c)"

lemma norm_sorted_obj: "norm (JObj c) = JObj (sorted_obj c)"
  unfolding sorted_obj_def by (rule norm_JObj)

lemma keys_sorted_obj: "set (keys (sorted_obj c)) = set (keys c)"
  by (simp add: sorted_obj_def image_image)

lemma map_of_sorted_obj: "distinct (keys c) \<Longrightarrow> map_of (sorted_obj c) k = map_option norm (map_of c k)"
  unfolding sorted_obj_def by (simp only: map_of_map_snd map_of_sort_key)

lemma delete_sorted_obj: "AList.delete k (sorted_obj c) = sorted_obj (AList.delete k c)"
  by (simp add: sorted_obj_def AList.delete_eq filter_map o_def case_prod_unfold filter_sort)

lemma canonical_sorted_obj: "canonical_bytes (sorted_obj c) = canonical_bytes c"
  unfolding canonical_bytes_def norm_sorted_obj [symmetric] by (simp only: dumps_norm)

lemma loads_obj: "json_wf (JObj c) \<Longrightarrow> loads (dumps False (JObj c)) = Some (JObj (sorted_obj c))"
  using loads_dumps [of "JObj c" False] by (simp only: norm_sorted_obj)

lemma dumps_obj_nonempty: "dumps False (JObj c) \<noteq> []"
  by simp

lemma signed_checkpoint_fields:
  fixes hm fa io r l p
  defines "c \<equiv> sorted_obj (signed_checkpoint hm fa io r l p)"
  shows "map_of c ''version'' = Some (JInt 1)" "map_of c ''checkpoint_id'' = Some (JStr (ck_uuid io))"
    "map_of c ''timestamp'' = Some (JStr (ck_now io))" "map_of c ''audit_log_id'' = Some (JStr (fa_audit_log_id fa))"
    "map_of c ''records'' = Some (JInt r)" "map_of c ''last_hmac'' = Some (JStr l)"
    "map_of c ''previous_checkpoint_hmac'' = Some (JStr p)"
    "map_of c ''checkpoint_hmac'' = Some (JStr (checkpoint_digest hm fa (unsigned_checkpoint fa io r l p)))"
    "set (keys c) = set expected_keys"
    "checkpoint_digest hm fa (AList.delete ''checkpoint_hmac'' c) = checkpoint_digest hm fa (unsigned_checkpoint fa io r l p)"
proof -
  have d: "distinct (keys (signed_checkpoint hm fa io r l p))"
    using json_wf_signed_checkpoint [of hm fa io r l p] by simp
  note f = c_def map_of_sorted_obj [OF d]
  show "map_of c ''version'' = Some (JInt 1)" "map_of c ''checkpoint_id'' = Some (JStr (ck_uuid io))"
    "map_of c ''timestamp'' = Some (JStr (ck_now io))" "map_of c ''audit_log_id'' = Some (JStr (fa_audit_log_id fa))"
    "map_of c ''records'' = Some (JInt r)" "map_of c ''last_hmac'' = Some (JStr l)"
    "map_of c ''previous_checkpoint_hmac'' = Some (JStr p)"
    "map_of c ''checkpoint_hmac'' = Some (JStr (checkpoint_digest hm fa (unsigned_checkpoint fa io r l p)))"
    unfolding f by (simp_all add: signed_checkpoint_def unsigned_checkpoint_def Let_def)
  show "set (keys c) = set expected_keys"
    unfolding c_def keys_sorted_obj by (auto simp: signed_checkpoint_def unsigned_checkpoint_def expected_keys_def Let_def)
  have "AList.delete ''checkpoint_hmac'' (signed_checkpoint hm fa io r l p) = unsigned_checkpoint fa io r l p"
    by (simp add: signed_checkpoint_def unsigned_checkpoint_def Let_def)
  then show "checkpoint_digest hm fa (AList.delete ''checkpoint_hmac'' c) = checkpoint_digest hm fa (unsigned_checkpoint fa io r l p)"
    by (simp add: c_def delete_sorted_obj checkpoint_digest_def canonical_sorted_obj)
qed

lemma scan_one_checkpoint:
  assumes "\<And>k m. length (hm k m) = 32" "uuid_ok (ck_uuid io)" "ck_uuid io \<notin> set ids" "fromiso (ck_now io) = Some True"
    and "av_records v < r" "0 \<le> r" "length l = 64" "fromhex l" "r = 0 \<longrightarrow> l = genesis_hmac"
  shows "scan_checkpoints hm fromiso fa n ids v [checkpoint_line hm fa io r l (av_last_checkpoint_hmac v)] =
    Inr \<lparr>av_checkpoints = av_checkpoints v + 1, av_records = r, av_last_hmac = l, av_last_checkpoint_hmac =
      checkpoint_digest hm fa (unsigned_checkpoint fa io r l (av_last_checkpoint_hmac v))\<rparr>"
proof -
  let ?p = "av_last_checkpoint_hmac v"
  let ?c = "sorted_obj (signed_checkpoint hm fa io r l ?p)"
  note f = signed_checkpoint_fields [of hm fa io r l ?p]
  have "loads (checkpoint_line hm fa io r l ?p) = Some (JObj ?c)"
    unfolding checkpoint_line_eq by (rule loads_obj [OF json_wf_signed_checkpoint])
  then have d: "decode_checkpoint n (checkpoint_line hm fa io r l ?p) = Inr ?c"
    using f(1,9) by (simp add: decode_checkpoint_def checkpoint_line_eq version_is_1_def del: dumps.simps)
      (simp add: dumps_JObj del: dumps.simps)
  have i: "validate_checkpoint_identity fromiso fa n ids ?c = Inr (ck_uuid io)"
    unfolding validate_checkpoint_identity_def f using assms(2-4) by (simp add: validate_timestamp_def)
  have mac: "length (checkpoint_digest hm fa c) = 64 \<and> fromhex (checkpoint_digest hm fa c) \<and> is_ascii (checkpoint_digest hm fa c)" for c
    using keyed_digest_ok [OF assms(1)] by (simp add: checkpoint_digest_def)
  have "check_checkpoint hm fa n (av_records v) ?p ?c = Inr (r, l, checkpoint_digest hm fa (unsigned_checkpoint fa io r l ?p))"
    unfolding check_checkpoint_def check_Inr f using assms(5-9) mac by auto
  with d i show ?thesis by simp
qed

definition fresh_id :: "string \<Rightarrow> string \<Rightarrow> string \<Rightarrow> bool" where
  "fresh_id k i content \<longleftrightarrow>
     (\<forall>l \<in> set (text_lines content). case loads l of Some (JObj c) \<Rightarrow> str_field k c \<noteq> i | _ \<Rightarrow> True)"

lemma fresh_idD: "fresh_id k i content \<Longrightarrow> Some (JObj c) \<in> loads ` set (text_lines content) \<Longrightarrow> str_field k c \<noteq> i"
proof -
  assume f: "fresh_id k i content" "Some (JObj c) \<in> loads ` set (text_lines content)"
  then obtain l where "l \<in> set (text_lines content)" "loads l = Some (JObj c)" by (auto simp: image_iff)
  with f(1) show "str_field k c \<noteq> i" by (fastforce simp: fresh_id_def)
qed

lemma anchor_verify_text:
  "anchor_verify hm fromiso fa (Anchor_text t) = Inr v \<longleftrightarrow>
     t \<noteq> [] \<and> last t = NL \<and> scan_checkpoints hm fromiso fa 1 [] initial_anchor (text_lines t) = Inr v"
  by (simp add: anchor_verify_def assert_safe_anchor_path_def ends_with_newline_def)

lemma anchor_verify_nonneg:
  assumes "anchor_verify hm fromiso fa (Anchor_text t) = Inr v"
  shows "0 \<le> av_records v"
proof -
  from assms scan_checkpoints_ok obtain cs where cs: "map loads (text_lines t) = map (\<lambda>c. Some (JObj c)) cs"
    "v = scan_state initial_anchor cs" "sorted_wrt (<) (av_records initial_anchor # map (int_field ''records'') cs)"
    unfolding anchor_verify_text by blast
  have "text_lines t \<noteq> []" using assms text_lines_nonempty by (simp add: anchor_verify_text)
  then have "cs \<noteq> []" using cs(1) by auto
  then have "av_records initial_anchor < int_field ''records'' (last cs)" using cs(3) by simp
  with cs(2) \<open>cs \<noteq> []\<close> show ?thesis by (simp add: scan_state_def initial_anchor_def)
qed

lemma checkpoint_line_no_newline: "NL \<notin> set (checkpoint_line hm fa io r l p)" "CR \<notin> set (checkpoint_line hm fa io r l p)"
  unfolding checkpoint_line_eq by (rule dumps_no_newline [OF json_wf_signed_checkpoint])+

lemma anchor_verify_after_append:
  assumes "\<And>k m. length (hm k m) = 32" "anchor_verify hm fromiso fa (Anchor_text t) = Inr v"
    and "uuid_ok (ck_uuid io)" "fresh_id ''checkpoint_id'' (ck_uuid io) t" "fromiso (ck_now io) = Some True"
    and "av_records v < r" "0 < r" "length l = 64" "fromhex l"
  shows "anchor_verify hm fromiso fa (Anchor_text (t @ checkpoint_line hm fa io r l (av_last_checkpoint_hmac v) @ [NL])) =
    Inr \<lparr>av_checkpoints = av_checkpoints v + 1, av_records = r, av_last_hmac = l, av_last_checkpoint_hmac =
      checkpoint_digest hm fa (unsigned_checkpoint fa io r l (av_last_checkpoint_hmac v))\<rparr>"
proof -
  let ?l = "checkpoint_line hm fa io r l (av_last_checkpoint_hmac v)"
  from assms(2) have t: "t \<noteq> []" "last t = NL" and sc: "scan_checkpoints hm fromiso fa 1 [] initial_anchor (text_lines t) = Inr v"
    by (simp_all add: anchor_verify_text)
  obtain ids where "ck_uuid io \<notin> set ids" "scan_checkpoints hm fromiso fa 1 [] initial_anchor (text_lines t @ [?l]) =
      scan_checkpoints hm fromiso fa (1 + length (text_lines t)) ids v [?l]"
    using scan_checkpoints_append [OF sc, of "[ck_uuid io]" "[?l]"] fresh_idD [OF assms(4)] by auto
  then show ?thesis
    using scan_one_checkpoint [of hm io ids fromiso v r l fa "1 + length (text_lines t)"] assms t
      text_lines_append_line [of t ?l] checkpoint_line_no_newline
    by (simp add: anchor_verify_text)
qed

lemma anchor_verify_first:
  assumes "\<And>k m. length (hm k m) = 32" "uuid_ok (ck_uuid io)" "fromiso (ck_now io) = Some True"
    and "0 \<le> r" "length l = 64" "fromhex l" "r = 0 \<longrightarrow> l = genesis_hmac"
  shows "anchor_verify hm fromiso fa (Anchor_text (checkpoint_line hm fa io r l genesis_hmac @ [NL])) =
    Inr \<lparr>av_checkpoints = 1, av_records = r, av_last_hmac = l, av_last_checkpoint_hmac =
      checkpoint_digest hm fa (unsigned_checkpoint fa io r l genesis_hmac)\<rparr>"
proof -
  have "text_lines (checkpoint_line hm fa io r l genesis_hmac @ [NL]) = [checkpoint_line hm fa io r l genesis_hmac]"
    using text_lines_append_line [of "[]" "checkpoint_line hm fa io r l genesis_hmac"] checkpoint_line_no_newline
    by (simp add: text_lines_def)
  then show ?thesis
    using scan_one_checkpoint [of hm io "[]" fromiso initial_anchor r l fa 1] assms
    by (simp add: anchor_verify_text initial_anchor_def)
qed

section \<open>Properties\<close>

text \<open>A checkpoint that was written completely is accepted: appending to a verified anchor a larger record count with
  a well-formed audit HMAC leaves the old text, adds one line, and returns the verification of the new
  file, in which the last checkpoint is the new one.\<close>

theorem anchor_append_roundtrip:
  assumes "\<And>k m. length (hm k m) = 32" "anchor_verify hm fromiso fa (Anchor_text t) = Inr v"
    and "uuid_ok (ck_uuid io)" "fresh_id ''checkpoint_id'' (ck_uuid io) t" "fromiso (ck_now io) = Some True"
    and "av_records v < r" "0 < r" "length l = 64" "fromhex l" "ck_write io = Write_ok"
  shows "\<exists>line mac. anchor_append hm fromiso fa io r l (Anchor_text t) =
    (Inr \<lparr>av_checkpoints = av_checkpoints v + 1, av_records = r, av_last_hmac = l, av_last_checkpoint_hmac = mac\<rparr>,
     Anchor_text (t @ line @ [NL]))"
  using anchor_verify_after_append [of hm fromiso fa t v io r l] assms
  by (simp add: anchor_append_def validate_state_def validate_hex_digest_def append_checkpoint_def
      assert_safe_anchor_path_def anchor_content_def)

text \<open>The checkpoint chain is tamper-evident: two anchor files that verify under the same key with the same number
  of checkpoints and the same last checkpoint HMAC hold the same checkpoints, unless the MAC clashes.\<close>

theorem anchor_tamper_evident:
  assumes "anchor_verify hm fromiso fa (Anchor_text t) = Inr v" "anchor_verify hm fromiso fa (Anchor_text u) = Inr w"
    and "av_checkpoints v = av_checkpoints w" "av_last_checkpoint_hmac v = av_last_checkpoint_hmac w"
  shows "\<exists>cs ds. map loads (text_lines t) = map (\<lambda>c. Some (JObj c)) cs \<and>
    map loads (text_lines u) = map (\<lambda>c. Some (JObj c)) ds \<and>
    (list_all2 (same_object ''checkpoint_hmac'') cs ds \<or>
     (\<exists>x \<in> set cs. \<exists>y \<in> set ds. mac_clash hm (fa_key fa)
        (framed ''audit-anchor-checkpoint-v1'' (canonical_bytes (unsigned ''checkpoint_hmac'' x)))
        (framed ''audit-anchor-checkpoint-v1'' (canonical_bytes (unsigned ''checkpoint_hmac'' y)))))"
proof -
  have anchored: "\<exists>cs. map loads (text_lines x) = map (\<lambda>c. Some (JObj c)) cs \<and> anchor_chained genesis_hmac cs \<and>
      list_all (anchor_signed hm fa) cs \<and> av_checkpoints y = int (length cs) \<and>
      av_last_checkpoint_hmac y = last_mac (str_field ''checkpoint_hmac'') genesis_hmac cs"
    if y: "anchor_verify hm fromiso fa (Anchor_text x) = Inr y" for x y
  proof -
    from y scan_checkpoints_ok obtain cs where cs: "map loads (text_lines x) = map (\<lambda>c. Some (JObj c)) cs"
      "anchor_chained genesis_hmac cs" "list_all (anchor_signed hm fa) cs" "y = scan_state initial_anchor cs"
      unfolding anchor_verify_text initial_anchor_def by fastforce
    have "text_lines x \<noteq> []" using y text_lines_nonempty by (simp add: anchor_verify_text)
    then have "cs \<noteq> []" using cs(1) by auto
    with cs show ?thesis by (auto simp: scan_state_def initial_anchor_def last_mac_last)
  qed
  from anchored [OF assms(1)] anchored [OF assms(2)] obtain cs ds where
    c: "map loads (text_lines t) = map (\<lambda>c. Some (JObj c)) cs" "anchor_chained genesis_hmac cs"
      "list_all (anchor_signed hm fa) cs" "av_checkpoints v = int (length cs)"
      "av_last_checkpoint_hmac v = last_mac (str_field ''checkpoint_hmac'') genesis_hmac cs"
    and d: "map loads (text_lines u) = map (\<lambda>c. Some (JObj c)) ds" "anchor_chained genesis_hmac ds"
      "list_all (anchor_signed hm fa) ds" "av_checkpoints w = int (length ds)"
      "av_last_checkpoint_hmac w = last_mac (str_field ''checkpoint_hmac'') genesis_hmac ds"
    by metis
  have "list_all2 (same_object ''checkpoint_hmac'') cs ds \<or>
     (\<exists>x \<in> set cs. \<exists>y \<in> set ds. mac_clash hm (fa_key fa)
        (framed ''audit-anchor-checkpoint-v1'' (canonical_bytes (unsigned ''checkpoint_hmac'' x)))
        (framed ''audit-anchor-checkpoint-v1'' (canonical_bytes (unsigned ''checkpoint_hmac'' y))))"
    by (rule signed_chain.chain_determined [OF _ c(2) d(2) c(3) d(3)]) (use assms(3,4) c d in simp_all)
  with c(1) d(1) show ?thesis by blast
qed

section \<open>Examples\<close>

definition ex_fa :: file_anchor where
  "ex_fa = \<lparr>fa_key = replicate 32 (CHR ''a''), fa_audit_log_id = genesis_hmac\<rparr>"

definition ex_ck :: "string \<Rightarrow> checkpoint_io" where
  "ex_ck u = \<lparr>ck_uuid = u, ck_now = iso_utc 0, ck_write = Write_ok\<rparr>"

text \<open>A reader of timestamps that knows the texts \<open>isoformat\<close> prints for whole seconds in UTC.\<close>

definition ex_fromiso :: "string \<Rightarrow> bool option" where
  "ex_fromiso s = (if length s = 25 then Some (drop 19 s = ''+00:00'') else None)"

abbreviation uuid_a :: string where "uuid_a \<equiv> ''11111111-1111-4111-8111-111111111111''"
abbreviation uuid_b :: string where "uuid_b \<equiv> ''22222222-2222-4222-8222-222222222222''"

lemma ex_uuids: "uuid_ok uuid_a" "uuid_ok uuid_b"
  by code_simp+

lemma ex_now: "ex_fromiso (iso_utc 0) = Some True"
  by code_simp

definition ex_anchor :: string where
  "ex_anchor = checkpoint_line toy_mac ex_fa (ex_ck uuid_a) 0 genesis_hmac genesis_hmac @ [NL]"

lemma ex_anchor_verify:
  "\<exists>mac. anchor_verify toy_mac ex_fromiso ex_fa (Anchor_text ex_anchor) =
     Inr \<lparr>av_checkpoints = 1, av_records = 0, av_last_hmac = genesis_hmac, av_last_checkpoint_hmac = mac\<rparr>"
  unfolding ex_anchor_def
  by (subst anchor_verify_first) (simp_all add: ex_ck_def ex_uuids ex_now)

lemma ex_fresh_other: "i \<noteq> uuid_a \<Longrightarrow> fresh_id ''checkpoint_id'' i ex_anchor"
proof -
  assume i: "i \<noteq> uuid_a"
  let ?l = "checkpoint_line toy_mac ex_fa (ex_ck uuid_a) 0 genesis_hmac genesis_hmac"
  have "text_lines ex_anchor = [?l]"
    using text_lines_append_line [of "[]" ?l] checkpoint_line_no_newline by (simp add: ex_anchor_def text_lines_def)
  moreover have "loads ?l = Some (JObj (sorted_obj (signed_checkpoint toy_mac ex_fa (ex_ck uuid_a) 0 genesis_hmac genesis_hmac)))"
    unfolding checkpoint_line_eq by (rule loads_obj [OF json_wf_signed_checkpoint])
  ultimately show ?thesis
    using signed_checkpoint_fields(2) [of toy_mac ex_fa "ex_ck uuid_a" 0 genesis_hmac genesis_hmac]
    by (simp add: fresh_id_def str_field_def ex_ck_def i [symmetric])
qed

lemma ex_fresh: "fresh_id ''checkpoint_id'' uuid_b ex_anchor"
  by (rule ex_fresh_other) simp

theorem anchor_append_roundtrip_witness:
  "\<exists>v f. anchor_append toy_mac ex_fromiso ex_fa (ex_ck uuid_b) 3 genesis_hmac (Anchor_text ex_anchor) = (Inr v, f) \<and>
     av_checkpoints v = 2 \<and> av_records v = 3"
proof -
  obtain mac where v: "anchor_verify toy_mac ex_fromiso ex_fa (Anchor_text ex_anchor) =
     Inr \<lparr>av_checkpoints = 1, av_records = 0, av_last_hmac = genesis_hmac, av_last_checkpoint_hmac = mac\<rparr>"
    using ex_anchor_verify by blast
  from anchor_append_roundtrip [OF length_toy_mac v, of "ex_ck uuid_b" 3 genesis_hmac]
  show ?thesis using ex_fresh ex_uuids ex_now by (auto simp: ex_ck_def)
qed

theorem anchor_tamper_evident_witness:
  "\<exists>cs ds. map loads (text_lines ex_anchor) = map (\<lambda>c. Some (JObj c)) cs \<and>
     map loads (text_lines ex_anchor) = map (\<lambda>c. Some (JObj c)) ds \<and>
     (list_all2 (same_object ''checkpoint_hmac'') cs ds \<or>
      (\<exists>x \<in> set cs. \<exists>y \<in> set ds. mac_clash toy_mac (fa_key ex_fa)
        (framed ''audit-anchor-checkpoint-v1'' (canonical_bytes (unsigned ''checkpoint_hmac'' x)))
        (framed ''audit-anchor-checkpoint-v1'' (canonical_bytes (unsigned ''checkpoint_hmac'' y)))))"
proof -
  obtain v where v: "anchor_verify toy_mac ex_fromiso ex_fa (Anchor_text ex_anchor) = Inr v"
    using ex_anchor_verify by blast
  show ?thesis by (rule anchor_tamper_evident [OF v v refl refl])
qed

end
