(* ===== verification/Audit_Log.thy ===== *)
theory Audit_Log
  imports Audit_Anchor
begin

text \<open>
  audit.py: the summary of a payload, the projection of an event, the HMAC-chained log and its optional
  external anchor. The log file is its decoded text. An event is the mapping the gateway builds: optional
  text fields, an optional agent, optional error, arguments and output values, and further fields. Both lock
  files are part of the environment of a call (\<open>audit_env\<close>): the lock is acquired, or its acquisition
  fails with a message. A write of the log may fail after some characters; the code then raises out of the
  lock's context manager, which turns the \<open>OSError\<close> into a lock error.
\<close>

section \<open>Summaries\<close>

definition type_name :: "json \<Rightarrow> string" where
  "type_name v = (case v of JNull \<Rightarrow> ''null'' | JBool _ \<Rightarrow> ''boolean'' | JInt _ \<Rightarrow> ''number'' | JFloat _ \<Rightarrow> ''number''
     | JStr _ \<Rightarrow> ''string'' | JObj _ \<Rightarrow> ''object'' | JArr _ \<Rightarrow> ''array'')"

definition json_bytes :: "json \<Rightarrow> bytes" where
  "json_bytes v = utf8 (dumps False v)"

definition number_field :: "(string \<times> json) list \<Rightarrow> string \<Rightarrow> (string \<times> json) list" where
  "number_field kvs k =
     (case map_of kvs k of Some (JBool b) \<Rightarrow> [(k, JBool b)] | Some (JInt i) \<Rightarrow> [(k, JInt i)] | _ \<Rightarrow> [])"

definition length_field :: "(string \<times> json) list \<Rightarrow> string \<Rightarrow> string \<Rightarrow> (string \<times> json) list" where
  "length_field kvs k name = (case map_of kvs k of Some (JArr xs) \<Rightarrow> [(name, JInt (int (length xs)))] | _ \<Rightarrow> [])"

definition change_metadata :: "(string \<times> json) list \<Rightarrow> (string \<times> json) list" where
  "change_metadata changes =
     concat (map (\<lambda>k. length_field changes k (k @ ''_count'')) [''added'', ''modified'', ''deleted'']) @
     (case map_of changes ''truncated'' of Some (JBool b) \<Rightarrow> [(''truncated'', JBool b)] | _ \<Rightarrow> [])"

definition payload_metadata :: "(string \<times> json) list \<Rightarrow> (string \<times> json) list" where
  "payload_metadata kvs =
     concat (map (number_field kvs) [''returncode'', ''truncated'', ''workspace_isolated'']) @
     length_field kvs ''command'' ''command_argv_items'' @
     (case map_of kvs ''workspace_changes'' of
        Some (JObj changes) \<Rightarrow>
          (let m = change_metadata changes in if m = [] then [] else [(''workspace_changes'', JObj m)])
      | _ \<Rightarrow> [])"

definition summarize_payload :: "hmac_fn \<Rightarrow> bytes \<Rightarrow> json \<Rightarrow> (string \<times> json) list" where
  "summarize_payload hm key v =
     (let encoded = json_bytes v in
      [(''type'', JStr (type_name v)), (''canonical_bytes'', JInt (int (length encoded))),
       (''hmac_sha256'', JStr (keyed_digest hm key ''audit-payload-v1'' encoded))] @
      (case v of
         JObj kvs \<Rightarrow>
           (let ks = sort (map (\<lambda>p. safe_text 128 (fst p)) kvs); m = payload_metadata kvs in
            [(''key_count'', JInt (int (length ks))), (''keys'', JArr (map JStr (take 64 ks))),
             (''keys_truncated'', JBool (64 < length ks))] @
            (if m = [] then [] else [(''metadata'', JObj m)]))
       | JArr xs \<Rightarrow> [(''items'', JInt (int (length xs)))]
       | _ \<Rightarrow> []))"

section \<open>Events\<close>

record event_agent =
  ea_provider :: "string option"
  ea_model :: "string option"
  ea_session_id :: "string option"

record audit_event =
  ev_task_id :: "string option"
  ev_agent :: "event_agent option"
  ev_capability :: "string option"
  ev_status :: "string option"
  ev_reason :: "string option"
  ev_error :: "json option"
  ev_arguments :: "json option"
  ev_output :: "json option"
  ev_extras :: "(string \<times> json) list"

definition opt_text :: "string \<Rightarrow> nat \<Rightarrow> string option \<Rightarrow> (string \<times> json) list" where
  "opt_text name limit v = (case v of None \<Rightarrow> [] | Some s \<Rightarrow> [(name, JStr (safe_text limit s))])"

definition opt_summary :: "hmac_fn \<Rightarrow> bytes \<Rightarrow> string \<Rightarrow> json option \<Rightarrow> (string \<times> json) list" where
  "opt_summary hm key name v = (case v of None \<Rightarrow> [] | Some x \<Rightarrow> [(name, JObj (summarize_payload hm key x))])"

definition project_agent :: "hmac_fn \<Rightarrow> bytes \<Rightarrow> event_agent \<Rightarrow> (string \<times> json) list" where
  "project_agent hm key a =
     opt_text ''provider'' 64 (ea_provider a) @ opt_text ''model'' 128 (ea_model a) @
     (case ea_session_id a of None \<Rightarrow> []
      | Some s \<Rightarrow> [(''session_id_hmac'', JStr (keyed_digest hm key ''audit-session-v1'' (utf8 s)))])"

definition project_audit_event :: "hmac_fn \<Rightarrow> bytes \<Rightarrow> audit_event \<Rightarrow> (string \<times> json) list" where
  "project_audit_event hm key ev =
     opt_text ''task_id'' 256 (ev_task_id ev) @ opt_text ''capability'' 256 (ev_capability ev) @
     opt_text ''status'' 256 (ev_status ev) @
     (case ev_agent ev of None \<Rightarrow> []
      | Some a \<Rightarrow> (let p = project_agent hm key a in if p = [] then [] else [(''agent'', JObj p)])) @
     opt_text ''reason'' 512 (ev_reason ev) @
     opt_summary hm key ''error_summary'' (case ev_error ev of Some JNull \<Rightarrow> None | e \<Rightarrow> e) @
     opt_summary hm key ''arguments_summary'' (ev_arguments ev) @
     opt_summary hm key ''output_summary'' (ev_output ev) @
     (if ev_extras ev = [] then [] else [(''extra_summary'', JObj (summarize_payload hm key (JObj (ev_extras ev))))])"

text \<open>The projection serialises the error, the arguments, the output and the further fields with \<open>allow_nan=False\<close>: it raises
  a \<open>ValueError\<close> when one of them holds \<open>NaN\<close> or an infinity.\<close>

definition event_finite :: "audit_event \<Rightarrow> bool" where
  "event_finite ev \<longleftrightarrow> pred_option finite_json (ev_error ev) \<and> pred_option finite_json (ev_arguments ev) \<and>
     pred_option finite_json (ev_output ev) \<and> finite_json (JObj (ev_extras ev))"

section \<open>The log\<close>

datatype log_file = No_log | Not_a_file | Log_text string

record audit_verification =
  avf_records :: int
  avf_last_hmac :: string
  avf_anchor_checkpoints :: "int option"

record audit_log =
  al_key :: bytes
  al_anchor :: "file_anchor option"

record audit_files =
  af_log :: log_file
  af_anchor :: anchor_file

text \<open>The environment of one call: the two locks, the random id and the clock of a new record, the outcome of
  the log write, and the two checkpoint writes a call may make.\<close>

record audit_env =
  en_lock :: "string option"
  en_anchor_lock :: "string option"
  en_uuid :: string
  en_now :: string
  en_write :: write_io
  en_heal :: checkpoint_io
  en_checkpoint :: checkpoint_io

definition audit_log_init :: "string \<Rightarrow> file_anchor option \<Rightarrow> int \<Rightarrow> audit_error + audit_log" where
  "audit_log_init key anchor lock_timeout =
     (if length (utf8 key) < 32 then Inl (Audit_value_error ''audit key must contain at least 32 UTF-8 bytes'')
      else if lock_timeout \<le> 0 then Inl (Audit_value_error ''audit lock timeout must be positive'')
      else Inr \<lparr>al_key = utf8 key, al_anchor = anchor\<rparr>)"

definition entry_hmac :: "hmac_fn \<Rightarrow> bytes \<Rightarrow> (string \<times> json) list \<Rightarrow> string" where
  "entry_hmac hm key r = keyed_digest hm key ''audit-entry-v2'' (canonical_bytes r)"

text \<open>\<open>record.get("version") != 2\<close>: \<open>2.0 == 2\<close> in Python.\<close>

definition version_is_2 :: "json option \<Rightarrow> bool" where
  "version_is_2 v \<longleftrightarrow> v = Some (JInt 2) \<or> v = Some (JFloat ''2.0'')"

text \<open>One line of the log: the record, its version, its link, its HMAC and its id, in the order of the checks.\<close>

definition check_record ::
  "hmac_fn \<Rightarrow> bytes \<Rightarrow> nat \<Rightarrow> string \<Rightarrow> string list \<Rightarrow> string \<Rightarrow> audit_error + string \<times> string" where
  "check_record hm key n previous_hmac ids line =
     (if line = [] then Inl (Audit_integrity (at_line ''blank audit record'' n))
      else case loads line of
        None \<Rightarrow> Inl (Audit_integrity (at_line ''invalid JSON audit record'' n))
      | Some (JObj r) \<Rightarrow>
          if \<not> version_is_2 (map_of r ''version'')
            then Inl (Audit_integrity (at_line ''unsupported audit record version'' n))
          else if map_of r ''previous_hmac'' \<noteq> Some (JStr previous_hmac)
            then Inl (Audit_integrity (at_line ''broken audit chain'' n))
          else (case map_of r ''entry_hmac'' of
            Some (JStr mac) \<Rightarrow>
              if \<not> finite_json (JObj (AList.delete ''entry_hmac'' r)) then Inl Audit_nonfinite
              else (case compare_digest mac (entry_hmac hm key (AList.delete ''entry_hmac'' r)) of
                 None \<Rightarrow> Inl Audit_type_error
               | Some False \<Rightarrow> Inl (Audit_integrity (at_line ''invalid audit HMAC'' n))
               | Some True \<Rightarrow>
                   (case map_of r ''audit_id'' of
                      Some (JStr i) \<Rightarrow>
                        if i \<in> set ids then Inl (Audit_integrity (at_line ''invalid or duplicate audit ID'' n))
                        else Inr (mac, i)
                    | _ \<Rightarrow> Inl (Audit_integrity (at_line ''invalid or duplicate audit ID'' n))))
          | _ \<Rightarrow> Inl (Audit_integrity (at_line ''missing audit HMAC'' n)))
      | Some _ \<Rightarrow> Inl (Audit_integrity (''audit record at line '' @ jnat n @ '' must be an object'')))"

fun scan_records ::
  "hmac_fn \<Rightarrow> bytes \<Rightarrow> int option \<Rightarrow> nat \<Rightarrow> string list \<Rightarrow> string \<Rightarrow> int \<Rightarrow> string option \<Rightarrow> string list \<Rightarrow>
   audit_error + (int \<times> string) \<times> string option" where
  "scan_records hm key target n ids previous_hmac records checkpoint_hmac [] = Inr ((records, previous_hmac), checkpoint_hmac)"
| "scan_records hm key target n ids previous_hmac records checkpoint_hmac (line # ls) =
     (case check_record hm key n previous_hmac ids line of Inl e \<Rightarrow> Inl e
      | Inr (mac, i) \<Rightarrow>
          scan_records hm key target (Suc n) (i # ids) mac (records + 1)
            (if target = Some (records + 1) then Some mac else checkpoint_hmac) ls)"

definition scan_log ::
  "hmac_fn \<Rightarrow> bytes \<Rightarrow> int option \<Rightarrow> log_file \<Rightarrow> audit_error + (int \<times> string) \<times> string option" where
  "scan_log hm key target f =
     (let checkpoint_hmac = (if target = Some 0 then Some genesis_hmac else None) in
      case f of
        No_log \<Rightarrow> Inr ((0, genesis_hmac), checkpoint_hmac)
      | Not_a_file \<Rightarrow> Inl (Audit_integrity ''audit log path is not a regular file'')
      | Log_text content \<Rightarrow>
          if content = [] then Inr ((0, genesis_hmac), checkpoint_hmac)
          else if \<not> ends_with_newline content then Inl (Audit_integrity ''audit log must end with a newline'')
          else scan_records hm key target 1 [] genesis_hmac 0 checkpoint_hmac (text_lines content))"

definition verify_log :: "hmac_fn \<Rightarrow> bytes \<Rightarrow> log_file \<Rightarrow> audit_error + int \<times> string" where
  "verify_log hm key f = (case scan_log hm key None f of Inl e \<Rightarrow> Inl e | Inr (v, _) \<Rightarrow> Inr v)"

text \<open>\<open>_verify_anchored_unlocked\<close>: the anchor is verified, the log scanned with the anchored count as target, and
  an anchor that lags behind a longer log is brought up to date.\<close>

definition verify_anchored ::
  "hmac_fn \<Rightarrow> (string \<Rightarrow> bool option) \<Rightarrow> bytes \<Rightarrow> file_anchor \<Rightarrow> checkpoint_io \<Rightarrow> audit_files \<Rightarrow>
   (audit_error + int \<times> string \<times> int) \<times> audit_files" where
  "verify_anchored hm fromiso key fa io fs =
     (case anchor_verify hm fromiso fa (af_anchor fs) of Inl e \<Rightarrow> (Inl e, fs)
      | Inr av \<Rightarrow> (case scan_log hm key (Some (av_records av)) (af_log fs) of Inl e \<Rightarrow> (Inl e, fs)
      | Inr ((records, last_hmac), anchored) \<Rightarrow>
          if records < av_records av
            then (Inl (Audit_integrity ''audit log rollback detected against external anchor''), fs)
          else (case anchored of
            None \<Rightarrow> (Inl (Audit_integrity ''audit log diverges from external anchor''), fs)
          | Some h \<Rightarrow>
              (case compare_digest h (av_last_hmac av) of
                 None \<Rightarrow> (Inl Audit_type_error, fs)
               | Some False \<Rightarrow> (Inl (Audit_integrity ''audit log diverges from external anchor''), fs)
               | Some True \<Rightarrow>
                   if av_records av < records then
                     (case anchor_append hm fromiso fa io records last_hmac (af_anchor fs) of
                        (Inl e, f') \<Rightarrow> (Inl e, fs\<lparr>af_anchor := f'\<rparr>)
                      | (Inr av', f') \<Rightarrow> (Inr (records, last_hmac, av_checkpoints av'), fs\<lparr>af_anchor := f'\<rparr>))
                   else (Inr (records, last_hmac, av_checkpoints av), fs)))))"

definition log_content :: "log_file \<Rightarrow> string" where
  "log_content f = (case f of Log_text content \<Rightarrow> content | _ \<Rightarrow> [])"

definition new_record :: "hmac_fn \<Rightarrow> bytes \<Rightarrow> audit_env \<Rightarrow> string \<Rightarrow> audit_event \<Rightarrow> (string \<times> json) list" where
  "new_record hm key env last_hmac ev =
     [(''version'', JInt 2), (''audit_id'', JStr (en_uuid env)), (''timestamp'', JStr (en_now env)),
      (''previous_hmac'', JStr last_hmac)] @ project_audit_event hm key ev"

definition record_line :: "hmac_fn \<Rightarrow> bytes \<Rightarrow> audit_env \<Rightarrow> string \<Rightarrow> audit_event \<Rightarrow> string" where
  "record_line hm key env last_hmac ev =
     (let r = new_record hm key env last_hmac ev in dumps False (JObj (r @ [(''entry_hmac'', JStr (entry_hmac hm key r))])))"

text \<open>\<open>_append_verified_unlocked\<close>: the new record's HMAC, or \<open>None\<close> when the write raised; a log that is not a
  regular file was refused by the scan before.\<close>

definition append_record ::
  "hmac_fn \<Rightarrow> bytes \<Rightarrow> audit_env \<Rightarrow> int \<times> string \<Rightarrow> audit_event \<Rightarrow> log_file \<Rightarrow> (int \<times> string) option \<times> log_file" where
  "append_record hm key env v ev f =
     (let text = record_line hm key env (snd v) ev @ [NL]; old = log_content f in
      case en_write env of
        Write_fault k \<Rightarrow> (None, Log_text (old @ take k text))
      | _ \<Rightarrow> (Some (fst v + 1, entry_hmac hm key (new_record hm key env (snd v) ev)), Log_text (old @ text)))"

section \<open>Operations\<close>

definition audit_verify ::
  "hmac_fn \<Rightarrow> (string \<Rightarrow> bool option) \<Rightarrow> audit_log \<Rightarrow> audit_env \<Rightarrow> audit_files \<Rightarrow>
   (audit_error + audit_verification) \<times> audit_files" where
  "audit_verify hm fromiso al env fs =
     (case en_lock env of Some msg \<Rightarrow> (Inl (Audit_lock msg), fs)
      | None \<Rightarrow> (case al_anchor al of
          None \<Rightarrow> (case verify_log hm (al_key al) (af_log fs) of Inl e \<Rightarrow> (Inl e, fs)
            | Inr (records, last_hmac) \<Rightarrow>
                (Inr \<lparr>avf_records = records, avf_last_hmac = last_hmac, avf_anchor_checkpoints = None\<rparr>, fs))
        | Some fa \<Rightarrow> (case en_anchor_lock env of Some msg \<Rightarrow> (Inl (Anchor_lock msg), fs)
            | None \<Rightarrow> (case verify_anchored hm fromiso (al_key al) fa (en_heal env) fs of
                (Inl e, fs') \<Rightarrow> (Inl e, fs')
              | (Inr (records, last_hmac, n), fs') \<Rightarrow>
                  (Inr \<lparr>avf_records = records, avf_last_hmac = last_hmac, avf_anchor_checkpoints = Some n\<rparr>, fs')))))"

definition bootstrap_anchor ::
  "hmac_fn \<Rightarrow> (string \<Rightarrow> bool option) \<Rightarrow> audit_log \<Rightarrow> audit_env \<Rightarrow> audit_files \<Rightarrow>
   (audit_error + audit_verification) \<times> audit_files" where
  "bootstrap_anchor hm fromiso al env fs =
     (case al_anchor al of None \<Rightarrow> (Inl (Audit_value_error ''audit anchoring is not configured''), fs)
      | Some fa \<Rightarrow> (case en_lock env of Some msg \<Rightarrow> (Inl (Audit_lock msg), fs)
      | None \<Rightarrow> (case en_anchor_lock env of Some msg \<Rightarrow> (Inl (Anchor_lock msg), fs)
      | None \<Rightarrow> (case verify_log hm (al_key al) (af_log fs) of Inl e \<Rightarrow> (Inl e, fs)
      | Inr (records, last_hmac) \<Rightarrow>
          (case anchor_bootstrap hm fromiso fa (en_checkpoint env) records last_hmac (af_anchor fs) of
             (Inl e, f') \<Rightarrow> (Inl e, fs\<lparr>af_anchor := f'\<rparr>)
           | (Inr av, f') \<Rightarrow> (Inr \<lparr>avf_records = records, avf_last_hmac = last_hmac,
               avf_anchor_checkpoints = Some (av_checkpoints av)\<rparr>, fs\<lparr>af_anchor := f'\<rparr>))))))"

definition audit_append ::
  "hmac_fn \<Rightarrow> (string \<Rightarrow> bool option) \<Rightarrow> audit_log \<Rightarrow> audit_env \<Rightarrow> audit_event \<Rightarrow> audit_files \<Rightarrow>
   (audit_error + string) \<times> audit_files" where
  "audit_append hm fromiso al env ev fs =
     (case en_lock env of Some msg \<Rightarrow> (Inl (Audit_lock msg), fs)
      | None \<Rightarrow> (case al_anchor al of
          None \<Rightarrow> (case verify_log hm (al_key al) (af_log fs) of Inl e \<Rightarrow> (Inl e, fs)
            | Inr v \<Rightarrow>
                if \<not> event_finite ev then (Inl Audit_nonfinite, fs)
                else (case append_record hm (al_key al) env v ev (af_log fs) of
                (None, f') \<Rightarrow> (Inl (Audit_lock ''audit lock is unavailable''), fs\<lparr>af_log := f'\<rparr>)
              | (Some _, f') \<Rightarrow> (Inr (en_uuid env), fs\<lparr>af_log := f'\<rparr>)))
        | Some fa \<Rightarrow> (case en_anchor_lock env of Some msg \<Rightarrow> (Inl (Anchor_lock msg), fs)
            | None \<Rightarrow> (case verify_anchored hm fromiso (al_key al) fa (en_heal env) fs of
                (Inl e, fs') \<Rightarrow> (Inl e, fs')
              | (Inr (records, last_hmac, _), fs') \<Rightarrow>
                  if \<not> event_finite ev then (Inl Audit_nonfinite, fs')
                  else (case append_record hm (al_key al) env (records, last_hmac) ev (af_log fs') of
                     (None, f') \<Rightarrow> (Inl (Anchor_lock ''audit anchor lock is unavailable''), fs'\<lparr>af_log := f'\<rparr>)
                   | (Some (records', last_hmac'), f') \<Rightarrow>
                       (case anchor_append hm fromiso fa (en_checkpoint env) records' last_hmac' (af_anchor fs') of
                          (Inl e, a') \<Rightarrow> (Inl e, \<lparr>af_log = f', af_anchor = a'\<rparr>)
                        | (Inr _, a') \<Rightarrow> (Inr (en_uuid env), \<lparr>af_log = f', af_anchor = a'\<rparr>)))))))"

section \<open>Records are well-formed objects\<close>

text \<open>A value that a record may hold: an object with distinct keys, and no \<open>NaN\<close> or infinity, at every level.\<close>

definition record_value :: "json \<Rightarrow> bool" where
  "record_value v \<longleftrightarrow> json_wf v \<and> finite_json v"

lemma record_value_simps [simp]: "record_value (JStr s)" "record_value (JInt i)" "record_value (JBool b)" "record_value JNull"
  "record_value (JArr vs) = list_all record_value vs"
  by (auto simp: record_value_def list_all_iff)

text \<open>A part of an object: keys from a list, each once, with such values.\<close>

definition part :: "string list \<Rightarrow> (string \<times> json) list \<Rightarrow> bool" where
  "part ks c \<longleftrightarrow> distinct (keys c) \<and> set (keys c) \<subseteq> set ks \<and> list_all (\<lambda>p. record_value (snd p)) c"

lemma part_append: "part ks a \<Longrightarrow> part ls b \<Longrightarrow> set ks \<inter> set ls = {} \<Longrightarrow> part (ks @ ls) (a @ b)"
  unfolding part_def by auto

lemma part_record_value: "part ks c \<Longrightarrow> record_value (JObj c)"
  by (auto simp: part_def record_value_def list_all_iff)

lemma part_Nil: "part ks []" and part_one: "record_value v \<Longrightarrow> part [k] [(k, v)]"
  by (simp_all add: part_def)

lemma part_opt_text: "part [n] (opt_text n l v)"
  by (simp add: part_def opt_text_def split: option.splits)

lemma part_number_field: "part [k] (number_field kvs k)"
  by (auto simp: part_def number_field_def split: option.splits json.splits)

lemma part_length_field: "part [n] (length_field kvs k n)"
  by (auto simp: part_def length_field_def split: option.splits json.splits)

lemma change_metadata_wf: "record_value (JObj (change_metadata changes))"
proof -
  have "part [''truncated''] (case map_of changes ''truncated'' of Some (JBool b) \<Rightarrow> [(''truncated'', JBool b)] | _ \<Rightarrow> [])"
    by (auto simp: part_def split: option.splits json.splits)
  then have "part ([''added_count''] @ [''modified_count''] @ [''deleted_count''] @ [''truncated''])
      (length_field changes ''added'' ''added_count'' @ length_field changes ''modified'' ''modified_count'' @
       length_field changes ''deleted'' ''deleted_count'' @
       (case map_of changes ''truncated'' of Some (JBool b) \<Rightarrow> [(''truncated'', JBool b)] | _ \<Rightarrow> []))"
    by (intro part_append part_length_field) simp_all
  then show ?thesis by (intro part_record_value) (simp add: change_metadata_def)
qed

lemma payload_metadata_wf: "record_value (JObj (payload_metadata kvs))"
proof -
  let ?c = "case map_of kvs ''workspace_changes'' of
        Some (JObj changes) \<Rightarrow> (let m = change_metadata changes in if m = [] then [] else [(''workspace_changes'', JObj m)]) | _ \<Rightarrow> []"
  have "part [''workspace_changes''] ?c"
    using change_metadata_wf by (auto simp: Let_def part_Nil intro: part_one split: option.splits json.splits)
  then have "part ([''returncode''] @ [''truncated''] @ [''workspace_isolated''] @ [''command_argv_items''] @ [''workspace_changes''])
      (number_field kvs ''returncode'' @ number_field kvs ''truncated'' @ number_field kvs ''workspace_isolated'' @
       length_field kvs ''command'' ''command_argv_items'' @ ?c)"
    by (intro part_append part_number_field part_length_field) simp_all
  then show ?thesis by (intro part_record_value) (simp add: payload_metadata_def)
qed

lemma summary_value: "record_value (JObj (summarize_payload hm key v))"
proof (cases v)
  case (JObj kvs)
  have "part ([''type'', ''canonical_bytes'', ''hmac_sha256'', ''key_count'', ''keys'', ''keys_truncated''] @ [''metadata''])
      ([(''type'', JStr a), (''canonical_bytes'', JInt b), (''hmac_sha256'', JStr c), (''key_count'', JInt d),
        (''keys'', JArr (map JStr e)), (''keys_truncated'', JBool f)] @
       (if payload_metadata kvs = [] then [] else [(''metadata'', JObj (payload_metadata kvs))]))" for a b c d e f
    by (rule part_append) (use payload_metadata_wf [of kvs] in \<open>auto simp: part_def list_all_iff\<close>)
  from part_record_value [OF this] show ?thesis by (simp add: summarize_payload_def JObj Let_def)
qed (simp_all add: summarize_payload_def Let_def record_value_def)

lemma part_opt_summary: "part [n] (opt_summary hm key n v)"
  using summary_value by (simp add: part_def opt_summary_def split: option.splits)

lemma project_agent_wf: "record_value (JObj (project_agent hm key a))"
proof -
  have "part ([''provider''] @ [''model''] @ [''session_id_hmac'']) (project_agent hm key a)"
    unfolding project_agent_def
    by (intro part_append part_opt_text) (auto simp: part_def split: option.splits)
  then show ?thesis by (rule part_record_value)
qed

lemma part_project_event:
  "part ([''task_id''] @ [''capability''] @ [''status''] @ [''agent''] @ [''reason''] @ [''error_summary''] @
     [''arguments_summary''] @ [''output_summary''] @ [''extra_summary'']) (project_audit_event hm key ev)"
proof -
  have a: "part [''agent''] (case ev_agent ev of None \<Rightarrow> []
      | Some a \<Rightarrow> (let p = project_agent hm key a in if p = [] then [] else [(''agent'', JObj p)]))"
    using project_agent_wf by (auto simp: Let_def part_Nil intro: part_one split: option.splits)
  have x: "part [''extra_summary''] (if ev_extras ev = [] then []
      else [(''extra_summary'', JObj (summarize_payload hm key (JObj (ev_extras ev))))])"
    using summary_value by (auto simp: part_Nil intro: part_one)
  show ?thesis unfolding project_audit_event_def
    by (intro part_append part_opt_text part_opt_summary a x) simp_all
qed

lemma new_record_value: "record_value (JObj (new_record hm key env h ev @ [(''entry_hmac'', JStr m)]))"
proof -
  have "part ([''version'', ''audit_id'', ''timestamp'', ''previous_hmac''] @ ([''task_id''] @ [''capability''] @ [''status''] @
      [''agent''] @ [''reason''] @ [''error_summary''] @ [''arguments_summary''] @ [''output_summary''] @ [''extra_summary'']) @
      [''entry_hmac'']) ([(''version'', JInt 2), (''audit_id'', JStr (en_uuid env)), (''timestamp'', JStr (en_now env)),
      (''previous_hmac'', JStr h)] @ project_audit_event hm key ev @ [(''entry_hmac'', JStr m)])"
    by (rule part_append [OF _ part_append [OF part_project_event]]) (simp_all add: part_def)
  then show ?thesis by (intro part_record_value) (simp add: new_record_def)
qed

lemma new_record_wf: "json_wf (JObj (new_record hm key env h ev @ [(''entry_hmac'', JStr m)]))"
  using new_record_value by (simp add: record_value_def del: json_wf.simps)

lemma new_record_finite: "finite_json (JObj (new_record hm key env h ev))"
  using new_record_value [of hm key env h ev "[]"] by (simp add: record_value_def)

lemma project_event_keys: "''entry_hmac'' \<notin> set (keys (project_audit_event hm key ev))"
  "''version'' \<notin> set (keys (project_audit_event hm key ev))" "''previous_hmac'' \<notin> set (keys (project_audit_event hm key ev))"
  "''audit_id'' \<notin> set (keys (project_audit_event hm key ev))"
  using part_project_event [of hm key ev] unfolding part_def by (auto simp del: set_map)

section \<open>The records of a verified log\<close>

abbreviation log_signed :: "hmac_fn \<Rightarrow> bytes \<Rightarrow> (string \<times> json) list \<Rightarrow> bool" where
  "log_signed hm key \<equiv> signed_by hm key ''audit-entry-v2'' ''entry_hmac'' ''previous_hmac''"

abbreviation log_chained :: "string \<Rightarrow> (string \<times> json) list list \<Rightarrow> bool" where
  "log_chained \<equiv> chained (str_field ''entry_hmac'') (str_field ''previous_hmac'')"

abbreviation log_last :: "string \<Rightarrow> (string \<times> json) list list \<Rightarrow> string" where
  "log_last \<equiv> last_mac (str_field ''entry_hmac'')"

lemma case_JStr: "(case v of Some (JStr s) \<Rightarrow> f s | _ \<Rightarrow> Inl e) = Inr x \<longleftrightarrow> (\<exists>s. v = Some (JStr s) \<and> f s = Inr x)"
  by (auto split: option.splits json.splits)

lemma case_JObj: "(case v of None \<Rightarrow> Inl e | Some (JObj r) \<Rightarrow> f r | Some _ \<Rightarrow> Inl e') = Inr x \<longleftrightarrow>
   (\<exists>r. v = Some (JObj r) \<and> f r = Inr x)"
  by (auto split: option.splits json.splits)

lemmas record_Inr = case_JStr case_JObj if_Inr case_compare

lemma check_record_ok:
  assumes "check_record hm key n prev ids line = Inr (mac, i)"
  shows "\<exists>r. loads line = Some (JObj r) \<and> log_signed hm key r \<and> str_field ''entry_hmac'' r = mac \<and>
    str_field ''previous_hmac'' r = prev \<and> str_field ''audit_id'' r = i \<and> i \<notin> set ids"
proof -
  from assms obtain r where r: "loads line = Some (JObj r)"
    "map_of r ''previous_hmac'' = Some (JStr prev)" "map_of r ''entry_hmac'' = Some (JStr mac)"
    "mac = entry_hmac hm key (AList.delete ''entry_hmac'' r)" "map_of r ''audit_id'' = Some (JStr i)" "i \<notin> set ids"
    unfolding check_record_def record_Inr by auto
  then show ?thesis
    using loads_wf [OF r(1)]
    by (intro exI [of _ r]) (auto simp: signed_by_def entry_hmac_def unsigned_def str_field_def simp del: json_wf.simps)
qed

definition checkpoint_at :: "int option \<Rightarrow> int \<Rightarrow> string \<Rightarrow> string option \<Rightarrow> (string \<times> json) list list \<Rightarrow> string option" where
  "checkpoint_at target records prev chk rs =
     (case target of None \<Rightarrow> chk
      | Some t \<Rightarrow> if records < t \<and> t \<le> records + int (length rs) then Some (log_last prev (take (nat (t - records)) rs)) else chk)"

lemma scan_records_ok:
  assumes "scan_records hm key target n ids prev records chk ls = Inr ((m, h), chk')"
  shows "\<exists>rs. map loads ls = map (\<lambda>r. Some (JObj r)) rs \<and> log_chained prev rs \<and> list_all (log_signed hm key) rs \<and>
    m = records + int (length rs) \<and> h = log_last prev rs \<and> chk' = checkpoint_at target records prev chk rs"
  using assms
proof (induction hm key target n ids prev records chk ls rule: scan_records.induct)
  case (2 hm key target n ids prev records chk line ls)
  from "2.prems" obtain mac i where c: "check_record hm key n prev ids line = Inr (mac, i)"
    by (auto split: sum.splits)
  from check_record_ok [OF c] obtain r where r: "loads line = Some (JObj r)" "log_signed hm key r"
    "str_field ''entry_hmac'' r = mac" "str_field ''previous_hmac'' r = prev" by blast
  let ?chk = "if target = Some (records + 1) then Some mac else chk"
  have "scan_records hm key target (Suc n) (i # ids) mac (records + 1) ?chk ls = Inr ((m, h), chk')"
    using "2.prems" c by simp
  from "2.IH" [OF c refl this] obtain rs where rs: "map loads ls = map (\<lambda>r. Some (JObj r)) rs" "log_chained mac rs"
    "list_all (log_signed hm key) rs" "m = records + 1 + int (length rs)" "h = log_last mac rs"
    "chk' = checkpoint_at target (records + 1) mac ?chk rs" by auto
  have take: "take (nat (t - records)) (r # rs) = r # take (nat (t - (records + 1))) rs" if "records < t" for t
  proof -
    have "nat (t - records) = Suc (nat (t - (records + 1)))" using that by simp
    then show ?thesis by (simp only: take_Suc_Cons)
  qed
  have "checkpoint_at target (records + 1) mac ?chk rs = checkpoint_at target records prev chk (r # rs)"
    using take r(3) by (auto simp: checkpoint_at_def split: option.splits)
  then show ?case using r rs by (intro exI [of _ "r # rs"]) auto
qed (auto simp: checkpoint_at_def split: option.splits)

lemma scan_log_ok:
  assumes "scan_log hm key target f = Inr ((m, h), chk)"
  shows "\<exists>rs. map loads (text_lines (log_content f)) = map (\<lambda>r. Some (JObj r)) rs \<and> log_chained genesis_hmac rs \<and>
    list_all (log_signed hm key) rs \<and> m = int (length rs) \<and> h = log_last genesis_hmac rs \<and>
    chk = checkpoint_at target 0 genesis_hmac (if target = Some 0 then Some genesis_hmac else None) rs"
proof (cases "log_content f = []")
  case True
  then show ?thesis using assms
    by (auto simp: scan_log_def log_content_def Let_def checkpoint_at_def text_lines_def split: log_file.splits option.splits)
next
  case False
  then obtain content where "f = Log_text content" by (cases f) (auto simp: log_content_def)
  with False assms scan_records_ok [of hm key target 1 "[]" genesis_hmac 0 _ "text_lines content" m h chk] show ?thesis
    by (auto simp: scan_log_def log_content_def Let_def split: if_splits)
qed

lemma scan_records_append:
  assumes "scan_records hm key target n ids prev records chk ls = Inr ((m, h), chk')"
    and "\<And>r. Some (JObj r) \<in> loads ` set ls \<Longrightarrow> str_field ''audit_id'' r \<noteq> i" "i \<notin> set ids"
  shows "\<exists>ids'. i \<notin> set ids' \<and> scan_records hm key target n ids prev records chk (ls @ ls') =
    scan_records hm key target (n + length ls) ids' h m chk' ls'"
  using assms
proof (induction hm key target n ids prev records chk ls rule: scan_records.induct)
  case (2 hm key target n ids prev records chk line ls)
  from "2.prems"(1) obtain mac j where c: "check_record hm key n prev ids line = Inr (mac, j)"
    by (auto split: sum.splits)
  from check_record_ok [OF c] obtain r where "loads line = Some (JObj r)" "str_field ''audit_id'' r = j" by blast
  then have "i \<notin> set (j # ids)" using "2.prems"(2) [of r] "2.prems"(3) by auto
  then show ?case using "2.IH" [OF c refl] "2.prems"(1,2) c by simp
qed auto

section \<open>A written record is read back\<close>

lemma record_line_eq:
  "record_line hm key env h ev =
     dumps False (JObj (new_record hm key env h ev @ [(''entry_hmac'', JStr (entry_hmac hm key (new_record hm key env h ev)))]))"
  by (simp add: record_line_def Let_def)

lemma finite_sorted_obj: "finite_json (JObj (sorted_obj c)) = finite_json (JObj c)"
  by (auto simp: sorted_obj_def list_all_iff finite_norm)

lemma check_new_record:
  assumes "en_uuid env \<notin> set ids"
  shows "check_record hm key n h ids (record_line hm key env h ev) =
    Inr (entry_hmac hm key (new_record hm key env h ev), en_uuid env)"
proof -
  let ?r = "new_record hm key env h ev"
  let ?s = "?r @ [(''entry_hmac'', JStr (entry_hmac hm key ?r))]"
  have wf: "json_wf (JObj ?s)" by (rule new_record_wf)
  then have d: "distinct (keys ?s)" by simp
  note look = map_of_sorted_obj [OF d]
  have "loads (record_line hm key env h ev) = Some (JObj (sorted_obj ?s))"
    unfolding record_line_eq by (rule loads_obj [OF wf])
  moreover have "record_line hm key env h ev \<noteq> []" unfolding record_line_eq by simp
  moreover have "map_of (sorted_obj ?s) ''version'' = Some (JInt 2)" "map_of (sorted_obj ?s) ''previous_hmac'' = Some (JStr h)"
    "map_of (sorted_obj ?s) ''audit_id'' = Some (JStr (en_uuid env))"
    unfolding look by (simp_all add: new_record_def)
  moreover have "''entry_hmac'' \<notin> set (keys ?r)"
    using project_event_keys(1) [of hm key ev] by (auto simp: new_record_def simp del: set_map)
  then have "map_of (sorted_obj ?s) ''entry_hmac'' = Some (JStr (entry_hmac hm key ?r))"
    "AList.delete ''entry_hmac'' ?s = ?r"
    unfolding look by (simp_all add: map_add_def map_of_eq_None_keys [THEN iffD2] AList.delete_eq filter_id_conv image_iff case_prod_unfold)
  moreover from this have "entry_hmac hm key (AList.delete ''entry_hmac'' (sorted_obj ?s)) = entry_hmac hm key ?r"
    "finite_json (JObj (AList.delete ''entry_hmac'' (sorted_obj ?s)))"
    using new_record_finite [of hm key env h ev]
    by (simp_all add: delete_sorted_obj entry_hmac_def canonical_sorted_obj finite_sorted_obj del: finite_json.simps)
  ultimately show ?thesis
    unfolding check_record_def record_Inr using assms by (simp add: entry_hmac_def version_is_2_def del: finite_json.simps)
qed

lemma record_line_no_newline: "NL \<notin> set (record_line hm key env h ev)" "CR \<notin> set (record_line hm key env h ev)"
  unfolding record_line_eq by (rule dumps_no_newline [OF new_record_wf])+

lemma scan_log_content:
  assumes "scan_log hm key target f = Inr ((m, h), chk)"
  shows "(log_content f = [] \<or> last (log_content f) = NL) \<and>
    scan_records hm key target 1 [] genesis_hmac 0 (if target = Some 0 then Some genesis_hmac else None)
      (text_lines (log_content f)) = Inr ((m, h), chk)"
  using assms by (auto simp: scan_log_def log_content_def text_lines_def ends_with_newline_def Let_def
      split: log_file.splits if_splits)

lemma scan_log_append:
  fixes hm key env h ev
  assumes "scan_log hm key target f = Inr ((m, h), chk)" "fresh_id ''audit_id'' (en_uuid env) (log_content f)"
  defines "mac \<equiv> entry_hmac hm key (new_record hm key env h ev)"
  shows "scan_log hm key target (Log_text (log_content f @ record_line hm key env h ev @ [NL])) =
    Inr ((m + 1, mac), if target = Some (m + 1) then Some mac else chk)"
proof -
  let ?l = "record_line hm key env h ev"
  note sc = scan_log_content [OF assms(1)]
  have lines: "text_lines (log_content f @ ?l @ [NL]) = text_lines (log_content f) @ [?l]"
    by (rule text_lines_append_line) (use sc record_line_no_newline in auto)
  obtain ids where i: "en_uuid env \<notin> set ids" and "scan_records hm key target 1 [] genesis_hmac 0
      (if target = Some 0 then Some genesis_hmac else None) (text_lines (log_content f) @ [?l]) =
    scan_records hm key target (1 + length (text_lines (log_content f))) ids h m chk [?l]"
    using scan_records_append [OF conjunct2 [OF sc], of "en_uuid env" "[?l]"] fresh_idD [OF assms(2)] by auto
  then show ?thesis
    using check_new_record [OF i] by (simp add: scan_log_def lines ends_with_newline_def mac_def)
qed

lemma verify_log_iff: "verify_log hm key f = Inr v \<longleftrightarrow> (\<exists>chk. scan_log hm key None f = Inr (v, chk))"
  by (auto simp: verify_log_def split: sum.splits)

text \<open>The target only decides which HMAC is remembered.\<close>

lemma scan_records_target:
  "scan_records hm key target n ids prev records chk ls = Inr (v, c) \<Longrightarrow>
     \<exists>c'. scan_records hm key target' n ids prev records chk' ls = Inr (v, c')"
  by (induction hm key target n ids prev records chk ls arbitrary: chk' rule: scan_records.induct)
    (auto split: sum.splits)

lemma scan_log_target:
  "scan_log hm key target f = Inr (v, c) \<Longrightarrow> \<exists>c'. scan_log hm key target' f = Inr (v, c')"
  using scan_records_target [of hm key target 1 "[]" genesis_hmac 0 _ _ v c target']
  by (auto simp: scan_log_def Let_def split: log_file.splits if_splits)

lemma is_ascii_log_last: "list_all (log_signed hm key) rs \<Longrightarrow> is_ascii g \<Longrightarrow> is_ascii (log_last g rs)"
proof (cases "rs = []")
  case False
  assume "list_all (log_signed hm key) rs"
  with False have "log_signed hm key (last rs)" by (simp add: list_all_iff)
  with False show ?thesis by (auto simp: last_mac_last str_field_def signed_by_def)
qed (simp add: last_mac_last)

lemma is_ascii_genesis [simp]: "is_ascii genesis_hmac"
  by (simp add: genesis_hmac_def is_ascii_def list_all_iff)

lemma verify_log_last:
  assumes "\<And>k m. length (hm k m) = 32" "scan_log hm key target f = Inr ((m, h), chk)"
  shows "length h = 64 \<and> fromhex h \<and> is_ascii h \<and> 0 \<le> m \<and> (m = 0 \<longrightarrow> h = genesis_hmac)"
proof -
  from scan_log_ok [OF assms(2)] obtain rs where rs: "list_all (log_signed hm key) rs" "m = int (length rs)"
    "h = log_last genesis_hmac rs" by blast
  show ?thesis
  proof (cases "rs = []")
    case False
    with rs have "log_signed hm key (last rs)" by (simp add: list_all_iff)
    then have "\<exists>p. h = keyed_digest hm key ''audit-entry-v2'' p"
      using rs(3) False by (auto simp: last_mac_last signed_by_def str_field_def)
    then show ?thesis using keyed_digest_ok [OF assms(1)] rs False by auto
  qed (use rs in \<open>simp add: last_mac_last\<close>)
qed

section \<open>What an append leaves behind\<close>

lemma loads_record_line:
  "\<exists>c. loads (record_line hm key env h ev) = Some (JObj c) \<and> str_field ''audit_id'' c = en_uuid env"
  using check_new_record [of env "[]" hm key 1 h ev] check_record_ok [of hm key 1 h "[]" "record_line hm key env h ev"]
  by fastforce

lemma fresh_id_append_record:
  assumes "scan_log hm key target f = Inr ((m, h), chk)" "fresh_id ''audit_id'' i (log_content f)" "i \<noteq> en_uuid env"
  shows "fresh_id ''audit_id'' i (log_content f @ record_line hm key env g ev @ [NL])"
proof -
  have "text_lines (log_content f @ record_line hm key env g ev @ [NL]) = text_lines (log_content f) @ [record_line hm key env g ev]"
    by (rule text_lines_append_line) (use scan_log_content [OF assms(1)] record_line_no_newline in auto)
  then show ?thesis using assms(2,3) loads_record_line [of hm key env g ev] by (auto simp: fresh_id_def)
qed

subsection \<open>The anchor beside it\<close>

lemma fresh_id_append_checkpoint:
  assumes "anchor_verify hm fromiso fa (Anchor_text t) = Inr av" "fresh_id ''checkpoint_id'' i t" "i \<noteq> ck_uuid io"
  shows "fresh_id ''checkpoint_id'' i (t @ checkpoint_line hm fa io r l p @ [NL])"
proof -
  let ?l = "checkpoint_line hm fa io r l p"
  have "text_lines (t @ ?l @ [NL]) = text_lines t @ [?l]"
    by (rule text_lines_append_line) (use assms(1) checkpoint_line_no_newline in \<open>auto simp: anchor_verify_text\<close>)
  moreover have "loads ?l = Some (JObj (sorted_obj (signed_checkpoint hm fa io r l p)))"
    unfolding checkpoint_line_eq by (rule loads_obj [OF json_wf_signed_checkpoint])
  ultimately show ?thesis using assms(2,3) signed_checkpoint_fields(2) [of hm fa io r l p]
    by (auto simp: fresh_id_def str_field_def)
qed

lemma fresh_after_checkpoint:
  assumes "anchor_verify hm fromiso fa (Anchor_text t) = Inr av" "\<forall>i \<in> set ids. fresh_id ''checkpoint_id'' i t" "ck_uuid io \<notin> set ids"
  shows "\<forall>i \<in> set ids. fresh_id ''checkpoint_id'' i (t @ checkpoint_line hm fa io r l p @ [NL])"
proof
  fix i assume "i \<in> set ids"
  with assms(2,3) have "fresh_id ''checkpoint_id'' i t" "i \<noteq> ck_uuid io" by auto
  then show "fresh_id ''checkpoint_id'' i (t @ checkpoint_line hm fa io r l p @ [NL])" by (rule fresh_id_append_checkpoint [OF assms(1)])
qed

text \<open>With the number of its own records as the target, the scan remembers the last HMAC.\<close>

lemma scan_log_current:
  assumes "verify_log hm key f = Inr (m, h)"
  shows "scan_log hm key (Some m) f = Inr ((m, h), Some h)"
proof -
  from assms obtain c where c: "scan_log hm key (Some m) f = Inr ((m, h), c)"
    using scan_log_target [of hm key None f "(m, h)" _ "Some m"] by (auto simp: verify_log_iff)
  from scan_log_ok [OF c] show ?thesis using c by (auto simp: checkpoint_at_def last_mac_last split: if_splits)
qed

lemma scan_log_verify: "scan_log hm key target f = Inr (v, c) \<Longrightarrow> verify_log hm key f = Inr v"
  using scan_log_target [of hm key target f v c None] by (auto simp: verify_log_iff)

lemma anchored_hmac:
  assumes "scan_log hm key (Some k) f = Inr ((m, h), Some g)"
  shows "is_ascii g \<and> k \<le> m \<and> (k = m \<longrightarrow> g = h)"
proof -
  from scan_log_ok [OF assms] obtain rs where rs: "list_all (log_signed hm key) rs" "m = int (length rs)" "h = log_last genesis_hmac rs"
    "Some g = checkpoint_at (Some k) 0 genesis_hmac (if Some k = Some 0 then Some genesis_hmac else None) rs" by blast
  then show ?thesis
    using is_ascii_log_last [of hm key "take (nat k) rs" genesis_hmac]
    by (auto simp: checkpoint_at_def list_all_iff last_mac_last split: if_splits dest: in_set_takeD)
qed

lemma verify_anchored_heals:
  assumes "\<And>k m. length (hm k m) = 32" "anchor_verify hm fromiso fa (Anchor_text t) = Inr av"
    and "af_anchor fs = Anchor_text t" "scan_log hm key (Some (av_records av)) (af_log fs) = Inr ((m, h), Some (av_last_hmac av))"
    and "av_records av < m" "uuid_ok (ck_uuid io)" "fresh_id ''checkpoint_id'' (ck_uuid io) t"
    and "fromiso (ck_now io) = Some True" "ck_write io = Write_ok"
  shows "let t' = t @ checkpoint_line hm fa io m h (av_last_checkpoint_hmac av) @ [NL] in
    verify_anchored hm fromiso key fa io fs = (Inr (m, h, av_checkpoints av + 1), fs\<lparr>af_anchor := Anchor_text t'\<rparr>) \<and>
    (\<exists>av'. anchor_verify hm fromiso fa (Anchor_text t') = Inr av' \<and> av_records av' = m \<and> av_last_hmac av' = h)"
proof -
  note last = verify_log_last [OF assms(1,4)]
  have cmp: "compare_digest (av_last_hmac av) (av_last_hmac av) = Some True" using anchored_hmac [OF assms(4)] by simp
  have pos: "0 < m" using assms(5) anchor_verify_nonneg [OF assms(2)] by simp
  note v = anchor_verify_after_append [OF assms(1,2,6,7,8,5) pos, of h]
  have "anchor_append hm fromiso fa io m h (Anchor_text t) =
      (anchor_verify hm fromiso fa (Anchor_text (t @ checkpoint_line hm fa io m h (av_last_checkpoint_hmac av) @ [NL])),
       Anchor_text (t @ checkpoint_line hm fa io m h (av_last_checkpoint_hmac av) @ [NL]))"
    using last pos assms(2,5,9)
    by (simp add: anchor_append_def validate_state_def validate_hex_digest_def append_checkpoint_def
      assert_safe_anchor_path_def anchor_content_def)
  with v last assms(2-5) cmp show ?thesis by (simp add: verify_anchored_def compare_digest_def Let_def)
qed

lemma verify_anchored_current:
  assumes "anchor_verify hm fromiso fa (af_anchor fs) = Inr av" "verify_log hm key (af_log fs) = Inr (m, h)"
    and "av_records av = m" "av_last_hmac av = h"
  shows "verify_anchored hm fromiso key fa io fs = (Inr (m, h, av_checkpoints av), fs)"
  using assms scan_log_current [OF assms(2)] anchored_hmac [OF scan_log_current [OF assms(2)]]
  by (simp add: verify_anchored_def compare_digest_def)

section \<open>A log that is ready for more records\<close>

text \<open>Nothing fails in the environment of an append: the locks are free, the writes succeed, and, with an anchor, the
  clock and the random identifiers give texts that the verification reads.\<close>

definition quiet_checkpoint :: "(string \<Rightarrow> bool option) \<Rightarrow> checkpoint_io \<Rightarrow> bool" where
  "quiet_checkpoint fromiso io \<longleftrightarrow> uuid_ok (ck_uuid io) \<and> fromiso (ck_now io) = Some True \<and> ck_write io = Write_ok"

definition quiet_env :: "(string \<Rightarrow> bool option) \<Rightarrow> audit_log \<Rightarrow> audit_env \<Rightarrow> bool" where
  "quiet_env fromiso al env \<longleftrightarrow> en_lock env = None \<and> en_write env = Write_ok \<and>
     (al_anchor al \<noteq> None \<longrightarrow> en_anchor_lock env = None \<and> quiet_checkpoint fromiso (en_heal env) \<and>
        quiet_checkpoint fromiso (en_checkpoint env))"

text \<open>The anchor is the one of this log: its last checkpoint is one of the log's records, not necessarily the last.\<close>

definition anchor_matches :: "hmac_fn \<Rightarrow> (string \<Rightarrow> bool option) \<Rightarrow> bytes \<Rightarrow> file_anchor \<Rightarrow> audit_files \<Rightarrow> bool" where
  "anchor_matches hm fromiso key fa fs \<longleftrightarrow> (\<exists>t av v. af_anchor fs = Anchor_text t \<and>
     anchor_verify hm fromiso fa (Anchor_text t) = Inr av \<and>
     scan_log hm key (Some (av_records av)) (af_log fs) = Inr (v, Some (av_last_hmac av)))"

definition checkpoint_ids :: "audit_env list \<Rightarrow> string list" where
  "checkpoint_ids envs = concat (map (\<lambda>e. [ck_uuid (en_heal e), ck_uuid (en_checkpoint e)]) envs)"

definition log_ready :: "hmac_fn \<Rightarrow> (string \<Rightarrow> bool option) \<Rightarrow> audit_log \<Rightarrow> audit_env list \<Rightarrow> audit_files \<Rightarrow> bool" where
  "log_ready hm fromiso al envs fs \<longleftrightarrow> list_all (quiet_env fromiso al) envs \<and> is_ok (verify_log hm (al_key al) (af_log fs)) \<and>
     distinct (map en_uuid envs) \<and> (\<forall>e \<in> set envs. fresh_id ''audit_id'' (en_uuid e) (log_content (af_log fs))) \<and>
     (case al_anchor al of None \<Rightarrow> True
      | Some fa \<Rightarrow> anchor_matches hm fromiso (al_key al) fa fs \<and> distinct (checkpoint_ids envs) \<and>
          (\<forall>i \<in> set (checkpoint_ids envs). fresh_id ''checkpoint_id'' i (anchor_content (af_anchor fs))))"

text \<open>The anchor, if there is one, is up to date.\<close>

definition anchor_current :: "hmac_fn \<Rightarrow> (string \<Rightarrow> bool option) \<Rightarrow> audit_log \<Rightarrow> int \<Rightarrow> string \<Rightarrow> audit_files \<Rightarrow> bool" where
  "anchor_current hm fromiso al m h fs \<longleftrightarrow> (case al_anchor al of None \<Rightarrow> True
     | Some fa \<Rightarrow> \<exists>t av. af_anchor fs = Anchor_text t \<and> anchor_verify hm fromiso fa (Anchor_text t) = Inr av \<and>
         av_records av = m \<and> av_last_hmac av = h)"

lemma anchor_current_matches:
  "anchor_current hm fromiso al m h fs \<Longrightarrow> verify_log hm (al_key al) (af_log fs) = Inr (m, h) \<Longrightarrow> al_anchor al = Some fa \<Longrightarrow>
     anchor_matches hm fromiso (al_key al) fa fs"
  using scan_log_current [of hm "al_key al" "af_log fs" m h] by (auto simp: anchor_current_def anchor_matches_def)

lemma verify_anchored_ready:
  assumes "\<And>k m. length (hm k m) = 32" "anchor_matches hm fromiso key fa fs" "verify_log hm key (af_log fs) = Inr (m, h)"
    and "quiet_checkpoint fromiso io" "\<forall>i \<in> set (ck_uuid io # ids). fresh_id ''checkpoint_id'' i (anchor_content (af_anchor fs))"
    and "ck_uuid io \<notin> set ids"
  shows "\<exists>n t av. verify_anchored hm fromiso key fa io fs = (Inr (m, h, n), fs\<lparr>af_anchor := Anchor_text t\<rparr>) \<and>
    anchor_verify hm fromiso fa (Anchor_text t) = Inr av \<and> av_records av = m \<and> av_last_hmac av = h \<and>
    (\<forall>i \<in> set ids. fresh_id ''checkpoint_id'' i t)"
proof -
  from assms(2) obtain t av v where a: "af_anchor fs = Anchor_text t" "anchor_verify hm fromiso fa (Anchor_text t) = Inr av"
    "scan_log hm key (Some (av_records av)) (af_log fs) = Inr (v, Some (av_last_hmac av))" by (auto simp: anchor_matches_def)
  have sc: "scan_log hm key (Some (av_records av)) (af_log fs) = Inr ((m, h), Some (av_last_hmac av))"
    using a(3) scan_log_verify [OF a(3)] assms(3) by simp
  have fresh: "\<forall>i \<in> set (ck_uuid io # ids). fresh_id ''checkpoint_id'' i t" using assms(5) a(1) by (simp add: anchor_content_def)
  show ?thesis
  proof (cases "av_records av < m")
    case True
    let ?t = "t @ checkpoint_line hm fa io m h (av_last_checkpoint_hmac av) @ [NL]"
    have "\<forall>i \<in> set ids. fresh_id ''checkpoint_id'' i ?t"
      using fresh_after_checkpoint [OF a(2) _ assms(6)] fresh by simp
    then show ?thesis
      using verify_anchored_heals [OF assms(1) a(2,1) sc True] fresh assms(4) by (auto simp: quiet_checkpoint_def Let_def)
  next
    case False
    then have "av_records av = m" "av_last_hmac av = h" using anchored_hmac [OF sc] by simp_all
    moreover have "fs\<lparr>af_anchor := Anchor_text t\<rparr> = fs" using a(1) by simp
    ultimately show ?thesis using verify_anchored_current [of hm fromiso fa fs av key m h io] a(1,2) assms(3) fresh by force
  qed
qed

lemma anchor_append_current:
  assumes "\<And>k m. length (hm k m) = 32" "anchor_verify hm fromiso fa (Anchor_text t) = Inr av" "av_records av = m"
    and "quiet_checkpoint fromiso io" "fresh_id ''checkpoint_id'' (ck_uuid io) t" "length l = 64" "fromhex l"
  shows "\<exists>av' p. anchor_append hm fromiso fa io (m + 1) l (Anchor_text t) =
      (Inr av', Anchor_text (t @ checkpoint_line hm fa io (m + 1) l p @ [NL])) \<and>
    anchor_verify hm fromiso fa (Anchor_text (t @ checkpoint_line hm fa io (m + 1) l p @ [NL])) = Inr av' \<and>
    av_records av' = m + 1 \<and> av_last_hmac av' = l"
  using anchor_verify_after_append [OF assms(1,2), of io "m + 1" l] anchor_verify_nonneg [OF assms(2)] assms
  by (simp add: anchor_append_def validate_state_def validate_hex_digest_def append_checkpoint_def
      assert_safe_anchor_path_def anchor_content_def quiet_checkpoint_def) force

lemma fresh_after_record:
  assumes "log_ready hm fromiso al (env # envs) fs" "verify_log hm (al_key al) (af_log fs) = Inr (m, h)"
  shows "\<forall>e \<in> set envs. fresh_id ''audit_id'' (en_uuid e) (log_content (af_log fs) @ record_line hm (al_key al) env h ev @ [NL])"
proof -
  from assms(2) obtain chk where "scan_log hm (al_key al) None (af_log fs) = Inr ((m, h), chk)" by (auto simp: verify_log_iff)
  note fresh = fresh_id_append_record [OF this]
  show ?thesis
  proof
    fix e assume e: "e \<in> set envs"
    from assms(1) have u: "en_uuid env \<notin> en_uuid ` set envs"
      "\<forall>e \<in> set envs. fresh_id ''audit_id'' (en_uuid e) (log_content (af_log fs))" by (simp_all add: log_ready_def)
    from u(1) e have "en_uuid e \<noteq> en_uuid env" by (metis imageI)
    with u(2) e show "fresh_id ''audit_id'' (en_uuid e) (log_content (af_log fs) @ record_line hm (al_key al) env h ev @ [NL])"
      by (simp add: fresh)
  qed
qed

lemma audit_append_ready:
  fixes hm al env ev h
  assumes "\<And>k m. length (hm k m) = 32" "log_ready hm fromiso al (env # envs) fs" "event_finite ev"
    and v: "verify_log hm (al_key al) (af_log fs) = Inr (m, h)"
  defines "f' \<equiv> Log_text (log_content (af_log fs) @ record_line hm (al_key al) env h ev @ [NL])"
    and "mac \<equiv> entry_hmac hm (al_key al) (new_record hm (al_key al) env h ev)"
  shows "\<exists>fs'. audit_append hm fromiso al env ev fs = (Inr (en_uuid env), fs') \<and> af_log fs' = f' \<and>
    verify_log hm (al_key al) f' = Inr (m + 1, mac) \<and> anchor_current hm fromiso al (m + 1) mac fs' \<and> log_ready hm fromiso al envs fs'"
proof -
  from assms(2) have env: "quiet_env fromiso al env" "fresh_id ''audit_id'' (en_uuid env) (log_content (af_log fs))"
    by (simp_all add: log_ready_def)
  have v': "verify_log hm (al_key al) f' = Inr (m + 1, mac)"
    using v scan_log_append [of hm "al_key al" None "af_log fs" m h _ env ev] env(2) by (auto simp: verify_log_iff f'_def mac_def)
  have rec: "append_record hm (al_key al) env (m, h) ev (af_log fs) = (Some (m + 1, mac), f')"
    using env(1) by (simp add: append_record_def quiet_env_def f'_def mac_def)
  have ready: "log_ready hm fromiso al envs \<lparr>af_log = f', af_anchor = a\<rparr>"
    if "case al_anchor al of None \<Rightarrow> True | Some fa \<Rightarrow> anchor_matches hm fromiso (al_key al) fa \<lparr>af_log = f', af_anchor = a\<rparr> \<and>
          (\<forall>i \<in> set (checkpoint_ids envs). fresh_id ''checkpoint_id'' i (anchor_content a))" for a
    using assms(2) that v' fresh_after_record [OF assms(2) v, of ev]
    by (auto simp: log_ready_def f'_def log_content_def checkpoint_ids_def split: option.splits)
  show ?thesis
  proof (cases "al_anchor al")
    case None
    then have "audit_append hm fromiso al env ev fs = (Inr (en_uuid env), \<lparr>af_log = f', af_anchor = af_anchor fs\<rparr>)"
      using env(1) v rec assms(3) by (simp add: audit_append_def quiet_env_def)
    then show ?thesis using v' ready None by (auto simp: anchor_current_def)
  next
    case (Some fa)
    let ?ids = "ck_uuid (en_checkpoint env) # checkpoint_ids envs"
    have q: "quiet_checkpoint fromiso (en_heal env)" "quiet_checkpoint fromiso (en_checkpoint env)" "en_anchor_lock env = None" "en_lock env = None"
      and i: "ck_uuid (en_heal env) \<notin> set ?ids" "ck_uuid (en_checkpoint env) \<notin> set (checkpoint_ids envs)"
      and fr: "\<forall>i \<in> set (ck_uuid (en_heal env) # ?ids). fresh_id ''checkpoint_id'' i (anchor_content (af_anchor fs))"
      and am: "anchor_matches hm fromiso (al_key al) fa fs"
      using assms(2) Some by (auto simp: log_ready_def quiet_env_def checkpoint_ids_def)
    from verify_anchored_ready [OF assms(1) am v q(1) fr i(1)] obtain n t av where
      va: "verify_anchored hm fromiso (al_key al) fa (en_heal env) fs = (Inr (m, h, n), fs\<lparr>af_anchor := Anchor_text t\<rparr>)"
      and t: "anchor_verify hm fromiso fa (Anchor_text t) = Inr av" "av_records av = m" "\<forall>i \<in> set ?ids. fresh_id ''checkpoint_id'' i t"
      by blast
    have "length mac = 64" "fromhex mac" using keyed_digest_ok [OF assms(1)] by (simp_all add: mac_def entry_hmac_def)
    from anchor_append_current [OF assms(1) t(1,2) q(2) _ this] t(3) obtain av' p where
      ap: "anchor_append hm fromiso fa (en_checkpoint env) (m + 1) mac (Anchor_text t) =
        (Inr av', Anchor_text (t @ checkpoint_line hm fa (en_checkpoint env) (m + 1) mac p @ [NL]))"
      and av': "anchor_verify hm fromiso fa (Anchor_text (t @ checkpoint_line hm fa (en_checkpoint env) (m + 1) mac p @ [NL])) = Inr av'"
        "av_records av' = m + 1" "av_last_hmac av' = mac" by auto
    let ?fs = "\<lparr>af_log = f', af_anchor = Anchor_text (t @ checkpoint_line hm fa (en_checkpoint env) (m + 1) mac p @ [NL])\<rparr>"
    have app: "audit_append hm fromiso al env ev fs = (Inr (en_uuid env), ?fs)"
      using q Some va rec ap assms(3) by (simp add: audit_append_def)
    have cur: "anchor_current hm fromiso al (m + 1) mac ?fs" using Some av' by (auto simp: anchor_current_def)
    have "anchor_matches hm fromiso (al_key al) fa ?fs" using anchor_current_matches [OF cur _ Some] v' by simp
    moreover have "\<forall>i \<in> set (checkpoint_ids envs). fresh_id ''checkpoint_id'' i (anchor_content (af_anchor ?fs))"
      using fresh_after_checkpoint [OF t(1) _ i(2)] t(3) by (simp add: anchor_content_def)
    ultimately show ?thesis using app cur v' ready Some by auto
  qed
qed

lemma log_ready_empty:
  assumes "al_anchor al = None" "list_all (quiet_env fromiso al) envs" "distinct (map en_uuid envs)"
  shows "log_ready hm fromiso al envs \<lparr>af_log = No_log, af_anchor = a\<rparr>"
  using assms by (simp add: log_ready_def verify_log_def scan_log_def log_content_def fresh_id_def text_lines_def)

section \<open>Nothing is overwritten\<close>

definition extends :: "audit_files \<Rightarrow> audit_files \<Rightarrow> bool" where
  "extends fs fs' \<longleftrightarrow> (\<exists>s. log_content (af_log fs') = log_content (af_log fs) @ s) \<and>
     (\<exists>s. anchor_content (af_anchor fs') = anchor_content (af_anchor fs) @ s)"

lemma extends_refl [simp]: "extends fs fs"
  by (simp add: extends_def)

lemma extends_trans: "extends a b \<Longrightarrow> extends b c \<Longrightarrow> extends a c"
  by (auto simp: extends_def)

lemma append_checkpoint_extends:
  "append_checkpoint hm fa io r l p f = (x, f') \<Longrightarrow> \<exists>s. anchor_content f' = anchor_content f @ s"
  by (auto simp: append_checkpoint_def anchor_content_def Let_def split: sum.splits write_io.splits)

lemma anchor_append_extends:
  "anchor_append hm fromiso fa io r l f = (x, f') \<Longrightarrow> \<exists>s. anchor_content f' = anchor_content f @ s"
  by (auto simp: anchor_append_def split: sum.splits if_splits prod.splits dest: append_checkpoint_extends)

lemma verify_anchored_extends:
  "verify_anchored hm fromiso key fa io fs = (x, fs') \<Longrightarrow> extends fs fs' \<and> af_log fs' = af_log fs"
  by (auto simp: verify_anchored_def extends_def split: sum.splits if_splits prod.splits option.splits bool.splits
      dest: anchor_append_extends)

lemma append_record_extends:
  "append_record hm key env v ev f = (x, f') \<Longrightarrow> \<exists>s. log_content f' = log_content f @ s"
  by (auto simp: append_record_def log_content_def Let_def split: write_io.splits)

lemma audit_append_extends:
  "extends fs (snd (audit_append hm fromiso al env ev fs))"
proof -
  have log: "extends x (x\<lparr>af_log := f'\<rparr>)" if "append_record hm key env v ev (af_log x) = (y, f')" for x key v y f'
    using append_record_extends [OF that] by (simp add: extends_def)
  have both: "extends x \<lparr>af_log = f', af_anchor = a'\<rparr>"
    if "append_record hm key env v ev (af_log x) = (y, f')" "anchor_append hm fromiso fa io r l (af_anchor x) = (z, a')"
    for x key v y f' fa io r l z a'
    using append_record_extends [OF that(1)] anchor_append_extends [OF that(2)] by (simp add: extends_def)
  show ?thesis
    unfolding audit_append_def
    by (auto split: option.splits sum.splits prod.splits if_splits
        intro: log both extends_trans [OF conjunct1 [OF verify_anchored_extends] log]
          extends_trans [OF conjunct1 [OF verify_anchored_extends] both]
          conjunct1 [OF verify_anchored_extends])
qed

text \<open>What a successful append wrote: one record of the event at the end of the log, under the id it returns.\<close>

lemma audit_append_ok:
  assumes "audit_append hm fromiso al env ev fs = (Inr a, fs')"
  shows "a = en_uuid env \<and> (\<exists>h. af_log fs' = Log_text (log_content (af_log fs) @ record_line hm (al_key al) env h ev @ [NL]))"
proof (cases "al_anchor al")
  case None
  then show ?thesis using assms
    by (auto simp: audit_append_def append_record_def Let_def split: option.splits sum.splits prod.splits write_io.splits if_splits)
next
  case (Some fa)
  obtain v fs1 where v: "verify_anchored hm fromiso (al_key al) fa (en_heal env) fs = (v, fs1)" by fastforce
  have "af_log fs1 = af_log fs" using verify_anchored_extends [OF v] by simp
  then show ?thesis using assms Some v
    by (auto simp: audit_append_def append_record_def Let_def split: option.splits sum.splits prod.splits write_io.splits if_splits)
qed

text \<open>An event with \<open>NaN\<close> or an infinity is never recorded.\<close>

lemma nonfinite_event_refused:
  assumes "\<not> event_finite ev"
  shows "(\<exists>e. fst (audit_append hm fromiso al env ev fs) = Inl e) \<and> af_log (snd (audit_append hm fromiso al env ev fs)) = af_log fs"
proof (cases "al_anchor al")
  case (Some fa)
  obtain v fs1 where v: "verify_anchored hm fromiso (al_key al) fa (en_heal env) fs = (v, fs1)" by fastforce
  from verify_anchored_extends [OF v] assms Some v show ?thesis by (auto simp: audit_append_def split: option.splits sum.splits)
qed (use assms in \<open>auto simp: audit_append_def split: option.splits sum.splits\<close>)

section \<open>Properties\<close>

text \<open>Whatever the locks, the writes and the anchor do, an append never changes what the log and the anchor already
  hold: both files are extended at the end or left alone, on success and on every error.\<close>

theorem audit_append_only:
  "extends fs (snd (audit_append hm fromiso al env ev fs))"
  by (rule audit_append_extends)

text \<open>C11. A record that was written is verified: when nothing fails in the environment, an append to a log that verifies, and
  whose anchor, if one is configured, holds a checkpoint of it, returns the random id it was given, adds exactly the line of
  the event's record, linked to the old head, and the next verification reports one more record with the HMAC of that
  record as the head, and leaves both files as they are.\<close>

theorem audit_append_roundtrip:
  assumes "\<And>k m. length (hm k m) = 32" "log_ready hm fromiso al [env] fs" "event_finite ev"
    and "verify_log hm (al_key al) (af_log fs) = Inr (m, h)" "en_lock later = None" "en_anchor_lock later = None"
  shows "\<exists>fs' n. audit_append hm fromiso al env ev fs = (Inr (en_uuid env), fs') \<and>
    af_log fs' = Log_text (log_content (af_log fs) @ record_line hm (al_key al) env h ev @ [NL]) \<and>
    audit_verify hm fromiso al later fs' = (Inr \<lparr>avf_records = m + 1,
      avf_last_hmac = entry_hmac hm (al_key al) (new_record hm (al_key al) env h ev), avf_anchor_checkpoints = n\<rparr>, fs') \<and>
    (n = None \<longleftrightarrow> al_anchor al = None)"
proof -
  obtain fs' where f: "audit_append hm fromiso al env ev fs = (Inr (en_uuid env), fs')"
    "af_log fs' = Log_text (log_content (af_log fs) @ record_line hm (al_key al) env h ev @ [NL])"
    "verify_log hm (al_key al) (af_log fs') = Inr (m + 1, entry_hmac hm (al_key al) (new_record hm (al_key al) env h ev))"
    "anchor_current hm fromiso al (m + 1) (entry_hmac hm (al_key al) (new_record hm (al_key al) env h ev)) fs'"
    using audit_append_ready [OF assms(1-4)] by force
  show ?thesis
  proof (cases "al_anchor al")
    case (Some fa)
    then obtain av where "anchor_verify hm fromiso fa (af_anchor fs') = Inr av" "av_records av = m + 1"
      "av_last_hmac av = entry_hmac hm (al_key al) (new_record hm (al_key al) env h ev)"
      using f(4) by (auto simp: anchor_current_def)
    from verify_anchored_current [OF this(1) f(3) this(2,3)] show ?thesis using f Some assms(5,6) by (simp add: audit_verify_def)
  qed (use f assms(5) in \<open>simp add: audit_verify_def\<close>)
qed

text \<open>C10. The log is tamper-evident: two logs that verify under the same key with the same number of records and the same
  last HMAC hold the same records, unless the MAC clashes on two of them.\<close>

theorem audit_log_tamper_evident:
  assumes "verify_log hm key f = Inr (m, h)" "verify_log hm key g = Inr (m, h)"
  shows "\<exists>rs qs. map loads (text_lines (log_content f)) = map (\<lambda>r. Some (JObj r)) rs \<and>
    map loads (text_lines (log_content g)) = map (\<lambda>r. Some (JObj r)) qs \<and>
    (list_all2 (same_object ''entry_hmac'') rs qs \<or>
     (\<exists>x \<in> set rs. \<exists>y \<in> set qs. mac_clash hm key
        (framed ''audit-entry-v2'' (canonical_bytes (unsigned ''entry_hmac'' x)))
        (framed ''audit-entry-v2'' (canonical_bytes (unsigned ''entry_hmac'' y)))))"
proof -
  from assms(1) scan_log_ok obtain rs where rs: "map loads (text_lines (log_content f)) = map (\<lambda>r. Some (JObj r)) rs"
    "log_chained genesis_hmac rs" "list_all (log_signed hm key) rs" "m = int (length rs)" "h = log_last genesis_hmac rs"
    unfolding verify_log_iff by blast
  from assms(2) scan_log_ok obtain qs where qs: "map loads (text_lines (log_content g)) = map (\<lambda>r. Some (JObj r)) qs"
    "log_chained genesis_hmac qs" "list_all (log_signed hm key) qs" "m = int (length qs)" "h = log_last genesis_hmac qs"
    unfolding verify_log_iff by blast
  have "length rs = length qs" "log_last genesis_hmac rs = log_last genesis_hmac qs" using rs qs by simp_all
  from signed_chain.chain_determined [OF this(1) rs(2) qs(2) rs(3) qs(3) this(2)] rs(1) qs(1) show ?thesis by blast
qed

text \<open>C12. The anchor protects history: when a log is accepted against an anchor whose last checkpoint was taken of a log
  with \<open>k\<close> records, the accepted log has at least \<open>k\<close> records and its first \<open>k\<close> are the records of that
  log, unless the MAC clashes. A log that was truncated below the checkpoint or rewritten is refused.\<close>

theorem anchored_history_kept:
  assumes "verify_log hm key f = Inr (k, h)"
    and "anchor_verify hm fromiso fa (af_anchor fs) = Inr av" "av_records av = k" "av_last_hmac av = h"
    and "verify_anchored hm fromiso key fa io fs = (Inr (m, h', n), fs')"
  shows "k \<le> m \<and> (\<exists>rs qs. map loads (text_lines (log_content f)) = map (\<lambda>r. Some (JObj r)) rs \<and>
    map loads (text_lines (log_content (af_log fs))) = map (\<lambda>r. Some (JObj r)) qs \<and> nat k \<le> length qs \<and>
    (list_all2 (same_object ''entry_hmac'') rs (take (nat k) qs) \<or>
     (\<exists>x \<in> set rs. \<exists>y \<in> set qs. mac_clash hm key
        (framed ''audit-entry-v2'' (canonical_bytes (unsigned ''entry_hmac'' x)))
        (framed ''audit-entry-v2'' (canonical_bytes (unsigned ''entry_hmac'' y))))))"
proof -
  from assms(5,2-4) obtain chk where sc: "scan_log hm key (Some k) (af_log fs) = Inr ((m, h'), Some h)" and km: "k \<le> m"
    by (auto simp: verify_anchored_def compare_digest_def split: sum.splits if_splits option.splits bool.splits prod.splits)
  from assms(1) scan_log_ok obtain rs where rs: "map loads (text_lines (log_content f)) = map (\<lambda>r. Some (JObj r)) rs"
    "log_chained genesis_hmac rs" "list_all (log_signed hm key) rs" "k = int (length rs)" "h = log_last genesis_hmac rs"
    unfolding verify_log_iff by blast
  from scan_log_ok [OF sc] obtain qs where qs: "map loads (text_lines (log_content (af_log fs))) = map (\<lambda>r. Some (JObj r)) qs"
    "log_chained genesis_hmac qs" "list_all (log_signed hm key) qs" "m = int (length qs)"
    "Some h = checkpoint_at (Some k) 0 genesis_hmac (if Some k = Some 0 then Some genesis_hmac else None) qs" by blast
  have len: "nat k = length rs" "length rs \<le> length qs" using rs(4) qs(4) km by simp_all
  have "log_last genesis_hmac (take (length rs) qs) = log_last genesis_hmac (take (length rs) rs)"
    using qs(5) rs(4,5) qs(4) km by (auto simp: checkpoint_at_def split: if_splits)
  then have "list_all2 (same_object ''entry_hmac'') (take (length rs) rs) (take (length rs) qs) \<or>
     (\<exists>x \<in> set rs. \<exists>y \<in> set qs. mac_clash hm key
        (framed ''audit-entry-v2'' (canonical_bytes (unsigned ''entry_hmac'' x)))
        (framed ''audit-entry-v2'' (canonical_bytes (unsigned ''entry_hmac'' y))))"
    by (intro signed_chain.prefix_determined [OF _ _ rs(2) qs(2) rs(3) qs(3)]) (use len in simp_all)
  with rs(1) qs(1) len km show ?thesis by auto
qed

text \<open>C13. A crash between the log write and the checkpoint write heals: when the log has grown beyond a matching anchor,
  the next verification succeeds, reports all records, and brings the anchor up to the end of the log.\<close>

theorem lagging_anchor_heals:
  assumes "\<And>k m. length (hm k m) = 32" "anchor_verify hm fromiso fa (Anchor_text t) = Inr av"
    and "af_anchor fs = Anchor_text t" "scan_log hm key (Some (av_records av)) (af_log fs) = Inr ((m, h), Some (av_last_hmac av))"
    and "av_records av < m" "uuid_ok (ck_uuid io)" "fresh_id ''checkpoint_id'' (ck_uuid io) t"
    and "fromiso (ck_now io) = Some True" "ck_write io = Write_ok"
  shows "\<exists>fs' av'. verify_anchored hm fromiso key fa io fs = (Inr (m, h, av_checkpoints av + 1), fs') \<and>
    af_log fs' = af_log fs \<and> anchor_verify hm fromiso fa (af_anchor fs') = Inr av' \<and>
    av_records av' = m \<and> av_last_hmac av' = h"
  using verify_anchored_heals [OF assms] by (auto simp: Let_def)

section \<open>Examples\<close>

definition ex_key :: bytes where
  "ex_key = replicate 32 (CHR ''k'')"

definition ex_env :: audit_env where
  "ex_env = \<lparr>en_lock = None, en_anchor_lock = None, en_uuid = uuid_a, en_now = iso_utc 0, en_write = Write_ok,
     en_heal = ex_ck uuid_b, en_checkpoint = ex_ck uuid_b\<rparr>"

definition ex_event :: audit_event where
  "ex_event = \<lparr>ev_task_id = Some ''task-0001'', ev_agent = None, ev_capability = Some ''process.run'',
     ev_status = Some ''completed'', ev_reason = None, ev_error = None, ev_arguments = Some (JObj [(''path'', JStr ''a'')]),
     ev_output = None, ev_extras = []\<rparr>"

definition ex_log :: log_file where
  "ex_log = Log_text (record_line toy_mac ex_key ex_env genesis_hmac ex_event @ [NL])"

lemma fresh_id_Nil [simp]: "fresh_id k i []"
  by (simp add: fresh_id_def text_lines_def)

lemma scan_No_log: "scan_log hm key target No_log = Inr ((0, genesis_hmac), if target = Some 0 then Some genesis_hmac else None)"
  by (simp add: scan_log_def)

lemma ex_log_scan:
  "\<exists>mac. scan_log toy_mac ex_key (Some 0) ex_log = Inr ((1, mac), Some genesis_hmac) \<and> verify_log toy_mac ex_key ex_log = Inr (1, mac)"
  using scan_log_append [OF scan_No_log, of ex_env toy_mac ex_key "Some 0" ex_event]
    scan_log_append [OF scan_No_log, of ex_env toy_mac ex_key None ex_event]
  by (auto simp: ex_log_def log_content_def verify_log_def)

text \<open>An empty log with its anchor.\<close>

definition ex_anchored :: audit_log where
  "ex_anchored = \<lparr>al_key = ex_key, al_anchor = Some ex_fa\<rparr>"

definition ex_files :: audit_files where
  "ex_files = \<lparr>af_log = No_log, af_anchor = Anchor_text ex_anchor\<rparr>"

abbreviation uuid_c :: string where "uuid_c \<equiv> ''33333333-3333-4333-8333-333333333333''"
abbreviation uuid_d :: string where "uuid_d \<equiv> ''44444444-4444-4444-8444-444444444444''"

lemma ex_uuids2: "uuid_ok uuid_c" "uuid_ok uuid_d"
  by code_simp+

lemma ex_anchor_matches: "anchor_matches toy_mac ex_fromiso ex_key ex_fa ex_files"
  using ex_anchor_verify by (auto simp: anchor_matches_def ex_files_def scan_No_log)

lemma ex_ready:
  assumes "list_all (quiet_env ex_fromiso ex_anchored) envs" "distinct (map en_uuid envs)" "distinct (checkpoint_ids envs)"
    and "uuid_a \<notin> set (checkpoint_ids envs)"
  shows "log_ready toy_mac ex_fromiso ex_anchored envs ex_files"
proof -
  have "\<forall>i \<in> set (checkpoint_ids envs). fresh_id ''checkpoint_id'' i ex_anchor" using ex_fresh_other assms(4) by metis
  then show ?thesis using assms ex_anchor_matches
    by (auto simp: log_ready_def ex_anchored_def ex_files_def anchor_content_def verify_log_def scan_No_log log_content_def)
qed

definition ex_append_env :: audit_env where
  "ex_append_env = ex_env\<lparr>en_heal := ex_ck uuid_b, en_checkpoint := ex_ck uuid_c\<rparr>"

theorem audit_append_roundtrip_witness:
  "\<exists>fs' n. audit_append toy_mac ex_fromiso ex_anchored ex_append_env ex_event ex_files = (Inr uuid_a, fs') \<and>
    audit_verify toy_mac ex_fromiso ex_anchored ex_append_env fs' = (Inr \<lparr>avf_records = 1,
      avf_last_hmac = entry_hmac toy_mac ex_key (new_record toy_mac ex_key ex_append_env genesis_hmac ex_event),
      avf_anchor_checkpoints = Some n\<rparr>, fs')"
proof -
  have r: "log_ready toy_mac ex_fromiso ex_anchored [ex_append_env] ex_files"
    by (rule ex_ready) (auto simp: quiet_env_def quiet_checkpoint_def ex_append_env_def ex_env_def ex_ck_def ex_uuids ex_uuids2 ex_now
        checkpoint_ids_def)
  have f: "event_finite ex_event" by (simp add: event_finite_def ex_event_def)
  have v: "verify_log toy_mac (al_key ex_anchored) (af_log ex_files) = Inr (0, genesis_hmac)"
    by (simp add: verify_log_def scan_No_log ex_files_def)
  from audit_append_roundtrip [OF length_toy_mac r f v, of ex_append_env] show ?thesis
    by (auto simp: ex_append_env_def ex_env_def ex_anchored_def)
qed

theorem audit_log_tamper_evident_witness:
  "\<exists>rs. map loads (text_lines (log_content ex_log)) = map (\<lambda>r. Some (JObj r)) rs"
proof -
  obtain mac where "verify_log toy_mac ex_key ex_log = Inr (1, mac)" using ex_log_scan by blast
  from audit_log_tamper_evident [OF this this] show ?thesis by blast
qed

theorem anchored_history_kept_witness:
  "\<exists>m h n fs. verify_anchored toy_mac ex_fromiso ex_key ex_fa (ex_ck uuid_b)
      \<lparr>af_log = No_log, af_anchor = Anchor_text ex_anchor\<rparr> = (Inr (m, h, n), fs) \<and> 0 \<le> m"
proof -
  obtain mac where v: "anchor_verify toy_mac ex_fromiso ex_fa (Anchor_text ex_anchor) =
     Inr \<lparr>av_checkpoints = 1, av_records = 0, av_last_hmac = genesis_hmac, av_last_checkpoint_hmac = mac\<rparr>"
    using ex_anchor_verify by blast
  let ?fs = "\<lparr>af_log = No_log, af_anchor = Anchor_text ex_anchor\<rparr>"
  have l: "verify_log toy_mac ex_key No_log = Inr (0, genesis_hmac)" by (simp add: verify_log_def scan_No_log)
  have a: "verify_anchored toy_mac ex_fromiso ex_key ex_fa (ex_ck uuid_b) ?fs = (Inr (0, genesis_hmac, 1), ?fs)"
    by (simp add: verify_anchored_def v scan_No_log compare_digest_def)
  have "0 \<le> (0::int)"
    using anchored_history_kept [OF l, of ex_fromiso ex_fa ?fs, OF _ _ _ a] v by auto
  with a show ?thesis by blast
qed

theorem lagging_anchor_heals_witness:
  "\<exists>fs' h. verify_anchored toy_mac ex_fromiso ex_key ex_fa (ex_ck uuid_b)
      \<lparr>af_log = ex_log, af_anchor = Anchor_text ex_anchor\<rparr> = (Inr (1, h, 2), fs')"
proof -
  obtain mac where v: "anchor_verify toy_mac ex_fromiso ex_fa (Anchor_text ex_anchor) =
     Inr \<lparr>av_checkpoints = 1, av_records = 0, av_last_hmac = genesis_hmac, av_last_checkpoint_hmac = mac\<rparr>"
    using ex_anchor_verify by blast
  obtain h where "scan_log toy_mac ex_key (Some 0) ex_log = Inr ((1, h), Some genesis_hmac)" using ex_log_scan by blast
  then show ?thesis
    using lagging_anchor_heals [OF length_toy_mac v, of "\<lparr>af_log = ex_log, af_anchor = Anchor_text ex_anchor\<rparr>" ex_key 1 h "ex_ck uuid_b"]
      ex_fresh ex_uuids ex_now by (auto simp: ex_ck_def)
qed

end
