(* ===== verification/File_Lock.thy ===== *)
theory File_Lock
  imports Audit_Log
begin

text \<open>
  The process lock of the audit log and of the anchor (\<open>_process_lock\<close> in audit.py and audit_anchor.py): the checks
  of the lock file, and the loop that polls for the lock until a deadline. Times are in milliseconds. What the
  operating system answers is the environment of a call; \<open>le_attempt i\<close> is the outcome of the \<open>i\<close>-th
  attempt, \<open>le_clock 0\<close> the reading that sets the deadline and \<open>le_clock (Suc i)\<close> the one after attempt
  \<open>i\<close>. The loop is written with fuel; \<open>lock_loop_ends\<close> shows how much is always enough.
\<close>

datatype attempt = Acquired | Contended | Failed_attempt

text \<open>A lock file as \<open>_verify_lock_file_identity\<close> sees it: whether the open descriptor is a regular file, whether
  the path is a link now, whether both are the same file; \<open>None\<close> when a system call raises.\<close>

record lock_identity =
  li_regular :: bool
  li_link :: bool
  li_same :: bool

record lock_env =
  le_mkdir_fault :: bool
  le_path :: file_kind
  le_open_fault :: bool
  le_before :: "lock_identity option"
  le_init_fault :: bool
  le_attempt :: "nat \<Rightarrow> attempt"
  le_clock :: "nat \<Rightarrow> int"
  le_after :: "lock_identity option"

definition poll_interval :: int where
  "poll_interval = 50"

definition lock_path_error :: "string \<Rightarrow> file_kind \<Rightarrow> string option" where
  "lock_path_error name k =
     (case k of Symbolic_link \<Rightarrow> Some (name @ '' lock file cannot be a symbolic link'')
      | Other_kind \<Rightarrow> Some (name @ '' lock path is not a regular file'')
      | _ \<Rightarrow> None)"

definition lock_identity_error :: "string \<Rightarrow> lock_identity option \<Rightarrow> string option" where
  "lock_identity_error name i =
     (case i of None \<Rightarrow> Some (name @ '' lock is unavailable'')
      | Some x \<Rightarrow>
          if \<not> li_regular x then Some (name @ '' lock path is not a regular file'')
          else if li_link x then Some (name @ '' lock file cannot be a symbolic link'')
          else if \<not> li_same x then Some (name @ '' lock file changed during open'')
          else None)"

text \<open>The polling loop: \<open>None\<close> when the fuel is used up, otherwise the error message or success.\<close>

fun lock_loop :: "string \<Rightarrow> (nat \<Rightarrow> attempt) \<Rightarrow> (nat \<Rightarrow> int) \<Rightarrow> int \<Rightarrow> nat \<Rightarrow> nat \<Rightarrow> (string + unit) option" where
  "lock_loop name attempts clock deadline 0 i = None"
| "lock_loop name attempts clock deadline (Suc fuel) i =
     (case attempts i of
        Acquired \<Rightarrow> Some (Inr ())
      | Failed_attempt \<Rightarrow> Some (Inl (name @ '' lock acquisition failed''))
      | Contended \<Rightarrow>
          if deadline - clock (Suc i) \<le> 0 then Some (Inl (name @ '' lock acquisition timed out''))
          else lock_loop name attempts clock deadline fuel (Suc i))"

definition process_lock :: "string \<Rightarrow> int \<Rightarrow> nat \<Rightarrow> lock_env \<Rightarrow> (string + unit) option" where
  "process_lock name lock_timeout fuel env =
     (if le_mkdir_fault env then Some (Inl (name @ '' lock directory is unavailable''))
      else case lock_path_error name (le_path env) of Some msg \<Rightarrow> Some (Inl msg)
      | None \<Rightarrow>
        if le_open_fault env then Some (Inl (name @ '' lock file is unavailable''))
        else case lock_identity_error name (le_before env) of Some msg \<Rightarrow> Some (Inl msg)
        | None \<Rightarrow>
          if le_init_fault env then Some (Inl (name @ '' lock is unavailable''))
          else case lock_loop name (le_attempt env) (le_clock env) (le_clock env 0 + lock_timeout) fuel 0 of
            None \<Rightarrow> None
          | Some (Inl msg) \<Rightarrow> Some (Inl msg)
          | Some (Inr _) \<Rightarrow>
              (case lock_identity_error name (le_after env) of Some msg \<Rightarrow> Some (Inl msg) | None \<Rightarrow> Some (Inr ())))"

definition audit_process_lock :: "int \<Rightarrow> nat \<Rightarrow> lock_env \<Rightarrow> (string + unit) option" where
  "audit_process_lock = process_lock ''audit''"

definition anchor_process_lock :: "int \<Rightarrow> nat \<Rightarrow> lock_env \<Rightarrow> (string + unit) option" where
  "anchor_process_lock = process_lock ''audit anchor''"

text \<open>What the operating system promises about \<open>time.sleep(min(0.05, remaining))\<close>: the clock does not run backwards
  and a sleep lasts at least as long as asked.\<close>

definition sleeps :: "(nat \<Rightarrow> int) \<Rightarrow> int \<Rightarrow> bool" where
  "sleeps clock deadline \<longleftrightarrow> clock 0 \<le> clock 1 \<and>
     (\<forall>i. 0 < deadline - clock (Suc i) \<longrightarrow>
        clock (Suc i) + min poll_interval (deadline - clock (Suc i)) \<le> clock (Suc (Suc i)))"

lemma remaining_shrinks:
  assumes "sleeps clock (clock 0 + t)" "\<forall>j < i. 0 < clock 0 + t - clock (Suc j)"
  shows "clock 0 + t - clock (Suc i) \<le> max (t - poll_interval * int i) 0"
  using assms(2)
proof (induction i)
  case 0
  then show ?case using assms(1) by (auto simp: sleeps_def max_def)
next
  case (Suc i)
  let ?r = "clock 0 + t - clock (Suc i)"
  have "clock (Suc i) + min poll_interval ?r \<le> clock (Suc (Suc i))"
    using assms(1) Suc.prems by (simp add: sleeps_def)
  moreover have "?r \<le> max (t - poll_interval * int i) 0" using Suc by simp
  ultimately show ?case by (simp add: poll_interval_def min_def max_def algebra_simps split: if_splits)
qed

lemma lock_loop_ends:
  assumes "sleeps clock (clock 0 + t)" "t \<le> poll_interval * int n"
    and "\<forall>j < i. 0 < clock 0 + t - clock (Suc j)" "n < i + fuel"
  shows "lock_loop name attempts clock (clock 0 + t) fuel i \<noteq> None"
  using assms(3,4)
proof (induction fuel arbitrary: i)
  case 0
  then have "n < i" by simp
  then have "0 < clock 0 + t - clock (Suc n)" using 0 by simp
  moreover have "clock 0 + t - clock (Suc n) \<le> max (t - poll_interval * int n) 0"
    using 0 \<open>n < i\<close> by (intro remaining_shrinks [OF assms(1)]) simp
  ultimately show ?case using assms(2) by simp
next
  case (Suc fuel)
  show ?case
  proof (cases "attempts i = Contended \<and> 0 < clock 0 + t - clock (Suc i)")
    case True
    then have "\<forall>j < Suc i. 0 < clock 0 + t - clock (Suc j)" using Suc.prems(1) less_Suc_eq by auto
    with Suc.IH [of "Suc i"] Suc.prems(2) True show ?thesis by simp
  next
    case False
    then show ?thesis by (cases "attempts i") auto
  qed
qed

section \<open>Properties\<close>

text \<open>C36. Waiting for the lock ends: as long as sleeping takes the time it was asked for, the polling loop gives a result
  after at most one attempt more than the number of poll intervals in the timeout, whatever the other
  processes do.\<close>

theorem process_lock_terminates:
  assumes "0 < lock_timeout" "sleeps (le_clock env) (le_clock env 0 + lock_timeout)"
    and "nat lock_timeout div 50 + 1 < fuel"
  shows "process_lock name lock_timeout fuel env \<noteq> None"
proof -
  let ?n = "nat lock_timeout div 50 + 1"
  have "lock_timeout \<le> poll_interval * int ?n"
  proof -
    have "nat lock_timeout \<le> 50 * ?n" by (simp add: mult.commute)
    then have "int (nat lock_timeout) \<le> int (50 * ?n)" by (simp only: of_nat_le_iff)
    then show ?thesis using assms(1) by (simp add: poll_interval_def)
  qed
  then have "lock_loop name (le_attempt env) (le_clock env) (le_clock env 0 + lock_timeout) fuel 0 \<noteq> None"
    by (rule lock_loop_ends [OF assms(2)]) (use assms(3) in simp_all)
  then show ?thesis
    by (auto simp: process_lock_def split: option.splits sum.splits)
qed

text \<open>A clock that a call can see: attempt after attempt another process holds the lock.\<close>

definition ex_lock :: lock_env where
  "ex_lock = \<lparr>le_mkdir_fault = False, le_path = Absent, le_open_fault = False,
     le_before = Some \<lparr>li_regular = True, li_link = False, li_same = True\<rparr>, le_init_fault = False,
     le_attempt = (\<lambda>_. Contended), le_clock = (\<lambda>i. 50 * int i),
     le_after = Some \<lparr>li_regular = True, li_link = False, li_same = True\<rparr>\<rparr>"

theorem process_lock_terminates_witness:
  "process_lock ''audit'' 120 4 ex_lock \<noteq> None \<and>
   process_lock ''audit'' 120 4 ex_lock = Some (Inl ''audit lock acquisition timed out'')"
proof -
  have "sleeps (le_clock ex_lock) (le_clock ex_lock 0 + 120)"
    by (simp add: sleeps_def ex_lock_def poll_interval_def)
  with process_lock_terminates [of 120 ex_lock 4 "''audit''"]
  have "process_lock ''audit'' 120 4 ex_lock \<noteq> None" by simp
  moreover have "process_lock ''audit'' 120 4 ex_lock = Some (Inl ''audit lock acquisition timed out'')"
    by (simp add: process_lock_def ex_lock_def lock_path_error_def lock_identity_error_def numeral_eq_Suc)
  ultimately show ?thesis by simp
qed

end
