(* ===== verification/Audit_Runtime.thy ===== *)
theory Audit_Runtime
  imports File_Lock
begin

text \<open>
  audit_runtime.py: the audit log as the settings describe it. The resolution of a path to its normal form
  (\<open>os.path.normcase(path.resolve())\<close>) depends on the file system and is a parameter.
\<close>

record audit_settings =
  st_shared_secret :: string
  st_audit_key :: string
  st_audit_log :: string
  st_audit_anchor_log :: "string option"
  st_audit_anchor_key :: "string option"

text \<open>\<open>path.parent / f"{path.name}.lock"\<close> for a path without a trailing separator.\<close>

definition lock_path :: "string \<Rightarrow> string" where
  "lock_path path = path @ ''.lock''"

definition default_lock_timeout :: int where
  "default_lock_timeout = 5000"

definition create_configured_audit_log ::
  "hmac_fn \<Rightarrow> (string \<Rightarrow> string) \<Rightarrow> audit_settings \<Rightarrow> audit_error + audit_log" where
  "create_configured_audit_log hm normalized s =
     (if (st_audit_anchor_log s \<noteq> None) \<noteq> (st_audit_anchor_key s \<noteq> None)
        then Inl (Audit_value_error ''audit anchor path and key must be configured together'')
      else case (st_audit_anchor_log s, st_audit_anchor_key s) of
        (Some path, Some key) \<Rightarrow>
          (case compare_digest key (st_shared_secret s) of None \<Rightarrow> Inl Audit_type_error
           | Some True \<Rightarrow> Inl (Audit_value_error ''audit anchor key must be independent from runtime secrets'')
           | Some False \<Rightarrow>
          (case compare_digest key (st_audit_key s) of None \<Rightarrow> Inl Audit_type_error
           | Some True \<Rightarrow> Inl (Audit_value_error ''audit anchor key must be independent from runtime secrets'')
           | Some False \<Rightarrow>
             if {normalized (st_audit_log s), normalized (lock_path (st_audit_log s))} \<inter>
                {normalized path, normalized (lock_path path)} \<noteq> {}
               then Inl (Audit_value_error ''audit log, audit anchor, and lock paths must not overlap'')
             else (case derive_audit_log_id hm (st_audit_key s) of Inl e \<Rightarrow> Inl e
             | Inr log_id \<Rightarrow> (case file_anchor_init key log_id default_lock_timeout of Inl e \<Rightarrow> Inl e
             | Inr fa \<Rightarrow> audit_log_init (st_audit_key s) (Some fa) default_lock_timeout))))
      | _ \<Rightarrow> audit_log_init (st_audit_key s) None default_lock_timeout)"

text \<open>A configured anchor is independent of the log it protects: when the settings yield an audit log with an anchor,
  the anchor's key is neither the shared secret nor the audit key, both keys have at least 32 bytes, and no
  file of the anchor is a file of the log.\<close>

theorem configured_anchor_independent:
  assumes "create_configured_audit_log hm normalized s = Inr al" "al_anchor al = Some fa"
  shows "\<exists>path key. st_audit_anchor_log s = Some path \<and> st_audit_anchor_key s = Some key \<and> fa_key fa = utf8 key \<and>
    al_key al = utf8 (st_audit_key s) \<and> key \<noteq> st_shared_secret s \<and> key \<noteq> st_audit_key s \<and>
    32 \<le> length (fa_key fa) \<and> 32 \<le> length (al_key al) \<and>
    normalized (st_audit_log s) \<noteq> normalized path \<and> normalized (lock_path (st_audit_log s)) \<noteq> normalized (lock_path path)"
proof (cases "st_audit_anchor_log s")
  case None
  with assms show ?thesis by (auto simp: create_configured_audit_log_def audit_log_init_def split: if_splits)
next
  case (Some path)
  then obtain key where key: "st_audit_anchor_key s = Some key"
    using assms(1) by (auto simp: create_configured_audit_log_def split: if_splits)
  have "key \<noteq> st_shared_secret s" "key \<noteq> st_audit_key s"
    "{normalized (st_audit_log s), normalized (lock_path (st_audit_log s))} \<inter> {normalized path, normalized (lock_path path)} = {}"
    and "\<exists>log_id fa'. file_anchor_init key log_id default_lock_timeout = Inr fa' \<and>
      audit_log_init (st_audit_key s) (Some fa') default_lock_timeout = Inr al"
    using assms(1) unfolding create_configured_audit_log_def
    by (auto simp: Some key compare_digest_def split: option.splits bool.splits if_splits sum.splits)
  moreover from this(4) assms(2) have "fa_key fa = utf8 key" "al_key al = utf8 (st_audit_key s)"
    "32 \<le> length (utf8 key)" "32 \<le> length (utf8 (st_audit_key s))"
    by (auto simp: file_anchor_init_def audit_log_init_def split: if_splits sum.splits)
  ultimately show ?thesis using Some key by auto
qed

definition ex_settings :: audit_settings where
  "ex_settings = \<lparr>st_shared_secret = replicate 32 (CHR ''s''), st_audit_key = replicate 32 (CHR ''k''),
     st_audit_log = ''/a/log'', st_audit_anchor_log = Some ''/b/anchor'', st_audit_anchor_key = Some (replicate 32 (CHR ''a''))\<rparr>"

theorem configured_anchor_independent_witness:
  "\<exists>al fa. create_configured_audit_log toy_mac (\<lambda>p. p) ex_settings = Inr al \<and> al_anchor al = Some fa \<and> 32 \<le> length (fa_key fa)"
proof -
  have u: "utf8 (replicate 32 (CHR ''k'')) = replicate 32 (CHR ''k'')" "utf8 (replicate 32 (CHR ''a'')) = replicate 32 (CHR ''a'')"
    by (simp_all add: utf8_def utf8_char_def numeral_eq_Suc)
  have a: "is_ascii (replicate n c) \<longleftrightarrow> n = 0 \<or> (of_char c :: nat) < 0x80" for n c
    by (auto simp: is_ascii_def list_all_iff)
  have r: "replicate 32 (CHR ''a'') \<noteq> replicate 32 (CHR ''s'')" "replicate 32 (CHR ''a'') \<noteq> replicate 32 (CHR ''k'')"
    by (simp_all add: numeral_eq_Suc)
  obtain al fa where c: "create_configured_audit_log toy_mac (\<lambda>p. p) ex_settings = Inr al" "al_anchor al = Some fa"
    using r by (simp add: create_configured_audit_log_def ex_settings_def compare_digest_def a lock_path_def
        derive_audit_log_id_def u file_anchor_init_def validate_hex_digest_def keyed_digest_ok default_lock_timeout_def
        audit_log_init_def)
  from configured_anchor_independent [OF c] c show ?thesis by blast
qed

end
