(* ===== verification/File_System.thy ===== *)
theory File_System
  imports Prelude "HOL-Library.Sublist"
begin

text \<open>
  The file tree the executor and the sandbox work on, and the parts of \<open>pathlib\<close> and \<open>os.path\<close> they
  use. A directory holds its entries in the order \<open>scandir\<close> returns them; an absolute path is the list
  of its components. \<open>realpath\<close> follows \<open>posixpath.realpath\<close> component by component: it expands
  symbolic links, steps back on \<open>..\<close>, and gives up on a link that is already being expanded.
  \<open>resolve_inside\<close> is paths.py.
\<close>

section \<open>Trees\<close>

datatype node = File bytes | Link string | Special | Dir "(string \<times> node) list"

type_synonym path = "string list"

fun lookup :: "path \<Rightarrow> node \<Rightarrow> node option" where
  "lookup [] n = Some n"
| "lookup (c # p) (Dir es) = (case map_of es c of None \<Rightarrow> None | Some m \<Rightarrow> lookup p m)"
| "lookup (c # p) n = None"

text \<open>Write a node at a path, with the missing directories on the way.\<close>

fun put :: "path \<Rightarrow> node \<Rightarrow> node \<Rightarrow> node" where
  "put [] x n = x"
| "put (c # p) x (Dir es) =
     Dir (AList.update c (put p x (case map_of es c of None \<Rightarrow> Dir [] | Some m \<Rightarrow> m)) es)"
| "put (c # p) x n = n"

definition is_directory :: "node option \<Rightarrow> bool" where
  "is_directory n = (case n of Some (Dir _) \<Rightarrow> True | _ \<Rightarrow> False)"

lemma lookup_append: "lookup (p @ q) n = (case lookup p n of None \<Rightarrow> None | Some m \<Rightarrow> lookup q m)"
  by (induction p n rule: lookup.induct) (auto split: option.splits)

lemma lookup_snoc_Dir: "lookup (p @ [c]) n = Some m \<Longrightarrow> \<exists>es. lookup p n = Some (Dir es)"
proof -
  assume l: "lookup (p @ [c]) n = Some m"
  then obtain k where k: "lookup p n = Some k" "lookup [c] k = Some m"
    by (auto simp: lookup_append split: option.splits)
  then show ?thesis by (cases k) auto
qed

text \<open>A path is open for writing when no component on the way is something else than a directory.\<close>

fun creatable :: "path \<Rightarrow> node \<Rightarrow> bool" where
  "creatable [] n = is_directory (Some n)"
| "creatable (c # p) (Dir es) = (case map_of es c of None \<Rightarrow> True | Some m \<Rightarrow> creatable p m)"
| "creatable (c # p) n = False"

definition mkdir_parents :: "path \<Rightarrow> node \<Rightarrow> node option" where
  "mkdir_parents p n =
     (if is_directory (lookup p n) then Some n else if creatable p n then Some (put p (Dir []) n) else None)"

lemma map_of_AList_update [simp]: "map_of (AList.update c v es) d = (if d = c then Some v else map_of es d)"
  by (simp add: AList.update_conv')

lemma lookup_put_other:
  "\<not> prefix p q \<Longrightarrow> \<not> prefix q p \<Longrightarrow> lookup q (put p x n) = lookup q n"
proof (induction p x n arbitrary: q rule: put.induct)
  case (2 c p x es)
  then obtain d r where q: "q = d # r" by (cases q) auto
  show ?case
  proof (cases "d = c")
    case True
    then have "\<not> prefix p r" "\<not> prefix r p" using 2(2,3) q by auto
    then have ih: "lookup r (put p x m) = lookup r m" if "m = (case map_of es c of None \<Rightarrow> Dir [] | Some m \<Rightarrow> m)" for m
      using 2(1) that by simp
    have nil: "lookup r (Dir []) = None" using \<open>\<not> prefix r p\<close> by (cases r) auto
    show ?thesis using ih True q nil by (auto split: option.splits)
  qed (simp add: q)
qed auto

lemma lookup_put_same: "creatable p n \<Longrightarrow> lookup p (put p x n) = Some x"
proof (induction p x n rule: put.induct)
  case (2 c p x es)
  have "creatable p (Dir [])" by (cases p) (auto simp: is_directory_def)
  with 2 show ?case by (auto split: option.splits)
qed auto

text \<open>Below a path that was written, and on the way to it.\<close>

lemma lookup_put_below: "creatable p n \<Longrightarrow> lookup (p @ q) (put p x n) = lookup q x"
  by (simp add: lookup_append lookup_put_same)

lemma creatable_put_Dir: "creatable p n \<Longrightarrow> creatable p (put p (Dir es) n)"
proof (induction p "Dir es" n rule: put.induct)
  case (2 c p fs)
  have "creatable p (Dir [])" by (cases p) (auto simp: is_directory_def)
  with 2 show ?case by (auto split: option.splits)
qed (auto simp: is_directory_def)

lemma lookup_Dir_creatable: "is_directory (lookup p n) \<Longrightarrow> creatable p n"
  by (induction p n rule: lookup.induct) (auto simp: is_directory_def split: option.splits)

lemma mkdir_parents_directory: "mkdir_parents p n = Some n' \<Longrightarrow> is_directory (lookup p n')"
  by (auto simp: mkdir_parents_def lookup_put_same is_directory_def split: if_splits)

lemma creatable_lookup: "creatable p n \<Longrightarrow> \<not> is_directory (lookup p n) \<Longrightarrow> lookup p n = None"
  by (induction p n rule: lookup.induct) (auto simp: is_directory_def split: option.splits)

lemma mkdir_parents_other:
  assumes "mkdir_parents p n = Some n'" "\<not> prefix q p"
  shows "lookup q n' = lookup q n"
proof (cases "is_directory (lookup p n)")
  case False
  then have put: "creatable p n" "n' = put p (Dir []) n" using assms(1) by (auto simp: mkdir_parents_def split: if_splits)
  show ?thesis
  proof (cases "prefix p q")
    case True
    then obtain c r where "q = p @ c # r" using assms(2) by (metis append_Nil2 list.exhaust prefixE prefix_order.order_refl)
    then show ?thesis
      using put creatable_lookup [OF put(1) False] by (simp add: lookup_put_below) (simp add: lookup_append)
  qed (simp add: put(2) lookup_put_other assms(2))
qed (use assms(1) in \<open>simp add: mkdir_parents_def\<close>)

lemma creatable_prefix: "creatable p n \<Longrightarrow> prefix q p \<Longrightarrow> lookup q n = None \<or> is_directory (lookup q n)"
proof (induction p n arbitrary: q rule: creatable.induct)
  case (2 c p es)
  show ?case
  proof (cases q)
    case (Cons d r)
    then show ?thesis using 2 by (cases "map_of es c") auto
  qed (simp add: is_directory_def)
qed (auto simp: is_directory_def)

section \<open>Paths\<close>

text \<open>The components of a path string, without the empty ones and the dots.\<close>

fun split_slash :: "string \<Rightarrow> string list" where
  "split_slash [] = [[]]"
| "split_slash (c # s) =
     (if c = CHR ''/'' then [] # split_slash s
      else case split_slash s of [] \<Rightarrow> [[c]] | w # ws \<Rightarrow> (c # w) # ws)"

definition components :: "string \<Rightarrow> path" where
  "components s = filter (\<lambda>c. c \<noteq> [] \<and> c \<noteq> ''.'') (split_slash s)"

definition absolute :: "string \<Rightarrow> bool" where
  "absolute s = (case s of [] \<Rightarrow> False | c # _ \<Rightarrow> c = CHR ''/'')"

fun join_slash :: "path \<Rightarrow> string" where
  "join_slash [] = []"
| "join_slash [c] = c"
| "join_slash (c # d # p) = c @ CHR ''/'' # join_slash (d # p)"

definition link_target :: "node option \<Rightarrow> string option" where
  "link_target n = (case n of Some (Link t) \<Rightarrow> Some t | _ \<Rightarrow> None)"

definition links :: "node \<Rightarrow> path set" where
  "links n = {p. link_target (lookup p n) \<noteq> None}"

fun paths_of :: "node \<Rightarrow> path list" where
  "paths_of (Dir es) = [] # concat (map (\<lambda>e. map (\<lambda>p. fst e # p) (paths_of (snd e))) es)"
| "paths_of n = [[]]"

lemma lookup_paths_of: "lookup p n = Some m \<Longrightarrow> p \<in> set (paths_of n)"
proof (induction p n rule: lookup.induct)
  case (1 n)
  then show ?case by (cases n) auto
next
  case (2 c p es)
  then show ?case by (force split: option.splits dest: map_of_SomeD)
qed auto

lemma finite_links [simp]: "finite (links n)"
  by (rule finite_subset [of _ "set (paths_of n)"])
    (auto simp: links_def link_target_def intro: lookup_paths_of split: option.splits node.splits)

text \<open>\<open>realpath fs strict active p rest\<close>: \<open>p\<close> is resolved, \<open>rest\<close> is still to come, and \<open>active\<close> are the
  links that are being expanded; \<open>None\<close> is a link loop or, in strict mode, a missing directory. The
  strict mode is also how the operating system walks a path.\<close>

function realpath :: "node \<Rightarrow> bool \<Rightarrow> path list \<Rightarrow> path \<Rightarrow> path \<Rightarrow> path option" where
  "realpath fs strict active p [] = Some p"
| "realpath fs strict active p (name # rest) =
     (if strict \<and> \<not> is_directory (lookup p fs) then None
      else if name = ''..'' then realpath fs strict active (butlast p) rest
      else case link_target (lookup (p @ [name]) fs) of
        None \<Rightarrow> realpath fs strict active (p @ [name]) rest
      | Some t \<Rightarrow>
          if p @ [name] \<in> set active then None
          else case realpath fs strict ((p @ [name]) # active) (if absolute t then [] else p) (components t) of
            None \<Rightarrow> None
          | Some p' \<Rightarrow> realpath fs strict active p' rest)"
  by pat_completeness auto
termination
proof (relation "inv_image (less_than <*lex*> less_than)
    (\<lambda>(fs, strict, active, p, rest). (card (links fs - set active), length rest))", goal_cases)
  case (4 fs strict active p name rest t)
  then have l: "p @ [name] \<in> links fs" by (simp add: links_def)
  have "links fs - set ((p @ [name]) # active) \<subset> links fs - set active" using l 4(4) by auto
  then have "card (links fs - set ((p @ [name]) # active)) < card (links fs - set active)"
    by (intro psubset_card_mono) auto
  then show ?case by simp
qed auto

text \<open>\<open>Path.resolve\<close> of a path string read from a directory; a link loop raises.\<close>

definition resolve :: "node \<Rightarrow> path \<Rightarrow> string \<Rightarrow> path option" where
  "resolve fs base s = realpath fs False [] [] ((if absolute s then [] else base) @ components s)"

text \<open>A resolved path has no link on it, so opening it opens the file at that place.\<close>

definition link_free :: "node \<Rightarrow> path \<Rightarrow> bool" where
  "link_free fs p \<longleftrightarrow> (\<forall>q. prefix q p \<longrightarrow> link_target (lookup q fs) = None)"

lemma link_free_butlast: "link_free fs p \<Longrightarrow> link_free fs (butlast p)"
  unfolding link_free_def by (metis prefix_order.trans prefixeq_butlast)

lemma link_free_snoc: "link_free fs (p @ [c]) \<longleftrightarrow> link_free fs p \<and> link_target (lookup (p @ [c]) fs) = None"
  by (auto simp: link_free_def)

lemma realpath_link_free:
  "realpath fs strict active p rest = Some q \<Longrightarrow> link_free fs p \<Longrightarrow> link_target (lookup [] fs) = None \<Longrightarrow> link_free fs q"
proof (induction fs strict active p rest arbitrary: q rule: realpath.induct)
  case (2 fs strict active p name rest)
  have root: "link_free fs []" using 2(7) by (auto simp: link_free_def)
  have go: "\<not> (strict \<and> \<not> is_directory (lookup p fs))" using 2(5) by (auto split: if_splits)
  show ?case
  proof (cases "name = ''..''")
    case True
    then show ?thesis using 2(1) [OF go] 2(5-7) go link_free_butlast by simp
  next
    case dir: False
    show ?thesis
    proof (cases "link_target (lookup (p @ [name]) fs)")
      case None
      then show ?thesis using 2(2) [OF go dir None] 2(5-7) dir go by (simp add: link_free_snoc)
    next
      case (Some t)
      then obtain p' where n: "p @ [name] \<notin> set active"
        and e: "realpath fs strict ((p @ [name]) # active) (if absolute t then [] else p) (components t) = Some p'"
        and r: "realpath fs strict active p' rest = Some q"
        using 2(5) dir go by (auto split: if_splits option.splits)
      have "link_free fs p'"
        using 2(3) [OF go dir Some n e] 2(6,7) root by simp
      then show ?thesis using 2(4) [OF go dir Some n e r] 2(7) by simp
    qed
  qed
qed simp

text \<open>Resolution looks at the links of the tree and at nothing else.\<close>

definition same_links :: "node \<Rightarrow> node \<Rightarrow> bool" where
  "same_links fs fs' \<longleftrightarrow> (\<forall>q. link_target (lookup q fs) = link_target (lookup q fs'))"

lemma realpath_same_links:
  "same_links fs fs' \<Longrightarrow> realpath fs False active p rest = realpath fs' False active p rest"
proof (induction fs "False" active p rest rule: realpath.induct)
  case (2 fs active p name rest)
  have l: "link_target (lookup q fs) = link_target (lookup q fs')" for q using 2(5) by (simp add: same_links_def)
  show ?case using 2 by (simp add: l split: option.split)
qed simp

lemma not_a_link: "n = None \<or> is_directory n \<Longrightarrow> link_target n = None"
  by (auto simp: link_target_def is_directory_def split: option.splits node.splits)

lemma same_links_mkdir: "mkdir_parents p n = Some n' \<Longrightarrow> same_links n n'"
proof (unfold same_links_def, rule allI)
  fix q
  assume m: "mkdir_parents p n = Some n'"
  then have c: "creatable p n" "creatable p n'"
    using lookup_Dir_creatable [of p n] by (auto simp: mkdir_parents_def creatable_put_Dir split: if_splits)
  show "link_target (lookup q n) = link_target (lookup q n')"
  proof (cases "prefix q p")
    case True
    then show ?thesis using c [THEN creatable_prefix, OF True] by (simp add: not_a_link)
  qed (simp add: mkdir_parents_other [OF m])
qed

lemma same_links_put_File:
  assumes "is_directory (lookup p n)" "lookup (p @ [c]) n = None \<or> (\<exists>b. lookup (p @ [c]) n = Some (File b))"
  shows "same_links n (put (p @ [c]) (File b) n) \<and> lookup (p @ [c]) (put (p @ [c]) (File b) n) = Some (File b)"
proof -
  obtain es where es: "lookup p n = Some (Dir es)" using assms(1) by (auto simp: is_directory_def split: option.splits node.splits)
  have put: "lookup p (put (p @ r) x m) = Some (put r x k)" if "lookup p m = Some k" for r x m k
    using that by (induction p m rule: lookup.induct) (auto split: option.splits)
  let ?n = "put (p @ [c]) (File b) n"
  have here: "lookup (p @ [c]) ?n = Some (File b)" using put [OF es] by (simp add: lookup_append)
  have dirs: "creatable p n" "creatable p ?n"
    using assms(1) lookup_snoc_Dir [OF here] by (auto intro!: lookup_Dir_creatable simp: is_directory_def)
  have "link_target (lookup q n) = link_target (lookup q ?n)" for q
  proof -
    consider "prefix q p" | r where "q = (p @ [c]) @ r" | "\<not> prefix q (p @ [c])" "\<not> prefix (p @ [c]) q"
      by (metis prefixE prefix_snoc append_Nil2)
    then show ?thesis
    proof cases
      case 1
      then show ?thesis using dirs [THEN creatable_prefix, OF 1] by (simp add: not_a_link)
    next
      case 2
      have "link_target (lookup r (File x)) = None" for x by (cases r) (simp_all add: link_target_def)
      then show ?thesis using assms(2) here unfolding 2 lookup_append [of "p @ [c]"] by (auto simp: link_target_def)
    qed (simp add: lookup_put_other)
  qed
  then show ?thesis using here by (simp add: same_links_def)
qed

section \<open>Containment (paths.py)\<close>

text \<open>\<open>target != root and root not in target.parents\<close>: the target is the root or below it. The two
  \<open>resolve\<close> calls and the containment test are the whole function; \<open>None\<close> is a loop.\<close>

datatype path_error = Embedded_null | Link_loop | Escapes_workspace

definition resolve_inside :: "node \<Rightarrow> path \<Rightarrow> string \<Rightarrow> path_error + path" where
  "resolve_inside fs root requested =
     (case realpath fs False [] [] root of None \<Rightarrow> Inl Link_loop
      | Some root' \<Rightarrow>
          if CHR 0x00 \<in> set requested then Inl Embedded_null
          else case resolve fs root' requested of None \<Rightarrow> Inl Link_loop
          | Some target \<Rightarrow>
              if target \<noteq> root' \<and> \<not> strict_prefix root' target then Inl Escapes_workspace else Inr target)"

lemma resolve_inside_prefix:
  "resolve_inside fs root s = Inr p \<Longrightarrow> \<exists>r. realpath fs False [] [] root = Some r \<and> prefix r p"
  by (auto simp: resolve_inside_def prefix_order.le_less split: option.splits if_splits)

lemma resolve_inside_link_free:
  "resolve_inside fs root s = Inr p \<Longrightarrow> link_target (lookup [] fs) = None \<Longrightarrow> link_free fs p"
  by (auto simp: resolve_inside_def resolve_def link_free_def split: option.splits if_splits
      dest!: realpath_link_free)

end
