(* ===== verification/Policy.thy ===== *)
theory Policy
  imports Complex_Main Models Crypto
begin

text \<open>
  policy.py: the validated policy document and the engine that answers for a capability. The YAML
  text is parsed by a third-party library; the model starts from the parsed document, with the
  constraints of the pydantic models as \<open>policy_document_valid\<close>.
\<close>

datatype decision = Allow | Deny | Require_approval

definition decision_text :: "decision \<Rightarrow> string" where
  "decision_text d = (case d of Allow \<Rightarrow> ''allow'' | Deny \<Rightarrow> ''deny'' | Require_approval \<Rightarrow> ''require_approval'')"

record limits_config =
  max_task_seconds :: int
  max_output_bytes :: int
  max_read_bytes :: int
  max_write_bytes :: int
  cpu_count :: rat
  memory_mb :: int
  max_snapshot_files :: int
  max_snapshot_bytes :: int
  max_change_entries :: int

definition default_limits :: limits_config where
  "default_limits = \<lparr>max_task_seconds = 120, max_output_bytes = 200000, max_read_bytes = 1000000,
     max_write_bytes = 1000000, cpu_count = 1, memory_mb = 1024, max_snapshot_files = 50000,
     max_snapshot_bytes = 536870912, max_change_entries = 1000\<rparr>"

definition limits_valid :: "limits_config \<Rightarrow> bool" where
  "limits_valid l \<longleftrightarrow>
     1 \<le> max_task_seconds l \<and> max_task_seconds l \<le> 3600 \<and>
     1 \<le> max_output_bytes l \<and> max_output_bytes l \<le> 10000000 \<and>
     1 \<le> max_read_bytes l \<and> max_read_bytes l \<le> 100000000 \<and>
     1 \<le> max_write_bytes l \<and> max_write_bytes l \<le> 100000000 \<and>
     0 < cpu_count l \<and> cpu_count l \<le> 64 \<and>
     64 \<le> memory_mb l \<and> memory_mb l \<le> 262144 \<and>
     1 \<le> max_snapshot_files l \<and> max_snapshot_files l \<le> 1000000 \<and>
     1 \<le> max_snapshot_bytes l \<and> max_snapshot_bytes l \<le> 10737418240 \<and>
     1 \<le> max_change_entries l \<and> max_change_entries l \<le> 100000"

record capability_config =
  cc_decision :: decision
  cc_allowed_commands :: "string list list"

definition validate_commands :: "string list list \<Rightarrow> bool" where
  "validate_commands commands =
     list_all (\<lambda>command. command \<noteq> [] \<and> list_all (\<lambda>part. part \<noteq> []) command) commands"

definition capability_config_valid :: "capability_config \<Rightarrow> bool" where
  "capability_config_valid c \<longleftrightarrow>
     length (cc_allowed_commands c) \<le> 256 \<and> validate_commands (cc_allowed_commands c)"

record policy_document =
  pd_version :: int
  pd_default :: decision
  pd_limits :: limits_config
  pd_capabilities :: "(string, capability_config) dict"

definition validate_capability_names :: "(string, capability_config) dict \<Rightarrow> bool" where
  "validate_capability_names caps = list_all capability_pattern (keys caps)"

definition policy_document_valid :: "policy_document \<Rightarrow> bool" where
  "policy_document_valid d \<longleftrightarrow>
     pd_version d = 1 \<and> pd_default d = Deny \<and> limits_valid (pd_limits d) \<and>
     distinct (keys (pd_capabilities d)) \<and>
     validate_capability_names (pd_capabilities d) \<and>
     list_all (\<lambda>p. capability_config_valid (snd p)) (pd_capabilities d)"

section \<open>The engine\<close>

record declared_capability =
  dc_name :: string
  dc_decision :: decision
  dc_allowed_commands :: "string list list"

record policy_decision =
  pdec_decision :: decision
  pdec_reason :: string
  pdec_config :: "(string \<times> json) list"

record policy_engine =
  pe_policy_sha256 :: string
  pe_default :: decision
  pe_limits :: limits_config
  pe_capabilities :: "(string, capability_config) dict"

text \<open>Reading a policy file: \<open>load\<close> stands for the YAML loader followed by pydantic's coercion into
  the document's fields (\<open>None\<close> when either raises) and \<open>sha256\<close> for the digest of the file.\<close>

definition policy_engine_init ::
  "(bytes \<Rightarrow> policy_document option) \<Rightarrow> (bytes \<Rightarrow> bytes) \<Rightarrow> bytes \<Rightarrow> policy_engine option" where
  "policy_engine_init load sha256 policy_bytes =
     (case load policy_bytes of None \<Rightarrow> None
      | Some d \<Rightarrow> if \<not> policy_document_valid d then None
          else Some \<lparr>pe_policy_sha256 = hexlify (sha256 policy_bytes), pe_default = pd_default d,
            pe_limits = pd_limits d, pe_capabilities = pd_capabilities d\<rparr>)"

definition declared_capabilities :: "policy_engine \<Rightarrow> declared_capability list" where
  "declared_capabilities pe =
     map (\<lambda>(name, config). \<lparr>dc_name = name, dc_decision = cc_decision config,
            dc_allowed_commands = cc_allowed_commands config\<rparr>)
       (sort_key fst (pe_capabilities pe))"

definition config_json :: "capability_config \<Rightarrow> (string \<times> json) list" where
  "config_json c = [(''decision'', JStr (decision_text (cc_decision c))),
     (''allowed_commands'', JArr (map (\<lambda>cmd. JArr (map JStr cmd)) (cc_allowed_commands c)))]"

definition evaluate :: "policy_engine \<Rightarrow> string \<Rightarrow> policy_decision" where
  "evaluate pe capability =
     (case map_of (pe_capabilities pe) capability of
        None \<Rightarrow> \<lparr>pdec_decision = pe_default pe, pdec_reason = ''capability not declared'', pdec_config = []\<rparr>
      | Some config \<Rightarrow> \<lparr>pdec_decision = cc_decision config,
          pdec_reason = ''policy decision: '' @ decision_text (cc_decision config),
          pdec_config = config_json config\<rparr>)"

lemma evaluate_undeclared:
  "capability \<notin> set (keys (pe_capabilities pe)) \<Longrightarrow>
     evaluate pe capability = \<lparr>pdec_decision = pe_default pe, pdec_reason = ''capability not declared'',
       pdec_config = []\<rparr>"
  by (simp add: evaluate_def map_of_eq_None_iff [THEN iffD2] split: option.splits)

lemma evaluate_declared:
  "map_of (pe_capabilities pe) capability = Some c \<Longrightarrow>
     pdec_decision (evaluate pe capability) = cc_decision c \<and>
     pdec_config (evaluate pe capability) = config_json c"
  by (simp add: evaluate_def)

lemma evaluate_not_deny_declared:
  assumes "pe_default pe = Deny" "pdec_decision (evaluate pe capability) \<noteq> Deny"
  shows "\<exists>c. (capability, c) \<in> set (pe_capabilities pe) \<and> cc_decision c = pdec_decision (evaluate pe capability) \<and>
     pdec_config (evaluate pe capability) = config_json c"
  using assms by (auto simp: evaluate_def split: option.splits dest: map_of_SomeD)

lemma declared_capabilities_sorted: "sorted (map dc_name (declared_capabilities pe))"
proof -
  have "map dc_name (declared_capabilities pe) = map fst (sort_key fst (pe_capabilities pe))"
    by (simp add: declared_capabilities_def o_def case_prod_beta)
  then show ?thesis by simp
qed

lemma declared_capabilities_iff:
  "dc \<in> set (declared_capabilities pe) \<longleftrightarrow>
     (\<exists>c. (dc_name dc, c) \<in> set (pe_capabilities pe) \<and>
        dc = \<lparr>dc_name = dc_name dc, dc_decision = cc_decision c, dc_allowed_commands = cc_allowed_commands c\<rparr>)"
  by (auto simp: declared_capabilities_def image_iff) force

section \<open>Properties\<close>

text \<open>A policy engine that loads is closed by default: it answers something other than a denial only for a
  capability that its file declares with exactly that decision and whose name matches the capability
  pattern, and the configuration it hands to the executor is the declared one.\<close>

theorem policy_default_deny:
  assumes "policy_engine_init load sha256 b = Some pe" "pdec_decision (evaluate pe capability) \<noteq> Deny"
  shows "capability_pattern capability \<and>
    (\<exists>d c. load b = Some d \<and> map_of (pd_capabilities d) capability = Some c \<and>
       cc_decision c = pdec_decision (evaluate pe capability) \<and>
       pdec_config (evaluate pe capability) = config_json c)"
proof -
  from assms(1) obtain d where d: "load b = Some d" "policy_document_valid d"
    "pe_default pe = pd_default d" "pe_capabilities pe = pd_capabilities d"
    by (auto simp: policy_engine_init_def split: option.splits if_splits)
  then have wf: "distinct (keys (pd_capabilities d))" "pe_default pe = Deny"
    by (simp_all add: policy_document_valid_def)
  then obtain c where c: "(capability, c) \<in> set (pd_capabilities d)"
    "cc_decision c = pdec_decision (evaluate pe capability)"
    "pdec_config (evaluate pe capability) = config_json c"
    using evaluate_not_deny_declared [of pe] assms(2) d(4) by auto
  moreover have "capability_pattern capability"
    using d(2) c(1) by (auto simp: policy_document_valid_def validate_capability_names_def list_all_iff)
  moreover have "map_of (pd_capabilities d) capability = Some c" using c(1) wf(1) by simp
  ultimately show ?thesis using d(1) by blast
qed

definition ex_document :: policy_document where
  "ex_document = \<lparr>pd_version = 1, pd_default = Deny, pd_limits = default_limits,
     pd_capabilities = [(''process.run'', \<lparr>cc_decision = Require_approval, cc_allowed_commands = [[''git'', ''status'']]\<rparr>),
       (''filesystem.read'', \<lparr>cc_decision = Allow, cc_allowed_commands = []\<rparr>)]\<rparr>"

definition ex_engine :: policy_engine where
  "ex_engine = the (policy_engine_init (\<lambda>_. Some ex_document) (\<lambda>b. b) ''policy'')"

lemma ex_document_valid: "policy_document_valid ex_document"
  by (simp add: policy_document_valid_def ex_document_def validate_capability_names_def limits_valid_def
      default_limits_def capability_config_valid_def validate_commands_def capability_pattern_def
      is_lower_def is_digit_def len_between_def)

lemma ex_engine_loads: "policy_engine_init (\<lambda>_. Some ex_document) (\<lambda>b. b) ''policy'' = Some ex_engine"
  by (simp add: ex_engine_def policy_engine_init_def ex_document_valid)

theorem policy_default_deny_witness:
  "capability_pattern ''process.run'' \<and> pdec_decision (evaluate ex_engine ''process.run'') = Require_approval"
proof -
  have "pdec_decision (evaluate ex_engine ''process.run'') = Require_approval"
    by (simp add: ex_engine_def policy_engine_init_def ex_document_valid) (simp add: evaluate_def ex_document_def)
  with policy_default_deny [OF ex_engine_loads, of "''process.run''"] show ?thesis by simp
qed

end
