(* ===== verification/Sandbox.thy ===== *)
theory Sandbox
  imports File_System Policy
begin

text \<open>
  sandbox.py: the copy of the workspace that a command runs on, the report of what the command changed,
  the bounded capture of its output, and the \<open>docker run\<close> command line.

  The workspace is the tree that \<open>scandir\<close> showed; everything that may happen to it while it is being
  copied is in a \<open>copy_world\<close>: for each file the four \<open>stat\<close> results and the chunks that were read,
  for each directory the names of the second scan. Docker, the process and SHA-256 are parameters.
\<close>

section \<open>File versions\<close>

record stat_result =
  st_regular :: bool
  st_size :: int
  st_mtime_ns :: int
  st_ctime_ns :: int
  st_dev :: int
  st_ino :: int

definition same_content_state :: "stat_result \<Rightarrow> stat_result \<Rightarrow> bool" where
  "same_content_state first second \<longleftrightarrow>
     st_regular first \<and> st_regular second \<and> st_size first = st_size second \<and> st_mtime_ns first = st_mtime_ns second"

text \<open>\<open>nt\<close> tells whether \<open>os.name\<close> is \<open>nt\<close>.\<close>

definition same_file_version :: "bool \<Rightarrow> stat_result \<Rightarrow> stat_result \<Rightarrow> bool" where
  "same_file_version nt first second =
     (if \<not> same_content_state first second then False
      else if \<not> nt then st_ctime_ns first = st_ctime_ns second \<and> st_dev first = st_dev second \<and> st_ino first = st_ino second
      else if st_dev first \<noteq> 0 \<and> st_dev second \<noteq> 0 \<and> st_dev first \<noteq> st_dev second then False
      else \<not> (st_ino first \<noteq> 0 \<and> st_ino second \<noteq> 0 \<and> st_ino first \<noteq> st_ino second))"

section \<open>Bounded output\<close>

record bounded_buffer =
  bb_limit :: int
  bb_data :: bytes
  bb_truncated :: bool

definition buffer_init :: "int \<Rightarrow> bounded_buffer" where
  "buffer_init limit = \<lparr>bb_limit = limit, bb_data = [], bb_truncated = False\<rparr>"

definition buffer_append :: "bytes \<Rightarrow> bounded_buffer \<Rightarrow> bounded_buffer" where
  "buffer_append chunk b =
     (if chunk = [] then b
      else let remaining = bb_limit b - int (length (bb_data b));
               b1 = (if 0 < remaining then b\<lparr>bb_data := bb_data b @ take (nat remaining) chunk\<rparr> else b)
           in if remaining < int (length chunk) then b1\<lparr>bb_truncated := True\<rparr> else b1)"

text \<open>The drain thread reads until the empty chunk.\<close>

fun drain :: "bytes list \<Rightarrow> bounded_buffer \<Rightarrow> bounded_buffer" where
  "drain [] b = b"
| "drain (chunk # chunks) b = (if chunk = [] then b else drain chunks (buffer_append chunk b))"

record process_output =
  po_returncode :: int
  po_stdout :: string
  po_stderr :: string
  po_truncated :: bool
  po_timed_out :: bool

text \<open>A process: whether its executable exists, the chunks its pipes gave before the drain threads were given
  up, its exit code if it ended within the timeout, and its exit code after being killed.\<close>

record process_world =
  pw_found :: bool
  pw_stdout :: "bytes list"
  pw_stderr :: "bytes list"
  pw_exit :: "int option"
  pw_killed :: int

definition run_bounded_process :: "(bytes \<Rightarrow> string) \<Rightarrow> process_world \<Rightarrow> int \<Rightarrow> string + process_output" where
  "run_bounded_process decode_replace w max_output =
     (if \<not> pw_found w then Inl ''docker executable not found''
      else let out = drain (pw_stdout w) (buffer_init max_output);
               err = drain (pw_stderr w) (buffer_init max_output)
           in Inr \<lparr>po_returncode = (case pw_exit w of Some c \<Rightarrow> c | None \<Rightarrow> pw_killed w),
                po_stdout = decode_replace (bb_data out), po_stderr = decode_replace (bb_data err),
                po_truncated = (bb_truncated out \<or> bb_truncated err), po_timed_out = (pw_exit w = None)\<rparr>)"

lemma buffer_append_prefix:
  assumes "0 \<le> limit" "bb_limit b = limit" "bb_data b = take (nat limit) s" "bb_truncated b \<longleftrightarrow> limit < int (length s)"
  shows "buffer_append chunk b =
    \<lparr>bb_limit = limit, bb_data = take (nat limit) (s @ chunk), bb_truncated = (limit < int (length (s @ chunk)))\<rparr>"
proof (cases "chunk = []")
  case True
  then show ?thesis using assms by (cases b) (simp add: buffer_append_def)
next
  case ne: False
  then have pos: "0 < int (length chunk)" by simp
  show ?thesis
  proof (cases "int (length s) < limit")
    case True
    then have len: "bb_data b = s" "\<not> bb_truncated b" using assms by simp_all
    have n: "nat (limit - int (length s)) = nat limit - length s" using True by linarith
    show ?thesis using True assms(2) ne len n
      by (cases b) (auto simp: buffer_append_def Let_def)
  next
    case False
    then have "length (bb_data b) = nat limit" using assms by simp
    moreover have "limit < int (length (s @ chunk))" using pos False unfolding length_append by linarith
    ultimately show ?thesis using False assms ne
      by (cases b) (simp add: buffer_append_def Let_def)
  qed
qed

text \<open>What a drain thread sees of its pipe: the chunks before the first empty one.\<close>

lemma drain_prefix:
  assumes "0 \<le> limit" "bb_limit b = limit" "bb_data b = take (nat limit) s" "bb_truncated b \<longleftrightarrow> limit < int (length s)"
  shows "drain chunks b = \<lparr>bb_limit = limit, bb_data = take (nat limit) (s @ concat (takeWhile (\<lambda>c. c \<noteq> []) chunks)),
    bb_truncated = (limit < int (length (s @ concat (takeWhile (\<lambda>c. c \<noteq> []) chunks))))\<rparr>"
  using assms(2-)
proof (induction chunks arbitrary: b s)
  case Nil
  then show ?case by (cases b) simp
next
  case (Cons c chunks)
  show ?case
  proof (cases "c = []")
    case True
    then show ?thesis using Cons.prems by (cases b) simp
  next
    case False
    note step = buffer_append_prefix [OF assms(1) Cons.prems, of c]
    show ?thesis using Cons.IH [of "buffer_append c b" "s @ c"] False by (simp add: step)
  qed
qed

section \<open>What is left out of a snapshot\<close>

record snapshot_config =
  sc_include_git :: bool
  sc_max_files :: int
  sc_max_bytes :: int
  sc_max_change_entries :: int
  sc_nt :: bool

definition excluded_dir_names :: "string list" where
  "excluded_dir_names = [''.venv'', ''venv'', ''__pycache__'', ''.pytest_cache'', ''.ruff_cache'', ''.mypy_cache'',
     ''.tox'', ''.nox'']"

definition excluded_file_names :: "string list" where
  "excluded_file_names = [''.env'', ''.coverage'', ''audit.jsonl'']"

definition allowed_git_top_level :: "string list" where
  "allowed_git_top_level = [''HEAD'', ''index'', ''objects'', ''refs'', ''packed-refs'', ''shallow'']"

definition excluded :: "bool \<Rightarrow> path \<Rightarrow> bool \<Rightarrow> bool" where
  "excluded include_git parts is_dir =
     (let name = (if parts = [] then [] else List.last parts) in
      if list_ex (\<lambda>part. part \<in> set excluded_dir_names) parts then True
      else if \<not> is_dir \<and> name \<in> set excluded_file_names then True
      else if \<not> is_dir \<and> take 5 name = ''.env.'' \<and> name \<notin> {''.env.example'', ''.env.sample''} then True
      else if ''.git'' \<in> set parts \<and> hd parts \<noteq> ''.git'' then True
      else if parts \<noteq> [] \<and> hd parts = ''.git'' then
        (if \<not> include_git then True
         else if length parts = 1 then False
         else parts ! 1 \<notin> set allowed_git_top_level)
      else False)"

section \<open>The copy\<close>

record file_obs =
  fo_stat :: stat_result
  fo_opened :: stat_result
  fo_opened_after :: stat_result
  fo_after :: stat_result
  fo_chunks :: "bytes list"

record copy_world =
  cw_file :: "path \<Rightarrow> file_obs"
  cw_names :: "path \<Rightarrow> string list"

type_synonym counts = "int \<times> int"

fun copy_chunks :: "int \<Rightarrow> bytes list \<Rightarrow> int \<times> int \<Rightarrow> string + int \<times> int" where
  "copy_chunks max_bytes [] (copied, used) = Inr (copied, used)"
| "copy_chunks max_bytes (chunk # chunks) (copied, used) =
     (if chunk = [] then Inr (copied, used)
      else let n = int (length chunk) in
        if max_bytes < used + n then Inl ''workspace exceeds snapshot byte limit''
        else copy_chunks max_bytes chunks (copied + n, used + n))"

definition chunks_read :: "bytes list \<Rightarrow> bytes" where
  "chunks_read chunks = concat (takeWhile (\<lambda>c. c \<noteq> []) chunks)"

definition changed_error :: "path \<Rightarrow> string" where
  "changed_error p = ''workspace changed while snapshotting: '' @ (if p = [] then ''.'' else join_slash p)"

definition copy_file :: "snapshot_config \<Rightarrow> file_obs \<Rightarrow> path \<Rightarrow> counts \<Rightarrow> string + bytes \<times> counts" where
  "copy_file cfg f p c =
     (let nt = sc_nt cfg; file_count = fst c + 1 in
      if \<not> st_regular (fo_stat f) then Inl (''non-regular file is not allowed: '' @ join_slash p)
      else if sc_max_files cfg < file_count then Inl ''workspace exceeds snapshot file limit''
      else if \<not> (if nt then same_content_state (fo_stat f) (fo_opened f) else same_file_version nt (fo_stat f) (fo_opened f))
        then Inl (changed_error p)
      else case copy_chunks (sc_max_bytes cfg) (fo_chunks f) (0, snd c) of Inl e \<Rightarrow> Inl e
      | Inr (copied, byte_count) \<Rightarrow>
          if copied = st_size (fo_opened f) \<and> same_file_version nt (fo_opened f) (fo_opened_after f) \<and>
             same_file_version nt (fo_stat f) (fo_after f)
          then Inr (chunks_read (fo_chunks f), (file_count, byte_count)) else Inl (changed_error p))"

text \<open>\<open>_copy_directory\<close> walks the entries in the order of their names; \<open>sorted_tree\<close> puts a tree in that
  order once, so that the walk is structural.\<close>

fun sorted_tree :: "node \<Rightarrow> node" where
  "sorted_tree (Dir es) = Dir (sort_key fst (map (\<lambda>e. (fst e, sorted_tree (snd e))) es))"
| "sorted_tree n = n"

fun copy_node :: "snapshot_config \<Rightarrow> copy_world \<Rightarrow> path \<Rightarrow> node \<Rightarrow> counts \<Rightarrow> string + node \<times> counts"
and copy_entries ::
  "snapshot_config \<Rightarrow> copy_world \<Rightarrow> path \<Rightarrow> (string \<times> node) list \<Rightarrow> counts \<Rightarrow> string + (string \<times> node) list \<times> counts" where
  "copy_node cfg w p (Link t) c = Inl (''symbolic links are not allowed: '' @ join_slash p)"
| "copy_node cfg w p Special c = Inl (''special files are not allowed: '' @ join_slash p)"
| "copy_node cfg w p (File b) c =
     (case copy_file cfg (cw_file w p) p c of Inl e \<Rightarrow> Inl e | Inr (data, c') \<Rightarrow> Inr (File data, c'))"
| "copy_node cfg w p (Dir es) c =
     (case copy_entries cfg w p es c of Inl e \<Rightarrow> Inl e
      | Inr (ms, c') \<Rightarrow> if sort (cw_names w p) \<noteq> map fst es then Inl (changed_error p) else Inr (Dir ms, c'))"
| "copy_entries cfg w p [] c = Inr ([], c)"
| "copy_entries cfg w p ((name, n) # es) c =
     (let q = p @ [name]; is_dir = is_directory (Some n) in
      if excluded (sc_include_git cfg) q is_dir then copy_entries cfg w p es c
      else if q = [''.git''] \<and> sc_include_git cfg \<and> \<not> is_dir then Inl ''Git worktree metadata files are not supported''
      else case copy_node cfg w q n c of Inl e \<Rightarrow> Inl e
      | Inr (m, c') \<Rightarrow> (case copy_entries cfg w p es c' of Inl e \<Rightarrow> Inl e
          | Inr (ms, c'') \<Rightarrow> Inr ((name, m) # ms, c'')))"

text \<open>\<open>__enter__\<close> up to the copy: the source must be a directory and the sandbox root outside of it.\<close>

definition take_snapshot ::
  "snapshot_config \<Rightarrow> copy_world \<Rightarrow> path \<Rightarrow> path \<Rightarrow> node \<Rightarrow> string + node" where
  "take_snapshot cfg w source sandbox_root fs =
     (case lookup source fs of
        Some (Dir es) \<Rightarrow>
          if sandbox_root = source \<or> strict_prefix source sandbox_root
            then Inl ''sandbox root must be outside the workspace''
          else (case copy_node cfg w [] (sorted_tree (Dir es)) (0, 0) of Inl e \<Rightarrow> Inl e | Inr (m, _) \<Rightarrow> Inr m)
      | _ \<Rightarrow> Inl ''workspace source is not a directory'')"

section \<open>The manifest and the change report\<close>

fun manifest_node ::
  "snapshot_config \<Rightarrow> (bytes \<Rightarrow> bytes) \<Rightarrow> path \<Rightarrow> node \<Rightarrow> counts \<Rightarrow> string + (string, string) dict \<times> counts"
and manifest_entries ::
  "snapshot_config \<Rightarrow> (bytes \<Rightarrow> bytes) \<Rightarrow> path \<Rightarrow> (string \<times> node) list \<Rightarrow> counts \<Rightarrow> string + (string, string) dict \<times> counts" where
  "manifest_node cfg sha p (Link t) c = Inl (''sandbox created a symbolic link: '' @ join_slash p)"
| "manifest_node cfg sha p Special c = Inl (''sandbox created a special file: '' @ join_slash p)"
| "manifest_node cfg sha p (File b) c =
     (let files = fst c + 1; total = snd c + int (length b) in
      if sc_max_files cfg < files then Inl ''sandbox exceeds snapshot file limit''
      else if sc_max_bytes cfg < total then Inl ''sandbox exceeds snapshot byte limit''
      else Inr ([(join_slash p, hexlify (sha b))], (files, total)))"
| "manifest_node cfg sha p (Dir es) c = manifest_entries cfg sha p es c"
| "manifest_entries cfg sha p [] c = Inr ([], c)"
| "manifest_entries cfg sha p ((name, n) # es) c =
     (if hd (p @ [name]) = ''.git'' then manifest_entries cfg sha p es c
      else case manifest_node cfg sha (p @ [name]) n c of Inl e \<Rightarrow> Inl e
      | Inr (d, c') \<Rightarrow> (case manifest_entries cfg sha p es c' of Inl e \<Rightarrow> Inl e | Inr (d', c'') \<Rightarrow> Inr (d @ d', c'')))"

definition manifest :: "snapshot_config \<Rightarrow> (bytes \<Rightarrow> bytes) \<Rightarrow> node \<Rightarrow> string + (string, string) dict" where
  "manifest cfg sha n =
     (case manifest_node cfg sha [] (sorted_tree n) (0, 0) of Inl e \<Rightarrow> Inl e | Inr (d, _) \<Rightarrow> Inr d)"

record snapshot_changes =
  ch_added :: "string list"
  ch_modified :: "string list"
  ch_deleted :: "string list"
  ch_truncated :: bool

definition changes :: "int \<Rightarrow> (string, string) dict \<Rightarrow> (string, string) dict \<Rightarrow> snapshot_changes" where
  "changes limit initial current =
     (let added = sort (filter (\<lambda>k. k \<notin> set (keys initial)) (keys current));
          deleted = sort (filter (\<lambda>k. k \<notin> set (keys current)) (keys initial));
          modified = sort (filter (\<lambda>k. k \<in> set (keys current) \<and> map_of initial k \<noteq> map_of current k) (keys initial));
          total = int (length added) + int (length modified) + int (length deleted);
          cut = (\<lambda>xs. take (nat limit) xs)
      in \<lparr>ch_added = cut added, ch_modified = cut modified, ch_deleted = cut deleted,
          ch_truncated = (limit < total)\<rparr>)"

section \<open>The command\<close>

record sandbox_env =
  se_posix :: bool
  se_uid :: int
  se_gid :: int
  se_container_name :: string
  se_snapshot_path :: string
  se_world :: copy_world

definition prepare_sandbox_user :: "sandbox_env \<Rightarrow> int \<times> int" where
  "prepare_sandbox_user env =
     (if \<not> se_posix env then (10001, 10001)
      else if se_uid env \<noteq> 0 then (se_uid env, se_gid env)
      else (65532, 65532))"

definition docker_command ::
  "(rat \<Rightarrow> string) \<Rightarrow> string \<Rightarrow> limits_config \<Rightarrow> sandbox_env \<Rightarrow> string list \<Rightarrow> string list" where
  "docker_command float_text docker_image limits env command =
     (let memory = jint (memory_mb limits) @ ''m''; user = prepare_sandbox_user env in
      [''docker'', ''run'', ''--rm'', ''--name'', se_container_name env, ''--pull'', ''never'', ''--init'',
       ''--network'', ''none'', ''--read-only'', ''--cap-drop'', ''ALL'', ''--security-opt'', ''no-new-privileges'',
       ''--pids-limit'', ''256'', ''--cpus'', float_text (cpu_count limits), ''--memory'', memory,
       ''--memory-swap'', memory, ''--ulimit'', ''core=0:0'', ''--ulimit'', ''nofile=1024:1024'',
       ''--tmpfs'', ''/tmp:rw,noexec,nosuid,size=128m'', ''--env'', ''PYTHONDONTWRITEBYTECODE=1'',
       ''--user'', jint (fst user) @ '':'' @ jint (snd user),
       ''--mount'', ''type=bind,source='' @ se_snapshot_path env @ '',target=/workspace'',
       ''--workdir'', ''/workspace'', docker_image] @ command)"

definition sandbox_output :: "string list \<Rightarrow> process_output \<Rightarrow> snapshot_changes \<Rightarrow> (string \<times> json) list" where
  "sandbox_output command p ch =
     [(''command'', JArr (map JStr command)), (''returncode'', JInt (po_returncode p)),
      (''stdout'', JStr (po_stdout p)), (''stderr'', JStr (po_stderr p)), (''truncated'', JBool (po_truncated p)),
      (''workspace_isolated'', JBool True),
      (''workspace_changes'', JObj [(''added'', JArr (map JStr (ch_added ch))),
         (''modified'', JArr (map JStr (ch_modified ch))), (''deleted'', JArr (map JStr (ch_deleted ch))),
         (''truncated'', JBool (ch_truncated ch))])]"

definition snapshot_config_of :: "limits_config \<Rightarrow> bool \<Rightarrow> sandbox_env \<Rightarrow> snapshot_config" where
  "snapshot_config_of limits include_git env =
     \<lparr>sc_include_git = include_git, sc_max_files = max_snapshot_files limits, sc_max_bytes = max_snapshot_bytes limits,
      sc_max_change_entries = max_change_entries limits, sc_nt = (\<not> se_posix env)\<rparr>"

text \<open>\<open>DockerSandboxRunner.run\<close>. The container gets the snapshot and leaves it as \<open>docker\<close> says. The
  workspace itself is only read; what stays in the file tree is the sandbox root. The snapshot is
  deleted on every path.\<close>

definition run_on_snapshot ::
  "(bytes \<Rightarrow> bytes) \<Rightarrow> (bytes \<Rightarrow> string) \<Rightarrow> (rat \<Rightarrow> string) \<Rightarrow>
   (string list \<Rightarrow> int \<Rightarrow> node \<Rightarrow> process_world \<times> node) \<Rightarrow> string \<Rightarrow> limits_config \<Rightarrow> sandbox_env \<Rightarrow>
   string list \<Rightarrow> snapshot_config \<Rightarrow> node \<Rightarrow> string + (string \<times> json) list" where
  "run_on_snapshot sha decode_replace float_text docker docker_image limits env command cfg snapshot =
     (case manifest cfg sha snapshot of Inl e \<Rightarrow> Inl e
      | Inr initial \<Rightarrow>
          if CHR '','' \<in> set (se_snapshot_path env) then Inl ''sandbox path cannot contain a comma''
          else let (w, after) = docker (docker_command float_text docker_image limits env command)
                     (max_task_seconds limits) snapshot
            in case run_bounded_process decode_replace w (max_output_bytes limits) of Inl e \<Rightarrow> Inl e
            | Inr p \<Rightarrow>
                if po_timed_out p
                  then Inl (''sandbox command exceeded '' @ jint (max_task_seconds limits) @ '' seconds'')
                else (case manifest cfg sha after of Inl e \<Rightarrow> Inl e
                  | Inr current \<Rightarrow> Inr (sandbox_output command p (changes (sc_max_change_entries cfg) initial current))))"

definition sandbox_run ::
  "(bytes \<Rightarrow> bytes) \<Rightarrow> (bytes \<Rightarrow> string) \<Rightarrow> (rat \<Rightarrow> string) \<Rightarrow>
   (string list \<Rightarrow> int \<Rightarrow> node \<Rightarrow> process_world \<times> node) \<Rightarrow> string \<Rightarrow> path \<Rightarrow> limits_config \<Rightarrow> sandbox_env \<Rightarrow>
   path \<Rightarrow> string list \<Rightarrow> bool \<Rightarrow> node \<Rightarrow> (string + (string \<times> json) list) \<times> node" where
  "sandbox_run sha decode_replace float_text docker docker_image sandbox_root limits env workspace command include_git fs =
     (let cfg = snapshot_config_of limits include_git env in
      case (realpath fs False [] [] workspace, realpath fs False [] [] sandbox_root) of
        (Some source, Some box) \<Rightarrow>
          if \<not> is_directory (lookup source fs) then (Inl ''workspace source is not a directory'', fs)
          else if box = source \<or> strict_prefix source box then (Inl ''sandbox root must be outside the workspace'', fs)
          else (case mkdir_parents box fs of None \<Rightarrow> (Inl ''sandbox root cannot be created'', fs)
            | Some fs' \<Rightarrow>
                ((case take_snapshot cfg (se_world env) source box fs of Inl e \<Rightarrow> Inl e
                  | Inr snapshot \<Rightarrow>
                      run_on_snapshot sha decode_replace float_text docker docker_image limits env command cfg snapshot), fs'))
      | _ \<Rightarrow> (Inl ''symbolic link loop'', fs))"

lemma run_on_snapshot_command:
  "run_on_snapshot sha dec ft docker img limits env command cfg snapshot = Inr out \<Longrightarrow>
     map_of out ''command'' = Some (JArr (map JStr command))"
  by (auto simp: run_on_snapshot_def sandbox_output_def Let_def split: sum.splits if_splits prod.splits)

lemma sandbox_run_command:
  "sandbox_run sha dec ft docker img box limits env ws command g fs = (Inr out, fs') \<Longrightarrow>
     map_of out ''command'' = Some (JArr (map JStr command))"
  by (auto simp: sandbox_run_def Let_def split: sum.splits if_splits option.splits prod.splits
      dest: run_on_snapshot_command)

lemma sandbox_run_tree:
  "sandbox_run sha dec ft docker img box limits env ws command g fs = (r, fs') \<Longrightarrow>
     fs' = fs \<or> (\<exists>p. realpath fs False [] [] box = Some p \<and> mkdir_parents p fs = Some fs')"
  by (auto simp: sandbox_run_def Let_def split: sum.splits if_splits option.splits prod.splits)

section \<open>What a snapshot contains\<close>

text \<open>The files of a tree with their paths, in the order of the walk.\<close>

fun tree_files :: "path \<Rightarrow> node \<Rightarrow> (path \<times> bytes) list" where
  "tree_files p (File b) = [(p, b)]"
| "tree_files p (Dir es) = concat (map (\<lambda>e. tree_files (p @ [fst e]) (snd e)) es)"
| "tree_files p n = []"

fun only_files :: "node \<Rightarrow> bool" where
  "only_files (File b) = True"
| "only_files (Dir es) = list_all (\<lambda>e. only_files (snd e)) es"
| "only_files n = False"

definition total_bytes :: "(path \<times> bytes) list \<Rightarrow> int" where
  "total_bytes fs = int (sum_list (map (\<lambda>f. length (snd f)) fs))"

lemma total_bytes_simps [simp]:
  "total_bytes [] = 0" "total_bytes (f # fs) = int (length (snd f)) + total_bytes fs"
  "total_bytes (fs @ gs) = total_bytes fs + total_bytes gs"
  by (simp_all add: total_bytes_def)

lemma copy_chunks_ok:
  "copy_chunks m chunks (n, t) = Inr (n', t') \<Longrightarrow>
     n' = n + int (length (chunks_read chunks)) \<and> t' = t + int (length (chunks_read chunks)) \<and> (t \<le> m \<longrightarrow> t' \<le> m)"
  by (induction m chunks "(n, t)" arbitrary: n t rule: copy_chunks.induct)
    (auto simp: chunks_read_def Let_def split: if_splits)

lemma copy_file_ok:
  assumes "copy_file cfg f p c = Inr (data, c')"
  shows "c' = (fst c + 1, snd c + int (length data)) \<and> fst c' \<le> sc_max_files cfg \<and>
    (snd c \<le> sc_max_bytes cfg \<longrightarrow> snd c' \<le> sc_max_bytes cfg) \<and> int (length data) = st_size (fo_opened f)"
  using assms
  by (auto simp: copy_file_def Let_def split: if_splits sum.splits prod.splits dest!: copy_chunks_ok)

definition admitted :: "snapshot_config \<Rightarrow> path \<Rightarrow> bool" where
  "admitted cfg p \<longleftrightarrow> \<not> excluded (sc_include_git cfg) p False"

text \<open>The counters count what was copied, and no file is admitted that the exclusion rules name.\<close>

definition counted :: "snapshot_config \<Rightarrow> counts \<Rightarrow> (path \<times> bytes) list \<Rightarrow> counts \<Rightarrow> bool" where
  "counted cfg c fs c' \<longleftrightarrow> c' = (fst c + int (length fs), snd c + total_bytes fs) \<and>
     (fst c \<le> sc_max_files cfg \<longrightarrow> fst c' \<le> sc_max_files cfg) \<and> (snd c \<le> sc_max_bytes cfg \<longrightarrow> snd c' \<le> sc_max_bytes cfg)"

lemma counted_refl [simp]: "counted cfg c [] c" by (simp add: counted_def)

lemma counted_trans: "counted cfg c fs c' \<Longrightarrow> counted cfg c' gs c'' \<Longrightarrow> counted cfg c (fs @ gs) c''"
  by (auto simp: counted_def)

lemma copy_ok:
  "copy_node cfg w p n c = Inr (m, c') \<Longrightarrow> p = [] \<or> \<not> excluded (sc_include_git cfg) p (is_directory (Some n)) \<Longrightarrow>
     (p = [] \<longrightarrow> is_directory (Some n)) \<Longrightarrow>
     only_files m \<and> is_directory (Some m) = is_directory (Some n) \<and> counted cfg c (tree_files p m) c' \<and>
     list_all (\<lambda>f. admitted cfg (fst f)) (tree_files p m)"
  "copy_entries cfg w p es c = Inr (ms, c') \<Longrightarrow>
     list_all (\<lambda>e. only_files (snd e)) ms \<and> counted cfg c (tree_files p (Dir ms)) c' \<and>
     list_all (\<lambda>f. admitted cfg (fst f)) (tree_files p (Dir ms))"
proof (induction cfg w p n c and cfg w p es c arbitrary: m c' and ms c' rule: copy_node_copy_entries.induct)
  case (3 cfg w p b c)
  then show ?case
    by (auto simp: is_directory_def counted_def admitted_def split: sum.splits prod.splits dest!: copy_file_ok)
next
  case (4 cfg w p es c)
  then show ?case
    by (auto simp: is_directory_def split: sum.splits prod.splits if_splits)
next
  case (6 cfg w p name n es c)
  let ?q = "p @ [name]" and ?d = "is_directory (Some n)"
  show ?case
  proof (cases "excluded (sc_include_git cfg) ?q ?d")
    case True
    then show ?thesis using 6(1) [OF refl refl] 6(4) by simp
  next
    case False
    then obtain m c1 ms' where git: "\<not> (?q = [''.git''] \<and> sc_include_git cfg \<and> \<not> ?d)"
      and m: "copy_node cfg w ?q n c = Inr (m, c1)" and rest: "copy_entries cfg w p es c1 = Inr (ms', c')"
      and ms: "ms = (name, m) # ms'"
      using 6(4) by (auto simp: Let_def split: if_splits sum.splits prod.splits)
    have a: "only_files m \<and> counted cfg c (tree_files ?q m) c1 \<and> list_all (\<lambda>f. admitted cfg (fst f)) (tree_files ?q m)"
      using 6(2) [OF refl refl False git m] False by simp
    have b: "list_all (\<lambda>e. only_files (snd e)) ms' \<and> counted cfg c1 (tree_files p (Dir ms')) c' \<and>
        list_all (\<lambda>f. admitted cfg (fst f)) (tree_files p (Dir ms'))"
      using 6(3) [OF refl refl False git m refl rest] .
    show ?thesis using a b counted_trans [of cfg c "tree_files ?q m" c1 "tree_files p (Dir ms')" c'] by (simp add: ms)
  qed
qed simp_all

text \<open>C19. Whatever happens to the workspace while it is copied, a snapshot that is taken holds only directories and
  regular files, at most the configured number of files and of bytes, and no file that the exclusion rules
  name: no \<open>.env\<close>, no audit log, nothing below a virtual environment, no Git metadata unless asked for.\<close>

theorem snapshot_contents:
  assumes "take_snapshot cfg w source sandbox_root fs = Inr m" "0 \<le> sc_max_files cfg" "0 \<le> sc_max_bytes cfg"
  shows "only_files m \<and> int (length (tree_files [] m)) \<le> sc_max_files cfg \<and>
    total_bytes (tree_files [] m) \<le> sc_max_bytes cfg \<and>
    list_all (\<lambda>f. \<not> excluded (sc_include_git cfg) (fst f) False) (tree_files [] m)"
proof -
  from assms(1) obtain es c where "copy_node cfg w [] (sorted_tree (Dir es)) (0, 0) = Inr (m, c)"
    by (auto simp: take_snapshot_def simp del: copy_node.simps sorted_tree.simps
        split: option.splits node.splits if_splits sum.splits)
  from copy_ok(1) [OF this] assms(2,3) show ?thesis
    by (auto simp: is_directory_def counted_def admitted_def)
qed

definition ex_obs :: "bytes \<Rightarrow> file_obs" where
  "ex_obs b = (let s = \<lparr>st_regular = True, st_size = int (length b), st_mtime_ns = 5, st_ctime_ns = 5, st_dev = 1, st_ino = 2\<rparr>
     in \<lparr>fo_stat = s, fo_opened = s, fo_opened_after = s, fo_after = s, fo_chunks = [b]\<rparr>)"

definition ex_source :: node where
  "ex_source = Dir [(''work'', Dir [(''b.py'', File ''xy''), (''.env'', File ''SECRET''), (''a'', Dir [(''c'', File ''z'')])])]"

definition ex_world :: copy_world where
  "ex_world = \<lparr>cw_file = (\<lambda>p. ex_obs (if p = [''b.py''] then ''xy'' else if p = [''.env''] then ''SECRET'' else ''z'')),
     cw_names = (\<lambda>p. if p = [] then [''b.py'', ''.env'', ''a''] else [''c''])\<rparr>"

definition ex_cfg :: snapshot_config where
  "ex_cfg = \<lparr>sc_include_git = False, sc_max_files = 2, sc_max_bytes = 3, sc_max_change_entries = 10, sc_nt = False\<rparr>"

lemma ex_snapshot: "take_snapshot ex_cfg ex_world [''work''] [''box''] ex_source =
    Inr (Dir [(''a'', Dir [(''c'', File ''z'')]), (''b.py'', File ''xy'')])"
  by code_simp

theorem snapshot_contents_witness:
  "total_bytes (tree_files [] (Dir [(''a'', Dir [(''c'', File ''z'')]), (''b.py'', File ''xy'')])) \<le> 3"
  using snapshot_contents [OF ex_snapshot] by (simp add: ex_cfg_def)

section \<open>A snapshot of a quiet workspace\<close>

text \<open>The reference: the tree without the excluded entries.\<close>

fun pruned :: "bool \<Rightarrow> path \<Rightarrow> node \<Rightarrow> node" where
  "pruned g p (Dir es) = Dir (map (\<lambda>e. (fst e, pruned g (p @ [fst e]) (snd e)))
     (filter (\<lambda>e. \<not> excluded g (p @ [fst e]) (is_directory (Some (snd e)))) es))"
| "pruned g p n = n"

text \<open>Nothing moved while the tree was read.\<close>

fun quiet :: "copy_world \<Rightarrow> path \<Rightarrow> node \<Rightarrow> bool" where
  "quiet w p (File b) = (let f = cw_file w p in st_regular (fo_stat f) \<and> st_size (fo_stat f) = int (length b) \<and>
     fo_opened f = fo_stat f \<and> fo_opened_after f = fo_stat f \<and> fo_after f = fo_stat f \<and> chunks_read (fo_chunks f) = b)"
| "quiet w p (Dir es) = (sort (cw_names w p) = map fst es \<and> list_all (\<lambda>e. quiet w (p @ [fst e]) (snd e)) es)"
| "quiet w p n = True"

definition git_file :: "snapshot_config \<Rightarrow> path \<Rightarrow> (string \<times> node) list \<Rightarrow> bool" where
  "git_file cfg p es \<longleftrightarrow> p = [] \<and> sc_include_git cfg \<and> (\<exists>n. (''.git'', n) \<in> set es \<and> \<not> is_directory (Some n))"

lemma same_file_version_refl [simp]: "same_file_version nt s s \<longleftrightarrow> st_regular s"
  by (simp add: same_file_version_def same_content_state_def)

lemma copy_chunks_fits:
  "used + int (length (chunks_read chunks)) \<le> m \<Longrightarrow>
     copy_chunks m chunks (n, used) = Inr (n + int (length (chunks_read chunks)), used + int (length (chunks_read chunks)))"
  by (induction m chunks "(n, used)" arbitrary: n used rule: copy_chunks.induct)
    (auto simp: chunks_read_def Let_def split: if_splits)

lemma copy_file_quiet:
  assumes "quiet w p (File b)" "fst c + 1 \<le> sc_max_files cfg" "snd c + int (length b) \<le> sc_max_bytes cfg"
  shows "copy_file cfg (cw_file w p) p c = Inr (b, (fst c + 1, snd c + int (length b)))"
  using assms copy_chunks_fits [of "snd c" "fo_chunks (cw_file w p)"]
  by (auto simp: copy_file_def Let_def same_content_state_def)

definition fits :: "snapshot_config \<Rightarrow> counts \<Rightarrow> (path \<times> bytes) list \<Rightarrow> bool" where
  "fits cfg c fs \<longleftrightarrow> fst c + int (length fs) \<le> sc_max_files cfg \<and> snd c + total_bytes fs \<le> sc_max_bytes cfg"

definition plus_files :: "counts \<Rightarrow> (path \<times> bytes) list \<Rightarrow> counts" where
  "plus_files c fs = (fst c + int (length fs), snd c + total_bytes fs)"

lemma total_bytes_nonneg: "0 \<le> total_bytes fs" by (simp add: total_bytes_def)

lemma fits_append: "fits cfg c (fs @ gs) \<Longrightarrow> fits cfg c fs \<and> fits cfg (plus_files c fs) gs"
  using total_bytes_nonneg [of gs] by (auto simp: fits_def plus_files_def)

lemma plus_files_simps [simp]: "plus_files c [] = c" "plus_files (plus_files c fs) gs = plus_files c (fs @ gs)"
  by (simp_all add: plus_files_def)

lemma copy_quiet:
  "quiet w p n \<Longrightarrow> only_files (pruned (sc_include_git cfg) p n) \<Longrightarrow>
     fits cfg c (tree_files p (pruned (sc_include_git cfg) p n)) \<Longrightarrow>
     (\<forall>es. n = Dir es \<longrightarrow> \<not> git_file cfg p es) \<Longrightarrow>
     copy_node cfg w p n c = Inr (pruned (sc_include_git cfg) p n, plus_files c (tree_files p (pruned (sc_include_git cfg) p n)))"
  "list_all (\<lambda>e. quiet w (p @ [fst e]) (snd e)) es \<Longrightarrow> only_files (pruned (sc_include_git cfg) p (Dir es)) \<Longrightarrow>
     fits cfg c (tree_files p (pruned (sc_include_git cfg) p (Dir es))) \<Longrightarrow> \<not> git_file cfg p es \<Longrightarrow>
     copy_entries cfg w p es c =
       (case pruned (sc_include_git cfg) p (Dir es) of Dir ms \<Rightarrow> Inr (ms, plus_files c (tree_files p (Dir ms))) | _ \<Rightarrow> Inl [])"
proof (induction cfg w p n c and cfg w p es c rule: copy_node_copy_entries.induct)
  case (3 cfg w p b c)
  then show ?case using copy_file_quiet [of w p b c cfg]
    by (auto simp: fits_def plus_files_def simp del: quiet.simps)
next
  case (4 cfg w p es c)
  then show ?case by auto
next
  case (6 cfg w p name n es c)
  let ?q = "p @ [name]" and ?g = "sc_include_git cfg"
  have git: "\<not> git_file cfg p es" using 6(7) by (auto simp: git_file_def)
  show ?case
  proof (cases "excluded ?g ?q (is_directory (Some n))")
    case True
    then show ?thesis using 6(1) [OF refl refl] 6(4-6) git by (simp add: Let_def)
  next
    case False
    have nogit: "\<not> (?q = [''.git''] \<and> ?g \<and> \<not> is_directory (Some n))" using 6(7) by (auto simp: git_file_def)
    let ?m = "pruned ?g ?q n"
    obtain ms where ms: "pruned ?g p (Dir es) = Dir ms" by simp
    have fit: "fits cfg c (tree_files ?q ?m)" "fits cfg (plus_files c (tree_files ?q ?m)) (tree_files p (Dir ms))"
      using 6(6) False ms fits_append [of cfg c "tree_files ?q ?m" "tree_files p (Dir ms)"] by auto
    have m: "copy_node cfg w ?q n c = Inr (?m, plus_files c (tree_files ?q ?m))"
      using 6(2) [OF refl refl False nogit] 6(4,5) fit(1) False by (auto simp: git_file_def)
    have rest: "copy_entries cfg w p es (plus_files c (tree_files ?q ?m)) =
        Inr (ms, plus_files (plus_files c (tree_files ?q ?m)) (tree_files p (Dir ms)))"
      using 6(3) [OF refl refl False nogit m refl] 6(4,5) fit(2) ms git False by (auto simp: list_all_iff)
    show ?thesis using False nogit m rest ms by (simp add: Let_def)
  qed
qed simp_all

text \<open>On a workspace that nobody changes, whose admitted part has only directories and regular files within the
  limits, taking the snapshot succeeds, and the snapshot is the workspace without the excluded entries,
  in the order of the names.\<close>

theorem snapshot_of_quiet_workspace:
  assumes "lookup source fs = Some (Dir es)" "sandbox_root \<noteq> source" "\<not> strict_prefix source sandbox_root"
    and "quiet w [] (sorted_tree (Dir es))" "only_files (pruned (sc_include_git cfg) [] (sorted_tree (Dir es)))"
    and "int (length (tree_files [] (pruned (sc_include_git cfg) [] (sorted_tree (Dir es))))) \<le> sc_max_files cfg"
    and "total_bytes (tree_files [] (pruned (sc_include_git cfg) [] (sorted_tree (Dir es)))) \<le> sc_max_bytes cfg"
    and "sc_include_git cfg \<Longrightarrow> is_directory (lookup [''.git''] (sorted_tree (Dir es))) \<or> ''.git'' \<notin> set (keys es)"
    and "distinct (keys es)"
  shows "take_snapshot cfg w source sandbox_root fs = Inr (pruned (sc_include_git cfg) [] (sorted_tree (Dir es)))"
proof -
  obtain es' where es': "sorted_tree (Dir es) = Dir es'" "es' = sort_key fst (map (\<lambda>e. (fst e, sorted_tree (snd e))) es)"
    by simp
  have "distinct (keys es')" using assms(9) es'(2) distinct_keys_sort [of "map (\<lambda>e. (fst e, sorted_tree (snd e))) es"]
    by (simp add: o_def)
  moreover have "set (keys es') = set (keys es)" by (simp add: es'(2) image_image)
  ultimately have "\<not> git_file cfg [] es'"
    using assms(8) es'(1)
    by (auto simp: git_file_def is_directory_def image_iff split: option.splits node.splits)
  then show ?thesis
    using copy_quiet(1) [OF assms(4,5), of "(0, 0)"] assms(1-3,6,7)
    by (simp add: take_snapshot_def fits_def es'(1) del: copy_node.simps sorted_tree.simps)
qed

theorem snapshot_of_quiet_workspace_witness:
  "take_snapshot ex_cfg ex_world [''work''] [''box''] ex_source =
     Inr (pruned False [] (sorted_tree (Dir [(''b.py'', File ''xy''), (''.env'', File ''SECRET''), (''a'', Dir [(''c'', File ''z'')])])))"
proof -
  let ?es = "[(''b.py'', File ''xy''), (''.env'', File ''SECRET''), (''a'', Dir [(''c'', File ''z'')])]"
  have "lookup [''work''] ex_source = Some (Dir ?es)" by (simp add: ex_source_def)
  moreover have "quiet ex_world [] (sorted_tree (Dir ?es))" "only_files (pruned False [] (sorted_tree (Dir ?es)))"
    "int (length (tree_files [] (pruned False [] (sorted_tree (Dir ?es))))) \<le> 2"
    "total_bytes (tree_files [] (pruned False [] (sorted_tree (Dir ?es)))) \<le> 3"
    by code_simp+
  ultimately show ?thesis
    using snapshot_of_quiet_workspace [of "[''work'']" ex_source ?es "[''box'']" ex_world ex_cfg] by (simp add: ex_cfg_def)
qed

section \<open>The change report\<close>

definition name_ok :: "string \<Rightarrow> bool" where
  "name_ok c \<longleftrightarrow> c \<noteq> [] \<and> CHR ''/'' \<notin> set c"

fun wf_tree :: "node \<Rightarrow> bool" where
  "wf_tree (Dir es) = (distinct (keys es) \<and> list_all (\<lambda>e. name_ok (fst e) \<and> wf_tree (snd e)) es)"
| "wf_tree n = True"

lemma split_slash_name: "CHR ''/'' \<notin> set c \<Longrightarrow> split_slash c = [c]"
  by (induction c) auto

lemma split_slash_Cons: "CHR ''/'' \<notin> set c \<Longrightarrow> split_slash (c @ CHR ''/'' # s) = c # split_slash s"
  by (induction c) auto

lemma split_join: "p \<noteq> [] \<Longrightarrow> list_all name_ok p \<Longrightarrow> split_slash (join_slash p) = p"
  by (induction p rule: join_slash.induct) (auto simp: split_slash_name split_slash_Cons name_ok_def)

lemma join_slash_inj:
  "p \<noteq> [] \<Longrightarrow> q \<noteq> [] \<Longrightarrow> list_all name_ok p \<Longrightarrow> list_all name_ok q \<Longrightarrow> join_slash p = join_slash q \<longleftrightarrow> p = q"
  by (metis split_join)

text \<open>The files of a well-formed tree are what \<open>lookup\<close> finds.\<close>

lemma tree_files_lookup:
  "wf_tree n \<Longrightarrow> f \<in> set (tree_files p n) \<longleftrightarrow> (\<exists>q b. f = (p @ q, b) \<and> lookup q n = Some (File b))"
proof (induction p n rule: tree_files.induct)
  case (1 p b)
  then show ?case by (auto elim: lookup.elims)
next
  case (2 p es)
  have "f \<in> set (tree_files p (Dir es)) \<longleftrightarrow> (\<exists>e \<in> set es. f \<in> set (tree_files (p @ [fst e]) (snd e)))" by auto
  also have "\<dots> \<longleftrightarrow> (\<exists>e \<in> set es. \<exists>q b. f = (p @ [fst e] @ q, b) \<and> lookup q (snd e) = Some (File b))"
    using 2 by (auto simp: list_all_iff)
  also have "\<dots> \<longleftrightarrow> (\<exists>q b. f = (p @ q, b) \<and> lookup q (Dir es) = Some (File b))" (is "?l = ?r")
  proof
    assume ?l
    then obtain e q b where "e \<in> set es" "f = (p @ [fst e] @ q, b)" "lookup q (snd e) = Some (File b)" by blast
    moreover then have "map_of es (fst e) = Some (snd e)" using 2(2) by simp
    ultimately show ?r by (intro exI [of _ "fst e # q"] exI [of _ b]) simp
  next
    assume ?r
    then obtain q b where q: "f = (p @ q, b)" "lookup q (Dir es) = Some (File b)" by blast
    then obtain c r m where "q = c # r" "map_of es c = Some m" "lookup r m = Some (File b)"
      by (cases q) (auto split: option.splits)
    then show ?l using q by (intro bexI [of _ "(c, m)"] exI [of _ r] exI [of _ b]) (auto dest: map_of_SomeD)
  qed
  finally show ?case .
qed (auto elim: lookup.elims)

lemma wf_tree_path_ok: "lookup q n = Some m \<Longrightarrow> wf_tree n \<Longrightarrow> list_all name_ok q"
  by (induction q n rule: lookup.induct) (auto split: option.splits simp: list_all_iff dest!: map_of_SomeD)

lemma map_snd_tree: "map (\<lambda>e. (fst e, sorted_tree (snd e))) es = map (apsnd sorted_tree) es"
  by (auto simp: apsnd_def)

lemma wf_sorted_tree: "wf_tree n \<Longrightarrow> wf_tree (sorted_tree n)"
proof (induction n rule: sorted_tree.induct)
  case (1 es)
  then have "distinct (keys (map (\<lambda>e. (fst e, sorted_tree (snd e))) es))" by (simp add: o_def)
  from distinct_keys_sort [OF this] 1 show ?case by (auto simp: list_all_iff)
qed auto

lemma lookup_sorted_tree: "wf_tree n \<Longrightarrow> lookup q (sorted_tree n) = map_option sorted_tree (lookup q n)"
proof (induction q n rule: lookup.induct)
  case (2 c q es)
  have "distinct (keys (map (\<lambda>e. (fst e, sorted_tree (snd e))) es))" using 2(2) by (simp add: o_def)
  then have "map_of (sort_key fst (map (\<lambda>e. (fst e, sorted_tree (snd e))) es)) c = map_option sorted_tree (map_of es c)"
    by (simp only: map_of_sort_key) (rule map_of_map_snd)
  then show ?case using 2 by (auto split: option.splits simp: list_all_iff dest: map_of_SomeD)
qed auto

lemma lookup_sorted_File: "wf_tree n \<Longrightarrow> lookup q (sorted_tree n) = Some (File b) \<longleftrightarrow> lookup q n = Some (File b)"
  by (auto simp: lookup_sorted_tree elim: sorted_tree.elims)

text \<open>The manifest lists the files outside \<open>.git\<close>.\<close>

lemma manifest_ok:
  "manifest_node cfg sha p n c = Inr (d, c') \<Longrightarrow> p = [] \<or> hd p \<noteq> ''.git'' \<Longrightarrow>
     d = map (\<lambda>f. (join_slash (fst f), hexlify (sha (snd f)))) (filter (\<lambda>f. fst f = [] \<or> hd (fst f) \<noteq> ''.git'') (tree_files p n))"
  "manifest_entries cfg sha p es c = Inr (d, c') \<Longrightarrow> p = [] \<or> hd p \<noteq> ''.git'' \<Longrightarrow>
     d = map (\<lambda>f. (join_slash (fst f), hexlify (sha (snd f)))) (filter (\<lambda>f. fst f = [] \<or> hd (fst f) \<noteq> ''.git'') (tree_files p (Dir es)))"
proof (induction cfg sha p n c and cfg sha p es c arbitrary: d c' and d c' rule: manifest_node_manifest_entries.induct)
  case (6 cfg sha p name n es c)
  have below: "filter (\<lambda>f. fst f = [] \<or> hd (fst f) \<noteq> ''.git'') (tree_files q m) = []" if "q \<noteq> []" "hd q = ''.git''" for q m
    using that by (induction q m rule: tree_files.induct) (auto simp: filter_concat)
  show ?case
  proof (cases "hd (p @ [name]) = ''.git''")
    case True
    then show ?thesis using 6(1) 6(4,5) below [of "p @ [name]" n] by auto
  next
    case False
    then show ?thesis using 6(2-5) by (auto split: sum.splits prod.splits)
  qed
qed (auto simp: Let_def split: if_splits)

text \<open>The digest the manifest holds for a path of the tree.\<close>

lemma manifest_lookup:
  assumes "manifest cfg sha n = Inr d" "wf_tree n" "q \<noteq> []" "hd q \<noteq> ''.git''" "list_all name_ok q"
  shows "(join_slash q, h) \<in> set d \<longleftrightarrow> (\<exists>b. lookup q n = Some (File b) \<and> h = hexlify (sha b))"
proof -
  from assms(1) obtain c where "manifest_node cfg sha [] (sorted_tree n) (0, 0) = Inr (d, c)"
    by (auto simp: manifest_def split: sum.splits)
  then have d: "d = map (\<lambda>f. (join_slash (fst f), hexlify (sha (snd f))))
      (filter (\<lambda>f. fst f = [] \<or> hd (fst f) \<noteq> ''.git'') (tree_files [] (sorted_tree n)))"
    by (rule manifest_ok) simp
  have files: "f \<in> set (tree_files [] (sorted_tree n)) \<longleftrightarrow> lookup (fst f) n = Some (File (snd f))" for f
    using tree_files_lookup [OF wf_sorted_tree [OF assms(2)], of f "[]"]
    by (cases f) (simp add: lookup_sorted_File assms(2))
  have inj: "r = q" if "join_slash q = join_slash r" "lookup r n = Some (File b)" for r b
  proof -
    have "join_slash q \<noteq> []" using assms(3,5) split_join [of q] by (cases q rule: join_slash.cases) (auto simp: name_ok_def)
    then have "r \<noteq> []" using that(1) by auto
    then show ?thesis using that(1) join_slash_inj [of q r] assms(3,5) wf_tree_path_ok [OF that(2) assms(2)] by simp
  qed
  show ?thesis
  proof
    assume "(join_slash q, h) \<in> set d"
    then obtain f where "join_slash q = join_slash (fst f)" "h = hexlify (sha (snd f))" "lookup (fst f) n = Some (File (snd f))"
      by (auto simp: d files)
    then show "\<exists>b. lookup q n = Some (File b) \<and> h = hexlify (sha b)" using inj by metis
  next
    assume "\<exists>b. lookup q n = Some (File b) \<and> h = hexlify (sha b)"
    then obtain b where "lookup q n = Some (File b)" "h = hexlify (sha b)" by blast
    then show "(join_slash q, h) \<in> set d" using assms(4) files [of "(q, b)"]
      by (auto simp: d image_iff intro!: bexI [of _ "(q, b)"])
  qed
qed

lemma sort_take_empty: "take (nat limit) (sort xs) = [] \<Longrightarrow> 0 < limit \<Longrightarrow> set xs = {}"
  by (metis set_sort empty_set nat_0_iff not_le take_eq_Nil)

lemma changes_empty:
  assumes "ch_added (changes limit i c) = []" "ch_modified (changes limit i c) = []" "ch_deleted (changes limit i c) = []"
    and "0 < limit"
  shows "map_of i k = map_of c k"
proof -
  have "set (filter (\<lambda>k. k \<notin> set (keys i)) (keys c)) = {}"
    "set (filter (\<lambda>k. k \<in> set (keys c) \<and> map_of i k \<noteq> map_of c k) (keys i)) = {}"
    "set (filter (\<lambda>k. k \<notin> set (keys c)) (keys i)) = {}"
    using assms(1-3) by (auto simp only: changes_def Let_def snapshot_changes.simps dest!: sort_take_empty [OF _ assms(4)])
  then have "set (keys c) \<subseteq> set (keys i)" "set (keys i) \<subseteq> set (keys c)"
    "k \<in> set (keys i) \<Longrightarrow> k \<in> set (keys c) \<Longrightarrow> map_of i k = map_of c k"
    by auto
  then show ?thesis by (metis map_of_eq_None_keys subsetD)
qed

lemma map_of_only:
  assumes "(k, h) \<in> set d" "\<And>h'. (k, h') \<in> set d \<Longrightarrow> h' = h"
  shows "map_of d k = Some h"
proof (cases "map_of d k")
  case None
  then have "k \<notin> fst ` set d" by (simp add: map_of_eq_None_iff)
  then show ?thesis using assms(1) by (metis fst_conv image_eqI)
next
  case (Some h')
  then show ?thesis using assms(2) [OF map_of_SomeD] by simp
qed

text \<open>An empty change report can be trusted: when the manifests of the snapshot before and after the command differ
  in no entry, then every path outside \<open>.git\<close> that was a file is still a file and the other way round, with
  the same content, unless SHA-256 gives two different contents of that path the same digest.\<close>

theorem empty_report_unchanged:
  assumes "manifest cfg sha before = Inr i" "manifest cfg sha after = Inr c" "wf_tree before" "wf_tree after"
    and "ch_added (changes limit i c) = []" "ch_modified (changes limit i c) = []" "ch_deleted (changes limit i c) = []"
    and "0 < limit" "q \<noteq> []" "hd q \<noteq> ''.git''"
  shows "((\<exists>b. lookup q before = Some (File b)) \<longleftrightarrow> (\<exists>b. lookup q after = Some (File b))) \<and>
    (\<forall>b b'. lookup q before = Some (File b) \<longrightarrow> lookup q after = Some (File b') \<longrightarrow>
       b = b' \<or> (b \<noteq> b' \<and> sha b = sha b'))"
proof (cases "list_all name_ok q")
  case True
  note mb = manifest_lookup [OF assms(1,3,9,10) True] and ma = manifest_lookup [OF assms(2,4,9,10) True]
  have same: "map_of i (join_slash q) = map_of c (join_slash q)" by (rule changes_empty [OF assms(5-8)])
  have b: "lookup q before = Some (File b) \<Longrightarrow> map_of i (join_slash q) = Some (hexlify (sha b))" for b
    by (rule map_of_only) (auto simp: mb)
  have a: "lookup q after = Some (File b) \<Longrightarrow> map_of c (join_slash q) = Some (hexlify (sha b))" for b
    by (rule map_of_only) (auto simp: ma)
  have "(\<exists>b. lookup q before = Some (File b)) \<longleftrightarrow> map_of i (join_slash q) \<noteq> None"
    using b mb map_of_SomeD [of i "join_slash q"] by fastforce
  moreover have "(\<exists>b. lookup q after = Some (File b)) \<longleftrightarrow> map_of c (join_slash q) \<noteq> None"
    using a ma map_of_SomeD [of c "join_slash q"] by fastforce
  ultimately show ?thesis using a b same by auto
next
  case False
  then show ?thesis using wf_tree_path_ok [of q before] wf_tree_path_ok [of q after] assms(3,4) by auto
qed

theorem empty_report_unchanged_witness:
  "(\<exists>b. lookup [''b.py''] (Dir [(''b.py'', File ''xy'')]) = Some (File b)) \<longleftrightarrow>
   (\<exists>b. lookup [''b.py''] (Dir [(''b.py'', File ''xy''), (''.git'', File ''z'')]) = Some (File b))"
proof -
  let ?b = "Dir [(''b.py'', File ''xy'')]" and ?a = "Dir [(''b.py'', File ''xy''), (''.git'', File ''z'')]"
  let ?m = "[(''b.py'', hexlify ''xy'')]"
  have "manifest ex_cfg (\<lambda>b. b) ?b = Inr ?m" "manifest ex_cfg (\<lambda>b. b) ?a = Inr ?m" "wf_tree ?b" "wf_tree ?a"
    "ch_added (changes 10 ?m ?m) = []" "ch_modified (changes 10 ?m ?m) = []" "ch_deleted (changes 10 ?m ?m) = []"
    by code_simp+
  from empty_report_unchanged [OF this, of "[''b.py'']"] show ?thesis by simp
qed

section \<open>Bounded output\<close>

text \<open>The capture of a process is its output cut at the limit: standard output and standard error are the decoded
  first \<open>max_output\<close> bytes of what the pipes delivered, no more is ever kept, and the result says truncated
  exactly when one of the two pipes delivered more.\<close>

theorem process_output_bounded:
  assumes "run_bounded_process decode_replace w max_output = Inr p" "0 \<le> max_output"
  shows "po_stdout p = decode_replace (take (nat max_output) (chunks_read (pw_stdout w))) \<and>
    po_stderr p = decode_replace (take (nat max_output) (chunks_read (pw_stderr w))) \<and>
    (po_truncated p \<longleftrightarrow> max_output < int (length (chunks_read (pw_stdout w))) \<or>
       max_output < int (length (chunks_read (pw_stderr w))))"
proof -
  have d: "drain chunks (buffer_init max_output) = \<lparr>bb_limit = max_output, bb_data = take (nat max_output) (chunks_read chunks),
      bb_truncated = (max_output < int (length (chunks_read chunks)))\<rparr>" for chunks
    using drain_prefix [of max_output "buffer_init max_output" "[]" chunks] assms(2)
    by (simp add: buffer_init_def chunks_read_def)
  show ?thesis using assms(1) by (auto simp: run_bounded_process_def d Let_def split: if_splits)
qed

theorem process_output_bounded_witness:
  "\<exists>p. run_bounded_process (\<lambda>b. b) \<lparr>pw_found = True, pw_stdout = [''abc'', ''de'', []], pw_stderr = [],
       pw_exit = Some 0, pw_killed = 9\<rparr> 4 = Inr p \<and> po_stdout p = ''abcd'' \<and> po_truncated p"
proof -
  let ?w = "\<lparr>pw_found = True, pw_stdout = [''abc'', ''de'', []], pw_stderr = [], pw_exit = Some 0, pw_killed = 9\<rparr>"
  obtain p where p: "run_bounded_process (\<lambda>b. b) ?w 4 = Inr p" by (simp add: run_bounded_process_def Let_def)
  from process_output_bounded [OF this] p show ?thesis by (simp add: chunks_read_def)
qed

end
