(* ===== verification/C0_Probe.thy ===== *)
theory C0_Probe
  imports Models Crypto
begin

text \<open>
  c0_probe.py: the synthetic connectivity probe. A challenge is accepted once; the answer is a fixed
  attestation that carries the digest of the challenge and the digests the probe was built with.
  SHA-256 is a parameter, and so is pydantic's parser of timestamps.
\<close>

section \<open>Patterns\<close>

definition lower_hex :: "char \<Rightarrow> bool" where
  "lower_hex c \<longleftrightarrow> c \<in> set ''0123456789abcdef''"

definition challenge_pattern :: "string \<Rightarrow> bool" where
  "challenge_pattern s \<longleftrightarrow> take 3 s = ''c0_'' \<and> length s = 35 \<and> list_all lower_hex (drop 3 s)"

definition hex_of_length :: "nat \<Rightarrow> string \<Rightarrow> bool" where
  "hex_of_length n s \<longleftrightarrow> length s = n \<and> list_all lower_hex s"

abbreviation sha256_pattern :: "string \<Rightarrow> bool" where
  "sha256_pattern \<equiv> hex_of_length 64"

abbreviation git_commit_pattern :: "string \<Rightarrow> bool" where
  "git_commit_pattern \<equiv> hex_of_length 40"

definition c0_audit_id_pattern :: "string \<Rightarrow> bool" where
  "c0_audit_id_pattern s \<longleftrightarrow>
     length s = 36 \<and>
     list_all (\<lambda>i. if i \<in> {8, 13, 18, 23} then s ! i = CHR ''-'' else lower_hex (s ! i)) [0..<36] \<and>
     s ! 14 = CHR ''4'' \<and> s ! 19 \<in> set ''89ab''"

lemma lower_hex_hexdig: "n < 16 \<Longrightarrow> lower_hex (hexdig n)"
  unfolding lower_hex_def hexdig_def by (rule nth_mem) simp

lemma hex_of_length_hexlify: "hex_of_length (2 * length b) (hexlify b)"
proof -
  have "list_all lower_hex (hex_byte c)" for c
    by (simp add: hex_byte_def lower_hex_hexdig of_char_div_16)
  then have "list_all lower_hex (hexlify b)" by (induction b) (simp_all add: hexlify_def)
  then show ?thesis by (simp add: hex_of_length_def)
qed

section \<open>Context and replay guard\<close>

record c0_context =
  cx_server_build_commit :: string
  cx_local_policy_sha256 :: string
  cx_tool_snapshot_sha256 :: string

definition c0_context_post_init :: "c0_context \<Rightarrow> string + c0_context" where
  "c0_context_post_init cx =
     (if \<not> git_commit_pattern (cx_server_build_commit cx)
        then Inl ''C0 server build commit must be a lowercase full Git SHA''
      else if \<not> sha256_pattern (cx_local_policy_sha256 cx)
        then Inl ''C0 local policy digest must be lowercase SHA-256''
      else if \<not> sha256_pattern (cx_tool_snapshot_sha256 cx)
        then Inl ''C0 tool snapshot digest must be lowercase SHA-256''
      else Inr cx)"

record c0_guard =
  cg_max_entries :: int
  cg_digests :: "string list"

definition c0_guard_init :: "int \<Rightarrow> string + c0_guard" where
  "c0_guard_init max_entries =
     (if max_entries < 1 \<or> 100000 < max_entries then Inl ''C0 replay guard size is outside the safe range''
      else Inr \<lparr>cg_max_entries = max_entries, cg_digests = []\<rparr>)"

definition c0_consume :: "string \<Rightarrow> c0_guard \<Rightarrow> (string + unit) \<times> c0_guard" where
  "c0_consume digest g =
     (if digest \<in> set (cg_digests g) then (Inl ''C0 challenge has already been consumed'', g)
      else if cg_max_entries g \<le> int (length (cg_digests g))
        then (Inl ''C0 replay guard capacity is exhausted'', g)
      else (Inr (), g\<lparr>cg_digests := digest # cg_digests g\<rparr>))"

definition c0_guard_ok :: "c0_guard \<Rightarrow> bool" where
  "c0_guard_ok g \<longleftrightarrow> distinct (cg_digests g) \<and> int (length (cg_digests g)) \<le> cg_max_entries g"

lemma c0_guard_init_ok [wf_intros]: "c0_guard_init n = Inr g \<Longrightarrow> c0_guard_ok g"
  by (auto simp: c0_guard_init_def c0_guard_ok_def split: if_splits)

lemma c0_consume_ok [wf_intros]: "c0_guard_ok g \<Longrightarrow> c0_consume d g = (r, g') \<Longrightarrow> c0_guard_ok g'"
  by (auto simp: c0_consume_def c0_guard_ok_def split: if_splits)

section \<open>The probe\<close>

text \<open>A call of the probe: \<open>clock\<close> is what the injected clock returns.\<close>

definition c0_challenge :: "(string \<times> json) list \<Rightarrow> string + string" where
  "c0_challenge arguments =
     (if set (keys arguments) \<noteq> {''challenge''} then Inl ''C0 probe requires exactly one challenge''
      else case map_of arguments ''challenge'' of
        Some (JStr challenge) \<Rightarrow>
          if challenge_pattern challenge then Inr challenge else Inl ''C0 challenge has an invalid format''
      | _ \<Rightarrow> Inl ''C0 challenge has an invalid format'')"

definition c0_answer :: "c0_context \<Rightarrow> string \<Rightarrow> datetime \<Rightarrow> (string \<times> json) list" where
  "c0_answer cx digest clock =
     [(''probe_protocol_version'', JStr ''c0.v1''), (''challenge_sha256'', JStr digest),
      (''server_build_commit'', JStr (cx_server_build_commit cx)),
      (''local_policy_sha256'', JStr (cx_local_policy_sha256 cx)),
      (''tool_snapshot_sha256'', JStr (cx_tool_snapshot_sha256 cx)),
      (''read_only'', JBool True), (''write_actions_enabled'', JBool False),
      (''real_evidence_access'', JBool False), (''protocol_v2_reachable'', JBool False),
      (''observed_at'', JStr (dt_text clock))]"

definition c0_execute ::
  "(bytes \<Rightarrow> bytes) \<Rightarrow> c0_context \<Rightarrow> datetime \<Rightarrow> (string \<times> json) list \<Rightarrow> c0_guard \<Rightarrow>
   (string + (string \<times> json) list) \<times> c0_guard" where
  "c0_execute sha256 cx clock arguments g =
     (case c0_challenge arguments of Inl e \<Rightarrow> (Inl e, g)
      | Inr challenge \<Rightarrow>
          (let digest = hexlify (sha256 challenge) in
           case c0_consume digest g of (Inl e, g') \<Rightarrow> (Inl e, g')
           | (Inr _, g') \<Rightarrow>
               if \<not> dt_aware clock then (Inl ''C0 probe clock must return a timezone-aware timestamp'', g')
               else (Inr (c0_answer cx digest clock), g')))"

definition c0_response_fields :: "string list" where
  "c0_response_fields = [''probe_protocol_version'', ''challenge_sha256'', ''server_build_commit'',
     ''local_policy_sha256'', ''tool_snapshot_sha256'', ''read_only'', ''write_actions_enabled'',
     ''real_evidence_access'', ''protocol_v2_reachable'', ''audit_correlation'', ''observed_at'']"

definition text_field :: "(string \<Rightarrow> bool) \<Rightarrow> (string \<times> json) list \<Rightarrow> string \<Rightarrow> bool" where
  "text_field ok d k = (case map_of d k of Some (JStr s) \<Rightarrow> ok s | _ \<Rightarrow> False)"

text \<open>The response model: exactly these fields, the patterns, the literal flags, and an aware timestamp.\<close>

definition c0_response_valid :: "(string \<Rightarrow> datetime option) \<Rightarrow> (string \<times> json) list \<Rightarrow> bool" where
  "c0_response_valid parse_dt d \<longleftrightarrow>
     set (keys d) = set c0_response_fields \<and>
     text_field (\<lambda>s. s = ''c0.v1'') d ''probe_protocol_version'' \<and>
     text_field sha256_pattern d ''challenge_sha256'' \<and> text_field git_commit_pattern d ''server_build_commit'' \<and>
     text_field sha256_pattern d ''local_policy_sha256'' \<and> text_field sha256_pattern d ''tool_snapshot_sha256'' \<and>
     map_of d ''read_only'' = Some (JBool True) \<and> map_of d ''write_actions_enabled'' = Some (JBool False) \<and>
     map_of d ''real_evidence_access'' = Some (JBool False) \<and>
     map_of d ''protocol_v2_reachable'' = Some (JBool False) \<and>
     text_field c0_audit_id_pattern d ''audit_correlation'' \<and>
     text_field (\<lambda>s. case parse_dt s of None \<Rightarrow> False | Some t \<Rightarrow> dt_aware t) d ''observed_at''"

text \<open>\<open>finalize_c0_response\<close>: validation, then the fields in the order of the model with the timestamp in
  UTC, as \<open>json_utc\<close> writes it; \<open>None\<close> is the validation error.\<close>

definition finalize_c0_response ::
  "(string \<Rightarrow> datetime option) \<Rightarrow> (int \<Rightarrow> string) \<Rightarrow> (string \<times> json) list \<Rightarrow> string \<Rightarrow> (string \<times> json) list option" where
  "finalize_c0_response parse_dt json_utc output audit_correlation =
     (let d = AList.update ''audit_correlation'' (JStr audit_correlation) output in
      if \<not> c0_response_valid parse_dt d then None
      else Some (map (\<lambda>k. (k, if k = ''observed_at''
          then (case map_of d k of Some (JStr s) \<Rightarrow>
                  (case parse_dt s of Some t \<Rightarrow> JStr (json_utc (dt_instant t)) | None \<Rightarrow> JNull) | _ \<Rightarrow> JNull)
          else (case map_of d k of Some v \<Rightarrow> v | None \<Rightarrow> JNull))) c0_response_fields))"

section \<open>Properties\<close>

lemma c0_challenge_format:
  "c0_challenge arguments = Inr ch \<Longrightarrow> map_of arguments ''challenge'' = Some (JStr ch) \<and> challenge_pattern ch"
  by (cases "set (keys arguments) = {''challenge''}")
    (auto simp only: c0_challenge_def if_True if_False simp_thms split: option.splits json.splits if_splits)

text \<open>What a probe call does with the guard: it leaves it alone, or it consumes the digest of its challenge.\<close>

lemma c0_execute_cases:
  assumes "c0_execute sha256 cx clock arguments g = (r, g')"
  obtains (refused) e where "r = Inl e" "g' = g"
  | (consumed) ch where "c0_challenge arguments = Inr ch" "c0_consume (hexlify (sha256 ch)) g = (Inr (), g')"
      "r = Inr (c0_answer cx (hexlify (sha256 ch)) clock) \<or> \<not> is_ok r"
proof -
  show ?thesis
  proof (cases "c0_challenge arguments")
    case (Inl e)
    then show ?thesis using assms that(1) by (auto simp: c0_execute_def)
  next
    case (Inr ch)
    obtain q k where q: "c0_consume (hexlify (sha256 ch)) g = (q, k)" by fastforce
    show ?thesis
    proof (cases q)
      case (Inl e)
      then have "k = g" using q by (auto simp: c0_consume_def split: if_splits)
      then show ?thesis using assms that(1) q Inl Inr by (auto simp: c0_execute_def Let_def)
    next
      case (Inr u)
      then show ?thesis using assms that(2) [of ch] q \<open>c0_challenge arguments = Inr ch\<close>
        by (auto simp: c0_execute_def Let_def split: if_splits)
    qed
  qed
qed

definition c0_step ::
  "(bytes \<Rightarrow> bytes) \<Rightarrow> c0_context \<Rightarrow> datetime \<times> (string \<times> json) list \<Rightarrow> c0_guard \<Rightarrow>
   (string + (string \<times> json) list) \<times> c0_guard" where
  "c0_step sha256 cx c g = c0_execute sha256 cx (fst c) (snd c) g"

interpretation c0_calls: single_use "c0_step sha256 cx"
  "\<lambda>c r k. is_ok r \<and> (\<exists>ch. c0_challenge (snd c) = Inr ch \<and> k = hexlify (sha256 ch))" "\<lambda>c k. False"
  "\<lambda>g k. k \<in> set (cg_digests g)" c0_guard_ok
proof (unfold_locales, unfold c0_step_def, goal_cases)
  case (1 s c r s' k)
  from 1(2) show ?case by (cases rule: c0_execute_cases) (use 1(3) in \<open>auto simp: c0_consume_def split: if_splits\<close>)
next
  case (2 s c r s' k)
  from 2(2) show ?case by (cases rule: c0_execute_cases) (use 2(3) in \<open>auto simp: c0_consume_def split: if_splits\<close>)
next
  case (3 s c r s' k)
  from 3(2) show ?case by (cases rule: c0_execute_cases) (use 3(3) in \<open>auto simp: c0_consume_def split: if_splits\<close>)
next
  case (4 s c r s')
  from 4(2) show ?case by (cases rule: c0_execute_cases) (use 4(1) in \<open>auto intro: c0_consume_ok\<close>)
qed

text \<open>Over any run of the probe a challenge is answered at most once: two answered calls carry well-formed
  challenges with different digests.\<close>

theorem c0_challenge_answered_once:
  assumes "c0_guard_init n = Inr g" "i < j" "j < length cs"
    and "is_ok (result_at (c0_step sha256 cx) cs g i)" "is_ok (result_at (c0_step sha256 cx) cs g j)"
  shows "\<exists>a b. map_of (snd (cs ! i)) ''challenge'' = Some (JStr a) \<and> map_of (snd (cs ! j)) ''challenge'' = Some (JStr b) \<and>
    challenge_pattern a \<and> challenge_pattern b \<and> hexlify (sha256 a) \<noteq> hexlify (sha256 b)"
proof -
  note ok = c0_guard_init_ok [OF assms(1)]
  have answered: "\<exists>a. c0_challenge (snd (cs ! m)) = Inr a"
    if "m < length cs" "is_ok (result_at (c0_step sha256 cx) cs g m)" for m
    using step_at [of m cs "c0_step sha256 cx" g] that
    by (auto simp: c0_step_def elim: c0_execute_cases)
  obtain a where a: "c0_challenge (snd (cs ! i)) = Inr a" using answered [of i] assms by auto
  obtain b where b: "c0_challenge (snd (cs ! j)) = Inr b" using answered [of j] assms by auto
  have "hexlify (sha256 a) \<noteq> hexlify (sha256 b)"
    using c0_calls.used_once [OF ok assms(2,3), of sha256 cx "hexlify (sha256 a)"] assms(4,5) a b by auto
  then show ?thesis using c0_challenge_format [OF a] c0_challenge_format [OF b] by auto
qed

definition ex_challenge :: "char \<Rightarrow> (string \<times> json) list" where
  "ex_challenge c = [(''challenge'', JStr (''c0_'' @ replicate 32 c))]"

theorem c0_challenge_answered_once_witness:
  "is_ok (result_at (c0_step (\<lambda>b. b) \<lparr>cx_server_build_commit = [], cx_local_policy_sha256 = [], cx_tool_snapshot_sha256 = []\<rparr>)
      [(\<lparr>dt_instant = 0, dt_aware = True, dt_text = ''t''\<rparr>, ex_challenge (CHR ''a'')),
       (\<lparr>dt_instant = 0, dt_aware = True, dt_text = ''t''\<rparr>, ex_challenge (CHR ''b''))]
      \<lparr>cg_max_entries = 5, cg_digests = []\<rparr> 1) \<and>
   (\<exists>a b. map_of (ex_challenge (CHR ''a'')) ''challenge'' = Some (JStr a) \<and> map_of (ex_challenge (CHR ''b'')) ''challenge'' = Some (JStr b) \<and>
     challenge_pattern a \<and> challenge_pattern b \<and> hexlify a \<noteq> hexlify b)"
proof -
  let ?cx = "\<lparr>cx_server_build_commit = [], cx_local_policy_sha256 = [], cx_tool_snapshot_sha256 = []\<rparr>"
  let ?t = "\<lparr>dt_instant = 0, dt_aware = True, dt_text = ''t''\<rparr>"
  let ?cs = "[(?t, ex_challenge (CHR ''a'')), (?t, ex_challenge (CHR ''b''))]"
  let ?g = "\<lparr>cg_max_entries = 5, cg_digests = []\<rparr>"
  have ok: "is_ok (result_at (c0_step (\<lambda>b. b) ?cx) ?cs ?g 0)" "is_ok (result_at (c0_step (\<lambda>b. b) ?cx) ?cs ?g 1)"
    by code_simp+
  have "c0_guard_init 5 = Inr ?g" by (simp add: c0_guard_init_def)
  from c0_challenge_answered_once [OF this, of 0 1 ?cs "\<lambda>b. b" ?cx] ok show ?thesis by simp
qed

lemma c0_context_post_init_ok:
  "c0_context_post_init cx = Inr cx' \<Longrightarrow> cx' = cx \<and> git_commit_pattern (cx_server_build_commit cx) \<and>
     sha256_pattern (cx_local_policy_sha256 cx) \<and> sha256_pattern (cx_tool_snapshot_sha256 cx)"
  by (auto simp: c0_context_post_init_def split: if_splits)

lemma c0_answer_update:
  "AList.update ''audit_correlation'' (JStr aid) (c0_answer cx digest clock) =
     c0_answer cx digest clock @ [(''audit_correlation'', JStr aid)]"
  by (simp add: c0_answer_def)

text \<open>C38. What the probe answers always has the type its response model promises: with a checked context, a clock
  whose text reads back as an aware timestamp and a version 4 UUID as correlation, the answer validates,
  and the finalized response has exactly the model's fields, with every literal flag at its safe value.\<close>

theorem c0_answer_conforms:
  assumes "c0_context_post_init cx = Inr cx" "\<And>b. length (sha256 b) = 32"
    and "c0_execute sha256 cx clock arguments g = (Inr out, g')"
    and "parse_dt (dt_text clock) = Some t" "dt_aware t" "c0_audit_id_pattern aid"
  shows "\<exists>d. finalize_c0_response parse_dt json_utc out aid = Some d \<and> keys d = c0_response_fields \<and>
    map_of d ''read_only'' = Some (JBool True) \<and> map_of d ''write_actions_enabled'' = Some (JBool False) \<and>
    map_of d ''real_evidence_access'' = Some (JBool False) \<and> map_of d ''protocol_v2_reachable'' = Some (JBool False) \<and>
    map_of d ''observed_at'' = Some (JStr (json_utc (dt_instant t)))"
proof -
  from assms(3) obtain ch where out: "out = c0_answer cx (hexlify (sha256 ch)) clock"
    by (cases rule: c0_execute_cases) auto
  have sha: "sha256_pattern (hexlify (sha256 ch))" using hex_of_length_hexlify [of "sha256 ch"] assms(2) by simp
  have "c0_response_valid parse_dt (AList.update ''audit_correlation'' (JStr aid) out)"
    using c0_context_post_init_ok [OF assms(1)] assms(4-6) sha
    by (simp add: out c0_answer_update c0_response_valid_def c0_answer_def text_field_def)
      (auto simp: c0_response_fields_def)
  then show ?thesis
    using assms(4) by (simp add: finalize_c0_response_def Let_def)
      (simp add: out c0_answer_update c0_answer_def c0_response_fields_def)
qed

theorem c0_answer_conforms_witness:
  "\<exists>d. finalize_c0_response (\<lambda>s. Some \<lparr>dt_instant = 7, dt_aware = True, dt_text = s\<rparr>) iso_utc
      (c0_answer \<lparr>cx_server_build_commit = replicate 40 (CHR ''a''), cx_local_policy_sha256 = replicate 64 (CHR ''b''),
         cx_tool_snapshot_sha256 = replicate 64 (CHR ''c'')\<rparr> (hexlify (replicate 32 (CHR ''s'')))
         \<lparr>dt_instant = 7, dt_aware = True, dt_text = ''now''\<rparr>)
      ''11111111-1111-4111-8111-111111111111'' = Some d \<and> keys d = c0_response_fields \<and>
    map_of d ''read_only'' = Some (JBool True)"
proof -
  let ?cx = "\<lparr>cx_server_build_commit = replicate 40 (CHR ''a''), cx_local_policy_sha256 = replicate 64 (CHR ''b''),
         cx_tool_snapshot_sha256 = replicate 64 (CHR ''c'')\<rparr>"
  let ?t = "\<lparr>dt_instant = 7, dt_aware = True, dt_text = ''now''\<rparr>"
  have "c0_execute (\<lambda>b. replicate 32 (CHR ''s'')) ?cx ?t (ex_challenge (CHR ''a'')) \<lparr>cg_max_entries = 5, cg_digests = []\<rparr> =
      (Inr (c0_answer ?cx (hexlify (replicate 32 (CHR ''s''))) ?t),
       \<lparr>cg_max_entries = 5, cg_digests = [hexlify (replicate 32 (CHR ''s''))]\<rparr>)"
    by code_simp
  moreover have "c0_context_post_init ?cx = Inr ?cx" by code_simp
  moreover have "c0_audit_id_pattern ''11111111-1111-4111-8111-111111111111''" by code_simp
  ultimately show ?thesis
    using c0_answer_conforms [of ?cx "\<lambda>b. replicate 32 (CHR ''s'')" ?t "ex_challenge (CHR ''a'')" _ _ _
        "\<lambda>s. Some \<lparr>dt_instant = 7, dt_aware = True, dt_text = s\<rparr>"] by fastforce
qed

end
