(* ===== verification/Executor.thy ===== *)
theory Executor
  imports Sandbox C0_Probe
begin

text \<open>
  executor.py: the capabilities. A capability name selects a handler; the built-in handlers list, read and
  write inside the workspace, run an allowlisted command in the sandbox, or answer the connectivity
  probe; further handlers can be injected. The state of an executor is the file tree, the probe's replay
  guard and the state of the injected handlers. Files are opened at the resolved path at the time of the
  call: changes of the tree between the resolution and the opening are not modelled.
\<close>

section \<open>Errors and Python text\<close>

datatype library_error =
    Os_error string path
  | Key_error string
  | Path_error path_error
  | Decode_error
  | Not_in_subpath

datatype exec_error = Exec_error string | Library_error library_error

text \<open>\<open>str\<close> of a JSON value: a string as it is, anything else as Python shows it.\<close>

definition repr_char :: "char \<Rightarrow> char \<Rightarrow> string" where
  "repr_char quote c =
     (let n = (of_char c :: nat) in
      if c = quote \<or> c = BSLASH then [BSLASH, c]
      else if c = CHR 0x0A then [BSLASH, CHR ''n'']
      else if c = CHR 0x0D then [BSLASH, CHR ''r'']
      else if c = CHR 0x09 then [BSLASH, CHR ''t'']
      else if n < 0x20 \<or> (0x7F \<le> n \<and> n \<le> 0xA0) \<or> n = 0xAD then [BSLASH, CHR ''x''] @ hex_byte c
      else [c])"

definition repr_str :: "string \<Rightarrow> string" where
  "repr_str s =
     (let quote = (if CHR 0x27 \<in> set s \<and> QUOTE \<notin> set s then QUOTE else CHR 0x27) in
      quote # concat (map (repr_char quote) s) @ [quote])"

fun comma_space :: "string list \<Rightarrow> string" where
  "comma_space [] = []"
| "comma_space [x] = x"
| "comma_space (x # y # ys) = x @ '', '' @ comma_space (y # ys)"

fun py_repr :: "json \<Rightarrow> string" where
  "py_repr JNull = ''None''"
| "py_repr (JBool b) = (if b then ''True'' else ''False'')"
| "py_repr (JInt i) = jint i"
| "py_repr (JFloat t) = (if t = ''NaN'' then ''nan'' else if t = ''Infinity'' then ''inf'' else if t = ''-Infinity'' then ''-inf'' else t)"
| "py_repr (JStr s) = repr_str s"
| "py_repr (JArr vs) = ''['' @ comma_space (map py_repr vs) @ '']''"
| "py_repr (JObj kvs) = ''{'' @ comma_space (map (\<lambda>p. repr_str (fst p) @ '': '' @ py_repr (snd p)) kvs) @ ''}''"

definition py_str :: "json \<Rightarrow> string" where
  "py_str v = (case v of JStr s \<Rightarrow> s | _ \<Rightarrow> py_repr v)"

definition lower_char :: "char \<Rightarrow> char" where
  "lower_char c = (let n = (of_char c :: nat) in
     if (65 \<le> n \<and> n \<le> 90) \<or> (0xC0 \<le> n \<and> n \<le> 0xDE \<and> n \<noteq> 0xD7) then char_of (n + 32) else c)"

section \<open>The executor\<close>

type_synonym arguments = "(string \<times> json) list"
type_synonym 'h handler = "arguments \<Rightarrow> arguments \<Rightarrow> 'h \<Rightarrow> (exec_error + arguments) \<times> 'h"

text \<open>The library functions the handlers call.\<close>

record exec_lib =
  lb_sha256 :: "bytes \<Rightarrow> bytes"
  lb_decode :: "bytes \<Rightarrow> string option"
  lb_decode_replace :: "bytes \<Rightarrow> string"
  lb_float_text :: "rat \<Rightarrow> string"
  lb_docker :: "string list \<Rightarrow> int \<Rightarrow> node \<Rightarrow> process_world \<times> node"

record 'h executor =
  ex_workspace :: path
  ex_docker_image :: string
  ex_limits :: limits_config
  ex_sandbox_root :: path
  ex_c0_probe :: "c0_context option"
  ex_handlers :: "(string, 'h handler) dict"

record 'h exec_state =
  xs_fs :: node
  xs_guard :: c0_guard
  xs_handlers :: 'h

text \<open>The environment of one call: whether the operating system lets the file operation through (for a write that
  fails, how many bytes reached the file), what special files deliver, the clock and the sandbox.\<close>

datatype io_outcome = Io_ok | Io_refused | Io_broken nat

record exec_env =
  xe_io :: io_outcome
  xe_special :: bytes
  xe_clock :: datetime
  xe_sandbox :: sandbox_env

definition C0_TOOL_NAME :: string where
  "C0_TOOL_NAME = ''systeme_local_connectivity_probe''"

definition reserved_capabilities :: "string list" where
  "reserved_capabilities = [''workspace.list'', ''workspace.read_text'', ''workspace.write_text'', ''sandbox.run_tests'',
     ''git.diff'', C0_TOOL_NAME]"

definition executor_init ::
  "path \<Rightarrow> string \<Rightarrow> limits_config \<Rightarrow> path \<Rightarrow> c0_context option \<Rightarrow> (string, 'h handler) dict \<Rightarrow> exec_error + 'h executor" where
  "executor_init workspace image_name limits sandbox_root probe handlers =
     (if list_ex (\<lambda>c. c \<in> set (keys handlers)) reserved_capabilities
      then Inl (Exec_error ''injected capability handler cannot override a built-in capability'')
      else Inr \<lparr>ex_workspace = workspace, ex_docker_image = image_name, ex_limits = limits, ex_sandbox_root = sandbox_root,
        ex_c0_probe = probe, ex_handlers = handlers\<rparr>)"

section \<open>File capabilities\<close>

definition workspace_target :: "path \<Rightarrow> node \<Rightarrow> string \<Rightarrow> exec_error + path" where
  "workspace_target ws fs requested =
     (case resolve_inside fs ws requested of
        Inl Escapes_workspace \<Rightarrow> Inl (Exec_error ''path escapes workspace'')
      | Inl e \<Rightarrow> Inl (Library_error (Path_error e))
      | Inr target \<Rightarrow> Inr target)"

definition relative_to :: "path \<Rightarrow> path \<Rightarrow> exec_error + string" where
  "relative_to target ws =
     (if prefix ws target then Inr (let r = drop (length ws) target in if r = [] then ''.'' else join_slash r)
      else Inl (Library_error Not_in_subpath))"

definition with_relative :: "path \<Rightarrow> path \<Rightarrow> (string \<Rightarrow> arguments) \<Rightarrow> exec_error + arguments" where
  "with_relative target ws f = (case relative_to target ws of Inl e \<Rightarrow> Inl e | Inr r \<Rightarrow> Inr (f r))"

definition entry_type :: "node \<Rightarrow> path \<Rightarrow> string \<Rightarrow> string" where
  "entry_type fs target name =
     (case realpath fs True [] target [name] of
        Some p \<Rightarrow> if is_directory (lookup p fs) then ''directory'' else ''file''
      | None \<Rightarrow> ''file'')"

definition exec_list :: "path \<Rightarrow> exec_env \<Rightarrow> arguments \<Rightarrow> node \<Rightarrow> exec_error + arguments" where
  "exec_list ws env arguments fs =
     (case workspace_target ws fs (case map_of arguments ''path'' of None \<Rightarrow> ''.'' | Some v \<Rightarrow> py_str v) of Inl e \<Rightarrow> Inl e
      | Inr target \<Rightarrow>
          (case lookup target fs of
             Some (Dir es) \<Rightarrow>
               if xe_io env \<noteq> Io_ok then Inl (Library_error (Os_error ''scandir'' target))
               else let names = sort_key (map lower_char) (map fst es);
                        entries = map (\<lambda>n. JObj [(''name'', JStr n), (''type'', JStr (entry_type fs target n))]) names
                    in with_relative target ws (\<lambda>r. [(''path'', JStr r), (''entries'', JArr (take 1000 entries))])
           | _ \<Rightarrow> Inl (Exec_error ''path is not a directory'')))"

definition read_bytes :: "exec_env \<Rightarrow> path \<Rightarrow> node \<Rightarrow> exec_error + bytes" where
  "read_bytes env target fs =
     (if xe_io env \<noteq> Io_ok then Inl (Library_error (Os_error ''read'' target))
      else case lookup target fs of
        Some (File b) \<Rightarrow> Inr b
      | Some Special \<Rightarrow> Inr (xe_special env)
      | _ \<Rightarrow> Inl (Library_error (Os_error ''open'' target)))"

definition exec_read_text :: "exec_lib \<Rightarrow> path \<Rightarrow> limits_config \<Rightarrow> exec_env \<Rightarrow> arguments \<Rightarrow> node \<Rightarrow> exec_error + arguments" where
  "exec_read_text lib ws limits env arguments fs =
     (case map_of arguments ''path'' of None \<Rightarrow> Inl (Library_error (Key_error ''path''))
      | Some v \<Rightarrow> (case workspace_target ws fs (py_str v) of Inl e \<Rightarrow> Inl e
      | Inr target \<Rightarrow> (case read_bytes env target fs of Inl e \<Rightarrow> Inl e
      | Inr data \<Rightarrow>
          if max_read_bytes limits < int (length data) then Inl (Exec_error ''file exceeds read limit'')
          else (case lb_decode lib data of
              None \<Rightarrow> (case relative_to target ws of Inl e \<Rightarrow> Inl e | Inr _ \<Rightarrow> Inl (Library_error Decode_error))
            | Some content \<Rightarrow> with_relative target ws (\<lambda>r. [(''path'', JStr r), (''content'', JStr content)])))))"

text \<open>\<open>write_bytes\<close> on a path whose parent exists.\<close>

definition write_bytes :: "exec_env \<Rightarrow> path \<Rightarrow> bytes \<Rightarrow> node \<Rightarrow> (exec_error + unit) \<times> node" where
  "write_bytes env target data fs =
     (case lookup target fs of
        Some (Dir _) \<Rightarrow> (Inl (Library_error (Os_error ''open'' target)), fs)
      | Some Special \<Rightarrow> (if xe_io env = Io_ok then Inr () else Inl (Library_error (Os_error ''write'' target)), fs)
      | _ \<Rightarrow> (case xe_io env of
           Io_ok \<Rightarrow> (Inr (), put target (File data) fs)
         | Io_refused \<Rightarrow> (Inl (Library_error (Os_error ''open'' target)), fs)
         | Io_broken k \<Rightarrow> (Inl (Library_error (Os_error ''write'' target)), put target (File (take k data)) fs)))"

definition exec_write_text :: "path \<Rightarrow> limits_config \<Rightarrow> exec_env \<Rightarrow> arguments \<Rightarrow> node \<Rightarrow> (exec_error + arguments) \<times> node" where
  "exec_write_text ws limits env arguments fs =
     (case map_of arguments ''path'' of None \<Rightarrow> (Inl (Library_error (Key_error ''path'')), fs)
      | Some v \<Rightarrow> (case workspace_target ws fs (py_str v) of Inl e \<Rightarrow> (Inl e, fs)
      | Inr target \<Rightarrow>
          (let encoded = utf8 (case map_of arguments ''content'' of None \<Rightarrow> [] | Some c \<Rightarrow> py_str c) in
           if max_write_bytes limits < int (length encoded) then (Inl (Exec_error ''content exceeds write limit''), fs)
           else case mkdir_parents (butlast target) fs of
             None \<Rightarrow> (Inl (Library_error (Os_error ''mkdir'' (butlast target))), fs)
           | Some fs1 \<Rightarrow> (case write_bytes env target encoded fs1 of
               (Inl e, fs2) \<Rightarrow> (Inl e, fs2)
             | (Inr _, fs2) \<Rightarrow> (with_relative target ws (\<lambda>r. [(''path'', JStr r),
                 (''bytes_written'', JInt (int (length encoded)))]), fs2)))))"

section \<open>Commands\<close>

definition string_items :: "json list \<Rightarrow> string list option" where
  "string_items vs =
     (if list_all (\<lambda>v. case v of JStr s \<Rightarrow> s \<noteq> [] | _ \<Rightarrow> False) vs
      then Some (map (\<lambda>v. case v of JStr s \<Rightarrow> s | _ \<Rightarrow> []) vs) else None)"

definition validated_command :: "arguments \<Rightarrow> arguments \<Rightarrow> exec_error + string list" where
  "validated_command arguments config =
     (case map_of arguments ''command'' of
        Some (JArr (v # vs)) \<Rightarrow>
          (case string_items (v # vs) of
             None \<Rightarrow> Inl (Exec_error ''command must be a non-empty argv array'')
           | Some command \<Rightarrow>
               if JArr (v # vs) \<in> (case map_of config ''allowed_commands'' of Some (JArr as) \<Rightarrow> set as | _ \<Rightarrow> {})
               then Inr command else Inl (Exec_error ''command is not allowlisted''))
      | _ \<Rightarrow> Inl (Exec_error ''command must be a non-empty argv array''))"

definition exec_sandbox ::
  "exec_lib \<Rightarrow> 'h executor \<Rightarrow> exec_env \<Rightarrow> bool \<Rightarrow> arguments \<Rightarrow> arguments \<Rightarrow> node \<Rightarrow> (exec_error + arguments) \<times> node" where
  "exec_sandbox lib ex env include_git arguments config fs =
     (case validated_command arguments config of Inl e \<Rightarrow> (Inl e, fs)
      | Inr command \<Rightarrow>
          (case sandbox_run (lb_sha256 lib) (lb_decode_replace lib) (lb_float_text lib) (lb_docker lib) (ex_docker_image ex)
                  (ex_sandbox_root ex) (ex_limits ex) (xe_sandbox env) (ex_workspace ex) command include_git fs of
             (Inl msg, fs') \<Rightarrow> (Inl (Exec_error msg), fs') | (Inr out, fs') \<Rightarrow> (Inr out, fs')))"

section \<open>Dispatch\<close>

definition on_fs :: "'h exec_state \<Rightarrow> 'r \<times> node \<Rightarrow> 'r \<times> 'h exec_state" where
  "on_fs s p = (fst p, s\<lparr>xs_fs := snd p\<rparr>)"

definition execute ::
  "exec_lib \<Rightarrow> 'h executor \<Rightarrow> exec_env \<Rightarrow> string \<Rightarrow> arguments \<Rightarrow> arguments \<Rightarrow> 'h exec_state \<Rightarrow>
   (exec_error + arguments) \<times> 'h exec_state" where
  "execute lib ex env capability arguments config s =
     (case map_of (ex_handlers ex) capability of
        Some handler \<Rightarrow> (case handler arguments config (xs_handlers s) of (r, h) \<Rightarrow> (r, s\<lparr>xs_handlers := h\<rparr>))
      | None \<Rightarrow>
        if capability = ''workspace.list'' then (exec_list (ex_workspace ex) env arguments (xs_fs s), s)
        else if capability = ''workspace.read_text''
          then (exec_read_text lib (ex_workspace ex) (ex_limits ex) env arguments (xs_fs s), s)
        else if capability = ''workspace.write_text''
          then on_fs s (exec_write_text (ex_workspace ex) (ex_limits ex) env arguments (xs_fs s))
        else if capability = ''sandbox.run_tests'' then on_fs s (exec_sandbox lib ex env False arguments config (xs_fs s))
        else if capability = ''git.diff'' then on_fs s (exec_sandbox lib ex env True arguments config (xs_fs s))
        else if capability = C0_TOOL_NAME then
          (case ex_c0_probe ex of None \<Rightarrow> (Inl (Exec_error ''capability has no executor''), s)
           | Some cx \<Rightarrow> (case c0_execute (lb_sha256 lib) cx (xe_clock env) arguments (xs_guard s) of
               (Inl msg, g) \<Rightarrow> (Inl (Exec_error msg), s\<lparr>xs_guard := g\<rparr>)
             | (Inr out, g) \<Rightarrow> (Inr out, s\<lparr>xs_guard := g\<rparr>)))
        else (Inl (Exec_error ''capability has no executor''), s))"

section \<open>Confinement\<close>

lemma workspace_target_inside:
  "workspace_target ws fs requested = Inr target \<Longrightarrow> resolve_inside fs ws requested = Inr target"
  by (auto simp: workspace_target_def split: sum.splits path_error.splits)

lemma write_bytes_other:
  "write_bytes env target data fs = (r, fs') \<Longrightarrow> \<not> prefix target q \<Longrightarrow> \<not> prefix q target \<Longrightarrow> lookup q fs' = lookup q fs"
  by (auto simp: write_bytes_def lookup_put_other split: option.splits node.splits io_outcome.splits if_splits)

text \<open>What a write does to the tree: nothing, or the directories down to the target and the target itself.\<close>

lemma exec_write_text_tree:
  assumes "exec_write_text ws limits env arguments fs = (r, fs')"
  obtains (unchanged) "fs' = fs"
  | (written) requested target fs1 r1 data where "resolve_inside fs ws requested = Inr target"
      "mkdir_parents (butlast target) fs = Some fs1" "write_bytes env target data fs1 = (r1, fs')"
proof -
  show ?thesis
  proof (cases "map_of arguments ''path''")
    case None
    then show ?thesis using assms unchanged by (simp add: exec_write_text_def)
  next
    case (Some v)
    then show ?thesis using assms
      by (auto simp: exec_write_text_def Let_def split: sum.splits if_splits option.splits prod.splits
          dest!: workspace_target_inside intro: unchanged written)
  qed
qed

lemma exec_write_text_other:
  assumes "exec_write_text ws limits env arguments fs = (r, fs')" "realpath fs False [] [] ws = Some base"
    and "\<not> prefix base q" "\<not> prefix q base"
  shows "lookup q fs' = lookup q fs"
  using assms(1)
proof (cases rule: exec_write_text_tree)
  case (written requested target fs1 r1 data)
  have base: "prefix base target" using resolve_inside_prefix [OF written(1)] assms(2) by auto
  have apart: "\<not> prefix target q" "\<not> prefix q target"
    using base assms(3,4) by (metis prefix_order.trans, metis prefix_same_cases)
  then have "\<not> prefix q (butlast target)" by (metis prefix_order.trans prefixeq_butlast)
  then show ?thesis using mkdir_parents_other [OF written(2)] write_bytes_other [OF written(3)] apart by simp
qed simp

lemma exec_sandbox_other:
  assumes "exec_sandbox lib ex env g arguments config fs = (r, fs')"
    and "\<And>p. realpath fs False [] [] (ex_sandbox_root ex) = Some p \<Longrightarrow> \<not> prefix q p"
  shows "lookup q fs' = lookup q fs"
  using assms mkdir_parents_other
  by (auto simp: exec_sandbox_def split: sum.splits prod.splits dest!: sandbox_run_tree)

text \<open>C18. Built-in capabilities are confined: whatever a task asks for and however the operation ends, the file tree
  stays as it was at every place that is not in the workspace, not an ancestor of it, and not on the way
  to the sandbox root. Symbolic links and parent steps in the requested path do not help, because the
  place that counts is the resolved one.\<close>

theorem execute_confined:
  assumes "execute lib ex env capability arguments config s = (r, s')" "map_of (ex_handlers ex) capability = None"
    and "realpath (xs_fs s) False [] [] (ex_workspace ex) = Some base" "\<not> prefix base q" "\<not> prefix q base"
    and "\<And>p. realpath (xs_fs s) False [] [] (ex_sandbox_root ex) = Some p \<Longrightarrow> \<not> prefix q p"
  shows "lookup q (xs_fs s') = lookup q (xs_fs s)"
proof -
  have w: "lookup q (snd (exec_write_text (ex_workspace ex) (ex_limits ex) env arguments (xs_fs s))) = lookup q (xs_fs s)"
    by (rule exec_write_text_other [OF prod.collapse [symmetric] assms(3-5)])
  have x: "lookup q (snd (exec_sandbox lib ex env g arguments config (xs_fs s))) = lookup q (xs_fs s)" for g
    by (rule exec_sandbox_other [OF prod.collapse [symmetric] assms(6)])
  have "xs_fs s' \<in> {xs_fs s, snd (exec_write_text (ex_workspace ex) (ex_limits ex) env arguments (xs_fs s)),
      snd (exec_sandbox lib ex env True arguments config (xs_fs s)), snd (exec_sandbox lib ex env False arguments config (xs_fs s))}"
    using assms(1,2) by (auto simp: execute_def on_fs_def split: if_splits option.splits sum.splits prod.splits)
  then show ?thesis using w x by auto
qed

section \<open>Writing and reading back\<close>

lemma resolve_same_links: "same_links fs fs' \<Longrightarrow> resolve_inside fs' ws requested = resolve_inside fs ws requested"
  by (simp add: resolve_inside_def resolve_def realpath_same_links split: option.split)

lemma same_links_trans: "same_links a b \<Longrightarrow> same_links b c \<Longrightarrow> same_links a c"
  by (simp add: same_links_def)

lemma lookup_root_same: "lookup p n = Some (Dir es) \<Longrightarrow> lookup (butlast p) n \<noteq> None"
  by (cases p rule: rev_cases) (auto dest: lookup_snoc_Dir)

text \<open>What was written is what is read: after a successful write of a text that fits the read limit, reading the
  same path with the tree as the write left it gives back that text, through whatever links the path
  goes. The decoder is only assumed to invert the encoding of this text.\<close>

theorem write_then_read:
  assumes "exec_write_text ws limits env [(''path'', JStr p), (''content'', JStr content)] fs = (Inr out, fs')"
    and "xe_io env = Io_ok" "xe_io env' = Io_ok" "lookup [] fs = Some (Dir es)"
    and "\<And>target. resolve_inside fs ws p = Inr target \<Longrightarrow> lookup target fs \<noteq> Some Special"
    and "int (length (utf8 content)) \<le> max_read_bytes limits" "lb_decode lib (utf8 content) = Some content"
  shows "\<exists>r. map_of out ''path'' = Some (JStr r) \<and>
    exec_read_text lib ws limits env' [(''path'', JStr p)] fs' = Inr [(''path'', JStr r), (''content'', JStr content)]"
proof -
  from assms(1) obtain target fs1 r where t: "workspace_target ws fs p = Inr target"
    and m: "mkdir_parents (butlast target) fs = Some fs1" and w: "write_bytes env target (utf8 content) fs1 = (Inr (), fs')"
    and r: "relative_to target ws = Inr r"
      "out = [(''path'', JStr r), (''bytes_written'', JInt (int (length (utf8 content))))]"
    by (auto simp: exec_write_text_def with_relative_def py_str_def Let_def
        split: sum.splits if_splits option.splits prod.splits)
  note inside = workspace_target_inside [OF t]
  note links1 = same_links_mkdir [OF m]
  have free: "link_target (lookup target fs) = None"
    using resolve_inside_link_free [OF inside] assms(4) by (simp add: link_free_def link_target_def)
  have ne: "target \<noteq> []"
  proof
    assume "target = []"
    then have "is_directory (lookup target fs1)" using mkdir_parents_directory [OF m] by simp
    then show False using w by (auto simp: write_bytes_def is_directory_def split: option.splits node.splits)
  qed
  then obtain q c where qc: "target = q @ [c]" by (cases target rule: rev_cases) auto
  have same: "lookup target fs1 = lookup target fs"
    by (rule mkdir_parents_other [OF m]) (use ne in \<open>auto simp: qc prefix_def\<close>)
  have old: "lookup target fs1 = None \<or> (\<exists>b. lookup target fs1 = Some (File b))" "fs' = put target (File (utf8 content)) fs1"
    using w free assms(2) assms(5) [OF inside] same
    by (auto simp: write_bytes_def link_target_def split: option.splits node.splits)
  have new: "same_links fs1 fs'" "lookup target fs' = Some (File (utf8 content))"
    using same_links_put_File [of q fs1 c "utf8 content"] mkdir_parents_directory [OF m] old by (auto simp: qc)
  have "workspace_target ws fs' p = Inr target"
    using t resolve_same_links [OF same_links_trans [OF links1 new(1)]] by (simp add: workspace_target_def)
  then show ?thesis
    using new(2) assms(3,6,7) r
    by (simp add: exec_read_text_def py_str_def read_bytes_def with_relative_def)
qed

section \<open>Commands\<close>

lemma string_items_JStr: "string_items vs = Some command \<Longrightarrow> vs = map JStr command"
  by (auto simp: string_items_def list_all_iff map_idI split: if_splits json.splits)

lemma validated_command_allowed:
  assumes "validated_command arguments (config_json c) = Inr command"
  shows "command \<in> set (cc_allowed_commands c) \<and> map_of arguments ''command'' = Some (JArr (map JStr command))"
proof -
  from assms obtain v vs where a: "map_of arguments ''command'' = Some (JArr (v # vs))" "string_items (v # vs) = Some command"
    "JArr (v # vs) \<in> (\<lambda>cmd. JArr (map JStr cmd)) ` set (cc_allowed_commands c)"
    by (auto simp: validated_command_def config_json_def split: option.splits json.splits list.splits if_splits)
  have inj: "map JStr xs = map JStr ys \<longleftrightarrow> xs = ys" for xs ys by (auto simp: inj_map_eq_map inj_def)
  show ?thesis using a string_items_JStr [OF a(2)] by (auto simp: inj simp del: list.map)
qed

text \<open>A sandbox capability runs nothing but a command of its allowlist: with the configuration of a policy entry,
  a run that reports an output ran a command of that entry's allowed commands, the one the task named,
  and a task that names no such command is refused with the executor's state untouched.\<close>

theorem only_allowlisted_commands:
  assumes "execute lib ex env capability arguments (config_json c) s = (r, s')"
    and "capability \<in> {''sandbox.run_tests'', ''git.diff''}" "map_of (ex_handlers ex) capability = None"
  shows "case r of
      Inr out \<Rightarrow> \<exists>command \<in> set (cc_allowed_commands c).
        map_of arguments ''command'' = Some (JArr (map JStr command)) \<and> map_of out ''command'' = map_of arguments ''command''
    | Inl e \<Rightarrow> (\<exists>command \<in> set (cc_allowed_commands c). map_of arguments ''command'' = Some (JArr (map JStr command))) \<or> s' = s"
proof -
  obtain g where g: "on_fs s (exec_sandbox lib ex env g arguments (config_json c) (xs_fs s)) = (r, s')"
    using assms by (auto simp: execute_def)
  show ?thesis
  proof (cases "validated_command arguments (config_json c)")
    case (Inl e)
    then show ?thesis using g by (auto simp: exec_sandbox_def on_fs_def)
  next
    case (Inr command)
    note ok = validated_command_allowed [OF Inr]
    show ?thesis
    proof (cases r)
      case (Inr out)
      then show ?thesis
        using g ok \<open>validated_command arguments (config_json c) = Inr command\<close> sandbox_run_command
        by (auto simp: exec_sandbox_def on_fs_def split: prod.splits sum.splits)
    qed (use ok in auto)
  qed
qed

section \<open>An example\<close>

definition ex_tree :: node where
  "ex_tree = Dir [(''srv'', Dir [(''ws'', Dir [(''a.txt'', File ''old''), (''up'', Link ''../secret'')]), (''secret'', File ''key'')])]"

definition ex_lib :: exec_lib where
  "ex_lib = \<lparr>lb_sha256 = (\<lambda>b. b), lb_decode = (\<lambda>b. Some (utf8_decode b)), lb_decode_replace = (\<lambda>b. b),
     lb_float_text = (\<lambda>_. ''1.0''),
     lb_docker = (\<lambda>argv t n. (\<lparr>pw_found = True, pw_stdout = [''ok'', []], pw_stderr = [], pw_exit = Some 0, pw_killed = 9\<rparr>, n))\<rparr>"

definition ex_exec :: "unit executor" where
  "ex_exec = \<lparr>ex_workspace = [''srv'', ''ws''], ex_docker_image = ''img'', ex_limits = default_limits\<lparr>max_output_bytes := 10, max_change_entries := 5\<rparr>,
     ex_sandbox_root = [''box''], ex_c0_probe = None, ex_handlers = []\<rparr>"

definition ex_xenv :: exec_env where
  "ex_xenv = \<lparr>xe_io = Io_ok, xe_special = [], xe_clock = \<lparr>dt_instant = 0, dt_aware = True, dt_text = ''t''\<rparr>,
     xe_sandbox = \<lparr>se_posix = True, se_uid = 5, se_gid = 5, se_container_name = ''c'', se_snapshot_path = ''/box/t'',
       se_world = \<lparr>cw_file = (\<lambda>p. ex_obs ''old''), cw_names = (\<lambda>p. [''a.txt''])\<rparr>\<rparr>\<rparr>"

definition ex_xstate :: "node \<Rightarrow> unit exec_state" where
  "ex_xstate fs = \<lparr>xs_fs = fs, xs_guard = \<lparr>cg_max_entries = 4, cg_digests = []\<rparr>, xs_handlers = ()\<rparr>"

abbreviation write_args :: "string \<Rightarrow> string \<Rightarrow> arguments" where
  "write_args p c \<equiv> [(''path'', JStr p), (''content'', JStr c)]"

lemma ex_write:
  "execute ex_lib ex_exec ex_xenv ''workspace.write_text'' (write_args ''d/b.txt'' ''new'') [] (ex_xstate ex_tree) =
     (Inr [(''path'', JStr ''d/b.txt''), (''bytes_written'', JInt 3)],
      ex_xstate (put [''srv'', ''ws'', ''d'', ''b.txt''] (File ''new'') ex_tree))"
  by code_simp

theorem execute_confined_witness:
  "lookup [''srv'', ''secret''] (put [''srv'', ''ws'', ''d'', ''b.txt''] (File ''new'') ex_tree) = Some (File ''key'')"
proof -
  have b: "realpath ex_tree False [] [] [''srv'', ''ws''] = Some [''srv'', ''ws'']"
    "realpath ex_tree False [] [] [''box''] = Some [''box'']" by code_simp+
  have "lookup [''srv'', ''secret''] ex_tree = Some (File ''key'')" by code_simp
  then show ?thesis
    using execute_confined [OF ex_write, of "[''srv'', ''ws'']" "[''srv'', ''secret'']"] b
    by (simp add: ex_xstate_def ex_exec_def)
qed

theorem write_then_read_witness:
  "\<exists>r. exec_read_text ex_lib [''srv'', ''ws''] default_limits ex_xenv [(''path'', JStr ''x/../a.txt'')]
      (put [''srv'', ''ws'', ''a.txt''] (File ''new'') ex_tree) = Inr [(''path'', JStr r), (''content'', JStr ''new'')]"
proof -
  have w: "exec_write_text [''srv'', ''ws''] default_limits ex_xenv (write_args ''x/../a.txt'' ''new'') ex_tree =
      (Inr [(''path'', JStr ''a.txt''), (''bytes_written'', JInt 3)], put [''srv'', ''ws'', ''a.txt''] (File ''new'') ex_tree)"
    and t: "resolve_inside ex_tree [''srv'', ''ws''] ''x/../a.txt'' = Inr [''srv'', ''ws'', ''a.txt'']"
    and l: "lookup [''srv'', ''ws'', ''a.txt''] ex_tree = Some (File ''old'')"
    by code_simp+
  have d: "lb_decode ex_lib (utf8 ''new'') = Some ''new''" by (simp add: ex_lib_def utf8_decode_utf8)
  have n: "int (length (utf8 ''new'')) \<le> max_read_bytes default_limits" by code_simp
  show ?thesis
    using write_then_read [OF w _ _ _ _ n d, of ex_xenv] t l by (auto simp: ex_xenv_def ex_tree_def)
qed

text \<open>A path through the link that leaves the workspace is refused.\<close>

lemma ex_escape: "workspace_target [''srv'', ''ws''] ex_tree ''up'' = Inl (Exec_error ''path escapes workspace'')"
  by code_simp

definition ex_tests :: capability_config where
  "ex_tests = \<lparr>cc_decision = Allow, cc_allowed_commands = [[''pytest''], [''pytest'', ''-q'']]\<rparr>"

theorem only_allowlisted_commands_witness:
  "(case fst (execute ex_lib ex_exec ex_xenv ''sandbox.run_tests'' [(''command'', JArr [JStr ''pytest'', JStr ''-q''])]
        (config_json ex_tests) (ex_xstate (Dir [(''srv'', Dir [(''ws'', Dir [(''a.txt'', File ''old'')])])]))) of
      Inr out \<Rightarrow> map_of out ''stdout'' = Some (JStr ''ok'') | Inl _ \<Rightarrow> False) \<and>
   (\<exists>command \<in> set (cc_allowed_commands ex_tests). [JStr ''pytest'', JStr ''-q''] = map JStr command)"
proof -
  let ?a = "[(''command'', JArr [JStr ''pytest'', JStr ''-q''])]"
  let ?s = "ex_xstate (Dir [(''srv'', Dir [(''ws'', Dir [(''a.txt'', File ''old'')])])])"
  have run: "case fst (execute ex_lib ex_exec ex_xenv ''sandbox.run_tests'' ?a (config_json ex_tests) ?s) of
      Inr out \<Rightarrow> map_of out ''stdout'' = Some (JStr ''ok'') | Inl _ \<Rightarrow> False"
    by code_simp
  obtain r s' where r: "execute ex_lib ex_exec ex_xenv ''sandbox.run_tests'' ?a (config_json ex_tests) ?s = (r, s')"
    by fastforce
  have "map_of (ex_handlers ex_exec) ''sandbox.run_tests'' = None" by (simp add: ex_exec_def)
  from only_allowlisted_commands [OF r _ this] run r show ?thesis by (auto split: sum.splits)
qed

end
