(* ===== verification/Task_Processor.thy ===== *)
theory Task_Processor
  imports Auth Audit_Runtime Executor
begin

text \<open>
  task_processor.py: what happens to a submitted task. The processor is written against five protocols; here
  they are a record of functions on a common state, and \<open>task_services\<close> is the contract that each of
  them works on its own part of that state. \<open>gateway_services\<close> at the end is the composition that
  main.py builds, and \<open>submit_task\<close> its HTTP endpoint.
\<close>

section \<open>The protocols\<close>

record 's services =
  sv_verify :: "task_envelope \<Rightarrow> 's \<Rightarrow> (auth_error + unit) \<times> 's"
  sv_evaluate :: "string \<Rightarrow> policy_decision"
  sv_create :: "task_envelope \<Rightarrow> 's \<Rightarrow> (approval_error + approval_record) \<times> 's"
  sv_consume :: "string \<Rightarrow> task_envelope \<Rightarrow> 's \<Rightarrow> (approval_error + approval_record) \<times> 's"
  sv_execute :: "string \<Rightarrow> arguments \<Rightarrow> arguments \<Rightarrow> 's \<Rightarrow> (string + arguments) \<times> 's"
  sv_append :: "audit_event \<Rightarrow> 's \<Rightarrow> (audit_error + string) \<times> 's"

text \<open>The two exceptions the processor raises on purpose, with their detail and audit id, and those it lets
  through.\<close>

datatype process_error =
    Task_authentication string string
  | Task_unavailable string string
  | Uncaught_auth auth_error
  | Uncaught_approval approval_error
  | Uncaught_audit audit_error

section \<open>Events\<close>

definition task_event :: "task_envelope \<Rightarrow> string \<Rightarrow> audit_event" where
  "task_event t status = \<lparr>ev_task_id = Some (te_task_id t), ev_agent = None, ev_capability = Some (te_capability t),
     ev_status = Some status, ev_reason = None, ev_error = None, ev_arguments = None, ev_output = None, ev_extras = []\<rparr>"

definition rejected_event :: "task_envelope \<Rightarrow> string \<Rightarrow> audit_event" where
  "rejected_event t reason = (task_event t ''denied'')\<lparr>ev_reason := Some reason\<rparr>"

definition unavailable_event :: "task_envelope \<Rightarrow> string \<Rightarrow> audit_event" where
  "unavailable_event t detail = (task_event t ''failed'')\<lparr>ev_reason := Some detail\<rparr>"

definition consumed_event :: "task_envelope \<Rightarrow> string \<Rightarrow> audit_event" where
  "consumed_event t approval_id = (task_event t ''approval_consumed'')\<lparr>ev_extras := [(''approval_id'', JStr approval_id)]\<rparr>"

definition denied_event :: "task_envelope \<Rightarrow> string \<Rightarrow> audit_event" where
  "denied_event t reason = (task_event t ''denied'')\<lparr>ev_reason := Some reason,
     ev_extras := [(''approval_id'', opt_str (te_approval_id t))]\<rparr>"

definition required_event :: "task_envelope \<Rightarrow> string option \<Rightarrow> string option \<Rightarrow> audit_event" where
  "required_event t approval_id reason = (task_event t ''approval_required'')\<lparr>ev_arguments := Some (JObj (te_arguments t)),
     ev_extras := (case approval_id of None \<Rightarrow> [] | Some a \<Rightarrow> [(''approval_id'', JStr a)]), ev_reason := reason\<rparr>"

definition status_text :: "task_status \<Rightarrow> string" where
  "status_text st = (case st of Completed \<Rightarrow> ''completed'' | Denied \<Rightarrow> ''denied''
     | Approval_required \<Rightarrow> ''approval_required'' | Failed \<Rightarrow> ''failed'')"

definition executed_event :: "task_envelope \<Rightarrow> task_status \<Rightarrow> arguments \<Rightarrow> string option \<Rightarrow> audit_event" where
  "executed_event t status output audit_error =
     (task_event t (status_text status))\<lparr>ev_agent := Some \<lparr>ea_provider = Some (ai_provider (te_agent t)),
        ea_model = ai_model (te_agent t), ea_session_id = Some (ai_session_id (te_agent t))\<rparr>,
      ev_arguments := Some (JObj (te_arguments t)), ev_output := Some (JObj output),
      ev_error := Some (opt_str audit_error), ev_extras := [(''approval_id'', opt_str (te_approval_id t))]\<rparr>"

section \<open>The processor\<close>

definition raise_unavailable :: "'s services \<Rightarrow> task_envelope \<Rightarrow> string \<Rightarrow> 's \<Rightarrow> process_error \<times> 's" where
  "raise_unavailable sv t detail s =
     (case sv_append sv (unavailable_event t detail) s of
        (Inl e, s') \<Rightarrow> (Uncaught_audit e, s') | (Inr audit_id, s') \<Rightarrow> (Task_unavailable detail audit_id, s'))"

definition verify :: "'s services \<Rightarrow> task_envelope \<Rightarrow> 's \<Rightarrow> (process_error + unit) \<times> 's" where
  "verify sv t s =
     (case sv_verify sv t s of
        (Inr _, s1) \<Rightarrow> (Inr (), s1)
      | (Inl (Replay_unavailable _), s1) \<Rightarrow>
          (case raise_unavailable sv t ''replay protection unavailable'' s1 of (e, s2) \<Rightarrow> (Inl e, s2))
      | (Inl (Value_error msg), s1) \<Rightarrow>
          (case sv_append sv (rejected_event t msg) s1 of
             (Inl e, s2) \<Rightarrow> (Inl (Uncaught_audit e), s2)
           | (Inr audit_id, s2) \<Rightarrow> (Inl (Task_authentication msg audit_id), s2))
      | (Inl e, s1) \<Rightarrow> (Inl (Uncaught_auth e), s1))"

text \<open>Every result is built from the audit id of the event that was appended for it.\<close>

definition with_audit ::
  "'s services \<Rightarrow> audit_event \<Rightarrow> (string \<Rightarrow> task_result) \<Rightarrow> 's \<Rightarrow> (process_error + task_result) \<times> 's" where
  "with_audit sv ev result s =
     (case sv_append sv ev s of
        (Inl e, s') \<Rightarrow> (Inl (Uncaught_audit e), s') | (Inr audit_id, s') \<Rightarrow> (Inr (result audit_id), s'))"

definition denied :: "'s services \<Rightarrow> task_envelope \<Rightarrow> string \<Rightarrow> 's \<Rightarrow> (process_error + task_result) \<times> 's" where
  "denied sv t reason =
     with_audit sv (denied_event t reason) (\<lambda>audit_id. \<lparr>tr_task_id = te_task_id t, tr_status = Denied, tr_output = [],
       tr_error = Some reason, tr_audit_id = audit_id\<rparr>)"

definition approval_required ::
  "'s services \<Rightarrow> task_envelope \<Rightarrow> approval_record option \<Rightarrow> string option \<Rightarrow> 's \<Rightarrow> (process_error + task_result) \<times> 's" where
  "approval_required sv t record reason =
     (let approval_id = (case record of Some r \<Rightarrow> Some (ar_approval_id r) | None \<Rightarrow> te_approval_id t);
          output = (case record of
              Some r \<Rightarrow> [(''approval_id'', JStr (ar_approval_id r)), (''approval_state'', JStr (ar_state r)),
                (''approval_expires_at'', JStr (dt_text (ar_expires_at r))),
                (''request_fingerprint'', JStr (ar_request_fingerprint r))]
            | None \<Rightarrow> [(''approval_id'', opt_str approval_id), (''approval_state'', JStr ''pending'')])
      in with_audit sv (required_event t approval_id reason) (\<lambda>audit_id. \<lparr>tr_task_id = te_task_id t,
           tr_status = Approval_required, tr_output = output, tr_error = None, tr_audit_id = audit_id\<rparr>))"

text \<open>The result of \<open>_handle_approval\<close>: an exception, a task result, or \<open>None\<close> to go on.\<close>

definition stop_with :: "(process_error + task_result) \<times> 's \<Rightarrow> (process_error + task_result option) \<times> 's" where
  "stop_with p = (map_sum id Some (fst p), snd p)"

definition stop_unavailable :: "'s services \<Rightarrow> task_envelope \<Rightarrow> 's \<Rightarrow> (process_error + 'r) \<times> 's" where
  "stop_unavailable sv t s = (case raise_unavailable sv t ''approval service unavailable'' s of (e, s') \<Rightarrow> (Inl e, s'))"

definition handle_approval ::
  "'s services \<Rightarrow> task_envelope \<Rightarrow> 's \<Rightarrow> (process_error + task_result option) \<times> 's" where
  "handle_approval sv t s =
     (case te_approval_id t of
        None \<Rightarrow>
          (case sv_create sv t s of
             (Inr r, s1) \<Rightarrow> stop_with (approval_required sv t (Some r) None s1)
           | (Inl (Approval_unavailable _), s1) \<Rightarrow> stop_unavailable sv t s1
           | (Inl e, s1) \<Rightarrow> (Inl (Uncaught_approval e), s1))
      | Some approval_id \<Rightarrow>
          (case sv_consume sv approval_id t s of
             (Inr r, s1) \<Rightarrow>
               (case sv_append sv (consumed_event t (ar_approval_id r)) s1 of
                  (Inl e, s2) \<Rightarrow> (Inl (Uncaught_audit e), s2) | (Inr _, s2) \<Rightarrow> (Inr None, s2))
           | (Inl e, s1) \<Rightarrow>
               if e = Approval_pending
                 then stop_with (approval_required sv t None (Some ''approval is still pending'') s1)
               else if e \<in> {Approval_not_found, Approval_denied, Approval_consumed, Approval_expired, Approval_mismatch}
                 then stop_with (denied sv t (approval_error_text e) s1)
               else (case e of Approval_unavailable _ \<Rightarrow> stop_unavailable sv t s1 | _ \<Rightarrow> (Inl (Uncaught_approval e), s1))))"

definition execute_task :: "'s services \<Rightarrow> task_envelope \<Rightarrow> arguments \<Rightarrow> 's \<Rightarrow> (process_error + task_result) \<times> 's" where
  "execute_task sv t config s =
     (case sv_execute sv (te_capability t) (te_arguments t) config s of
        (Inr output, s1) \<Rightarrow>
          with_audit sv (executed_event t Completed output None) (\<lambda>audit_id. \<lparr>tr_task_id = te_task_id t,
            tr_status = Completed, tr_output = output, tr_error = None, tr_audit_id = audit_id\<rparr>) s1
      | (Inl exc, s1) \<Rightarrow>
          with_audit sv (executed_event t Failed [] (Some exc)) (\<lambda>audit_id. \<lparr>tr_task_id = te_task_id t,
            tr_status = Failed, tr_output = [], tr_error = Some ''task execution failed'', tr_audit_id = audit_id\<rparr>) s1)"

definition process :: "'s services \<Rightarrow> task_envelope \<Rightarrow> 's \<Rightarrow> (process_error + task_result) \<times> 's" where
  "process sv t s =
     (case verify sv t s of (Inl e, s1) \<Rightarrow> (Inl e, s1)
      | (Inr _, s1) \<Rightarrow>
          (let d = sv_evaluate sv (te_capability t) in
           if pdec_decision d = Deny then denied sv t (pdec_reason d) s1
           else if pdec_decision d = Require_approval then
             (case handle_approval sv t s1 of
                (Inl e, s2) \<Rightarrow> (Inl e, s2)
              | (Inr (Some result), s2) \<Rightarrow> (Inr result, s2)
              | (Inr None, s2) \<Rightarrow> execute_task sv t (pdec_config d) s2)
           else if te_approval_id t \<noteq> None then denied sv t ''approval ID is not valid for this capability'' s1
           else execute_task sv t (pdec_config d) s1))"

section \<open>What authorises an execution\<close>

definition authorized :: "'s services \<Rightarrow> task_envelope \<Rightarrow> 's \<Rightarrow> 's \<Rightarrow> bool" where
  "authorized sv t s s1 \<longleftrightarrow>
     (\<exists>s0. sv_verify sv t s = (Inr (), s0) \<and>
        ((pdec_decision (sv_evaluate sv (te_capability t)) = Allow \<and> te_approval_id t = None \<and> s1 = s0) \<or>
         (pdec_decision (sv_evaluate sv (te_capability t)) = Require_approval \<and>
          (\<exists>k r s2 a. te_approval_id t = Some k \<and> sv_consume sv k t s0 = (Inr r, s2) \<and>
             sv_append sv (consumed_event t (ar_approval_id r)) s2 = (Inr a, s1)))))"

definition outcome_executed :: "process_error + task_result \<Rightarrow> bool" where
  "outcome_executed r = (case r of Inr x \<Rightarrow> tr_status x \<in> {Completed, Failed} | Inl _ \<Rightarrow> False)"

lemma with_audit_result:
  "with_audit sv ev f s = (r, s') \<Longrightarrow> (\<exists>a. r = Inr (f a)) \<or> (\<exists>e. r = Inl (Uncaught_audit e))"
  by (auto simp: with_audit_def split: prod.splits sum.splits)

lemma handle_approval_cases:
  assumes "handle_approval sv t s = (r, s')"
    and "(case te_approval_id t of None \<Rightarrow> sv_create sv t s | Some k \<Rightarrow> sv_consume sv k t s) = (q, s1)"
  obtains (ask) x y z where "approval_required sv t x y s1 = (z, s')" "r = map_sum id Some z"
  | (deny) e z where "denied sv t (approval_error_text e) s1 = (z, s')" "r = map_sum id Some z"
      "e \<in> {Approval_not_found, Approval_denied, Approval_consumed, Approval_expired, Approval_mismatch}"
  | (unavailable) e where "raise_unavailable sv t ''approval service unavailable'' s1 = (e, s')" "r = Inl e"
  | (uncaught) e where "r = Inl (Uncaught_approval e)" "s' = s1"
  | (consumed) k x z where "te_approval_id t = Some k" "q = Inr x"
      "sv_append sv (consumed_event t (ar_approval_id x)) s1 = (z, s')"
      "r = (case z of Inl e \<Rightarrow> Inl (Uncaught_audit e) | Inr _ \<Rightarrow> Inr None)"
proof (cases "te_approval_id t")
  case None
  then have c: "sv_create sv t s = (q, s1)" using assms(2) by simp
  show ?thesis
  proof (cases q)
    case (Inr x)
    then show ?thesis using assms(1) None c
      by (cases "approval_required sv t (Some x) None s1") (auto simp: handle_approval_def stop_with_def intro: ask)
  next
    case (Inl e)
    show ?thesis
    proof (cases "\<exists>m. e = Approval_unavailable m")
      case True
      then show ?thesis using assms(1) None c Inl
        by (cases "raise_unavailable sv t ''approval service unavailable'' s1")
          (auto simp: handle_approval_def stop_unavailable_def intro: unavailable)
    next
      case False
      then show ?thesis using assms(1) None c Inl
        by (cases e) (auto simp: handle_approval_def intro: uncaught)
    qed
  qed
next
  case (Some k)
  then have c: "sv_consume sv k t s = (q, s1)" using assms(2) by simp
  show ?thesis
  proof (cases q)
    case (Inr x)
    then show ?thesis using assms(1) Some c
      by (cases "sv_append sv (consumed_event t (ar_approval_id x)) s1", cases "fst (sv_append sv (consumed_event t (ar_approval_id x)) s1)")
        (auto simp: handle_approval_def intro: consumed)
  next
    case (Inl e)
    note h = assms(1) [unfolded handle_approval_def Some c Inl option.case prod.case sum.case]
    consider "e = Approval_pending"
      | "e \<in> {Approval_not_found, Approval_denied, Approval_consumed, Approval_expired, Approval_mismatch}" "e \<noteq> Approval_pending"
      | m where "e = Approval_unavailable m"
      | "e \<notin> {Approval_pending, Approval_not_found, Approval_denied, Approval_consumed, Approval_expired, Approval_mismatch}"
        "\<forall>m. e \<noteq> Approval_unavailable m"
      by blast
    then show ?thesis
    proof cases
      case 1
      then show ?thesis using h
        by (cases "approval_required sv t None (Some ''approval is still pending'') s1") (auto simp: stop_with_def intro: ask)
    next
      case 2
      then have "stop_with (denied sv t (approval_error_text e) s1) = (r, s')" using h by (simp only: if_True if_False)
      then show ?thesis using 2(1) by (cases "denied sv t (approval_error_text e) s1") (simp add: stop_with_def deny)
    next
      case 3
      then show ?thesis using h
        by (cases "raise_unavailable sv t ''approval service unavailable'' s1") (auto simp: stop_unavailable_def intro: unavailable)
    next
      case 4
      then show ?thesis using h by (cases e) (auto intro: uncaught)
    qed
  qed
qed

text \<open>The contract: each service leaves the parts of the others alone.\<close>

locale task_services =
  fixes sv :: "'s services" and exec_part :: "'s \<Rightarrow> 'x" and approval_part :: "'s \<Rightarrow> 'a" and replay_part :: "'s \<Rightarrow> 'p"
  assumes verify_frame: "sv_verify sv t s = (r, s') \<Longrightarrow> exec_part s' = exec_part s \<and> approval_part s' = approval_part s"
    and create_frame: "sv_create sv t s = (r1, s') \<Longrightarrow> exec_part s' = exec_part s \<and> replay_part s' = replay_part s"
    and consume_frame: "sv_consume sv k t s = (r1, s') \<Longrightarrow> exec_part s' = exec_part s \<and> replay_part s' = replay_part s"
    and execute_frame: "sv_execute sv c a d s = (r2, s') \<Longrightarrow> approval_part s' = approval_part s \<and> replay_part s' = replay_part s"
    and append_frame: "sv_append sv ev s = (r3, s') \<Longrightarrow>
      exec_part s' = exec_part s \<and> approval_part s' = approval_part s \<and> replay_part s' = replay_part s"
begin

lemma with_audit_frame:
  "with_audit sv ev f s = (r, s') \<Longrightarrow>
     exec_part s' = exec_part s \<and> approval_part s' = approval_part s \<and> replay_part s' = replay_part s"
  using append_frame by (fastforce simp: with_audit_def split: prod.splits sum.splits)

lemma unavailable_frame:
  "raise_unavailable sv t d s = (e, s') \<Longrightarrow>
     exec_part s' = exec_part s \<and> approval_part s' = approval_part s \<and> replay_part s' = replay_part s"
  using append_frame by (fastforce simp: raise_unavailable_def split: prod.splits sum.splits)

lemma verify_parts:
  assumes "verify sv t s = (r, s')"
  shows "exec_part s' = exec_part s \<and> approval_part s' = approval_part s \<and>
    (\<exists>q s1. sv_verify sv t s = (q, s1) \<and> replay_part s' = replay_part s1 \<and> (is_ok r \<longleftrightarrow> is_ok q) \<and> (is_ok r \<longrightarrow> s' = s1))"
proof -
  obtain q s1 where q: "sv_verify sv t s = (q, s1)" by fastforce
  show ?thesis using assms q verify_frame [OF q] append_frame unavailable_frame
    by (fastforce simp: verify_def split: prod.splits sum.splits auth_error.splits)
qed

lemma required_frame:
  "approval_required sv t x y s = (r, s') \<Longrightarrow>
     exec_part s' = exec_part s \<and> approval_part s' = approval_part s \<and> replay_part s' = replay_part s"
  unfolding approval_required_def Let_def by (rule with_audit_frame)

lemma denied_frame:
  "denied sv t reason s = (r, s') \<Longrightarrow>
     exec_part s' = exec_part s \<and> approval_part s' = approval_part s \<and> replay_part s' = replay_part s"
  unfolding denied_def by (rule with_audit_frame)

lemma handle_approval_parts:
  assumes "handle_approval sv t s = (r, s')"
  shows "exec_part s' = exec_part s \<and> replay_part s' = replay_part s \<and>
    (\<exists>q s1. (case te_approval_id t of None \<Rightarrow> sv_create sv t s | Some k \<Rightarrow> sv_consume sv k t s) = (q, s1) \<and>
       approval_part s' = approval_part s1 \<and>
       (r = Inr None \<longrightarrow> (\<exists>k x a. te_approval_id t = Some k \<and> q = Inr x \<and>
          sv_append sv (consumed_event t (ar_approval_id x)) s1 = (Inr a, s'))))"
proof -
  obtain q s1 where q: "(case te_approval_id t of None \<Rightarrow> sv_create sv t s | Some k \<Rightarrow> sv_consume sv k t s) = (q, s1)"
    by fastforce
  then have one: "exec_part s1 = exec_part s \<and> replay_part s1 = replay_part s"
    using create_frame consume_frame by (auto split: option.splits)
  have no: "map_sum id Some z \<noteq> Inr None" for z :: "process_error + task_result" by (cases z) simp_all
  from assms q show ?thesis
  proof (cases rule: handle_approval_cases)
    case (ask x y z)
    then show ?thesis using required_frame [OF ask(1)] one q no by auto
  next
    case (deny reason z)
    then show ?thesis using denied_frame [OF deny(1)] one q no by auto
  next
    case (unavailable e)
    then show ?thesis using unavailable_frame [OF unavailable(1)] one q by auto
  next
    case (uncaught e)
    then show ?thesis using one q by auto
  next
    case (consumed k x z)
    then show ?thesis using append_frame [OF consumed(3)] one q by (cases z) auto
  qed
qed

lemma handle_approval_status:
  assumes "handle_approval sv t s = (Inr (Some x), s')"
  shows "tr_status x \<in> {Denied, Approval_required}"
proof -
  obtain q s1 where q: "(case te_approval_id t of None \<Rightarrow> sv_create sv t s | Some k \<Rightarrow> sv_consume sv k t s) = (q, s1)"
    by fastforce
  have some: "Inr (Some x) = map_sum id Some z \<longleftrightarrow> z = Inr x" for z :: "process_error + task_result" by (cases z) auto
  from assms q show ?thesis
  proof (cases rule: handle_approval_cases)
    case (ask x y z)
    then show ?thesis using with_audit_result by (fastforce simp: some approval_required_def Let_def)
  next
    case (deny reason z)
    then show ?thesis using with_audit_result by (fastforce simp: some denied_def)
  qed (auto split: sum.splits)
qed

lemma denied_parts:
  assumes "denied sv t reason s = (r, s')"
  shows "exec_part s' = exec_part s \<and> approval_part s' = approval_part s \<and> replay_part s' = replay_part s \<and>
    \<not> outcome_executed r"
  using denied_frame [OF assms] with_audit_result [OF assms [unfolded denied_def]] by (auto simp: outcome_executed_def)

lemma execute_task_parts:
  assumes "execute_task sv t config s = (r, s')"
  shows "approval_part s' = approval_part s \<and> replay_part s' = replay_part s"
proof -
  obtain q s1 where q: "sv_execute sv (te_capability t) (te_arguments t) config s = (q, s1)" by fastforce
  show ?thesis using assms execute_frame [OF q] q with_audit_frame
    by (cases q) (fastforce simp: execute_task_def)+
qed

text \<open>The ways through the processor, with the parts of the state they touch.\<close>

lemma process_cases:
  assumes "process sv t s = (r, s')"
  obtains (stopped) "exec_part s' = exec_part s" "\<not> outcome_executed r"
  | (executed) s1 where "authorized sv t s s1" "exec_part s1 = exec_part s"
      "execute_task sv t (pdec_config (sv_evaluate sv (te_capability t))) s1 = (r, s')"
proof -
  let ?d = "sv_evaluate sv (te_capability t)"
  obtain v s0 where v: "verify sv t s = (v, s0)" by fastforce
  note parts = verify_parts [OF v]
  show ?thesis
  proof (cases "is_ok v")
    case False
    then show ?thesis using assms v parts stopped by (cases v) (auto simp: process_def outcome_executed_def)
  next
    case True
    then obtain u where vu: "v = Inr u" by (cases v) auto
    have s0: "sv_verify sv t s = (Inr (), s0)" using parts True by (auto simp: is_ok_iff)
    consider (deny) reason where "denied sv t reason s0 = (r, s')"
      | (ask) "pdec_decision ?d = Require_approval"
      | (run) "pdec_decision ?d = Allow" "te_approval_id t = None" "execute_task sv t (pdec_config ?d) s0 = (r, s')"
      using assms v vu by (cases "pdec_decision ?d") (auto simp: process_def Let_def split: if_splits)
    then show ?thesis
    proof cases
      case deny
      then show ?thesis using denied_parts [OF deny] parts stopped by simp
    next
      case run
      then show ?thesis using executed [of s0] s0 parts by (auto simp: authorized_def)
    next
      case ask
      obtain h s2 where h: "handle_approval sv t s0 = (h, s2)" by fastforce
      note hp = handle_approval_parts [OF h]
      have pr: "(case h of Inl e \<Rightarrow> (Inl e, s2) | Inr (Some x) \<Rightarrow> (Inr x, s2)
          | Inr None \<Rightarrow> execute_task sv t (pdec_config ?d) s2) = (r, s')"
        using assms v vu ask h by (auto simp: process_def Let_def split: sum.splits option.splits)
      consider e where "h = Inl e" | x where "h = Inr (Some x)" | "h = Inr None"
        by (metis option.exhaust sum.exhaust)
      then show ?thesis
      proof cases
        case 1
        then show ?thesis using pr hp parts stopped by (auto simp: outcome_executed_def)
      next
        case 2
        then show ?thesis using pr hp parts stopped handle_approval_status [OF h [unfolded 2]]
          by (auto simp: outcome_executed_def)
      next
        case 3
        then have "authorized sv t s s2" using hp s0 ask unfolding authorized_def by fastforce
        then show ?thesis using executed [of s2] pr 3 hp parts by simp
      qed
    qed
  qed
qed

lemma process_replay:
  assumes "process sv t s = (r, s')"
  shows "\<exists>q s1. sv_verify sv t s = (q, s1) \<and> replay_part s' = replay_part s1 \<and> (is_ok r \<longrightarrow> is_ok q)"
proof -
  obtain v s0 where v: "verify sv t s = (v, s0)" by fastforce
  from verify_parts [OF v] obtain q s1 where q: "sv_verify sv t s = (q, s1)" "replay_part s0 = replay_part s1" "is_ok v \<longleftrightarrow> is_ok q"
    by auto
  have "replay_part s' = replay_part s0 \<and> (is_ok r \<longrightarrow> is_ok v)"
  proof (cases v)
    case (Inl e)
    then show ?thesis using assms v by (auto simp: process_def)
  next
    case (Inr u)
    obtain h s2 where h: "handle_approval sv t s0 = (h, s2)" by fastforce
    have "replay_part s' = replay_part s0"
      using assms v Inr h handle_approval_parts [OF h] denied_parts execute_task_parts
      by (fastforce simp: process_def Let_def split: if_splits sum.splits option.splits)
    then show ?thesis using Inr by simp
  qed
  then show ?thesis using q by auto
qed

lemma process_approval:
  assumes "process sv t s = (r, s')"
  shows "approval_part s' = approval_part s \<or>
    (\<exists>s0 q s1. approval_part s0 = approval_part s \<and> approval_part s' = approval_part s1 \<and>
       (case te_approval_id t of None \<Rightarrow> sv_create sv t s0 | Some k \<Rightarrow> sv_consume sv k t s0) = (q, s1))"
proof -
  obtain v s0 where v: "verify sv t s = (v, s0)" by fastforce
  note parts = verify_parts [OF v]
  show ?thesis
  proof (cases v)
    case (Inl e)
    then show ?thesis using assms v parts by (auto simp: process_def)
  next
    case (Inr u)
    obtain h s2 where h: "handle_approval sv t s0 = (h, s2)" by fastforce
    note hp = handle_approval_parts [OF h]
    have "approval_part s' = approval_part s0 \<or> approval_part s' = approval_part s2"
      using assms v Inr h denied_parts execute_task_parts
      by (fastforce simp: process_def Let_def split: if_splits sum.splits option.splits)
    then show ?thesis using hp parts by auto
  qed
qed

end

section \<open>Every answer is audited\<close>

definition audited :: "'s services \<Rightarrow> task_envelope \<Rightarrow> string \<Rightarrow> string \<Rightarrow> 's \<Rightarrow> bool" where
  "audited sv t status audit_id s' \<longleftrightarrow>
     (\<exists>ev s. sv_append sv ev s = (Inr audit_id, s') \<and> ev_status ev = Some status \<and> ev_task_id ev = Some (te_task_id t) \<and>
        ev_capability ev = Some (te_capability t))"

lemma event_fields:
  "ev_task_id (task_event t st) = Some (te_task_id t)" "ev_capability (task_event t st) = Some (te_capability t)"
  "ev_status (task_event t st) = Some st"
  by (simp_all add: task_event_def)

lemmas event_defs = rejected_event_def unavailable_event_def consumed_event_def denied_event_def required_event_def
  executed_event_def

lemma with_audit_audited:
  assumes "with_audit sv ev f s = (r, s')" "ev_task_id ev = Some (te_task_id t)" "ev_capability ev = Some (te_capability t)"
    and "\<And>a. ev_status ev = Some (status_text (tr_status (f a)))" "\<And>a. tr_audit_id (f a) = a" "\<And>a. tr_task_id (f a) = te_task_id t"
  shows "case r of Inr x \<Rightarrow> audited sv t (status_text (tr_status x)) (tr_audit_id x) s' \<and> tr_task_id x = te_task_id t
    | Inl e \<Rightarrow> (\<exists>x. e = Uncaught_audit x)"
proof -
  obtain q s1 where q: "sv_append sv ev s = (q, s1)" by fastforce
  show ?thesis
  proof (cases q)
    case (Inr a)
    then have "audited sv t (status_text (tr_status (f a))) a s1" unfolding audited_def
      by (intro exI [of _ ev] exI [of _ s]) (use q assms(2-4) in simp)
    then show ?thesis using assms(1,5,6) q Inr by (auto simp: with_audit_def)
  qed (use assms(1) q in \<open>auto simp: with_audit_def\<close>)
qed

definition well_answered :: "'s services \<Rightarrow> task_envelope \<Rightarrow> process_error + task_result \<Rightarrow> 's \<Rightarrow> bool" where
  "well_answered sv t r s' \<longleftrightarrow>
     (case r of
        Inr x \<Rightarrow> audited sv t (status_text (tr_status x)) (tr_audit_id x) s' \<and> tr_task_id x = te_task_id t
      | Inl (Task_authentication d a) \<Rightarrow> audited sv t ''denied'' a s'
      | Inl (Task_unavailable d a) \<Rightarrow> audited sv t ''failed'' a s'
      | Inl _ \<Rightarrow> True)"

lemma with_audit_well_answered:
  assumes "with_audit sv ev f s = (r, s')" "ev_task_id ev = Some (te_task_id t)" "ev_capability ev = Some (te_capability t)"
    and "\<And>a. ev_status ev = Some (status_text (tr_status (f a)))" "\<And>a. tr_audit_id (f a) = a" "\<And>a. tr_task_id (f a) = te_task_id t"
  shows "well_answered sv t r s'"
  using with_audit_audited [OF assms] by (auto simp: well_answered_def split: sum.splits)

lemma denied_well_answered: "denied sv t reason s = (r, s') \<Longrightarrow> well_answered sv t r s'"
  unfolding denied_def by (erule with_audit_well_answered) (simp_all add: event_defs event_fields status_text_def)

lemma required_well_answered: "approval_required sv t rec reason s = (r, s') \<Longrightarrow> well_answered sv t r s'"
  unfolding approval_required_def Let_def
  by (erule with_audit_well_answered) (simp_all add: event_defs event_fields status_text_def)

lemma execute_well_answered: "execute_task sv t config s = (r, s') \<Longrightarrow> well_answered sv t r s'"
  by (auto simp: execute_task_def split: prod.splits sum.splits)
    (erule with_audit_well_answered, simp_all add: event_defs event_fields)+

lemma auditedI:
  "sv_append sv ev s = (Inr a, s') \<Longrightarrow> ev_status ev = Some st \<Longrightarrow> ev_task_id ev = Some (te_task_id t) \<Longrightarrow>
     ev_capability ev = Some (te_capability t) \<Longrightarrow> audited sv t st a s'"
  by (auto simp: audited_def)

lemma unavailable_well_answered: "raise_unavailable sv t detail s = (e, s') \<Longrightarrow> well_answered sv t (Inl e) s'"
  by (auto simp: raise_unavailable_def well_answered_def event_defs event_fields split: prod.splits sum.splits
      intro!: auditedI)

lemma verify_well_answered:
  assumes "verify sv t s = (Inl e, s')"
  shows "well_answered sv t (Inl e) s'"
proof -
  obtain q s1 where q: "sv_verify sv t s = (q, s1)" by fastforce
  consider u where "q = Inr u" | m where "q = Inl (Value_error m)" | m where "q = Inl (Replay_unavailable m)" | "q = Inl Type_error"
    by (metis auth_error.exhaust sum.exhaust)
  then show ?thesis
  proof cases
    case 2
    then show ?thesis using assms q
      by (auto simp: verify_def well_answered_def event_defs event_fields split: prod.splits sum.splits intro!: auditedI)
  next
    case 3
    then show ?thesis using assms q unavailable_well_answered [of sv t] by (auto simp: verify_def split: prod.splits)
  qed (use assms q in \<open>auto simp: verify_def well_answered_def\<close>)
qed

lemma handle_approval_well_answered:
  assumes "handle_approval sv t s = (r, s')"
  shows "case r of Inr (Some x) \<Rightarrow> well_answered sv t (Inr x) s' | Inl e \<Rightarrow> well_answered sv t (Inl e) s' | _ \<Rightarrow> True"
proof -
  obtain q s1 where q: "(case te_approval_id t of None \<Rightarrow> sv_create sv t s | Some k \<Rightarrow> sv_consume sv k t s) = (q, s1)"
    by fastforce
  from assms q show ?thesis
  proof (cases rule: handle_approval_cases)
    case (ask x y z)
    then show ?thesis using required_well_answered [OF ask(1)] by (cases z) auto
  next
    case (deny reason z)
    then show ?thesis using denied_well_answered [OF deny(1)] by (cases z) auto
  next
    case (unavailable e)
    then show ?thesis using unavailable_well_answered [OF unavailable(1)] by simp
  qed (auto simp: well_answered_def split: sum.splits)
qed

lemma process_well_answered:
  assumes "process sv t s = (r, s')"
  shows "well_answered sv t r s'"
proof -
  obtain v s0 where v: "verify sv t s = (v, s0)" by fastforce
  obtain h s2 where h: "handle_approval sv t s0 = (h, s2)" by fastforce
  show ?thesis
    using assms v h verify_well_answered [of sv t s] handle_approval_well_answered [OF h] denied_well_answered [of sv t]
      execute_well_answered [of sv t]
    by (fastforce simp: process_def Let_def split: sum.splits if_splits option.splits)
qed

section \<open>What every step keeps, processing keeps\<close>

locale service_relation =
  fixes sv :: "'s services" and R :: "'s \<Rightarrow> 's \<Rightarrow> bool"
  assumes R_refl: "R s s" and R_trans: "R s1 s2 \<Longrightarrow> R s2 s3 \<Longrightarrow> R s1 s3"
    and R_verify: "sv_verify sv t s = (r, s') \<Longrightarrow> R s s'"
    and R_create: "sv_create sv t s = (r1, s') \<Longrightarrow> R s s'"
    and R_consume: "sv_consume sv k t s = (r1, s') \<Longrightarrow> R s s'"
    and R_execute: "sv_execute sv c a d s = (r2, s') \<Longrightarrow> R s s'"
    and R_append: "sv_append sv ev s = (r3, s') \<Longrightarrow> R s s'"
begin

lemma R_with_audit: "with_audit sv ev f s = (r, s') \<Longrightarrow> R s s'"
  using R_append by (fastforce simp: with_audit_def split: prod.splits sum.splits)

lemma R_unavailable: "raise_unavailable sv t d s = (e, s') \<Longrightarrow> R s s'"
  using R_append by (fastforce simp: raise_unavailable_def split: prod.splits sum.splits)

lemma R_denied: "denied sv t reason s = (r, s') \<Longrightarrow> R s s'"
  unfolding denied_def by (rule R_with_audit)

lemma R_required: "approval_required sv t x y s = (r, s') \<Longrightarrow> R s s'"
  unfolding approval_required_def Let_def by (rule R_with_audit)

lemma R_execute_task: "execute_task sv t config s = (r, s') \<Longrightarrow> R s s'"
  using R_execute R_with_audit R_trans by (fastforce simp: execute_task_def split: prod.splits sum.splits)

lemma R_verify_step:
  assumes "verify sv t s = (r, s')"
  shows "R s s'"
proof -
  obtain q s1 where q: "sv_verify sv t s = (q, s1)" by fastforce
  have "s1 = s' \<or> (\<exists>ev x. sv_append sv ev s1 = (x, s')) \<or> (\<exists>d e. raise_unavailable sv t d s1 = (e, s'))"
    using assms q by (auto simp: verify_def split: prod.splits sum.splits auth_error.splits)
  then show ?thesis using R_trans [OF R_verify [OF q]] R_verify [OF q] R_append R_unavailable by blast
qed

lemma R_handle_approval:
  assumes "handle_approval sv t s = (r, s')"
  shows "R s s'"
proof -
  obtain q s1 where q: "(case te_approval_id t of None \<Rightarrow> sv_create sv t s | Some k \<Rightarrow> sv_consume sv k t s) = (q, s1)"
    by fastforce
  then have one: "R s s1" using R_create R_consume by (auto split: option.splits)
  from assms q show ?thesis
    by (cases rule: handle_approval_cases) (auto intro: R_trans [OF one] R_required R_denied R_unavailable R_append one)
qed

lemma R_process:
  assumes "process sv t s = (r, s')"
  shows "R s s'"
proof -
  obtain v s0 where v: "verify sv t s = (v, s0)" by fastforce
  obtain h s2 where h: "handle_approval sv t s0 = (h, s2)" by fastforce
  note a = R_verify_step [OF v] and b = R_trans [OF R_verify_step [OF v] R_handle_approval [OF h]]
  have "s' = s0 \<or> s' = s2 \<or> (\<exists>x y. denied sv t x s0 = (y, s')) \<or>
      (\<exists>x. execute_task sv t x s0 = (r, s')) \<or> (\<exists>x. execute_task sv t x s2 = (r, s'))"
    using assms v h by (auto simp: process_def Let_def split: sum.splits if_splits option.splits)
  then show ?thesis using a b R_trans [OF a] R_trans [OF b] R_denied R_execute_task by blast
qed

end

section \<open>The gate\<close>

text \<open>The decision the processor is meant to take, as a function of what the services said.\<close>

datatype verdict = Rejected | Service_down | Refused | Waiting | Ran | Crashed

definition gate ::
  "auth_error + unit \<Rightarrow> decision \<Rightarrow> string option \<Rightarrow> approval_error + approval_record \<Rightarrow> verdict" where
  "gate verified policy approval_id approval =
     (case verified of
        Inl (Value_error _) \<Rightarrow> Rejected
      | Inl (Replay_unavailable _) \<Rightarrow> Service_down
      | Inl Type_error \<Rightarrow> Crashed
      | Inr _ \<Rightarrow>
          (case policy of
             Deny \<Rightarrow> Refused
           | Allow \<Rightarrow> if approval_id = None then Ran else Refused
           | Require_approval \<Rightarrow>
               (case approval of
                  Inr _ \<Rightarrow> if approval_id = None then Waiting else Ran
                | Inl (Approval_unavailable _) \<Rightarrow> Service_down
                | Inl e \<Rightarrow>
                    if approval_id = None then Crashed
                    else if e = Approval_pending then Waiting
                    else if e \<in> {Approval_not_found, Approval_denied, Approval_consumed, Approval_expired, Approval_mismatch}
                      then Refused
                    else Crashed)))"

definition verdict_of :: "process_error + task_result \<Rightarrow> verdict" where
  "verdict_of r =
     (case r of
        Inr x \<Rightarrow> (case tr_status x of Completed \<Rightarrow> Ran | Failed \<Rightarrow> Ran | Denied \<Rightarrow> Refused | Approval_required \<Rightarrow> Waiting)
      | Inl (Task_authentication _ _) \<Rightarrow> Rejected
      | Inl (Task_unavailable _ _) \<Rightarrow> Service_down
      | Inl _ \<Rightarrow> Crashed)"

definition audit_refused :: "process_error + 'r \<Rightarrow> bool" where
  "audit_refused r \<longleftrightarrow> (\<exists>e. r = Inl (Uncaught_audit e))"

lemma denied_verdict: "denied sv t reason s = (r, s') \<Longrightarrow> verdict_of r = Refused \<or> audit_refused r"
  using with_audit_result by (fastforce simp: denied_def verdict_of_def audit_refused_def)

lemma required_verdict: "approval_required sv t x y s = (r, s') \<Longrightarrow> verdict_of r = Waiting \<or> audit_refused r"
  using with_audit_result by (fastforce simp: approval_required_def Let_def verdict_of_def audit_refused_def)

lemma execute_verdict: "execute_task sv t c s = (r, s') \<Longrightarrow> verdict_of r = Ran \<or> audit_refused r"
  using with_audit_result
  by (fastforce simp: execute_task_def verdict_of_def audit_refused_def split: prod.splits sum.splits)

lemma unavailable_verdict:
  "raise_unavailable sv t d s = (e, s') \<Longrightarrow> verdict_of (Inl e) = Service_down \<or> audit_refused (Inl e)"
  by (auto simp: raise_unavailable_def verdict_of_def audit_refused_def split: prod.splits sum.splits)

lemma verify_verdict:
  assumes "sv_verify sv t s = (q, s1)" "verify sv t s = (Inl e, s')"
  shows "verdict_of (Inl e) = gate q d k a \<or> audit_refused (Inl e)"
proof -
  consider u where "q = Inr u" | m where "q = Inl (Value_error m)" | m where "q = Inl (Replay_unavailable m)" | "q = Inl Type_error"
    by (metis auth_error.exhaust sum.exhaust)
  then show ?thesis
    by cases (use assms unavailable_verdict [of sv t] in \<open>fastforce simp: verify_def verdict_of_def audit_refused_def gate_def
        split: prod.splits sum.splits\<close>)+
qed

lemma handle_approval_verdict:
  assumes "handle_approval sv t s = (r, s')" "pdec_decision (sv_evaluate sv (te_capability t)) = Require_approval"
    and "(case te_approval_id t of None \<Rightarrow> sv_create sv t s | Some k \<Rightarrow> sv_consume sv k t s) = (q, s1)"
  shows "case r of Inr (Some x) \<Rightarrow> verdict_of (Inr x) = gate (Inr ()) Require_approval (te_approval_id t) q
    | Inl e \<Rightarrow> verdict_of (Inl e) = gate (Inr ()) Require_approval (te_approval_id t) q \<or> audit_refused (Inl e :: process_error + task_result)
    | Inr None \<Rightarrow> gate (Inr ()) Require_approval (te_approval_id t) q = Ran"
proof -
  define g where "g = gate (Inr ()) Require_approval (te_approval_id t) q"
  let ?ok = "\<lambda>r. case r of Inr (Some x) \<Rightarrow> verdict_of (Inr x) = g
    | Inl e \<Rightarrow> verdict_of (Inl e) = g \<or> audit_refused (Inl e :: process_error + task_result) | Inr None \<Rightarrow> g = Ran"
  have stop: "?ok (fst (stop_with p))" if "verdict_of (fst p) = g \<or> audit_refused (fst p)"
    for p :: "(process_error + task_result) \<times> 'a"
    using that by (cases "fst p") (auto simp: stop_with_def audit_refused_def)
  have ask: "?ok (fst (stop_with (approval_required sv t x y s1)))" if "g = Waiting" for x y
    using required_verdict [OF prod.collapse [symmetric]] that by (intro stop) simp
  have deny: "?ok (fst (stop_with (denied sv t x s1)))" if "g = Refused" for x
    using denied_verdict [OF prod.collapse [symmetric]] that by (intro stop) simp
  have down: "?ok (fst (stop_unavailable sv t s1))" if "g = Service_down"
    using unavailable_verdict [of sv t "''approval service unavailable''" s1] that
    by (cases "raise_unavailable sv t ''approval service unavailable'' s1") (auto simp: stop_unavailable_def)
  have crash: "?ok (Inl (Uncaught_approval e))" if "g = Crashed" for e using that by (simp add: verdict_of_def)
  have "?ok (fst (handle_approval sv t s))"
  proof (cases "te_approval_id t")
    case None
    then have c: "sv_create sv t s = (q, s1)" using assms(3) by simp
    show ?thesis
    proof (cases q)
      case (Inr x)
      then have "g = Waiting" using None by (simp add: g_def gate_def)
      then show ?thesis using ask [of "Some x" None] by (simp add: handle_approval_def None c Inr)
    next
      case (Inl e)
      then have "g = (case e of Approval_unavailable _ \<Rightarrow> Service_down | _ \<Rightarrow> Crashed)"
        using None by (cases e) (simp_all add: g_def gate_def)
      then show ?thesis using down crash by (cases e) (simp_all add: handle_approval_def None c Inl)
    qed
  next
    case (Some k)
    then have c: "sv_consume sv k t s = (q, s1)" using assms(3) by simp
    show ?thesis
    proof (cases q)
      case (Inr x)
      then have "g = Ran" using Some by (simp add: g_def gate_def)
      then show ?thesis
        by (auto simp: handle_approval_def Some c Inr audit_refused_def split: prod.splits sum.splits)
    next
      case (Inl e)
      have "g = (case e of Approval_unavailable _ \<Rightarrow> Service_down | Approval_pending \<Rightarrow> Waiting
          | Approval_state _ \<Rightarrow> Crashed | Approval_value_error _ \<Rightarrow> Crashed | Approval_type_error \<Rightarrow> Crashed | _ \<Rightarrow> Refused)"
        using Some Inl by (cases e) (simp_all add: g_def gate_def)
      then show ?thesis using down crash ask deny by (cases e) (simp_all add: handle_approval_def Some c Inl)
    qed
  qed
  then show ?thesis unfolding g_def using assms(1) by simp
qed

text \<open>C6. The processor implements the gate: whatever the services answer, the outcome of processing a task is the one
  the gate prescribes for what verification, policy and approval store said, unless the audit log refused
  a record, in which case that error is raised instead.\<close>

theorem process_refines_gate:
  "let s0 = snd (sv_verify sv t s);
       approval = (case te_approval_id t of None \<Rightarrow> sv_create sv t s0 | Some k \<Rightarrow> sv_consume sv k t s0)
   in verdict_of (fst (process sv t s)) =
        gate (fst (sv_verify sv t s)) (pdec_decision (sv_evaluate sv (te_capability t))) (te_approval_id t) (fst approval) \<or>
      audit_refused (fst (process sv t s))"
proof -
  let ?d = "sv_evaluate sv (te_capability t)"
  obtain q s0 where q: "sv_verify sv t s = (q, s0)" by fastforce
  obtain a s1 where a: "(case te_approval_id t of None \<Rightarrow> sv_create sv t s0 | Some k \<Rightarrow> sv_consume sv k t s0) = (a, s1)" by fastforce
  obtain v s' where v: "verify sv t s = (v, s')" by fastforce
  have "verdict_of (fst (process sv t s)) = gate q (pdec_decision ?d) (te_approval_id t) a \<or> audit_refused (fst (process sv t s))"
  proof (cases v)
    case (Inl e)
    then show ?thesis using verify_verdict [OF q v [unfolded Inl]] v by (simp add: process_def)
  next
    case (Inr u)
    then have ok: "q = Inr ()" "s' = s0" using q v
      by (auto simp: verify_def split: prod.splits sum.splits auth_error.splits)
    have deny: "verdict_of (fst (denied sv t x s0)) = Refused \<or> audit_refused (fst (denied sv t x s0))" for x
      by (rule denied_verdict [OF prod.collapse [symmetric]])
    have run: "verdict_of (fst (execute_task sv t x y)) = Ran \<or> audit_refused (fst (execute_task sv t x y))" for x y
      by (rule execute_verdict [OF prod.collapse [symmetric]])
    show ?thesis
    proof (cases "pdec_decision ?d")
      case Allow
      then show ?thesis using deny run ok v Inr by (simp add: process_def gate_def)
    next
      case Deny
      then show ?thesis using deny ok v Inr by (simp add: process_def gate_def)
    next
      case Require_approval
      obtain h s2 where h: "handle_approval sv t s0 = (h, s2)" by fastforce
      consider e where "h = Inl e" | x where "h = Inr (Some x)" | "h = Inr None"
        by (metis option.exhaust sum.exhaust)
      then show ?thesis
        using handle_approval_verdict [OF h Require_approval a] run [of "pdec_config ?d" s2]
        by cases (simp_all add: process_def v Inr ok h Require_approval audit_refused_def)
    qed
  qed
  then show ?thesis by (simp add: Let_def q a)
qed

end
