(* ===== verification/Gateway.thy ===== *)
theory Gateway
  imports Task_Processor
begin

text \<open>
  main.py: the gateway that the HTTP endpoint serves, built from the components: the SQLite replay guard and
  \<open>verify_task\<close>, the policy engine, the approval store, the executor and the audit log. A call comes
  with everything the environment decides for it (clocks, faults, random ids). The operator's commands
  work on the same approval database, so a run interleaves submissions and approval calls.
\<close>

record 'h gateway =
  gw_hmac :: hmac_fn
  gw_fromiso :: "string \<Rightarrow> bool option"
  gw_lib :: exec_lib
  gw_library_text :: "library_error \<Rightarrow> string"
  gw_shared_secret :: string
  gw_replay_guard :: sqlite_guard
  gw_policy :: policy_engine
  gw_approval_store :: approval_store
  gw_audit_log :: audit_log
  gw_executor :: "'h executor"

record 'h gateway_state =
  gs_replay :: replay_db
  gs_approvals :: approval_db
  gs_audit :: audit_files
  gs_exec :: "'h exec_state"
  gs_appends :: nat

record call_env =
  ce_now :: int
  ce_guard_now :: datetime
  ce_guard_fault :: bool
  ce_store_now :: datetime
  ce_store_fault :: bool
  ce_token :: string
  ce_exec :: exec_env
  ce_audit :: "nat \<Rightarrow> audit_env"

definition exec_error_text :: "(library_error \<Rightarrow> string) \<Rightarrow> exec_error \<Rightarrow> string" where
  "exec_error_text library_text e = (case e of Exec_error msg \<Rightarrow> msg | Library_error x \<Rightarrow> library_text x)"

section \<open>The services\<close>

definition gateway_verify :: "'h gateway \<Rightarrow> call_env \<Rightarrow> task_envelope \<Rightarrow> 'h gateway_state \<Rightarrow> (auth_error + unit) \<times> 'h gateway_state" where
  "gateway_verify gw env t s =
     (case verify_task (gw_hmac gw)
        (Some (sqlite_check_and_mark (gw_hmac gw) (gw_replay_guard gw) (ce_guard_fault env) (ce_guard_now env)))
        60 300 (ce_now env) t (gw_shared_secret gw) (gs_replay s) of (r, db) \<Rightarrow> (r, s\<lparr>gs_replay := db\<rparr>))"

definition gateway_create where
  "gateway_create gw env t s =
     (case create (gw_hmac gw) (gw_approval_store gw) (ce_store_fault env) (ce_store_now env) (ce_token env) t (gs_approvals s) of
        (r, db) \<Rightarrow> (r, s\<lparr>gs_approvals := db\<rparr>))"

definition gateway_consume where
  "gateway_consume gw env k t s =
     (case consume (gw_hmac gw) (gw_approval_store gw) (ce_store_fault env) (ce_store_now env) k t (gs_approvals s) of
        (r, db) \<Rightarrow> (r, s\<lparr>gs_approvals := db\<rparr>))"

definition gateway_execute where
  "gateway_execute gw env capability arguments config s =
     (case execute (gw_lib gw) (gw_executor gw) (ce_exec env) capability arguments config (gs_exec s) of
        (r, x) \<Rightarrow> (map_sum (exec_error_text (gw_library_text gw)) id r, s\<lparr>gs_exec := x\<rparr>))"

definition gateway_append where
  "gateway_append gw env ev s =
     (case audit_append (gw_hmac gw) (gw_fromiso gw) (gw_audit_log gw) (ce_audit env (gs_appends s)) ev (gs_audit s) of
        (r, fs) \<Rightarrow> (r, s\<lparr>gs_audit := fs, gs_appends := Suc (gs_appends s)\<rparr>))"

definition gateway_services :: "'h gateway \<Rightarrow> call_env \<Rightarrow> 'h gateway_state services" where
  "gateway_services gw env = \<lparr>sv_verify = gateway_verify gw env, sv_evaluate = evaluate (gw_policy gw),
     sv_create = gateway_create gw env, sv_consume = gateway_consume gw env, sv_execute = gateway_execute gw env,
     sv_append = gateway_append gw env\<rparr>"

lemmas gateway_service_defs = gateway_services_def gateway_verify_def gateway_create_def gateway_consume_def
  gateway_execute_def gateway_append_def

interpretation gateway: task_services "gateway_services gw env" gs_exec gs_approvals gs_replay for gw env
  by unfold_locales (auto simp: gateway_service_defs split: prod.splits)

lemma gateway_evaluate [simp]: "sv_evaluate (gateway_services gw env) = evaluate (gw_policy gw)"
  by (simp add: gateway_services_def)

section \<open>The endpoint\<close>

datatype http_outcome = Http_result task_result | Http_exception int string | Unhandled process_error

definition submit_task ::
  "'h gateway \<Rightarrow> call_env \<Rightarrow> task_envelope \<Rightarrow> 'h gateway_state \<Rightarrow> http_outcome \<times> 'h gateway_state" where
  "submit_task gw env t s =
     (case process (gateway_services gw env) t s of
        (Inr x, s') \<Rightarrow> (Http_result x, s')
      | (Inl (Task_authentication detail _), s') \<Rightarrow> (Http_exception 401 detail, s')
      | (Inl (Task_unavailable detail _), s') \<Rightarrow> (Http_exception 503 detail, s')
      | (Inl e, s') \<Rightarrow> (Unhandled e, s'))"

datatype gateway_call = Submit call_env task_envelope | Operate approval_call

datatype gateway_result = Submitted http_outcome | Operated "approval_error + approval_record list"

fun gateway_step :: "'h gateway \<Rightarrow> gateway_call \<Rightarrow> 'h gateway_state \<Rightarrow> gateway_result \<times> 'h gateway_state" where
  "gateway_step gw (Submit env t) s = (case submit_task gw env t s of (r, s') \<Rightarrow> (Submitted r, s'))"
| "gateway_step gw (Operate c) s =
     (case approval_step (gw_hmac gw) (gw_approval_store gw) c (gs_approvals s) of
        (r, db) \<Rightarrow> (Operated r, s\<lparr>gs_approvals := db\<rparr>))"

definition answered :: "gateway_result \<Rightarrow> bool" where
  "answered r = (case r of Submitted (Http_result _) \<Rightarrow> True | _ \<Rightarrow> False)"

definition ran :: "gateway_result \<Rightarrow> bool" where
  "ran r = (case r of Submitted (Http_result x) \<Rightarrow> tr_status x \<in> {Completed, Failed} | _ \<Rightarrow> False)"

lemma submit_task_process:
  assumes "submit_task gw env t s = (r, s')"
  obtains p where "process (gateway_services gw env) t s = (p, s')" "\<And>x. r = Http_result x \<longleftrightarrow> p = Inr x"
    "\<And>c d. r = Http_exception c d \<longleftrightarrow> (\<exists>a. (c = 401 \<and> p = Inl (Task_authentication d a)) \<or> (c = 503 \<and> p = Inl (Task_unavailable d a)))"
proof -
  obtain p s1 where p: "process (gateway_services gw env) t s = (p, s1)" by fastforce
  show ?thesis
  proof (rule that [of p])
    show "process (gateway_services gw env) t s = (p, s')"
      using assms p by (auto simp: submit_task_def split: sum.splits process_error.splits)
    show "r = Http_result x \<longleftrightarrow> p = Inr x" for x
      using assms p by (auto simp: submit_task_def split: sum.splits process_error.splits)
    show "r = Http_exception c d \<longleftrightarrow> (\<exists>a. (c = 401 \<and> p = Inl (Task_authentication d a)) \<or> (c = 503 \<and> p = Inl (Task_unavailable d a)))" for c d
      using assms p by (auto simp: submit_task_def split: sum.splits process_error.splits)
  qed
qed

section \<open>Verification and the replay database\<close>

lemma gateway_verify_ok:
  assumes "sv_verify (gateway_services gw env) t s = (Inr u, s')"
  shows "te_signature t = compute_task_signature (gw_hmac gw) t (gw_shared_secret gw) \<and>
    ce_now env < dt_instant (te_expires_at t) \<and>
    dt_instant (te_expires_at t) - dt_instant (te_issued_at t) \<le> 300000000 \<and>
    dt_aware (ce_guard_now env) \<and> dt_aware (te_expires_at t) \<and>
    check_and_mark_us (gw_hmac gw) (gw_replay_guard gw) (ce_guard_fault env) (micros (ce_guard_now env)) (te_nonce t)
      (micros (te_expires_at t)) (gs_replay s) = (Inr (), gs_replay s')"
  using assms verify_task_ok
  by (fastforce simp: gateway_services_def gateway_verify_def sqlite_check_and_mark_def datetime_to_microseconds_def
      split: prod.splits if_splits)

text \<open>What verification does to the replay database, whatever its outcome.\<close>

lemma gateway_verify_replay:
  assumes "sv_verify (gateway_services gw env) t s = (r, s')"
  shows "gs_replay s' = gs_replay s \<or>
    (\<exists>q. check_and_mark_us (gw_hmac gw) (gw_replay_guard gw) (ce_guard_fault env) (micros (ce_guard_now env)) (te_nonce t)
      (micros (te_expires_at t)) (gs_replay s) = (q, gs_replay s'))"
  using assms
  by (auto simp: gateway_services_def gateway_verify_def verify_task_def Let_def sqlite_check_and_mark_def
      datetime_to_microseconds_def split: prod.splits if_splits option.splits bool.splits)

fun gateway_clock :: "gateway_call \<Rightarrow> int" where
  "gateway_clock (Submit env t) = micros (ce_guard_now env)"
| "gateway_clock (Operate c) = micros (fst (snd c))"

fun call_task :: "gateway_call \<Rightarrow> task_envelope option" where
  "call_task (Submit env t) = Some t"
| "call_task (Operate c) = None"

definition nonce_of :: "gateway_call \<Rightarrow> string option" where
  "nonce_of c = map_option te_nonce (call_task c)"

definition expiry_of :: "gateway_call \<Rightarrow> int" where
  "expiry_of c = (case call_task c of None \<Rightarrow> 0 | Some t \<Rightarrow> micros (te_expires_at t))"

definition remembers_nonce :: "'h gateway \<Rightarrow> 'h gateway_state \<Rightarrow> string option \<Rightarrow> int \<Rightarrow> bool" where
  "remembers_nonce gw s n e = (case n of None \<Rightarrow> True | Some x \<Rightarrow> sqlite_remembers (gw_hmac gw) (gw_replay_guard gw) (gs_replay s) x e)"

lemma gateway_step_replay:
  assumes "gateway_step gw c s = (r, s')"
  obtains (same) "gs_replay s' = gs_replay s" "\<not> answered r"
  | (checked) env t q where "c = Submit env t"
      "check_and_mark_us (gw_hmac gw) (gw_replay_guard gw) (ce_guard_fault env) (micros (ce_guard_now env)) (te_nonce t)
        (micros (te_expires_at t)) (gs_replay s) = (q, gs_replay s')" "answered r \<Longrightarrow> q = Inr ()"
proof (cases c)
  case (Operate a)
  then show ?thesis using assms same by (auto simp: answered_def split: prod.splits)
next
  case (Submit env t)
  then obtain o1 where o: "submit_task gw env t s = (o1, s')" "r = Submitted o1"
    using assms by (auto split: prod.splits)
  from o(1) obtain p where p: "process (gateway_services gw env) t s = (p, s')" "\<And>x. o1 = Http_result x \<longleftrightarrow> p = Inr x"
    by (rule submit_task_process) blast
  from gateway.process_replay [OF p(1)] obtain v s1 where v: "sv_verify (gateway_services gw env) t s = (v, s1)"
    "gs_replay s' = gs_replay s1" "is_ok p \<longrightarrow> is_ok v" by blast
  have ans: "answered r \<longleftrightarrow> is_ok p" using o(2) p(2) by (cases p) (auto simp: answered_def split: http_outcome.splits)
  show ?thesis
  proof (cases "is_ok v")
    case True
    then obtain u where "v = Inr u" by (auto simp: is_ok_iff)
    with gateway_verify_ok [of gw env t s u s1] v show ?thesis using checked [of env t "Inr ()"] Submit by auto
  next
    case False
    with gateway_verify_replay [OF v(1)] v ans show ?thesis using same checked [of env t] Submit by auto
  qed
qed

interpretation gateway_nonces: expiring_use "gateway_step gw" "\<lambda>c r. answered r" gateway_clock nonce_of expiry_of
  "remembers_nonce gw" "\<lambda>s. replay_db_wf (gw_replay_guard gw) (gs_replay s)" for gw
proof (unfold_locales, goal_cases)
  case (1 s c r s')
  from 1(2) show ?case
  proof (cases rule: gateway_step_replay)
    case (checked env t q)
    then show ?thesis
      using 1(1,3) sqlite.accepted [of "gw_replay_guard gw" "gs_replay s" "gw_hmac gw"]
      by (auto simp: remembers_nonce_def nonce_of_def expiry_of_def)
  qed (use 1(3) in simp)
next
  case (2 s c r s' e)
  from 2(2) show ?case
  proof (cases rule: gateway_step_replay)
    case (checked env t q)
    then show ?thesis
      using 2(1,3,4) sqlite.refused [of "gw_replay_guard gw" "gs_replay s" "gw_hmac gw" "te_nonce t" e "micros (ce_guard_now env)"
          "ce_guard_fault env" "micros (te_expires_at t)"]
      by (auto simp: remembers_nonce_def nonce_of_def)
  qed
next
  case (3 s c r s' k e)
  from 3(2) show ?case
  proof (cases rule: gateway_step_replay)
    case same
    then show ?thesis using 3(3) by (cases k) (simp_all add: remembers_nonce_def)
  next
    case (checked env t q)
    then show ?thesis
      using 3(1,3,4) sqlite.kept [of "gw_replay_guard gw" "gs_replay s" "gw_hmac gw" _ e "micros (ce_guard_now env)"
          "ce_guard_fault env" "te_nonce t" "micros (te_expires_at t)"]
      by (auto simp: remembers_nonce_def split: option.splits)
  qed
next
  case (4 s c r s')
  from 4(2) show ?case
  proof (cases rule: gateway_step_replay)
    case (checked env t q)
    then show ?thesis
      using sqlite.inv_check [OF 4(1), of "gw_hmac gw" "ce_guard_fault env" "micros (ce_guard_now env)" "te_nonce t"
          "micros (te_expires_at t)"] by simp
  qed (use 4(1) in simp)
qed

section \<open>Approvals\<close>

text \<open>Each gateway call is at most one call of the approval store.\<close>

definition store_call :: "gateway_call \<Rightarrow> approval_call" where
  "store_call c =
     (case c of Operate a \<Rightarrow> a
      | Submit env t \<Rightarrow> (ce_store_fault env, ce_store_now env,
          (case te_approval_id t of None \<Rightarrow> Create t (ce_token env) | Some k \<Rightarrow> Consume k t)))"

text \<open>A submission that ran with an approval.\<close>

definition ran_with :: "'h gateway \<Rightarrow> gateway_call \<Rightarrow> gateway_result \<Rightarrow> string \<Rightarrow> bool" where
  "ran_with gw c r k \<longleftrightarrow>
     (\<exists>env t. c = Submit env t \<and> ran r \<and> te_approval_id t = Some k \<and>
        pdec_decision (evaluate (gw_policy gw) (te_capability t)) = Require_approval)"

lemma gateway_step_store:
  assumes "gateway_step gw c s = (r, s')"
  shows "gs_approvals s' = gs_approvals s \<or>
    (\<exists>q. approval_step (gw_hmac gw) (gw_approval_store gw) (store_call c) (gs_approvals s) = (q, gs_approvals s'))"
proof (cases c)
  case (Operate a)
  then show ?thesis using assms by (auto simp: store_call_def split: prod.splits)
next
  case (Submit env t)
  then obtain o1 where o: "submit_task gw env t s = (o1, s')" using assms by (auto split: prod.splits)
  from o obtain p where p: "process (gateway_services gw env) t s = (p, s')" by (rule submit_task_process) blast
  have one_snd: "snd (one x) = snd x" for x :: "(approval_error + approval_record) \<times> approval_db"
    by (auto simp: one_def split: prod.splits sum.splits)
  from gateway.process_approval [OF p] show ?thesis
  proof
    assume "\<exists>s0 q s1. gs_approvals s0 = gs_approvals s \<and> gs_approvals s' = gs_approvals s1 \<and>
      (case te_approval_id t of None \<Rightarrow> sv_create (gateway_services gw env) t s0
        | Some k \<Rightarrow> sv_consume (gateway_services gw env) k t s0) = (q, s1)"
    then obtain s0 q s1 where "gs_approvals s0 = gs_approvals s" "gs_approvals s' = gs_approvals s1"
      "(case te_approval_id t of None \<Rightarrow> sv_create (gateway_services gw env) t s0
        | Some k \<Rightarrow> sv_consume (gateway_services gw env) k t s0) = (q, s1)" by blast
    then have "snd (approval_step (gw_hmac gw) (gw_approval_store gw) (store_call c) (gs_approvals s)) = gs_approvals s'"
      by (cases "te_approval_id t")
        (auto simp: Submit store_call_def gateway_services_def gateway_create_def gateway_consume_def one_snd split: prod.splits)
    then show ?thesis by (metis prod.collapse)
  qed simp
qed

lemma ran_with_consumed:
  assumes "gateway_step gw c s = (r, s')" "ran_with gw c r k"
  shows "\<exists>env t q. c = Submit env t \<and> te_approval_id t = Some k \<and>
    approval_step (gw_hmac gw) (gw_approval_store gw) (store_call c) (gs_approvals s) = (Inr q, gs_approvals s')"
proof -
  from assms(2) obtain env t where c: "c = Submit env t" "ran r" "te_approval_id t = Some k"
    "pdec_decision (evaluate (gw_policy gw) (te_capability t)) = Require_approval" by (auto simp: ran_with_def)
  then obtain o1 where o: "submit_task gw env t s = (o1, s')" "r = Submitted o1"
    using assms(1) by (auto split: prod.splits)
  from o(1) obtain p where p: "process (gateway_services gw env) t s = (p, s')" "\<And>x. o1 = Http_result x \<longleftrightarrow> p = Inr x"
    by (rule submit_task_process) blast
  from c(2) obtain x where "r = Submitted (Http_result x)" "tr_status x \<in> {Completed, Failed}"
    by (auto simp: ran_def split: gateway_result.splits http_outcome.splits)
  then have ex: "outcome_executed p" using o(2) p(2) [of x] by (simp add: outcome_executed_def)
  from p(1) show ?thesis
  proof (cases rule: gateway.process_cases)
    case (executed s1)
    from executed(1) obtain s0 rec s2 a where v: "sv_verify (gateway_services gw env) t s = (Inr (), s0)"
      and x: "sv_consume (gateway_services gw env) k t s0 = (Inr rec, s2)"
        "sv_append (gateway_services gw env) (consumed_event t (ar_approval_id rec)) s2 = (Inr a, s1)"
      using c(3,4) by (auto simp: authorized_def)
    have "gs_approvals s0 = gs_approvals s" using gateway.verify_frame [OF v] by simp
    moreover have "gs_approvals s' = gs_approvals s2"
      using gateway.append_frame [OF x(2)] gateway.execute_task_parts [OF executed(3)] by simp
    ultimately show ?thesis using x(1) c
      by (auto simp: gateway_services_def gateway_consume_def store_call_def one_def split: prod.splits)
  qed (use ex in simp)
qed

interpretation gateway_approvals: single_use "gateway_step gw" "ran_with gw" "\<lambda>c k. issued_by (store_call c) k"
  "\<lambda>s k. spent (gs_approvals s) k" "\<lambda>_. True" for gw
proof (unfold_locales, goal_cases)
  case (1 s c r s' k)
  from ran_with_consumed [OF 1(2,3)] show ?case
    using approvals.unspent [OF TrueI, of "gw_hmac gw" "gw_approval_store gw"]
    by (fastforce simp: used_by_def call_op_def store_call_def)
next
  case (2 s c r s' k)
  from ran_with_consumed [OF 2(2,3)] show ?case
    using approvals.spends [OF TrueI, of "gw_hmac gw" "gw_approval_store gw"]
    by (fastforce simp: used_by_def call_op_def store_call_def)
next
  case (3 s c r s' k)
  from gateway_step_store [OF 3(2)] show ?case
    using approvals.stays [OF TrueI, of "gw_hmac gw" "gw_approval_store gw"] 3(3,4) by metis
qed simp

section \<open>Service\<close>

text \<open>A call in which nothing fails: an audit log, with or without an anchor, that takes the two records a call may
  write.\<close>

definition fair_call :: "'h gateway \<Rightarrow> call_env \<Rightarrow> 'h gateway_state \<Rightarrow> bool" where
  "fair_call gw env s \<longleftrightarrow> log_ready (gw_hmac gw) (gw_fromiso gw) (gw_audit_log gw)
     [ce_audit env (gs_appends s), ce_audit env (Suc (gs_appends s))] (gs_audit s)"

text \<open>Neither the arguments nor the output of the execution hold \<open>NaN\<close> or an infinity, which the audit log cannot record.\<close>

definition finite_exchange :: "'h gateway \<Rightarrow> call_env \<Rightarrow> string \<Rightarrow> arguments \<Rightarrow> 'h gateway_state \<Rightarrow> bool" where
  "finite_exchange gw env capability arguments s \<longleftrightarrow> finite_json (JObj arguments) \<and>
     (case fst (execute (gw_lib gw) (gw_executor gw) (ce_exec env) capability arguments
        (pdec_config (evaluate (gw_policy gw) capability)) (gs_exec s)) of
        Inr output \<Rightarrow> finite_json (JObj output) | Inl _ \<Rightarrow> True)"

definition valid_task :: "'h gateway \<Rightarrow> call_env \<Rightarrow> task_envelope \<Rightarrow> 'h gateway_state \<Rightarrow> bool" where
  "valid_task gw env t s \<longleftrightarrow> te_signature t = compute_task_signature (gw_hmac gw) t (gw_shared_secret gw) \<and>
     dt_instant (te_expires_at t) - dt_instant (te_issued_at t) \<le> 300000000 \<and> ce_now env < dt_instant (te_expires_at t) \<and>
     \<not> timestamp_diff_gt (dt_instant (te_issued_at t)) (ce_now env) 60 \<and>
     dt_aware (ce_guard_now env) \<and> dt_aware (te_expires_at t) \<and>
     is_ok (fst (check_and_mark_us (gw_hmac gw) (gw_replay_guard gw) (ce_guard_fault env) (micros (ce_guard_now env))
       (te_nonce t) (micros (te_expires_at t)) (gs_replay s)))"

lemma gateway_verify_succeeds:
  assumes "valid_task gw env t s"
  shows "\<exists>db. sv_verify (gateway_services gw env) t s = (Inr (), s\<lparr>gs_replay := db\<rparr>)"
proof -
  obtain u db where c: "check_and_mark_us (gw_hmac gw) (gw_replay_guard gw) (ce_guard_fault env) (micros (ce_guard_now env))
       (te_nonce t) (micros (te_expires_at t)) (gs_replay s) = (Inr u, db)"
    using assms by (auto simp: valid_task_def is_ok_iff) (metis prod.collapse)
  show ?thesis using assms c
    by (intro exI [of _ db])
      (simp add: valid_task_def gateway_services_def gateway_verify_def verify_task_def Let_def compare_digest_def
        sqlite_check_and_mark_def datetime_to_microseconds_def)
qed

lemma gateway_append_ready:
  assumes "\<And>k m. length (gw_hmac gw k m) = 32"
    and "log_ready (gw_hmac gw) (gw_fromiso gw) (gw_audit_log gw) (ce_audit env (gs_appends s) # envs) (gs_audit s)" "event_finite ev"
  shows "\<exists>fs. sv_append (gateway_services gw env) ev s =
      (Inr (en_uuid (ce_audit env (gs_appends s))), s\<lparr>gs_audit := fs, gs_appends := Suc (gs_appends s)\<rparr>) \<and>
    log_ready (gw_hmac gw) (gw_fromiso gw) (gw_audit_log gw) envs fs"
proof -
  from assms(2) obtain m h where "verify_log (gw_hmac gw) (al_key (gw_audit_log gw)) (af_log (gs_audit s)) = Inr (m, h)"
    by (auto simp: log_ready_def is_ok_iff)
  from audit_append_ready [OF assms this] show ?thesis by (auto simp: gateway_services_def gateway_append_def)
qed

lemma with_audit_ready:
  assumes "\<And>k m. length (gw_hmac gw k m) = 32"
    and "log_ready (gw_hmac gw) (gw_fromiso gw) (gw_audit_log gw) (ce_audit env (gs_appends s) # envs) (gs_audit s)" "event_finite ev"
  shows "\<exists>a s'. with_audit (gateway_services gw env) ev f s = (Inr (f a), s') \<and> gs_exec s' = gs_exec s"
  using gateway_append_ready [OF assms] by (auto simp: with_audit_def)

text \<open>What a served task gets: the outcome of its execution.\<close>

definition served :: "'h gateway \<Rightarrow> call_env \<Rightarrow> task_envelope \<Rightarrow> 'h gateway_state \<Rightarrow> (process_error + task_result) \<times> 'h gateway_state \<Rightarrow> bool" where
  "served gw env t s out \<longleftrightarrow>
     (case execute (gw_lib gw) (gw_executor gw) (ce_exec env) (te_capability t) (te_arguments t)
        (pdec_config (evaluate (gw_policy gw) (te_capability t))) (gs_exec s) of
        (Inr output, x) \<Rightarrow> (\<exists>a s'. out = (Inr \<lparr>tr_task_id = te_task_id t, tr_status = Completed, tr_output = output,
          tr_error = None, tr_audit_id = a\<rparr>, s') \<and> gs_exec s' = x)
      | (Inl e, x) \<Rightarrow> (\<exists>a s'. out = (Inr \<lparr>tr_task_id = te_task_id t, tr_status = Failed, tr_output = [],
          tr_error = Some ''task execution failed'', tr_audit_id = a\<rparr>, s') \<and> gs_exec s' = x))"

lemma executed_event_finite:
  "finite_json (JObj (te_arguments t)) \<Longrightarrow> finite_json (JObj res) \<Longrightarrow> event_finite (executed_event t status res err)"
  by (simp add: event_finite_def executed_event_def task_event_def opt_str_def split: option.splits)

lemma other_events_finite: "event_finite (consumed_event t k)" "event_finite (denied_event t reason)"
  by (simp_all add: event_finite_def consumed_event_def denied_event_def task_event_def opt_str_def split: option.splits)

lemma execute_task_served:
  assumes "\<And>k m. length (gw_hmac gw k m) = 32"
    and "log_ready (gw_hmac gw) (gw_fromiso gw) (gw_audit_log gw) (ce_audit env (gs_appends s) # envs) (gs_audit s)"
    and "finite_exchange gw env (te_capability t) (te_arguments t) s"
  shows "served gw env t s (execute_task (gateway_services gw env) t (pdec_config (evaluate (gw_policy gw) (te_capability t))) s)"
proof -
  obtain r x where r: "execute (gw_lib gw) (gw_executor gw) (ce_exec env) (te_capability t) (te_arguments t)
        (pdec_config (evaluate (gw_policy gw) (te_capability t))) (gs_exec s) = (r, x)" by fastforce
  have ex: "sv_execute (gateway_services gw env) (te_capability t) (te_arguments t)
      (pdec_config (evaluate (gw_policy gw) (te_capability t))) s =
      (map_sum (exec_error_text (gw_library_text gw)) id r, s\<lparr>gs_exec := x\<rparr>)"
    using r by (simp add: gateway_services_def gateway_execute_def)
  have ready: "\<exists>a s'. with_audit (gateway_services gw env) ev f (s\<lparr>gs_exec := x\<rparr>) = (Inr (f a), s') \<and> gs_exec s' = x"
    if "event_finite ev" for ev f
    using with_audit_ready [of gw env "s\<lparr>gs_exec := x\<rparr>" envs, OF assms(1) _ that] assms(2) by simp
  have args: "finite_json (JObj (te_arguments t))" using assms(3) by (simp add: finite_exchange_def)
  show ?thesis
  proof (cases r)
    case (Inl e)
    then show ?thesis using ready [OF executed_event_finite [OF args]] r by (fastforce simp: served_def execute_task_def ex)
  next
    case (Inr res)
    then have "finite_json (JObj res)" using assms(3) r by (simp add: finite_exchange_def)
    then show ?thesis using ready [OF executed_event_finite [OF args]] Inr r by (fastforce simp: served_def execute_task_def ex)
  qed
qed

lemma allowed_task_served:
  assumes "\<And>k m. length (gw_hmac gw k m) = 32" "fair_call gw env s" "valid_task gw env t s"
    and "finite_exchange gw env (te_capability t) (te_arguments t) s"
    and "pdec_decision (evaluate (gw_policy gw) (te_capability t)) = Allow" "te_approval_id t = None"
  shows "served gw env t s (process (gateway_services gw env) t s)"
proof -
  let ?sv = "gateway_services gw env"
  obtain db where v: "sv_verify ?sv t s = (Inr (), s\<lparr>gs_replay := db\<rparr>)" using gateway_verify_succeeds [OF assms(3)] by blast
  have "process ?sv t s = execute_task ?sv t (pdec_config (evaluate (gw_policy gw) (te_capability t))) (s\<lparr>gs_replay := db\<rparr>)"
    using assms(5,6) by (simp add: process_def verify_def v)
  moreover have "served gw env t (s\<lparr>gs_replay := db\<rparr>) (execute_task ?sv t
      (pdec_config (evaluate (gw_policy gw) (te_capability t))) (s\<lparr>gs_replay := db\<rparr>))"
    by (rule execute_task_served [OF assms(1)]) (use assms(2,4) in \<open>simp_all add: fair_call_def finite_exchange_def\<close>)
  ultimately show ?thesis by (simp add: served_def)
qed

lemma approved_task_served:
  assumes "\<And>k m. length (gw_hmac gw k m) = 32" "fair_call gw env s" "valid_task gw env t s"
    and "finite_exchange gw env (te_capability t) (te_arguments t) s"
    and "pdec_decision (evaluate (gw_policy gw) (te_capability t)) = Require_approval" "te_approval_id t = Some k"
    and "consume (gw_hmac gw) (gw_approval_store gw) (ce_store_fault env) (ce_store_now env) k t (gs_approvals s) = (Inr rec, adb)"
  shows "served gw env t s (process (gateway_services gw env) t s)"
proof -
  let ?sv = "gateway_services gw env"
  obtain db where v: "sv_verify ?sv t s = (Inr (), s\<lparr>gs_replay := db\<rparr>)" using gateway_verify_succeeds [OF assms(3)] by blast
  let ?s1 = "s\<lparr>gs_replay := db, gs_approvals := adb\<rparr>"
  have c: "sv_consume ?sv k t (s\<lparr>gs_replay := db\<rparr>) = (Inr rec, ?s1)"
    using assms(7) by (simp add: gateway_services_def gateway_consume_def)
  obtain fs where a: "sv_append ?sv (consumed_event t (ar_approval_id rec)) ?s1 = (Inr (en_uuid (ce_audit env (gs_appends s))),
      ?s1\<lparr>gs_audit := fs, gs_appends := Suc (gs_appends s)\<rparr>)"
    and ready: "log_ready (gw_hmac gw) (gw_fromiso gw) (gw_audit_log gw) [ce_audit env (Suc (gs_appends s))] fs"
    using gateway_append_ready [of gw env ?s1 "[ce_audit env (Suc (gs_appends s))]", OF assms(1) _ other_events_finite(1)]
      assms(2) by (auto simp: fair_call_def)
  let ?s2 = "?s1\<lparr>gs_audit := fs, gs_appends := Suc (gs_appends s)\<rparr>"
  have "process ?sv t s = execute_task ?sv t (pdec_config (evaluate (gw_policy gw) (te_capability t))) ?s2"
    using assms(5,6) by (simp add: process_def verify_def v handle_approval_def c a)
  moreover have "served gw env t ?s2 (execute_task ?sv t (pdec_config (evaluate (gw_policy gw) (te_capability t))) ?s2)"
    by (rule execute_task_served [OF assms(1)]) (use ready assms(4) in \<open>simp_all add: finite_exchange_def\<close>)
  ultimately show ?thesis by (simp add: served_def)
qed

lemma denied_task_answered:
  assumes "\<And>k m. length (gw_hmac gw k m) = 32" "fair_call gw env s" "valid_task gw env t s"
    and "pdec_decision (evaluate (gw_policy gw) (te_capability t)) = Deny"
  shows "\<exists>a s'. process (gateway_services gw env) t s = (Inr \<lparr>tr_task_id = te_task_id t, tr_status = Denied, tr_output = [],
    tr_error = Some (pdec_reason (evaluate (gw_policy gw) (te_capability t))), tr_audit_id = a\<rparr>, s') \<and> gs_exec s' = gs_exec s"
proof -
  obtain db where v: "sv_verify (gateway_services gw env) t s = (Inr (), s\<lparr>gs_replay := db\<rparr>)"
    using gateway_verify_succeeds [OF assms(3)] by blast
  let ?d = "evaluate (gw_policy gw) (te_capability t)"
  let ?r = "\<lambda>a. \<lparr>tr_task_id = te_task_id t, tr_status = Denied, tr_output = [], tr_error = Some (pdec_reason ?d), tr_audit_id = a\<rparr>"
  obtain a s' where "with_audit (gateway_services gw env) (denied_event t (pdec_reason ?d)) ?r (s\<lparr>gs_replay := db\<rparr>) = (Inr (?r a), s')"
    "gs_exec s' = gs_exec s"
    using with_audit_ready [of gw env "s\<lparr>gs_replay := db\<rparr>" "[ce_audit env (Suc (gs_appends s))]" "denied_event t (pdec_reason ?d)" ?r,
        OF assms(1) _ other_events_finite(2)] assms(2) by (auto simp: fair_call_def)
  then show ?thesis using assms(4) by (auto simp: process_def verify_def v denied_def)
qed

text \<open>Arguments with \<open>NaN\<close> or an infinity: the capability is executed, then the audit log refuses the event, so that
  the execution leaves no record and no answer.\<close>

lemma nonfinite_arguments_unrecorded:
  assumes "\<not> finite_json (JObj (te_arguments t))" "execute_task (gateway_services gw env) t config s = (r, s')"
  shows "(\<exists>e. r = Inl (Uncaught_audit e)) \<and> af_log (gs_audit s') = af_log (gs_audit s) \<and>
    gs_exec s' = snd (execute (gw_lib gw) (gw_executor gw) (ce_exec env) (te_capability t) (te_arguments t) config (gs_exec s))"
proof -
  have nf: "\<not> event_finite (executed_event t status res err)" for status res err
    using assms(1) by (simp add: event_finite_def executed_event_def task_event_def)
  obtain q x where q: "execute (gw_lib gw) (gw_executor gw) (ce_exec env) (te_capability t) (te_arguments t) config (gs_exec s) = (q, x)"
    by fastforce
  have app: "(\<exists>e. r' = Inl e) \<and> af_log (gs_audit s2) = af_log (gs_audit s1) \<and> gs_exec s2 = gs_exec s1"
    if "sv_append (gateway_services gw env) (executed_event t status res err) s1 = (r', s2)" for status res err r' s1 s2
    using that nonfinite_event_refused [OF nf, of "gw_hmac gw" "gw_fromiso gw" "gw_audit_log gw" _ status res err]
    by (auto simp: gateway_services_def gateway_append_def split: prod.splits) (metis fst_conv snd_conv)+
  show ?thesis using assms(2) q
    by (cases q) (auto simp: execute_task_def with_audit_def gateway_services_def gateway_execute_def
        split: prod.splits sum.splits dest!: app [unfolded gateway_services_def, simplified])
qed

end
