(* ===== verification/Provider_Models.thy ===== *)
theory Provider_Models
  imports C0_Probe
begin

text \<open>
  providers/models.py: the values of the provider protocol with the constraints their pydantic models
  enforce, and the digest that commits a turn to its text. Timestamps are aware and normalised to UTC by
  the models, so they are the integer microseconds of the instant.
\<close>

section \<open>Patterns\<close>

definition id_char :: "char \<Rightarrow> bool" where
  "id_char c \<longleftrightarrow> is_lower c \<or> is_digit c \<or> c = CHR ''_''"

definition id_pattern :: "string \<Rightarrow> bool" where
  "id_pattern s = (case s of [] \<Rightarrow> False | c # cs \<Rightarrow> is_lower c \<and> list_all id_char cs \<and> len_between 2 127 cs)"

definition provider_pattern :: "string \<Rightarrow> bool" where
  "provider_pattern s = (case s of [] \<Rightarrow> False
     | c # cs \<Rightarrow> is_lower c \<and> list_all (\<lambda>d. id_char d \<or> d \<in> set ''.-'') cs \<and> len_between 1 63 cs)"

definition error_code_pattern :: "string \<Rightarrow> bool" where
  "error_code_pattern s = (case s of [] \<Rightarrow> False
     | c # cs \<Rightarrow> is_upper c \<and> list_all (\<lambda>d. is_upper d \<or> is_digit d \<or> d = CHR ''_'') cs \<and> len_between 2 63 cs)"

definition optional :: "('a \<Rightarrow> bool) \<Rightarrow> 'a option \<Rightarrow> bool" where
  "optional p v = (case v of None \<Rightarrow> True | Some x \<Rightarrow> p x)"

section \<open>Capabilities\<close>

datatype capability_support = Supported | Unsupported | Unknown
datatype capability_evidence = Documented | Observed | Simulated | No_evidence

record capability_claim =
  cl_state :: capability_support
  cl_evidence :: capability_evidence

definition validate_evidence :: "capability_claim \<Rightarrow> string + capability_claim" where
  "validate_evidence c =
     (if cl_state c = Unknown \<and> cl_evidence c \<noteq> No_evidence then Inl ''unknown capabilities must use evidence=none''
      else if cl_state c \<noteq> Unknown \<and> cl_evidence c = No_evidence then Inl ''known capabilities require evidence''
      else Inr c)"

record provider_capabilities =
  pc_provider :: string
  pc_surface :: string
  can_initiate_turn :: capability_claim
  can_create_conversation :: capability_claim
  can_continue_conversation :: capability_claim
  can_enumerate_visible_chats :: capability_claim
  exposes_provider_conversation_id :: capability_claim
  exposes_terminal_response_event :: capability_claim
  supports_streaming :: capability_claim
  supports_tool_calls :: capability_claim
  supports_cancellation :: capability_claim
  supports_resume :: capability_claim

definition provider_capabilities_valid :: "provider_capabilities \<Rightarrow> bool" where
  "provider_capabilities_valid p \<longleftrightarrow> provider_pattern (pc_provider p) \<and> provider_pattern (pc_surface p) \<and>
     list_all (\<lambda>f. is_ok (validate_evidence (f p))) [can_initiate_turn, can_create_conversation, can_continue_conversation,
       can_enumerate_visible_chats, exposes_provider_conversation_id, exposes_terminal_response_event, supports_streaming,
       supports_tool_calls, supports_cancellation, supports_resume]"

section \<open>Turns, conversations, runs\<close>

record agent_principal =
  ap_agent_id :: string
  ap_instance_id :: string
  ap_key_id :: string
  ap_verification_id :: string

definition agent_principal_valid :: "agent_principal \<Rightarrow> bool" where
  "agent_principal_valid a \<longleftrightarrow> id_pattern (ap_agent_id a) \<and> id_pattern (ap_instance_id a) \<and> id_pattern (ap_key_id a) \<and>
     id_pattern (ap_verification_id a)"

record committed_turn =
  ct_conversation_id :: string
  ct_turn_id :: string
  ct_trace_id :: string
  ct_idempotency_key :: string
  ct_principal :: agent_principal
  ct_committed_at :: int
  ct_content_sha256 :: string
  ct_utf8_bytes :: int
  ct_part_count :: int

definition max_turn_bytes :: int where
  "max_turn_bytes = 16 * 1024 * 1024"

definition committed_turn_valid :: "committed_turn \<Rightarrow> bool" where
  "committed_turn_valid t \<longleftrightarrow> id_pattern (ct_conversation_id t) \<and> id_pattern (ct_turn_id t) \<and> id_pattern (ct_trace_id t) \<and>
     id_pattern (ct_idempotency_key t) \<and> agent_principal_valid (ct_principal t) \<and> sha256_pattern (ct_content_sha256 t) \<and>
     1 \<le> ct_utf8_bytes t \<and> ct_utf8_bytes t \<le> max_turn_bytes \<and> 1 \<le> ct_part_count t \<and> ct_part_count t \<le> 128"

datatype conversation_state = Active | Closed

record conversation_handle =
  ch_conversation_id :: string
  ch_provider :: string
  ch_surface :: string
  ch_created_by_agent :: string
  ch_created_at :: int
  ch_updated_at :: int
  ch_state :: conversation_state
  ch_provider_conversation_id :: "string option"

definition conversation_handle_valid :: "conversation_handle \<Rightarrow> bool" where
  "conversation_handle_valid c \<longleftrightarrow> id_pattern (ch_conversation_id c) \<and> provider_pattern (ch_provider c) \<and>
     provider_pattern (ch_surface c) \<and> id_pattern (ch_created_by_agent c) \<and> \<not> ch_updated_at c < ch_created_at c \<and>
     optional (len_between 1 256) (ch_provider_conversation_id c)"

record provider_run =
  pr_run_id :: string
  pr_conversation_id :: string
  pr_turn_id :: string
  pr_trace_id :: string
  pr_idempotency_key :: string
  pr_provider :: string
  pr_surface :: string
  pr_started_at :: int
  pr_provider_run_id :: "string option"

definition provider_run_valid :: "provider_run \<Rightarrow> bool" where
  "provider_run_valid r \<longleftrightarrow> list_all id_pattern [pr_run_id r, pr_conversation_id r, pr_turn_id r, pr_trace_id r, pr_idempotency_key r] \<and>
     provider_pattern (pr_provider r) \<and> provider_pattern (pr_surface r) \<and> optional (len_between 1 256) (pr_provider_run_id r)"

section \<open>Committing a turn\<close>

fun be_bytes :: "nat \<Rightarrow> nat \<Rightarrow> bytes" where
  "be_bytes 0 n = []"
| "be_bytes (Suc k) n = be_bytes k (n div 256) @ [char_of (n mod 256)]"

text \<open>What the digest is taken of: the domain and each part behind its eight-byte length.\<close>

definition turn_part :: "string \<Rightarrow> bytes" where
  "turn_part part = be_bytes 8 (length (utf8 part)) @ utf8 part"

definition turn_message :: "string list \<Rightarrow> bytes" where
  "turn_message parts = ''systeme-local:committed-turn:v1'' @ [CHR 0x00] @ concat (map turn_part parts)"

fun count_bytes :: "string list \<Rightarrow> int \<Rightarrow> string + int" where
  "count_bytes [] n = Inr n"
| "count_bytes (p # ps) n =
     (let n' = n + int (length (utf8 p)) in
      if max_turn_bytes < n' then Inl ''committed turn exceeds the metadata byte limit'' else count_bytes ps n')"

text \<open>\<open>None\<close> from the last check is the validation error of the \<open>CommittedTurn\<close> model.\<close>

definition commit_text_turn ::
  "(bytes \<Rightarrow> bytes) \<Rightarrow> string \<Rightarrow> string \<Rightarrow> string \<Rightarrow> string \<Rightarrow> agent_principal \<Rightarrow> datetime \<Rightarrow> string list \<Rightarrow> string + committed_turn" where
  "commit_text_turn sha256 conversation_id turn_id trace_id idempotency_key author committed_at parts =
     (if parts = [] then Inl ''at least one content part is required''
      else if 128 < length parts then Inl ''at most 128 content parts are allowed''
      else case count_bytes parts 0 of Inl e \<Rightarrow> Inl e
      | Inr n \<Rightarrow>
          if n = 0 then Inl ''committed turn must contain at least one UTF-8 byte''
          else if \<not> dt_aware committed_at then Inl ''timestamps must include a timezone''
          else let t = \<lparr>ct_conversation_id = conversation_id, ct_turn_id = turn_id, ct_trace_id = trace_id,
              ct_idempotency_key = idempotency_key, ct_principal = author, ct_committed_at = dt_instant committed_at,
              ct_content_sha256 = hexlify (sha256 (turn_message parts)), ct_utf8_bytes = n, ct_part_count = int (length parts)\<rparr>
            in if committed_turn_valid t then Inr t else Inl ''invalid committed turn'')"

lemma length_be_bytes [simp]: "length (be_bytes k n) = k"
  by (induction k arbitrary: n) simp_all

lemma be_bytes_inj: "m < 256 ^ k \<Longrightarrow> n < 256 ^ k \<Longrightarrow> be_bytes k m = be_bytes k n \<Longrightarrow> m = n"
proof (induction k arbitrary: m n)
  case (Suc k)
  have d: "m div 256 < 256 ^ k" "n div 256 < 256 ^ k" using Suc.prems(1,2) by (auto simp: less_mult_imp_div_less)
  have e: "be_bytes k (m div 256) = be_bytes k (n div 256)" "char_of (m mod 256) = (char_of (n mod 256) :: char)"
    using Suc.prems(3) by simp_all
  from e(2) have "m mod 256 = n mod 256" by (metis mod_mod_trivial of_char_of)
  then show ?case using Suc.IH [OF d e(1)] by (metis div_mult_mod_eq)
qed simp

lemma turn_parts_inj:
  "concat (map turn_part ps) = concat (map turn_part qs) \<Longrightarrow> \<forall>p \<in> set ps \<union> set qs. length (utf8 p) < 256 ^ 8 \<Longrightarrow> ps = qs"
proof (induction ps arbitrary: qs)
  case Nil
  then show ?case by (cases qs) (auto simp: turn_part_def dest: arg_cong [where f = length])
next
  case (Cons p ps)
  then obtain q qs' where qs: "qs = q # qs'"
    by (cases qs) (auto simp: turn_part_def dest: arg_cong [where f = length])
  have eq: "be_bytes 8 (length (utf8 p)) @ utf8 p @ concat (map turn_part ps) =
      be_bytes 8 (length (utf8 q)) @ utf8 q @ concat (map turn_part qs')"
    using Cons.prems(1) by (simp add: qs turn_part_def [of p] turn_part_def [of q])
  then have "be_bytes 8 (length (utf8 p)) = be_bytes 8 (length (utf8 q))" by (simp add: append_eq_append_conv)
  moreover have "length (utf8 p) < 256 ^ 8" "length (utf8 q) < 256 ^ 8" using Cons.prems(2) by (auto simp: qs)
  ultimately have len: "length (utf8 p) = length (utf8 q)" by (intro be_bytes_inj)
  with eq have "utf8 p = utf8 q" "concat (map turn_part ps) = concat (map turn_part qs')"
    by (simp_all add: append_eq_append_conv)
  then show ?case using Cons.IH [of qs'] Cons.prems(2) by (simp add: qs)
qed

lemma count_bytes_bound: "count_bytes ps n = Inr m \<Longrightarrow> 0 \<le> n \<Longrightarrow> n \<le> m \<and> (ps = [] \<or> m \<le> max_turn_bytes) \<and>
    (\<forall>p \<in> set ps. int (length (utf8 p)) \<le> max_turn_bytes) \<and> m = n + int (length (concat (map utf8 ps)))"
proof (induction ps n rule: count_bytes.induct)
  case (2 p ps n)
  let ?n = "n + int (length (utf8 p))"
  have le: "\<not> max_turn_bytes < ?n" and r: "count_bytes ps ?n = Inr m" using 2(2) by (auto simp: Let_def split: if_splits)
  from 2(1) [OF refl le r] 2(3) have ih: "?n \<le> m" "ps = [] \<or> m \<le> max_turn_bytes"
    "\<forall>p \<in> set ps. int (length (utf8 p)) \<le> max_turn_bytes" "m = ?n + int (length (concat (map utf8 ps)))" by auto
  have "m \<le> max_turn_bytes"
  proof (cases "ps = []")
    case True
    then show ?thesis using r le by simp
  qed (use ih(2) in simp)
  then show ?case using ih le 2(3) by auto
qed auto

lemma commit_text_turn_ok:
  assumes "commit_text_turn sha256 c t tr ik pr at parts = Inr turn"
  shows "committed_turn_valid turn \<and> ct_content_sha256 turn = hexlify (sha256 (turn_message parts)) \<and>
    ct_utf8_bytes turn = int (length (concat (map utf8 parts))) \<and> ct_part_count turn = int (length parts) \<and>
    (\<forall>p \<in> set parts. length (utf8 p) < 256 ^ 8)"
proof -
  from assms obtain n where n: "count_bytes parts 0 = Inr n"
    by (auto simp: commit_text_turn_def split: if_splits sum.splits)
  have small: "length (utf8 p) < 256 ^ 8" if "p \<in> set parts" for p
  proof -
    have "int (length (utf8 p)) \<le> 16 * 1024 * 1024" using count_bytes_bound [OF n] that by (simp add: max_turn_bytes_def)
    then show ?thesis by simp
  qed
  show ?thesis using assms n count_bytes_bound [OF n] small
    by (auto simp: commit_text_turn_def Let_def split: if_splits)
qed

text \<open>A committed turn binds its text: two turns committed with the same content digest were committed with the same
  list of parts, in the same order and with the same boundaries, unless SHA-256 maps the two encodings to
  one digest; and the recorded byte and part counts are those of the text.\<close>

theorem committed_turn_binds_text:
  assumes "commit_text_turn sha256 c t tr ik pr at parts = Inr turn" "commit_text_turn sha256 c' t' tr' ik' pr' at' parts' = Inr turn'"
    and "ct_content_sha256 turn = ct_content_sha256 turn'"
  shows "ct_utf8_bytes turn = int (length (concat (map utf8 parts))) \<and> ct_part_count turn = int (length parts) \<and>
    (parts = parts' \<or> turn_message parts \<noteq> turn_message parts' \<and> sha256 (turn_message parts) = sha256 (turn_message parts'))"
proof -
  note a = commit_text_turn_ok [OF assms(1)] and b = commit_text_turn_ok [OF assms(2)]
  have "parts = parts'" if "turn_message parts = turn_message parts'"
    using that a b by (intro turn_parts_inj) (auto simp: turn_message_def)
  then show ?thesis using a b assms(3) by (metis hexlify_inj)
qed

definition ex_principal :: agent_principal where
  "ex_principal = \<lparr>ap_agent_id = ''agent_1'', ap_instance_id = ''inst_1'', ap_key_id = ''key_1'', ap_verification_id = ''ver_1''\<rparr>"

definition ex_sha :: "bytes \<Rightarrow> bytes" where
  "ex_sha b = take 32 (rev b @ replicate 32 (CHR ''x''))"

definition ex_turn :: committed_turn where
  "ex_turn = \<lparr>ct_conversation_id = ''conv_1'', ct_turn_id = ''turn_1'', ct_trace_id = ''trace_1'',
     ct_idempotency_key = ''idem_1'', ct_principal = ex_principal, ct_committed_at = 20,
     ct_content_sha256 = hexlify (ex_sha (turn_message [''hi'', ''you''])), ct_utf8_bytes = 5, ct_part_count = 2\<rparr>"

lemma ex_commit:
  "commit_text_turn ex_sha ''conv_1'' ''turn_1'' ''trace_1'' ''idem_1'' ex_principal
     \<lparr>dt_instant = 20, dt_aware = True, dt_text = ''t''\<rparr> [''hi'', ''you''] = Inr ex_turn"
  by code_simp

theorem committed_turn_binds_text_witness:
  "ct_utf8_bytes ex_turn = int (length (concat (map utf8 [''hi'', ''you''])))"
  using committed_turn_binds_text [OF ex_commit ex_commit refl] by blast

section \<open>Lifecycle events\<close>

datatype response_status = Response_completed | Response_failed | Response_cancelled | Response_incomplete
datatype tool_outcome = Tool_completed | Tool_failed | Tool_denied
datatype approval_decision = Decision_approved | Decision_denied | Decision_expired

datatype event_kind =
    Response_started string
  | Output_digest string int
  | Tool_call_requested string string string string
  | Tool_call_resolved string tool_outcome "string option"
  | Approval_requested string string
  | Approval_resolved string approval_decision
  | Response_terminal response_status "string option"
  | Output_validated string "string option"
  | Audit_persisted string string

record lifecycle_event =
  le_event_id :: string
  le_run_id :: string
  le_sequence :: int
  le_observed_at :: int
  le_provider_event_id :: "string option"
  le_kind :: event_kind

definition kind_valid :: "event_kind \<Rightarrow> bool" where
  "kind_valid k =
     (case k of
        Response_started r \<Rightarrow> len_between 1 256 r
      | Output_digest d n \<Rightarrow> sha256_pattern d \<and> 1 \<le> n \<and> n \<le> max_turn_bytes
      | Tool_call_requested i p name a \<Rightarrow> id_pattern i \<and> len_between 1 256 p \<and> capability_pattern name \<and> sha256_pattern a
      | Tool_call_resolved i out r \<Rightarrow> id_pattern i \<and> optional sha256_pattern r \<and> (out = Tool_completed \<longrightarrow> r \<noteq> None)
      | Approval_requested a i \<Rightarrow> id_pattern a \<and> id_pattern i
      | Approval_resolved a d \<Rightarrow> id_pattern a
      | Response_terminal st c \<Rightarrow> optional error_code_pattern c \<and> (st = Response_completed \<longleftrightarrow> c = None)
      | Output_validated h s \<Rightarrow> sha256_pattern h \<and> optional id_pattern s
      | Audit_persisted a r \<Rightarrow> id_pattern a \<and> sha256_pattern r)"

definition lifecycle_event_valid :: "lifecycle_event \<Rightarrow> bool" where
  "lifecycle_event_valid e \<longleftrightarrow> id_pattern (le_event_id e) \<and> id_pattern (le_run_id e) \<and> 1 \<le> le_sequence e \<and>
     optional (len_between 1 256) (le_provider_event_id e) \<and> kind_valid (le_kind e)"

end
