(* ===== verification/Lifecycle.thy ===== *)
theory Lifecycle
  imports Provider_Models
begin

text \<open>
  providers/state_machine.py: the state of a provider run and the transition function for its events. The
  fingerprint of an event is a parameter (SHA-256 of the JSON that pydantic prints). \<open>reachable\<close> are the
  states the function can build from the initial one; the invariant is proved by rule induction over it.
\<close>

section \<open>States\<close>

datatype lifecycle_error = Event_conflict string | Sequence_gap string | Invalid_transition string

record applied_receipt =
  re_sequence :: int
  re_event_id :: string
  re_fingerprint :: string

record tool_call_state =
  tc_tool_call_id :: string
  tc_provider_tool_call_id :: string
  tc_tool_name :: string
  tc_arguments_sha256 :: string
  tc_outcome :: "tool_outcome option"
  tc_result_sha256 :: "string option"

record run_state =
  rs_run :: provider_run
  rs_last_sequence :: int
  rs_last_observed_at :: "int option"
  rs_response_started :: bool
  rs_response_status :: "response_status option"
  rs_output_digests :: "string list"
  rs_pending_tools :: "(string, tool_call_state) dict"
  rs_resolved_tools :: "(string, tool_call_state) dict"
  rs_pending_approvals :: "(string, string) dict"
  rs_resolved_approvals :: "(string, approval_decision) dict"
  rs_output_validated :: bool
  rs_output_sha256 :: "string option"
  rs_audit_id :: "string option"
  rs_audit_receipt :: "string option"
  rs_provider_event_ids :: "(string, string) dict"
  rs_applied :: "applied_receipt list"

definition initial_run_state :: "provider_run \<Rightarrow> run_state" where
  "initial_run_state run = \<lparr>rs_run = run, rs_last_sequence = 0, rs_last_observed_at = None, rs_response_started = False,
     rs_response_status = None, rs_output_digests = [], rs_pending_tools = [], rs_resolved_tools = [],
     rs_pending_approvals = [], rs_resolved_approvals = [], rs_output_validated = False, rs_output_sha256 = None,
     rs_audit_id = None, rs_audit_receipt = None, rs_provider_event_ids = [], rs_applied = []\<rparr>"

definition idle :: "run_state \<Rightarrow> bool" where
  "idle st \<longleftrightarrow> rs_pending_tools st = [] \<and> rs_pending_approvals st = []"

definition delegation_completed :: "run_state \<Rightarrow> bool" where
  "delegation_completed st \<longleftrightarrow> rs_response_status st = Some Response_completed \<and> rs_pending_tools st = [] \<and>
     rs_pending_approvals st = [] \<and> rs_output_validated st \<and> rs_audit_id st \<noteq> None"

definition delegation_terminal :: "run_state \<Rightarrow> bool" where
  "delegation_terminal st \<longleftrightarrow> rs_response_status st \<noteq> None \<and> rs_pending_tools st = [] \<and>
     rs_pending_approvals st = [] \<and> rs_audit_id st \<noteq> None"

section \<open>Transitions\<close>

definition require_active_response :: "run_state \<Rightarrow> lifecycle_error + unit" where
  "require_active_response st =
     (if \<not> rs_response_started st then Inl (Invalid_transition ''provider response has not started'')
      else if rs_response_status st \<noteq> None then Inl (Invalid_transition ''provider response is already terminal'')
      else Inr ())"

definition active :: "run_state \<Rightarrow> (lifecycle_error + run_state) \<Rightarrow> lifecycle_error + run_state" where
  "active st r = (case require_active_response st of Inl e \<Rightarrow> Inl e | Inr _ \<Rightarrow> r)"

text \<open>The branch of each kind of event.\<close>

definition apply_kind :: "run_state \<Rightarrow> event_kind \<Rightarrow> lifecycle_error + run_state" where
  "apply_kind st k =
     (case k of
        Response_started _ \<Rightarrow>
          if rs_response_started st \<or> rs_response_status st \<noteq> None
            then Inl (Invalid_transition ''response has already started'')
          else Inr (st\<lparr>rs_response_started := True\<rparr>)
      | Output_digest d _ \<Rightarrow> active st (Inr (st\<lparr>rs_output_digests := rs_output_digests st @ [d]\<rparr>))
      | Tool_call_requested i p name a \<Rightarrow> active st (
          if i \<in> set (keys (rs_pending_tools st)) \<or> i \<in> set (keys (rs_resolved_tools st))
            then Inl (Event_conflict ''tool_call_id has already been used'')
          else if list_ex (\<lambda>t. tc_provider_tool_call_id (snd t) = p) (rs_pending_tools st @ rs_resolved_tools st)
            then Inl (Event_conflict ''provider_tool_call_id has already been used'')
          else Inr (st\<lparr>rs_pending_tools := AList.update i \<lparr>tc_tool_call_id = i, tc_provider_tool_call_id = p, tc_tool_name = name,
            tc_arguments_sha256 = a, tc_outcome = None, tc_result_sha256 = None\<rparr> (rs_pending_tools st)\<rparr>))
      | Approval_requested a i \<Rightarrow> active st (
          if i \<notin> set (keys (rs_pending_tools st)) then Inl (Invalid_transition ''approval requires a pending tool call'')
          else if a \<in> set (keys (rs_pending_approvals st)) \<or> a \<in> set (keys (rs_resolved_approvals st))
            then Inl (Event_conflict ''approval_id has already been used'')
          else Inr (st\<lparr>rs_pending_approvals := AList.update a i (rs_pending_approvals st)\<rparr>))
      | Approval_resolved a d \<Rightarrow> active st (
          if map_of (rs_pending_approvals st) a = None then Inl (Invalid_transition ''approval is not pending'')
          else Inr (st\<lparr>rs_pending_approvals := AList.delete a (rs_pending_approvals st),
            rs_resolved_approvals := AList.update a d (rs_resolved_approvals st)\<rparr>))
      | Tool_call_resolved i out res \<Rightarrow> active st (
          if i \<in> snd ` set (rs_pending_approvals st)
            then Inl (Invalid_transition ''tool call still has a pending approval'')
          else case map_of (rs_pending_tools st) i of
            None \<Rightarrow> Inl (Invalid_transition ''tool call is not pending'')
          | Some t \<Rightarrow> Inr (st\<lparr>rs_pending_tools := AList.delete i (rs_pending_tools st),
              rs_resolved_tools := AList.update i (t\<lparr>tc_outcome := Some out, tc_result_sha256 := res\<rparr>) (rs_resolved_tools st)\<rparr>))
      | Response_terminal status _ \<Rightarrow> active st (
          if \<not> idle st then Inl (Invalid_transition ''response cannot terminate with pending local work'')
          else Inr (st\<lparr>rs_response_status := Some status\<rparr>))
      | Output_validated h _ \<Rightarrow>
          if rs_response_status st \<noteq> Some Response_completed
            then Inl (Invalid_transition ''output validation requires a completed response'')
          else if \<not> idle st then Inl (Invalid_transition ''output validation requires no pending local work'')
          else if rs_output_validated st then Inl (Invalid_transition ''output is already validated'')
          else Inr (st\<lparr>rs_output_validated := True, rs_output_sha256 := Some h\<rparr>)
      | Audit_persisted a h \<Rightarrow>
          if rs_response_status st = None then Inl (Invalid_transition ''audit persistence requires a terminal response'')
          else if \<not> idle st then Inl (Invalid_transition ''audit persistence requires no pending local work'')
          else if rs_response_status st = Some Response_completed \<and> \<not> rs_output_validated st
            then Inl (Invalid_transition ''completed responses require output validation'')
          else Inr (st\<lparr>rs_audit_id := Some a, rs_audit_receipt := Some h\<rparr>))"

text \<open>What is recorded of an accepted event.\<close>

definition record_event :: "(lifecycle_event \<Rightarrow> string) \<Rightarrow> lifecycle_event \<Rightarrow> run_state \<Rightarrow> run_state" where
  "record_event fp e st = st\<lparr>
     rs_provider_event_ids := (case le_provider_event_id e of None \<Rightarrow> rs_provider_event_ids st
       | Some p \<Rightarrow> AList.update p (le_event_id e) (rs_provider_event_ids st)),
     rs_last_sequence := le_sequence e, rs_last_observed_at := Some (le_observed_at e),
     rs_applied := rs_applied st @ [\<lparr>re_sequence = le_sequence e, re_event_id = le_event_id e, re_fingerprint = fp e\<rparr>]\<rparr>"

definition replayed :: "(lifecycle_event \<Rightarrow> string) \<Rightarrow> run_state \<Rightarrow> lifecycle_event \<Rightarrow> bool" where
  "replayed fp st e =
     (case List.find (\<lambda>x. re_sequence x = le_sequence e) (rs_applied st) of
        None \<Rightarrow> False | Some x \<Rightarrow> re_event_id x = le_event_id e \<and> re_fingerprint x = fp e)"

text \<open>The checks every new event passes before its branch.\<close>

definition admit_event :: "run_state \<Rightarrow> lifecycle_event \<Rightarrow> lifecycle_error option" where
  "admit_event st e =
     (if le_sequence e \<noteq> rs_last_sequence st + 1 then Some (Sequence_gap ''event sequence contains a gap'')
      else if le_observed_at e < pr_started_at (rs_run st)
        then Some (Invalid_transition ''event cannot precede the provider run'')
      else if (case rs_last_observed_at st of None \<Rightarrow> False | Some t \<Rightarrow> le_observed_at e < t)
        then Some (Invalid_transition ''event observation time cannot move backwards'')
      else if list_ex (\<lambda>x. re_event_id x = le_event_id e) (rs_applied st)
        then Some (Event_conflict ''event_id has already been used'')
      else if (case le_provider_event_id e of None \<Rightarrow> False | Some p \<Rightarrow> p \<in> set (keys (rs_provider_event_ids st)))
        then Some (Event_conflict ''provider_event_id has already been used'')
      else if rs_audit_id st \<noteq> None
        then Some (Invalid_transition ''no new events are allowed after audit persistence'')
      else None)"

definition apply_lifecycle_event ::
  "(lifecycle_event \<Rightarrow> string) \<Rightarrow> run_state \<Rightarrow> lifecycle_event \<Rightarrow> lifecycle_error + run_state" where
  "apply_lifecycle_event fp st e =
     (if le_run_id e \<noteq> pr_run_id (rs_run st) then Inl (Event_conflict ''event run_id does not match the provider run'')
      else if le_sequence e \<le> rs_last_sequence st then
        (if replayed fp st e then Inr st else Inl (Event_conflict ''conflicting event replay''))
      else case admit_event st e of Some err \<Rightarrow> Inl err
      | None \<Rightarrow> (case apply_kind st (le_kind e) of Inl err \<Rightarrow> Inl err | Inr st' \<Rightarrow> Inr (record_event fp e st')))"

inductive reachable :: "(lifecycle_event \<Rightarrow> string) \<Rightarrow> provider_run \<Rightarrow> run_state \<Rightarrow> bool" for fp run where
  initial: "reachable fp run (initial_run_state run)"
| step: "reachable fp run st \<Longrightarrow> lifecycle_event_valid e \<Longrightarrow> apply_lifecycle_event fp st e = Inr st' \<Longrightarrow> reachable fp run st'"

inductive_cases reachableE: "reachable fp run st"

section \<open>The invariant\<close>

definition run_ok :: "run_state \<Rightarrow> bool" where
  "run_ok st \<longleftrightarrow>
     map re_sequence (rs_applied st) = map int [1..<Suc (length (rs_applied st))] \<and>
     rs_last_sequence st = int (length (rs_applied st)) \<and>
     distinct (map re_event_id (rs_applied st)) \<and>
     distinct (keys (rs_pending_tools st)) \<and> distinct (keys (rs_pending_approvals st)) \<and>
     set (keys (rs_pending_tools st)) \<inter> set (keys (rs_resolved_tools st)) = {} \<and>
     set (keys (rs_pending_approvals st)) \<inter> set (keys (rs_resolved_approvals st)) = {} \<and>
     snd ` set (rs_pending_approvals st) \<subseteq> set (keys (rs_pending_tools st)) \<and>
     (rs_response_status st \<noteq> None \<longrightarrow> rs_response_started st \<and> idle st) \<and>
     (\<not> rs_response_started st \<longrightarrow> idle st) \<and>
     (rs_output_validated st \<longrightarrow> rs_response_status st = Some Response_completed) \<and>
     (rs_audit_id st \<noteq> None \<longrightarrow> rs_response_status st \<noteq> None \<and>
        (rs_response_status st = Some Response_completed \<longrightarrow> rs_output_validated st))"

text \<open>The part of the invariant that the branches change.\<close>

definition work_ok :: "run_state \<Rightarrow> bool" where
  "work_ok st \<longleftrightarrow>
     distinct (keys (rs_pending_tools st)) \<and> distinct (keys (rs_pending_approvals st)) \<and>
     set (keys (rs_pending_tools st)) \<inter> set (keys (rs_resolved_tools st)) = {} \<and>
     set (keys (rs_pending_approvals st)) \<inter> set (keys (rs_resolved_approvals st)) = {} \<and>
     snd ` set (rs_pending_approvals st) \<subseteq> set (keys (rs_pending_tools st)) \<and>
     (rs_response_status st \<noteq> None \<longrightarrow> rs_response_started st \<and> idle st) \<and>
     (\<not> rs_response_started st \<longrightarrow> idle st) \<and>
     (rs_output_validated st \<longrightarrow> rs_response_status st = Some Response_completed) \<and>
     (rs_audit_id st \<noteq> None \<longrightarrow> rs_response_status st \<noteq> None \<and>
        (rs_response_status st = Some Response_completed \<longrightarrow> rs_output_validated st))"

definition log_ok :: "run_state \<Rightarrow> bool" where
  "log_ok st \<longleftrightarrow>
     map re_sequence (rs_applied st) = map int [1..<Suc (length (rs_applied st))] \<and>
     rs_last_sequence st = int (length (rs_applied st)) \<and> distinct (map re_event_id (rs_applied st))"

lemma run_ok_parts: "run_ok st \<longleftrightarrow> log_ok st \<and> work_ok st"
  unfolding run_ok_def work_ok_def log_ok_def by blast

lemma active_ok: "active st r = Inr st' \<longleftrightarrow> rs_response_started st \<and> rs_response_status st = None \<and> r = Inr st'"
  by (auto simp: active_def require_active_response_def split: if_splits)

text \<open>A branch leaves the log alone, keeps the work invariant, and never resets progress.\<close>

lemma apply_kind_log:
  "apply_kind st k = Inr st' \<Longrightarrow> rs_applied st' = rs_applied st \<and> rs_last_sequence st' = rs_last_sequence st \<and>
     rs_run st' = rs_run st \<and> rs_provider_event_ids st' = rs_provider_event_ids st"
  by (cases k) (auto simp: apply_kind_def active_ok split: if_splits option.splits)

lemma snd_update_subset: "snd ` set d \<subseteq> S \<Longrightarrow> v \<in> S \<Longrightarrow> snd ` set (AList.update k v d) \<subseteq> S"
  by (induction d) auto

lemma snd_delete_subset: "snd ` set d \<subseteq> S \<Longrightarrow> snd ` set (AList.delete k d) \<subseteq> S"
  by (auto simp: AList.delete_eq)

lemma move_disjoint: "A \<inter> B = {} \<Longrightarrow> (A - {a}) \<inter> B = {}"
  by blast

lemma apply_kind_work:
  assumes "apply_kind st k = Inr st'" "work_ok st" "rs_audit_id st = None"
  shows "work_ok st'"
proof (cases k)
  case (Tool_call_requested i p name a)
  with assms(1) obtain t where st': "st' = st\<lparr>rs_pending_tools := AList.update i t (rs_pending_tools st)\<rparr>"
    and i: "i \<notin> set (keys (rs_resolved_tools st))" "rs_response_started st" "rs_response_status st = None"
    by (auto simp: apply_kind_def active_ok simp del: set_map split: if_splits)
  then show ?thesis using assms(2,3)
    unfolding work_ok_def by (simp add: set_keys_update distinct_keys_update subset_insertI2 del: set_map)
next
  case (Approval_requested a i)
  with assms(1) have st': "st' = st\<lparr>rs_pending_approvals := AList.update a i (rs_pending_approvals st)\<rparr>"
    and i: "i \<in> set (keys (rs_pending_tools st))" "a \<notin> set (keys (rs_resolved_approvals st))" "rs_response_started st"
      "rs_response_status st = None"
    by (auto simp: apply_kind_def active_ok simp del: set_map split: if_splits)
  then show ?thesis using assms(2,3)
    unfolding work_ok_def by (simp add: set_keys_update distinct_keys_update snd_update_subset del: set_map)
next
  case (Approval_resolved a d)
  with assms(1) have st': "st' = st\<lparr>rs_pending_approvals := AList.delete a (rs_pending_approvals st),
      rs_resolved_approvals := AList.update a d (rs_resolved_approvals st)\<rparr>"
    and i: "rs_response_started st" "rs_response_status st = None"
    by (auto simp: apply_kind_def active_ok simp del: set_map split: if_splits)
  then show ?thesis using assms(2,3)
    unfolding work_ok_def
    by (simp add: set_keys_update set_keys_delete distinct_keys_delete snd_delete_subset move_disjoint del: set_map)
next
  case (Tool_call_resolved i out res)
  with assms(1) obtain t where st': "st' = st\<lparr>rs_pending_tools := AList.delete i (rs_pending_tools st),
      rs_resolved_tools := AList.update i t (rs_resolved_tools st)\<rparr>"
    and i: "i \<notin> snd ` set (rs_pending_approvals st)" "rs_response_started st" "rs_response_status st = None"
    by (auto simp: apply_kind_def active_ok simp del: set_map split: if_splits option.splits)
  then show ?thesis using assms(2,3)
    unfolding work_ok_def
    by (simp add: set_keys_update set_keys_delete distinct_keys_delete subset_Diff_insert move_disjoint del: set_map)
next
  case (Output_digest d n)
  with assms(1) have "st' = st\<lparr>rs_output_digests := rs_output_digests st @ [d]\<rparr>"
    by (simp add: apply_kind_def active_ok)
  then show ?thesis using assms(2) by (simp add: work_ok_def idle_def del: set_map)
qed (use assms in \<open>auto simp: apply_kind_def active_ok work_ok_def idle_def split: if_splits\<close>)

lemma apply_new:
  assumes "apply_lifecycle_event fp st e = Inr st'" "\<not> le_sequence e \<le> rs_last_sequence st"
  obtains st1 where "admit_event st e = None" "apply_kind st (le_kind e) = Inr st1" "st' = record_event fp e st1"
    "le_run_id e = pr_run_id (rs_run st)"
  using assms that by (auto simp: apply_lifecycle_event_def split: if_splits option.splits sum.splits)

lemma admit_event_ok:
  "admit_event st e = None \<Longrightarrow> le_sequence e = rs_last_sequence st + 1 \<and> rs_audit_id st = None \<and>
     le_event_id e \<notin> set (map re_event_id (rs_applied st))"
  by (auto simp: admit_event_def list_ex_iff split: if_splits)

lemma apply_replay: "apply_lifecycle_event fp st e = Inr st' \<Longrightarrow> le_sequence e \<le> rs_last_sequence st \<Longrightarrow> st' = st \<and> replayed fp st e"
  by (auto simp: apply_lifecycle_event_def split: if_splits)

lemma record_event_log:
  assumes "log_ok st" "le_sequence e = rs_last_sequence st + 1" "le_event_id e \<notin> set (map re_event_id (rs_applied st))"
  shows "log_ok (record_event fp e st)"
proof -
  have "map int [1..<Suc (Suc (length (rs_applied st)))] = map int [1..<Suc (length (rs_applied st))] @ [int (length (rs_applied st)) + 1]"
    by simp
  then show ?thesis using assms by (simp add: log_ok_def record_event_def)
qed

lemma run_ok_apply [wf_intros]:
  assumes "apply_lifecycle_event fp st e = Inr st'" "run_ok st"
  shows "run_ok st'"
proof (cases "le_sequence e \<le> rs_last_sequence st")
  case True
  then show ?thesis using apply_replay [OF assms(1)] assms(2) by simp
next
  case False
  with assms(1) obtain st1 where a: "admit_event st e = None" "apply_kind st (le_kind e) = Inr st1" "st' = record_event fp e st1"
    by (rule apply_new)
  note adm = admit_event_ok [OF a(1)] and lg = apply_kind_log [OF a(2)]
  have "log_ok st1" using assms(2) lg by (simp add: run_ok_parts log_ok_def)
  then have "log_ok st'" unfolding a(3) by (rule record_event_log) (use adm lg in auto)
  moreover have "work_ok st1" using apply_kind_work [OF a(2)] assms(2) adm by (simp add: run_ok_parts)
  then have "work_ok st'" by (simp add: a(3) record_event_def work_ok_def idle_def)
  ultimately show ?thesis by (simp add: run_ok_parts)
qed

lemma run_ok_initial [wf_intros]: "run_ok (initial_run_state run)"
  by (simp add: run_ok_def initial_run_state_def idle_def)

lemma reachable_ok: "reachable fp run st \<Longrightarrow> run_ok st"
  by (induction rule: reachable.induct) (auto intro: run_ok_initial run_ok_apply)

section \<open>Delivery\<close>

text \<open>The loop over the stored events of a run, in \<open>LifecycleEventStore.replay\<close> and \<open>append_event\<close>.\<close>

fun apply_events :: "(lifecycle_event \<Rightarrow> string) \<Rightarrow> run_state \<Rightarrow> lifecycle_event list \<Rightarrow> lifecycle_error + run_state" where
  "apply_events fp st [] = Inr st"
| "apply_events fp st (e # es) = (case apply_lifecycle_event fp st e of Inl err \<Rightarrow> Inl err | Inr st' \<Rightarrow> apply_events fp st' es)"

lemma apply_events_append:
  "apply_events fp st (es @ fs) = (case apply_events fp st es of Inl err \<Rightarrow> Inl err | Inr st' \<Rightarrow> apply_events fp st' fs)"
  by (induction es arbitrary: st) (auto split: sum.splits)

lemma apply_events_ok [wf_intros]: "apply_events fp st es = Inr st' \<Longrightarrow> run_ok st \<Longrightarrow> run_ok st'"
  by (induction es arbitrary: st) (auto split: sum.splits intro: run_ok_apply)

lemma reachable_events:
  "apply_events fp st es = Inr st' \<Longrightarrow> reachable fp run st \<Longrightarrow> list_all lifecycle_event_valid es \<Longrightarrow> reachable fp run st'"
  by (induction es arbitrary: st) (auto split: sum.splits intro: reachable.step)

definition receipt_of :: "(lifecycle_event \<Rightarrow> string) \<Rightarrow> lifecycle_event \<Rightarrow> applied_receipt" where
  "receipt_of fp e = \<lparr>re_sequence = le_sequence e, re_event_id = le_event_id e, re_fingerprint = fp e\<rparr>"

lemma find_receipt:
  assumes "run_ok st" "x \<in> set (rs_applied st)"
  shows "List.find (\<lambda>y. re_sequence y = re_sequence x) (rs_applied st) = Some x"
  using assms by (intro find_by_id) (auto simp: run_ok_parts log_ok_def distinct_map simp del: upt_Suc)

lemma receipt_bound:
  assumes "run_ok st" "x \<in> set (rs_applied st)"
  shows "re_sequence x \<le> rs_last_sequence st"
proof -
  have "re_sequence x \<in> set (map re_sequence (rs_applied st))" using assms(2) by simp
  also have "\<dots> = int ` {1..<Suc (length (rs_applied st))}"
    using assms(1) by (metis run_ok_def list.set_map set_upt)
  finally show ?thesis using assms(1) by (auto simp: run_ok_def)
qed

lemma replayed_receipt:
  assumes "run_ok st" "receipt_of fp e \<in> set (rs_applied st)" "le_sequence e' = le_sequence e"
  shows "replayed fp st e' \<longleftrightarrow> le_event_id e' = le_event_id e \<and> fp e' = fp e"
  using find_receipt [OF assms(1,2)] assms(3) by (auto simp: replayed_def receipt_of_def)

lemma replayed_has_receipt: "replayed fp st e \<Longrightarrow> receipt_of fp e \<in> set (rs_applied st)"
  by (auto simp: replayed_def receipt_of_def dest!: find_Some_in split: option.splits)
    (metis (full_types) applied_receipt.surjective old.unit.exhaust)

text \<open>An accepted event leaves its receipt; receipts and the run itself stay.\<close>

lemma apply_receipts:
  assumes "apply_lifecycle_event fp st e = Inr st'"
  shows "set (rs_applied st') = insert (receipt_of fp e) (set (rs_applied st))" "rs_run st' = rs_run st"
    "le_run_id e = pr_run_id (rs_run st)"
proof -
  have "set (rs_applied st') = insert (receipt_of fp e) (set (rs_applied st)) \<and> rs_run st' = rs_run st \<and>
    le_run_id e = pr_run_id (rs_run st)"
  proof (cases "le_sequence e \<le> rs_last_sequence st")
    case True
    then show ?thesis using apply_replay [OF assms] assms
      by (auto simp: apply_lifecycle_event_def dest: replayed_has_receipt split: if_splits)
  next
    case False
    with assms obtain st1 where "apply_kind st (le_kind e) = Inr st1" "st' = record_event fp e st1"
      "le_run_id e = pr_run_id (rs_run st)" by (rule apply_new)
    then show ?thesis using apply_kind_log by (auto simp: record_event_def receipt_of_def)
  qed
  then show "set (rs_applied st') = insert (receipt_of fp e) (set (rs_applied st))" "rs_run st' = rs_run st"
    "le_run_id e = pr_run_id (rs_run st)" by simp_all
qed

lemma apply_events_receipts:
  "apply_events fp st es = Inr st' \<Longrightarrow>
     set (rs_applied st') = receipt_of fp ` set es \<union> set (rs_applied st) \<and> rs_run st' = rs_run st \<and>
     (\<forall>e \<in> set es. le_run_id e = pr_run_id (rs_run st))"
  by (induction es arbitrary: st) (auto dest: apply_receipts split: sum.splits)

lemma apply_known:
  assumes "run_ok st" "receipt_of fp e \<in> set (rs_applied st)" "le_sequence e' = le_sequence e" "le_run_id e' = pr_run_id (rs_run st)"
  shows "apply_lifecycle_event fp st e' =
    (if le_event_id e' = le_event_id e \<and> fp e' = fp e then Inr st else Inl (Event_conflict ''conflicting event replay''))"
  using receipt_bound [OF assms(1,2)] replayed_receipt [OF assms(1-3)] assms(3,4)
  by (simp add: apply_lifecycle_event_def receipt_of_def)


lemma apply_closed:
  assumes "rs_audit_id st \<noteq> None" "apply_lifecycle_event fp st e = Inr st'"
  shows "st' = st"
  using assms apply_replay apply_new admit_event_ok by (metis linorder_not_le)

text \<open>C22. The life cycle of a provider run, in every state that valid events can build: the accepted events are
  numbered 1, 2, 3, ... without gaps and under distinct identifiers; a pending approval belongs to a pending
  tool call; nothing is pending before the response starts or after it ends; output is validated only for a
  completed response; and the delegation is terminal exactly when its audit record is persisted, and
  completed exactly when moreover the response was completed.\<close>

theorem lifecycle_invariant:
  assumes "reachable fp run st"
  shows "map re_sequence (rs_applied st) = map int [1..<Suc (length (rs_applied st))] \<and>
    distinct (map re_event_id (rs_applied st)) \<and>
    snd ` set (rs_pending_approvals st) \<subseteq> set (keys (rs_pending_tools st)) \<and>
    (\<not> rs_response_started st \<or> rs_response_status st \<noteq> None \<longrightarrow> idle st) \<and>
    (rs_output_validated st \<longrightarrow> rs_response_status st = Some Response_completed) \<and>
    (delegation_terminal st \<longleftrightarrow> rs_audit_id st \<noteq> None) \<and>
    (delegation_completed st \<longleftrightarrow> rs_audit_id st \<noteq> None \<and> rs_response_status st = Some Response_completed)"
  using reachable_ok [OF assms] unfolding run_ok_def delegation_terminal_def delegation_completed_def idle_def by blast

text \<open>Events may be delivered again and nothing is rewritten: after any accepted sequence of events, delivering one
  of them once more changes nothing, another event under its number is refused as a conflict unless it
  has the same identifier and fingerprint, and once the audit record is persisted no event changes the run.\<close>

theorem redelivery_changes_nothing:
  assumes "apply_events fp (initial_run_state run) es = Inr st" "e \<in> set es"
  shows "apply_lifecycle_event fp st e = Inr st \<and>
    (le_sequence e' = le_sequence e \<and> le_run_id e' = pr_run_id run \<and> (le_event_id e', fp e') \<noteq> (le_event_id e, fp e) \<longrightarrow>
       apply_lifecycle_event fp st e' = Inl (Event_conflict ''conflicting event replay'')) \<and>
    (rs_audit_id st \<noteq> None \<and> apply_lifecycle_event fp st e'' = Inr st'' \<longrightarrow> st'' = st)"
proof -
  note ok = apply_events_ok [OF assms(1) run_ok_initial] and r = apply_events_receipts [OF assms(1)]
  have run: "rs_run st = run" using r by (simp add: initial_run_state_def)
  have mem: "receipt_of fp e \<in> set (rs_applied st)" using r assms(2) by simp
  have id: "le_run_id e = pr_run_id (rs_run st)" using r assms(2) by auto
  show ?thesis using apply_known [OF ok mem refl id] apply_known [OF ok mem, of e'] apply_closed [of st fp e'' st''] run by auto
qed

section \<open>A run\<close>

definition ex_run :: provider_run where
  "ex_run = \<lparr>pr_run_id = ''run_1'', pr_conversation_id = ''conv_1'', pr_turn_id = ''turn_1'', pr_trace_id = ''trace_1'',
     pr_idempotency_key = ''idem_1'', pr_provider = ''fake'', pr_surface = ''mcp'', pr_started_at = 30, pr_provider_run_id = None\<rparr>"

definition ex_lifecycle :: "string \<Rightarrow> int \<Rightarrow> event_kind \<Rightarrow> lifecycle_event" where
  "ex_lifecycle i n k = \<lparr>le_event_id = i, le_run_id = ''run_1'', le_sequence = n, le_observed_at = 30 + n,
     le_provider_event_id = None, le_kind = k\<rparr>"

definition ex_hash :: string where
  "ex_hash = replicate 64 (CHR ''a'')"

definition ex_events :: "lifecycle_event list" where
  "ex_events = [ex_lifecycle ''evt_1'' 1 (Response_started ''resp''),
     ex_lifecycle ''evt_2'' 2 (Tool_call_requested ''tool_1'' ''ptool'' ''repo.read'' ex_hash),
     ex_lifecycle ''evt_3'' 3 (Approval_requested ''appr_1'' ''tool_1''),
     ex_lifecycle ''evt_4'' 4 (Approval_resolved ''appr_1'' Decision_approved),
     ex_lifecycle ''evt_5'' 5 (Tool_call_resolved ''tool_1'' Tool_completed (Some ex_hash)),
     ex_lifecycle ''evt_6'' 6 (Response_terminal Response_completed None),
     ex_lifecycle ''evt_7'' 7 (Output_validated ex_hash None),
     ex_lifecycle ''evt_8'' 8 (Audit_persisted ''audit_1'' ex_hash)]"

definition ex_final :: run_state where
  "ex_final = (case apply_events le_event_id (initial_run_state ex_run) ex_events of Inl _ \<Rightarrow> initial_run_state ex_run | Inr st \<Rightarrow> st)"

lemma ex_final: "apply_events le_event_id (initial_run_state ex_run) ex_events = Inr ex_final"
  by code_simp

lemma ex_final_audited: "rs_audit_id ex_final = Some ''audit_1''" "rs_response_status ex_final = Some Response_completed"
  by code_simp+

theorem lifecycle_invariant_witness: "delegation_completed ex_final"
proof -
  have "list_all lifecycle_event_valid ex_events" by code_simp
  then show ?thesis
    using lifecycle_invariant [OF reachable_events [OF ex_final reachable.initial]] ex_final_audited by simp
qed

theorem redelivery_changes_nothing_witness:
  "apply_lifecycle_event le_event_id ex_final (ex_lifecycle ''evt_3'' 3 (Approval_requested ''appr_1'' ''tool_1'')) = Inr ex_final"
  using redelivery_changes_nothing [OF ex_final, of "ex_lifecycle ''evt_3'' 3 (Approval_requested ''appr_1'' ''tool_1'')"]
  by (simp add: ex_events_def)

end
