(* ===== verification/Json_Codec.thy ===== *)
theory Json_Codec
  imports Json
begin

text \<open>
  What the stores rely on in the JSON that pydantic prints and reads for a model (\<open>payload_ok\<close>), and printers and
  readers that have it: a model as a JSON array of its fields, which are strings, integers and optional ones.
\<close>

definition payload_ok :: "('m \<Rightarrow> bool) \<Rightarrow> ('m \<Rightarrow> string) \<Rightarrow> (string \<Rightarrow> 'm option) \<Rightarrow> bool" where
  "payload_ok valid dump parse \<longleftrightarrow> (\<forall>m. valid m \<longrightarrow> parse (dump m) = Some m) \<and> (\<forall>p m. parse p = Some m \<longrightarrow> valid m)"

section \<open>Arrays of fields\<close>

fun str_of :: "json \<Rightarrow> string" where "str_of (JStr x) = x" | "str_of _ = []"
fun int_of :: "json \<Rightarrow> int" where "int_of (JInt n) = n" | "int_of _ = 0"
fun opt_of :: "json \<Rightarrow> string option" where "opt_of (JStr x) = Some x" | "opt_of _ = None"
fun arr_of :: "json \<Rightarrow> json list" where "arr_of (JArr vs) = vs" | "arr_of _ = []"

definition field :: "json \<Rightarrow> nat \<Rightarrow> json" where
  "field j n = (if n < length (arr_of j) then arr_of j ! n else JNull)"

definition jopt :: "string option \<Rightarrow> json" where
  "jopt v = (case v of None \<Rightarrow> JNull | Some x \<Rightarrow> JStr x)"

fun plain :: "json \<Rightarrow> bool" where
  "plain (JArr vs) = list_all plain vs" | "plain (JObj kvs) = False" | "plain (JFloat t) = False" | "plain _ = True"

lemma plain_reads: "plain j \<Longrightarrow> loads (dumps False j) = Some j"
proof -
  have "plain j \<Longrightarrow> json_wf j \<and> norm j = j" by (induction j) (auto simp: list_all_iff intro: map_idI)
  then show "plain j \<Longrightarrow> ?thesis" by (simp add: loads_dumps)
qed

lemma opt_of_jopt [simp]: "opt_of (jopt v) = v" "plain (jopt v)"
  by (simp_all add: jopt_def split: option.splits)

definition read_as :: "('m \<Rightarrow> bool) \<Rightarrow> (json \<Rightarrow> 'm) \<Rightarrow> string \<Rightarrow> 'm option" where
  "read_as valid from p = (case loads p of None \<Rightarrow> None | Some j \<Rightarrow> if valid (from j) then Some (from j) else None)"

lemma payload_ok_json:
  "(\<And>m. plain (to m) \<and> from (to m) = m) \<Longrightarrow> payload_ok valid (\<lambda>m. dumps False (to m)) (read_as valid from)"
  by (auto simp: payload_ok_def read_as_def plain_reads split: option.splits if_splits)

text \<open>The values of an enumeration by their position.\<close>

fun position :: "'a list \<Rightarrow> 'a \<Rightarrow> int" where
  "position [] x = 0"
| "position (v # vs) x = (if v = x then 0 else position vs x + 1)"

definition jenum :: "'a list \<Rightarrow> 'a \<Rightarrow> json" where
  "jenum vs x = JInt (position vs x)"

definition enum_of :: "'a list \<Rightarrow> json \<Rightarrow> 'a" where
  "enum_of vs j = (let n = nat (int_of j) in if n < length vs then vs ! n else hd vs)"

lemma position_nth: "x \<in> set vs \<Longrightarrow> 0 \<le> position vs x \<and> nat (position vs x) < length vs \<and> vs ! nat (position vs x) = x"
  by (induction vs) (auto simp: nat_add_distrib)

lemma enum_of_jenum: "x \<in> set vs \<Longrightarrow> enum_of vs (jenum vs x) = x"
  by (simp add: enum_of_def jenum_def position_nth Let_def)

lemma plain_jenum [simp]: "plain (jenum vs x)"
  by (simp add: jenum_def)

definition jopt_int :: "int option \<Rightarrow> json" where
  "jopt_int v = (case v of None \<Rightarrow> JNull | Some n \<Rightarrow> JInt n)"

fun opt_int_of :: "json \<Rightarrow> int option" where
  "opt_int_of (JInt n) = Some n"
| "opt_int_of _ = None"

lemma opt_int_of_jopt_int [simp]: "opt_int_of (jopt_int v) = v" "plain (jopt_int v)"
  by (simp_all add: jopt_int_def split: option.splits)

end
