(* ===== verification/Event_Store.thy ===== *)
theory Event_Store
  imports Lifecycle Json_Codec
begin

text \<open>
  providers/store.py: the SQLite store of conversations, turns, runs and lifecycle events. A table is the list
  of its rows in insertion order, with its primary key, unique and foreign key constraints checked by the
  inserts; a transaction either commits or leaves the database as it was. SHA-256 and the JSON that
  pydantic prints and reads for each model are parameters (\<open>codec\<close>); \<open>codec_ok\<close> is what the store relies on:
  a printed valid model is read back as itself, and what is read is valid.
\<close>

section \<open>Rows and payloads\<close>

datatype append_result = Appended | Duplicate

datatype store_error =
    Store_error string
  | Store_corrupt string
  | Unsupported_schema_version string
  | Lifecycle_failure lifecycle_error
  | Key_error string
  | Integrity_error
  | Operational_error

record conversation_row =
  cv_conversation_id :: string
  cv_provider :: string
  cv_surface :: string
  cv_provider_conversation_id :: "string option"
  cv_fingerprint :: string
  cv_payload_json :: string

record turn_row =
  tu_turn_id :: string
  tu_conversation_id :: string
  tu_idempotency_key :: string
  tu_fingerprint :: string
  tu_payload_json :: string

record run_row =
  ru_run_id :: string
  ru_conversation_id :: string
  ru_turn_id :: string
  ru_idempotency_key :: string
  ru_provider :: string
  ru_surface :: string
  ru_provider_run_id :: "string option"
  ru_fingerprint :: string
  ru_payload_json :: string

record event_row =
  ev_run_id :: string
  ev_sequence :: int
  ev_event_id :: string
  ev_provider_event_id :: "string option"
  ev_fingerprint :: string
  ev_payload_json :: string

record lifecycle_db =
  db_conversations :: "conversation_row list"
  db_turns :: "turn_row list"
  db_runs :: "run_row list"
  db_events :: "event_row list"

record codec =
  cd_sha256 :: "bytes \<Rightarrow> bytes"
  dump_conversation :: "conversation_handle \<Rightarrow> string"
  parse_conversation :: "string \<Rightarrow> conversation_handle option"
  dump_turn :: "committed_turn \<Rightarrow> string"
  parse_turn :: "string \<Rightarrow> committed_turn option"
  dump_run :: "provider_run \<Rightarrow> string"
  parse_run :: "string \<Rightarrow> provider_run option"
  dump_event :: "lifecycle_event \<Rightarrow> string"
  parse_event :: "string \<Rightarrow> lifecycle_event option"

definition codec_ok :: "codec \<Rightarrow> bool" where
  "codec_ok cd \<longleftrightarrow> payload_ok conversation_handle_valid (dump_conversation cd) (parse_conversation cd) \<and>
     payload_ok committed_turn_valid (dump_turn cd) (parse_turn cd) \<and>
     payload_ok provider_run_valid (dump_run cd) (parse_run cd) \<and>
     payload_ok lifecycle_event_valid (dump_event cd) (parse_event cd)"

definition fingerprint :: "codec \<Rightarrow> string \<Rightarrow> string" where
  "fingerprint cd payload = hexlify (cd_sha256 cd (utf8 payload))"

definition lifecycle_event_fingerprint :: "codec \<Rightarrow> lifecycle_event \<Rightarrow> string" where
  "lifecycle_event_fingerprint cd e = fingerprint cd (dump_event cd e)"

text \<open>The rows that are inserted.\<close>

definition conversation_to_row :: "codec \<Rightarrow> conversation_handle \<Rightarrow> conversation_row" where
  "conversation_to_row cd c = \<lparr>cv_conversation_id = ch_conversation_id c, cv_provider = ch_provider c, cv_surface = ch_surface c,
     cv_provider_conversation_id = ch_provider_conversation_id c,
     cv_fingerprint = fingerprint cd (dump_conversation cd c), cv_payload_json = dump_conversation cd c\<rparr>"

definition turn_to_row :: "codec \<Rightarrow> committed_turn \<Rightarrow> turn_row" where
  "turn_to_row cd t = \<lparr>tu_turn_id = ct_turn_id t, tu_conversation_id = ct_conversation_id t, tu_idempotency_key = ct_idempotency_key t,
     tu_fingerprint = fingerprint cd (dump_turn cd t), tu_payload_json = dump_turn cd t\<rparr>"

definition run_to_row :: "codec \<Rightarrow> provider_run \<Rightarrow> run_row" where
  "run_to_row cd r = \<lparr>ru_run_id = pr_run_id r, ru_conversation_id = pr_conversation_id r, ru_turn_id = pr_turn_id r,
     ru_idempotency_key = pr_idempotency_key r, ru_provider = pr_provider r, ru_surface = pr_surface r,
     ru_provider_run_id = pr_provider_run_id r, ru_fingerprint = fingerprint cd (dump_run cd r), ru_payload_json = dump_run cd r\<rparr>"

definition event_to_row :: "codec \<Rightarrow> lifecycle_event \<Rightarrow> event_row" where
  "event_to_row cd e = \<lparr>ev_run_id = le_run_id e, ev_sequence = le_sequence e, ev_event_id = le_event_id e,
     ev_provider_event_id = le_provider_event_id e, ev_fingerprint = lifecycle_event_fingerprint cd e,
     ev_payload_json = dump_event cd e\<rparr>"

text \<open>Reading a row back.\<close>

definition validate_payload ::
  "codec \<Rightarrow> string \<Rightarrow> ('m \<Rightarrow> string) \<Rightarrow> (string \<Rightarrow> 'm option) \<Rightarrow> string \<Rightarrow> string \<Rightarrow> store_error + 'm" where
  "validate_payload cd model_name dump validator payload fp =
     (if fingerprint cd payload \<noteq> fp then Inl (Store_corrupt (model_name @ '' fingerprint mismatch''))
      else case validator payload of None \<Rightarrow> Inl (Store_corrupt (''invalid '' @ model_name @ '' payload''))
      | Some m \<Rightarrow> if fingerprint cd (dump m) \<noteq> fp then Inl (Store_corrupt (model_name @ '' payload is not canonical'')) else Inr m)"

definition conversation_from_row :: "codec \<Rightarrow> conversation_row \<Rightarrow> store_error + conversation_handle" where
  "conversation_from_row cd row =
     (case validate_payload cd ''conversation'' (dump_conversation cd) (parse_conversation cd) (cv_payload_json row)
        (cv_fingerprint row) of
        Inl e \<Rightarrow> Inl e
      | Inr m \<Rightarrow> if ch_conversation_id m \<noteq> cv_conversation_id row \<or> ch_provider m \<noteq> cv_provider row \<or> ch_surface m \<noteq> cv_surface row \<or>
            ch_provider_conversation_id m \<noteq> cv_provider_conversation_id row
          then Inl (Store_corrupt ''conversation columns do not match its payload'') else Inr m)"

definition turn_from_row :: "codec \<Rightarrow> turn_row \<Rightarrow> store_error + committed_turn" where
  "turn_from_row cd row =
     (case validate_payload cd ''committed turn'' (dump_turn cd) (parse_turn cd) (tu_payload_json row) (tu_fingerprint row) of
        Inl e \<Rightarrow> Inl e
      | Inr m \<Rightarrow> if ct_turn_id m \<noteq> tu_turn_id row \<or> ct_conversation_id m \<noteq> tu_conversation_id row \<or>
            ct_idempotency_key m \<noteq> tu_idempotency_key row
          then Inl (Store_corrupt ''committed turn columns do not match its payload'') else Inr m)"

definition run_from_row :: "codec \<Rightarrow> run_row \<Rightarrow> store_error + provider_run" where
  "run_from_row cd row =
     (case validate_payload cd ''provider run'' (dump_run cd) (parse_run cd) (ru_payload_json row) (ru_fingerprint row) of
        Inl e \<Rightarrow> Inl e
      | Inr m \<Rightarrow> if pr_run_id m \<noteq> ru_run_id row \<or> pr_conversation_id m \<noteq> ru_conversation_id row \<or> pr_turn_id m \<noteq> ru_turn_id row \<or>
            pr_idempotency_key m \<noteq> ru_idempotency_key row \<or> pr_provider m \<noteq> ru_provider row \<or> pr_surface m \<noteq> ru_surface row \<or>
            pr_provider_run_id m \<noteq> ru_provider_run_id row
          then Inl (Store_corrupt ''provider run columns do not match its payload'') else Inr m)"

definition event_from_row :: "codec \<Rightarrow> event_row \<Rightarrow> store_error + lifecycle_event" where
  "event_from_row cd row =
     (if fingerprint cd (ev_payload_json row) \<noteq> ev_fingerprint row
        then Inl (Store_corrupt ''lifecycle event fingerprint mismatch'')
      else case parse_event cd (ev_payload_json row) of
        None \<Rightarrow> Inl (Store_corrupt ''invalid lifecycle event payload'')
      | Some e \<Rightarrow> if le_run_id e \<noteq> ev_run_id row \<or> le_sequence e \<noteq> ev_sequence row \<or> le_event_id e \<noteq> ev_event_id row \<or>
            le_provider_event_id e \<noteq> ev_provider_event_id row \<or> lifecycle_event_fingerprint cd e \<noteq> ev_fingerprint row
          then Inl (Store_corrupt ''lifecycle event columns do not match its payload'') else Inr e)"

section \<open>Transactions and constraints\<close>

text \<open>\<open>BEGIN IMMEDIATE\<close> fails when another connection keeps the write lock; otherwise the body commits or rolls back.\<close>

definition in_transaction :: "bool \<Rightarrow> (lifecycle_db \<Rightarrow> store_error + append_result \<times> lifecycle_db) \<Rightarrow> lifecycle_db \<Rightarrow>
    (store_error + append_result) \<times> lifecycle_db" where
  "in_transaction busy body db =
     (if busy then (Inl Operational_error, db)
      else case body db of Inl e \<Rightarrow> (Inl e, db) | Inr (r, db') \<Rightarrow> (Inr r, db'))"

definition insert_conversation :: "conversation_row \<Rightarrow> lifecycle_db \<Rightarrow> store_error + append_result \<times> lifecycle_db" where
  "insert_conversation row db =
     (if cv_conversation_id row \<in> set (map cv_conversation_id (db_conversations db)) \<or>
         cv_provider_conversation_id row \<noteq> None \<and>
         list_ex (\<lambda>x. cv_provider x = cv_provider row \<and> cv_surface x = cv_surface row \<and>
           cv_provider_conversation_id x = cv_provider_conversation_id row) (db_conversations db)
        then Inl Integrity_error
      else Inr (Appended, db\<lparr>db_conversations := db_conversations db @ [row]\<rparr>))"

definition insert_turn :: "turn_row \<Rightarrow> lifecycle_db \<Rightarrow> store_error + append_result \<times> lifecycle_db" where
  "insert_turn row db =
     (if tu_turn_id row \<in> set (map tu_turn_id (db_turns db)) \<or> tu_idempotency_key row \<in> set (map tu_idempotency_key (db_turns db)) \<or>
         tu_conversation_id row \<notin> set (map cv_conversation_id (db_conversations db))
        then Inl Integrity_error
      else Inr (Appended, db\<lparr>db_turns := db_turns db @ [row]\<rparr>))"

definition insert_run :: "run_row \<Rightarrow> lifecycle_db \<Rightarrow> store_error + append_result \<times> lifecycle_db" where
  "insert_run row db =
     (if ru_run_id row \<in> set (map ru_run_id (db_runs db)) \<or> ru_turn_id row \<in> set (map ru_turn_id (db_runs db)) \<or>
         ru_idempotency_key row \<in> set (map ru_idempotency_key (db_runs db)) \<or>
         ru_provider_run_id row \<noteq> None \<and>
         list_ex (\<lambda>x. ru_provider x = ru_provider row \<and> ru_surface x = ru_surface row \<and>
           ru_provider_run_id x = ru_provider_run_id row) (db_runs db) \<or>
         ru_conversation_id row \<notin> set (map cv_conversation_id (db_conversations db)) \<or>
         ru_turn_id row \<notin> set (map tu_turn_id (db_turns db))
        then Inl Integrity_error
      else Inr (Appended, db\<lparr>db_runs := db_runs db @ [row]\<rparr>))"

definition insert_event :: "event_row \<Rightarrow> lifecycle_db \<Rightarrow> store_error + append_result \<times> lifecycle_db" where
  "insert_event row db =
     (if ev_sequence row < 1 \<or> ev_event_id row \<in> set (map ev_event_id (db_events db)) \<or>
         list_ex (\<lambda>x. ev_run_id x = ev_run_id row \<and> ev_sequence x = ev_sequence row) (db_events db) \<or>
         ev_provider_event_id row \<noteq> None \<and>
         list_ex (\<lambda>x. ev_run_id x = ev_run_id row \<and> ev_provider_event_id x = ev_provider_event_id row) (db_events db) \<or>
         ev_run_id row \<notin> set (map ru_run_id (db_runs db))
        then Inl Integrity_error
      else Inr (Appended, db\<lparr>db_events := db_events db @ [row]\<rparr>))"


section \<open>Operations\<close>

text \<open>\<open>SELECT ... WHERE <primary key> = ?\<close>.\<close>

definition select_conversation :: "string \<Rightarrow> lifecycle_db \<Rightarrow> conversation_row option" where
  "select_conversation k db = List.find (\<lambda>x. cv_conversation_id x = k) (db_conversations db)"

definition select_turn :: "string \<Rightarrow> lifecycle_db \<Rightarrow> turn_row option" where
  "select_turn k db = List.find (\<lambda>x. tu_turn_id x = k) (db_turns db)"

definition select_run :: "string \<Rightarrow> lifecycle_db \<Rightarrow> run_row option" where
  "select_run k db = List.find (\<lambda>x. ru_run_id x = k) (db_runs db)"

definition select_event :: "string \<Rightarrow> int \<Rightarrow> lifecycle_db \<Rightarrow> event_row option" where
  "select_event k n db = List.find (\<lambda>x. ev_run_id x = k \<and> ev_sequence x = n) (db_events db)"

text \<open>\<open>WHERE run_id = ? ORDER BY sequence\<close>.\<close>

definition select_events :: "string \<Rightarrow> lifecycle_db \<Rightarrow> event_row list" where
  "select_events k db = sort_key ev_sequence (filter (\<lambda>x. ev_run_id x = k) (db_events db))"

text \<open>What is done with a row that is already there under the same primary key.\<close>

definition duplicate :: "'m \<Rightarrow> string \<Rightarrow> string \<Rightarrow> string \<Rightarrow> store_error + 'm \<Rightarrow> lifecycle_db \<Rightarrow>
    store_error + append_result \<times> lifecycle_db" where
  "duplicate m fp row_fp conflict stored db =
     (case stored of Inl e \<Rightarrow> Inl e
      | Inr s \<Rightarrow> if s = m \<and> row_fp = fp then Inr (Duplicate, db) else Inl (Lifecycle_failure (Event_conflict conflict)))"

definition register_conversation ::
  "codec \<Rightarrow> bool \<Rightarrow> conversation_handle \<Rightarrow> lifecycle_db \<Rightarrow> (store_error + append_result) \<times> lifecycle_db" where
  "register_conversation cd busy c = in_transaction busy (\<lambda>db.
     case select_conversation (ch_conversation_id c) db of
       Some row \<Rightarrow> duplicate c (fingerprint cd (dump_conversation cd c)) (cv_fingerprint row)
         ''conflicting conversation_id registration'' (conversation_from_row cd row) db
     | None \<Rightarrow>
         if ch_provider_conversation_id c \<noteq> None \<and>
            list_ex (\<lambda>x. cv_provider x = ch_provider c \<and> cv_surface x = ch_surface c \<and>
              cv_provider_conversation_id x = ch_provider_conversation_id c) (db_conversations db)
           then Inl (Lifecycle_failure (Event_conflict ''provider conversation mapping is already registered''))
         else insert_conversation (conversation_to_row cd c) db)"

definition register_turn ::
  "codec \<Rightarrow> bool \<Rightarrow> committed_turn \<Rightarrow> lifecycle_db \<Rightarrow> (store_error + append_result) \<times> lifecycle_db" where
  "register_turn cd busy t = in_transaction busy (\<lambda>db.
     case select_conversation (ct_conversation_id t) db of
       None \<Rightarrow> Inl (Store_error ''committed turn requires a registered conversation'')
     | Some crow \<Rightarrow>
       (case conversation_from_row cd crow of Inl e \<Rightarrow> Inl e
        | Inr c \<Rightarrow>
          if ap_agent_id (ct_principal t) \<noteq> ch_created_by_agent c
            then Inl (Store_error ''committed turn principal does not own the conversation'')
          else if ch_state c \<noteq> Active then Inl (Store_error ''committed turn requires an active conversation'')
          else if ct_committed_at t < ch_created_at c then Inl (Store_error ''committed turn cannot precede the conversation'')
          else case select_turn (ct_turn_id t) db of
            Some row \<Rightarrow> duplicate t (fingerprint cd (dump_turn cd t)) (tu_fingerprint row)
              ''conflicting turn_id registration'' (turn_from_row cd row) db
          | None \<Rightarrow>
              if list_ex (\<lambda>x. tu_idempotency_key x = ct_idempotency_key t) (db_turns db)
                then Inl (Lifecycle_failure (Event_conflict ''idempotency_key is already bound to another turn''))
              else insert_turn (turn_to_row cd t) db))"

text \<open>The checks of a run against its conversation and turn.\<close>

definition check_run :: "provider_run \<Rightarrow> conversation_handle \<Rightarrow> committed_turn \<Rightarrow> store_error option" where
  "check_run r c t =
     (if pr_conversation_id r \<noteq> ct_conversation_id t \<or> pr_trace_id r \<noteq> ct_trace_id t \<or> pr_idempotency_key r \<noteq> ct_idempotency_key t
        then Some (Store_error ''provider run does not match its committed turn'')
      else if pr_provider r \<noteq> ch_provider c \<or> pr_surface r \<noteq> ch_surface c
        then Some (Store_error ''provider run does not match its conversation surface'')
      else if ch_state c \<noteq> Active then Some (Store_error ''provider run requires an active conversation'')
      else if pr_started_at r < ct_committed_at t then Some (Store_error ''provider run cannot precede its committed turn'')
      else None)"

definition bind_run :: "codec \<Rightarrow> provider_run \<Rightarrow> lifecycle_db \<Rightarrow> store_error + append_result \<times> lifecycle_db" where
  "bind_run cd r db =
     (case select_run (pr_run_id r) db of
        Some row \<Rightarrow> duplicate r (fingerprint cd (dump_run cd r)) (ru_fingerprint row)
          ''conflicting run_id registration'' (run_from_row cd row) db
      | None \<Rightarrow>
          if list_ex (\<lambda>x. ru_turn_id x = pr_turn_id r \<or> ru_idempotency_key x = pr_idempotency_key r) (db_runs db)
            then Inl (Lifecycle_failure (Event_conflict ''committed turn or idempotency_key already has a provider run''))
          else if pr_provider_run_id r \<noteq> None \<and>
            list_ex (\<lambda>x. ru_provider x = pr_provider r \<and> ru_surface x = pr_surface r \<and>
              ru_provider_run_id x = pr_provider_run_id r) (db_runs db)
            then Inl (Lifecycle_failure (Event_conflict ''provider_run_id is already registered''))
          else insert_run (run_to_row cd r) db)"

definition register_run ::
  "codec \<Rightarrow> bool \<Rightarrow> provider_run \<Rightarrow> lifecycle_db \<Rightarrow> (store_error + append_result) \<times> lifecycle_db" where
  "register_run cd busy r = in_transaction busy (\<lambda>db.
     case select_conversation (pr_conversation_id r) db of
       None \<Rightarrow> Inl (Store_error ''provider run requires a registered conversation'')
     | Some crow \<Rightarrow>
       (case conversation_from_row cd crow of Inl e \<Rightarrow> Inl e
        | Inr c \<Rightarrow>
          (case select_turn (pr_turn_id r) db of
             None \<Rightarrow> Inl (Store_error ''provider run requires a registered committed turn'')
           | Some trow \<Rightarrow>
             (case turn_from_row cd trow of Inl e \<Rightarrow> Inl e
              | Inr t \<Rightarrow> (case check_run r c t of Some e \<Rightarrow> Inl e | None \<Rightarrow> bind_run cd r db)))))"

text \<open>The stored events of a run are read and applied one by one; a refused one is reported as corruption.\<close>

fun apply_rows :: "codec \<Rightarrow> run_state \<Rightarrow> event_row list \<Rightarrow> store_error + run_state" where
  "apply_rows cd st [] = Inr st"
| "apply_rows cd st (row # rows) =
     (case event_from_row cd row of Inl e \<Rightarrow> Inl e
      | Inr ev \<Rightarrow> (case apply_lifecycle_event (lifecycle_event_fingerprint cd) st ev of
          Inl _ \<Rightarrow> Inl (Store_corrupt ''persisted lifecycle events contain an invalid transition'')
        | Inr st' \<Rightarrow> apply_rows cd st' rows))"

text \<open>The part of \<open>append_event\<close> after the run and the event's place in it were looked up.\<close>

definition append_new :: "codec \<Rightarrow> provider_run \<Rightarrow> lifecycle_event \<Rightarrow> lifecycle_db \<Rightarrow> store_error + append_result \<times> lifecycle_db" where
  "append_new cd run e db =
     (if list_ex (\<lambda>x. ev_event_id x = le_event_id e) (db_events db)
        then Inl (Lifecycle_failure (Event_conflict ''event_id has already been persisted''))
      else if le_provider_event_id e \<noteq> None \<and>
        list_ex (\<lambda>x. ev_run_id x = le_run_id e \<and> ev_provider_event_id x = le_provider_event_id e) (db_events db)
        then Inl (Lifecycle_failure (Event_conflict ''provider_event_id has already been persisted''))
      else case apply_rows cd (initial_run_state run) (select_events (le_run_id e) db) of Inl err \<Rightarrow> Inl err
      | Inr st \<Rightarrow> (case apply_lifecycle_event (lifecycle_event_fingerprint cd) st e of
          Inl err \<Rightarrow> Inl (Lifecycle_failure err)
        | Inr _ \<Rightarrow> insert_event (event_to_row cd e) db))"

definition append_event ::
  "codec \<Rightarrow> bool \<Rightarrow> lifecycle_event \<Rightarrow> lifecycle_db \<Rightarrow> (store_error + append_result) \<times> lifecycle_db" where
  "append_event cd busy e = in_transaction busy (\<lambda>db.
     case select_run (le_run_id e) db of
       None \<Rightarrow> Inl (Store_error ''event requires a registered provider run'')
     | Some rrow \<Rightarrow>
       (case run_from_row cd rrow of Inl err \<Rightarrow> Inl err
        | Inr run \<Rightarrow>
          (case select_event (le_run_id e) (le_sequence e) db of
             Some row \<Rightarrow> duplicate e (lifecycle_event_fingerprint cd e) (ev_fingerprint row)
               ''conflicting event already occupies this sequence'' (event_from_row cd row) db
           | None \<Rightarrow> append_new cd run e db)))"

definition load_conversation :: "codec \<Rightarrow> string \<Rightarrow> lifecycle_db \<Rightarrow> store_error + conversation_handle" where
  "load_conversation cd k db =
     (case select_conversation k db of None \<Rightarrow> Inl (Key_error k) | Some row \<Rightarrow> conversation_from_row cd row)"

definition load_turn :: "codec \<Rightarrow> string \<Rightarrow> lifecycle_db \<Rightarrow> store_error + committed_turn" where
  "load_turn cd k db = (case select_turn k db of None \<Rightarrow> Inl (Key_error k) | Some row \<Rightarrow> turn_from_row cd row)"

definition load_run :: "codec \<Rightarrow> string \<Rightarrow> lifecycle_db \<Rightarrow> store_error + provider_run" where
  "load_run cd k db = (case select_run k db of None \<Rightarrow> Inl (Key_error k) | Some row \<Rightarrow> run_from_row cd row)"

fun read_rows :: "codec \<Rightarrow> event_row list \<Rightarrow> store_error + lifecycle_event list" where
  "read_rows cd [] = Inr []"
| "read_rows cd (row # rows) =
     (case event_from_row cd row of Inl e \<Rightarrow> Inl e
      | Inr ev \<Rightarrow> (case read_rows cd rows of Inl e \<Rightarrow> Inl e | Inr evs \<Rightarrow> Inr (ev # evs)))"

definition load_events :: "codec \<Rightarrow> string \<Rightarrow> lifecycle_db \<Rightarrow> store_error + lifecycle_event list" where
  "load_events cd k db = read_rows cd (select_events k db)"

definition replay :: "codec \<Rightarrow> string \<Rightarrow> lifecycle_db \<Rightarrow> store_error + run_state" where
  "replay cd k db =
     (case load_run cd k db of Inl e \<Rightarrow> Inl e
      | Inr run \<Rightarrow> (case load_events cd k db of Inl e \<Rightarrow> Inl e
        | Inr evs \<Rightarrow> (case apply_events (lifecycle_event_fingerprint cd) (initial_run_state run) evs of
            Inl _ \<Rightarrow> Inl (Store_corrupt ''persisted lifecycle events contain an invalid transition'')
          | Inr st \<Rightarrow> Inr st)))"

section \<open>Opening the store\<close>

text \<open>What the file holds before it is opened: the columns of each existing table, the indexes, the schema version
  and the rows.\<close>

record store_file =
  sf_quick_check :: "bool option"
  sf_columns :: "(string, string list) dict"
  sf_indexes :: "string list"
  sf_version :: "string option"
  sf_db :: lifecycle_db

definition expected_columns :: "(string, string list) dict" where
  "expected_columns =
     [(''metadata'', [''key'', ''value'']),
      (''conversations'', [''conversation_id'', ''provider'', ''surface'', ''provider_conversation_id'', ''fingerprint'', ''payload_json'']),
      (''turns'', [''turn_id'', ''conversation_id'', ''idempotency_key'', ''fingerprint'', ''payload_json'']),
      (''runs'', [''run_id'', ''conversation_id'', ''turn_id'', ''idempotency_key'', ''provider'', ''surface'', ''provider_run_id'',
         ''fingerprint'', ''payload_json'']),
      (''events'', [''run_id'', ''sequence'', ''event_id'', ''provider_event_id'', ''fingerprint'', ''payload_json''])]"

definition create_table :: "string \<Rightarrow> (string, string list) dict \<Rightarrow> (string, string list) dict" where
  "create_table name cols = (if name \<in> set (keys cols) then cols else cols @ [(name, the (map_of expected_columns name))])"

text \<open>\<open>CREATE UNIQUE INDEX IF NOT EXISTS\<close> fails on missing columns and on duplicate keys.\<close>

definition create_index :: "string \<Rightarrow> string \<Rightarrow> string list \<Rightarrow> bool \<Rightarrow> (string, string list) dict \<Rightarrow> string list \<Rightarrow> (string list) option" where
  "create_index name table needed unique cols indexes =
     (if name \<in> set indexes then Some indexes
      else if set needed \<subseteq> set (the (map_of cols table)) \<and> unique then Some (indexes @ [name]) else None)"

definition provider_mappings_unique :: "lifecycle_db \<Rightarrow> bool" where
  "provider_mappings_unique db \<longleftrightarrow> distinct (map (\<lambda>x. (cv_provider x, cv_surface x, cv_provider_conversation_id x))
     (filter (\<lambda>x. cv_provider_conversation_id x \<noteq> None) (db_conversations db)))"

definition provider_runs_unique :: "lifecycle_db \<Rightarrow> bool" where
  "provider_runs_unique db \<longleftrightarrow> distinct (map (\<lambda>x. (ru_provider x, ru_surface x, ru_provider_run_id x))
     (filter (\<lambda>x. ru_provider_run_id x \<noteq> None) (db_runs db)))"

definition provider_events_unique :: "lifecycle_db \<Rightarrow> bool" where
  "provider_events_unique db \<longleftrightarrow> distinct (map (\<lambda>x. (ev_run_id x, ev_provider_event_id x))
     (filter (\<lambda>x. ev_provider_event_id x \<noteq> None) (db_events db)))"

definition foreign_key_check :: "lifecycle_db \<Rightarrow> bool" where
  "foreign_key_check db \<longleftrightarrow>
     list_all (\<lambda>t. tu_conversation_id t \<in> set (map cv_conversation_id (db_conversations db))) (db_turns db) \<and>
     list_all (\<lambda>r. ru_conversation_id r \<in> set (map cv_conversation_id (db_conversations db)) \<and>
       ru_turn_id r \<in> set (map tu_turn_id (db_turns db))) (db_runs db) \<and>
     list_all (\<lambda>e. ev_run_id e \<in> set (map ru_run_id (db_runs db))) (db_events db)"

fun verify_schema :: "(string, string list) dict \<Rightarrow> (string, string list) dict \<Rightarrow> store_error option" where
  "verify_schema [] cols = None"
| "verify_schema ((table, expected) # rest) cols =
     (if set (case map_of cols table of None \<Rightarrow> [] | Some cs \<Rightarrow> cs) \<noteq> set expected
        then Some (Store_corrupt (''unexpected lifecycle schema for table '' @ table))
      else verify_schema rest cols)"

definition create_indexes :: "(string, string list) dict \<Rightarrow> lifecycle_db \<Rightarrow> string list \<Rightarrow> string list option" where
  "create_indexes cols db ixs =
     (case create_index ''conversations_provider_mapping_unique'' ''conversations'' [''provider'', ''surface'', ''provider_conversation_id'']
         (provider_mappings_unique db) cols ixs of None \<Rightarrow> None
      | Some i1 \<Rightarrow>
     (case create_index ''runs_provider_mapping_unique'' ''runs'' [''provider'', ''surface'', ''provider_run_id'']
         (provider_runs_unique db) cols i1 of None \<Rightarrow> None
      | Some i2 \<Rightarrow> create_index ''events_provider_id_unique'' ''events'' [''run_id'', ''provider_event_id'']
         (provider_events_unique db) cols i2))"

definition initialize_tables :: "store_file \<Rightarrow> store_error + store_file" where
  "initialize_tables f =
     (let cols = fold create_table [''metadata'', ''conversations'', ''turns'', ''runs'', ''events''] (sf_columns f) in
      case create_indexes cols (sf_db f) (sf_indexes f) of
        None \<Rightarrow> Inl (Store_corrupt ''invalid or corrupt lifecycle event store'')
      | Some ixs \<Rightarrow> (case verify_schema expected_columns cols of Some e \<Rightarrow> Inl e
        | None \<Rightarrow> if \<not> foreign_key_check (sf_db f) then Inl (Store_corrupt ''SQLite foreign key check failed'')
            else Inr (f\<lparr>sf_columns := cols, sf_indexes := ixs, sf_version := Some ''1''\<rparr>)))"

text \<open>\<open>None\<close> from the quick check is a file that SQLite does not read as a database.\<close>

definition initialize :: "bool \<Rightarrow> store_file \<Rightarrow> store_error + store_file" where
  "initialize busy f =
     (if sf_quick_check f = None then Inl (Store_corrupt ''invalid or corrupt lifecycle event store'')
      else if sf_quick_check f \<noteq> Some True then Inl (Store_corrupt ''SQLite quick_check failed'')
      else if busy \<or> (case map_of (sf_columns f) ''metadata'' of None \<Rightarrow> False | Some cs \<Rightarrow> \<not> set [''key'', ''value''] \<subseteq> set cs)
        then Inl (Store_corrupt ''invalid or corrupt lifecycle event store'')
      else case sf_version f of
        None \<Rightarrow> initialize_tables f
      | Some v \<Rightarrow> if v \<noteq> ''1'' then Inl (Unsupported_schema_version (''unsupported lifecycle schema version: '' @ v))
          else initialize_tables f)"

text \<open>\<open>__init__\<close>: what the path is, then the database.\<close>

definition open_store :: "bool \<Rightarrow> bool \<Rightarrow> bool \<Rightarrow> bool \<Rightarrow> store_file \<Rightarrow> store_error + store_file" where
  "open_store exists is_symlink is_file busy f =
     (if exists \<and> (is_symlink \<or> \<not> is_file) then Inl (Store_error ''event store path must be a regular file'')
      else initialize busy f)"

end
