(* ===== verification/Tables.thy ===== *)
theory Tables
  imports Prelude
begin

text \<open>
  Database tables that encode lists of values: a row is written from a value and found by a key column, and
  a table of versions keeps every revision of a value beside the table of current ones. The stores interpret
  the locales for their tables.
\<close>

section \<open>Keyed tables\<close>

text \<open>A table whose rows are written from values and found by a key column.\<close>

locale keyed_table =
  fixes to_row :: "'m \<Rightarrow> 'row" and row_key :: "'row \<Rightarrow> 'k" and key :: "'m \<Rightarrow> 'k"
  assumes row_key_to_row: "row_key (to_row m) = key m"
begin

lemma row_keys: "map row_key (map to_row ms) = map key ms"
  by (simp add: row_key_to_row)

lemma find_row: "List.find (\<lambda>x. row_key x = k) (map to_row ms) = map_option to_row (List.find (\<lambda>m. key m = k) ms)"
  by (induction ms) (simp_all add: row_key_to_row)

lemma find_row_Some:
  "distinct (map key ms) \<Longrightarrow> m \<in> set ms \<Longrightarrow> key m = k \<Longrightarrow> List.find (\<lambda>x. row_key x = k) (map to_row ms) = Some (to_row m)"
  using find_by_id [of key ms m] by (simp add: find_row)

lemma find_row_cases:
  obtains "List.find (\<lambda>x. row_key x = k) (map to_row ms) = None" "k \<notin> key ` set ms"
  | m where "List.find (\<lambda>x. row_key x = k) (map to_row ms) = Some (to_row m)" "m \<in> set ms" "key m = k"
  by (cases "List.find (\<lambda>m. key m = k) ms") (auto simp: find_row find_None_iff dest: find_Some_in)

lemma find_row_reads:
  assumes "\<And>m. m \<in> set ms \<Longrightarrow> from_row (to_row m) = Inr m"
  obtains "List.find (\<lambda>x. row_key x = k) (map to_row ms) = None" "k \<notin> key ` set ms"
  | m where "List.find (\<lambda>x. row_key x = k) (map to_row ms) = Some (to_row m)" "m \<in> set ms" "key m = k" "from_row (to_row m) = Inr m"
proof (cases rule: find_row_cases [of k ms])
  case (2 m)
  then show ?thesis using that(2) [of m] assms [of m] by simp
qed (use that(1) in simp)

end

section \<open>Versions\<close>

text \<open>The versions recorded for a key, in the order they were recorded. A history is in order when each key has the
  revisions 1, 2, ... and a current value, which is the last of them, and each version follows from the earlier ones.\<close>

definition versions_of :: "('m \<Rightarrow> 'k) \<Rightarrow> 'k \<Rightarrow> 'm list \<Rightarrow> 'm list" where
  "versions_of ident k vs = filter (\<lambda>v. ident v = k) vs"

definition history_ok :: "('m \<Rightarrow> 'k) \<Rightarrow> ('m \<Rightarrow> int) \<Rightarrow> ('m \<Rightarrow> 'm \<Rightarrow> bool) \<Rightarrow> 'm list \<Rightarrow> 'm list \<Rightarrow> bool" where
  "history_ok ident revn follows heads vs \<longleftrightarrow>
     distinct (map ident heads) \<and> ident ` set vs = ident ` set heads \<and>
     (\<forall>k. map revn (versions_of ident k vs) = map int [1..<Suc (length (versions_of ident k vs))] \<and>
       sorted_wrt follows (versions_of ident k vs)) \<and>
     (\<forall>m \<in> set heads. versions_of ident (ident m) vs \<noteq> [] \<and> last (versions_of ident (ident m) vs) = m)"

definition put_head :: "('m \<Rightarrow> 'k) \<Rightarrow> 'm \<Rightarrow> 'm list \<Rightarrow> 'm list" where
  "put_head ident m heads = map (\<lambda>x. if ident x = ident m then m else x) heads"

lemma versions_of_append: "versions_of ident k (vs @ [m]) = versions_of ident k vs @ (if ident m = k then [m] else [])"
  by (simp add: versions_of_def)

lemma versions_of_empty: "versions_of ident k vs = [] \<longleftrightarrow> k \<notin> ident ` set vs"
  by (auto simp: versions_of_def filter_empty_conv)

lemma set_versions_of: "v \<in> set (versions_of ident k vs) \<longleftrightarrow> v \<in> set vs \<and> ident v = k"
  by (auto simp: versions_of_def)

lemma idents_put: "map ident (put_head ident m heads) = map ident heads"
  by (simp add: put_head_def)

lemma set_put: "x \<in> set (put_head ident m heads) \<Longrightarrow> x = m \<or> x \<in> set heads \<and> ident x \<noteq> ident m"
  by (auto simp: put_head_def split: if_splits)

lemma history_ok_register:
  assumes "history_ok ident revn follows heads vs" "ident m \<notin> ident ` set heads" "revn m = 1"
  shows "history_ok ident revn follows (heads @ [m]) (vs @ [m])"
proof -
  have e: "versions_of ident (ident m) vs = []" using assms(1,2) by (simp add: versions_of_empty history_ok_def)
  then show ?thesis using assms unfolding history_ok_def by (auto simp: versions_of_append)
qed

lemma head_versions:
  assumes "history_ok ident revn follows heads vs" "m \<in> set heads"
  shows "m \<in> set vs" "revn m = int (length (versions_of ident (ident m) vs))" "0 < length (versions_of ident (ident m) vs)"
proof -
  let ?vs = "versions_of ident (ident m) vs"
  have ne: "?vs \<noteq> []" "last ?vs = m" and rv: "map revn ?vs = map int [1..<Suc (length ?vs)]" using assms by (auto simp: history_ok_def)
  show "m \<in> set vs" using ne last_in_set [OF ne(1)] by (simp add: set_versions_of)
  show "0 < length ?vs" using ne(1) by simp
  have "revn m = last (map revn ?vs)" using ne by (simp add: last_map)
  then show "revn m = int (length ?vs)" unfolding rv using ne(1) by (simp add: Suc_le_eq)
qed

lemma history_ok_replace:
  assumes "history_ok ident revn follows heads vs" "old \<in> set heads" "ident old = ident m" "revn m = revn old + 1" "follows old m" "transp follows"
  shows "history_ok ident revn follows (put_head ident m heads) (vs @ [m])"
proof -
  let ?vs = "versions_of ident (ident m) vs"
  note h = head_versions [OF assms(1,2), unfolded assms(3)]
  have last: "last ?vs = old" "?vs \<noteq> []" and sw: "sorted_wrt follows ?vs" using assms(1-3) by (auto simp: history_ok_def)
  have "follows v m" if "v \<in> set ?vs" for v
  proof -
    have "?vs = butlast ?vs @ [old]" using last by (metis append_butlast_last_id)
    then have "v = old \<or> follows v old" using that sw by (metis sorted_wrt_append Un_iff empty_iff empty_set list.set_intros(1) set_ConsD set_append)
    then show ?thesis using assms(5,6) by (auto dest: transpD)
  qed
  moreover have "ident m \<in> ident ` set heads" using assms(2,3) by (metis imageI)
  moreover have "m \<in> set (put_head ident m heads)" using assms(2,3) by (auto simp: put_head_def image_iff)
  moreover have "ident ` set (put_head ident m heads) = ident ` set heads" using idents_put by (metis list.set_map)
  ultimately show ?thesis using assms h last unfolding history_ok_def
    by (auto simp: versions_of_append idents_put sorted_wrt_append insert_absorb dest: set_put)
qed

lemma version_unique:
  assumes "history_ok ident revn follows heads vs" "v \<in> set vs" "w \<in> set vs" "ident v = ident w" "revn v = revn w"
  shows "v = w"
proof -
  let ?vs = "versions_of ident (ident w) vs"
  have "distinct (map revn ?vs)" using assms(1) by (simp add: history_ok_def distinct_map del: upt_Suc)
  then show ?thesis using assms(2-5) by (metis distinct_map inj_onD set_versions_of)
qed

lemma version_le_head:
  assumes "history_ok ident revn follows heads vs" "m \<in> set heads" "v \<in> set vs" "ident v = ident m"
  shows "revn v \<le> revn m"
proof -
  let ?vs = "versions_of ident (ident m) vs"
  have "v \<in> set ?vs" using assms(3,4) by (simp add: set_versions_of)
  then have "revn v \<in> set (map revn ?vs)" by simp
  also have "map revn ?vs = map int [1..<Suc (length ?vs)]" using assms(1) by (simp add: history_ok_def)
  finally show ?thesis using head_versions(2) [OF assms(1,2)] by auto
qed

end
