(* ===== verification/Store_Refinement.thy ===== *)
theory Store_Refinement
  imports Event_Store Tables
begin

text \<open>
  What the lifecycle event store promises: its tables are the encoding of lists of valid values
  (\<open>lifecycle_data\<close>), every operation works on that abstract content, and \<open>append_event\<close> implements the
  transition function of the life cycle on the state that \<open>replay\<close> computes.
\<close>

section \<open>Abstract content\<close>

record lifecycle_data =
  ld_conversations :: "conversation_handle list"
  ld_turns :: "committed_turn list"
  ld_runs :: "provider_run list"
  ld_events :: "lifecycle_event list"

definition encode :: "codec \<Rightarrow> lifecycle_data \<Rightarrow> lifecycle_db" where
  "encode cd A = \<lparr>db_conversations = map (conversation_to_row cd) (ld_conversations A), db_turns = map (turn_to_row cd) (ld_turns A),
     db_runs = map (run_to_row cd) (ld_runs A), db_events = map (event_to_row cd) (ld_events A)\<rparr>"

definition events_of :: "lifecycle_data \<Rightarrow> string \<Rightarrow> lifecycle_event list" where
  "events_of A k = filter (\<lambda>e. le_run_id e = k) (ld_events A)"

definition turn_belongs :: "committed_turn \<Rightarrow> conversation_handle \<Rightarrow> bool" where
  "turn_belongs t c \<longleftrightarrow> ct_conversation_id t = ch_conversation_id c \<and> ap_agent_id (ct_principal t) = ch_created_by_agent c \<and>
     ch_created_at c \<le> ct_committed_at t"

definition run_belongs :: "provider_run \<Rightarrow> committed_turn \<Rightarrow> conversation_handle \<Rightarrow> bool" where
  "run_belongs r t c \<longleftrightarrow> pr_turn_id r = ct_turn_id t \<and> pr_conversation_id r = ch_conversation_id c \<and> check_run r c t = None"

definition run_events_ok :: "(lifecycle_event \<Rightarrow> string) \<Rightarrow> lifecycle_data \<Rightarrow> provider_run \<Rightarrow> bool" where
  "run_events_ok fp A r \<longleftrightarrow>
     map le_sequence (events_of A (pr_run_id r)) = map int [1..<Suc (length (events_of A (pr_run_id r)))] \<and>
     is_ok (apply_events fp (initial_run_state r) (events_of A (pr_run_id r)))"

definition values_ok :: "lifecycle_data \<Rightarrow> bool" where
  "values_ok A \<longleftrightarrow>
     list_all conversation_handle_valid (ld_conversations A) \<and> distinct (map ch_conversation_id (ld_conversations A)) \<and>
     list_all committed_turn_valid (ld_turns A) \<and> distinct (map ct_turn_id (ld_turns A)) \<and>
     distinct (map ct_idempotency_key (ld_turns A)) \<and>
     list_all provider_run_valid (ld_runs A) \<and> distinct (map pr_run_id (ld_runs A)) \<and> distinct (map pr_turn_id (ld_runs A)) \<and>
     list_all lifecycle_event_valid (ld_events A) \<and> distinct (map le_event_id (ld_events A))"

definition references_ok :: "lifecycle_data \<Rightarrow> bool" where
  "references_ok A \<longleftrightarrow>
     (\<forall>t \<in> set (ld_turns A). \<exists>c \<in> set (ld_conversations A). turn_belongs t c) \<and>
     (\<forall>r \<in> set (ld_runs A). \<exists>t \<in> set (ld_turns A). \<exists>c \<in> set (ld_conversations A). run_belongs r t c) \<and>
     (\<forall>e \<in> set (ld_events A). le_run_id e \<in> pr_run_id ` set (ld_runs A))"

definition data_ok :: "(lifecycle_event \<Rightarrow> string) \<Rightarrow> lifecycle_data \<Rightarrow> bool" where
  "data_ok fp A \<longleftrightarrow> values_ok A \<and> references_ok A \<and> (\<forall>r \<in> set (ld_runs A). run_events_ok fp A r)"

section \<open>Encoded tables\<close>

interpretation conversations: keyed_table "conversation_to_row cd" cv_conversation_id ch_conversation_id for cd
  by unfold_locales (simp add: conversation_to_row_def)

interpretation turns: keyed_table "turn_to_row cd" tu_turn_id ct_turn_id for cd
  by unfold_locales (simp add: turn_to_row_def)

interpretation runs: keyed_table "run_to_row cd" ru_run_id pr_run_id for cd
  by unfold_locales (simp add: run_to_row_def)

interpretation events: keyed_table "event_to_row cd" "\<lambda>x. (ev_run_id x, ev_sequence x)" "\<lambda>e. (le_run_id e, le_sequence e)" for cd
  by unfold_locales (simp add: event_to_row_def)

lemma validate_payload_dump:
  "payload_ok valid dump parse \<Longrightarrow> valid m \<Longrightarrow> validate_payload cd name dump parse (dump m) (fingerprint cd (dump m)) = Inr m"
  by (simp add: payload_ok_def validate_payload_def)

lemma conversation_from_to_row: "codec_ok cd \<Longrightarrow> conversation_handle_valid c \<Longrightarrow> conversation_from_row cd (conversation_to_row cd c) = Inr c"
  by (simp add: codec_ok_def conversation_from_row_def conversation_to_row_def validate_payload_dump [of conversation_handle_valid])

lemma turn_from_to_row: "codec_ok cd \<Longrightarrow> committed_turn_valid t \<Longrightarrow> turn_from_row cd (turn_to_row cd t) = Inr t"
  by (simp add: codec_ok_def turn_from_row_def turn_to_row_def validate_payload_dump [of committed_turn_valid])

lemma run_from_to_row: "codec_ok cd \<Longrightarrow> provider_run_valid r \<Longrightarrow> run_from_row cd (run_to_row cd r) = Inr r"
  by (simp add: codec_ok_def run_from_row_def run_to_row_def validate_payload_dump [of provider_run_valid])

lemma event_from_to_row: "codec_ok cd \<Longrightarrow> lifecycle_event_valid e \<Longrightarrow> event_from_row cd (event_to_row cd e) = Inr e"
  by (simp add: codec_ok_def payload_ok_def event_from_row_def event_to_row_def lifecycle_event_fingerprint_def)

lemmas from_to_row = conversation_from_to_row turn_from_to_row run_from_to_row event_from_to_row

lemma row_fingerprints [simp]:
  "cv_fingerprint (conversation_to_row cd c) = fingerprint cd (dump_conversation cd c)"
  "tu_fingerprint (turn_to_row cd t) = fingerprint cd (dump_turn cd t)"
  "ru_fingerprint (run_to_row cd r) = fingerprint cd (dump_run cd r)"
  "ev_fingerprint (event_to_row cd e) = lifecycle_event_fingerprint cd e"
  by (simp_all add: conversation_to_row_def turn_to_row_def run_to_row_def event_to_row_def)

lemma duplicate_known:
  "duplicate m (f m) (f s) conflict (Inr s) db =
     (if s = m then Inr (Duplicate, db) else Inl (Lifecycle_failure (Event_conflict conflict)))"
  by (simp add: duplicate_def)

lemma read_rows_encoded:
  "codec_ok cd \<Longrightarrow> list_all lifecycle_event_valid es \<Longrightarrow> read_rows cd (map (event_to_row cd) es) = Inr es"
  by (induction es) (simp_all add: event_from_to_row)

lemma apply_rows_encoded:
  "codec_ok cd \<Longrightarrow> list_all lifecycle_event_valid es \<Longrightarrow> apply_rows cd st (map (event_to_row cd) es) =
     (case apply_events (lifecycle_event_fingerprint cd) st es of
        Inl _ \<Rightarrow> Inl (Store_corrupt ''persisted lifecycle events contain an invalid transition'') | Inr st' \<Rightarrow> Inr st')"
  by (induction es arbitrary: st) (auto simp: event_from_to_row split: sum.splits)

lemma select_events_encoded:
  assumes "map le_sequence (events_of A k) = map int [1..<Suc (length (events_of A k))]"
  shows "select_events k (encode cd A) = map (event_to_row cd) (events_of A k)"
proof -
  have f: "filter (\<lambda>x. ev_run_id x = k) (map (event_to_row cd) (ld_events A)) = map (event_to_row cd) (events_of A k)"
    by (simp add: filter_map o_def events_of_def event_to_row_def)
  have "map ev_sequence (map (event_to_row cd) (events_of A k)) = map le_sequence (events_of A k)"
    by (simp add: event_to_row_def)
  also have "sorted \<dots>" unfolding assms by (simp add: sorted_map del: upt_Suc)
  finally have "sorted (map ev_sequence (map (event_to_row cd) (events_of A k)))" .
  then show ?thesis unfolding select_events_def by (simp add: encode_def f sort_key_id_if_sorted)
qed


section \<open>The operations on encoded content\<close>

lemma encode_simps [simp]:
  "db_conversations (encode cd A) = map (conversation_to_row cd) (ld_conversations A)"
  "db_turns (encode cd A) = map (turn_to_row cd) (ld_turns A)"
  "db_runs (encode cd A) = map (run_to_row cd) (ld_runs A)"
  "db_events (encode cd A) = map (event_to_row cd) (ld_events A)"
  by (simp_all add: encode_def)

lemma encode_updates:
  "(encode cd A)\<lparr>db_conversations := map (conversation_to_row cd) cs\<rparr> = encode cd (A\<lparr>ld_conversations := cs\<rparr>)"
  "(encode cd A)\<lparr>db_turns := map (turn_to_row cd) ts\<rparr> = encode cd (A\<lparr>ld_turns := ts\<rparr>)"
  "(encode cd A)\<lparr>db_runs := map (run_to_row cd) rs\<rparr> = encode cd (A\<lparr>ld_runs := rs\<rparr>)"
  "(encode cd A)\<lparr>db_events := map (event_to_row cd) es\<rparr> = encode cd (A\<lparr>ld_events := es\<rparr>)"
  by (simp_all add: encode_def)

lemma insert_conversation_encoded:
  assumes "ch_conversation_id c \<notin> ch_conversation_id ` set (ld_conversations A)"
    "\<not> (ch_provider_conversation_id c \<noteq> None \<and> list_ex (\<lambda>x. cv_provider x = ch_provider c \<and> cv_surface x = ch_surface c \<and>
       cv_provider_conversation_id x = ch_provider_conversation_id c) (db_conversations (encode cd A)))"
  shows "insert_conversation (conversation_to_row cd c) (encode cd A) =
    Inr (Appended, encode cd (A\<lparr>ld_conversations := ld_conversations A @ [c]\<rparr>))"
  using assms encode_updates(1) [where cs = "ld_conversations A @ [c]"]
  by (auto simp: insert_conversation_def conversations.row_key_to_row list_ex_iff image_iff)
    (auto simp: conversation_to_row_def)

text \<open>A store operation on encoded content appends one value, finds it already there, or refuses and changes nothing;
  the table constraints never fail behind the checks of the code.\<close>

definition outcome :: "codec \<Rightarrow> lifecycle_data \<Rightarrow> bool \<Rightarrow> bool \<Rightarrow> lifecycle_data \<Rightarrow> (store_error + append_result) \<times> lifecycle_db \<Rightarrow> bool" where
  "outcome cd A new known A' r =
     (case r of
        (Inr Appended, db') \<Rightarrow> new \<and> db' = encode cd A'
      | (Inr Duplicate, db') \<Rightarrow> known \<and> db' = encode cd A
      | (Inl e, db') \<Rightarrow> e \<noteq> Integrity_error \<and> db' = encode cd A)"

lemma outcome_transaction:
  "outcome cd A new known A' (in_transaction busy body (encode cd A)) \<longleftrightarrow>
     busy \<or> (case body (encode cd A) of Inl e \<Rightarrow> e \<noteq> Integrity_error
       | Inr (Appended, db') \<Rightarrow> new \<and> db' = encode cd A' | Inr (Duplicate, db') \<Rightarrow> known \<and> db' = encode cd A)"
  by (auto simp: outcome_def in_transaction_def split: sum.splits append_result.splits)

lemma rows_read:
  assumes "codec_ok cd" "values_ok A"
  shows "c \<in> set (ld_conversations A) \<Longrightarrow> conversation_from_row cd (conversation_to_row cd c) = Inr c"
    "t \<in> set (ld_turns A) \<Longrightarrow> turn_from_row cd (turn_to_row cd t) = Inr t"
    "r \<in> set (ld_runs A) \<Longrightarrow> run_from_row cd (run_to_row cd r) = Inr r"
    "e \<in> set (ld_events A) \<Longrightarrow> event_from_row cd (event_to_row cd e) = Inr e"
  using assms by (auto simp: values_ok_def list_all_iff intro: from_to_row)

lemma select_conversation_cases:
  assumes "codec_ok cd" "values_ok A"
  obtains "select_conversation k (encode cd A) = None" "k \<notin> ch_conversation_id ` set (ld_conversations A)"
  | c where "select_conversation k (encode cd A) = Some (conversation_to_row cd c)" "c \<in> set (ld_conversations A)"
    "ch_conversation_id c = k" "conversation_from_row cd (conversation_to_row cd c) = Inr c"
  using that rows_read(1) [OF assms]
  by (elim conversations.find_row_reads [where from_row = "conversation_from_row cd" and k = k]) (auto simp: select_conversation_def)

lemma select_turn_cases:
  assumes "codec_ok cd" "values_ok A"
  obtains "select_turn k (encode cd A) = None" "k \<notin> ct_turn_id ` set (ld_turns A)"
  | t where "select_turn k (encode cd A) = Some (turn_to_row cd t)" "t \<in> set (ld_turns A)"
    "ct_turn_id t = k" "turn_from_row cd (turn_to_row cd t) = Inr t"
  using that rows_read(2) [OF assms]
  by (elim turns.find_row_reads [where from_row = "turn_from_row cd" and k = k]) (auto simp: select_turn_def)

lemma select_run_cases:
  assumes "codec_ok cd" "values_ok A"
  obtains "select_run k (encode cd A) = None" "k \<notin> pr_run_id ` set (ld_runs A)"
  | r where "select_run k (encode cd A) = Some (run_to_row cd r)" "r \<in> set (ld_runs A)"
    "pr_run_id r = k" "run_from_row cd (run_to_row cd r) = Inr r"
  using that rows_read(3) [OF assms]
  by (elim runs.find_row_reads [where from_row = "run_from_row cd" and k = k]) (auto simp: select_run_def)

lemma select_event_cases:
  assumes "codec_ok cd" "values_ok A"
  obtains "select_event k n (encode cd A) = None" "(k, n) \<notin> (\<lambda>e. (le_run_id e, le_sequence e)) ` set (ld_events A)"
  | e where "select_event k n (encode cd A) = Some (event_to_row cd e)" "e \<in> set (ld_events A)"
    "le_run_id e = k" "le_sequence e = n" "event_from_row cd (event_to_row cd e) = Inr e"
  using that rows_read(4) [OF assms]
  by (elim events.find_row_reads [where from_row = "event_from_row cd" and k = "(k, n)"]) (auto simp: select_event_def)

lemma register_conversation_outcome:
  assumes "codec_ok cd" "values_ok A" "conversation_handle_valid c"
  shows "outcome cd A (ch_conversation_id c \<notin> ch_conversation_id ` set (ld_conversations A)) (c \<in> set (ld_conversations A))
    (A\<lparr>ld_conversations := ld_conversations A @ [c]\<rparr>) (register_conversation cd busy c (encode cd A))"
proof (cases rule: select_conversation_cases [OF assms(1,2), of "ch_conversation_id c"])
  case 1
  then show ?thesis using insert_conversation_encoded [of c A cd]
    by (simp add: register_conversation_def outcome_transaction)
next
  case (2 m)
  then show ?thesis by (auto simp: register_conversation_def outcome_transaction duplicate_def)
qed

lemma insert_turn_encoded:
  assumes "ct_turn_id t \<notin> ct_turn_id ` set (ld_turns A)" "ct_conversation_id t \<in> ch_conversation_id ` set (ld_conversations A)"
    "\<not> list_ex (\<lambda>x. tu_idempotency_key x = ct_idempotency_key t) (db_turns (encode cd A))"
  shows "ct_idempotency_key t \<notin> ct_idempotency_key ` set (ld_turns A)"
    "insert_turn (turn_to_row cd t) (encode cd A) = Inr (Appended, encode cd (A\<lparr>ld_turns := ld_turns A @ [t]\<rparr>))"
proof -
  show "ct_idempotency_key t \<notin> ct_idempotency_key ` set (ld_turns A)"
    using assms(3) by (auto simp: list_ex_iff turn_to_row_def)
  then show "insert_turn (turn_to_row cd t) (encode cd A) = Inr (Appended, encode cd (A\<lparr>ld_turns := ld_turns A @ [t]\<rparr>))"
    using assms(1,2) encode_updates(2) [where ts = "ld_turns A @ [t]"]
    by (auto simp: insert_turn_def turn_to_row_def conversation_to_row_def image_iff)
qed

lemma register_turn_outcome:
  assumes "codec_ok cd" "values_ok A"
  shows "outcome cd A (ct_turn_id t \<notin> ct_turn_id ` set (ld_turns A) \<and> ct_idempotency_key t \<notin> ct_idempotency_key ` set (ld_turns A) \<and>
      (\<exists>c \<in> set (ld_conversations A). turn_belongs t c)) (t \<in> set (ld_turns A))
    (A\<lparr>ld_turns := ld_turns A @ [t]\<rparr>) (register_turn cd busy t (encode cd A))"
proof (cases rule: select_conversation_cases [OF assms, of "ct_conversation_id t"])
  case 1
  then show ?thesis by (simp add: register_turn_def outcome_transaction)
next
  case (2 c)
  note c = this
  show ?thesis
  proof (cases rule: select_turn_cases [OF assms, of "ct_turn_id t"])
    case 1
    have "ct_conversation_id t \<in> ch_conversation_id ` set (ld_conversations A)" using c(2,3) by (metis imageI)
    then show ?thesis using 1 c insert_turn_encoded [OF 1(2), of cd]
      by (auto simp: register_turn_def outcome_transaction turn_belongs_def intro!: bexI [of _ c])
  next
    case (2 s)
    then show ?thesis using c by (auto simp: register_turn_def outcome_transaction duplicate_def)
  qed
qed


lemma insert_run_encoded:
  assumes "pr_run_id r \<notin> pr_run_id ` set (ld_runs A)" "pr_conversation_id r \<in> ch_conversation_id ` set (ld_conversations A)"
    "pr_turn_id r \<in> ct_turn_id ` set (ld_turns A)"
    "\<not> list_ex (\<lambda>x. ru_turn_id x = pr_turn_id r \<or> ru_idempotency_key x = pr_idempotency_key r) (db_runs (encode cd A))"
    "\<not> (pr_provider_run_id r \<noteq> None \<and> list_ex (\<lambda>x. ru_provider x = pr_provider r \<and> ru_surface x = pr_surface r \<and>
       ru_provider_run_id x = pr_provider_run_id r) (db_runs (encode cd A)))"
  shows "pr_turn_id r \<notin> pr_turn_id ` set (ld_runs A)"
    "insert_run (run_to_row cd r) (encode cd A) = Inr (Appended, encode cd (A\<lparr>ld_runs := ld_runs A @ [r]\<rparr>))"
proof -
  have fresh: "pr_turn_id r \<notin> pr_turn_id ` set (ld_runs A)" "pr_idempotency_key r \<notin> pr_idempotency_key ` set (ld_runs A)"
    using assms(4) by (auto simp: list_ex_iff run_to_row_def)
  then show "pr_turn_id r \<notin> pr_turn_id ` set (ld_runs A)"
    "insert_run (run_to_row cd r) (encode cd A) = Inr (Appended, encode cd (A\<lparr>ld_runs := ld_runs A @ [r]\<rparr>))"
    using assms(1,2,3,5) encode_updates(3) [where rs = "ld_runs A @ [r]"]
    by (auto simp: insert_run_def run_to_row_def conversation_to_row_def turn_to_row_def image_iff)
qed

lemma bind_run_outcome:
  assumes "codec_ok cd" "values_ok A" "pr_conversation_id r \<in> ch_conversation_id ` set (ld_conversations A)"
    "pr_turn_id r \<in> ct_turn_id ` set (ld_turns A)"
  shows "case bind_run cd r (encode cd A) of Inl e \<Rightarrow> e \<noteq> Integrity_error
    | Inr (Appended, db') \<Rightarrow> (pr_run_id r \<notin> pr_run_id ` set (ld_runs A) \<and> pr_turn_id r \<notin> pr_turn_id ` set (ld_runs A)) \<and>
        db' = encode cd (A\<lparr>ld_runs := ld_runs A @ [r]\<rparr>)
    | Inr (Duplicate, db') \<Rightarrow> r \<in> set (ld_runs A) \<and> db' = encode cd A"
proof (cases rule: select_run_cases [OF assms(1,2), of "pr_run_id r"])
  case 1
  show ?thesis using 1 insert_run_encoded [OF 1(2) assms(3,4), of cd] by (auto simp: bind_run_def simp del: encode_simps)
next
  case (2 s)
  then show ?thesis by (auto simp: bind_run_def duplicate_def)
qed

lemma register_run_outcome:
  assumes "codec_ok cd" "values_ok A"
  shows "outcome cd A (pr_run_id r \<notin> pr_run_id ` set (ld_runs A) \<and> pr_turn_id r \<notin> pr_turn_id ` set (ld_runs A) \<and>
      (\<exists>t \<in> set (ld_turns A). \<exists>c \<in> set (ld_conversations A). run_belongs r t c)) (r \<in> set (ld_runs A))
    (A\<lparr>ld_runs := ld_runs A @ [r]\<rparr>) (register_run cd busy r (encode cd A))"
proof (cases rule: select_conversation_cases [OF assms, of "pr_conversation_id r"])
  case 1
  then show ?thesis by (simp add: register_run_def outcome_transaction)
next
  case (2 c)
  note c = this
  show ?thesis
  proof (cases rule: select_turn_cases [OF assms, of "pr_turn_id r"])
    case 1
    then show ?thesis using c by (simp add: register_run_def outcome_transaction)
  next
    case (2 t)
    have "pr_conversation_id r \<in> ch_conversation_id ` set (ld_conversations A)" "pr_turn_id r \<in> ct_turn_id ` set (ld_turns A)"
      using c(2,3) 2(2,3) by (metis imageI)+
    note b = bind_run_outcome [OF assms this]
    have e: "e \<noteq> Integrity_error" if "check_run r c t = Some e" for e using that by (auto simp: check_run_def split: if_splits)
    have "run_belongs r t c" if "check_run r c t = None" using that c 2 by (simp add: run_belongs_def)
    then show ?thesis using b c 2 e
      by (auto simp: register_run_def outcome_transaction split: option.splits sum.splits append_result.splits)
  qed
qed


section \<open>Appending events\<close>

lemma events_of_valid: "values_ok A \<Longrightarrow> list_all lifecycle_event_valid (events_of A k)"
  by (auto simp: values_ok_def events_of_def list_all_iff)

lemma replay_encoded:
  assumes "codec_ok cd" "data_ok (lifecycle_event_fingerprint cd) A" "r \<in> set (ld_runs A)"
  obtains st where "apply_events (lifecycle_event_fingerprint cd) (initial_run_state r) (events_of A (pr_run_id r)) = Inr st"
    "replay cd (pr_run_id r) (encode cd A) = Inr st"
    "apply_rows cd (initial_run_state r) (select_events (pr_run_id r) (encode cd A)) = Inr st"
proof -
  let ?es = "events_of A (pr_run_id r)"
  have v: "values_ok A" and seq: "map le_sequence ?es = map int [1..<Suc (length ?es)]"
    and ok: "is_ok (apply_events (lifecycle_event_fingerprint cd) (initial_run_state r) ?es)"
    using assms(2,3) by (auto simp: data_ok_def run_events_ok_def)
  from ok obtain st where st: "apply_events (lifecycle_event_fingerprint cd) (initial_run_state r) ?es = Inr st"
    by (auto simp: is_ok_iff)
  have "select_run (pr_run_id r) (encode cd A) = Some (run_to_row cd r)"
    using v assms(3) by (simp add: select_run_def values_ok_def runs.find_row_Some)
  then have "load_run cd (pr_run_id r) (encode cd A) = Inr r"
    using rows_read(3) [OF assms(1) v assms(3)] by (simp add: load_run_def)
  then show ?thesis using that [OF st] st
    by (simp add: replay_def load_events_def select_events_encoded [OF seq] read_rows_encoded [OF assms(1) events_of_valid [OF v]]
        apply_rows_encoded [OF assms(1) events_of_valid [OF v]])
qed

lemma replay_unknown:
  assumes "k \<notin> pr_run_id ` set (ld_runs A)"
  shows "replay cd k (encode cd A) = Inl (Key_error k)"
  using assms by (cases rule: runs.find_row_cases [of k cd "ld_runs A"])
    (auto simp: replay_def load_run_def select_run_def)

lemma last_sequence_events:
  assumes "apply_events fp (initial_run_state r) es = Inr st" "map le_sequence es = map int [1..<Suc (length es)]"
  shows "rs_last_sequence st = int (length es)"
proof -
  have ok: "run_ok st" by (rule apply_events_ok [OF assms(1) run_ok_initial])
  have "set (map re_sequence (rs_applied st)) = re_sequence ` receipt_of fp ` set es"
    using apply_events_receipts [OF assms(1)] by (simp add: initial_run_state_def)
  also have "\<dots> = set (map le_sequence es)" by (simp add: image_image receipt_of_def)
  finally have "int ` {1..<Suc (length (rs_applied st))} = int ` {1..<Suc (length es)}"
    using ok unfolding assms(2) run_ok_def by (metis list.set_map set_upt)
  then have "card {1..<Suc (length (rs_applied st))} = card {1..<Suc (length es)}"
    by (metis card_image inj_on_of_nat)
  then show ?thesis using ok by (simp add: run_ok_def)
qed

text \<open>An event whose place in the run is free and that the life cycle accepts is the next one.\<close>

lemma accepted_is_next:
  assumes "apply_events fp (initial_run_state r) (events_of A (pr_run_id r)) = Inr st" "run_events_ok fp A r"
    "apply_lifecycle_event fp st e = Inr st'" "lifecycle_event_valid e"
    "(le_run_id e, le_sequence e) \<notin> (\<lambda>e. (le_run_id e, le_sequence e)) ` set (ld_events A)" "le_run_id e = pr_run_id r"
  shows "le_sequence e = int (length (events_of A (pr_run_id r))) + 1"
proof -
  let ?es = "events_of A (pr_run_id r)"
  have seq: "map le_sequence ?es = map int [1..<Suc (length ?es)]" using assms(2) by (simp add: run_events_ok_def)
  have "le_sequence e \<notin> set (map le_sequence ?es)" using assms(5,6) by (auto simp: events_of_def image_iff)
  then have "le_sequence e \<notin> int ` {1..<Suc (length ?es)}" unfolding seq by (simp del: upt_Suc)
  moreover have "1 \<le> le_sequence e" using assms(4) by (simp add: lifecycle_event_valid_def)
  then have "le_sequence e = int (nat (le_sequence e))" "nat (le_sequence e) \<ge> 1" by simp_all
  ultimately have "\<not> nat (le_sequence e) < Suc (length ?es)" by (metis atLeastLessThan_iff image_eqI)
  then have "int (length ?es) < le_sequence e" by linarith
  then have "\<not> le_sequence e \<le> rs_last_sequence st" using last_sequence_events [OF assms(1) seq] by simp
  with assms(3) obtain st1 where "admit_event st e = None" by (rule apply_new)
  then show ?thesis using admit_event_ok last_sequence_events [OF assms(1) seq] by simp
qed

lemma insert_event_encoded:
  assumes "lifecycle_event_valid e" "le_run_id e \<in> pr_run_id ` set (ld_runs A)"
    "(le_run_id e, le_sequence e) \<notin> (\<lambda>e. (le_run_id e, le_sequence e)) ` set (ld_events A)"
    "\<not> list_ex (\<lambda>x. ev_event_id x = le_event_id e) (db_events (encode cd A))"
    "\<not> (le_provider_event_id e \<noteq> None \<and>
        list_ex (\<lambda>x. ev_run_id x = le_run_id e \<and> ev_provider_event_id x = le_provider_event_id e) (db_events (encode cd A)))"
  shows "le_event_id e \<notin> le_event_id ` set (ld_events A)"
    "insert_event (event_to_row cd e) (encode cd A) = Inr (Appended, encode cd (A\<lparr>ld_events := ld_events A @ [e]\<rparr>))"
proof -
  have fresh: "le_event_id e \<notin> le_event_id ` set (ld_events A)" using assms(4) by (auto simp: list_ex_iff event_to_row_def)
  then show "le_event_id e \<notin> le_event_id ` set (ld_events A)"
    "insert_event (event_to_row cd e) (encode cd A) = Inr (Appended, encode cd (A\<lparr>ld_events := ld_events A @ [e]\<rparr>))"
    using assms(1,2,3,5) encode_updates(4) [where es = "ld_events A @ [e]"]
    by (auto simp: insert_event_def event_to_row_def run_to_row_def image_iff lifecycle_event_valid_def list_ex_iff)
qed


definition next_event :: "(lifecycle_event \<Rightarrow> string) \<Rightarrow> lifecycle_data \<Rightarrow> lifecycle_event \<Rightarrow> provider_run \<Rightarrow> run_state \<Rightarrow> run_state \<Rightarrow> bool" where
  "next_event fp A e r st st' \<longleftrightarrow> r \<in> set (ld_runs A) \<and> pr_run_id r = le_run_id e \<and> le_event_id e \<notin> le_event_id ` set (ld_events A) \<and>
     apply_events fp (initial_run_state r) (events_of A (le_run_id e)) = Inr st \<and> apply_lifecycle_event fp st e = Inr st' \<and>
     le_sequence e = int (length (events_of A (le_run_id e))) + 1"

lemma append_new_outcome:
  assumes "codec_ok cd" "data_ok (lifecycle_event_fingerprint cd) A" "lifecycle_event_valid e"
    "r \<in> set (ld_runs A)" "pr_run_id r = le_run_id e"
    "(le_run_id e, le_sequence e) \<notin> (\<lambda>e. (le_run_id e, le_sequence e)) ` set (ld_events A)"
  shows "case append_new cd r e (encode cd A) of Inl err \<Rightarrow> err \<noteq> Integrity_error
    | Inr (Appended, db') \<Rightarrow> (\<exists>st st'. next_event (lifecycle_event_fingerprint cd) A e r st st') \<and>
        db' = encode cd (A\<lparr>ld_events := ld_events A @ [e]\<rparr>)
    | Inr (Duplicate, db') \<Rightarrow> False"
proof -
  let ?fp = "lifecycle_event_fingerprint cd"
  obtain st where st: "apply_events ?fp (initial_run_state r) (events_of A (pr_run_id r)) = Inr st"
    "apply_rows cd (initial_run_state r) (select_events (le_run_id e) (encode cd A)) = Inr st"
    using replay_encoded [OF assms(1,2,4)] assms(5) by metis
  have ok: "run_events_ok ?fp A r" using assms(2,4) by (simp add: data_ok_def)
  have run: "le_run_id e \<in> pr_run_id ` set (ld_runs A)" using assms(4,5) by (metis imageI)
  have "\<exists>st st'. next_event ?fp A e r st st'"
    if "apply_lifecycle_event ?fp st e = Inr st'" "le_event_id e \<notin> le_event_id ` set (ld_events A)" for st'
    using that accepted_is_next [OF st(1) ok that(1) assms(3,6) assms(5) [symmetric]] st(1) assms(4,5)
    by (auto simp: next_event_def)
  then show ?thesis using insert_event_encoded [OF assms(3) run assms(6), of cd] st(2)
    by (auto simp: append_new_def simp del: encode_simps split: sum.splits)
qed

lemma append_event_outcome:
  assumes "codec_ok cd" "data_ok (lifecycle_event_fingerprint cd) A" "lifecycle_event_valid e"
  shows "outcome cd A (\<exists>r st st'. next_event (lifecycle_event_fingerprint cd) A e r st st') (e \<in> set (ld_events A))
    (A\<lparr>ld_events := ld_events A @ [e]\<rparr>) (append_event cd busy e (encode cd A))"
proof -
  have v: "values_ok A" using assms(2) by (simp add: data_ok_def)
  show ?thesis
  proof (cases rule: select_run_cases [OF assms(1) v, of "le_run_id e"])
    case 1
    then show ?thesis by (simp add: append_event_def outcome_transaction)
  next
    case (2 r)
    note r = this
    show ?thesis
    proof (cases rule: select_event_cases [OF assms(1) v, of "le_run_id e" "le_sequence e"])
      case 1
      then show ?thesis using r append_new_outcome [OF assms r(2,3) 1(2)]
        by (auto simp: append_event_def outcome_transaction split: sum.splits append_result.splits)
    next
      case (2 x)
      then show ?thesis using r by (auto simp: append_event_def outcome_transaction duplicate_def)
    qed
  qed
qed

section \<open>The invariant\<close>

text \<open>Each kind of value that the operations append keeps the invariant.\<close>

lemma data_ok_conversation [wf_intros]:
  assumes "data_ok fp A" "conversation_handle_valid c" "ch_conversation_id c \<notin> ch_conversation_id ` set (ld_conversations A)"
  shows "data_ok fp (A\<lparr>ld_conversations := ld_conversations A @ [c]\<rparr>)"
  using assms by (auto simp: data_ok_def values_ok_def references_ok_def run_events_ok_def events_of_def) blast+

lemma data_ok_turn [wf_intros]:
  assumes "data_ok fp A" "committed_turn_valid t" "ct_turn_id t \<notin> ct_turn_id ` set (ld_turns A)"
    "ct_idempotency_key t \<notin> ct_idempotency_key ` set (ld_turns A)" "\<exists>c \<in> set (ld_conversations A). turn_belongs t c"
  shows "data_ok fp (A\<lparr>ld_turns := ld_turns A @ [t]\<rparr>)"
  using assms by (auto simp: data_ok_def values_ok_def references_ok_def run_events_ok_def events_of_def)

lemma events_of_unregistered: "references_ok A \<Longrightarrow> k \<notin> pr_run_id ` set (ld_runs A) \<Longrightarrow> events_of A k = []"
  by (auto simp: events_of_def filter_empty_conv references_ok_def)

lemma data_ok_run [wf_intros]:
  assumes "data_ok fp A" "provider_run_valid r" "pr_run_id r \<notin> pr_run_id ` set (ld_runs A)"
    "pr_turn_id r \<notin> pr_turn_id ` set (ld_runs A)" "\<exists>t \<in> set (ld_turns A). \<exists>c \<in> set (ld_conversations A). run_belongs r t c"
  shows "data_ok fp (A\<lparr>ld_runs := ld_runs A @ [r]\<rparr>)"
proof -
  have "events_of A (pr_run_id r) = []" using assms(1,3) by (simp add: data_ok_def events_of_unregistered)
  then show ?thesis using assms
    by (auto simp: data_ok_def values_ok_def references_ok_def run_events_ok_def events_of_def)
qed

lemma events_of_append:
  "events_of (A\<lparr>ld_events := ld_events A @ [e]\<rparr>) k = events_of A k @ (if le_run_id e = k then [e] else [])"
  by (simp add: events_of_def)

lemma run_events_ok_append:
  assumes "run_events_ok fp A r" "pr_run_id r = le_run_id e \<Longrightarrow> next_event fp A e r st st'"
  shows "run_events_ok fp (A\<lparr>ld_events := ld_events A @ [e]\<rparr>) r"
  using assms by (auto simp: run_events_ok_def events_of_append apply_events_append next_event_def is_ok_iff)

lemma data_ok_event [wf_intros]:
  assumes "data_ok fp A" "lifecycle_event_valid e" "next_event fp A e r st st'"
  shows "data_ok fp (A\<lparr>ld_events := ld_events A @ [e]\<rparr>)"
proof -
  have "x = r" if "x \<in> set (ld_runs A)" "pr_run_id x = le_run_id e" for x
  proof -
    have "inj_on pr_run_id (set (ld_runs A))" using assms(1) by (simp add: data_ok_def values_ok_def distinct_map)
    then show ?thesis using that assms(3) by (auto simp: next_event_def inj_on_def)
  qed
  then have "run_events_ok fp (A\<lparr>ld_events := ld_events A @ [e]\<rparr>) x" if "x \<in> set (ld_runs A)" for x
    using that assms(1,3) by (intro run_events_ok_append [where st = st and st' = st']) (auto simp: data_ok_def)
  then show ?thesis using assms by (auto simp: data_ok_def values_ok_def references_ok_def next_event_def intro!: image_eqI [of _ _ r])
qed


section \<open>Sequences of calls\<close>

datatype db_call =
    Register_conversation conversation_handle
  | Register_turn committed_turn
  | Register_run provider_run
  | Append_event lifecycle_event

fun call_valid :: "db_call \<Rightarrow> bool" where
  "call_valid (Register_conversation c) = conversation_handle_valid c"
| "call_valid (Register_turn t) = committed_turn_valid t"
| "call_valid (Register_run r) = provider_run_valid r"
| "call_valid (Append_event e) = lifecycle_event_valid e"

fun store_step :: "codec \<Rightarrow> bool \<times> db_call \<Rightarrow> lifecycle_db \<Rightarrow> (store_error + append_result) \<times> lifecycle_db" where
  "store_step cd (busy, Register_conversation c) db = register_conversation cd busy c db"
| "store_step cd (busy, Register_turn t) db = register_turn cd busy t db"
| "store_step cd (busy, Register_run r) db = register_run cd busy r db"
| "store_step cd (busy, Append_event e) db = append_event cd busy e db"

definition empty_db :: lifecycle_db where
  "empty_db = \<lparr>db_conversations = [], db_turns = [], db_runs = [], db_events = []\<rparr>"

definition no_data :: lifecycle_data where
  "no_data = \<lparr>ld_conversations = [], ld_turns = [], ld_runs = [], ld_events = []\<rparr>"

definition grows :: "lifecycle_data \<Rightarrow> lifecycle_data \<Rightarrow> bool" where
  "grows A B \<longleftrightarrow> set (ld_conversations A) \<subseteq> set (ld_conversations B) \<and> set (ld_turns A) \<subseteq> set (ld_turns B) \<and>
     set (ld_runs A) \<subseteq> set (ld_runs B) \<and> set (ld_events A) \<subseteq> set (ld_events B)"

fun holds_value :: "db_call \<Rightarrow> lifecycle_data \<Rightarrow> bool" where
  "holds_value (Register_conversation c) A \<longleftrightarrow> c \<in> set (ld_conversations A)"
| "holds_value (Register_turn t) A \<longleftrightarrow> t \<in> set (ld_turns A)"
| "holds_value (Register_run r) A \<longleftrightarrow> r \<in> set (ld_runs A)"
| "holds_value (Append_event e) A \<longleftrightarrow> e \<in> set (ld_events A)"

lemma grows_refl [simp]: "grows A A" and grows_trans: "grows A B \<Longrightarrow> grows B C \<Longrightarrow> grows A C"
  by (auto simp: grows_def)

lemma grows_append [simp]:
  "grows A (A\<lparr>ld_conversations := ld_conversations A @ cs\<rparr>)" "grows A (A\<lparr>ld_turns := ld_turns A @ ts\<rparr>)"
  "grows A (A\<lparr>ld_runs := ld_runs A @ rs\<rparr>)" "grows A (A\<lparr>ld_events := ld_events A @ es\<rparr>)"
  by (auto simp: grows_def)

lemma holds_value_grows: "holds_value c A \<Longrightarrow> grows A B \<Longrightarrow> holds_value c B"
  by (cases c) (auto simp: grows_def)

lemma data_ok_none: "data_ok fp no_data" "encode cd no_data = empty_db"
  by (simp_all add: data_ok_def values_ok_def references_ok_def no_data_def encode_def empty_db_def)

lemma outcomeE:
  assumes "outcome cd A new known A' r"
  obtains "new" "r = (Inr Appended, encode cd A')" | "known" "r = (Inr Duplicate, encode cd A)"
  | e where "r = (Inl e, encode cd A)" "e \<noteq> Integrity_error"
  using assms by (auto simp: outcome_def split: prod.splits sum.splits append_result.splits)

definition step_data :: "codec \<Rightarrow> lifecycle_data \<Rightarrow> db_call \<Rightarrow> (store_error + append_result) \<times> lifecycle_db \<Rightarrow> lifecycle_data \<Rightarrow> bool" where
  "step_data cd A c r B \<longleftrightarrow> snd r = encode cd B \<and> data_ok (lifecycle_event_fingerprint cd) B \<and> grows A B \<and>
     fst r \<noteq> Inl Integrity_error \<and> (is_ok (fst r) \<longrightarrow> holds_value c B) \<and> (fst r \<noteq> Inr Appended \<longrightarrow> B = A)"

lemma outcome_data:
  assumes "outcome cd A new known A' r" "data_ok (lifecycle_event_fingerprint cd) A"
    "new \<Longrightarrow> data_ok (lifecycle_event_fingerprint cd) A'" "grows A A'" "holds_value c A'" "known \<Longrightarrow> holds_value c A"
  shows "\<exists>B. step_data cd A c r B"
  using assms(1) by (rule outcomeE) (use assms(2-6) in \<open>auto simp: step_data_def\<close>)

lemma store_step_data:
  assumes "codec_ok cd" "data_ok (lifecycle_event_fingerprint cd) A" "call_valid c"
  shows "\<exists>B. step_data cd A c (store_step cd (busy, c) (encode cd A)) B"
proof -
  have v: "values_ok A" using assms(2) by (simp add: data_ok_def)
  show ?thesis
  proof (cases c)
    case (Register_conversation x)
    then have x: "conversation_handle_valid x" using assms(3) by simp
    show ?thesis unfolding Register_conversation store_step.simps
      by (rule outcome_data [OF register_conversation_outcome [OF assms(1) v x] assms(2)])
        (auto intro: data_ok_conversation assms(2) x)
  next
    case (Register_turn x)
    then have x: "committed_turn_valid x" using assms(3) by simp
    show ?thesis unfolding Register_turn store_step.simps
      by (rule outcome_data [OF register_turn_outcome [OF assms(1) v] assms(2)]) (auto intro!: data_ok_turn assms(2) x)
  next
    case (Register_run x)
    then have x: "provider_run_valid x" using assms(3) by simp
    show ?thesis unfolding Register_run store_step.simps
      by (rule outcome_data [OF register_run_outcome [OF assms(1) v] assms(2)]) (auto intro!: data_ok_run assms(2) x)
  next
    case (Append_event x)
    then have x: "lifecycle_event_valid x" using assms(3) by simp
    show ?thesis unfolding Append_event store_step.simps
      by (rule outcome_data [OF append_event_outcome [OF assms(1,2) x] assms(2)]) (auto intro: data_ok_event assms(2) x)
  qed
qed

definition run_calls :: "codec \<Rightarrow> (bool \<times> db_call) list \<Rightarrow> lifecycle_db \<Rightarrow> lifecycle_db" where
  "run_calls cd calls db = fold (\<lambda>c db. snd (store_step cd c db)) calls db"

lemma run_calls_data:
  assumes "codec_ok cd" "data_ok (lifecycle_event_fingerprint cd) A" "list_all (call_valid \<circ> snd) calls"
  shows "\<exists>B. run_calls cd calls (encode cd A) = encode cd B \<and> data_ok (lifecycle_event_fingerprint cd) B \<and> grows A B"
  using assms(2,3)
proof (induction calls arbitrary: A)
  case (Cons bc calls)
  obtain busy c where bc: "bc = (busy, c)" by (cases bc)
  with Cons.prems obtain B where B: "step_data cd A c (store_step cd (busy, c) (encode cd A)) B"
    using store_step_data [OF assms(1), of A c busy] by auto
  then obtain C where "run_calls cd calls (encode cd B) = encode cd C" "data_ok (lifecycle_event_fingerprint cd) C" "grows B C"
    using Cons.IH [of B] Cons.prems(2) by (auto simp: step_data_def)
  then show ?case using B grows_trans by (auto simp: bc run_calls_def step_data_def)
qed (auto simp: run_calls_def)

lemma reached_data:
  assumes "codec_ok cd" "list_all (call_valid \<circ> snd) calls"
  obtains A where "run_calls cd calls empty_db = encode cd A" "data_ok (lifecycle_event_fingerprint cd) A"
  using run_calls_data [OF assms(1) data_ok_none(1) assms(2)] by (auto simp: data_ok_none)

lemma load_held:
  assumes "codec_ok cd" "data_ok (lifecycle_event_fingerprint cd) A"
  shows "c \<in> set (ld_conversations A) \<Longrightarrow> load_conversation cd (ch_conversation_id c) (encode cd A) = Inr c"
    "t \<in> set (ld_turns A) \<Longrightarrow> load_turn cd (ct_turn_id t) (encode cd A) = Inr t"
    "r \<in> set (ld_runs A) \<Longrightarrow> load_run cd (pr_run_id r) (encode cd A) = Inr r"
proof -
  have v: "values_ok A" using assms(2) by (simp add: data_ok_def)
  then have d: "distinct (map ch_conversation_id (ld_conversations A))" "distinct (map ct_turn_id (ld_turns A))"
    "distinct (map pr_run_id (ld_runs A))" by (simp_all add: values_ok_def)
  note r = rows_read [OF assms(1) v]
  show "c \<in> set (ld_conversations A) \<Longrightarrow> load_conversation cd (ch_conversation_id c) (encode cd A) = Inr c"
    by (simp add: load_conversation_def select_conversation_def conversations.find_row_Some [OF d(1)] r(1))
  show "t \<in> set (ld_turns A) \<Longrightarrow> load_turn cd (ct_turn_id t) (encode cd A) = Inr t"
    by (simp add: load_turn_def select_turn_def turns.find_row_Some [OF d(2)] r(2))
  show "r \<in> set (ld_runs A) \<Longrightarrow> load_run cd (pr_run_id r) (encode cd A) = Inr r"
    by (simp add: load_run_def select_run_def runs.find_row_Some [OF d(3)] r(3))
qed

lemma load_events_held:
  assumes "codec_ok cd" "data_ok (lifecycle_event_fingerprint cd) A"
  shows "load_events cd k (encode cd A) = Inr (events_of A k)"
proof (cases "k \<in> pr_run_id ` set (ld_runs A)")
  case True
  then have "map le_sequence (events_of A k) = map int [1..<Suc (length (events_of A k))]"
    using assms(2) by (auto simp: data_ok_def run_events_ok_def)
  then show ?thesis using assms events_of_valid
    by (simp add: load_events_def select_events_encoded read_rows_encoded data_ok_def)
next
  case False
  then have "events_of A k = []" using assms(2) by (simp add: events_of_unregistered data_ok_def)
  then show ?thesis by (simp add: load_events_def select_events_encoded)
qed


lemma replay_appended:
  assumes "codec_ok cd" "data_ok (lifecycle_event_fingerprint cd) A" "lifecycle_event_valid e"
    "next_event (lifecycle_event_fingerprint cd) A e r st st'"
  defines "B \<equiv> A\<lparr>ld_events := ld_events A @ [e]\<rparr>"
  shows "replay cd (le_run_id e) (encode cd A) = Inr st" "replay cd (le_run_id e) (encode cd B) = Inr st'"
    "apply_lifecycle_event (lifecycle_event_fingerprint cd) st e = Inr st'" "rs_last_sequence st' = rs_last_sequence st + 1"
    "k \<noteq> le_run_id e \<Longrightarrow> replay cd k (encode cd B) = replay cd k (encode cd A)"
proof -
  let ?fp = "lifecycle_event_fingerprint cd"
  have B: "data_ok ?fp B" unfolding B_def by (rule data_ok_event [OF assms(2-4)])
  have r: "r \<in> set (ld_runs A)" "r \<in> set (ld_runs B)" "pr_run_id r = le_run_id e" using assms(4) by (simp_all add: next_event_def B_def)
  have eB: "events_of B k = events_of A k @ (if le_run_id e = k then [e] else [])" for k by (simp add: B_def events_of_append)
  show a: "apply_lifecycle_event ?fp st e = Inr st'" using assms(4) by (simp add: next_event_def)
  have st: "apply_events ?fp (initial_run_state r) (events_of A (le_run_id e)) = Inr st" using assms(4) by (simp add: next_event_def)
  show "replay cd (le_run_id e) (encode cd A) = Inr st"
    using replay_encoded [OF assms(1,2) r(1)] st r(3) by (metis sum.inject(2))
  show "replay cd (le_run_id e) (encode cd B) = Inr st'"
    by (rule replay_encoded [OF assms(1) B r(2)]) (use st a r(3) in \<open>simp add: eB apply_events_append\<close>)
  have "map le_sequence (events_of A (le_run_id e)) = map int [1..<Suc (length (events_of A (le_run_id e)))]"
    using assms(2) r(1,3) by (simp add: data_ok_def run_events_ok_def del: upt_Suc) (metis r(3))
  then have last: "rs_last_sequence st = int (length (events_of A (le_run_id e)))" by (rule last_sequence_events [OF st])
  then have "\<not> le_sequence e \<le> rs_last_sequence st" using assms(4) by (simp add: next_event_def)
  with a obtain st1 where "st' = record_event ?fp e st1" by (rule apply_new)
  then show "rs_last_sequence st' = rs_last_sequence st + 1" using assms(4) last by (simp add: record_event_def next_event_def)
  show "replay cd k (encode cd B) = replay cd k (encode cd A)" if k: "k \<noteq> le_run_id e"
  proof -
    have "select_run k (encode cd B) = select_run k (encode cd A)" by (simp add: select_run_def B_def)
    moreover have "load_events cd k (encode cd B) = load_events cd k (encode cd A)"
      using k by (simp add: load_events_held [OF assms(1) B] load_events_held [OF assms(1,2)] eB)
    ultimately show ?thesis unfolding replay_def load_run_def by (simp only:)
  qed
qed

lemma replay_known:
  assumes "codec_ok cd" "data_ok (lifecycle_event_fingerprint cd) A" "e \<in> set (ld_events A)"
  shows "\<exists>st. replay cd (le_run_id e) (encode cd A) = Inr st \<and> apply_lifecycle_event (lifecycle_event_fingerprint cd) st e = Inr st"
proof -
  let ?fp = "lifecycle_event_fingerprint cd"
  obtain r where r: "r \<in> set (ld_runs A)" "pr_run_id r = le_run_id e"
    using assms(2,3) by (auto simp: data_ok_def references_ok_def)
  obtain st where st: "apply_events ?fp (initial_run_state r) (events_of A (pr_run_id r)) = Inr st"
    "replay cd (pr_run_id r) (encode cd A) = Inr st" by (rule replay_encoded [OF assms(1,2) r(1)])
  have e: "receipt_of ?fp e \<in> set (rs_applied st)" "rs_run st = r"
    using apply_events_receipts [OF st(1)] assms(3) r(2) by (simp_all add: events_of_def initial_run_state_def)
  then show ?thesis using apply_known [OF apply_events_ok [OF st(1) run_ok_initial] e(1) refl] st(2) r(2) by simp
qed

text \<open>C21. The invariant of the lifecycle event store: whatever sequence of valid calls is made on an empty store, with any
  of them meeting a locked database, the tables hold the rows of some valid conversations, turns, runs and
  events under distinct identifiers; every turn was committed by the owner of its conversation and not before
  it; every run has its turn and its conversation and agrees with them; every event belongs to a run; the
  events of a run are numbered 1, 2, ... in the order they were appended, and the life cycle accepts them.\<close>

theorem store_invariant:
  assumes "codec_ok cd" "list_all (call_valid \<circ> snd) calls"
  shows "\<exists>A. run_calls cd calls empty_db = encode cd A \<and> data_ok (lifecycle_event_fingerprint cd) A"
  using reached_data [OF assms] by blast

text \<open>C20. Appending an event implements the life cycle on the replayed state: in every reachable store, an appended event
  moves the replayed state of its run by exactly one accepted transition and leaves every other run's
  state, a duplicate is an event the run already has and leaves everything as it is, and a refused call
  changes nothing and is never a constraint violation of the database.\<close>

theorem append_event_refines:
  assumes "codec_ok cd" "list_all (call_valid \<circ> snd) calls" "lifecycle_event_valid e"
    and "append_event cd busy e (run_calls cd calls empty_db) = (res, db')"
  shows "case res of
      Inr Appended \<Rightarrow> (\<exists>st st'. replay cd (le_run_id e) (run_calls cd calls empty_db) = Inr st \<and>
        apply_lifecycle_event (lifecycle_event_fingerprint cd) st e = Inr st' \<and> replay cd (le_run_id e) db' = Inr st' \<and>
        rs_last_sequence st' = rs_last_sequence st + 1 \<and>
        (\<forall>k. k \<noteq> le_run_id e \<longrightarrow> replay cd k db' = replay cd k (run_calls cd calls empty_db)))
    | Inr Duplicate \<Rightarrow> db' = run_calls cd calls empty_db \<and>
        (\<exists>st. replay cd (le_run_id e) db' = Inr st \<and> apply_lifecycle_event (lifecycle_event_fingerprint cd) st e = Inr st)
    | Inl err \<Rightarrow> db' = run_calls cd calls empty_db \<and> err \<noteq> Integrity_error"
proof -
  let ?fp = "lifecycle_event_fingerprint cd"
  obtain A where A: "run_calls cd calls empty_db = encode cd A" "data_ok ?fp A" by (rule reached_data [OF assms(1,2)])
  have "outcome cd A (\<exists>r st st'. next_event ?fp A e r st st') (e \<in> set (ld_events A)) (A\<lparr>ld_events := ld_events A @ [e]\<rparr>) (res, db')"
    using append_event_outcome [OF assms(1) A(2) assms(3), of busy] assms(4) by (simp add: A(1))
  then show ?thesis
  proof (cases rule: outcomeE)
    case 1
    then obtain r st st' where n: "next_event ?fp A e r st st'" by blast
    then show ?thesis using 1(2) replay_appended [OF assms(1) A(2) assms(3) n] by (auto simp: A(1))
  next
    case 2
    then show ?thesis using replay_known [OF assms(1) A(2) 2(1)] by (auto simp: A(1))
  qed (simp add: A(1))
qed

text \<open>C33. What was stored is read back: a value that a call reported as appended or as a duplicate is returned unchanged by
  the load operations, after any further valid calls.\<close>

theorem stored_values_load:
  assumes "codec_ok cd" "list_all (call_valid \<circ> snd) (before @ (busy, c) # after)"
    and "is_ok (fst (store_step cd (busy, c) (run_calls cd before empty_db)))"
  shows "case c of
      Register_conversation x \<Rightarrow> load_conversation cd (ch_conversation_id x) (run_calls cd (before @ (busy, c) # after) empty_db) = Inr x
    | Register_turn x \<Rightarrow> load_turn cd (ct_turn_id x) (run_calls cd (before @ (busy, c) # after) empty_db) = Inr x
    | Register_run x \<Rightarrow> load_run cd (pr_run_id x) (run_calls cd (before @ (busy, c) # after) empty_db) = Inr x
    | Append_event x \<Rightarrow> (\<exists>es. load_events cd (le_run_id x) (run_calls cd (before @ (busy, c) # after) empty_db) = Inr es \<and> x \<in> set es)"
proof -
  let ?fp = "lifecycle_event_fingerprint cd"
  have v: "list_all (call_valid \<circ> snd) before" "call_valid c" "list_all (call_valid \<circ> snd) after" using assms(2) by simp_all
  obtain A where A: "run_calls cd before empty_db = encode cd A" "data_ok ?fp A" by (rule reached_data [OF assms(1) v(1)])
  obtain B where B: "step_data cd A c (store_step cd (busy, c) (encode cd A)) B"
    using store_step_data [OF assms(1) A(2) v(2), of busy] by blast
  then have b: "data_ok ?fp B" "holds_value c B" "snd (store_step cd (busy, c) (encode cd A)) = encode cd B"
    using assms(3) by (simp_all add: step_data_def A(1))
  obtain C where C: "run_calls cd after (encode cd B) = encode cd C" "data_ok ?fp C" "grows B C"
    using run_calls_data [OF assms(1) b(1) v(3)] by blast
  have "run_calls cd (before @ (busy, c) # after) empty_db = encode cd C"
    using A(1) b(3) C(1) by (simp add: run_calls_def)
  moreover have "holds_value c C" using holds_value_grows [OF b(2) C(3)] .
  ultimately show ?thesis using load_held [OF assms(1) C(2)] load_events_held [OF assms(1) C(2)]
    by (cases c) (auto simp: events_of_def)
qed


section \<open>A codec\<close>

text \<open>A concrete printer and reader for the witnesses: each model as a JSON array of its fields.\<close>

definition conversation_json :: "conversation_handle \<Rightarrow> json" where
  "conversation_json c = JArr [JStr (ch_conversation_id c), JStr (ch_provider c), JStr (ch_surface c), JStr (ch_created_by_agent c),
     JInt (ch_created_at c), JInt (ch_updated_at c), JInt (case ch_state c of Active \<Rightarrow> 1 | Closed \<Rightarrow> 0), jopt (ch_provider_conversation_id c)]"

definition conversation_of :: "json \<Rightarrow> conversation_handle" where
  "conversation_of j = \<lparr>ch_conversation_id = str_of (field j 0), ch_provider = str_of (field j 1), ch_surface = str_of (field j 2),
     ch_created_by_agent = str_of (field j 3), ch_created_at = int_of (field j 4), ch_updated_at = int_of (field j 5),
     ch_state = (if int_of (field j 6) = 1 then Active else Closed), ch_provider_conversation_id = opt_of (field j 7)\<rparr>"

definition turn_json :: "committed_turn \<Rightarrow> json" where
  "turn_json t = JArr [JStr (ct_conversation_id t), JStr (ct_turn_id t), JStr (ct_trace_id t), JStr (ct_idempotency_key t),
     JStr (ap_agent_id (ct_principal t)), JStr (ap_instance_id (ct_principal t)), JStr (ap_key_id (ct_principal t)),
     JStr (ap_verification_id (ct_principal t)), JInt (ct_committed_at t), JStr (ct_content_sha256 t), JInt (ct_utf8_bytes t),
     JInt (ct_part_count t)]"

definition turn_of :: "json \<Rightarrow> committed_turn" where
  "turn_of j = \<lparr>ct_conversation_id = str_of (field j 0), ct_turn_id = str_of (field j 1), ct_trace_id = str_of (field j 2),
     ct_idempotency_key = str_of (field j 3), ct_principal = \<lparr>ap_agent_id = str_of (field j 4), ap_instance_id = str_of (field j 5),
       ap_key_id = str_of (field j 6), ap_verification_id = str_of (field j 7)\<rparr>, ct_committed_at = int_of (field j 8),
     ct_content_sha256 = str_of (field j 9), ct_utf8_bytes = int_of (field j 10), ct_part_count = int_of (field j 11)\<rparr>"

definition run_json :: "provider_run \<Rightarrow> json" where
  "run_json r = JArr [JStr (pr_run_id r), JStr (pr_conversation_id r), JStr (pr_turn_id r), JStr (pr_trace_id r),
     JStr (pr_idempotency_key r), JStr (pr_provider r), JStr (pr_surface r), JInt (pr_started_at r), jopt (pr_provider_run_id r)]"

definition run_of :: "json \<Rightarrow> provider_run" where
  "run_of j = \<lparr>pr_run_id = str_of (field j 0), pr_conversation_id = str_of (field j 1), pr_turn_id = str_of (field j 2),
     pr_trace_id = str_of (field j 3), pr_idempotency_key = str_of (field j 4), pr_provider = str_of (field j 5),
     pr_surface = str_of (field j 6), pr_started_at = int_of (field j 7), pr_provider_run_id = opt_of (field j 8)\<rparr>"

definition kind_json :: "event_kind \<Rightarrow> json" where
  "kind_json k = JArr (case k of
      Response_started r \<Rightarrow> [JInt 0, JStr r]
    | Output_digest d n \<Rightarrow> [JInt 1, JStr d, JInt n]
    | Tool_call_requested i p name a \<Rightarrow> [JInt 2, JStr i, JStr p, JStr name, JStr a]
    | Tool_call_resolved i out r \<Rightarrow> [JInt 3, JStr i, JInt (case out of Tool_completed \<Rightarrow> 0 | Tool_failed \<Rightarrow> 1 | Tool_denied \<Rightarrow> 2), jopt r]
    | Approval_requested a i \<Rightarrow> [JInt 4, JStr a, JStr i]
    | Approval_resolved a d \<Rightarrow> [JInt 5, JStr a, JInt (case d of Decision_approved \<Rightarrow> 0 | Decision_denied \<Rightarrow> 1 | Decision_expired \<Rightarrow> 2)]
    | Response_terminal st c \<Rightarrow> [JInt 6, JInt (case st of Response_completed \<Rightarrow> 0 | Response_failed \<Rightarrow> 1 | Response_cancelled \<Rightarrow> 2
        | Response_incomplete \<Rightarrow> 3), jopt c]
    | Output_validated h c \<Rightarrow> [JInt 7, JStr h, jopt c]
    | Audit_persisted a r \<Rightarrow> [JInt 8, JStr a, JStr r])"

definition kind_of :: "json \<Rightarrow> event_kind" where
  "kind_of j = (let t = int_of (field j 0); n = int_of (field j 2) in
     if t = 0 then Response_started (str_of (field j 1))
     else if t = 1 then Output_digest (str_of (field j 1)) n
     else if t = 2 then Tool_call_requested (str_of (field j 1)) (str_of (field j 2)) (str_of (field j 3)) (str_of (field j 4))
     else if t = 3 then Tool_call_resolved (str_of (field j 1))
       (if n = 0 then Tool_completed else if n = 1 then Tool_failed else Tool_denied) (opt_of (field j 3))
     else if t = 4 then Approval_requested (str_of (field j 1)) (str_of (field j 2))
     else if t = 5 then Approval_resolved (str_of (field j 1))
       (if n = 0 then Decision_approved else if n = 1 then Decision_denied else Decision_expired)
     else if t = 6 then Response_terminal (let m = int_of (field j 1) in if m = 0 then Response_completed else if m = 1 then Response_failed
       else if m = 2 then Response_cancelled else Response_incomplete) (opt_of (field j 2))
     else if t = 7 then Output_validated (str_of (field j 1)) (opt_of (field j 2))
     else Audit_persisted (str_of (field j 1)) (str_of (field j 2)))"

definition event_json :: "lifecycle_event \<Rightarrow> json" where
  "event_json e = JArr [JStr (le_event_id e), JStr (le_run_id e), JInt (le_sequence e), JInt (le_observed_at e),
     jopt (le_provider_event_id e), kind_json (le_kind e)]"

definition event_of :: "json \<Rightarrow> lifecycle_event" where
  "event_of j = \<lparr>le_event_id = str_of (field j 0), le_run_id = str_of (field j 1), le_sequence = int_of (field j 2),
     le_observed_at = int_of (field j 3), le_provider_event_id = opt_of (field j 4), le_kind = kind_of (field j 5)\<rparr>"

lemma kind_of_json: "kind_of (kind_json k) = k" "plain (kind_json k)"
  by (cases k; simp add: kind_json_def kind_of_def field_def split: tool_outcome.splits approval_decision.splits response_status.splits)+

definition ex_codec :: codec where
  "ex_codec = \<lparr>cd_sha256 = ex_sha,
     dump_conversation = (\<lambda>c. dumps False (conversation_json c)), parse_conversation = read_as conversation_handle_valid conversation_of,
     dump_turn = (\<lambda>t. dumps False (turn_json t)), parse_turn = read_as committed_turn_valid turn_of,
     dump_run = (\<lambda>r. dumps False (run_json r)), parse_run = read_as provider_run_valid run_of,
     dump_event = (\<lambda>e. dumps False (event_json e)), parse_event = read_as lifecycle_event_valid event_of\<rparr>"

lemma ex_codec_ok: "codec_ok ex_codec"
proof -
  have "plain (conversation_json m) \<and> conversation_of (conversation_json m) = m" for m
    by (simp add: conversation_json_def conversation_of_def field_def split: conversation_state.splits)
  moreover have "plain (turn_json m) \<and> turn_of (turn_json m) = m" for m
    by (simp add: turn_json_def turn_of_def field_def)
  moreover have "plain (run_json m) \<and> run_of (run_json m) = m" for m
    by (simp add: run_json_def run_of_def field_def)
  moreover have "plain (event_json m) \<and> event_of (event_json m) = m" for m
    by (simp add: event_json_def event_of_def field_def kind_of_json)
  ultimately show ?thesis by (simp add: codec_ok_def ex_codec_def payload_ok_json)
qed


definition ex_conversation :: conversation_handle where
  "ex_conversation = \<lparr>ch_conversation_id = ''conv_1'', ch_provider = ''fake'', ch_surface = ''mcp'', ch_created_by_agent = ''agent_1'',
     ch_created_at = 10, ch_updated_at = 10, ch_state = Active, ch_provider_conversation_id = None\<rparr>"

definition ex_db_calls :: "(bool \<times> db_call) list" where
  "ex_db_calls = [(False, Register_conversation ex_conversation), (True, Register_turn ex_turn), (False, Register_turn ex_turn),
     (False, Register_run ex_run)]"

definition ex_start :: lifecycle_event where
  "ex_start = ex_lifecycle ''evt_1'' 1 (Response_started ''resp'')"

lemma ex_db_calls_valid: "list_all (call_valid \<circ> snd) ex_db_calls" "lifecycle_event_valid ex_start"
  by code_simp+

lemma ex_appended: "fst (append_event ex_codec False ex_start (run_calls ex_codec ex_db_calls empty_db)) = Inr Appended"
  by code_simp

theorem store_invariant_witness: "\<exists>A. run_calls ex_codec ex_db_calls empty_db = encode ex_codec A \<and> references_ok A"
  using store_invariant [OF ex_codec_ok ex_db_calls_valid(1)] by (auto simp: data_ok_def)

theorem append_event_refines_witness:
  "\<exists>st. replay ex_codec ''run_1'' (snd (append_event ex_codec False ex_start (run_calls ex_codec ex_db_calls empty_db))) = Inr st"
  using append_event_refines [OF ex_codec_ok ex_db_calls_valid, of False] ex_appended
  by (cases "append_event ex_codec False ex_start (run_calls ex_codec ex_db_calls empty_db)") (auto simp: ex_start_def ex_lifecycle_def)

theorem stored_values_load_witness:
  "load_turn ex_codec ''turn_1'' (run_calls ex_codec ([(False, Register_conversation ex_conversation)] @ (False, Register_turn ex_turn) #
     [(False, Register_run ex_run)]) empty_db) = Inr ex_turn"
proof -
  have v: "list_all (call_valid \<circ> snd) ([(False, Register_conversation ex_conversation)] @ (False, Register_turn ex_turn) #
     [(False, Register_run ex_run)])" by code_simp
  have ok: "is_ok (fst (store_step ex_codec (False, Register_turn ex_turn)
     (run_calls ex_codec [(False, Register_conversation ex_conversation)] empty_db)))" by code_simp
  have "ct_turn_id ex_turn = ''turn_1''" by code_simp
  then show ?thesis using stored_values_load [OF ex_codec_ok v ok] by simp
qed

end
