(* ===== verification/Iso_Order.thy ===== *)
theory Iso_Order
  imports Py_Time
begin

text \<open>
  The text that \<open>isoformat\<close> gives for UTC instants is ordered like the instants: a store that sorts the text
  column sorts by time. The calendar is the arithmetic of \<open>civil_from_days\<close> in Py_Time.
\<close>

section \<open>Texts of fixed width\<close>

lemma div_mod_less: "a < b \<Longrightarrow> 0 < k \<Longrightarrow> a div k < b div k \<or> a div k = b div k \<and> a mod k < b mod (k :: int)"
proof -
  assume ab: "a < b" "0 < k"
  have "a mod k < b mod k" if "a div k = b div k"
    using ab mult_div_mod_eq [of k a] mult_div_mod_eq [of k b] unfolding that by linarith
  moreover have "a div k \<le> b div k" using ab by (intro zdiv_mono1) simp_all
  ultimately show ?thesis by linarith
qed

lemma append_less: "length a = length b \<Longrightarrow> a < b \<or> a = b \<and> x < y \<Longrightarrow> a @ x < b @ (y :: 'a :: order list)"
  by (auto simp: list_less_def intro: lexord_sufI lexord_append_leftI)

fun digits :: "nat \<Rightarrow> nat \<Rightarrow> string" where
  "digits 0 n = []"
| "digits (Suc w) n = digits w (n div 10) @ [hexdig (n mod 10)]"

lemma length_digits [simp]: "length (digits w n) = w"
  by (induction w arbitrary: n) simp_all

lemma digits_zero: "digits w 0 = replicate w (CHR ''0'')"
  by (induction w) (simp_all add: hexdig_0 replicate_append_same)

lemma jnat_digits_pad: "n < 10 ^ Suc w \<Longrightarrow> length (jnat n) \<le> Suc w \<and> replicate (Suc w - length (jnat n)) (CHR ''0'') @ jnat n = digits (Suc w) n"
proof (induction w arbitrary: n)
  case (Suc w)
  show ?case
  proof (cases "n < 10")
    case True
    then show ?thesis by (simp add: jnat_small digits_zero [of w, unfolded replicate_append_same] replicate_append_same flip: digits.simps)
      (simp add: digits_zero hexdig_0 replicate_append_same)
  next
    case False
    have "n div 10 < 10 ^ Suc w" using Suc.prems by (simp add: less_mult_imp_div_less)
    from Suc.IH [OF this] show ?thesis using False by (simp add: jnat_big Suc_diff_le)
  qed
qed (simp add: jnat_small)

lemma pad_digits: "0 \<le> n \<Longrightarrow> n < 10 ^ w \<Longrightarrow> 0 < w \<Longrightarrow> pad w n = digits w (nat n)"
proof -
  assume a: "0 \<le> n" "n < 10 ^ w" "0 < w"
  then obtain v where w: "w = Suc v" by (cases w) auto
  have "nat n < 10 ^ w" using a by (simp add: nat_less_iff)
  then show ?thesis using a jnat_digits_pad [of "nat n" v] by (simp add: pad_def jint_def w Let_def)
qed

lemma hexdig_less: "m < n \<Longrightarrow> n < 10 \<Longrightarrow> hexdig m < hexdig n"
proof -
  have t: "\<forall>n \<in> set [0..<10]. \<forall>m \<in> set [0..<n]. hexdig m < hexdig n" by code_simp
  assume "m < n" "n < 10"
  then show ?thesis using t by simp
qed

lemma digits_less: "m < n \<Longrightarrow> n < 10 ^ w \<Longrightarrow> digits w m < digits w n"
proof (induction w arbitrary: m n)
  case (Suc w)
  have "n div 10 < 10 ^ w" using Suc.prems(2) by (simp add: less_mult_imp_div_less)
  moreover have "m div 10 < n div 10 \<or> m div 10 = n div 10 \<and> m mod 10 < n mod 10"
    using Suc.prems(1) div_le_mono [of m n 10] mult_div_mod_eq [of 10 m] mult_div_mod_eq [of 10 n] by linarith
  ultimately show ?case using Suc.IH hexdig_less by (auto intro!: append_less)
qed simp

lemma pad_less: "0 \<le> m \<Longrightarrow> m < n \<Longrightarrow> n < 10 ^ w \<Longrightarrow> 0 < w \<Longrightarrow> pad w m < pad w n"
proof -
  assume a: "0 \<le> m" "m < n" "n < 10 ^ w" "0 < w"
  have "nat n < 10 ^ w" using a by (simp add: nat_less_iff)
  then show ?thesis using a by (simp add: pad_digits digits_less)
qed

lemma length_pad: "0 \<le> n \<Longrightarrow> n < 10 ^ w \<Longrightarrow> 0 < w \<Longrightarrow> length (pad w n) = w"
  by (simp add: pad_digits)

section \<open>The calendar\<close>

definition year_start :: "int \<Rightarrow> int" where
  "year_start y = 365 * y + y div 4 - y div 100"

definition year_of :: "int \<Rightarrow> int" where
  "year_of doe = (doe - doe div 1460 + doe div 36524 - doe div 146096) div 365"

text \<open>Evaluated at the first and the last day of each of the 400 years of an era; the day of the year 400 that
  is left over is the leap day at its end.\<close>

definition last_day :: "int \<Rightarrow> int" where
  "last_day y = (if y = 399 then 146096 else year_start (y + 1) - 1)"

lemma year_of_bounds: "\<forall>y \<in> set [0..399]. year_of (year_start y) = y \<and> year_of (last_day y) = y \<and> last_day y \<le> year_start y + 365"
  by code_simp

lemma year_of_Suc: "year_of d \<le> year_of (d + 1)"
proof -
  have step: "(d + 1) div k = d div k + (if k dvd d + 1 then 1 else 0)" if k: "0 < k" for k :: int
  proof (cases "k dvd d + 1")
    case True
    then obtain q where "d + 1 = k * q" by (rule dvdE)
    then have "d = k * (q - 1) + (k - 1)" by (simp add: algebra_simps)
    then have "d div k = q - 1" using k by (intro int_div_pos_eq [where r = "k - 1"]) simp_all
    then show ?thesis using True \<open>d + 1 = k * q\<close> k by simp
  next
    case False
    then have "0 < (d + 1) mod k" "(d + 1) mod k < k" using k pos_mod_sign [OF k, of "d + 1"] pos_mod_bound [OF k, of "d + 1"]
      by (simp_all add: dvd_eq_mod_eq_0)
    moreover have "d = k * ((d + 1) div k) + ((d + 1) mod k - 1)" using mult_div_mod_eq [of k "d + 1"] by linarith
    ultimately have "d div k = (d + 1) div k" using int_div_pos_eq [of d k "(d + 1) div k" "(d + 1) mod k - 1"] by linarith
    then show ?thesis using False by simp
  qed
  have "146096 dvd d + 1 \<Longrightarrow> 36524 dvd d + 1" by (rule dvd_trans [of _ 146096]) simp_all
  then show ?thesis unfolding year_of_def by (intro zdiv_mono1) (auto simp: step [of 1460] step [of 36524] step [of 146096])
qed

lemma year_of_mono: "d \<le> e \<Longrightarrow> year_of d \<le> year_of e"
proof (induction e rule: int_ge_induct)
  case (step e)
  then show ?case using year_of_Suc [of e] by linarith
qed simp

lemma year_exists: "0 \<le> d \<Longrightarrow> d < 146097 \<Longrightarrow> \<exists>y \<in> {0..399}. year_start y \<le> d \<and> d \<le> last_day y"
proof -
  assume d: "0 \<le> d" "d < 146097"
  have "\<exists>y \<in> {0..int n}. year_start y \<le> d \<and> (d < year_start (y + 1) \<or> y = int n)" for n
  proof (induction n)
    case (Suc n)
    then obtain y where y: "y \<in> {0..int n}" "year_start y \<le> d" "d < year_start (y + 1) \<or> y = int n" by blast
    show ?case
    proof (cases "d < year_start (y + 1)")
      case False
      then have "y + 1 = int (Suc n)" "year_start (y + 1) \<le> d" using y by simp_all
      then show ?thesis by (intro bexI [of _ "y + 1"]) auto
    qed (use y in \<open>auto intro!: bexI [of _ y]\<close>)
  qed (simp add: year_start_def d)
  from this [of 399] obtain y where y: "y \<in> {0..399}" "year_start y \<le> d" "d < year_start (y + 1) \<or> y = 399" by (metis of_nat_numeral)
  then have "d \<le> last_day y" using d by (auto simp: last_day_def year_start_def)
  then show ?thesis using y by blast
qed

lemma year_of_correct:
  assumes "0 \<le> d" "d < 146097"
  shows "0 \<le> year_of d \<and> year_of d \<le> 399 \<and> year_start (year_of d) \<le> d \<and> d \<le> year_start (year_of d) + 365"
proof -
  obtain y where y: "y \<in> {0..399}" "year_start y \<le> d" "d \<le> last_day y" using year_exists [OF assms] by blast
  then have "year_of (year_start y) = y" "year_of (last_day y) = y" "last_day y \<le> year_start y + 365" using year_of_bounds by simp_all
  then have "year_of d = y" using year_of_mono [OF y(2)] year_of_mono [OF y(3)] by simp
  then show ?thesis using y \<open>last_day y \<le> year_start y + 365\<close> by auto
qed

text \<open>The month counted from March and the day of the month, from the day of the year.\<close>

definition month_of :: "int \<Rightarrow> int" where
  "month_of doy = (5 * doy + 2) div 153"

definition day_of :: "int \<Rightarrow> int" where
  "day_of doy = doy - (153 * month_of doy + 2) div 5 + 1"

lemma month_day_bounds: "0 \<le> doy \<Longrightarrow> doy \<le> 365 \<Longrightarrow> month_of doy \<in> {0..11} \<and> day_of doy \<in> {1..31}"
proof -
  have t: "\<forall>doy \<in> set [0..365]. month_of doy \<in> {0..11} \<and> day_of doy \<in> {1..31}" by code_simp
  assume "0 \<le> doy" "doy \<le> 365"
  then show ?thesis using t by simp
qed

lemma month_day_less: "a < b \<Longrightarrow> month_of a < month_of b \<or> month_of a = month_of b \<and> day_of a < day_of b"
  using zdiv_mono1 [of "5 * a + 2" "5 * b + 2" 153] by (auto simp: month_of_def day_of_def)

definition calendar_month :: "int \<Rightarrow> int" where
  "calendar_month mp = (if mp < 10 then mp + 3 else mp - 9)"

definition calendar_year :: "int \<Rightarrow> int \<Rightarrow> int" where
  "calendar_year y mp = y + (if calendar_month mp \<le> 2 then 1 else 0)"

lemma civil_parts:
  "civil_from_days days =
     (let z = days + 719468; era = z div 146097; doe = z mod 146097; yoe = year_of doe; doy = doe - year_start yoe; mp = month_of doy in
      (calendar_year (yoe + era * 400) mp, calendar_month mp, day_of doy))"
  unfolding civil_from_days_def Let_def year_of_def year_start_def month_of_def day_of_def calendar_month_def calendar_year_def
  by (rule refl)

lemma calendar_less:
  assumes "mp \<in> {0..11}" "mp' \<in> {0..11}" "y < y' \<or> y = y' \<and> mp < mp'"
  shows "calendar_year y mp < calendar_year y' mp' \<or>
    calendar_year y mp = calendar_year y' mp' \<and> calendar_month mp < calendar_month mp'"
  using assms by (auto simp: calendar_year_def calendar_month_def)

text \<open>Later days have later dates.\<close>

definition date_less :: "int \<times> int \<times> int \<Rightarrow> int \<times> int \<times> int \<Rightarrow> bool" where
  "date_less a b \<longleftrightarrow> (case (a, b) of ((y, m, d), (y', m', d')) \<Rightarrow> y < y' \<or> y = y' \<and> (m < m' \<or> m = m' \<and> d < d'))"

lemma date_less_parts:
  assumes "mp \<in> {0..11}" "mp' \<in> {0..11}"
    "y < y' \<or> y = y' \<and> (month_of a < month_of b \<or> month_of a = month_of b \<and> day_of a < day_of b)" "mp = month_of a" "mp' = month_of b"
  shows "date_less (calendar_year y mp, calendar_month mp, day_of a) (calendar_year y' mp', calendar_month mp', day_of b)"
  using calendar_less [OF assms(1,2), of y y'] assms(3-5) by (auto simp: date_less_def)

lemma civil_bounds:
  assumes "civil_from_days n = (y, m, d)"
  shows "1 \<le> m \<and> m \<le> 12 \<and> 1 \<le> d \<and> d \<le> 31"
proof -
  let ?doe = "(n + 719468) mod 146097"
  have "0 \<le> ?doe" "?doe < 146097" by simp_all
  note c = year_of_correct [OF this]
  from c have "0 \<le> ?doe - year_start (year_of ?doe)" "?doe - year_start (year_of ?doe) \<le> 365" by linarith+
  from month_day_bounds [OF this] assms show ?thesis by (auto simp: civil_parts Let_def calendar_month_def)
qed

lemma civil_less:
  assumes "n < n'"
  shows "date_less (civil_from_days n) (civil_from_days n')"
proof -
  let ?z = "n + 719468" and ?z' = "n' + 719468"
  let ?e = "?z div 146097" and ?e' = "?z' div 146097" and ?d = "?z mod 146097" and ?d' = "?z' mod 146097"
  let ?y = "year_of ?d" and ?y' = "year_of ?d'"
  let ?o = "?d - year_start ?y" and ?o' = "?d' - year_start ?y'"
  have b: "0 \<le> ?d" "?d < 146097" "0 \<le> ?d'" "?d' < 146097" by simp_all
  note c = year_of_correct [OF b(1,2)] and c' = year_of_correct [OF b(3,4)]
  have o: "month_of ?o \<in> {0..11}" "month_of ?o' \<in> {0..11}" using c c' month_day_bounds [of ?o] month_day_bounds [of ?o'] by auto
  have "?e < ?e' \<or> ?e = ?e' \<and> ?d < ?d'" using assms by (intro div_mod_less) simp_all
  moreover have "?y < ?y' \<or> ?y = ?y' \<and> ?o < ?o'" if "?d < ?d'" using year_of_mono [of ?d ?d'] that by auto
  ultimately have "?y + ?e * 400 < ?y' + ?e' * 400 \<or> ?y + ?e * 400 = ?y' + ?e' * 400 \<and> ?o < ?o'" using c c' by linarith
  then have "?y + ?e * 400 < ?y' + ?e' * 400 \<or>
      ?y + ?e * 400 = ?y' + ?e' * 400 \<and> (month_of ?o < month_of ?o' \<or> month_of ?o = month_of ?o' \<and> day_of ?o < day_of ?o')"
    using month_day_less [of ?o ?o'] by linarith
  then show ?thesis unfolding civil_parts Let_def by (intro date_less_parts o refl)
qed

section \<open>Timestamps\<close>

definition date_text :: "int \<times> int \<times> int \<Rightarrow> string" where
  "date_text c = (case c of (y, m, d) \<Rightarrow> pad 4 y @ ''-'' @ pad 2 m @ ''-'' @ pad 2 d)"

definition clock_text :: "int \<Rightarrow> string" where
  "clock_text s = pad 2 (s div 3600) @ '':'' @ pad 2 (s div 60 mod 60) @ '':'' @ pad 2 (s mod 60)"

definition fraction_text :: "int \<Rightarrow> string" where
  "fraction_text f = (if f = 0 then [] else ''.'' @ pad 6 f) @ ''+00:00''"

lemma iso_utc_parts:
  "iso_utc us = date_text (civil_from_days (us div 86400000000)) @ ''T'' @
     clock_text (us mod 86400000000 div 1000000) @ fraction_text (us mod 86400000000 mod 1000000)"
  by (simp add: iso_utc_def date_text_def clock_text_def fraction_text_def Let_def split: prod.splits)

definition in_years :: "int \<times> int \<times> int \<Rightarrow> bool" where
  "in_years c \<longleftrightarrow> (case c of (y, m, d) \<Rightarrow> 0 \<le> y \<and> y < 10000 \<and> 1 \<le> m \<and> m \<le> 12 \<and> 1 \<le> d \<and> d \<le> 31)"

lemma fields_less:
  assumes "length a = length a'" "length b = length b'" "length c = length c'"
    "a < a' \<or> a = a' \<and> (b < b' \<or> b = b' \<and> c < c')"
  shows "length (a @ x @ b @ z @ c) = length (a' @ x @ b' @ z @ c') \<and> a @ x @ b @ z @ c < a' @ x @ b' @ z @ (c' :: string)"
proof -
  have "b @ z @ c < b' @ z @ c'" if "b < b' \<or> b = b' \<and> c < c'"
    using that append_less [of z z c c'] by (intro append_less assms(2)) blast
  then have "x @ b @ z @ c < x @ b' @ z @ c'" if "b < b' \<or> b = b' \<and> c < c'" using that append_less [OF refl, of x] by blast
  then show ?thesis using assms by (intro conjI append_less) (simp, simp, blast)
qed

lemma date_text_less:
  assumes "date_less a b" "in_years a" "in_years b"
  shows "length (date_text a) = length (date_text b) \<and> date_text a < date_text b"
proof -
  obtain y m d y' m' d' where ab: "a = (y, m, d)" "b = (y', m', d')" by (cases a; cases b)
  note r = assms(2,3) [unfolded ab in_years_def prod.case]
  have l: "length (pad 4 y) = length (pad 4 y')" "length (pad 2 m) = length (pad 2 m')" "length (pad 2 d) = length (pad 2 d')"
    using r by (simp_all add: length_pad)
  have "y < y' \<or> y = y' \<and> (m < m' \<or> m = m' \<and> d < d')" using assms(1) unfolding ab date_less_def prod.case .
  then have "pad 4 y < pad 4 y' \<or> pad 4 y = pad 4 y' \<and> (pad 2 m < pad 2 m' \<or> pad 2 m = pad 2 m' \<and> pad 2 d < pad 2 d')"
    using r pad_less [of y y' 4] pad_less [of m m' 2] pad_less [of d d' 2] by fastforce
  from fields_less [OF l this] show ?thesis unfolding ab date_text_def prod.case .
qed

lemma clock_text_less:
  assumes "0 \<le> s" "s < s'" "s' < 86400"
  shows "length (clock_text s) = length (clock_text s') \<and> clock_text s < clock_text s'"
proof -
  have h: "s div 3600 = s div 60 div 60" "s' div 3600 = s' div 60 div 60" by (simp_all add: zdiv_zmult2_eq [symmetric])
  have r: "0 \<le> s div 3600" "s div 3600 < 24" "0 \<le> s' div 3600" "s' div 3600 < 24" using assms by auto
  have l: "length (pad 2 (s div 3600)) = length (pad 2 (s' div 3600))"
    "length (pad 2 (s div 60 mod 60)) = length (pad 2 (s' div 60 mod 60))" "length (pad 2 (s mod 60)) = length (pad 2 (s' mod 60))"
    using r pos_mod_bound [of 60 s] pos_mod_bound [of 60 s'] pos_mod_bound [of 60 "s div 60"] pos_mod_bound [of 60 "s' div 60"]
    by (simp_all add: length_pad)
  have "s div 3600 < s' div 3600 \<or> s div 3600 = s' div 3600 \<and>
      (s div 60 mod 60 < s' div 60 mod 60 \<or> s div 60 mod 60 = s' div 60 mod 60 \<and> s mod 60 < s' mod 60)"
    using div_mod_less [OF assms(2), of 60] div_mod_less [of "s div 60" "s' div 60" 60] unfolding h
    by (metis zero_less_numeral)
  moreover have "pad 2 (s div 3600) < pad 2 (s' div 3600)" if "s div 3600 < s' div 3600" using that r by (intro pad_less) simp_all
  moreover have "pad 2 (a mod 60) < pad 2 (b mod 60)" if "a mod 60 < b mod 60" for a b :: int
    using that pos_mod_bound [of 60 b] by (intro pad_less) simp_all
  ultimately have "pad 2 (s div 3600) < pad 2 (s' div 3600) \<or> pad 2 (s div 3600) = pad 2 (s' div 3600) \<and>
      (pad 2 (s div 60 mod 60) < pad 2 (s' div 60 mod 60) \<or>
       pad 2 (s div 60 mod 60) = pad 2 (s' div 60 mod 60) \<and> pad 2 (s mod 60) < pad 2 (s' mod 60))"
    by metis
  from fields_less [OF l this] show ?thesis unfolding clock_text_def .
qed

lemma fraction_text_less:
  assumes "0 \<le> f" "f < f'" "f' < 1000000"
  shows "fraction_text f < fraction_text f'"
proof (cases "f = 0")
  case True
  have "CHR ''+'' < CHR ''.''" by code_simp
  then show ?thesis using True assms by (simp add: fraction_text_def)
next
  case False
  then have "pad 6 f < pad 6 f'" "length (pad 6 f) = length (pad 6 f')" using assms by (simp_all add: pad_less length_pad)
  then show ?thesis using False assms by (simp add: fraction_text_def append_less)
qed

text \<open>Years 0 to 9999, in microseconds; Python's \<open>datetime\<close> has the years 1 to 9999.\<close>

definition datetime_range :: "int \<Rightarrow> bool" where
  "datetime_range us \<longleftrightarrow> - 62135596800000000 \<le> us \<and> us < 253402300800000000"

lemma datetime_range_years:
  assumes "datetime_range us"
  shows "in_years (civil_from_days (us div 86400000000))"
proof -
  let ?n = "us div 86400000000"
  obtain y m d where c: "civil_from_days ?n = (y, m, d)" by (cases "civil_from_days ?n")
  have lo: "civil_from_days (- 719162) = (1, 1, 1)" and hi: "civil_from_days 2932897 = (10000, 1, 1)" by code_simp+
  have n: "- 719162 \<le> ?n" "?n < 2932897" using assms by (auto simp: datetime_range_def)
  have "1 \<le> y" using civil_less [of "- 719162" ?n] n(1) lo c by (cases "?n = - 719162") (auto simp: date_less_def)
  moreover have "y < 10000" using civil_less [OF n(2)] hi c civil_bounds [OF c] by (auto simp: date_less_def)
  ultimately show ?thesis using civil_bounds [OF c] by (simp add: c in_years_def)
qed

lemma iso_utc_less:
  assumes "datetime_range a" "datetime_range b" "a < b"
  shows "iso_utc a < iso_utc b"
proof -
  let ?D = "86400000000 :: int" and ?S = "1000000 :: int"
  let ?s = "a mod ?D div ?S" and ?s' = "b mod ?D div ?S" and ?f = "a mod ?D mod ?S" and ?f' = "b mod ?D mod ?S"
  have m: "0 \<le> a mod ?D" "0 \<le> b mod ?D" "b mod ?D < ?D" "0 \<le> ?f" "?f' < ?S" by simp_all
  have s: "0 \<le> ?s" using m(1) by (rule pos_imp_zdiv_nonneg_iff [THEN iffD2, rotated]) simp
  have s': "?s' < 86400" using div_mod_less [OF m(3), of ?S] pos_mod_sign [of ?S "b mod ?D"] by auto
  consider "a div ?D < b div ?D" | "a div ?D = b div ?D" "?s < ?s'" | "a div ?D = b div ?D" "?s = ?s'" "?f < ?f'"
    using div_mod_less [OF assms(3), of ?D] div_mod_less [of "a mod ?D" "b mod ?D" ?S] by (metis zero_less_numeral)
  then show ?thesis
  proof cases
    case 1
    then have "date_text (civil_from_days (a div ?D)) < date_text (civil_from_days (b div ?D))"
      "length (date_text (civil_from_days (a div ?D))) = length (date_text (civil_from_days (b div ?D)))"
      using date_text_less [OF civil_less] datetime_range_years assms(1,2) by blast+
    then show ?thesis unfolding iso_utc_parts by (intro append_less) simp_all
  next
    case 2
    then have "clock_text ?s < clock_text ?s'" "length (clock_text ?s) = length (clock_text ?s')"
      using clock_text_less [OF s _ s'] by blast+
    then have "clock_text ?s @ fraction_text ?f < clock_text ?s' @ fraction_text ?f'" by (intro append_less) simp_all
    then show ?thesis unfolding iso_utc_parts 2(1) by (intro append_less) simp_all
  next
    case 3
    then have "fraction_text ?f < fraction_text ?f'" using fraction_text_less m by blast
    then have "clock_text ?s' @ fraction_text ?f < clock_text ?s' @ fraction_text ?f'" by (intro append_less) simp_all
    then show ?thesis unfolding iso_utc_parts 3(1,2) by (intro append_less) simp_all
  qed
qed

lemma iso_utc_mono:
  assumes "datetime_range a" "datetime_range b"
  shows "iso_utc a < iso_utc b \<longleftrightarrow> a < b" "iso_utc a = iso_utc b \<longleftrightarrow> a = b" "iso_utc a \<le> iso_utc b \<longleftrightarrow> a \<le> b"
  using iso_utc_less [OF assms] iso_utc_less [OF assms(2,1)]
  by (cases a b rule: linorder_cases; force)+

end
