(* ===== verification/Context_Models.thy ===== *)
theory Context_Models
  imports Provider_Models Iso_Order
begin

text \<open>
  providers/context_models.py and providers/context_policy.py: accounts, quota observations, projects and
  conversations of a provider with the constraints of their models, and the choice between the Chat and the
  Work experience. Timestamps of a model are aware and normalised to UTC, so they are the microseconds of
  the instant (that of an observation lies in the years that \<open>datetime\<close> has); a timestamp that reaches a function directly is a \<open>datetime\<close>.
\<close>

section \<open>Accounts and quotas\<close>

datatype plan_kind = Plan_free | Plan_paid | Plan_managed | Plan_unknown
datatype availability_state = Account_available | Account_unavailable | Account_degraded | Account_unknown
datatype experience_kind = Chat | Work
datatype experience_request_kind = Request_auto | Request_chat | Request_work
datatype quota_dimension = Chat_messages | Work_agentic | File_upload_rate | File_storage | Project_file_slots
datatype quota_state = Quota_available | Near_limit | Exhausted | Reset_pending | Quota_unavailable | Quota_unknown
datatype quota_unit = Unit_requests | Unit_files | Unit_bytes | Unit_credits | Unit_unknown
datatype project_memory_scope = Project_only | Default_scope | Unknown_scope
datatype binding_state = Binding_active | Binding_archived | Binding_deleted | Binding_inaccessible | Binding_unknown
datatype discovery_source = Operator_confirmed | Provider_returned | Official_connector | Compliance_api | Shared_reference | Simulated_source
datatype conversation_persistence = Persistent | Temporary | Unknown_persistence
datatype sync_scope = Cloud | Device_local | Mixed | Unknown_sync

fun dimension_value :: "quota_dimension \<Rightarrow> string" where
  "dimension_value Chat_messages = ''chat_messages''"
| "dimension_value Work_agentic = ''work_agentic''"
| "dimension_value File_upload_rate = ''file_upload_rate''"
| "dimension_value File_storage = ''file_storage''"
| "dimension_value Project_file_slots = ''project_file_slots''"

record provider_context_capabilities =
  can_create_projects :: capability_claim
  can_enumerate_projects :: capability_claim
  exposes_project_id :: capability_claim
  can_create_conversations :: capability_claim
  can_enumerate_conversations :: capability_claim
  exposes_conversation_id :: capability_claim

definition context_capabilities_valid :: "provider_context_capabilities \<Rightarrow> bool" where
  "context_capabilities_valid p \<longleftrightarrow> list_all (\<lambda>f. is_ok (validate_evidence (f p))) [can_create_projects, can_enumerate_projects,
     exposes_project_id, can_create_conversations, can_enumerate_conversations, exposes_conversation_id]"

text \<open>The pattern of a plan code is that of a provider name.\<close>

definition plan_pattern :: "string \<Rightarrow> bool" where
  "plan_pattern s = provider_pattern s"

record provider_account_profile =
  pa_account_id :: string
  pa_provider :: string
  pa_surface :: string
  pa_provider_account_id :: "string option"
  pa_plan_kind :: plan_kind
  pa_plan_code :: "string option"
  pa_availability :: availability_state
  pa_profile_evidence :: capability_evidence
  pa_work_capability :: capability_claim
  pa_context_capabilities :: provider_context_capabilities
  pa_revision :: int
  pa_created_at :: int
  pa_updated_at :: int

definition validate_profile :: "provider_account_profile \<Rightarrow> string + provider_account_profile" where
  "validate_profile p =
     (if pa_updated_at p < pa_created_at p then Inl ''updated_at must not precede created_at''
      else if pa_availability p = Account_unknown \<and> pa_profile_evidence p \<noteq> No_evidence
        then Inl ''unknown account availability requires evidence=none''
      else if pa_availability p \<noteq> Account_unknown \<and> pa_profile_evidence p = No_evidence
        then Inl ''known account availability requires evidence''
      else if pa_plan_kind p = Plan_unknown \<and> pa_plan_code p \<noteq> None then Inl ''unknown plans cannot carry plan_code''
      else if pa_plan_kind p \<noteq> Plan_unknown \<and> pa_plan_code p = None then Inl ''known plans require plan_code''
      else Inr p)"

definition account_profile_valid :: "provider_account_profile \<Rightarrow> bool" where
  "account_profile_valid p \<longleftrightarrow> id_pattern (pa_account_id p) \<and> provider_pattern (pa_provider p) \<and> provider_pattern (pa_surface p) \<and>
     optional (len_between 1 256) (pa_provider_account_id p) \<and> optional plan_pattern (pa_plan_code p) \<and>
     is_ok (validate_evidence (pa_work_capability p)) \<and> context_capabilities_valid (pa_context_capabilities p) \<and>
     1 \<le> pa_revision p \<and> is_ok (validate_profile p)"

record provider_quota_snapshot =
  qs_snapshot_id :: string
  qs_account_id :: string
  qs_dimension :: quota_dimension
  qs_state :: quota_state
  qs_evidence :: capability_evidence
  qs_observed_at :: int
  qs_reset_at :: "int option"
  qs_remaining_value :: "int option"
  qs_limit_value :: "int option"
  qs_unit :: quota_unit

definition validate_snapshot :: "provider_quota_snapshot \<Rightarrow> string + provider_quota_snapshot" where
  "validate_snapshot q =
     (if qs_state q = Quota_unknown \<and> qs_evidence q \<noteq> No_evidence then Inl ''unknown quota state requires evidence=none''
      else if qs_state q \<noteq> Quota_unknown \<and> qs_evidence q = No_evidence then Inl ''known quota state requires evidence''
      else if (case qs_reset_at q of None \<Rightarrow> False | Some r \<Rightarrow> r < qs_observed_at q) then Inl ''reset_at must not precede observed_at''
      else if (qs_remaining_value q \<noteq> None \<or> qs_limit_value q \<noteq> None) \<and> qs_unit q = Unit_unknown
        then Inl ''numeric quota evidence requires a known unit''
      else if \<not> (qs_remaining_value q \<noteq> None \<or> qs_limit_value q \<noteq> None) \<and> qs_unit q \<noteq> Unit_unknown
        then Inl ''quota unit requires numeric evidence''
      else if (case (qs_remaining_value q, qs_limit_value q) of (Some r, Some l) \<Rightarrow> l < r | _ \<Rightarrow> False)
        then Inl ''remaining_value cannot exceed limit_value''
      else if qs_state q = Exhausted \<and> qs_remaining_value q \<notin> {None, Some 0}
        then Inl ''exhausted quota cannot report a positive remainder''
      else if qs_state q \<in> {Quota_available, Near_limit} \<and> qs_remaining_value q = Some 0
        then Inl ''usable quota cannot report zero remaining''
      else Inr q)"

definition quota_snapshot_valid :: "provider_quota_snapshot \<Rightarrow> bool" where
  "quota_snapshot_valid q \<longleftrightarrow> id_pattern (qs_snapshot_id q) \<and> id_pattern (qs_account_id q) \<and>
     datetime_range (qs_observed_at q) \<and> optional (\<lambda>n. 0 \<le> n) (qs_remaining_value q) \<and> optional (\<lambda>n. 1 \<le> n) (qs_limit_value q) \<and> is_ok (validate_snapshot q)"

section \<open>Projects and conversations\<close>

record provider_project_binding =
  pb_project_id :: string
  pb_account_id :: string
  pb_provider :: string
  pb_surface :: string
  pb_provider_project_id :: "string option"
  pb_display_name :: string
  pb_memory_scope :: project_memory_scope
  pb_state :: binding_state
  pb_discovery_source :: discovery_source
  pb_revision :: int
  pb_created_at :: int
  pb_updated_at :: int

definition project_binding_valid :: "provider_project_binding \<Rightarrow> bool" where
  "project_binding_valid b \<longleftrightarrow> id_pattern (pb_project_id b) \<and> id_pattern (pb_account_id b) \<and> provider_pattern (pb_provider b) \<and>
     provider_pattern (pb_surface b) \<and> optional (len_between 1 256) (pb_provider_project_id b) \<and> len_between 1 200 (pb_display_name b) \<and>
     1 \<le> pb_revision b \<and> \<not> pb_updated_at b < pb_created_at b"

record provider_conversation_binding =
  cb_conversation_id :: string
  cb_account_id :: string
  cb_project_id :: "string option"
  cb_provider :: string
  cb_surface :: string
  cb_provider_conversation_id :: "string option"
  cb_display_name :: string
  cb_experience :: experience_kind
  cb_persistence :: conversation_persistence
  cb_sync_scope :: sync_scope
  cb_state :: binding_state
  cb_discovery_source :: discovery_source
  cb_revision :: int
  cb_created_at :: int
  cb_updated_at :: int

definition validate_binding :: "provider_conversation_binding \<Rightarrow> string + provider_conversation_binding" where
  "validate_binding b =
     (if cb_updated_at b < cb_created_at b then Inl ''updated_at must not precede created_at''
      else if cb_persistence b = Temporary \<and> cb_project_id b \<noteq> None then Inl ''temporary conversations cannot belong to a project''
      else Inr b)"

definition conversation_binding_valid :: "provider_conversation_binding \<Rightarrow> bool" where
  "conversation_binding_valid b \<longleftrightarrow> id_pattern (cb_conversation_id b) \<and> id_pattern (cb_account_id b) \<and> optional id_pattern (cb_project_id b) \<and>
     provider_pattern (cb_provider b) \<and> provider_pattern (cb_surface b) \<and> optional (len_between 1 256) (cb_provider_conversation_id b) \<and>
     len_between 1 200 (cb_display_name b) \<and> 1 \<le> cb_revision b \<and> is_ok (validate_binding b)"

section \<open>Selecting an experience\<close>

datatype selection_reason = Reason_account_unavailable | Reason_account_unknown | Default_chat | Explicit_chat | Work_available
  | Work_near_limit | Work_unsupported | Work_unknown | Work_quota_missing | Work_quota_exhausted | Work_quota_unavailable
  | Work_quota_unknown | Work_quota_stale

record experience_selection_request =
  sr_request_id :: string
  sr_account_id :: string
  sr_requested :: experience_request_kind
  sr_requested_at :: int

definition selection_request_valid :: "experience_selection_request \<Rightarrow> bool" where
  "selection_request_valid r \<longleftrightarrow> id_pattern (sr_request_id r) \<and> id_pattern (sr_account_id r)"

record experience_selection_decision =
  sd_request_id :: string
  sd_account_id :: string
  sd_selected :: "experience_kind option"
  sd_reason :: selection_reason
  sd_fallback_used :: bool
  sd_automatic_credit_purchase :: bool
  sd_user_message_code :: string
  sd_evaluated_at :: int

definition validate_decision :: "experience_selection_decision \<Rightarrow> string + experience_selection_decision" where
  "validate_decision d =
     (if sd_reason d \<in> {Reason_account_unavailable, Reason_account_unknown} then
        if sd_selected d \<noteq> None \<or> sd_fallback_used d then Inl ''unavailable accounts cannot select an experience'' else Inr d
      else if sd_reason d \<in> {Default_chat, Explicit_chat} then
        if sd_selected d \<noteq> Some Chat \<or> sd_fallback_used d then Inl ''direct Chat decisions cannot be fallbacks'' else Inr d
      else if sd_reason d \<in> {Work_available, Work_near_limit} then
        if sd_selected d \<noteq> Some Work \<or> sd_fallback_used d then Inl ''Work decisions require a direct Work selection'' else Inr d
      else if sd_reason d \<in> {Work_unsupported, Work_unknown, Work_quota_missing, Work_quota_exhausted, Work_quota_unavailable,
          Work_quota_unknown, Work_quota_stale} then
        if sd_selected d \<noteq> Some Chat \<or> \<not> sd_fallback_used d then Inl ''Work fallback decisions must select Chat'' else Inr d
      else Inr d)"

definition selection_decision_valid :: "experience_selection_decision \<Rightarrow> bool" where
  "selection_decision_valid d \<longleftrightarrow> id_pattern (sd_request_id d) \<and> id_pattern (sd_account_id d) \<and> \<not> sd_automatic_credit_purchase d \<and>
     error_code_pattern (sd_user_message_code d) \<and> is_ok (validate_decision d)"

text \<open>\<open>_decision\<close> builds the model, which validates itself.\<close>

definition decision_of :: "experience_selection_request \<Rightarrow> experience_kind option \<Rightarrow> selection_reason \<Rightarrow> bool \<Rightarrow> string \<Rightarrow> int \<Rightarrow>
    string + experience_selection_decision" where
  "decision_of request selected reason fallback message evaluated_at =
     (let d = \<lparr>sd_request_id = sr_request_id request, sd_account_id = sr_account_id request, sd_selected = selected, sd_reason = reason,
          sd_fallback_used = fallback, sd_automatic_credit_purchase = False, sd_user_message_code = message,
          sd_evaluated_at = evaluated_at\<rparr>
      in if selection_decision_valid d then Inr d else Inl ''invalid selection decision'')"

definition chat_fallback :: "experience_selection_request \<Rightarrow> selection_reason \<Rightarrow> string \<Rightarrow> int \<Rightarrow> string + experience_selection_decision" where
  "chat_fallback request reason message evaluated_at = decision_of request (Some Chat) reason True message evaluated_at"

definition default_work_quota_max_age :: int where
  "default_work_quota_max_age = 5 * 60 * 1000000"

text \<open>The decision for an available account that asked for Work.\<close>

definition select_work ::
  "provider_account_profile \<Rightarrow> experience_selection_request \<Rightarrow> int \<Rightarrow> provider_quota_snapshot option \<Rightarrow> int \<Rightarrow>
    string + experience_selection_decision" where
  "select_work account request evaluated_at work_quota max_age =
     (if cl_state (pa_work_capability account) = Unsupported
        then chat_fallback request Work_unsupported ''WORK_UNSUPPORTED_FALLBACK_CHAT'' evaluated_at
      else if cl_state (pa_work_capability account) = Unknown
        then chat_fallback request Work_unknown ''WORK_UNKNOWN_FALLBACK_CHAT'' evaluated_at
      else case work_quota of
        None \<Rightarrow> chat_fallback request Work_quota_missing ''WORK_QUOTA_MISSING_FALLBACK_CHAT'' evaluated_at
      | Some q \<Rightarrow>
          if qs_account_id q \<noteq> pa_account_id account then Inl ''work quota does not belong to the account''
          else if qs_dimension q \<noteq> Work_agentic then Inl ''work selection requires the work_agentic quota dimension''
          else if qs_observed_at q > evaluated_at then Inl ''quota observation cannot be newer than the decision''
          else if evaluated_at - qs_observed_at q > max_age
            then chat_fallback request Work_quota_stale ''WORK_QUOTA_STALE_FALLBACK_CHAT'' evaluated_at
          else if qs_state q = Quota_available
            then decision_of request (Some Work) Work_available False ''WORK_SELECTED_EXPLICITLY'' evaluated_at
          else if qs_state q = Near_limit
            then decision_of request (Some Work) Work_near_limit False ''WORK_SELECTED_NEAR_LIMIT'' evaluated_at
          else if qs_state q \<in> {Exhausted, Reset_pending}
            then chat_fallback request Work_quota_exhausted ''WORK_QUOTA_EXHAUSTED_FALLBACK_CHAT'' evaluated_at
          else if qs_state q = Quota_unavailable
            then chat_fallback request Work_quota_unavailable ''WORK_QUOTA_UNAVAILABLE_FALLBACK_CHAT'' evaluated_at
          else chat_fallback request Work_quota_unknown ''WORK_QUOTA_UNKNOWN_FALLBACK_CHAT'' evaluated_at)"

definition select_chatgpt_experience ::
  "provider_account_profile \<Rightarrow> experience_selection_request \<Rightarrow> datetime \<Rightarrow> provider_quota_snapshot option \<Rightarrow> int \<Rightarrow>
    string + experience_selection_decision" where
  "select_chatgpt_experience account request evaluated work_quota max_age =
     (let evaluated_at = dt_instant evaluated in
      if \<not> dt_aware evaluated then Inl ''timestamps must include a timezone''
      else if max_age \<le> 0 then Inl ''work_quota_max_age must be positive''
      else if sr_account_id request \<noteq> pa_account_id account then Inl ''selection request does not belong to the account''
      else if sr_requested_at request > evaluated_at then Inl ''selection request cannot be evaluated before it was created''
      else if pa_updated_at account > evaluated_at then Inl ''account observation cannot be newer than the decision''
      else if pa_availability account = Account_unknown
        then decision_of request None Reason_account_unknown False ''CHATGPT_ACCOUNT_UNKNOWN'' evaluated_at
      else if pa_availability account \<noteq> Account_available
        then decision_of request None Reason_account_unavailable False ''CHATGPT_ACCOUNT_UNAVAILABLE'' evaluated_at
      else if sr_requested request = Request_auto
        then decision_of request (Some Chat) Default_chat False ''CHAT_SELECTED_BY_DEFAULT'' evaluated_at
      else if sr_requested request = Request_chat
        then decision_of request (Some Chat) Explicit_chat False ''CHAT_SELECTED_EXPLICITLY'' evaluated_at
      else select_work account request evaluated_at work_quota max_age)"

section \<open>Properties\<close>

text \<open>Every message code the policy uses fits its pattern, so a decision of the policy is always a valid model.\<close>

lemma message_codes:
  "error_code_pattern ''CHATGPT_ACCOUNT_UNKNOWN''"
  "error_code_pattern ''CHATGPT_ACCOUNT_UNAVAILABLE''"
  "error_code_pattern ''CHAT_SELECTED_BY_DEFAULT''"
  "error_code_pattern ''CHAT_SELECTED_EXPLICITLY''"
  "error_code_pattern ''WORK_UNSUPPORTED_FALLBACK_CHAT''"
  "error_code_pattern ''WORK_UNKNOWN_FALLBACK_CHAT''"
  "error_code_pattern ''WORK_QUOTA_MISSING_FALLBACK_CHAT''"
  "error_code_pattern ''WORK_QUOTA_STALE_FALLBACK_CHAT''"
  "error_code_pattern ''WORK_SELECTED_EXPLICITLY''"
  "error_code_pattern ''WORK_SELECTED_NEAR_LIMIT''"
  "error_code_pattern ''WORK_QUOTA_EXHAUSTED_FALLBACK_CHAT''"
  "error_code_pattern ''WORK_QUOTA_UNAVAILABLE_FALLBACK_CHAT''"
  "error_code_pattern ''WORK_QUOTA_UNKNOWN_FALLBACK_CHAT''"
  by code_simp+

text \<open>A decision that agrees with its reason is built.\<close>

definition reason_fits :: "experience_kind option \<Rightarrow> selection_reason \<Rightarrow> bool \<Rightarrow> bool" where
  "reason_fits selected reason fallback \<longleftrightarrow>
     (if reason \<in> {Reason_account_unavailable, Reason_account_unknown} then selected = None \<and> \<not> fallback
      else if reason \<in> {Default_chat, Explicit_chat} then selected = Some Chat \<and> \<not> fallback
      else if reason \<in> {Work_available, Work_near_limit} then selected = Some Work \<and> \<not> fallback
      else selected = Some Chat \<and> fallback)"

definition decides :: "experience_selection_request \<Rightarrow> experience_kind option \<Rightarrow> bool \<Rightarrow> string + experience_selection_decision \<Rightarrow> bool" where
  "decides request selected fallback r = (case r of Inl _ \<Rightarrow> False
     | Inr d \<Rightarrow> selection_decision_valid d \<and> sd_request_id d = sr_request_id request \<and> sd_account_id d = sr_account_id request \<and>
         \<not> sd_automatic_credit_purchase d \<and> sd_selected d = selected \<and> sd_fallback_used d = fallback)"

lemma decides_decision_of:
  assumes "selection_request_valid request" "error_code_pattern message" "reason_fits selected reason fallback"
  shows "decides request selected fallback (decision_of request selected reason fallback message now)"
proof -
  let ?d = "\<lparr>sd_request_id = sr_request_id request, sd_account_id = sr_account_id request, sd_selected = selected,
       sd_reason = reason, sd_fallback_used = fallback, sd_automatic_credit_purchase = False, sd_user_message_code = message,
       sd_evaluated_at = now\<rparr>"
  have "is_ok (validate_decision ?d)" using assms(3) by (cases reason) (simp_all add: validate_decision_def reason_fits_def)
  then have "selection_decision_valid ?d" using assms(1,2) by (simp add: selection_decision_valid_def selection_request_valid_def)
  then show ?thesis by (simp add: decision_of_def decides_def)
qed

text \<open>The quota that lets an account work now, and the inputs that fit together.\<close>

definition fresh_work_quota :: "int \<Rightarrow> int \<Rightarrow> provider_quota_snapshot \<Rightarrow> bool" where
  "fresh_work_quota now max_age q \<longleftrightarrow> qs_state q \<in> {Quota_available, Near_limit} \<and> now - qs_observed_at q \<le> max_age"

definition work_wanted :: "provider_account_profile \<Rightarrow> experience_selection_request \<Rightarrow> bool" where
  "work_wanted account request \<longleftrightarrow> pa_availability account = Account_available \<and> sr_requested request = Request_work"

definition selection_inputs_fit ::
  "provider_account_profile \<Rightarrow> experience_selection_request \<Rightarrow> datetime \<Rightarrow> provider_quota_snapshot option \<Rightarrow> int \<Rightarrow> bool" where
  "selection_inputs_fit account request evaluated work_quota max_age \<longleftrightarrow>
     dt_aware evaluated \<and> 0 < max_age \<and> sr_account_id request = pa_account_id account \<and>
     sr_requested_at request \<le> dt_instant evaluated \<and> pa_updated_at account \<le> dt_instant evaluated \<and>
     (work_wanted account request \<and> cl_state (pa_work_capability account) = Supported \<longrightarrow>
        optional (\<lambda>q. qs_account_id q = pa_account_id account \<and> qs_dimension q = Work_agentic \<and>
          qs_observed_at q \<le> dt_instant evaluated) work_quota)"

definition work_granted :: "provider_account_profile \<Rightarrow> provider_quota_snapshot option \<Rightarrow> int \<Rightarrow> int \<Rightarrow> bool" where
  "work_granted account work_quota now max_age \<longleftrightarrow> cl_state (pa_work_capability account) = Supported \<and>
     (\<exists>q. work_quota = Some q \<and> fresh_work_quota now max_age q)"

lemma select_work_decides:
  assumes "selection_request_valid request"
    and "optional (\<lambda>q. qs_account_id q = pa_account_id account \<and> qs_dimension q = Work_agentic \<and> qs_observed_at q \<le> now) work_quota \<or>
      cl_state (pa_work_capability account) \<noteq> Supported"
  shows "decides request (Some (if work_granted account work_quota now max_age then Work else Chat))
    (\<not> work_granted account work_quota now max_age) (select_work account request now work_quota max_age)"
proof -
  note d = decides_decision_of [OF assms(1)]
  show ?thesis
  proof (cases "cl_state (pa_work_capability account) = Supported")
    case False
    then show ?thesis by (cases "cl_state (pa_work_capability account)") (auto simp: work_granted_def select_work_def chat_fallback_def reason_fits_def intro!: d message_codes)
  next
    case True
    show ?thesis
    proof (cases work_quota)
      case None
      then show ?thesis using True by (auto simp: work_granted_def select_work_def chat_fallback_def reason_fits_def intro!: d message_codes)
    next
      case (Some q)
      then show ?thesis using True assms(2)
        by (cases "qs_state q"; cases "now - qs_observed_at q \<le> max_age")
          (auto simp: work_granted_def select_work_def chat_fallback_def reason_fits_def fresh_work_quota_def optional_def intro!: d message_codes)
    qed
  qed
qed

text \<open>The choice of an experience is exact: a decision is made precisely when its inputs fit together; it is a valid
  decision for this request that never buys credit; nothing is selected precisely when the account is not
  available; Work is selected precisely when an available account asked for it, its plan supports it and a
  fresh quota observation says that some is left; and Chat as a fallback means that Work was asked for.\<close>

theorem experience_selection_exact:
  assumes "selection_request_valid request"
  shows "case select_chatgpt_experience account request evaluated work_quota max_age of
      Inl _ \<Rightarrow> \<not> selection_inputs_fit account request evaluated work_quota max_age
    | Inr d \<Rightarrow> selection_inputs_fit account request evaluated work_quota max_age \<and> selection_decision_valid d \<and>
        sd_request_id d = sr_request_id request \<and> sd_account_id d = pa_account_id account \<and> \<not> sd_automatic_credit_purchase d \<and>
        (sd_selected d = None \<longleftrightarrow> pa_availability account \<noteq> Account_available) \<and>
        (sd_selected d = Some Work \<longleftrightarrow> work_wanted account request \<and> work_granted account work_quota (dt_instant evaluated) max_age) \<and>
        (sd_fallback_used d \<longleftrightarrow> work_wanted account request \<and> sd_selected d = Some Chat)"
proof -
  let ?r = "select_chatgpt_experience account request evaluated work_quota max_age" and ?now = "dt_instant evaluated"
  let ?granted = "work_granted account work_quota ?now max_age"
  let ?base = "dt_aware evaluated \<and> 0 < max_age \<and> sr_account_id request = pa_account_id account \<and>
     sr_requested_at request \<le> ?now \<and> pa_updated_at account \<le> ?now"
  note d = decides_decision_of [OF assms]
  consider "\<not> ?base" | "?base" "pa_availability account \<noteq> Account_available"
    | "?base" "pa_availability account = Account_available" "sr_requested request \<noteq> Request_work"
    | "?base" "work_wanted account request" by (auto simp: work_wanted_def)
  then show ?thesis
  proof cases
    case 1
    then have "\<exists>e. ?r = Inl e" by (auto simp: select_chatgpt_experience_def Let_def not_less not_le)
    then show ?thesis using 1 by (auto simp: selection_inputs_fit_def)
  next
    case 2
    then have "decides request None False ?r"
      by (auto simp: select_chatgpt_experience_def Let_def reason_fits_def intro!: d message_codes)
    then show ?thesis using 2 by (auto simp: decides_def selection_inputs_fit_def work_wanted_def split: sum.splits)
  next
    case 3
    then have "decides request (Some Chat) False ?r" by (cases "sr_requested request")
      (auto simp: select_chatgpt_experience_def Let_def reason_fits_def intro!: d message_codes)
    then show ?thesis using 3 by (auto simp: decides_def selection_inputs_fit_def work_wanted_def split: sum.splits)
  next
    case 4
    then have r: "?r = select_work account request ?now work_quota max_age" 
      by (auto simp: select_chatgpt_experience_def Let_def work_wanted_def)
    show ?thesis
    proof (cases "selection_inputs_fit account request evaluated work_quota max_age")
      case True
      then have "decides request (Some (if ?granted then Work else Chat)) (\<not> ?granted) ?r"
        unfolding r using 4 by (intro select_work_decides assms) (auto simp: selection_inputs_fit_def)
      then show ?thesis using True 4 by (auto simp: decides_def selection_inputs_fit_def work_wanted_def split: sum.splits if_splits)
    next
      case False
      then have "\<exists>e. ?r = Inl e"
        using 4 by (auto simp: r select_work_def selection_inputs_fit_def optional_def split: option.splits)
      then show ?thesis using False by auto
    qed
  qed
qed

definition ex_claim :: capability_claim where
  "ex_claim = \<lparr>cl_state = Supported, cl_evidence = Observed\<rparr>"

definition ex_account :: provider_account_profile where
  "ex_account = \<lparr>pa_account_id = ''acct_1'', pa_provider = ''chatgpt'', pa_surface = ''web'', pa_provider_account_id = Some ''p-1'',
     pa_plan_kind = Plan_paid, pa_plan_code = Some ''plus'', pa_availability = Account_available, pa_profile_evidence = Observed,
     pa_work_capability = ex_claim, pa_context_capabilities = \<lparr>can_create_projects = ex_claim, can_enumerate_projects = ex_claim,
       exposes_project_id = ex_claim, can_create_conversations = ex_claim, can_enumerate_conversations = ex_claim,
       exposes_conversation_id = ex_claim\<rparr>, pa_revision = 1, pa_created_at = 0, pa_updated_at = 10\<rparr>"

definition ex_quota :: "string \<Rightarrow> int \<Rightarrow> provider_quota_snapshot" where
  "ex_quota k t = \<lparr>qs_snapshot_id = k, qs_account_id = ''acct_1'', qs_dimension = Work_agentic, qs_state = Near_limit,
     qs_evidence = Observed, qs_observed_at = t, qs_reset_at = None, qs_remaining_value = Some 2, qs_limit_value = Some 40,
     qs_unit = Unit_requests\<rparr>"

definition ex_selection :: experience_selection_request where
  "ex_selection = \<lparr>sr_request_id = ''req_1'', sr_account_id = ''acct_1'', sr_requested = Request_work, sr_requested_at = 15\<rparr>"

theorem experience_selection_exact_witness:
  "\<exists>d. select_chatgpt_experience ex_account ex_selection \<lparr>dt_instant = 20, dt_aware = True, dt_text = []\<rparr> (Some (ex_quota ''snap_1'' 12))
      default_work_quota_max_age = Inr d \<and> sd_selected d = Some Work \<and> selection_decision_valid d"
proof -
  let ?e = "\<lparr>dt_instant = 20, dt_aware = True, dt_text = []\<rparr>" and ?q = "ex_quota ''snap_1'' 12"
  have v: "selection_request_valid ex_selection" by code_simp
  have f: "selection_inputs_fit ex_account ex_selection ?e (Some ?q) default_work_quota_max_age"
    "work_wanted ex_account ex_selection" "cl_state (pa_work_capability ex_account) = Supported"
    "fresh_work_quota 20 default_work_quota_max_age ?q" by code_simp+
  then have "work_granted ex_account (Some ?q) 20 default_work_quota_max_age" by (simp add: work_granted_def)
  with f show ?thesis using experience_selection_exact [OF v, of ex_account ?e "Some ?q" default_work_quota_max_age]
    by (cases "select_chatgpt_experience ex_account ex_selection ?e (Some ?q) default_work_quota_max_age") auto
qed

end
