(* ===== verification/Context_Store.thy ===== *)
theory Context_Store
  imports Context_Models Json_Codec Py_Text
begin

text \<open>
  providers/context_store.py: the SQLite store of provider accounts, quota observations, projects and
  conversations, where accounts and bindings keep a head row and every version they had. A table is the list of its rows in insertion
  order, with its primary key, unique, check and foreign key constraints tested by the statements; a
  transaction commits or leaves the database as it was. SHA-256 and the JSON that pydantic prints and reads for
  each model are parameters (\<open>context_codec\<close>), under the hypothesis \<open>context_codec_ok\<close>: a printed valid model is read back
  as itself, and what is read is valid.
\<close>

section \<open>Rows and payloads\<close>

datatype context_error =
    Context_error string
  | Context_conflict string
  | Context_corrupt string
  | Unsupported_context_schema string
  | Context_key_error string
  | Context_integrity_error
  | Context_operational_error

datatype write_result = Written | Duplicate_write

record account_row =
  ac_account_id :: string
  ac_revision :: int
  ac_provider :: string
  ac_surface :: string
  ac_provider_account_id :: "string option"
  ac_fingerprint :: string
  ac_payload_json :: string

record quota_row =
  qr_snapshot_id :: string
  qr_account_id :: string
  qr_dimension :: string
  qr_observed_at :: string
  qr_fingerprint :: string
  qr_payload_json :: string

text \<open>A row of \<open>projects\<close>, \<open>conversations\<close> and of their version tables; the identifier columns are named after the table.\<close>

record binding_row =
  bi_id :: string
  bi_revision :: int
  bi_account_id :: string
  bi_provider :: string
  bi_surface :: string
  bi_provider_id :: "string option"
  bi_fingerprint :: string
  bi_payload_json :: string

record context_db =
  cx_accounts :: "account_row list"
  cx_account_versions :: "account_row list"
  cx_quota_snapshots :: "quota_row list"
  cx_projects :: "binding_row list"
  cx_project_versions :: "binding_row list"
  cx_conversations :: "binding_row list"
  cx_conversation_versions :: "binding_row list"

record context_codec =
  cc_sha256 :: "bytes \<Rightarrow> bytes"
  dump_account :: "provider_account_profile \<Rightarrow> string"
  parse_account :: "string \<Rightarrow> provider_account_profile option"
  dump_quota :: "provider_quota_snapshot \<Rightarrow> string"
  parse_quota :: "string \<Rightarrow> provider_quota_snapshot option"
  dump_project :: "provider_project_binding \<Rightarrow> string"
  parse_project :: "string \<Rightarrow> provider_project_binding option"
  dump_binding :: "provider_conversation_binding \<Rightarrow> string"
  parse_binding :: "string \<Rightarrow> provider_conversation_binding option"

definition context_codec_ok :: "context_codec \<Rightarrow> bool" where
  "context_codec_ok cd \<longleftrightarrow> payload_ok account_profile_valid (dump_account cd) (parse_account cd) \<and>
     payload_ok quota_snapshot_valid (dump_quota cd) (parse_quota cd) \<and>
     payload_ok project_binding_valid (dump_project cd) (parse_project cd) \<and>
     payload_ok conversation_binding_valid (dump_binding cd) (parse_binding cd)"

definition context_fingerprint :: "context_codec \<Rightarrow> string \<Rightarrow> string" where
  "context_fingerprint cd payload =
     hexlify (cc_sha256 cd (''systeme-local:provider-context:v1'' @ [CHR 0x00] @ be_bytes 8 (length (utf8 payload)) @ utf8 payload))"

definition serialized :: "context_codec \<Rightarrow> ('m \<Rightarrow> string) \<Rightarrow> 'm \<Rightarrow> string \<times> string" where
  "serialized cd dump m = (let payload = dump m in (payload, context_fingerprint cd payload))"

definition validated_payload ::
  "context_codec \<Rightarrow> string \<Rightarrow> ('m \<Rightarrow> string) \<Rightarrow> (string \<Rightarrow> 'm option) \<Rightarrow> string \<Rightarrow> string \<Rightarrow> context_error + 'm" where
  "validated_payload cd model_name dump validator payload fp =
     (if context_fingerprint cd payload \<noteq> fp then Inl (Context_corrupt (model_name @ '' fingerprint mismatch''))
      else case validator payload of None \<Rightarrow> Inl (Context_corrupt (''invalid '' @ model_name @ '' payload''))
      | Some m \<Rightarrow> if context_fingerprint cd (dump m) \<noteq> fp
          then Inl (Context_corrupt (model_name @ '' payload is not canonical'')) else Inr m)"

definition account_to_row :: "context_codec \<Rightarrow> provider_account_profile \<Rightarrow> account_row" where
  "account_to_row cd p = (case serialized cd (dump_account cd) p of (payload, fp) \<Rightarrow>
     \<lparr>ac_account_id = pa_account_id p, ac_revision = pa_revision p, ac_provider = pa_provider p, ac_surface = pa_surface p,
       ac_provider_account_id = pa_provider_account_id p, ac_fingerprint = fp, ac_payload_json = payload\<rparr>)"

definition quota_to_row :: "context_codec \<Rightarrow> provider_quota_snapshot \<Rightarrow> quota_row" where
  "quota_to_row cd q = (case serialized cd (dump_quota cd) q of (payload, fp) \<Rightarrow>
     \<lparr>qr_snapshot_id = qs_snapshot_id q, qr_account_id = qs_account_id q, qr_dimension = dimension_value (qs_dimension q),
       qr_observed_at = iso_utc (qs_observed_at q), qr_fingerprint = fp, qr_payload_json = payload\<rparr>)"

definition account_from_row :: "context_codec \<Rightarrow> account_row \<Rightarrow> context_error + provider_account_profile" where
  "account_from_row cd row =
     (case validated_payload cd ''account'' (dump_account cd) (parse_account cd) (ac_payload_json row) (ac_fingerprint row) of
        Inl e \<Rightarrow> Inl e
      | Inr m \<Rightarrow> if pa_account_id m \<noteq> ac_account_id row \<or> pa_revision m \<noteq> ac_revision row \<or> pa_provider m \<noteq> ac_provider row \<or>
            pa_surface m \<noteq> ac_surface row \<or> pa_provider_account_id m \<noteq> ac_provider_account_id row
          then Inl (Context_corrupt ''account columns do not match its payload'') else Inr m)"

definition quota_from_row :: "context_codec \<Rightarrow> quota_row \<Rightarrow> context_error + provider_quota_snapshot" where
  "quota_from_row cd row =
     (case validated_payload cd ''quota snapshot'' (dump_quota cd) (parse_quota cd) (qr_payload_json row) (qr_fingerprint row) of
        Inl e \<Rightarrow> Inl e
      | Inr m \<Rightarrow> if qs_snapshot_id m \<noteq> qr_snapshot_id row \<or> qs_account_id m \<noteq> qr_account_id row \<or>
            dimension_value (qs_dimension m) \<noteq> qr_dimension row \<or> iso_utc (qs_observed_at m) \<noteq> qr_observed_at row
          then Inl (Context_corrupt ''quota columns do not match its payload'') else Inr m)"

section \<open>Transactions and accounts\<close>

text \<open>\<open>BEGIN IMMEDIATE\<close> fails when another connection keeps the write lock; otherwise the body commits or rolls back.\<close>

type_synonym context_body = "context_db \<Rightarrow> context_error + write_result \<times> context_db"
type_synonym context_op = "context_db \<Rightarrow> (context_error + write_result) \<times> context_db"

definition context_transaction :: "bool \<Rightarrow> context_body \<Rightarrow> context_op" where
  "context_transaction busy body db =
     (if busy then (Inl Context_operational_error, db)
      else case body db of Inl e \<Rightarrow> (Inl e, db) | Inr (r, db') \<Rightarrow> (Inr r, db'))"

text \<open>The partial unique index of a head table, over the mapping columns of its rows.\<close>

definition mapping_unique :: "(string \<times> string \<times> string option) list \<Rightarrow> bool" where
  "mapping_unique ms \<longleftrightarrow> distinct (filter (\<lambda>(p, s, k). k \<noteq> None) ms)"

definition account_mapping :: "account_row \<Rightarrow> string \<times> string \<times> string option" where
  "account_mapping r = (ac_provider r, ac_surface r, ac_provider_account_id r)"

definition select_account :: "string \<Rightarrow> context_db \<Rightarrow> account_row option" where
  "select_account k db = List.find (\<lambda>r. ac_account_id r = k) (cx_accounts db)"

definition ensure_account_mapping_available :: "provider_account_profile \<Rightarrow> context_db \<Rightarrow> context_error option" where
  "ensure_account_mapping_available p db =
     (if pa_provider_account_id p \<noteq> None \<and>
         list_ex (\<lambda>r. ac_provider r = pa_provider p \<and> ac_surface r = pa_surface p \<and>
           ac_provider_account_id r = pa_provider_account_id p \<and> ac_account_id r \<noteq> pa_account_id p) (cx_accounts db)
        then Some (Context_conflict ''provider account mapping is already registered'') else None)"

definition insert_account_history :: "account_row \<Rightarrow> context_db \<Rightarrow> context_error + context_db" where
  "insert_account_history row db =
     (if ac_revision row < 1 \<or>
         (ac_account_id row, ac_revision row) \<in> set (map (\<lambda>r. (ac_account_id r, ac_revision r)) (cx_account_versions db))
        then Inl Context_integrity_error
      else Inr (db\<lparr>cx_account_versions := cx_account_versions db @ [row]\<rparr>))"

definition insert_account :: "account_row \<Rightarrow> context_body" where
  "insert_account row db =
     (let rows = cx_accounts db @ [row] in
      if ac_revision row < 1 \<or> ac_account_id row \<in> set (map ac_account_id (cx_accounts db)) \<or> \<not> mapping_unique (map account_mapping rows)
        then Inl Context_integrity_error
      else Inr (Written, db\<lparr>cx_accounts := rows\<rparr>))"

text \<open>\<open>UPDATE ... WHERE account_id = ? AND revision = ?\<close> with the test of its row count.\<close>

definition update_account :: "account_row \<Rightarrow> int \<Rightarrow> context_body" where
  "update_account row expected db =
     (let hit = (\<lambda>r. ac_account_id r = ac_account_id row \<and> ac_revision r = expected);
          rows = map (\<lambda>r. if hit r then row else r) (cx_accounts db); rowcount = length (filter hit (cx_accounts db)) in
      if 0 < rowcount \<and> (ac_revision row < 1 \<or> \<not> mapping_unique (map account_mapping rows)) then Inl Context_integrity_error
      else if rowcount \<noteq> 1 then Inl (Context_conflict ''stale account revision'')
      else Inr (Written, db\<lparr>cx_accounts := rows\<rparr>))"

definition validate_replacement :: "int \<Rightarrow> int \<Rightarrow> int \<Rightarrow> bool \<Rightarrow> bool \<Rightarrow> bool \<Rightarrow> bool \<Rightarrow> string \<Rightarrow> context_error option" where
  "validate_replacement current_revision expected_revision new_revision created_at_matches identity_matches
       updated_at_not_backwards provider_mapping_compatible model_name =
     (if current_revision \<noteq> expected_revision then Some (Context_conflict (''stale '' @ model_name @ '' revision''))
      else if new_revision \<noteq> expected_revision + 1 then Some (Context_conflict (model_name @ '' revision must advance by one''))
      else if \<not> created_at_matches then Some (Context_conflict (model_name @ '' created_at is immutable''))
      else if \<not> identity_matches then Some (Context_conflict (model_name @ '' identity is immutable''))
      else if \<not> updated_at_not_backwards then Some (Context_conflict (model_name @ '' updated_at cannot move backwards''))
      else if \<not> provider_mapping_compatible
        then Some (Context_conflict (model_name @ '' provider mapping cannot be replaced or cleared''))
      else None)"

definition register_account :: "context_codec \<Rightarrow> bool \<Rightarrow> provider_account_profile \<Rightarrow> context_op" where
  "register_account cd busy p db =
     (if pa_revision p \<noteq> 1 then (Inl (Context_conflict ''new accounts must start at revision 1''), db)
      else context_transaction busy (\<lambda>db.
        case select_account (pa_account_id p) db of
          Some row \<Rightarrow> (case account_from_row cd row of Inl e \<Rightarrow> Inl e
            | Inr stored \<Rightarrow> if stored = p then Inr (Duplicate_write, db)
                else Inl (Context_conflict ''account_id is already registered''))
        | None \<Rightarrow> (case ensure_account_mapping_available p db of Some e \<Rightarrow> Inl e
            | None \<Rightarrow> (case insert_account_history (account_to_row cd p) db of Inl e \<Rightarrow> Inl e
              | Inr db1 \<Rightarrow> insert_account (account_to_row cd p) db1))) db)"

definition replace_account :: "context_codec \<Rightarrow> bool \<Rightarrow> provider_account_profile \<Rightarrow> int \<Rightarrow> context_op" where
  "replace_account cd busy p expected_revision = context_transaction busy (\<lambda>db.
     case select_account (pa_account_id p) db of
       None \<Rightarrow> Inl (Context_key_error (pa_account_id p))
     | Some row \<Rightarrow> (case account_from_row cd row of Inl e \<Rightarrow> Inl e
         | Inr current \<Rightarrow>
             if current = p then Inr (Duplicate_write, db)
             else case validate_replacement (pa_revision current) expected_revision (pa_revision p)
                 (pa_created_at current = pa_created_at p) (pa_provider current = pa_provider p \<and> pa_surface current = pa_surface p)
                 (pa_updated_at p \<ge> pa_updated_at current)
                 (pa_provider_account_id current = None \<or> pa_provider_account_id current = pa_provider_account_id p) ''account'' of
               Some e \<Rightarrow> Inl e
             | None \<Rightarrow> (case ensure_account_mapping_available p db of Some e \<Rightarrow> Inl e
                 | None \<Rightarrow> (case insert_account_history (account_to_row cd p) db of Inl e \<Rightarrow> Inl e
                   | Inr db1 \<Rightarrow> update_account (account_to_row cd p) expected_revision db1))))"

section \<open>Quota observations\<close>

definition insert_quota :: "quota_row \<Rightarrow> context_body" where
  "insert_quota row db =
     (if qr_snapshot_id row \<in> set (map qr_snapshot_id (cx_quota_snapshots db)) \<or>
         list_ex (\<lambda>r. qr_account_id r = qr_account_id row \<and> qr_dimension r = qr_dimension row \<and> qr_observed_at r = qr_observed_at row)
           (cx_quota_snapshots db) \<or>
         qr_account_id row \<notin> set (map ac_account_id (cx_accounts db))
        then Inl Context_integrity_error
      else Inr (Written, db\<lparr>cx_quota_snapshots := cx_quota_snapshots db @ [row]\<rparr>))"

definition append_quota :: "context_codec \<Rightarrow> bool \<Rightarrow> provider_quota_snapshot \<Rightarrow> context_op" where
  "append_quota cd busy q = context_transaction busy (\<lambda>db.
     case select_account (qs_account_id q) db of
       None \<Rightarrow> Inl (Context_error ''quota snapshot requires a registered account'')
     | Some arow \<Rightarrow> (case account_from_row cd arow of Inl e \<Rightarrow> Inl e
         | Inr account \<Rightarrow>
             if qs_observed_at q < pa_created_at account then Inl (Context_error ''quota snapshot cannot precede the account'')
             else case List.find (\<lambda>r. qr_snapshot_id r = qs_snapshot_id q) (cx_quota_snapshots db) of
               Some row \<Rightarrow> (case quota_from_row cd row of Inl e \<Rightarrow> Inl e
                 | Inr stored \<Rightarrow> if stored = q then Inr (Duplicate_write, db)
                     else Inl (Context_conflict ''snapshot_id is already registered''))
             | None \<Rightarrow>
                 if list_ex (\<lambda>r. qr_account_id r = qs_account_id q \<and> qr_dimension r = dimension_value (qs_dimension q) \<and>
                     qr_observed_at r = iso_utc (qs_observed_at q)) (cx_quota_snapshots db)
                   then Inl (Context_conflict ''quota dimension already has an observation at this timestamp'')
                 else insert_quota (quota_to_row cd q) db))"

section \<open>Projects and conversations\<close>

text \<open>What \<open>_register_binding\<close> and \<open>_replace_binding\<close> are given for each kind of binding: its attributes, its codec, its tables.\<close>

record 'm binding_kind =
  bk_id :: "'m \<Rightarrow> string"
  bk_revision :: "'m \<Rightarrow> int"
  bk_account_id :: "'m \<Rightarrow> string"
  bk_provider :: "'m \<Rightarrow> string"
  bk_surface :: "'m \<Rightarrow> string"
  bk_provider_id :: "'m \<Rightarrow> string option"
  bk_created_at :: "'m \<Rightarrow> int"
  bk_updated_at :: "'m \<Rightarrow> int"
  bk_project_id :: "'m \<Rightarrow> string option"
  bk_dump :: "'m \<Rightarrow> string"
  bk_parse :: "string \<Rightarrow> 'm option"
  bk_id_column :: string
  bk_model_name :: string
  bk_table :: "context_db \<Rightarrow> binding_row list"
  bk_set_table :: "binding_row list \<Rightarrow> context_db \<Rightarrow> context_db"
  bk_history :: "context_db \<Rightarrow> binding_row list"
  bk_set_history :: "binding_row list \<Rightarrow> context_db \<Rightarrow> context_db"

definition project_kind :: "context_codec \<Rightarrow> provider_project_binding binding_kind" where
  "project_kind cd = \<lparr>bk_id = pb_project_id, bk_revision = pb_revision, bk_account_id = pb_account_id, bk_provider = pb_provider,
     bk_surface = pb_surface, bk_provider_id = pb_provider_project_id, bk_created_at = pb_created_at, bk_updated_at = pb_updated_at,
     bk_project_id = (\<lambda>_. None), bk_dump = dump_project cd, bk_parse = parse_project cd, bk_id_column = ''project_id'',
     bk_model_name = ''project'', bk_table = cx_projects, bk_set_table = (\<lambda>rows. cx_projects_update (\<lambda>_. rows)),
     bk_history = cx_project_versions, bk_set_history = (\<lambda>rows. cx_project_versions_update (\<lambda>_. rows))\<rparr>"

definition conversation_kind :: "context_codec \<Rightarrow> provider_conversation_binding binding_kind" where
  "conversation_kind cd = \<lparr>bk_id = cb_conversation_id, bk_revision = cb_revision, bk_account_id = cb_account_id, bk_provider = cb_provider,
     bk_surface = cb_surface, bk_provider_id = cb_provider_conversation_id, bk_created_at = cb_created_at, bk_updated_at = cb_updated_at,
     bk_project_id = cb_project_id, bk_dump = dump_binding cd, bk_parse = parse_binding cd, bk_id_column = ''conversation_id'',
     bk_model_name = ''conversation'', bk_table = cx_conversations, bk_set_table = (\<lambda>rows. cx_conversations_update (\<lambda>_. rows)),
     bk_history = cx_conversation_versions, bk_set_history = (\<lambda>rows. cx_conversation_versions_update (\<lambda>_. rows))\<rparr>"

definition binding_to_row :: "context_codec \<Rightarrow> 'm binding_kind \<Rightarrow> 'm \<Rightarrow> binding_row" where
  "binding_to_row cd k m = (case serialized cd (bk_dump k) m of (payload, fp) \<Rightarrow>
     \<lparr>bi_id = bk_id k m, bi_revision = bk_revision k m, bi_account_id = bk_account_id k m, bi_provider = bk_provider k m,
       bi_surface = bk_surface k m, bi_provider_id = bk_provider_id k m, bi_fingerprint = fp, bi_payload_json = payload\<rparr>)"

definition binding_from_row :: "context_codec \<Rightarrow> 'm binding_kind \<Rightarrow> binding_row \<Rightarrow> context_error + 'm" where
  "binding_from_row cd k row =
     (case validated_payload cd (bk_model_name k) (bk_dump k) (bk_parse k) (bi_payload_json row) (bi_fingerprint row) of
        Inl e \<Rightarrow> Inl e
      | Inr m \<Rightarrow> if bk_id k m \<noteq> bi_id row \<or> bk_revision k m \<noteq> bi_revision row \<or> bk_account_id k m \<noteq> bi_account_id row \<or>
            bk_provider k m \<noteq> bi_provider row \<or> bk_surface k m \<noteq> bi_surface row \<or> bk_provider_id k m \<noteq> bi_provider_id row
          then Inl (Context_corrupt (bk_model_name k @ '' columns do not match its payload'')) else Inr m)"

definition project_from_row :: "context_codec \<Rightarrow> binding_row \<Rightarrow> context_error + provider_project_binding" where
  "project_from_row cd row = binding_from_row cd (project_kind cd) row"

definition conversation_binding_from_row :: "context_codec \<Rightarrow> binding_row \<Rightarrow> context_error + provider_conversation_binding" where
  "conversation_binding_from_row cd row = binding_from_row cd (conversation_kind cd) row"

definition binding_mapping :: "binding_row \<Rightarrow> string \<times> string \<times> string option" where
  "binding_mapping r = (bi_provider r, bi_surface r, bi_provider_id r)"

definition select_binding :: "'m binding_kind \<Rightarrow> string \<Rightarrow> context_db \<Rightarrow> binding_row option" where
  "select_binding k i db = List.find (\<lambda>r. bi_id r = i) (bk_table k db)"

definition validate_project_dependency :: "context_codec \<Rightarrow> 'm binding_kind \<Rightarrow> 'm \<Rightarrow> context_db \<Rightarrow> context_error option" where
  "validate_project_dependency cd k m db =
     (case bk_project_id k m of None \<Rightarrow> None
      | Some i \<Rightarrow> (case select_binding (project_kind cd) i db of
          None \<Rightarrow> Some (Context_error ''conversation requires a registered project'')
        | Some row \<Rightarrow> (case project_from_row cd row of Inl e \<Rightarrow> Some e
          | Inr project \<Rightarrow> if pb_account_id project \<noteq> bk_account_id k m \<or> pb_provider project \<noteq> bk_provider k m \<or>
                pb_surface project \<noteq> bk_surface k m
              then Some (Context_error ''conversation does not match its project'') else None)))"

definition validate_binding_dependencies :: "context_codec \<Rightarrow> 'm binding_kind \<Rightarrow> 'm \<Rightarrow> context_db \<Rightarrow> context_error option" where
  "validate_binding_dependencies cd k m db =
     (case select_account (bk_account_id k m) db of
        None \<Rightarrow> Some (Context_error ''binding requires a registered account'')
      | Some arow \<Rightarrow> (case account_from_row cd arow of Inl e \<Rightarrow> Some e
        | Inr account \<Rightarrow>
            if pa_provider account \<noteq> bk_provider k m \<or> pa_surface account \<noteq> bk_surface k m
              then Some (Context_error ''binding does not match its account surface'')
            else case validate_project_dependency cd k m db of Some e \<Rightarrow> Some e
            | None \<Rightarrow> if bk_created_at k m < pa_created_at account
                then Some (Context_error ''binding cannot precede its account'') else None))"

definition ensure_binding_mapping_available :: "'m binding_kind \<Rightarrow> 'm \<Rightarrow> context_db \<Rightarrow> context_error option" where
  "ensure_binding_mapping_available k m db =
     (if bk_provider_id k m \<noteq> None \<and>
         list_ex (\<lambda>r. bi_provider r = bk_provider k m \<and> bi_surface r = bk_surface k m \<and>
           bi_provider_id r = bk_provider_id k m \<and> bi_id r \<noteq> bk_id k m) (bk_table k db)
        then Some (Context_conflict ''provider binding mapping is already registered'') else None)"

definition insert_binding_history :: "'m binding_kind \<Rightarrow> binding_row \<Rightarrow> context_db \<Rightarrow> context_error + context_db" where
  "insert_binding_history k row db =
     (if bi_revision row < 1 \<or> (bi_id row, bi_revision row) \<in> set (map (\<lambda>r. (bi_id r, bi_revision r)) (bk_history k db)) \<or>
         bi_account_id row \<notin> set (map ac_account_id (cx_accounts db))
        then Inl Context_integrity_error
      else Inr (bk_set_history k (bk_history k db @ [row]) db))"

definition insert_binding :: "'m binding_kind \<Rightarrow> binding_row \<Rightarrow> context_body" where
  "insert_binding k row db =
     (let rows = bk_table k db @ [row] in
      if bi_revision row < 1 \<or> bi_id row \<in> set (map bi_id (bk_table k db)) \<or> \<not> mapping_unique (map binding_mapping rows) \<or>
         bi_account_id row \<notin> set (map ac_account_id (cx_accounts db))
        then Inl Context_integrity_error
      else Inr (Written, bk_set_table k rows db))"

definition update_binding :: "'m binding_kind \<Rightarrow> binding_row \<Rightarrow> int \<Rightarrow> context_body" where
  "update_binding k row expected db =
     (let hit = (\<lambda>r. bi_id r = bi_id row \<and> bi_revision r = expected);
          rows = map (\<lambda>r. if hit r then row else r) (bk_table k db); rowcount = length (filter hit (bk_table k db)) in
      if 0 < rowcount \<and> (bi_revision row < 1 \<or> \<not> mapping_unique (map binding_mapping rows) \<or>
          bi_account_id row \<notin> set (map ac_account_id (cx_accounts db))) then Inl Context_integrity_error
      else if rowcount \<noteq> 1 then Inl (Context_conflict (''stale '' @ bk_model_name k @ '' revision''))
      else Inr (Written, bk_set_table k rows db))"

definition register_binding :: "context_codec \<Rightarrow> 'm binding_kind \<Rightarrow> bool \<Rightarrow> 'm \<Rightarrow> context_op" where
  "register_binding cd k busy m = context_transaction busy (\<lambda>db.
     case validate_binding_dependencies cd k m db of Some e \<Rightarrow> Inl e
     | None \<Rightarrow> (case select_binding k (bk_id k m) db of
         Some row \<Rightarrow> (case binding_from_row cd k row of Inl e \<Rightarrow> Inl e
           | Inr stored \<Rightarrow> if stored = m then Inr (Duplicate_write, db)
               else Inl (Context_conflict (bk_id_column k @ '' is already registered'')))
       | None \<Rightarrow> (case ensure_binding_mapping_available k m db of Some e \<Rightarrow> Inl e
         | None \<Rightarrow> (case insert_binding_history k (binding_to_row cd k m) db of Inl e \<Rightarrow> Inl e
           | Inr db1 \<Rightarrow> insert_binding k (binding_to_row cd k m) db1))))"

definition replace_binding :: "context_codec \<Rightarrow> 'm binding_kind \<Rightarrow> bool \<Rightarrow> 'm \<Rightarrow> int \<Rightarrow> context_op" where
  "replace_binding cd k busy m expected_revision = context_transaction busy (\<lambda>db.
     case validate_binding_dependencies cd k m db of Some e \<Rightarrow> Inl e
     | None \<Rightarrow> (case select_binding k (bk_id k m) db of
         None \<Rightarrow> Inl (Context_key_error (bk_id k m))
       | Some row \<Rightarrow> (case binding_from_row cd k row of Inl e \<Rightarrow> Inl e
         | Inr current \<Rightarrow>
             if current = m then Inr (Duplicate_write, db)
             else case validate_replacement (bk_revision k current) expected_revision (bk_revision k m)
                 (bk_created_at k current = bk_created_at k m)
                 (bk_account_id k current = bk_account_id k m \<and> bk_provider k current = bk_provider k m \<and>
                  bk_surface k current = bk_surface k m)
                 (bk_updated_at k m \<ge> bk_updated_at k current)
                 (bk_provider_id k current = None \<or> bk_provider_id k current = bk_provider_id k m) (bk_model_name k) of
               Some e \<Rightarrow> Inl e
             | None \<Rightarrow> (case ensure_binding_mapping_available k m db of Some e \<Rightarrow> Inl e
                 | None \<Rightarrow> (case insert_binding_history k (binding_to_row cd k m) db of Inl e \<Rightarrow> Inl e
                   | Inr db1 \<Rightarrow> update_binding k (binding_to_row cd k m) expected_revision db1)))))"

definition register_project :: "context_codec \<Rightarrow> bool \<Rightarrow> provider_project_binding \<Rightarrow> context_op" where
  "register_project cd busy b db =
     (if pb_revision b \<noteq> 1 then (Inl (Context_conflict ''new projects must start at revision 1''), db)
      else register_binding cd (project_kind cd) busy b db)"

definition replace_project :: "context_codec \<Rightarrow> bool \<Rightarrow> provider_project_binding \<Rightarrow> int \<Rightarrow> context_op" where
  "replace_project cd busy b expected_revision = replace_binding cd (project_kind cd) busy b expected_revision"

definition register_conversation_binding :: "context_codec \<Rightarrow> bool \<Rightarrow> provider_conversation_binding \<Rightarrow> context_op" where
  "register_conversation_binding cd busy b db =
     (if cb_revision b \<noteq> 1 then (Inl (Context_conflict ''new conversations must start at revision 1''), db)
      else register_binding cd (conversation_kind cd) busy b db)"

definition replace_conversation_binding :: "context_codec \<Rightarrow> bool \<Rightarrow> provider_conversation_binding \<Rightarrow> int \<Rightarrow> context_op" where
  "replace_conversation_binding cd busy b expected_revision = replace_binding cd (conversation_kind cd) busy b expected_revision"

section \<open>Reading\<close>

definition load_account :: "context_codec \<Rightarrow> string \<Rightarrow> context_db \<Rightarrow> context_error + provider_account_profile" where
  "load_account cd i db = (case select_account i db of None \<Rightarrow> Inl (Context_key_error i) | Some row \<Rightarrow> account_from_row cd row)"

definition load_project :: "context_codec \<Rightarrow> string \<Rightarrow> context_db \<Rightarrow> context_error + provider_project_binding" where
  "load_project cd i db =
     (case select_binding (project_kind cd) i db of None \<Rightarrow> Inl (Context_key_error i) | Some row \<Rightarrow> project_from_row cd row)"

definition load_conversation_binding :: "context_codec \<Rightarrow> string \<Rightarrow> context_db \<Rightarrow> context_error + provider_conversation_binding" where
  "load_conversation_binding cd i db =
     (case select_binding (conversation_kind cd) i db of None \<Rightarrow> Inl (Context_key_error i)
      | Some row \<Rightarrow> conversation_binding_from_row cd row)"

text \<open>\<open>ORDER BY observed_at, snapshot_id\<close>, on the text of the columns.\<close>

definition select_quotas :: "string \<Rightarrow> quota_dimension option \<Rightarrow> context_db \<Rightarrow> quota_row list" where
  "select_quotas account_id dimension db =
     sort_key qr_observed_at (sort_key qr_snapshot_id
       (filter (\<lambda>r. qr_account_id r = account_id \<and> optional (\<lambda>d. qr_dimension r = dimension_value d) dimension) (cx_quota_snapshots db)))"

text \<open>The row that comes first in the descending order is the last one of the ascending order.\<close>

definition load_latest_quota :: "context_codec \<Rightarrow> string \<Rightarrow> quota_dimension \<Rightarrow> context_db \<Rightarrow> context_error + provider_quota_snapshot" where
  "load_latest_quota cd account_id dimension db =
     (case rev (select_quotas account_id (Some dimension) db) of [] \<Rightarrow> Inl (Context_key_error account_id)
      | row # _ \<Rightarrow> quota_from_row cd row)"

fun read_quotas :: "context_codec \<Rightarrow> quota_row list \<Rightarrow> context_error + provider_quota_snapshot list" where
  "read_quotas cd [] = Inr []"
| "read_quotas cd (row # rows) =
     (case quota_from_row cd row of Inl e \<Rightarrow> Inl e
      | Inr q \<Rightarrow> (case read_quotas cd rows of Inl e \<Rightarrow> Inl e | Inr qs \<Rightarrow> Inr (q # qs)))"

definition list_quota_history ::
  "context_codec \<Rightarrow> string \<Rightarrow> quota_dimension option \<Rightarrow> context_db \<Rightarrow> context_error + provider_quota_snapshot list" where
  "list_quota_history cd account_id dimension db = read_quotas cd (select_quotas account_id dimension db)"

section \<open>Semantic integrity\<close>

text \<open>\<open>ORDER BY id, revision\<close>.\<close>

definition history_order :: "('row \<Rightarrow> string) \<Rightarrow> ('row \<Rightarrow> int) \<Rightarrow> 'row list \<Rightarrow> 'row list" where
  "history_order row_id row_revision rows = sort_key row_id (sort_key row_revision rows)"

fun verify_history_rows :: "('row \<Rightarrow> string) \<Rightarrow> ('row \<Rightarrow> int) \<Rightarrow> ('m \<Rightarrow> string) \<Rightarrow> ('m \<Rightarrow> int) \<Rightarrow> string \<Rightarrow> ('row \<Rightarrow> context_error + 'm) \<Rightarrow>
    'row list \<Rightarrow> (string, int) dict \<Rightarrow> context_error + (string, int) dict" where
  "verify_history_rows row_id row_revision ident revision model_name parse [] latest = Inr latest"
| "verify_history_rows row_id row_revision ident revision model_name parse (row # rows) latest =
     (case parse row of Inl e \<Rightarrow> Inl e
      | Inr m \<Rightarrow>
          if ident m \<noteq> row_id row \<or> revision m \<noteq> row_revision row
            then Inl (Context_corrupt (model_name @ '' history columns do not match its payload''))
          else if row_revision row \<noteq> (case map_of latest (row_id row) of None \<Rightarrow> 0 | Some n \<Rightarrow> n) + 1
            then Inl (Context_corrupt (model_name @ '' version history is not contiguous''))
          else verify_history_rows row_id row_revision ident revision model_name parse rows (AList.update (row_id row) (row_revision row) latest))"

text \<open>The loop over the head rows of a table, which is the same for accounts, projects and conversations.\<close>

fun verify_heads :: "('row \<Rightarrow> string) \<Rightarrow> ('row \<Rightarrow> int) \<Rightarrow> ('m \<Rightarrow> string) \<Rightarrow> ('m \<Rightarrow> int) \<Rightarrow> string \<Rightarrow> ('row \<Rightarrow> context_error + 'm) \<Rightarrow>
    'row list \<Rightarrow> (string, int) dict \<Rightarrow> 'row list \<Rightarrow> (string, 'm) dict \<Rightarrow> context_error + (string, 'm) dict" where
  "verify_heads row_id row_revision ident revision model_name parse versions latest [] heads =
     (if set (keys latest) \<noteq> set (keys heads) then Inl (Context_corrupt (model_name @ '' history has no matching current head''))
      else Inr heads)"
| "verify_heads row_id row_revision ident revision model_name parse versions latest (row # rows) heads =
     (case parse row of Inl e \<Rightarrow> Inl e
      | Inr current \<Rightarrow>
          if map_of latest (ident current) \<noteq> Some (revision current)
            then Inl (Context_corrupt (model_name @ '' head is not the latest recorded revision in version history''))
          else case List.find (\<lambda>r. row_id r = ident current \<and> row_revision r = revision current) versions of
            None \<Rightarrow> Inl (Context_corrupt (model_name @ '' head does not match its version history''))
          | Some h \<Rightarrow> (case parse h of Inl e \<Rightarrow> Inl e
            | Inr m \<Rightarrow> if m \<noteq> current then Inl (Context_corrupt (model_name @ '' head does not match its version history''))
                else verify_heads row_id row_revision ident revision model_name parse versions latest rows
                  (AList.update (ident current) current heads)))"

definition validate_project_semantics ::
  "(string, provider_account_profile) dict \<Rightarrow> provider_project_binding \<Rightarrow> context_error option" where
  "validate_project_semantics accounts project =
     (case map_of accounts (pb_account_id project) of None \<Rightarrow> Some (Context_corrupt ''project references an unknown account'')
      | Some account \<Rightarrow>
          if pb_provider project \<noteq> pa_provider account \<or> pb_surface project \<noteq> pa_surface account
            then Some (Context_corrupt ''project does not match its account surface'')
          else if pb_created_at project < pa_created_at account then Some (Context_corrupt ''project predates its account'')
          else None)"

definition validate_conversation_semantics ::
  "(string, provider_account_profile) dict \<Rightarrow> (string, provider_project_binding) dict \<Rightarrow> provider_conversation_binding \<Rightarrow> context_error option" where
  "validate_conversation_semantics accounts projects conversation =
     (case map_of accounts (cb_account_id conversation) of
        None \<Rightarrow> Some (Context_corrupt ''conversation references an unknown account'')
      | Some account \<Rightarrow>
          if cb_provider conversation \<noteq> pa_provider account \<or> cb_surface conversation \<noteq> pa_surface account
            then Some (Context_corrupt ''conversation does not match its account surface'')
          else if cb_created_at conversation < pa_created_at account
            then Some (Context_corrupt ''conversation predates its account'')
          else case cb_project_id conversation of None \<Rightarrow> None
          | Some i \<Rightarrow> (case map_of projects i of None \<Rightarrow> Some (Context_corrupt ''conversation references an unknown project'')
            | Some project \<Rightarrow>
                if pb_account_id project \<noteq> cb_account_id conversation \<or> pb_provider project \<noteq> cb_provider conversation \<or>
                   pb_surface project \<noteq> cb_surface conversation
                  then Some (Context_corrupt ''conversation does not match its project'') else None))"

definition validate_quota_semantics ::
  "(string, provider_account_profile) dict \<Rightarrow> provider_quota_snapshot \<Rightarrow> context_error option" where
  "validate_quota_semantics accounts snapshot =
     (case map_of accounts (qs_account_id snapshot) of
        None \<Rightarrow> Some (Context_corrupt ''quota snapshot references an unknown account'')
      | Some account \<Rightarrow> if qs_observed_at snapshot < pa_created_at account
          then Some (Context_corrupt ''quota snapshot predates its account'') else None)"

text \<open>A loop that reads each row and validates its value.\<close>

fun validate_rows :: "('row \<Rightarrow> context_error + 'm) \<Rightarrow> ('m \<Rightarrow> context_error option) \<Rightarrow> 'row list \<Rightarrow> context_error option" where
  "validate_rows parse check [] = None"
| "validate_rows parse check (row # rows) =
     (case parse row of Inl e \<Rightarrow> Some e | Inr m \<Rightarrow> (case check m of Some e \<Rightarrow> Some e | None \<Rightarrow> validate_rows parse check rows))"

definition verify_account_history :: "context_codec \<Rightarrow> context_db \<Rightarrow> context_error + (string, int) dict" where
  "verify_account_history cd db = verify_history_rows ac_account_id ac_revision pa_account_id pa_revision ''account'' (account_from_row cd)
     (history_order ac_account_id ac_revision (cx_account_versions db)) []"

definition verify_binding_history :: "context_codec \<Rightarrow> 'm binding_kind \<Rightarrow> context_db \<Rightarrow> context_error + (string, int) dict" where
  "verify_binding_history cd k db = verify_history_rows bi_id bi_revision (bk_id k) (bk_revision k) (bk_model_name k) (binding_from_row cd k)
     (history_order bi_id bi_revision (bk_history k db)) []"

definition verify_account_heads :: "context_codec \<Rightarrow> (string, int) dict \<Rightarrow> context_db \<Rightarrow> context_error + (string, provider_account_profile) dict" where
  "verify_account_heads cd latest db = verify_heads ac_account_id ac_revision pa_account_id pa_revision ''account'' (account_from_row cd)
     (cx_account_versions db) latest (cx_accounts db) []"

definition verify_binding_heads :: "context_codec \<Rightarrow> 'm binding_kind \<Rightarrow> (string, int) dict \<Rightarrow> context_db \<Rightarrow> context_error + (string, 'm) dict" where
  "verify_binding_heads cd k latest db = verify_heads bi_id bi_revision (bk_id k) (bk_revision k) (bk_model_name k) (binding_from_row cd k)
     (bk_history k db) latest (bk_table k db) []"

definition verify_references ::
  "context_codec \<Rightarrow> (string, provider_account_profile) dict \<Rightarrow> (string, provider_project_binding) dict \<Rightarrow> context_db \<Rightarrow> context_error option" where
  "verify_references cd accounts projects db =
     (case validate_rows (project_from_row cd) (validate_project_semantics accounts)
         (history_order bi_id bi_revision (cx_project_versions db)) of Some e \<Rightarrow> Some e
      | None \<Rightarrow> (case validate_rows (conversation_binding_from_row cd) (validate_conversation_semantics accounts projects)
           (history_order bi_id bi_revision (cx_conversation_versions db)) of Some e \<Rightarrow> Some e
        | None \<Rightarrow> validate_rows (quota_from_row cd) (validate_quota_semantics accounts) (cx_quota_snapshots db)))"

definition verify_semantic_integrity :: "context_codec \<Rightarrow> context_db \<Rightarrow> context_error option" where
  "verify_semantic_integrity cd db =
     (case verify_account_history cd db of Inl e \<Rightarrow> Some e
      | Inr account_history \<Rightarrow> (case verify_binding_history cd (project_kind cd) db of Inl e \<Rightarrow> Some e
      | Inr project_history \<Rightarrow> (case verify_binding_history cd (conversation_kind cd) db of Inl e \<Rightarrow> Some e
      | Inr conversation_history \<Rightarrow> (case verify_account_heads cd account_history db of Inl e \<Rightarrow> Some e
      | Inr accounts \<Rightarrow> (case verify_binding_heads cd (project_kind cd) project_history db of Inl e \<Rightarrow> Some e
      | Inr projects \<Rightarrow> (case verify_binding_heads cd (conversation_kind cd) conversation_history db of Inl e \<Rightarrow> Some e
      | Inr _ \<Rightarrow> verify_references cd accounts projects db))))))"

section \<open>Opening the store\<close>

text \<open>What the database file has: the columns of its tables, the rows of \<open>metadata\<close>, its indexes as \<open>index_list\<close>, \<open>index_info\<close> and
  \<open>sqlite_master\<close> report them, and the rows of the other tables. No result from \<open>quick_check\<close> means that
  SQLite does not read the file as a database.\<close>

record index_info =
  xi_table :: string
  xi_name :: string
  xi_unique :: bool
  xi_partial :: bool
  xi_columns :: "string list"
  xi_sql :: "string option"

record context_file =
  xf_quick_check :: "bool option"
  xf_columns :: "(string, string list) dict"
  xf_metadata :: "(string \<times> string) list"
  xf_indexes :: "index_info list"
  xf_db :: context_db

definition empty_context_db :: context_db where
  "empty_context_db = \<lparr>cx_accounts = [], cx_account_versions = [], cx_quota_snapshots = [], cx_projects = [], cx_project_versions = [],
     cx_conversations = [], cx_conversation_versions = []\<rparr>"

definition expected_schema :: "(string, string list) dict" where
  "expected_schema =
     [(''metadata'', [''key'', ''value'']),
      (''accounts'', [''account_id'', ''revision'', ''provider'', ''surface'', ''provider_account_id'', ''fingerprint'', ''payload_json'']),
      (''account_versions'', [''account_id'', ''revision'', ''provider'', ''surface'', ''provider_account_id'', ''fingerprint'', ''payload_json'']),
      (''quota_snapshots'', [''snapshot_id'', ''account_id'', ''dimension'', ''observed_at'', ''fingerprint'', ''payload_json'']),
      (''projects'', [''project_id'', ''revision'', ''account_id'', ''provider'', ''surface'', ''provider_project_id'', ''fingerprint'', ''payload_json'']),
      (''project_versions'', [''project_id'', ''revision'', ''account_id'', ''provider'', ''surface'', ''provider_project_id'', ''fingerprint'',
         ''payload_json'']),
      (''conversations'', [''conversation_id'', ''revision'', ''account_id'', ''provider'', ''surface'', ''provider_conversation_id'', ''fingerprint'',
         ''payload_json'']),
      (''conversation_versions'', [''conversation_id'', ''revision'', ''account_id'', ''provider'', ''surface'', ''provider_conversation_id'',
         ''fingerprint'', ''payload_json''])]"

text \<open>The indexes that \<open>_create_schema\<close> leaves: the named partial ones, and those that SQLite makes for the primary keys and
  the unique constraint, which have no SQL text.\<close>

definition mapping_index :: "string \<Rightarrow> string \<Rightarrow> index_info" where
  "mapping_index table column = \<lparr>xi_table = table, xi_name = table @ ''_provider_mapping_unique'', xi_unique = True, xi_partial = True,
     xi_columns = [''provider'', ''surface'', column],
     xi_sql = Some (''CREATE UNIQUE INDEX '' @ table @ ''_provider_mapping_unique'' @ [CHR 0x0A] @ ''            ON '' @ table @ ''(provider, surface, '' @
       column @ '')'' @ [CHR 0x0A] @ ''            WHERE '' @ column @ '' IS NOT NULL'')\<rparr>"

definition auto_index :: "string \<Rightarrow> string \<Rightarrow> string list \<Rightarrow> index_info" where
  "auto_index table n columns = \<lparr>xi_table = table, xi_name = ''sqlite_autoindex_'' @ table @ ''_'' @ n, xi_unique = True, xi_partial = False,
     xi_columns = columns, xi_sql = None\<rparr>"

definition created_indexes :: "index_info list" where
  "created_indexes =
     [auto_index ''metadata'' ''1'' [''key''],
      auto_index ''accounts'' ''1'' [''account_id''], mapping_index ''accounts'' ''provider_account_id'',
      auto_index ''account_versions'' ''1'' [''account_id'', ''revision''],
      auto_index ''quota_snapshots'' ''1'' [''snapshot_id''], auto_index ''quota_snapshots'' ''2'' [''account_id'', ''dimension'', ''observed_at''],
      auto_index ''projects'' ''1'' [''project_id''], mapping_index ''projects'' ''provider_project_id'',
      auto_index ''project_versions'' ''1'' [''project_id'', ''revision''],
      auto_index ''conversations'' ''1'' [''conversation_id''], mapping_index ''conversations'' ''provider_conversation_id'',
      auto_index ''conversation_versions'' ''1'' [''conversation_id'', ''revision'']]"

definition create_schema :: "context_file \<Rightarrow> context_file" where
  "create_schema f = f\<lparr>xf_columns := expected_schema, xf_metadata := [(''schema_version'', ''1'')], xf_indexes := created_indexes,
     xf_db := empty_context_db\<rparr>"

definition read_schema_version :: "(string \<times> string) list \<Rightarrow> context_error + string" where
  "read_schema_version rows =
     (case rows of [(k, v)] \<Rightarrow> if k = ''schema_version'' then Inr v
          else Inl (Context_corrupt ''provider context metadata must contain only schema_version'')
      | _ \<Rightarrow> Inl (Context_corrupt ''provider context metadata must contain only schema_version''))"

fun verify_columns :: "(string, string list) dict \<Rightarrow> (string, string list) dict \<Rightarrow> context_error option" where
  "verify_columns [] actual = None"
| "verify_columns ((table, columns) # rest) actual =
     (if set (case map_of actual table of None \<Rightarrow> [] | Some cs \<Rightarrow> cs) \<noteq> set columns
        then Some (Context_corrupt (''unexpected provider context schema for '' @ table))
      else verify_columns rest actual)"

definition verify_context_schema :: "context_file \<Rightarrow> context_error option" where
  "verify_context_schema f =
     (if set (keys (xf_columns f)) \<noteq> set (keys expected_schema) then Some (Context_corrupt ''unexpected provider context table set'')
      else case verify_columns expected_schema (xf_columns f) of Some e \<Rightarrow> Some e
      | None \<Rightarrow> (case read_schema_version (xf_metadata f) of Inl e \<Rightarrow> Some e
        | Inr v \<Rightarrow> if v \<noteq> ''1'' then Some (Unsupported_context_schema ''unsupported provider context schema version'') else None))"

definition verify_named_index :: "index_info list \<Rightarrow> string \<times> string \<times> string list \<times> string \<Rightarrow> context_error option" where
  "verify_named_index ixs expected =
     (case expected of (name, table, columns, predicate) \<Rightarrow>
      (case List.find (\<lambda>x. xi_table x = table \<and> xi_name x = name) ixs of
         None \<Rightarrow> Some (Context_corrupt (''missing or invalid provider context index '' @ name))
       | Some x \<Rightarrow>
           if \<not> xi_unique x \<or> \<not> xi_partial x then Some (Context_corrupt (''missing or invalid provider context index '' @ name))
           else if xi_columns x \<noteq> columns then Some (Context_corrupt (''unexpected provider context index columns for '' @ name))
           else case xi_sql x of None \<Rightarrow> Some (Context_corrupt (''missing provider context index SQL for '' @ name))
           | Some sql \<Rightarrow> if \<not> ends_with (join_words (split_words [] (map py_lower sql))) predicate
               then Some (Context_corrupt (''unexpected provider context index predicate for '' @ name)) else None))"

definition expected_named :: "(string \<times> string \<times> string list \<times> string) list" where
  "expected_named =
     [(''accounts_provider_mapping_unique'', ''accounts'', [''provider'', ''surface'', ''provider_account_id''],
        ''where provider_account_id is not null''),
      (''projects_provider_mapping_unique'', ''projects'', [''provider'', ''surface'', ''provider_project_id''],
        ''where provider_project_id is not null''),
      (''conversations_provider_mapping_unique'', ''conversations'', [''provider'', ''surface'', ''provider_conversation_id''],
        ''where provider_conversation_id is not null'')]"

definition verify_indexes :: "index_info list \<Rightarrow> context_error option" where
  "verify_indexes ixs =
     (case List.find (\<lambda>r. r \<noteq> None) (map (verify_named_index ixs) expected_named) of Some r \<Rightarrow> r
      | None \<Rightarrow> if list_ex (\<lambda>x. xi_table x = ''quota_snapshots'' \<and> xi_unique x \<and> \<not> xi_partial x \<and>
            xi_columns x = [''account_id'', ''dimension'', ''observed_at'']) ixs then None
          else Some (Context_corrupt ''quota observation uniqueness index is missing''))"

definition context_foreign_keys :: "context_db \<Rightarrow> bool" where
  "context_foreign_keys db \<longleftrightarrow> set (map qr_account_id (cx_quota_snapshots db)) \<union> set (map bi_account_id (cx_projects db @
     cx_project_versions db @ cx_conversations db @ cx_conversation_versions db)) \<subseteq> set (map ac_account_id (cx_accounts db))"

definition verify_context_file :: "context_codec \<Rightarrow> context_file \<Rightarrow> context_error + context_file" where
  "verify_context_file cd f =
     (case verify_context_schema f of Some e \<Rightarrow> Inl e
      | None \<Rightarrow> (case verify_indexes (xf_indexes f) of Some e \<Rightarrow> Inl e
      | None \<Rightarrow> (case verify_semantic_integrity cd (xf_db f) of Some e \<Rightarrow> Inl e
      | None \<Rightarrow> if \<not> context_foreign_keys (xf_db f) then Inl (Context_corrupt ''SQLite foreign key check failed'') else Inr f)))"

definition initialize_context :: "context_codec \<Rightarrow> bool \<Rightarrow> context_file \<Rightarrow> context_error + context_file" where
  "initialize_context cd busy f =
     (case xf_quick_check f of None \<Rightarrow> Inl (Context_corrupt ''invalid or corrupt provider context store'')
      | Some False \<Rightarrow> Inl (Context_corrupt ''SQLite quick_check failed'')
      | Some True \<Rightarrow>
          if busy then Inl (Context_corrupt ''invalid or corrupt provider context store'')
          else if xf_columns f = [] then verify_context_file cd (create_schema f)
          else case map_of (xf_columns f) ''metadata'' of
            None \<Rightarrow> Inl (Context_corrupt ''existing context store has no metadata table'')
          | Some columns \<Rightarrow>
              if set columns \<noteq> {''key'', ''value''} then Inl (Context_corrupt ''unexpected provider context schema for metadata'')
              else case read_schema_version (xf_metadata f) of Inl e \<Rightarrow> Inl e
              | Inr v \<Rightarrow> if v \<noteq> ''1'' then Inl (Unsupported_context_schema (''unsupported provider context schema version: '' @ v))
                  else verify_context_file cd f)"

definition open_context_store :: "context_codec \<Rightarrow> bool \<Rightarrow> bool \<Rightarrow> bool \<Rightarrow> bool \<Rightarrow> context_file \<Rightarrow> context_error + context_file" where
  "open_context_store cd exists is_symlink is_file busy f =
     (if exists \<and> (is_symlink \<or> \<not> is_file) then Inl (Context_error ''context store path must be a regular file'')
      else initialize_context cd busy f)"

end
