(* ===== verification/Context_Refinement.thy ===== *)
theory Context_Refinement
  imports Context_Store Tables
begin

text \<open>
  What the provider context store promises: its tables encode lists of valid values whose version histories are
  in order (\<open>context_ok\<close>), every operation keeps that, a store written through its operations passes the
  checks that are made when it is opened again, and quota observations come back in the order of time.
\<close>

section \<open>Tables with a version history\<close>

lemma sort_key_map: "sort_key f (map g xs) = map g (sort_key (\<lambda>x. f (g x)) xs)"
proof -
  have "insort_key f (g x) (map g ys) = map g (insort_key (\<lambda>x. f (g x)) x ys)" for x ys by (induction ys) auto
  then show ?thesis by (induction xs) simp_all
qed

text \<open>The order in which the versions are read keeps the order of each key's versions.\<close>

lemma versions_of_history_order:
  assumes "history_ok ident revision follows heads vs"
  shows "versions_of ident k (history_order ident revision vs) = versions_of ident k vs"
proof -
  have "sorted (map revision (versions_of ident k vs))"
    using assms by (simp add: history_ok_def sorted_map del: upt_Suc)
  then have "sort_key revision (versions_of ident k vs) = versions_of ident k vs" by (rule sort_key_id_if_sorted)
  then show ?thesis by (simp add: versions_of_def history_order_def sort_key_stable filter_sort)
qed

lemma set_history_order [simp]: "set (history_order ident revision vs) = set vs"
  by (simp add: history_order_def)

locale version_table = keyed_table to_row row_id ident
  for to_row :: "'m \<Rightarrow> 'row" and row_id :: "'row \<Rightarrow> string" and ident :: "'m \<Rightarrow> string" +
  fixes from_row :: "'row \<Rightarrow> context_error + 'm" and row_revision :: "'row \<Rightarrow> int" and revision :: "'m \<Rightarrow> int"
    and valid :: "'m \<Rightarrow> bool" and codec :: bool
  assumes row_revision_to_row: "row_revision (to_row m) = revision m"
    and from_to_row: "codec \<Longrightarrow> valid m \<Longrightarrow> from_row (to_row m) = Inr m"
begin

lemma history_order_rows: "history_order row_id row_revision (map to_row vs) = map to_row (history_order ident revision vs)"
  by (simp add: history_order_def sort_key_map row_key_to_row row_revision_to_row)

lemma verify_history_from:
  assumes "codec" "list_all valid ws"
    and "\<forall>k. map revision (versions_of ident k ws) = map int [Suc (n k)..<Suc (n k + length (versions_of ident k ws))]"
    and "\<forall>k. map_of latest k = (if n k = 0 then None else Some (int (n k)))"
  shows "\<exists>l. verify_history_rows row_id row_revision ident revision name from_row (map to_row ws) latest = Inr l \<and>
    (\<forall>k. map_of l k = (if n k + length (versions_of ident k ws) = 0 then None else Some (int (n k + length (versions_of ident k ws)))))"
  using assms(2-4)
proof (induction ws arbitrary: n latest)
  case Nil
  then show ?case by (simp add: versions_of_def)
next
  case (Cons w ws)
  let ?k = "ident w" and ?n = "n(ident w := Suc (n (ident w)))"
  have rw: "revision w = int (Suc (n ?k))"
    using spec [OF Cons.prems(2), of ?k] by (simp add: versions_of_def upt_conv_Cons del: upt_Suc)
  have tail: "\<forall>k. map revision (versions_of ident k ws) = map int [Suc (?n k)..<Suc (?n k + length (versions_of ident k ws))]"
  proof
    fix k
    show "map revision (versions_of ident k ws) = map int [Suc (?n k)..<Suc (?n k + length (versions_of ident k ws))]"
      using spec [OF Cons.prems(2), of k] by (cases "ident w = k") (simp_all add: versions_of_def upt_conv_Cons del: upt_Suc)
  qed
  have latest: "\<forall>k. map_of (AList.update ?k (revision w) latest) k = (if ?n k = 0 then None else Some (int (?n k)))"
    using Cons.prems(3) by (simp add: update_conv' rw)
  from Cons.IH [OF _ tail latest] Cons.prems(1) obtain l where
    l: "verify_history_rows row_id row_revision ident revision name from_row (map to_row ws) (AList.update ?k (revision w) latest) = Inr l"
      "\<forall>k. map_of l k = (if ?n k + length (versions_of ident k ws) = 0 then None else Some (int (?n k + length (versions_of ident k ws))))"
    by auto
  have "from_row (to_row w) = Inr w" using Cons.prems(1) by (simp add: from_to_row assms(1))
  then have "verify_history_rows row_id row_revision ident revision name from_row (map to_row (w # ws)) latest = Inr l"
    using l(1) rw Cons.prems(3) by (auto simp: row_key_to_row row_revision_to_row)
  moreover have "?n k + length (versions_of ident k ws) = n k + length (versions_of ident k (w # ws))" for k
    by (simp add: versions_of_def)
  ultimately show ?case using l(2) by auto
qed

lemma verify_history:
  assumes "codec" "list_all valid vs" "history_ok ident revision follows heads vs"
  obtains l where "verify_history_rows row_id row_revision ident revision name from_row (history_order row_id row_revision (map to_row vs)) [] = Inr l"
    "set (keys l) = ident ` set heads" "\<And>m. m \<in> set heads \<Longrightarrow> map_of l (ident m) = Some (revision m)"
proof -
  let ?ws = "history_order ident revision vs"
  have v: "versions_of ident k ?ws = versions_of ident k vs" for k by (rule versions_of_history_order [OF assms(3)])
  have "\<forall>k. map revision (versions_of ident k ?ws) = map int [Suc 0..<Suc (0 + length (versions_of ident k ?ws))]"
    using assms(3) by (simp add: v history_ok_def del: upt_Suc)
  from verify_history_from [OF assms(1) _ this, of "[]" name] assms(2) obtain l where
    l: "verify_history_rows row_id row_revision ident revision name from_row (map to_row ?ws) [] = Inr l"
      "\<forall>k. map_of l k = (if length (versions_of ident k vs) = 0 then None else Some (int (length (versions_of ident k vs))))"
    by (auto simp: v list_all_iff)
  have "k \<in> set (keys l) \<longleftrightarrow> k \<in> ident ` set heads" for k
  proof -
    have "k \<in> set (keys l) \<longleftrightarrow> map_of l k \<noteq> None" by (metis map_of_eq_None_keys)
    also have "\<dots> \<longleftrightarrow> k \<in> ident ` set vs" using l(2) by (simp add: versions_of_empty)
    finally show ?thesis using assms(3) by (simp add: history_ok_def)
  qed
  moreover have "map_of l (ident m) = Some (revision m)" if "m \<in> set heads" for m
    using l(2) head_versions(2,3) [OF assms(3) that] by simp
  ultimately show ?thesis using that l(1) by (metis history_order_rows subsetI subset_antisym)
qed

lemma verify_heads_from:
  assumes "codec" "list_all valid vs" "history_ok ident revision follows heads vs"
    and "\<And>m. m \<in> set heads \<Longrightarrow> map_of latest (ident m) = Some (revision m)" "set (keys latest) = ident ` set heads"
    and "heads = seen @ hs" "d = map (\<lambda>m. (ident m, m)) seen"
  shows "verify_heads row_id row_revision ident revision name from_row (map to_row vs) latest (map to_row hs) d =
    Inr (map (\<lambda>m. (ident m, m)) heads)"
  using assms(6,7)
proof (induction hs arbitrary: seen d)
  case Nil
  then show ?case using assms(5) by (simp add: image_image comp_def)
next
  case (Cons m hs)
  have m: "m \<in> set heads" using Cons.prems(1) by simp
  have mv: "m \<in> set vs" by (rule head_versions(1) [OF assms(3) m])
  then have read: "from_row (to_row m) = Inr m" using assms(2) by (simp add: from_to_row assms(1) list_all_iff)
  have "List.find (\<lambda>r. row_id r = ident m \<and> row_revision r = revision m) (map to_row vs) = Some (to_row m)"
  proof (cases "List.find (\<lambda>r. row_id r = ident m \<and> row_revision r = revision m) (map to_row vs)")
    case None
    then show ?thesis using mv by (auto simp: find_None_iff row_key_to_row row_revision_to_row)
  next
    case (Some r)
    then obtain v where "v \<in> set vs" "r = to_row v" "ident v = ident m" "revision v = revision m"
      by (auto dest!: find_Some_in simp: row_key_to_row row_revision_to_row)
    then show ?thesis using version_unique [OF assms(3) _ mv] Some by auto
  qed
  moreover have "ident m \<notin> set (keys d)"
    using assms(3) Cons.prems by (auto simp: history_ok_def image_iff)
  ultimately show ?case using Cons.IH [of "seen @ [m]" "d @ [(ident m, m)]"] Cons.prems read assms(4) [OF m]
    by (simp add: update_fresh)
qed

lemma update_rows:
  assumes "distinct (map ident heads)" "old \<in> set heads" "ident old = ident m" "revision old = e"
  defines "hit \<equiv> \<lambda>r. row_id r = ident m \<and> row_revision r = e"
  shows "map (\<lambda>r. if hit r then to_row m else r) (map to_row heads) = map to_row (put_head ident m heads)"
    "length (filter hit (map to_row heads)) = 1"
proof -
  have "hit (to_row x) \<longleftrightarrow> ident x = ident m" if "x \<in> set heads" for x
    using assms(1-4) that by (auto simp: hit_def row_key_to_row row_revision_to_row distinct_map inj_on_def)
  then show "map (\<lambda>r. if hit r then to_row m else r) (map to_row heads) = map to_row (put_head ident m heads)"
    by (simp add: put_head_def)
  have "filter hit (map to_row heads) = map to_row (filter (\<lambda>x. ident x = ident m) heads)"
    using \<open>\<And>x. x \<in> set heads \<Longrightarrow> hit (to_row x) \<longleftrightarrow> ident x = ident m\<close> by (simp add: filter_map cong: filter_cong)
  also have "filter (\<lambda>x. ident x = ident m) heads = [old]"
    using assms(1-3) by (induction heads) (auto simp: filter_empty_conv image_iff)
  finally show "length (filter hit (map to_row heads)) = 1" by simp
qed

end

section \<open>Accounts and bindings\<close>

lemma validated_payload_dump:
  "payload_ok valid dump parse \<Longrightarrow> valid m \<Longrightarrow> validated_payload cd name dump parse (dump m) (context_fingerprint cd (dump m)) = Inr m"
  by (simp add: payload_ok_def validated_payload_def)

interpretation accounts: version_table "account_to_row cd" ac_account_id pa_account_id "account_from_row cd" ac_revision pa_revision
    account_profile_valid "context_codec_ok cd" for cd
  by unfold_locales (simp_all add: account_to_row_def account_from_row_def serialized_def context_codec_ok_def
      validated_payload_dump [of account_profile_valid] Let_def)

interpretation quotas: keyed_table "quota_to_row cd" qr_snapshot_id qs_snapshot_id for cd
  by unfold_locales (simp add: quota_to_row_def serialized_def Let_def)

lemma quota_from_to_row: "context_codec_ok cd \<Longrightarrow> quota_snapshot_valid q \<Longrightarrow> quota_from_row cd (quota_to_row cd q) = Inr q"
  by (simp add: quota_to_row_def quota_from_row_def serialized_def context_codec_ok_def
      validated_payload_dump [of quota_snapshot_valid] Let_def)

text \<open>A kind of binding whose tables are separate from each other and from the accounts.\<close>

locale binding_store =
  fixes cd :: context_codec and k :: "'m binding_kind" and valid :: "'m \<Rightarrow> bool"
  assumes reads: "context_codec_ok cd \<Longrightarrow> payload_ok valid (bk_dump k) (bk_parse k)"
    and valid_revision: "valid m \<Longrightarrow> 1 \<le> bk_revision k m"
    and table_set_history: "bk_table k (bk_set_history k rows db) = bk_table k db"
    and accounts_set_history: "cx_accounts (bk_set_history k rows db) = cx_accounts db"

sublocale binding_store \<subseteq> version_table "binding_to_row cd k" bi_id "bk_id k" "binding_from_row cd k" bi_revision "bk_revision k"
    valid "context_codec_ok cd"
  by unfold_locales (simp_all add: binding_to_row_def binding_from_row_def serialized_def Let_def validated_payload_dump [of valid] reads)

interpretation projects: binding_store cd "project_kind cd" project_binding_valid for cd
  by unfold_locales (simp_all add: project_kind_def context_codec_ok_def project_binding_valid_def)

interpretation bindings: binding_store cd "conversation_kind cd" conversation_binding_valid for cd
  by unfold_locales (simp_all add: conversation_kind_def context_codec_ok_def conversation_binding_valid_def)

text \<open>A provider identifier belongs to one head.\<close>

definition mapped_once :: "('m \<Rightarrow> string \<times> string \<times> string option) \<Rightarrow> 'm list \<Rightarrow> bool" where
  "mapped_once mp heads \<longleftrightarrow> inj_on mp {x \<in> set heads. snd (snd (mp x)) \<noteq> None}"

lemma mapping_unique_iff: "distinct heads \<Longrightarrow> mapping_unique (map mp heads) \<longleftrightarrow> mapped_once mp heads"
  by (simp add: mapping_unique_def mapped_once_def filter_map distinct_map comp_def case_prod_beta)

lemma mapped_once_update:
  assumes "mapped_once mp heads" "\<And>x. x \<in> set heads \<Longrightarrow> ident x \<noteq> ident m \<Longrightarrow> snd (snd (mp m)) \<noteq> None \<Longrightarrow> mp x \<noteq> mp m"
    "\<And>x. x \<in> set heads' \<Longrightarrow> x = m \<or> x \<in> set heads \<and> ident x \<noteq> ident m"
  shows "mapped_once mp heads'"
  unfolding mapped_once_def
proof (rule inj_onI)
  fix x z
  assume "x \<in> {x \<in> set heads'. snd (snd (mp x)) \<noteq> None}" "z \<in> {x \<in> set heads'. snd (snd (mp x)) \<noteq> None}" and eq: "mp x = mp z"
  then have "x = m \<or> x \<in> set heads \<and> ident x \<noteq> ident m" "z = m \<or> z \<in> set heads \<and> ident z \<noteq> ident m" "snd (snd (mp x)) \<noteq> None"
    using assms(3) by auto
  then show "x = z" using assms(1) assms(2) [of x] assms(2) [of z] eq unfolding mapped_once_def inj_on_def by auto
qed

section \<open>The operations on encoded tables\<close>

text \<open>A write on encoded content stores one value, finds it already there, or refuses and changes nothing; the
  constraints of the tables never fail behind the checks of the code.\<close>

definition wrote :: "context_db \<Rightarrow> bool \<Rightarrow> context_db \<Rightarrow> bool \<Rightarrow> (context_error + write_result) \<times> context_db \<Rightarrow> bool" where
  "wrote db new db' known r =
     (case r of
        (Inr Written, d) \<Rightarrow> new \<and> d = db'
      | (Inr Duplicate_write, d) \<Rightarrow> known \<and> d = db
      | (Inl e, d) \<Rightarrow> e \<noteq> Context_integrity_error \<and> d = db)"

lemma wrote_transaction:
  "wrote db new db' known (context_transaction busy body db) \<longleftrightarrow>
     busy \<or> (case body db of Inl e \<Rightarrow> e \<noteq> Context_integrity_error
       | Inr (Written, d) \<Rightarrow> new \<and> d = db' | Inr (Duplicate_write, d) \<Rightarrow> known \<and> d = db)"
  by (auto simp: wrote_def context_transaction_def split: sum.splits write_result.splits)

lemma validate_replacement_None:
  "validate_replacement cur expected new created identity updated mapping name = None \<longleftrightarrow>
     cur = expected \<and> new = expected + 1 \<and> created \<and> identity \<and> updated \<and> mapping"
  by (simp add: validate_replacement_def)

lemma no_integrity_error [simp]:
  "validate_replacement cur expected new created identity updated mapping name \<noteq> Some Context_integrity_error"
  "validated_payload cd name dump parse p fp \<noteq> Inl Context_integrity_error"
  "ensure_binding_mapping_available k m db \<noteq> Some Context_integrity_error"
  "ensure_account_mapping_available a db \<noteq> Some Context_integrity_error"
  by (auto simp: validate_replacement_def validated_payload_def ensure_binding_mapping_available_def
      ensure_account_mapping_available_def split: option.splits)

lemma from_row_no_integrity_error [simp]:
  "account_from_row cd row \<noteq> Inl Context_integrity_error" "binding_from_row cd k brow \<noteq> Inl Context_integrity_error"
  "quota_from_row cd qrow \<noteq> Inl Context_integrity_error"
  by (auto simp: account_from_row_def binding_from_row_def quota_from_row_def split: sum.splits
      dest: arg_cong [where f = "\<lambda>x. x = Inl Context_integrity_error"])

lemma dependencies_no_integrity_error [simp]: "validate_binding_dependencies cd k m db \<noteq> Some Context_integrity_error"
  by (auto simp: validate_binding_dependencies_def validate_project_dependency_def project_from_row_def split: option.splits sum.splits
      dest: arg_cong [where f = "\<lambda>x. x = Inl Context_integrity_error"])

definition account_follows :: "provider_account_profile \<Rightarrow> provider_account_profile \<Rightarrow> bool" where
  "account_follows a b \<longleftrightarrow> pa_created_at a = pa_created_at b \<and> pa_provider a = pa_provider b \<and> pa_surface a = pa_surface b \<and>
     pa_updated_at a \<le> pa_updated_at b \<and> (pa_provider_account_id a = None \<or> pa_provider_account_id a = pa_provider_account_id b)"

definition binding_follows :: "'m binding_kind \<Rightarrow> 'm \<Rightarrow> 'm \<Rightarrow> bool" where
  "binding_follows k a b \<longleftrightarrow> bk_created_at k a = bk_created_at k b \<and> bk_account_id k a = bk_account_id k b \<and>
     bk_provider k a = bk_provider k b \<and> bk_surface k a = bk_surface k b \<and> bk_updated_at k a \<le> bk_updated_at k b \<and>
     (bk_provider_id k a = None \<or> bk_provider_id k a = bk_provider_id k b)"

lemma follows_transp: "transp account_follows" "transp (binding_follows k)"
  by (auto simp: transp_def account_follows_def binding_follows_def)

definition account_map :: "provider_account_profile \<Rightarrow> string \<times> string \<times> string option" where
  "account_map p = (pa_provider p, pa_surface p, pa_provider_account_id p)"

definition binding_map :: "'m binding_kind \<Rightarrow> 'm \<Rightarrow> string \<times> string \<times> string option" where
  "binding_map k m = (bk_provider k m, bk_surface k m, bk_provider_id k m)"

lemma row_mapping [simp]:
  "account_mapping (account_to_row cd p) = account_map p" "binding_mapping (binding_to_row cd k m) = binding_map k m"
  by (simp_all add: account_mapping_def account_to_row_def account_map_def binding_mapping_def binding_to_row_def binding_map_def
      serialized_def Let_def)

text \<open>The content of a table and of its versions.\<close>

definition table_ok :: "('m \<Rightarrow> bool) \<Rightarrow> ('m \<Rightarrow> string) \<Rightarrow> ('m \<Rightarrow> int) \<Rightarrow> ('m \<Rightarrow> 'm \<Rightarrow> bool) \<Rightarrow> ('m \<Rightarrow> string \<times> string \<times> string option) \<Rightarrow>
    'm list \<Rightarrow> 'm list \<Rightarrow> bool" where
  "table_ok valid ident revision follows mp heads vs \<longleftrightarrow> list_all valid vs \<and> history_ok ident revision follows heads vs \<and> mapped_once mp heads"

abbreviation "accounts_ok \<equiv> table_ok account_profile_valid pa_account_id pa_revision account_follows account_map"

abbreviation "bindings_ok valid k \<equiv> table_ok valid (bk_id k) (bk_revision k) (binding_follows k) (binding_map k)"

lemma table_ok_heads: "table_ok valid ident revision follows mp heads vs \<Longrightarrow> m \<in> set heads \<Longrightarrow> valid m"
  by (auto simp: table_ok_def list_all_iff dest: head_versions(1))

lemma table_ok_distinct: "table_ok valid ident revision follows mp heads vs \<Longrightarrow> distinct (map ident heads) \<and> distinct heads"
  by (auto simp: table_ok_def history_ok_def distinct_map)

lemma table_ok_register:
  assumes "table_ok valid ident revision follows mp heads vs" "ident m \<notin> ident ` set heads" "revision m = 1" "valid m"
    "\<And>x. x \<in> set heads \<Longrightarrow> ident x \<noteq> ident m \<Longrightarrow> snd (snd (mp m)) \<noteq> None \<Longrightarrow> mp x \<noteq> mp m"
  shows "table_ok valid ident revision follows mp (heads @ [m]) (vs @ [m])"
proof -
  have "mapped_once mp (heads @ [m])"
    by (rule mapped_once_update [where heads = heads and ident = ident and m = m])
      (use assms(1,2,5) in \<open>auto simp: table_ok_def image_iff\<close>)
  then show ?thesis using assms by (simp add: table_ok_def history_ok_register)
qed

lemma table_ok_replace:
  assumes "table_ok valid ident revision follows mp heads vs" "old \<in> set heads" "ident old = ident m" "revision m = revision old + 1"
    "follows old m" "transp follows" "valid m"
    "\<And>x. x \<in> set heads \<Longrightarrow> ident x \<noteq> ident m \<Longrightarrow> snd (snd (mp m)) \<noteq> None \<Longrightarrow> mp x \<noteq> mp m"
  shows "table_ok valid ident revision follows mp (put_head ident m heads) (vs @ [m])"
proof -
  have "mapped_once mp (put_head ident m heads)"
    by (rule mapped_once_update [where heads = heads and ident = ident and m = m])
      (use assms(1,8) in \<open>auto simp: table_ok_def dest: set_put\<close>)
  then show ?thesis using assms history_ok_replace [OF _ assms(2-6)] by (simp add: table_ok_def)
qed

context binding_store
begin

lemma dependencies_account:
  "validate_binding_dependencies cd k m db = None \<Longrightarrow> bk_account_id k m \<in> set (map ac_account_id (cx_accounts db))"
  by (auto simp: validate_binding_dependencies_def select_account_def image_iff split: option.splits dest!: find_Some_in)
    (metis)

lemma mapping_available:
  assumes "bk_table k db = map (binding_to_row cd k) heads" "ensure_binding_mapping_available k m db = None" "x \<in> set heads"
    "bk_id k x \<noteq> bk_id k m" "snd (snd (binding_map k m)) \<noteq> None"
  shows "binding_map k x \<noteq> binding_map k m"
proof
  assume "binding_map k x = binding_map k m"
  then have "bi_provider (binding_to_row cd k x) = bk_provider k m \<and> bi_surface (binding_to_row cd k x) = bk_surface k m \<and>
      bi_provider_id (binding_to_row cd k x) = bk_provider_id k m \<and> bi_id (binding_to_row cd k x) \<noteq> bk_id k m"
    using assms(4) by (simp add: binding_map_def binding_to_row_def serialized_def Let_def)
  then show False using assms by (auto simp: ensure_binding_mapping_available_def binding_map_def list_ex_iff split: if_splits)
qed

lemma binding_columns [simp]:
  "bi_account_id (binding_to_row cd k m) = bk_account_id k m" "bi_revision (binding_to_row cd k m) = bk_revision k m"
  "bi_id (binding_to_row cd k m) = bk_id k m"
  by (simp_all add: binding_to_row_def serialized_def Let_def)

lemma insert_binding_history_encoded:
  assumes "bk_history k db = map (binding_to_row cd k) vs" "1 \<le> bk_revision k m"
    "bk_account_id k m \<in> set (map ac_account_id (cx_accounts db))"
    "\<And>v. v \<in> set vs \<Longrightarrow> bk_id k v = bk_id k m \<Longrightarrow> bk_revision k v \<noteq> bk_revision k m"
  shows "insert_binding_history k (binding_to_row cd k m) db = Inr (bk_set_history k (map (binding_to_row cd k) (vs @ [m])) db)"
proof -
  have "(bk_id k m, bk_revision k m) \<notin> set (map (\<lambda>r. (bi_id r, bi_revision r)) (bk_history k db))"
    using assms(4) by (auto simp: assms(1)) metis
  then show ?thesis using assms(1-3) by (simp add: insert_binding_history_def)
qed

lemma select_binding_cases:
  assumes "context_codec_ok cd" "bk_table k db = map (binding_to_row cd k) heads" "bindings_ok valid k heads vs"
  obtains "select_binding k i db = None" "i \<notin> bk_id k ` set heads"
  | s where "select_binding k i db = Some (binding_to_row cd k s)" "s \<in> set heads" "bk_id k s = i"
    "binding_from_row cd k (binding_to_row cd k s) = Inr s"
proof -
  have "binding_from_row cd k (binding_to_row cd k x) = Inr x" if "x \<in> set heads" for x
    using that table_ok_heads [OF assms(3)] assms(1) by (simp add: from_to_row)
  then show ?thesis using that assms(2)
    by (elim find_row_reads [where ms = heads and k = i and from_row = "binding_from_row cd k"]) (simp_all add: select_binding_def)
qed

text \<open>Registering a binding whose tables hold encoded values.\<close>

lemma register_binding_wrote:
  assumes "context_codec_ok cd" "bk_table k db = map (binding_to_row cd k) heads" "bk_history k db = map (binding_to_row cd k) vs"
    "bindings_ok valid k heads vs" "valid m" "bk_revision k m = 1"
  shows "wrote db (validate_binding_dependencies cd k m db = None \<and> bindings_ok valid k (heads @ [m]) (vs @ [m]))
    (bk_set_table k (map (binding_to_row cd k) (heads @ [m])) (bk_set_history k (map (binding_to_row cd k) (vs @ [m])) db))
    (m \<in> set heads) (register_binding cd k busy m db)"
proof (cases rule: select_binding_cases [OF assms(1,2,4), of "bk_id k m"])
  case 1
  note n = this(1)
  let ?db1 = "bk_set_history k (map (binding_to_row cd k) (vs @ [m])) db"
  {
    assume d: "validate_binding_dependencies cd k m db = None" and e: "ensure_binding_mapping_available k m db = None"
    have ok: "bindings_ok valid k (heads @ [m]) (vs @ [m])"
      using table_ok_register [OF assms(4) 1(2) assms(6,5)] mapping_available [OF assms(2) e] by blast
    have "bk_id k v \<noteq> bk_id k m" if "v \<in> set vs" for v
      using that 1(2) assms(4) unfolding table_ok_def history_ok_def by (metis imageI)
    then have h: "insert_binding_history k (binding_to_row cd k m) db = Inr ?db1"
      using assms(6) by (intro insert_binding_history_encoded assms(3) dependencies_account [OF d]) auto
    have "mapping_unique (map (binding_map k) (heads @ [m]))"
      using ok mapping_unique_iff table_ok_distinct [OF ok] unfolding table_ok_def by blast
    then have "insert_binding k (binding_to_row cd k m) ?db1 = Inr (Written, bk_set_table k (map (binding_to_row cd k) (heads @ [m])) ?db1)"
      using 1(2) assms(2,6) dependencies_account [OF d]
      by (auto simp: insert_binding_def Let_def table_set_history accounts_set_history comp_def)
    note ok h this
  }
  then show ?thesis using n
    by (auto simp: register_binding_def wrote_transaction split: option.splits sum.splits)
next
  case (2 s)
  note n = this(1)
  show ?thesis using 2 by (auto simp: register_binding_def wrote_transaction split: option.splits)
qed

lemma replace_binding_wrote:
  assumes "context_codec_ok cd" "bk_table k db = map (binding_to_row cd k) heads" "bk_history k db = map (binding_to_row cd k) vs"
    "bindings_ok valid k heads vs" "valid m"
  shows "wrote db (validate_binding_dependencies cd k m db = None \<and> bindings_ok valid k (put_head (bk_id k) m heads) (vs @ [m]) \<and>
      (\<exists>old \<in> set heads. bk_id k old = bk_id k m \<and> bk_revision k m = bk_revision k old + 1 \<and> binding_follows k old m))
    (bk_set_table k (map (binding_to_row cd k) (put_head (bk_id k) m heads)) (bk_set_history k (map (binding_to_row cd k) (vs @ [m])) db))
    (m \<in> set heads) (replace_binding cd k busy m expected db)"
proof (cases rule: select_binding_cases [OF assms(1,2,4), of "bk_id k m"])
  case 1
  then show ?thesis by (auto simp: replace_binding_def wrote_transaction split: option.splits)
next
  case (2 s)
  note n = this(1)
  let ?db1 = "bk_set_history k (map (binding_to_row cd k) (vs @ [m])) db"
  {
    assume d: "validate_binding_dependencies cd k m db = None" and e: "ensure_binding_mapping_available k m db = None"
      and r: "bk_revision k s = expected" "bk_revision k m = expected + 1" and f: "binding_follows k s m"
    have ok: "bindings_ok valid k (put_head (bk_id k) m heads) (vs @ [m])"
      using table_ok_replace [OF assms(4) 2(2,3) _ f follows_transp(2) assms(5)] r mapping_available [OF assms(2) e] by force
    have "bk_revision k v \<noteq> bk_revision k m" if "v \<in> set vs" "bk_id k v = bk_id k m" for v
      using version_le_head [OF _ 2(2) that(1)] that(2) 2(3) r assms(4) unfolding table_ok_def by force
    then have h: "insert_binding_history k (binding_to_row cd k m) db = Inr ?db1"
      using valid_revision [OF assms(5)] by (intro insert_binding_history_encoded assms(3) dependencies_account [OF d]) auto
    note u = update_rows [OF conjunct1 [OF table_ok_distinct [OF assms(4)]] 2(2,3) r(1)]
    have "mapping_unique (map (binding_map k) (put_head (bk_id k) m heads))"
      using ok mapping_unique_iff table_ok_distinct [OF ok] unfolding table_ok_def by blast
    then have "mapping_unique (map binding_mapping (map (binding_to_row cd k) (put_head (bk_id k) m heads)))" by (simp add: comp_def)
    then have "update_binding k (binding_to_row cd k m) expected ?db1 =
        Inr (Written, bk_set_table k (map (binding_to_row cd k) (put_head (bk_id k) m heads)) ?db1)"
      using u valid_revision [OF assms(5)] dependencies_account [OF d] assms(2)
      by (simp add: update_binding_def Let_def table_set_history accounts_set_history comp_def del: map_map filter_map)
    note ok h this
  }
  then show ?thesis using n 2
    by (auto simp: replace_binding_def wrote_transaction validate_replacement_None binding_follows_def
        split: option.splits sum.splits intro!: bexI [of _ s])
qed

end

text \<open>The same for accounts, which depend on nothing.\<close>

lemma account_columns [simp]:
  "ac_account_id (account_to_row cd p) = pa_account_id p" "ac_revision (account_to_row cd p) = pa_revision p"
  by (simp_all add: account_to_row_def serialized_def Let_def)

lemma select_account_cases:
  assumes "context_codec_ok cd" "cx_accounts db = map (account_to_row cd) heads" "accounts_ok heads vs"
  obtains "select_account i db = None" "i \<notin> pa_account_id ` set heads"
  | s where "select_account i db = Some (account_to_row cd s)" "s \<in> set heads" "pa_account_id s = i"
    "account_from_row cd (account_to_row cd s) = Inr s"
proof -
  have "account_from_row cd (account_to_row cd x) = Inr x" if "x \<in> set heads" for x
    using that table_ok_heads [OF assms(3)] assms(1) by (simp add: accounts.from_to_row)
  then show ?thesis using that assms(2)
    by (elim accounts.find_row_reads [where ms = heads and k = i and from_row = "account_from_row cd"]) (simp_all add: select_account_def)
qed

lemma account_mapping_available:
  assumes "cx_accounts db = map (account_to_row cd) heads" "ensure_account_mapping_available p db = None" "x \<in> set heads"
    "pa_account_id x \<noteq> pa_account_id p" "snd (snd (account_map p)) \<noteq> None"
  shows "account_map x \<noteq> account_map p"
proof
  assume "account_map x = account_map p"
  then have "ac_provider (account_to_row cd x) = pa_provider p \<and> ac_surface (account_to_row cd x) = pa_surface p \<and>
      ac_provider_account_id (account_to_row cd x) = pa_provider_account_id p \<and> ac_account_id (account_to_row cd x) \<noteq> pa_account_id p"
    using assms(4) by (simp add: account_map_def account_to_row_def serialized_def Let_def)
  then show False using assms by (auto simp: ensure_account_mapping_available_def account_map_def list_ex_iff split: if_splits)
qed

lemma insert_account_history_encoded:
  assumes "cx_account_versions db = map (account_to_row cd) vs" "1 \<le> pa_revision p"
    "\<And>v. v \<in> set vs \<Longrightarrow> pa_account_id v = pa_account_id p \<Longrightarrow> pa_revision v \<noteq> pa_revision p"
  shows "insert_account_history (account_to_row cd p) db = Inr (db\<lparr>cx_account_versions := map (account_to_row cd) (vs @ [p])\<rparr>)"
proof -
  have "(pa_account_id p, pa_revision p) \<notin> set (map (\<lambda>r. (ac_account_id r, ac_revision r)) (cx_account_versions db))"
    using assms(3) by (auto simp: assms(1)) metis
  then show ?thesis using assms(1,2) by (simp add: insert_account_history_def)
qed

lemma register_account_wrote:
  assumes "context_codec_ok cd" "cx_accounts db = map (account_to_row cd) heads" "cx_account_versions db = map (account_to_row cd) vs"
    "accounts_ok heads vs" "account_profile_valid p"
  shows "wrote db (accounts_ok (heads @ [p]) (vs @ [p]) \<and> pa_account_id p \<notin> pa_account_id ` set heads)
    (db\<lparr>cx_account_versions := map (account_to_row cd) (vs @ [p]), cx_accounts := map (account_to_row cd) (heads @ [p])\<rparr>)
    (p \<in> set heads) (register_account cd busy p db)"
proof (cases "pa_revision p = 1")
  case rv: True
  show ?thesis
  proof (cases rule: select_account_cases [OF assms(1,2,4), of "pa_account_id p"])
    case 1
    let ?db1 = "db\<lparr>cx_account_versions := map (account_to_row cd) (vs @ [p])\<rparr>"
    {
      assume e: "ensure_account_mapping_available p db = None"
      have ok: "accounts_ok (heads @ [p]) (vs @ [p])"
        using table_ok_register [OF assms(4) 1(2) rv assms(5)] account_mapping_available [OF assms(2) e] by blast
      have "pa_account_id v \<noteq> pa_account_id p" if "v \<in> set vs" for v
        using that 1(2) assms(4) unfolding table_ok_def history_ok_def by (metis imageI)
      then have h: "insert_account_history (account_to_row cd p) db = Inr ?db1"
        using rv by (intro insert_account_history_encoded assms(3)) auto
      have "mapping_unique (map account_map (heads @ [p]))"
        using ok mapping_unique_iff table_ok_distinct [OF ok] unfolding table_ok_def by blast
      then have "insert_account (account_to_row cd p) ?db1 = Inr (Written, ?db1\<lparr>cx_accounts := map (account_to_row cd) (heads @ [p])\<rparr>)"
        using 1(2) assms(2) rv by (auto simp: insert_account_def Let_def comp_def)
      note ok h this
    }
    then show ?thesis using 1 rv by (auto simp: register_account_def wrote_transaction split: option.splits sum.splits)
  next
    case (2 s)
    then show ?thesis using rv by (auto simp: register_account_def wrote_transaction)
  qed
qed (simp add: register_account_def wrote_def)

lemma replace_account_wrote:
  assumes "context_codec_ok cd" "cx_accounts db = map (account_to_row cd) heads" "cx_account_versions db = map (account_to_row cd) vs"
    "accounts_ok heads vs" "account_profile_valid p"
  shows "wrote db (accounts_ok (put_head pa_account_id p heads) (vs @ [p]) \<and>
      (\<exists>old \<in> set heads. pa_account_id old = pa_account_id p \<and> pa_revision p = pa_revision old + 1 \<and> account_follows old p))
    (db\<lparr>cx_account_versions := map (account_to_row cd) (vs @ [p]), cx_accounts := map (account_to_row cd) (put_head pa_account_id p heads)\<rparr>)
    (p \<in> set heads) (replace_account cd busy p expected db)"
proof (cases rule: select_account_cases [OF assms(1,2,4), of "pa_account_id p"])
  case 1
  then show ?thesis by (simp add: replace_account_def wrote_transaction)
next
  case (2 s)
  let ?db1 = "db\<lparr>cx_account_versions := map (account_to_row cd) (vs @ [p])\<rparr>"
  {
    assume e: "ensure_account_mapping_available p db = None"
      and r: "pa_revision s = expected" "pa_revision p = expected + 1" and f: "account_follows s p"
    have ok: "accounts_ok (put_head pa_account_id p heads) (vs @ [p])"
      using table_ok_replace [OF assms(4) 2(2,3) _ f follows_transp(1) assms(5)] r account_mapping_available [OF assms(2) e] by force
    have "pa_revision v \<noteq> pa_revision p" if "v \<in> set vs" "pa_account_id v = pa_account_id p" for v
      using version_le_head [OF _ 2(2) that(1)] that(2) 2(3) r assms(4) unfolding table_ok_def by force
    moreover have rp: "1 \<le> pa_revision p" using assms(5) by (simp add: account_profile_valid_def)
    ultimately have h: "insert_account_history (account_to_row cd p) db = Inr ?db1"
      by (intro insert_account_history_encoded assms(3)) auto
    note u = accounts.update_rows [OF conjunct1 [OF table_ok_distinct [OF assms(4)]] 2(2,3) r(1)]
    have "mapping_unique (map account_map (put_head pa_account_id p heads))"
      using ok mapping_unique_iff table_ok_distinct [OF ok] unfolding table_ok_def by blast
    then have "mapping_unique (map account_mapping (map (account_to_row cd) (put_head pa_account_id p heads)))" by (simp add: comp_def)
    then have "update_account (account_to_row cd p) expected ?db1 =
        Inr (Written, ?db1\<lparr>cx_accounts := map (account_to_row cd) (put_head pa_account_id p heads)\<rparr>)"
      using u rp assms(2) by (simp add: update_account_def Let_def comp_def del: map_map filter_map)
    note ok h this
  }
  then show ?thesis using 2
    by (auto simp: replace_account_def wrote_transaction validate_replacement_None account_follows_def
        split: option.splits sum.splits intro!: bexI [of _ s])
qed

section \<open>The content of the store\<close>

record context_data =
  da_accounts :: "provider_account_profile list"
  da_account_versions :: "provider_account_profile list"
  da_quotas :: "provider_quota_snapshot list"
  da_projects :: "provider_project_binding list"
  da_project_versions :: "provider_project_binding list"
  da_conversations :: "provider_conversation_binding list"
  da_conversation_versions :: "provider_conversation_binding list"

definition encode_context :: "context_codec \<Rightarrow> context_data \<Rightarrow> context_db" where
  "encode_context cd D = \<lparr>cx_accounts = map (account_to_row cd) (da_accounts D),
     cx_account_versions = map (account_to_row cd) (da_account_versions D),
     cx_quota_snapshots = map (quota_to_row cd) (da_quotas D),
     cx_projects = map (binding_to_row cd (project_kind cd)) (da_projects D),
     cx_project_versions = map (binding_to_row cd (project_kind cd)) (da_project_versions D),
     cx_conversations = map (binding_to_row cd (conversation_kind cd)) (da_conversations D),
     cx_conversation_versions = map (binding_to_row cd (conversation_kind cd)) (da_conversation_versions D)\<rparr>"

text \<open>What a binding or an observation refers to.\<close>

definition account_of :: "context_data \<Rightarrow> string \<Rightarrow> string \<Rightarrow> string \<Rightarrow> int \<Rightarrow> bool" where
  "account_of D i provider surface at \<longleftrightarrow> (\<exists>a \<in> set (da_accounts D). pa_account_id a = i \<and> pa_provider a = provider \<and>
     pa_surface a = surface \<and> pa_created_at a \<le> at)"

definition project_of :: "context_data \<Rightarrow> provider_conversation_binding \<Rightarrow> bool" where
  "project_of D c \<longleftrightarrow> optional (\<lambda>i. \<exists>p \<in> set (da_projects D). pb_project_id p = i \<and> pb_account_id p = cb_account_id c \<and>
     pb_provider p = cb_provider c \<and> pb_surface p = cb_surface c) (cb_project_id c)"

definition references_hold :: "context_data \<Rightarrow> bool" where
  "references_hold D \<longleftrightarrow>
     (\<forall>p \<in> set (da_project_versions D). account_of D (pb_account_id p) (pb_provider p) (pb_surface p) (pb_created_at p)) \<and>
     (\<forall>c \<in> set (da_conversation_versions D). account_of D (cb_account_id c) (cb_provider c) (cb_surface c) (cb_created_at c) \<and>
       project_of D c) \<and>
     (\<forall>q \<in> set (da_quotas D). \<exists>a \<in> set (da_accounts D). pa_account_id a = qs_account_id q \<and> pa_created_at a \<le> qs_observed_at q)"

definition quota_key :: "provider_quota_snapshot \<Rightarrow> string \<times> quota_dimension \<times> int" where
  "quota_key q = (qs_account_id q, qs_dimension q, qs_observed_at q)"

definition quotas_ok :: "provider_quota_snapshot list \<Rightarrow> bool" where
  "quotas_ok qs \<longleftrightarrow> list_all quota_snapshot_valid qs \<and> distinct (map qs_snapshot_id qs) \<and> distinct (map quota_key qs)"

definition context_ok :: "context_codec \<Rightarrow> context_data \<Rightarrow> bool" where
  "context_ok cd D \<longleftrightarrow> accounts_ok (da_accounts D) (da_account_versions D) \<and>
     bindings_ok project_binding_valid (project_kind cd) (da_projects D) (da_project_versions D) \<and>
     bindings_ok conversation_binding_valid (conversation_kind cd) (da_conversations D) (da_conversation_versions D) \<and>
     quotas_ok (da_quotas D) \<and> references_hold D"

lemma encode_context_simps [simp]:
  "cx_accounts (encode_context cd D) = map (account_to_row cd) (da_accounts D)"
  "cx_account_versions (encode_context cd D) = map (account_to_row cd) (da_account_versions D)"
  "cx_quota_snapshots (encode_context cd D) = map (quota_to_row cd) (da_quotas D)"
  "bk_table (project_kind cd) (encode_context cd D) = map (binding_to_row cd (project_kind cd)) (da_projects D)"
  "bk_history (project_kind cd) (encode_context cd D) = map (binding_to_row cd (project_kind cd)) (da_project_versions D)"
  "bk_table (conversation_kind cd) (encode_context cd D) = map (binding_to_row cd (conversation_kind cd)) (da_conversations D)"
  "bk_history (conversation_kind cd) (encode_context cd D) = map (binding_to_row cd (conversation_kind cd)) (da_conversation_versions D)"
  by (simp_all add: encode_context_def project_kind_def conversation_kind_def)

lemma encode_context_updates:
  "(encode_context cd D)\<lparr>cx_account_versions := map (account_to_row cd) vs, cx_accounts := map (account_to_row cd) hs\<rparr> =
     encode_context cd (D\<lparr>da_accounts := hs, da_account_versions := vs\<rparr>)"
  "(encode_context cd D)\<lparr>cx_quota_snapshots := map (quota_to_row cd) qs\<rparr> = encode_context cd (D\<lparr>da_quotas := qs\<rparr>)"
  "bk_set_table (project_kind cd) (map (binding_to_row cd (project_kind cd)) ps)
     (bk_set_history (project_kind cd) (map (binding_to_row cd (project_kind cd)) pvs) (encode_context cd D)) =
     encode_context cd (D\<lparr>da_projects := ps, da_project_versions := pvs\<rparr>)"
  "bk_set_table (conversation_kind cd) (map (binding_to_row cd (conversation_kind cd)) cs)
     (bk_set_history (conversation_kind cd) (map (binding_to_row cd (conversation_kind cd)) cvs) (encode_context cd D)) =
     encode_context cd (D\<lparr>da_conversations := cs, da_conversation_versions := cvs\<rparr>)"
  by (simp_all add: encode_context_def project_kind_def conversation_kind_def)

lemma kind_simps [simp]:
  "bk_id (project_kind cd) = pb_project_id" "bk_revision (project_kind cd) = pb_revision" "bk_account_id (project_kind cd) = pb_account_id"
  "bk_provider (project_kind cd) = pb_provider" "bk_surface (project_kind cd) = pb_surface" "bk_created_at (project_kind cd) = pb_created_at"
  "bk_project_id (project_kind cd) = (\<lambda>_. None)"
  "bk_id (conversation_kind cd) = cb_conversation_id" "bk_revision (conversation_kind cd) = cb_revision"
  "bk_account_id (conversation_kind cd) = cb_account_id" "bk_provider (conversation_kind cd) = cb_provider"
  "bk_surface (conversation_kind cd) = cb_surface" "bk_created_at (conversation_kind cd) = cb_created_at"
  "bk_project_id (conversation_kind cd) = cb_project_id"
  by (simp_all add: project_kind_def conversation_kind_def)

text \<open>What the dependency checks of the code establish.\<close>

lemma dependencies_hold:
  assumes "context_codec_ok cd" "context_ok cd D" "validate_binding_dependencies cd k m (encode_context cd D) = None"
  shows "account_of D (bk_account_id k m) (bk_provider k m) (bk_surface k m) (bk_created_at k m)"
    "bk_project_id k m = Some i \<Longrightarrow> \<exists>p \<in> set (da_projects D). pb_project_id p = i \<and> pb_account_id p = bk_account_id k m \<and>
       pb_provider p = bk_provider k m \<and> pb_surface p = bk_surface k m"
proof -
  have a: "accounts_ok (da_accounts D) (da_account_versions D)"
    and p: "bindings_ok project_binding_valid (project_kind cd) (da_projects D) (da_project_versions D)"
    using assms(2) by (simp_all add: context_ok_def)
  show "account_of D (bk_account_id k m) (bk_provider k m) (bk_surface k m) (bk_created_at k m)"
    using assms(3) by (cases rule: select_account_cases [OF assms(1) encode_context_simps(1) a, of "bk_account_id k m"])
      (auto simp: validate_binding_dependencies_def account_of_def split: if_splits option.splits)
  have v: "validate_project_dependency cd k m (encode_context cd D) = None"
    using assms(3) by (auto simp: validate_binding_dependencies_def split: option.splits sum.splits if_splits)
  show "\<exists>p \<in> set (da_projects D). pb_project_id p = i \<and> pb_account_id p = bk_account_id k m \<and>
       pb_provider p = bk_provider k m \<and> pb_surface p = bk_surface k m" if "bk_project_id k m = Some i"
    using v that by (cases rule: projects.select_binding_cases [OF assms(1) encode_context_simps(4) p, of i])
      (auto simp: validate_project_dependency_def project_from_row_def split: if_splits)
qed

text \<open>Accounts and projects keep what others refer to when they are replaced.\<close>

lemma account_of_put:
  assumes "account_of D i provider surface at" "old \<in> set (da_accounts D)" "pa_account_id old = pa_account_id p" "account_follows old p"
    "distinct (map pa_account_id (da_accounts D))"
  shows "account_of (D\<lparr>da_accounts := put_head pa_account_id p (da_accounts D), da_account_versions := vs\<rparr>) i provider surface at"
proof -
  obtain a where a: "a \<in> set (da_accounts D)" "pa_account_id a = i" "pa_provider a = provider" "pa_surface a = surface" "pa_created_at a \<le> at"
    using assms(1) by (auto simp: account_of_def)
  show ?thesis
  proof (cases "pa_account_id a = pa_account_id p")
    case True
    then have "a = old" using a(1) assms(2,3,5) by (metis distinct_map inj_onD)
    then have "p \<in> set (put_head pa_account_id p (da_accounts D))" "pa_account_id p = i" "pa_provider p = provider" "pa_surface p = surface"
      "pa_created_at p \<le> at" using a True assms(4) by (auto simp: put_head_def account_follows_def image_iff)
    then show ?thesis by (auto simp: account_of_def)
  next
    case False
    then have "a \<in> set (put_head pa_account_id p (da_accounts D))" using a(1) by (force simp: put_head_def)
    then show ?thesis using a by (auto simp: account_of_def)
  qed
qed

lemma project_of_put:
  assumes "project_of D c" "old \<in> set (da_projects D)" "pb_project_id old = pb_project_id p" "binding_follows (project_kind cd) old p"
    "distinct (map pb_project_id (da_projects D))"
  shows "project_of (D\<lparr>da_projects := put_head pb_project_id p (da_projects D), da_project_versions := vs\<rparr>) c"
proof (cases "cb_project_id c")
  case (Some i)
  then obtain a where a: "a \<in> set (da_projects D)" "pb_project_id a = i" "pb_account_id a = cb_account_id c"
    "pb_provider a = cb_provider c" "pb_surface a = cb_surface c" using assms(1) by (auto simp: project_of_def optional_def)
  show ?thesis
  proof (cases "pb_project_id a = pb_project_id p")
    case True
    then have "a = old" using a(1) assms(2,3,5) by (metis distinct_map inj_onD)
    then have "p \<in> set (put_head pb_project_id p (da_projects D))" "pb_project_id p = i" "pb_account_id p = cb_account_id c"
      "pb_provider p = cb_provider c" "pb_surface p = cb_surface c"
      using a True assms(4) by (auto simp: put_head_def binding_follows_def image_iff)
    then show ?thesis using Some by (auto simp: project_of_def optional_def)
  next
    case False
    then have "a \<in> set (put_head pb_project_id p (da_projects D))" using a(1) by (force simp: put_head_def)
    then show ?thesis using a Some by (auto simp: project_of_def optional_def)
  qed
qed (simp add: project_of_def optional_def)

section \<open>Sequences of calls\<close>

lemma dimension_value_inj: "dimension_value a = dimension_value b \<Longrightarrow> a = b"
  by (cases a; cases b) simp_all

lemma quota_columns [simp]:
  "qr_snapshot_id (quota_to_row cd q) = qs_snapshot_id q" "qr_account_id (quota_to_row cd q) = qs_account_id q"
  "qr_dimension (quota_to_row cd q) = dimension_value (qs_dimension q)" "qr_observed_at (quota_to_row cd q) = iso_utc (qs_observed_at q)"
  by (simp_all add: quota_to_row_def serialized_def Let_def)

lemma quota_observation:
  assumes "quota_snapshot_valid p" "quota_snapshot_valid q"
  shows "iso_utc (qs_observed_at p) = iso_utc (qs_observed_at q) \<longleftrightarrow> qs_observed_at p = qs_observed_at q"
  using assms by (intro iso_utc_mono(2)) (simp_all add: quota_snapshot_valid_def)

lemma insert_quota_encoded:
  assumes "quotas_ok (da_quotas D)" "quota_snapshot_valid q" "qs_snapshot_id q \<notin> qs_snapshot_id ` set (da_quotas D)"
    "qs_account_id q \<in> pa_account_id ` set (da_accounts D)"
    "\<not> list_ex (\<lambda>r. qr_account_id r = qs_account_id q \<and> qr_dimension r = dimension_value (qs_dimension q) \<and>
       qr_observed_at r = iso_utc (qs_observed_at q)) (cx_quota_snapshots (encode_context cd D))"
  shows "quotas_ok (da_quotas D @ [q])"
    "insert_quota (quota_to_row cd q) (encode_context cd D) = Inr (Written, encode_context cd (D\<lparr>da_quotas := da_quotas D @ [q]\<rparr>))"
proof -
  have "quota_key q \<notin> quota_key ` set (da_quotas D)" using assms(5) by (auto simp: list_ex_iff quota_key_def)
  then show "quotas_ok (da_quotas D @ [q])" using assms(1-3) by (auto simp: quotas_ok_def)
  show "insert_quota (quota_to_row cd q) (encode_context cd D) = Inr (Written, encode_context cd (D\<lparr>da_quotas := da_quotas D @ [q]\<rparr>))"
    using assms(3-5) encode_context_updates(2) [where qs = "da_quotas D @ [q]"]
    by (auto simp: insert_quota_def image_iff)
qed

lemma select_quota_cases:
  assumes "context_codec_ok cd" "quotas_ok qs"
  obtains "List.find (\<lambda>r. qr_snapshot_id r = i) (map (quota_to_row cd) qs) = None" "i \<notin> qs_snapshot_id ` set qs"
  | s where "List.find (\<lambda>r. qr_snapshot_id r = i) (map (quota_to_row cd) qs) = Some (quota_to_row cd s)" "s \<in> set qs"
    "qs_snapshot_id s = i" "quota_from_row cd (quota_to_row cd s) = Inr s"
proof -
  have "quota_from_row cd (quota_to_row cd x) = Inr x" if "x \<in> set qs" for x
    using that assms by (simp add: quota_from_to_row quotas_ok_def list_all_iff)
  then show ?thesis using that
    by (elim quotas.find_row_reads [where ms = qs and k = i and from_row = "quota_from_row cd"]) simp_all
qed

lemma append_quota_wrote:
  assumes "context_codec_ok cd" "context_ok cd D" "quota_snapshot_valid q"
  shows "wrote (encode_context cd D) (quotas_ok (da_quotas D @ [q]) \<and>
      (\<exists>a \<in> set (da_accounts D). pa_account_id a = qs_account_id q \<and> pa_created_at a \<le> qs_observed_at q))
    (encode_context cd (D\<lparr>da_quotas := da_quotas D @ [q]\<rparr>)) (q \<in> set (da_quotas D)) (append_quota cd busy q (encode_context cd D))"
proof -
  have a: "accounts_ok (da_accounts D) (da_account_versions D)" and qs: "quotas_ok (da_quotas D)"
    using assms(2) by (simp_all add: context_ok_def)
  show ?thesis
  proof (cases rule: select_account_cases [OF assms(1) encode_context_simps(1) a, of "qs_account_id q"])
    case 1
    then show ?thesis by (simp add: append_quota_def wrote_transaction)
  next
    case (2 s)
    note s = this
    have acc: "qs_account_id q \<in> pa_account_id ` set (da_accounts D)" using s(2,3) by (metis imageI)
    show ?thesis
    proof (cases rule: select_quota_cases [OF assms(1) qs, of "qs_snapshot_id q"])
      case 1
      then show ?thesis using s insert_quota_encoded [OF qs assms(3) 1(2) acc, of cd]
        by (auto simp: append_quota_def wrote_transaction not_less intro!: bexI [of _ s])
    next
      case (2 p)
      then show ?thesis using s by (auto simp: append_quota_def wrote_transaction)
    qed
  qed
qed

datatype context_call =
    Register_account provider_account_profile
  | Replace_account provider_account_profile int
  | Append_quota provider_quota_snapshot
  | Register_project provider_project_binding
  | Replace_project provider_project_binding int
  | Register_binding provider_conversation_binding
  | Replace_binding provider_conversation_binding int

fun context_call_valid :: "context_call \<Rightarrow> bool" where
  "context_call_valid (Register_account p) = account_profile_valid p"
| "context_call_valid (Replace_account p n) = account_profile_valid p"
| "context_call_valid (Append_quota q) = quota_snapshot_valid q"
| "context_call_valid (Register_project b) = project_binding_valid b"
| "context_call_valid (Replace_project b n) = project_binding_valid b"
| "context_call_valid (Register_binding b) = conversation_binding_valid b"
| "context_call_valid (Replace_binding b n) = conversation_binding_valid b"

fun context_step :: "context_codec \<Rightarrow> bool \<times> context_call \<Rightarrow> context_op" where
  "context_step cd (busy, Register_account p) = register_account cd busy p"
| "context_step cd (busy, Replace_account p n) = replace_account cd busy p n"
| "context_step cd (busy, Append_quota q) = append_quota cd busy q"
| "context_step cd (busy, Register_project b) = register_project cd busy b"
| "context_step cd (busy, Replace_project b n) = replace_project cd busy b n"
| "context_step cd (busy, Register_binding b) = register_conversation_binding cd busy b"
| "context_step cd (busy, Replace_binding b n) = replace_conversation_binding cd busy b n"

text \<open>The recorded values, which later calls keep, and the one a call is about.\<close>

definition context_grows :: "context_data \<Rightarrow> context_data \<Rightarrow> bool" where
  "context_grows D E \<longleftrightarrow> set (da_account_versions D) \<subseteq> set (da_account_versions E) \<and> set (da_quotas D) \<subseteq> set (da_quotas E) \<and>
     set (da_project_versions D) \<subseteq> set (da_project_versions E) \<and> set (da_conversation_versions D) \<subseteq> set (da_conversation_versions E)"

fun recorded :: "context_call \<Rightarrow> context_data \<Rightarrow> bool" where
  "recorded (Register_account p) D \<longleftrightarrow> p \<in> set (da_account_versions D)"
| "recorded (Replace_account p n) D \<longleftrightarrow> p \<in> set (da_account_versions D)"
| "recorded (Append_quota q) D \<longleftrightarrow> q \<in> set (da_quotas D)"
| "recorded (Register_project b) D \<longleftrightarrow> b \<in> set (da_project_versions D)"
| "recorded (Replace_project b n) D \<longleftrightarrow> b \<in> set (da_project_versions D)"
| "recorded (Register_binding b) D \<longleftrightarrow> b \<in> set (da_conversation_versions D)"
| "recorded (Replace_binding b n) D \<longleftrightarrow> b \<in> set (da_conversation_versions D)"

definition context_stepped :: "context_codec \<Rightarrow> context_data \<Rightarrow> context_call \<Rightarrow> (context_error + write_result) \<times> context_db \<Rightarrow> bool" where
  "context_stepped cd D c r \<longleftrightarrow> fst r \<noteq> Inl Context_integrity_error \<and>
     (\<exists>E. snd r = encode_context cd E \<and> context_ok cd E \<and> context_grows D E \<and> (is_ok (fst r) \<longrightarrow> recorded c E) \<and>
       (fst r \<noteq> Inr Written \<longrightarrow> E = D))"

lemma context_stepped_wrote:
  assumes "wrote (encode_context cd D) new (encode_context cd E) known r" "context_ok cd D" "new \<Longrightarrow> context_ok cd E" "context_grows D E"
    "recorded c E" "known \<Longrightarrow> recorded c D"
  shows "context_stepped cd D c r"
  using assms by (cases r; cases "fst r") (auto simp: wrote_def context_stepped_def context_grows_def split: write_result.splits)

lemma context_grows_refl [simp]: "context_grows D D" and context_grows_trans: "context_grows D E \<Longrightarrow> context_grows E F \<Longrightarrow> context_grows D F"
  by (auto simp: context_grows_def)

lemma recorded_grows: "recorded c D \<Longrightarrow> context_grows D E \<Longrightarrow> recorded c E"
  by (cases c) (auto simp: context_grows_def)

lemma account_exists: "(\<exists>a \<in> set (da_accounts D). pa_account_id a = i \<and> pa_created_at a \<le> at) \<longleftrightarrow> (\<exists>p s. account_of D i p s at)"
  by (auto simp: account_of_def)

lemma references_hold_iff:
  "references_hold D \<longleftrightarrow>
     (\<forall>p \<in> set (da_project_versions D). account_of D (pb_account_id p) (pb_provider p) (pb_surface p) (pb_created_at p)) \<and>
     (\<forall>c \<in> set (da_conversation_versions D). account_of D (cb_account_id c) (cb_provider c) (cb_surface c) (cb_created_at c) \<and>
       project_of D c) \<and>
     (\<forall>q \<in> set (da_quotas D). \<exists>p s. account_of D (qs_account_id q) p s (qs_observed_at q))"
  by (simp add: references_hold_def account_exists)

text \<open>References stay when accounts and projects keep what is referred to.\<close>

lemma references_hold_kept:
  assumes "references_hold D" "\<And>i p s t. account_of D i p s t \<Longrightarrow> account_of E i p s t" "\<And>c. project_of D c \<Longrightarrow> project_of E c"
    "\<And>p. p \<in> set (da_project_versions E) \<Longrightarrow> p \<in> set (da_project_versions D) \<or>
       account_of D (pb_account_id p) (pb_provider p) (pb_surface p) (pb_created_at p)"
    "\<And>c. c \<in> set (da_conversation_versions E) \<Longrightarrow> c \<in> set (da_conversation_versions D) \<or>
       account_of D (cb_account_id c) (cb_provider c) (cb_surface c) (cb_created_at c) \<and> project_of D c"
    "\<And>q. q \<in> set (da_quotas E) \<Longrightarrow> q \<in> set (da_quotas D) \<or> (\<exists>p s. account_of D (qs_account_id q) p s (qs_observed_at q))"
  shows "references_hold E"
  unfolding references_hold_iff
proof (intro conjI ballI)
  note r = assms(1) [unfolded references_hold_iff]
  show "account_of E (pb_account_id p) (pb_provider p) (pb_surface p) (pb_created_at p)" if "p \<in> set (da_project_versions E)" for p
    using assms(4) [OF that] r assms(2) by blast
  show "account_of E (cb_account_id c) (cb_provider c) (cb_surface c) (cb_created_at c)" "project_of E c"
    if "c \<in> set (da_conversation_versions E)" for c
    using assms(5) [OF that] r assms(2,3) by blast+
  show "\<exists>p s. account_of E (qs_account_id q) p s (qs_observed_at q)" if "q \<in> set (da_quotas E)" for q
    using assms(6) [OF that] r assms(2) by blast
qed

lemma account_of_frame [simp]:
  "account_of (D\<lparr>da_quotas := qs\<rparr>) = account_of D" "account_of (D\<lparr>da_projects := ps, da_project_versions := pvs\<rparr>) = account_of D"
  "account_of (D\<lparr>da_conversations := cs, da_conversation_versions := cvs\<rparr>) = account_of D"
  by (simp_all add: account_of_def fun_eq_iff)

lemma project_of_frame [simp]:
  "project_of (D\<lparr>da_quotas := qs\<rparr>) = project_of D" "project_of (D\<lparr>da_accounts := as, da_account_versions := avs\<rparr>) = project_of D"
  "project_of (D\<lparr>da_conversations := cs, da_conversation_versions := cvs\<rparr>) = project_of D"
  by (simp_all add: project_of_def fun_eq_iff)

lemma context_ok_accounts:
  assumes "context_ok cd D" "accounts_ok hs vs" "\<And>i p s t. account_of D i p s t \<Longrightarrow>
    account_of (D\<lparr>da_accounts := hs, da_account_versions := vs\<rparr>) i p s t"
  shows "context_ok cd (D\<lparr>da_accounts := hs, da_account_versions := vs\<rparr>)"
proof -
  have "references_hold (D\<lparr>da_accounts := hs, da_account_versions := vs\<rparr>)"
    by (rule references_hold_kept [of D]) (use assms(1,3) in \<open>auto simp: context_ok_def\<close>)
  then show ?thesis using assms(1,2) by (simp add: context_ok_def)
qed

lemma context_ok_projects:
  assumes "context_codec_ok cd" "context_ok cd D" "bindings_ok project_binding_valid (project_kind cd) hs (da_project_versions D @ [b])"
    "validate_binding_dependencies cd (project_kind cd) b (encode_context cd D) = None"
    "\<And>c. project_of D c \<Longrightarrow> project_of (D\<lparr>da_projects := hs, da_project_versions := da_project_versions D @ [b]\<rparr>) c"
  shows "context_ok cd (D\<lparr>da_projects := hs, da_project_versions := da_project_versions D @ [b]\<rparr>)"
proof -
  have "references_hold (D\<lparr>da_projects := hs, da_project_versions := da_project_versions D @ [b]\<rparr>)"
    by (rule references_hold_kept [of D]) (use assms(2,5) dependencies_hold(1) [OF assms(1,2,4)] in \<open>auto simp: context_ok_def\<close>)
  then show ?thesis using assms(2,3) by (simp add: context_ok_def)
qed

lemma context_ok_conversations:
  assumes "context_codec_ok cd" "context_ok cd D"
    "bindings_ok conversation_binding_valid (conversation_kind cd) hs (da_conversation_versions D @ [b])"
    "validate_binding_dependencies cd (conversation_kind cd) b (encode_context cd D) = None"
  shows "context_ok cd (D\<lparr>da_conversations := hs, da_conversation_versions := da_conversation_versions D @ [b]\<rparr>)"
proof -
  have b: "project_of D b" using dependencies_hold(2) [OF assms(1,2,4)] by (cases "cb_project_id b") (auto simp: project_of_def optional_def)
  have "references_hold (D\<lparr>da_conversations := hs, da_conversation_versions := da_conversation_versions D @ [b]\<rparr>)"
    by (rule references_hold_kept [of D]) (use b assms(2) dependencies_hold(1) [OF assms(1,2,4)] in \<open>auto simp: context_ok_def\<close>)
  then show ?thesis using assms(2,3) by (simp add: context_ok_def)
qed

lemma context_ok_quotas:
  assumes "context_ok cd D" "quotas_ok (da_quotas D @ [q])"
    "\<exists>a \<in> set (da_accounts D). pa_account_id a = qs_account_id q \<and> pa_created_at a \<le> qs_observed_at q"
  shows "context_ok cd (D\<lparr>da_quotas := da_quotas D @ [q]\<rparr>)"
proof -
  have "references_hold (D\<lparr>da_quotas := da_quotas D @ [q]\<rparr>)"
    by (rule references_hold_kept [of D]) (use assms(1,3) in \<open>auto simp: context_ok_def account_exists\<close>)
  then show ?thesis using assms(1,2) by (simp add: context_ok_def)
qed

lemma heads_recorded:
  assumes "context_ok cd D"
  shows "p \<in> set (da_accounts D) \<Longrightarrow> p \<in> set (da_account_versions D)" "b \<in> set (da_projects D) \<Longrightarrow> b \<in> set (da_project_versions D)"
    "c \<in> set (da_conversations D) \<Longrightarrow> c \<in> set (da_conversation_versions D)"
  using assms by (auto simp: context_ok_def table_ok_def dest: head_versions(1))

lemma account_step:
  assumes "context_codec_ok cd" "context_ok cd D" "account_profile_valid p"
  shows "context_stepped cd D (Register_account p) (register_account cd busy p (encode_context cd D))"
    "context_stepped cd D (Replace_account p n) (replace_account cd busy p n (encode_context cd D))"
proof -
  have a: "accounts_ok (da_accounts D) (da_account_versions D)" using assms(2) by (simp add: context_ok_def)
  then have d: "distinct (map pa_account_id (da_accounts D))" by (simp add: table_ok_distinct)
  note upd = encode_context_updates(1)
  show "context_stepped cd D (Register_account p) (register_account cd busy p (encode_context cd D))"
    by (rule context_stepped_wrote [OF register_account_wrote [OF assms(1) encode_context_simps(1,2) a assms(3), unfolded upd] assms(2)])
      (auto simp: context_grows_def heads_recorded [OF assms(2)] account_of_def intro!: context_ok_accounts assms(2))
  show "context_stepped cd D (Replace_account p n) (replace_account cd busy p n (encode_context cd D))"
    by (rule context_stepped_wrote [OF replace_account_wrote [OF assms(1) encode_context_simps(1,2) a assms(3), unfolded upd] assms(2)])
      (auto simp: context_grows_def heads_recorded [OF assms(2)] intro!: context_ok_accounts assms(2) account_of_put d)
qed

lemma project_step:
  assumes "context_codec_ok cd" "context_ok cd D" "project_binding_valid b"
  shows "context_stepped cd D (Register_project b) (register_project cd busy b (encode_context cd D))"
    "context_stepped cd D (Replace_project b n) (replace_project cd busy b n (encode_context cd D))"
proof -
  have p: "bindings_ok project_binding_valid (project_kind cd) (da_projects D) (da_project_versions D)"
    using assms(2) by (simp add: context_ok_def)
  then have d: "distinct (map pb_project_id (da_projects D))" using table_ok_distinct by fastforce
  note upd = encode_context_updates(3)
  have "context_stepped cd D (Register_project b) (register_binding cd (project_kind cd) busy b (encode_context cd D))"
    if r: "pb_revision b = 1"
    by (rule context_stepped_wrote [OF projects.register_binding_wrote [OF assms(1) encode_context_simps(4,5) p assms(3), unfolded upd] assms(2)])
      (use r in \<open>auto simp: context_grows_def heads_recorded [OF assms(2)] project_of_def optional_def split: option.splits
        intro!: context_ok_projects assms(1,2)\<close>)
  then show "context_stepped cd D (Register_project b) (register_project cd busy b (encode_context cd D))"
    using assms(2) by (auto simp: register_project_def context_stepped_def)
  show "context_stepped cd D (Replace_project b n) (replace_project cd busy b n (encode_context cd D))"
    unfolding replace_project_def
    by (rule context_stepped_wrote [OF projects.replace_binding_wrote [OF assms(1) encode_context_simps(4,5) p assms(3), unfolded upd] assms(2)])
      (auto simp: context_grows_def heads_recorded [OF assms(2)] intro!: context_ok_projects assms(1,2) intro: project_of_put d)
qed

lemma conversation_step:
  assumes "context_codec_ok cd" "context_ok cd D" "conversation_binding_valid b"
  shows "context_stepped cd D (Register_binding b) (register_conversation_binding cd busy b (encode_context cd D))"
    "context_stepped cd D (Replace_binding b n) (replace_conversation_binding cd busy b n (encode_context cd D))"
proof -
  have p: "bindings_ok conversation_binding_valid (conversation_kind cd) (da_conversations D) (da_conversation_versions D)"
    using assms(2) by (simp add: context_ok_def)
  note upd = encode_context_updates(4)
  have "context_stepped cd D (Register_binding b) (register_binding cd (conversation_kind cd) busy b (encode_context cd D))"
    if r: "cb_revision b = 1"
    by (rule context_stepped_wrote [OF bindings.register_binding_wrote [OF assms(1) encode_context_simps(6,7) p assms(3), unfolded upd] assms(2)])
      (use r in \<open>auto simp: context_grows_def heads_recorded [OF assms(2)] intro!: context_ok_conversations assms(1,2)\<close>)
  then show "context_stepped cd D (Register_binding b) (register_conversation_binding cd busy b (encode_context cd D))"
    using assms(2) by (auto simp: register_conversation_binding_def context_stepped_def)
  show "context_stepped cd D (Replace_binding b n) (replace_conversation_binding cd busy b n (encode_context cd D))"
    unfolding replace_conversation_binding_def
    by (rule context_stepped_wrote [OF bindings.replace_binding_wrote [OF assms(1) encode_context_simps(6,7) p assms(3), unfolded upd] assms(2)])
      (auto simp: context_grows_def heads_recorded [OF assms(2)] intro!: context_ok_conversations assms(1,2))
qed

lemma context_step_stepped:
  assumes "context_codec_ok cd" "context_ok cd D" "context_call_valid c"
  shows "context_stepped cd D c (context_step cd (busy, c) (encode_context cd D))"
proof (cases c)
  case (Append_quota q)
  then have q: "quota_snapshot_valid q" using assms(3) by simp
  show ?thesis unfolding Append_quota context_step.simps
    by (rule context_stepped_wrote [OF append_quota_wrote [OF assms(1,2) q] assms(2)])
      (auto simp: context_grows_def intro!: context_ok_quotas assms(2))
qed (use assms in \<open>simp_all add: account_step project_step conversation_step\<close>)

definition context_run :: "context_codec \<Rightarrow> (bool \<times> context_call) list \<Rightarrow> context_db \<Rightarrow> context_db" where
  "context_run cd calls db = run_steps (context_step cd) calls db"

lemma context_run_data:
  assumes "context_codec_ok cd" "context_ok cd D" "list_all (context_call_valid \<circ> snd) calls"
  shows "\<exists>E. context_run cd calls (encode_context cd D) = encode_context cd E \<and> context_ok cd E \<and> context_grows D E"
  using assms(2,3)
proof (induction calls arbitrary: D)
  case (Cons bc calls)
  obtain busy c where bc: "bc = (busy, c)" by (cases bc)
  with Cons.prems have "context_stepped cd D c (context_step cd (busy, c) (encode_context cd D))"
    using context_step_stepped [OF assms(1)] by simp
  then obtain E where E: "snd (context_step cd (busy, c) (encode_context cd D)) = encode_context cd E" "context_ok cd E" "context_grows D E"
    by (auto simp: context_stepped_def)
  then show ?case using Cons.IH [OF E(2)] Cons.prems(2) by (auto simp: bc context_run_def intro: context_grows_trans)
qed (auto simp: context_run_def)

definition no_context :: context_data where
  "no_context = \<lparr>da_accounts = [], da_account_versions = [], da_quotas = [], da_projects = [], da_project_versions = [],
     da_conversations = [], da_conversation_versions = []\<rparr>"

lemma no_context_ok: "context_ok cd no_context" "encode_context cd no_context = empty_context_db"
  by (simp_all add: context_ok_def no_context_def table_ok_def history_ok_def mapped_once_def quotas_ok_def references_hold_def
      versions_of_def encode_context_def empty_context_db_def)

lemma context_reached:
  assumes "context_codec_ok cd" "list_all (context_call_valid \<circ> snd) calls"
  obtains D where "context_run cd calls empty_context_db = encode_context cd D" "context_ok cd D"
  using context_run_data [OF assms(1) no_context_ok(1) assms(2)] by (auto simp: no_context_ok)

section \<open>Opening a written store\<close>

lemma map_of_idents: "distinct (map ident ms) \<Longrightarrow> m \<in> set ms \<Longrightarrow> map_of (map (\<lambda>m. (ident m, m)) ms) (ident m) = Some m"
  by (rule map_of_is_SomeI) (simp_all add: comp_def)

lemma validate_rows_None:
  "(\<And>v. v \<in> set vs \<Longrightarrow> parse (to_row v) = Inr v \<and> check v = None) \<Longrightarrow> validate_rows parse check (map to_row vs) = None"
  by (induction vs) auto

context binding_store
begin

lemma verify_binding_tables:
  assumes "context_codec_ok cd" "bk_table k db = map (binding_to_row cd k) heads" "bk_history k db = map (binding_to_row cd k) vs"
    "bindings_ok valid k heads vs"
  obtains l where "verify_binding_history cd k db = Inr l" "verify_binding_heads cd k l db = Inr (map (\<lambda>m. (bk_id k m, m)) heads)"
proof -
  have v: "list_all valid vs" "history_ok (bk_id k) (bk_revision k) (binding_follows k) heads vs" using assms(4) by (simp_all add: table_ok_def)
  obtain l where l: "verify_history_rows bi_id bi_revision (bk_id k) (bk_revision k) (bk_model_name k) (binding_from_row cd k)
      (history_order bi_id bi_revision (map (binding_to_row cd k) vs)) [] = Inr l" "set (keys l) = bk_id k ` set heads"
    "\<And>m. m \<in> set heads \<Longrightarrow> map_of l (bk_id k m) = Some (bk_revision k m)" by (rule verify_history [OF assms(1) v]) blast
  show ?thesis using that [of l] l(1) verify_heads_from [OF assms(1) v l(3,2), of "[]" heads "[]"]
    by (simp add: verify_binding_history_def verify_binding_heads_def assms(2,3))
qed

lemma validate_binding_rows:
  assumes "context_codec_ok cd" "bindings_ok valid k heads vs" "\<And>v. v \<in> set vs \<Longrightarrow> check v = None"
  shows "validate_rows (binding_from_row cd k) check (history_order bi_id bi_revision (map (binding_to_row cd k) vs)) = None"
  unfolding history_order_rows
  using assms by (intro validate_rows_None) (simp add: from_to_row table_ok_def list_all_iff)

end

lemma verify_account_tables:
  assumes "context_codec_ok cd" "context_ok cd D"
  obtains l where "verify_account_history cd (encode_context cd D) = Inr l"
    "verify_account_heads cd l (encode_context cd D) = Inr (map (\<lambda>m. (pa_account_id m, m)) (da_accounts D))"
proof -
  let ?hs = "da_accounts D" and ?vs = "da_account_versions D"
  have v: "list_all account_profile_valid ?vs" "history_ok pa_account_id pa_revision account_follows ?hs ?vs"
    using assms(2) by (simp_all add: context_ok_def table_ok_def)
  obtain l where l: "verify_history_rows ac_account_id ac_revision pa_account_id pa_revision ''account'' (account_from_row cd)
      (history_order ac_account_id ac_revision (map (account_to_row cd) ?vs)) [] = Inr l" "set (keys l) = pa_account_id ` set ?hs"
    "\<And>m. m \<in> set ?hs \<Longrightarrow> map_of l (pa_account_id m) = Some (pa_revision m)" by (rule accounts.verify_history [OF assms(1) v]) blast
  show ?thesis using that [of l] l(1) accounts.verify_heads_from [OF assms(1) v l(3,2), of "[]" ?hs "[]"]
    by (simp add: verify_account_history_def verify_account_heads_def)
qed

lemma account_lookup:
  assumes "context_ok cd D" "account_of D i p s t"
  obtains a where "map_of (map (\<lambda>m. (pa_account_id m, m)) (da_accounts D)) i = Some a" "pa_provider a = p" "pa_surface a = s"
    "pa_created_at a \<le> t"
proof -
  obtain a where a: "a \<in> set (da_accounts D)" "pa_account_id a = i" "pa_provider a = p" "pa_surface a = s" "pa_created_at a \<le> t"
    using assms(2) by (auto simp: account_of_def)
  have "distinct (map pa_account_id (da_accounts D))" using assms(1) table_ok_distinct unfolding context_ok_def by blast
  then show ?thesis using that [of a] map_of_idents [of pa_account_id "da_accounts D" a] a by simp
qed

lemma project_lookup:
  assumes "context_ok cd D" "p \<in> set (da_projects D)"
  shows "map_of (map (\<lambda>m. (pb_project_id m, m)) (da_projects D)) (pb_project_id p) = Some p"
proof -
  have "distinct (map pb_project_id (da_projects D))" using assms(1) table_ok_distinct unfolding context_ok_def by fastforce
  then show ?thesis using assms(2) by (rule map_of_idents)
qed

lemma verify_references_encoded:
  assumes "context_codec_ok cd" "context_ok cd D"
  shows "verify_references cd (map (\<lambda>m. (pa_account_id m, m)) (da_accounts D)) (map (\<lambda>m. (pb_project_id m, m)) (da_projects D))
    (encode_context cd D) = None"
proof -
  let ?accounts = "map (\<lambda>m. (pa_account_id m, m)) (da_accounts D)" and ?projects = "map (\<lambda>m. (pb_project_id m, m)) (da_projects D)"
  note r = assms(2) [unfolded context_ok_def, THEN conjunct2, THEN conjunct2, THEN conjunct2, THEN conjunct2, unfolded references_hold_iff]
  have p: "validate_project_semantics ?accounts v = None" if "v \<in> set (da_project_versions D)" for v
    using r that by (auto simp: validate_project_semantics_def elim!: account_lookup [OF assms(2)] dest!: bspec)
  have c: "validate_conversation_semantics ?accounts ?projects v = None" if v: "v \<in> set (da_conversation_versions D)" for v
  proof -
    have "account_of D (cb_account_id v) (cb_provider v) (cb_surface v) (cb_created_at v)" "project_of D v" using r v by blast+
    then show ?thesis using project_lookup [OF assms(2)]
      by (elim account_lookup [OF assms(2)]) (auto simp: validate_conversation_semantics_def project_of_def optional_def split: option.splits)
  qed
  have q: "validate_quota_semantics ?accounts v = None" if v: "v \<in> set (da_quotas D)" for v
  proof -
    obtain p s where "account_of D (qs_account_id v) p s (qs_observed_at v)" using r v by blast
    then show ?thesis by (rule account_lookup [OF assms(2)]) (simp add: validate_quota_semantics_def)
  qed
  have "quota_from_row cd (quota_to_row cd v) = Inr v" if "v \<in> set (da_quotas D)" for v
    using that assms by (simp add: quota_from_to_row context_ok_def quotas_ok_def list_all_iff)
  then have "validate_rows (quota_from_row cd) (validate_quota_semantics ?accounts) (map (quota_to_row cd) (da_quotas D)) = None"
    using q by (intro validate_rows_None) simp
  moreover have "validate_rows (project_from_row cd) (validate_project_semantics ?accounts)
      (history_order bi_id bi_revision (cx_project_versions (encode_context cd D))) = None"
    using projects.validate_binding_rows [where heads = "da_projects D" and vs = "da_project_versions D", OF assms(1) _ p] assms(2)
    by (simp add: context_ok_def encode_context_def project_from_row_def [abs_def])
  moreover have "validate_rows (conversation_binding_from_row cd) (validate_conversation_semantics ?accounts ?projects)
      (history_order bi_id bi_revision (cx_conversation_versions (encode_context cd D))) = None"
    using bindings.validate_binding_rows [where heads = "da_conversations D" and vs = "da_conversation_versions D", OF assms(1) _ c] assms(2)
    by (simp add: context_ok_def encode_context_def conversation_binding_from_row_def [abs_def])
  ultimately show ?thesis by (simp add: verify_references_def)
qed

lemma integrity_encoded:
  assumes "context_codec_ok cd" "context_ok cd D"
  shows "verify_semantic_integrity cd (encode_context cd D) = None"
proof -
  have ok: "bindings_ok project_binding_valid (project_kind cd) (da_projects D) (da_project_versions D)"
    "bindings_ok conversation_binding_valid (conversation_kind cd) (da_conversations D) (da_conversation_versions D)"
    using assms(2) by (simp_all add: context_ok_def)
  obtain la where "verify_account_history cd (encode_context cd D) = Inr la"
    "verify_account_heads cd la (encode_context cd D) = Inr (map (\<lambda>m. (pa_account_id m, m)) (da_accounts D))"
    by (rule verify_account_tables [OF assms])
  moreover obtain lp where "verify_binding_history cd (project_kind cd) (encode_context cd D) = Inr lp"
    "verify_binding_heads cd (project_kind cd) lp (encode_context cd D) = Inr (map (\<lambda>m. (bk_id (project_kind cd) m, m)) (da_projects D))"
    by (rule projects.verify_binding_tables [OF assms(1) encode_context_simps(4,5) ok(1)])
  moreover obtain lc where "verify_binding_history cd (conversation_kind cd) (encode_context cd D) = Inr lc"
    "verify_binding_heads cd (conversation_kind cd) lc (encode_context cd D) =
       Inr (map (\<lambda>m. (bk_id (conversation_kind cd) m, m)) (da_conversations D))"
    by (rule bindings.verify_binding_tables [OF assms(1) encode_context_simps(6,7) ok(2)])
  ultimately show ?thesis using verify_references_encoded [OF assms] by (simp add: verify_semantic_integrity_def)
qed

lemma foreign_keys_encoded:
  assumes "context_ok cd D"
  shows "context_foreign_keys (encode_context cd D)"
proof -
  have r: "references_hold D" using assms by (simp add: context_ok_def)
  have known: "i \<in> pa_account_id ` set (da_accounts D)" if "account_of D i p s t" for i p s t using that by (auto simp: account_of_def)
  note r = r [unfolded references_hold_iff]
  have "pb_account_id p \<in> pa_account_id ` set (da_accounts D)" if "p \<in> set (da_projects D) \<or> p \<in> set (da_project_versions D)" for p
    using that heads_recorded(2) [OF assms] r known by blast
  moreover have "cb_account_id c \<in> pa_account_id ` set (da_accounts D)"
    if "c \<in> set (da_conversations D) \<or> c \<in> set (da_conversation_versions D)" for c
    using that heads_recorded(3) [OF assms] r known by blast
  moreover have "qs_account_id q \<in> pa_account_id ` set (da_accounts D)" if "q \<in> set (da_quotas D)" for q
    using that r known by blast
  ultimately have "pb_account_id ` (set (da_projects D) \<union> set (da_project_versions D)) \<union>
      cb_account_id ` (set (da_conversations D) \<union> set (da_conversation_versions D)) \<union> qs_account_id ` set (da_quotas D) \<subseteq>
      pa_account_id ` set (da_accounts D)" by blast
  moreover have "bi_account_id ` binding_to_row cd (project_kind cd) ` X = pb_account_id ` X"
    "bi_account_id ` binding_to_row cd (conversation_kind cd) ` Z = cb_account_id ` Z" for X Z
    by (simp_all add: image_image projects.binding_columns bindings.binding_columns)
  moreover have "qr_account_id ` quota_to_row cd ` Q = qs_account_id ` Q" "ac_account_id ` account_to_row cd ` A = pa_account_id ` A" for Q A
    by (simp_all add: image_image)
  ultimately show ?thesis by (simp add: context_foreign_keys_def encode_context_def image_Un)
qed

lemma created_schema_verifies:
  "verify_context_schema (create_schema f\<lparr>xf_db := d\<rparr>) = None" "verify_indexes (xf_indexes (create_schema f\<lparr>xf_db := d\<rparr>)) = None"
proof -
  have "verify_columns expected_schema expected_schema = None" "verify_indexes created_indexes = None" by code_simp+
  then show "verify_context_schema (create_schema f\<lparr>xf_db := d\<rparr>) = None" "verify_indexes (xf_indexes (create_schema f\<lparr>xf_db := d\<rparr>)) = None"
    by (simp_all add: verify_context_schema_def create_schema_def read_schema_version_def)
qed

section \<open>The order of observations\<close>

lemma select_quotas_encoded:
  "select_quotas i d (encode_context cd D) = map (quota_to_row cd)
     (sort_key (\<lambda>q. iso_utc (qs_observed_at q)) (sort_key qs_snapshot_id
       (filter (\<lambda>q. qs_account_id q = i \<and> optional (\<lambda>d. qs_dimension q = d) d) (da_quotas D))))"
proof -
  have "optional (\<lambda>d. dimension_value x = dimension_value d) v \<longleftrightarrow> optional (\<lambda>d. x = d) v" for x v
    by (auto simp: optional_def dest: dimension_value_inj split: option.splits)
  then show ?thesis by (simp add: select_quotas_def filter_map comp_def sort_key_map)
qed

lemma read_quotas_encoded:
  "context_codec_ok cd \<Longrightarrow> list_all quota_snapshot_valid qs \<Longrightarrow> read_quotas cd (map (quota_to_row cd) qs) = Inr qs"
  by (induction qs) (simp_all add: quota_from_to_row)

text \<open>Sorted by the text of the column is sorted by time.\<close>

lemma sorted_by_time:
  assumes "list_all quota_snapshot_valid qs" "distinct (map quota_key qs)" "\<forall>q \<in> set qs. qs_account_id q = i \<and> qs_dimension q = d"
  shows "sorted_wrt (\<lambda>p q. qs_observed_at p < qs_observed_at q) (sort_key (\<lambda>q. iso_utc (qs_observed_at q)) qs)"
proof -
  let ?xs = "sort_key (\<lambda>q. iso_utc (qs_observed_at q)) qs"
  have dist: "distinct qs" "inj_on qs_observed_at (set qs)"
    using assms(2,3) by (auto simp: distinct_map inj_on_def quota_key_def)
  have "sorted_wrt (\<lambda>p q. iso_utc (qs_observed_at p) \<le> iso_utc (qs_observed_at q)) ?xs"
    using sorted_sort_key [of "\<lambda>q. iso_utc (qs_observed_at q)" qs] by (simp add: sorted_map)
  moreover have "distinct ?xs" using dist(1) by simp
  ultimately have "sorted_wrt (\<lambda>p q. iso_utc (qs_observed_at p) \<le> iso_utc (qs_observed_at q) \<and> p \<noteq> q) ?xs"
    by (auto simp: sorted_wrt_iff_nth_less nth_eq_iff_index_eq simp del: distinct_sort)
  then show ?thesis
  proof (rule sorted_wrt_mono_rel [rotated])
    fix p q
    assume pq: "p \<in> set ?xs" "q \<in> set ?xs" "iso_utc (qs_observed_at p) \<le> iso_utc (qs_observed_at q) \<and> p \<noteq> q"
    then have "datetime_range (qs_observed_at p)" "datetime_range (qs_observed_at q)"
      using assms(1) by (auto simp: list_all_iff quota_snapshot_valid_def)
    then have "qs_observed_at p \<le> qs_observed_at q" using iso_utc_mono(3) pq(3) by blast
    then show "qs_observed_at p < qs_observed_at q" using pq dist(2) by (auto simp: inj_on_def order_less_le)
  qed
qed

lemma quota_history_encoded:
  assumes "context_codec_ok cd" "context_ok cd D"
  obtains qs where "list_quota_history cd i (Some d) (encode_context cd D) = Inr qs"
    "set qs = {q \<in> set (da_quotas D). qs_account_id q = i \<and> qs_dimension q = d}"
    "sorted_wrt (\<lambda>p q. qs_observed_at p < qs_observed_at q) qs"
    "load_latest_quota cd i d (encode_context cd D) = (if qs = [] then Inl (Context_key_error i) else Inr (last qs))"
proof -
  let ?f = "filter (\<lambda>q. qs_account_id q = i \<and> optional (\<lambda>d'. qs_dimension q = d') (Some d)) (da_quotas D)"
  let ?qs = "sort_key (\<lambda>q. iso_utc (qs_observed_at q)) (sort_key qs_snapshot_id ?f)"
  have ok: "quotas_ok (da_quotas D)" using assms(2) by (simp add: context_ok_def)
  have set: "set ?qs = {q \<in> set (da_quotas D). qs_account_id q = i \<and> qs_dimension q = d}" by (auto simp: optional_def)
  have v: "list_all quota_snapshot_valid ?qs" using ok unfolding list_all_iff set by (simp add: quotas_ok_def list_all_iff)
  have "distinct (map quota_key ?f)" using ok by (simp add: quotas_ok_def distinct_map_filter)
  then have "distinct (map quota_key (sort_key qs_snapshot_id ?f))" by (simp add: distinct_map)
  moreover have "list_all quota_snapshot_valid (sort_key qs_snapshot_id ?f)" using ok by (auto simp: list_all_iff quotas_ok_def)
  ultimately have s: "sorted_wrt (\<lambda>p q. qs_observed_at p < qs_observed_at q) ?qs"
    by (intro sorted_by_time [of _ i d]) (auto simp: optional_def)
  have l: "list_quota_history cd i (Some d) (encode_context cd D) = Inr ?qs"
    using read_quotas_encoded [OF assms(1) v] by (simp add: list_quota_history_def select_quotas_encoded)
  have "load_latest_quota cd i d (encode_context cd D) = (if ?qs = [] then Inl (Context_key_error i) else Inr (last ?qs))"
  proof (cases "?qs" rule: rev_cases)
    case Nil
    then show ?thesis by (simp add: load_latest_quota_def select_quotas_encoded)
  next
    case (snoc xs x)
    have "quota_from_row cd (quota_to_row cd x) = Inr x" using v snoc by (simp add: quota_from_to_row assms(1))
    then show ?thesis by (simp only: load_latest_quota_def select_quotas_encoded snoc) simp
  qed
  then show ?thesis using that l set s by blast
qed

section \<open>Properties\<close>

text \<open>C23. The invariant of the provider context store: whatever sequence of valid calls is made on an empty store, with any of
  them meeting a locked database, the tables hold the rows of valid values; every account, project and
  conversation has its revisions 1, 2, ... without a gap and its head is the last of them; a later revision has the
  creation time and the owner of the earlier ones, is not older, and keeps a provider identifier once
  there is one; a provider identifier belongs to one head; an account has one observation of a quota at a time; and every binding and
  observation belongs to an account, and a conversation to a project, of the same provider that was there before.\<close>

theorem context_store_invariant:
  assumes "context_codec_ok cd" "list_all (context_call_valid \<circ> snd) calls"
  shows "\<exists>D. context_run cd calls empty_context_db = encode_context cd D \<and> context_ok cd D"
  using context_reached [OF assms] by blast

text \<open>C24. A store that was written through its operations opens again: when a new store was created and then any valid calls were
  made on it, opening it passes every check of the schema, of the indexes, of the version histories and of the
  references, and finds the same content.\<close>

theorem context_store_reopens:
  assumes "context_codec_ok cd" "xf_columns f = []" "open_context_store cd ex link reg busy f = Inr g"
    "list_all (context_call_valid \<circ> snd) calls"
  defines "h \<equiv> g\<lparr>xf_db := context_run cd calls (xf_db g)\<rparr>"
  shows "open_context_store cd True False True False h = Inr h"
proof -
  have g: "g = create_schema f" "xf_quick_check f = Some True"
    using assms(2,3) by (auto simp: open_context_store_def initialize_context_def verify_context_file_def
        split: if_splits option.splits bool.splits)
  obtain D where D: "context_run cd calls empty_context_db = encode_context cd D" "context_ok cd D"
    by (rule context_reached [OF assms(1,4)])
  then have h: "xf_db h = encode_context cd D" by (simp add: h_def g create_schema_def)
  have "verify_context_schema h = None" "verify_indexes (xf_indexes h) = None"
    unfolding h_def g(1) by (rule created_schema_verifies)+
  then have "verify_context_file cd h = Inr h"
    using integrity_encoded [OF assms(1) D(2)] foreign_keys_encoded [OF D(2)] by (simp add: verify_context_file_def h)
  moreover have "map_of expected_schema ''metadata'' = Some [''key'', ''value'']" "expected_schema \<noteq> []" by code_simp+
  ultimately show ?thesis
    by (simp add: open_context_store_def initialize_context_def h_def g create_schema_def read_schema_version_def)
qed

text \<open>C25. Quota observations come back in the order of time: after an observation was accepted, whatever valid calls follow, the
  history of its account and dimension contains it and is strictly increasing in time, although the store sorts the
  text of the timestamps, and the latest quota is the last observation of that history.\<close>

theorem quota_history_in_order_of_time:
  assumes "context_codec_ok cd" "list_all (context_call_valid \<circ> snd) (before @ (busy, Append_quota q) # after)"
    and "is_ok (fst (context_step cd (busy, Append_quota q) (context_run cd before empty_context_db)))"
  shows "\<exists>qs. list_quota_history cd (qs_account_id q) (Some (qs_dimension q))
        (context_run cd (before @ (busy, Append_quota q) # after) empty_context_db) = Inr qs \<and>
      q \<in> set qs \<and> sorted_wrt (\<lambda>x y. qs_observed_at x < qs_observed_at y) qs \<and>
      load_latest_quota cd (qs_account_id q) (qs_dimension q)
        (context_run cd (before @ (busy, Append_quota q) # after) empty_context_db) = Inr (last qs)"
proof -
  have v: "list_all (context_call_valid \<circ> snd) before" "context_call_valid (Append_quota q)" "list_all (context_call_valid \<circ> snd) after"
    using assms(2) by simp_all
  obtain D where D: "context_run cd before empty_context_db = encode_context cd D" "context_ok cd D"
    by (rule context_reached [OF assms(1) v(1)])
  obtain E where E: "snd (context_step cd (busy, Append_quota q) (encode_context cd D)) = encode_context cd E" "context_ok cd E"
    "recorded (Append_quota q) E"
    using context_step_stepped [OF assms(1) D(2) v(2), of busy] assms(3) by (auto simp: context_stepped_def D(1))
  obtain F where F: "context_run cd after (encode_context cd E) = encode_context cd F" "context_ok cd F" "context_grows E F"
    using context_run_data [OF assms(1) E(2) v(3)] by blast
  have run: "context_run cd (before @ (busy, Append_quota q) # after) empty_context_db = encode_context cd F"
    using D(1) E(1) F(1) by (simp add: context_run_def run_steps_append)
  have q: "q \<in> set (da_quotas F)" using recorded_grows [OF E(3) F(3)] by simp
  obtain qs where "list_quota_history cd (qs_account_id q) (Some (qs_dimension q)) (encode_context cd F) = Inr qs"
    "set qs = {p \<in> set (da_quotas F). qs_account_id p = qs_account_id q \<and> qs_dimension p = qs_dimension q}"
    "sorted_wrt (\<lambda>x y. qs_observed_at x < qs_observed_at y) qs"
    "load_latest_quota cd (qs_account_id q) (qs_dimension q) (encode_context cd F) =
       (if qs = [] then Inl (Context_key_error (qs_account_id q)) else Inr (last qs))"
    by (rule quota_history_encoded [OF assms(1) F(2), of "qs_account_id q" "qs_dimension q"])
  then show ?thesis using q unfolding run by (intro exI [of _ qs]) auto
qed

section \<open>A codec\<close>

text \<open>A concrete printer and reader for the witnesses: each model as a JSON array of its fields.\<close>

definition claim_array :: "capability_claim \<Rightarrow> json" where
  "claim_array m = JArr [jenum [Supported, Unsupported, Unknown] (cl_state m),
     jenum [Documented, Observed, Simulated, No_evidence] (cl_evidence m)]"

definition claim_of_array :: "json \<Rightarrow> capability_claim" where
  "claim_of_array j = \<lparr>cl_state = enum_of [Supported, Unsupported, Unknown] (field j 0),
     cl_evidence = enum_of [Documented, Observed, Simulated, No_evidence] (field j 1)\<rparr>"

definition caps_array :: "provider_context_capabilities \<Rightarrow> json" where
  "caps_array m = JArr [claim_array (can_create_projects m), claim_array (can_enumerate_projects m), claim_array (exposes_project_id m),
     claim_array (can_create_conversations m), claim_array (can_enumerate_conversations m),
     claim_array (exposes_conversation_id m)]"

definition caps_of_array :: "json \<Rightarrow> provider_context_capabilities" where
  "caps_of_array j = \<lparr>can_create_projects = claim_of_array (field j 0), can_enumerate_projects = claim_of_array (field j 1),
     exposes_project_id = claim_of_array (field j 2), can_create_conversations = claim_of_array (field j 3),
     can_enumerate_conversations = claim_of_array (field j 4), exposes_conversation_id = claim_of_array (field j 5)\<rparr>"

definition account_array :: "provider_account_profile \<Rightarrow> json" where
  "account_array m = JArr [JStr (pa_account_id m), JStr (pa_provider m), JStr (pa_surface m), jopt (pa_provider_account_id m),
     jenum [Plan_free, Plan_paid, Plan_managed, Plan_unknown] (pa_plan_kind m), jopt (pa_plan_code m),
     jenum [Account_available, Account_unavailable, Account_degraded, Account_unknown] (pa_availability m),
     jenum [Documented, Observed, Simulated, No_evidence] (pa_profile_evidence m), claim_array (pa_work_capability m),
     caps_array (pa_context_capabilities m), JInt (pa_revision m), JInt (pa_created_at m), JInt (pa_updated_at m)]"

definition account_of_array :: "json \<Rightarrow> provider_account_profile" where
  "account_of_array j = \<lparr>pa_account_id = str_of (field j 0), pa_provider = str_of (field j 1), pa_surface = str_of (field j 2),
     pa_provider_account_id = opt_of (field j 3),
     pa_plan_kind = enum_of [Plan_free, Plan_paid, Plan_managed, Plan_unknown] (field j 4),
     pa_plan_code = opt_of (field j 5),
     pa_availability = enum_of [Account_available, Account_unavailable, Account_degraded, Account_unknown] (field j 6),
     pa_profile_evidence = enum_of [Documented, Observed, Simulated, No_evidence] (field j 7),
     pa_work_capability = claim_of_array (field j 8), pa_context_capabilities = caps_of_array (field j 9),
     pa_revision = int_of (field j 10), pa_created_at = int_of (field j 11), pa_updated_at = int_of (field j 12)\<rparr>"

definition quota_array :: "provider_quota_snapshot \<Rightarrow> json" where
  "quota_array m = JArr [JStr (qs_snapshot_id m), JStr (qs_account_id m),
     jenum [Chat_messages, Work_agentic, File_upload_rate, File_storage, Project_file_slots] (qs_dimension m),
     jenum [Quota_available, Near_limit, Exhausted, Reset_pending, Quota_unavailable, Quota_unknown] (qs_state m),
     jenum [Documented, Observed, Simulated, No_evidence] (qs_evidence m), JInt (qs_observed_at m),
     jopt_int (qs_reset_at m), jopt_int (qs_remaining_value m), jopt_int (qs_limit_value m),
     jenum [Unit_requests, Unit_files, Unit_bytes, Unit_credits, Unit_unknown] (qs_unit m)]"

definition quota_of_array :: "json \<Rightarrow> provider_quota_snapshot" where
  "quota_of_array j = \<lparr>qs_snapshot_id = str_of (field j 0), qs_account_id = str_of (field j 1),
     qs_dimension = enum_of [Chat_messages, Work_agentic, File_upload_rate, File_storage, Project_file_slots] (field j 2),
     qs_state = enum_of [Quota_available, Near_limit, Exhausted, Reset_pending, Quota_unavailable, Quota_unknown] (field j 3),
     qs_evidence = enum_of [Documented, Observed, Simulated, No_evidence] (field j 4), qs_observed_at = int_of (field j 5),
     qs_reset_at = opt_int_of (field j 6), qs_remaining_value = opt_int_of (field j 7),
     qs_limit_value = opt_int_of (field j 8),
     qs_unit = enum_of [Unit_requests, Unit_files, Unit_bytes, Unit_credits, Unit_unknown] (field j 9)\<rparr>"

definition project_array :: "provider_project_binding \<Rightarrow> json" where
  "project_array m = JArr [JStr (pb_project_id m), JStr (pb_account_id m), JStr (pb_provider m), JStr (pb_surface m),
     jopt (pb_provider_project_id m), JStr (pb_display_name m),
     jenum [Project_only, Default_scope, Unknown_scope] (pb_memory_scope m),
     jenum [Binding_active, Binding_archived, Binding_deleted, Binding_inaccessible, Binding_unknown] (pb_state m),
     jenum [Operator_confirmed, Provider_returned, Official_connector, Compliance_api, Shared_reference, Simulated_source] (pb_discovery_source m),
     JInt (pb_revision m), JInt (pb_created_at m), JInt (pb_updated_at m)]"

definition project_of_array :: "json \<Rightarrow> provider_project_binding" where
  "project_of_array j = \<lparr>pb_project_id = str_of (field j 0), pb_account_id = str_of (field j 1), pb_provider = str_of (field j 2),
     pb_surface = str_of (field j 3), pb_provider_project_id = opt_of (field j 4), pb_display_name = str_of (field j 5),
     pb_memory_scope = enum_of [Project_only, Default_scope, Unknown_scope] (field j 6),
     pb_state = enum_of [Binding_active, Binding_archived, Binding_deleted, Binding_inaccessible, Binding_unknown] (field j 7),
     pb_discovery_source = enum_of [Operator_confirmed, Provider_returned, Official_connector, Compliance_api, Shared_reference, Simulated_source] (field j 8),
     pb_revision = int_of (field j 9), pb_created_at = int_of (field j 10), pb_updated_at = int_of (field j 11)\<rparr>"

definition binding_array :: "provider_conversation_binding \<Rightarrow> json" where
  "binding_array m = JArr [JStr (cb_conversation_id m), JStr (cb_account_id m), jopt (cb_project_id m), JStr (cb_provider m), JStr (cb_surface m),
     jopt (cb_provider_conversation_id m), JStr (cb_display_name m), jenum [Chat, Work] (cb_experience m),
     jenum [Persistent, Temporary, Unknown_persistence] (cb_persistence m),
     jenum [Cloud, Device_local, Mixed, Unknown_sync] (cb_sync_scope m),
     jenum [Binding_active, Binding_archived, Binding_deleted, Binding_inaccessible, Binding_unknown] (cb_state m),
     jenum [Operator_confirmed, Provider_returned, Official_connector, Compliance_api, Shared_reference, Simulated_source] (cb_discovery_source m),
     JInt (cb_revision m), JInt (cb_created_at m), JInt (cb_updated_at m)]"

definition binding_of_array :: "json \<Rightarrow> provider_conversation_binding" where
  "binding_of_array j = \<lparr>cb_conversation_id = str_of (field j 0), cb_account_id = str_of (field j 1), cb_project_id = opt_of (field j 2),
     cb_provider = str_of (field j 3), cb_surface = str_of (field j 4), cb_provider_conversation_id = opt_of (field j 5),
     cb_display_name = str_of (field j 6), cb_experience = enum_of [Chat, Work] (field j 7),
     cb_persistence = enum_of [Persistent, Temporary, Unknown_persistence] (field j 8),
     cb_sync_scope = enum_of [Cloud, Device_local, Mixed, Unknown_sync] (field j 9),
     cb_state = enum_of [Binding_active, Binding_archived, Binding_deleted, Binding_inaccessible, Binding_unknown] (field j 10),
     cb_discovery_source = enum_of [Operator_confirmed, Provider_returned, Official_connector, Compliance_api, Shared_reference, Simulated_source] (field j 11),
     cb_revision = int_of (field j 12), cb_created_at = int_of (field j 13), cb_updated_at = int_of (field j 14)\<rparr>"

lemma plan_kind_position [simp]: "enum_of [Plan_free, Plan_paid, Plan_managed, Plan_unknown] (jenum [Plan_free, Plan_paid, Plan_managed, Plan_unknown] (v :: plan_kind)) = v"
  by (cases v; simp add: enum_of_def jenum_def)

lemma availability_state_position [simp]: "enum_of [Account_available, Account_unavailable, Account_degraded, Account_unknown] (jenum [Account_available, Account_unavailable, Account_degraded, Account_unknown] (v :: availability_state)) = v"
  by (cases v; simp add: enum_of_def jenum_def)

lemma experience_kind_position [simp]: "enum_of [Chat, Work] (jenum [Chat, Work] (v :: experience_kind)) = v"
  by (cases v; simp add: enum_of_def jenum_def)

lemma quota_dimension_position [simp]: "enum_of [Chat_messages, Work_agentic, File_upload_rate, File_storage, Project_file_slots] (jenum [Chat_messages, Work_agentic, File_upload_rate, File_storage, Project_file_slots] (v :: quota_dimension)) = v"
  by (cases v; simp add: enum_of_def jenum_def)

lemma quota_state_position [simp]: "enum_of [Quota_available, Near_limit, Exhausted, Reset_pending, Quota_unavailable, Quota_unknown] (jenum [Quota_available, Near_limit, Exhausted, Reset_pending, Quota_unavailable, Quota_unknown] (v :: quota_state)) = v"
  by (cases v; simp add: enum_of_def jenum_def)

lemma quota_unit_position [simp]: "enum_of [Unit_requests, Unit_files, Unit_bytes, Unit_credits, Unit_unknown] (jenum [Unit_requests, Unit_files, Unit_bytes, Unit_credits, Unit_unknown] (v :: quota_unit)) = v"
  by (cases v; simp add: enum_of_def jenum_def)

lemma project_memory_scope_position [simp]: "enum_of [Project_only, Default_scope, Unknown_scope] (jenum [Project_only, Default_scope, Unknown_scope] (v :: project_memory_scope)) = v"
  by (cases v; simp add: enum_of_def jenum_def)

lemma binding_state_position [simp]: "enum_of [Binding_active, Binding_archived, Binding_deleted, Binding_inaccessible, Binding_unknown] (jenum [Binding_active, Binding_archived, Binding_deleted, Binding_inaccessible, Binding_unknown] (v :: binding_state)) = v"
  by (cases v; simp add: enum_of_def jenum_def)

lemma discovery_source_position [simp]: "enum_of [Operator_confirmed, Provider_returned, Official_connector, Compliance_api, Shared_reference, Simulated_source] (jenum [Operator_confirmed, Provider_returned, Official_connector, Compliance_api, Shared_reference, Simulated_source] (v :: discovery_source)) = v"
  by (cases v; simp add: enum_of_def jenum_def)

lemma conversation_persistence_position [simp]: "enum_of [Persistent, Temporary, Unknown_persistence] (jenum [Persistent, Temporary, Unknown_persistence] (v :: conversation_persistence)) = v"
  by (cases v; simp add: enum_of_def jenum_def)

lemma sync_scope_position [simp]: "enum_of [Cloud, Device_local, Mixed, Unknown_sync] (jenum [Cloud, Device_local, Mixed, Unknown_sync] (v :: sync_scope)) = v"
  by (cases v; simp add: enum_of_def jenum_def)

lemma capability_evidence_position [simp]: "enum_of [Documented, Observed, Simulated, No_evidence] (jenum [Documented, Observed, Simulated, No_evidence] (v :: capability_evidence)) = v"
  by (cases v; simp add: enum_of_def jenum_def)

lemma capability_support_position [simp]: "enum_of [Supported, Unsupported, Unknown] (jenum [Supported, Unsupported, Unknown] (v :: capability_support)) = v"
  by (cases v; simp add: enum_of_def jenum_def)

lemma claim_of_array [simp]: "claim_of_array (claim_array m) = m" "plain (claim_array m)"
  by (simp_all add: claim_array_def claim_of_array_def field_def)

lemma caps_of_array [simp]: "caps_of_array (caps_array m) = m" "plain (caps_array m)"
  by (simp_all add: caps_array_def caps_of_array_def field_def)

definition ex_context_codec :: context_codec where
  "ex_context_codec = \<lparr>cc_sha256 = ex_sha,
     dump_account = (\<lambda>m. dumps False (account_array m)), parse_account = read_as account_profile_valid account_of_array,
     dump_quota = (\<lambda>m. dumps False (quota_array m)), parse_quota = read_as quota_snapshot_valid quota_of_array,
     dump_project = (\<lambda>m. dumps False (project_array m)), parse_project = read_as project_binding_valid project_of_array,
     dump_binding = (\<lambda>m. dumps False (binding_array m)), parse_binding = read_as conversation_binding_valid binding_of_array\<rparr>"

lemma ex_context_codec_ok: "context_codec_ok ex_context_codec"
proof -
  have "plain (account_array m) \<and> account_of_array (account_array m) = m" for m
    by (simp add: account_array_def account_of_array_def field_def)
  moreover have "plain (quota_array m) \<and> quota_of_array (quota_array m) = m" for m
    by (simp add: quota_array_def quota_of_array_def field_def)
  moreover have "plain (project_array m) \<and> project_of_array (project_array m) = m" for m
    by (simp add: project_array_def project_of_array_def field_def)
  moreover have "plain (binding_array m) \<and> binding_of_array (binding_array m) = m" for m
    by (simp add: binding_array_def binding_of_array_def field_def)
  ultimately show ?thesis by (simp add: context_codec_ok_def ex_context_codec_def payload_ok_json)
qed

definition ex_project :: provider_project_binding where
  "ex_project = \<lparr>pb_project_id = ''proj_1'', pb_account_id = ''acct_1'', pb_provider = ''chatgpt'', pb_surface = ''web'',
     pb_provider_project_id = None, pb_display_name = ''notes'', pb_memory_scope = Project_only, pb_state = Binding_active,
     pb_discovery_source = Operator_confirmed, pb_revision = 1, pb_created_at = 5, pb_updated_at = 5\<rparr>"

definition ex_context_calls :: "(bool \<times> context_call) list" where
  "ex_context_calls = [(False, Register_account ex_account), (True, Register_project ex_project), (False, Register_project ex_project),
     (False, Replace_project (ex_project\<lparr>pb_revision := 2, pb_provider_project_id := Some ''g-p-1''\<rparr>) 1)]"

lemma ex_context_calls_valid: "list_all (context_call_valid \<circ> snd) ex_context_calls"
  by code_simp

theorem context_store_invariant_witness:
  "\<exists>D. context_run ex_context_codec ex_context_calls empty_context_db = encode_context ex_context_codec D \<and> references_hold D"
  using context_store_invariant [OF ex_context_codec_ok ex_context_calls_valid] by (auto simp: context_ok_def)

definition ex_new_file :: context_file where
  "ex_new_file = \<lparr>xf_quick_check = Some True, xf_columns = [], xf_metadata = [], xf_indexes = [], xf_db = empty_context_db\<rparr>"

lemma ex_opened: "open_context_store ex_context_codec False False False False ex_new_file = Inr (create_schema ex_new_file)"
  by code_simp

theorem context_store_reopens_witness:
  "\<exists>h. open_context_store ex_context_codec True False True False h = Inr h \<and>
     xf_db h = context_run ex_context_codec ex_context_calls empty_context_db"
proof -
  have "xf_columns ex_new_file = []" "xf_db (create_schema ex_new_file) = empty_context_db"
    by (simp_all add: ex_new_file_def create_schema_def)
  then show ?thesis using context_store_reopens [OF ex_context_codec_ok _ ex_opened ex_context_calls_valid]
    by (intro exI [of _ "create_schema ex_new_file\<lparr>xf_db := context_run ex_context_codec ex_context_calls (xf_db (create_schema ex_new_file))\<rparr>"])
      simp
qed

theorem quota_history_in_order_of_time_witness:
  "\<exists>qs. list_quota_history ex_context_codec ''acct_1'' (Some Work_agentic) (context_run ex_context_codec
      ([(False, Register_account ex_account), (False, Append_quota (ex_quota ''snap_2'' 1500000))] @
       (False, Append_quota (ex_quota ''snap_1'' 1000000)) # []) empty_context_db) = Inr qs \<and>
    ex_quota ''snap_1'' 1000000 \<in> set qs \<and> sorted_wrt (\<lambda>x y. qs_observed_at x < qs_observed_at y) qs"
proof -
  let ?b = "[(False, Register_account ex_account), (False, Append_quota (ex_quota ''snap_2'' 1500000))]" and ?q = "ex_quota ''snap_1'' 1000000"
  have v: "list_all (context_call_valid \<circ> snd) (?b @ (False, Append_quota ?q) # [])" by code_simp
  have ok: "is_ok (fst (context_step ex_context_codec (False, Append_quota ?q) (context_run ex_context_codec ?b empty_context_db)))"
    by code_simp
  have "qs_account_id ?q = ''acct_1''" "qs_dimension ?q = Work_agentic" by (simp_all add: ex_quota_def)
  then show ?thesis using quota_history_in_order_of_time [OF ex_context_codec_ok v ok] by auto
qed

end
