(* ===== verification/Brains.thy ===== *)
theory Brains
  imports Models
begin

text \<open>
  brains/models.py and brains/router.py: the profiles of remote reasoning providers, and the router that
  selects one of them for a request, for an autonomous call, for a claim by an inbound client or for a
  handoff by a person.
\<close>

section \<open>Models\<close>

datatype brain_transport = Mcp_client | Official_api | Interactive_handoff

datatype availability = Available | Degraded | Temporary_capacity | Rate_limited | Quota_exhausted | User_action_required
  | Offline | Unknown_availability

datatype brain_capability = General_reasoning | Coding | Architecture | Debugging | Security_review | Long_context
  | Structured_output | Tool_use

datatype data_class = Public | Internal | Confidential

record brain_profile =
  bp_provider_id :: string
  bp_display_name :: string
  bp_transport :: brain_transport
  bp_capabilities :: "brain_capability list"
  bp_priority :: int
  bp_enabled :: bool
  bp_availability :: availability
  bp_max_parallel_tasks :: int
  bp_active_tasks :: int
  bp_allowed_data_classes :: "data_class list"
  bp_exact_quota_visibility :: bool

definition validate_parallelism :: "brain_profile \<Rightarrow> bool" where
  "validate_parallelism p \<longleftrightarrow> \<not> bp_active_tasks p > bp_max_parallel_tasks p"

definition brain_profile_valid :: "brain_profile \<Rightarrow> bool" where
  "brain_profile_valid p \<longleftrightarrow> capability_pattern (bp_provider_id p) \<and> len_between 1 128 (bp_display_name p) \<and>
     - 10000 \<le> bp_priority p \<and> bp_priority p \<le> 10000 \<and> 1 \<le> bp_max_parallel_tasks p \<and> bp_max_parallel_tasks p \<le> 128 \<and>
     0 \<le> bp_active_tasks p \<and> validate_parallelism p"

definition has_capacity :: "brain_profile \<Rightarrow> bool" where
  "has_capacity p \<longleftrightarrow> bp_active_tasks p < bp_max_parallel_tasks p"

definition autonomously_invokable :: "brain_profile \<Rightarrow> bool" where
  "autonomously_invokable p \<longleftrightarrow> bp_transport p = Official_api"

record brain_request =
  br_task_id :: string
  br_capability :: brain_capability
  br_data_class :: data_class
  br_preferred_provider_id :: "string option"
  br_allow_fallback :: bool

datatype route_mode = Autonomous_outbound | Inbound_claim | Interactive_route

record route_decision =
  rd_provider_id :: string
  rd_transport :: brain_transport
  rd_mode :: route_mode
  rd_reason :: string

record task_claim =
  cl_task_id :: string
  cl_step_id :: string
  cl_provider_id :: string
  cl_checkpoint_id :: string
  cl_lease_id :: string
  cl_leased_at :: datetime
  cl_expires_at :: datetime

definition task_claim_valid :: "task_claim \<Rightarrow> bool" where
  "task_claim_valid c \<longleftrightarrow> len_between 8 128 (cl_task_id c) \<and> len_between 4 128 (cl_step_id c) \<and>
     capability_pattern (cl_provider_id c) \<and> len_between 8 128 (cl_checkpoint_id c) \<and> len_between 16 128 (cl_lease_id c) \<and>
     \<not> dt_instant (cl_expires_at c) \<le> dt_instant (cl_leased_at c)"

definition transport_text :: "brain_transport \<Rightarrow> string" where
  "transport_text t = (case t of Mcp_client \<Rightarrow> ''mcp_client'' | Official_api \<Rightarrow> ''official_api''
     | Interactive_handoff \<Rightarrow> ''interactive_handoff'')"

definition availability_text :: "availability \<Rightarrow> string" where
  "availability_text a = (case a of Available \<Rightarrow> ''available'' | Degraded \<Rightarrow> ''degraded''
     | Temporary_capacity \<Rightarrow> ''temporary_capacity'' | Rate_limited \<Rightarrow> ''rate_limited'' | Quota_exhausted \<Rightarrow> ''quota_exhausted''
     | User_action_required \<Rightarrow> ''user_action_required'' | Offline \<Rightarrow> ''offline'' | Unknown_availability \<Rightarrow> ''unknown'')"

definition brain_capability_text :: "brain_capability \<Rightarrow> string" where
  "brain_capability_text c = (case c of General_reasoning \<Rightarrow> ''general_reasoning'' | Coding \<Rightarrow> ''coding''
     | Architecture \<Rightarrow> ''architecture'' | Debugging \<Rightarrow> ''debugging'' | Security_review \<Rightarrow> ''security_review''
     | Long_context \<Rightarrow> ''long_context'' | Structured_output \<Rightarrow> ''structured_output'' | Tool_use \<Rightarrow> ''tool_use'')"

section \<open>Router\<close>

datatype no_eligible_brain = No_eligible_brain brain_capability data_class | Preferred_not_eligible string

definition outbound_states :: "availability list" where
  "outbound_states = [Available, Degraded]"

definition claim_states :: "availability list" where
  "claim_states = [Available, Degraded, Unknown_availability]"

definition common_eligibility :: "brain_request \<Rightarrow> brain_profile \<Rightarrow> bool" where
  "common_eligibility req p \<longleftrightarrow> bp_enabled p \<and> has_capacity p \<and> br_capability req \<in> set (bp_capabilities p) \<and>
     br_data_class req \<in> set (bp_allowed_data_classes p)"

text \<open>The order of the key \<open>(-priority, provider_id)\<close>, and \<open>min\<close>, which keeps the first of equal keys.\<close>

definition sooner :: "brain_profile \<Rightarrow> brain_profile \<Rightarrow> bool" where
  "sooner p q \<longleftrightarrow> - bp_priority p < - bp_priority q \<or> bp_priority p = bp_priority q \<and> bp_provider_id p < bp_provider_id q"

fun first_min :: "brain_profile \<Rightarrow> brain_profile list \<Rightarrow> brain_profile" where
  "first_min best [] = best"
| "first_min best (p # ps) = first_min (if sooner p best then p else best) ps"

text \<open>The dictionary by provider id keeps the last profile of an id. An empty preference is none.\<close>

definition select_brain :: "brain_request \<Rightarrow> brain_profile list \<Rightarrow> no_eligible_brain + brain_profile" where
  "select_brain req profiles =
     (case profiles of [] \<Rightarrow> Inl (No_eligible_brain (br_capability req) (br_data_class req))
      | p # ps \<Rightarrow>
        (case br_preferred_provider_id req of
           None \<Rightarrow> Inr (first_min p ps)
         | Some want \<Rightarrow>
             if want = [] then Inr (first_min p ps)
             else case List.find (\<lambda>x. bp_provider_id x = want) (rev profiles) of
               Some preferred \<Rightarrow> Inr preferred
             | None \<Rightarrow> if \<not> br_allow_fallback req then Inl (Preferred_not_eligible want)
                 else Inr (first_min p ps)))"

definition route_reason :: "brain_request \<Rightarrow> brain_profile \<Rightarrow> string" where
  "route_reason req p = ''selected as '' @
     (if br_preferred_provider_id req = Some (bp_provider_id p) then ''preferred provider'' else ''highest eligible priority'') @
     ''; capability='' @ brain_capability_text (br_capability req) @ ''; availability='' @ availability_text (bp_availability p) @
     ''; transport='' @ transport_text (bp_transport p)"

definition decide_route :: "route_mode \<Rightarrow> brain_request \<Rightarrow> no_eligible_brain + brain_profile \<Rightarrow> no_eligible_brain + route_decision" where
  "decide_route mode req r =
     (case r of Inl e \<Rightarrow> Inl e
      | Inr p \<Rightarrow> Inr \<lparr>rd_provider_id = bp_provider_id p, rd_transport = bp_transport p, rd_mode = mode, rd_reason = route_reason req p\<rparr>)"

definition select_outbound :: "brain_request \<Rightarrow> brain_profile list \<Rightarrow> no_eligible_brain + route_decision" where
  "select_outbound req profiles = decide_route Autonomous_outbound req (select_brain req
     (filter (\<lambda>p. common_eligibility req p \<and> bp_transport p = Official_api \<and> bp_availability p \<in> set outbound_states) profiles))"

definition select_inbound_claimant :: "brain_request \<Rightarrow> brain_profile list \<Rightarrow> no_eligible_brain + route_decision" where
  "select_inbound_claimant req profiles = decide_route Inbound_claim req (select_brain req
     (filter (\<lambda>p. common_eligibility req p \<and> bp_transport p = Mcp_client \<and> bp_availability p \<in> set claim_states) profiles))"

definition select_interactive_handoff :: "brain_request \<Rightarrow> brain_profile list \<Rightarrow> no_eligible_brain + route_decision" where
  "select_interactive_handoff req profiles = decide_route Interactive_route req (select_brain req
     (filter (\<lambda>p. common_eligibility req p \<and> bp_transport p = Interactive_handoff \<and>
        bp_availability p \<notin> {Offline, Quota_exhausted}) profiles))"

section \<open>Correctness\<close>

text \<open>The selection as a specification: the preferred profile when it is eligible, otherwise the one that no other precedes.\<close>

definition preferred_of :: "brain_request \<Rightarrow> string option" where
  "preferred_of req = (case br_preferred_provider_id req of Some (c # cs) \<Rightarrow> Some (c # cs) | _ \<Rightarrow> None)"

definition chosen :: "brain_request \<Rightarrow> brain_profile set \<Rightarrow> brain_profile \<Rightarrow> bool" where
  "chosen req E p \<longleftrightarrow> p \<in> E \<and>
     (if \<exists>q \<in> E. preferred_of req = Some (bp_provider_id q) then preferred_of req = Some (bp_provider_id p)
      else (preferred_of req = None \<or> br_allow_fallback req) \<and> (\<forall>q \<in> E. \<not> sooner q p))"

lemma sooner_trans: "sooner p q \<Longrightarrow> sooner q r \<Longrightarrow> sooner p r" and sooner_irrefl: "\<not> sooner p p"
  and not_sooner_trans: "\<not> sooner q p \<Longrightarrow> \<not> sooner r q \<Longrightarrow> \<not> sooner r p"
  by (auto simp: sooner_def)

lemma sooner_total: "bp_provider_id p \<noteq> bp_provider_id q \<Longrightarrow> sooner p q \<or> sooner q p"
  by (auto simp: sooner_def)

lemma first_min_least: "first_min best ps \<in> insert best (set ps) \<and> (\<forall>q \<in> insert best (set ps). \<not> sooner q (first_min best ps))"
proof (induction ps arbitrary: best)
  case (Cons p ps)
  let ?b = "if sooner p best then p else best"
  have ih: "first_min ?b ps \<in> insert ?b (set ps)" "\<forall>q \<in> insert ?b (set ps). \<not> sooner q (first_min ?b ps)"
    using Cons.IH [of ?b] by blast+
  have "\<not> sooner best ?b" "\<not> sooner p ?b" using sooner_irrefl sooner_trans [of p best p] by (auto split: if_splits)
  then have "\<not> sooner best (first_min ?b ps)" "\<not> sooner p (first_min ?b ps)"
    using ih(2) by (meson insertI1 not_sooner_trans)+
  then show ?case using ih by (auto split: if_splits)
qed (simp add: sooner_irrefl)


lemma chosen_unique:
  assumes "inj_on bp_provider_id E" "chosen req E p" "chosen req E q"
  shows "p = q"
proof -
  have "bp_provider_id p = bp_provider_id q"
    using assms(2,3) sooner_total [of p q] by (auto simp: chosen_def split: if_splits)
  then show ?thesis using assms by (auto simp: chosen_def inj_on_def)
qed

lemma find_rev_None: "List.find P (rev xs) = None \<longleftrightarrow> (\<forall>x \<in> set xs. \<not> P x)"
  by (auto simp: find_None_iff)

lemma select_brain_chosen: "select_brain req ps = Inr p \<Longrightarrow> chosen req (set ps) p"
proof (cases ps)
  case (Cons x xs)
  assume sel: "select_brain req ps = Inr p"
  have least: "first_min x xs \<in> set ps" "\<forall>q \<in> set ps. \<not> sooner q (first_min x xs)"
    using first_min_least [of x xs] by (auto simp: Cons)
  show ?thesis
  proof (cases "preferred_of req")
    case None
    then have "p = first_min x xs" using sel
      by (auto simp: select_brain_def Cons preferred_of_def split: option.splits list.splits)
    then show ?thesis using least None by (simp add: chosen_def)
  next
    case (Some want)
    then have w: "br_preferred_provider_id req = Some want" "want \<noteq> []"
      by (auto simp: preferred_of_def split: option.splits list.splits)
    show ?thesis
    proof (cases "List.find (\<lambda>x. bp_provider_id x = want) (rev ps)")
      case None
      then have "p = first_min x xs" "br_allow_fallback req"
        using sel w by (auto simp: select_brain_def Cons simp del: rev.simps split: if_splits)
      moreover have "\<forall>q \<in> set ps. bp_provider_id q \<noteq> want" using None by (simp only: find_rev_None)
      ultimately show ?thesis using least Some by (auto simp: chosen_def)
    next
      case (Some y)
      then have "p = y" using sel w by (simp add: select_brain_def Cons del: rev.simps)
      then show ?thesis using find_Some_in [OF Some] \<open>preferred_of req = Some want\<close> by (auto simp: chosen_def)
    qed
  qed
qed (simp add: select_brain_def)

lemma select_brain_fails: "select_brain req ps = Inl e \<Longrightarrow> \<not> chosen req (set ps) p"
proof (cases ps)
  case (Cons x xs)
  assume "select_brain req ps = Inl e"
  then obtain want where "br_preferred_provider_id req = Some want" "want \<noteq> []" "\<not> br_allow_fallback req"
    "List.find (\<lambda>x. bp_provider_id x = want) (rev ps) = None"
    by (auto simp: select_brain_def Cons simp del: rev.simps split: option.splits if_splits)
  then show ?thesis by (auto simp: chosen_def preferred_of_def find_rev_None split: list.splits)
qed (simp add: chosen_def)

text \<open>Eligibility for each of the three routes.\<close>

fun route :: "route_mode \<Rightarrow> brain_request \<Rightarrow> brain_profile list \<Rightarrow> no_eligible_brain + route_decision" where
  "route Autonomous_outbound = select_outbound"
| "route Inbound_claim = select_inbound_claimant"
| "route Interactive_route = select_interactive_handoff"

fun mode_admits :: "route_mode \<Rightarrow> brain_profile \<Rightarrow> bool" where
  "mode_admits Autonomous_outbound p \<longleftrightarrow> autonomously_invokable p \<and> bp_availability p \<in> {Available, Degraded}"
| "mode_admits Inbound_claim p \<longleftrightarrow> bp_transport p = Mcp_client \<and> bp_availability p \<in> {Available, Degraded, Unknown_availability}"
| "mode_admits Interactive_route p \<longleftrightarrow> bp_transport p = Interactive_handoff \<and> bp_availability p \<notin> {Offline, Quota_exhausted}"

definition eligible :: "route_mode \<Rightarrow> brain_request \<Rightarrow> brain_profile list \<Rightarrow> brain_profile set" where
  "eligible mode req ps = {p \<in> set ps. common_eligibility req p \<and> mode_admits mode p}"

lemma route_select:
  "route mode req ps = decide_route mode req (select_brain req (filter (\<lambda>p. common_eligibility req p \<and> mode_admits mode p) ps))"
  by (cases mode) (simp_all add: select_outbound_def select_inbound_claimant_def select_interactive_handoff_def outbound_states_def
      claim_states_def autonomously_invokable_def conj_ac cong: conj_cong)

lemma route_chosen:
  assumes "route mode req ps = Inr d"
  obtains p where "chosen req (eligible mode req ps) p" "d = \<lparr>rd_provider_id = bp_provider_id p, rd_transport = bp_transport p,
    rd_mode = mode, rd_reason = route_reason req p\<rparr>"
  using assms that select_brain_chosen
  by (fastforce simp: route_select decide_route_def eligible_def split: sum.splits)

lemma route_fails: "route mode req ps = Inl e \<Longrightarrow> \<not> chosen req (eligible mode req ps) p"
  using select_brain_fails by (fastforce simp: route_select decide_route_def eligible_def split: sum.splits)

text \<open>C40. Routing is exact and does not depend on the order of the profiles: with distinct provider ids, the decision names the one
  eligible profile that the specification chooses (the preferred one if it is eligible, otherwise the one
  of highest priority with ties broken by provider id, provided that fallback is allowed), it fails
  exactly when there is no such profile, and a permutation of the profiles gives the same decision; only a
  provider with an official interface is selected for an autonomous call.\<close>

theorem brain_routing_exact:
  assumes "distinct (map bp_provider_id ps)" "set qs = set ps"
  shows "(\<forall>d. route mode req qs = Inr d \<longleftrightarrow> (\<exists>p. chosen req (eligible mode req ps) p \<and>
      d = \<lparr>rd_provider_id = bp_provider_id p, rd_transport = bp_transport p, rd_mode = mode, rd_reason = route_reason req p\<rparr>)) \<and>
    (mode = Autonomous_outbound \<longrightarrow> (\<forall>p. chosen req (eligible mode req ps) p \<longrightarrow> autonomously_invokable p \<and> has_capacity p))"
proof (intro conjI allI)
  have e: "eligible mode req qs = eligible mode req ps" using assms(2) by (simp add: eligible_def)
  have "inj_on bp_provider_id (set ps)" using assms(1) by (simp add: distinct_map)
  then have inj: "inj_on bp_provider_id (eligible mode req ps)" by (rule inj_on_subset) (auto simp: eligible_def)
  fix d
  show "route mode req qs = Inr d \<longleftrightarrow> (\<exists>p. chosen req (eligible mode req ps) p \<and>
      d = \<lparr>rd_provider_id = bp_provider_id p, rd_transport = bp_transport p, rd_mode = mode, rd_reason = route_reason req p\<rparr>)"
    (is "?l \<longleftrightarrow> (\<exists>p. ?c p \<and> d = ?d p)")
  proof
    assume ?l
    then show "\<exists>p. ?c p \<and> d = ?d p" by (rule route_chosen) (auto simp: e)
  next
    assume "\<exists>p. ?c p \<and> d = ?d p"
    then obtain p where p: "?c p" "d = ?d p" by blast
    show ?l
    proof (cases "route mode req qs")
      case (Inl x)
      then show ?thesis using p(1) route_fails e by metis
    next
      case (Inr d')
      then obtain q where "?c q" "d' = ?d q" by (rule route_chosen) (auto simp: e)
      then show ?thesis using chosen_unique [OF inj p(1)] p(2) Inr by simp
    qed
  qed
qed (auto simp: chosen_def eligible_def common_eligibility_def)

definition ex_brain :: "string \<Rightarrow> int \<Rightarrow> brain_transport \<Rightarrow> brain_profile" where
  "ex_brain i n t = \<lparr>bp_provider_id = i, bp_display_name = i, bp_transport = t, bp_capabilities = [Coding], bp_priority = n,
     bp_enabled = True, bp_availability = Available, bp_max_parallel_tasks = 1, bp_active_tasks = 0,
     bp_allowed_data_classes = [Public, Internal], bp_exact_quota_visibility = False\<rparr>"

definition ex_brain_request :: brain_request where
  "ex_brain_request = \<lparr>br_task_id = ''task_0001'', br_capability = Coding, br_data_class = Internal,
     br_preferred_provider_id = Some ''missing'', br_allow_fallback = True\<rparr>"

definition ex_brains :: "brain_profile list" where
  "ex_brains = [ex_brain ''zed'' 5 Official_api, ex_brain ''abc'' 5 Official_api, ex_brain ''web'' 9 Mcp_client]"

theorem brain_routing_exact_witness:
  "\<exists>p. chosen ex_brain_request (eligible Autonomous_outbound ex_brain_request ex_brains) p \<and> bp_provider_id p = ''abc''"
proof -
  have d: "distinct (map bp_provider_id ex_brains)" by code_simp
  have "case route Autonomous_outbound ex_brain_request ex_brains of Inl _ \<Rightarrow> False | Inr d \<Rightarrow> rd_provider_id d = ''abc''" by code_simp
  then obtain r where r: "route Autonomous_outbound ex_brain_request ex_brains = Inr r" "rd_provider_id r = ''abc''"
    by (auto split: sum.splits)
  obtain p where "chosen ex_brain_request (eligible Autonomous_outbound ex_brain_request ex_brains) p"
    "r = \<lparr>rd_provider_id = bp_provider_id p, rd_transport = bp_transport p, rd_mode = Autonomous_outbound,
       rd_reason = route_reason ex_brain_request p\<rparr>"
    using brain_routing_exact [OF d refl, of Autonomous_outbound ex_brain_request, THEN conjunct1, THEN spec, of r] r(1) by blast
  then show ?thesis using r(2) by auto
qed

end
