(* ===== verification/Mcp_Tools.thy ===== *)
theory Mcp_Tools
  imports Policy Executor
begin

text \<open>
  mcp_tools.py: which capabilities of the policy are offered as MCP tools, with the JSON schemas of their
  arguments, and the digest of the offered tools. The output schema of the probe is what pydantic
  generates and is a parameter; so are SHA-256 and the tools that a caller adds.
\<close>

section \<open>Tool definitions\<close>

type_synonym json_object = "(string \<times> json) list"

record mcp_tool =
  mt_name :: string
  mt_description :: string
  mt_input_schema_json :: string
  mt_output_schema_json :: "string option"
  mt_annotations_json :: "string option"

definition create_tool :: "string \<Rightarrow> string \<Rightarrow> json_object \<Rightarrow> json_object option \<Rightarrow> json_object option \<Rightarrow> mcp_tool" where
  "create_tool name description input_schema output_schema annotations =
     \<lparr>mt_name = name, mt_description = description, mt_input_schema_json = dumps True (JObj input_schema),
      mt_output_schema_json = map_option (\<lambda>s. dumps True (JObj s)) output_schema,
      mt_annotations_json = map_option (\<lambda>s. dumps True (JObj s)) annotations\<rparr>"

text \<open>The properties decode the stored text; \<open>None\<close> is the error for text that is not a JSON object.\<close>

definition decode_object :: "string \<Rightarrow> json_object option" where
  "decode_object s = (case loads s of Some (JObj d) \<Rightarrow> Some d | _ \<Rightarrow> None)"

definition input_schema :: "mcp_tool \<Rightarrow> json_object option" where
  "input_schema t = decode_object (mt_input_schema_json t)"

definition decode_optional :: "string option \<Rightarrow> json_object option option" where
  "decode_optional s = (case s of None \<Rightarrow> Some None | Some x \<Rightarrow> map_option Some (decode_object x))"

definition protocol_dict :: "mcp_tool \<Rightarrow> json_object option" where
  "protocol_dict t =
     (case (input_schema t, decode_optional (mt_output_schema_json t), decode_optional (mt_annotations_json t)) of
        (Some i, Some out, Some ann) \<Rightarrow>
          Some ([(''name'', JStr (mt_name t)), (''description'', JStr (mt_description t)), (''inputSchema'', JObj i)] @
            (case out of None \<Rightarrow> [] | Some d \<Rightarrow> [(''outputSchema'', JObj d)]) @
            (case ann of None \<Rightarrow> [] | Some d \<Rightarrow> [(''annotations'', JObj d)]))
      | _ \<Rightarrow> None)"

section \<open>Schemas\<close>

definition object_schema :: "json_object \<Rightarrow> string list \<Rightarrow> json_object" where
  "object_schema props required = [(''type'', JStr ''object''), (''properties'', JObj props)] @
     (if required = [] then [] else [(''required'', JArr (map JStr required))]) @ [(''additionalProperties'', JBool False)]"

definition workspace_list_schema :: json_object where
  "workspace_list_schema = object_schema [(''path'', JObj [(''type'', JStr ''string''),
     (''description'', JStr ''Workspace-relative directory path.''), (''default'', JStr ''.''), (''maxLength'', JInt 1024)])] []"

definition workspace_read_schema :: json_object where
  "workspace_read_schema = object_schema [(''path'', JObj [(''type'', JStr ''string''),
     (''description'', JStr ''Workspace-relative UTF-8 text file path.''), (''minLength'', JInt 1), (''maxLength'', JInt 1024)])] [''path'']"

definition workspace_write_schema :: json_object where
  "workspace_write_schema = object_schema [(''path'', JObj [(''type'', JStr ''string''),
       (''description'', JStr ''Workspace-relative destination path.''), (''minLength'', JInt 1), (''maxLength'', JInt 1024)]),
     (''content'', JObj [(''type'', JStr ''string''), (''description'', JStr ''UTF-8 text content to write.'')])] [''path'', ''content'']"

definition command_schema :: "declared_capability \<Rightarrow> json_object option" where
  "command_schema c =
     (let allowed = sort (remdups (dc_allowed_commands c)) in
      if allowed = [] then None
      else Some (object_schema [(''command'', JObj [(''type'', JStr ''array''),
        (''description'', JStr ''Exact argv array selected from the local policy allowlist.''),
        (''items'', JObj [(''type'', JStr ''string''), (''minLength'', JInt 1)]), (''minItems'', JInt 1), (''maxItems'', JInt 32),
        (''enum'', JArr (map (\<lambda>cmd. JArr (map JStr cmd)) allowed))])] [''command'']))"

text \<open>A template is a description and a schema builder.\<close>

definition tool_templates :: "(string, string \<times> (declared_capability \<Rightarrow> json_object option)) dict" where
  "tool_templates =
     [(''git.diff'', (''Inspect the configured workspace Git diff inside an isolated snapshot.'', command_schema)),
      (''sandbox.run_tests'', (''Run an allowlisted test command inside the isolated sandbox snapshot.'', command_schema)),
      (''workspace.list'', (''List files and directories inside the configured workspace.'', \<lambda>_. Some workspace_list_schema)),
      (''workspace.read_text'', (''Read one bounded UTF-8 text file from the configured workspace.'', \<lambda>_. Some workspace_read_schema)),
      (''workspace.write_text'', (''Write one bounded UTF-8 text file inside the configured workspace.'', \<lambda>_. Some workspace_write_schema))]"

definition c0_input_schema :: json_object where
  "c0_input_schema = object_schema [(''challenge'', JObj [(''type'', JStr ''string''),
     (''description'', JStr ''Single-use synthetic challenge generated locally for this connectivity attempt.''),
     (''pattern'', JStr ''^c0_[0-9a-f]{32}$''), (''minLength'', JInt 35), (''maxLength'', JInt 35)])] [''challenge'']"

definition c0_annotations :: json_object where
  "c0_annotations = [(''readOnlyHint'', JBool True), (''destructiveHint'', JBool False), (''idempotentHint'', JBool True),
     (''openWorldHint'', JBool False)]"

section \<open>The registry\<close>

datatype registry_error = Registry_value_error string | Registry_runtime_error string

definition probe_tool :: "json_object \<Rightarrow> mcp_tool" where
  "probe_tool c0_output_schema = create_tool C0_TOOL_NAME
     ''Return a synthetic, read-only connectivity attestation for one locally generated challenge.''
     c0_input_schema (Some c0_output_schema) (Some c0_annotations)"

text \<open>The body of the loop: the tool for a declared capability, if any.\<close>

definition tool_for :: "json_object \<Rightarrow> bool \<Rightarrow> mcp_tool list \<Rightarrow> declared_capability \<Rightarrow> mcp_tool option" where
  "tool_for c0_output_schema c0_mode additional c =
     (if dc_decision c \<noteq> Allow then None
      else if c0_mode then (if dc_name c = C0_TOOL_NAME then Some (probe_tool c0_output_schema) else None)
      else case List.find (\<lambda>t. mt_name t = dc_name c) additional of
        Some t \<Rightarrow> Some t
      | None \<Rightarrow> (case map_of tool_templates (dc_name c) of
          None \<Rightarrow> None
        | Some (description, builder) \<Rightarrow>
            (case builder c of None \<Rightarrow> None | Some schema \<Rightarrow> Some (create_tool (dc_name c) description schema None None))))"

definition registry_init ::
  "json_object \<Rightarrow> policy_engine \<Rightarrow> bool \<Rightarrow> string list option \<Rightarrow> mcp_tool list \<Rightarrow> registry_error + mcp_tool list" where
  "registry_init c0_output_schema pe c0_mode effective_tool_names additional =
     (if \<not> distinct (map mt_name additional) then Inl (Registry_value_error ''additional MCP tool names must be unique'')
      else if set (map mt_name additional) \<inter> set (keys tool_templates) \<noteq> {}
        then Inl (Registry_value_error ''additional MCP tools cannot override built-in tools'')
      else if C0_TOOL_NAME \<in> set (map mt_name additional)
        then Inl (Registry_value_error ''additional MCP tools cannot override the C0 probe'')
      else let built = sort_key mt_name (List.map_filter (tool_for c0_output_schema c0_mode additional) (declared_capabilities pe)) in
        case effective_tool_names of None \<Rightarrow> Inr built
        | Some names \<Rightarrow>
            if \<not> set names \<subseteq> set (map mt_name built)
              then Inl (Registry_runtime_error ''effective MCP tool scope is not provided by the local policy'')
            else Inr (filter (\<lambda>t. mt_name t \<in> set names) built))"

definition get_tool :: "mcp_tool list \<Rightarrow> string \<Rightarrow> mcp_tool option" where
  "get_tool tools name = map_of (map (\<lambda>t. (mt_name t, t)) (rev tools)) name"

fun protocol_tools :: "mcp_tool list \<Rightarrow> json_object list option" where
  "protocol_tools [] = Some []"
| "protocol_tools (t # ts) = (case (protocol_dict t, protocol_tools ts) of (Some d, Some ds) \<Rightarrow> Some (d # ds) | _ \<Rightarrow> None)"

definition tool_snapshot_sha256 :: "(bytes \<Rightarrow> bytes) \<Rightarrow> mcp_tool list \<Rightarrow> string option" where
  "tool_snapshot_sha256 sha256 tools =
     (case protocol_tools tools of None \<Rightarrow> None
      | Some ds \<Rightarrow> Some (hexlify (sha256 (utf8 (dumps False (JArr (map JObj ds)))))))"


section \<open>What is offered\<close>

definition command_capabilities :: "string list" where
  "command_capabilities = [''git.diff'', ''sandbox.run_tests'']"

text \<open>Whether a declared and allowed capability has a tool.\<close>

definition offerable :: "bool \<Rightarrow> mcp_tool list \<Rightarrow> declared_capability \<Rightarrow> bool" where
  "offerable c0_mode additional c \<longleftrightarrow> dc_decision c = Allow \<and>
     (if c0_mode then dc_name c = C0_TOOL_NAME
      else dc_name c \<in> set (map mt_name additional) \<or>
        dc_name c \<in> set (keys tool_templates) \<and> (dc_name c \<in> set command_capabilities \<longrightarrow> dc_allowed_commands c \<noteq> []))"

lemma remdups_sort_empty: "sort (remdups xs) = [] \<longleftrightarrow> xs = []"
  by (metis remdups_eq_nil_iff set_empty set_sort)

lemma command_schema_None: "command_schema c = None \<longleftrightarrow> dc_allowed_commands c = []"
  by (simp add: command_schema_def Let_def remdups_sort_empty)

lemma template_None:
  "map_of tool_templates n = Some (d, b) \<Longrightarrow> b c = None \<longleftrightarrow> n \<in> set command_capabilities \<and> dc_allowed_commands c = []"
  by (auto simp: tool_templates_def command_capabilities_def command_schema_None split: if_splits)

lemma tool_for_name: "tool_for out m add c = Some t \<Longrightarrow> mt_name t = dc_name c"
  by (auto simp: tool_for_def probe_tool_def create_tool_def dest: find_Some_in split: if_splits option.splits)

lemma find_name: "List.find (\<lambda>t. mt_name t = n) add = None \<longleftrightarrow> n \<notin> set (map mt_name add)"
  by (auto simp: find_None_iff)

lemma tool_for_offerable: "tool_for out m add c \<noteq> None \<longleftrightarrow> offerable m add c"
proof (cases "map_of tool_templates (dc_name c)")
  case None
  then have "dc_name c \<notin> set (keys tool_templates)" by (metis map_of_eq_None_keys)
  then show ?thesis using None find_name [of "dc_name c" add] unfolding tool_for_def offerable_def
    by (auto simp del: set_map split: option.splits)
next
  case (Some p)
  obtain d b where p: "p = (d, b)" by (cases p)
  have k: "dc_name c \<in> set (keys tool_templates)" using Some by (metis map_of_eq_None_keys option.distinct(1))
  note t = template_None [OF Some [unfolded p], of c] and f = find_name [of "dc_name c" add]
  show ?thesis
  proof (cases "List.find (\<lambda>t. mt_name t = dc_name c) add")
    case None
    with f have "dc_name c \<notin> set (map mt_name add)" by blast
    then show ?thesis unfolding tool_for_def offerable_def using None Some p k t
      by (cases "b c") (simp_all del: set_map)
  next
    case (Some x)
    with f have "dc_name c \<in> set (map mt_name add)" by (metis option.distinct(1))
    then show ?thesis unfolding tool_for_def offerable_def using Some by (simp del: set_map)
  qed
qed

lemma names_map_filter: "map mt_name (List.map_filter (tool_for out m add) cs) = map dc_name (filter (offerable m add) cs)"
proof (induction cs)
  case (Cons c cs)
  then show ?case using tool_for_offerable [of out m add c] tool_for_name [of out m add c]
    by (cases "tool_for out m add c") (simp_all add: map_filter_simps)
qed (simp add: map_filter_simps)

lemma declared_names:
  assumes "distinct (keys (pe_capabilities pe))"
  shows "distinct (map dc_name (declared_capabilities pe))"
  using assms distinct_keys_sort by (simp add: declared_capabilities_def case_prod_unfold o_def)

lemma built_tools:
  fixes out m add pe
  assumes "distinct (keys (pe_capabilities pe))"
  defines "built \<equiv> sort_key mt_name (List.map_filter (tool_for out m add) (declared_capabilities pe))"
  shows "map mt_name built = map dc_name (filter (offerable m add) (declared_capabilities pe))"
    "sorted (map mt_name built)" "distinct (map mt_name built)"
proof -
  let ?ts = "List.map_filter (tool_for out m add) (declared_capabilities pe)"
  have "sorted (map dc_name (filter (offerable m add) (declared_capabilities pe)))"
    using declared_capabilities_sorted [of pe] by (rule sorted_filter)
  then have "built = ?ts" unfolding built_def by (intro sort_key_id_if_sorted) (simp add: names_map_filter)
  then show names: "map mt_name built = map dc_name (filter (offerable m add) (declared_capabilities pe))"
    by (simp add: names_map_filter)
  show "sorted (map mt_name built)" by (simp add: built_def)
  show "distinct (map mt_name built)" using names distinct_map_filter [OF declared_names [OF assms(1)], of "offerable m add"] by simp
qed

lemma evaluate_capability:
  assumes "distinct (keys (pe_capabilities pe))" "c \<in> set (declared_capabilities pe)"
  shows "pdec_decision (evaluate pe (dc_name c)) = dc_decision c"
    "pdec_config (evaluate pe (dc_name c)) = config_json \<lparr>cc_decision = dc_decision c, cc_allowed_commands = dc_allowed_commands c\<rparr>"
proof -
  obtain k where k: "(dc_name c, k) \<in> set (pe_capabilities pe)"
    "c = \<lparr>dc_name = dc_name c, dc_decision = cc_decision k, dc_allowed_commands = cc_allowed_commands k\<rparr>"
    using assms(2) declared_capabilities_iff by blast
  then have d: "dc_decision c = cc_decision k" "dc_allowed_commands c = cc_allowed_commands k"
    by (metis declared_capability.select_convs(2), metis declared_capability.select_convs(3))
  have "map_of (pe_capabilities pe) (dc_name c) = Some k" using k(1) assms(1) by simp
  then show "pdec_decision (evaluate pe (dc_name c)) = dc_decision c"
    "pdec_config (evaluate pe (dc_name c)) = config_json \<lparr>cc_decision = dc_decision c, cc_allowed_commands = dc_allowed_commands c\<rparr>"
    by (simp_all add: evaluate_def d config_json_def)
qed

text \<open>The registry offers exactly what the policy allows: the tools are sorted by distinct names; a name is offered exactly when
  it is declared in the policy, lies in the effective scope if one is given, and has a tool (in C0 mode only
  the probe; otherwise an additional tool or a built-in one, for a command tool with a non-empty
  allowlist); and the policy engine evaluates every offered name to a plain allow, so that no offered tool
  waits for an approval.\<close>

theorem registry_offers_allowed:
  assumes "registry_init out pe c0_mode effective additional = Inr tools" "distinct (keys (pe_capabilities pe))"
  shows "sorted (map mt_name tools) \<and> distinct (map mt_name tools) \<and>
    (\<forall>n. n \<in> set (map mt_name tools) \<longleftrightarrow> (\<exists>c \<in> set (declared_capabilities pe). dc_name c = n \<and> offerable c0_mode additional c) \<and>
      (case effective of None \<Rightarrow> True | Some names \<Rightarrow> n \<in> set names)) \<and>
    (\<forall>n \<in> set (map mt_name tools). pdec_decision (evaluate pe n) = Allow)"
proof -
  let ?b = "sort_key mt_name (List.map_filter (tool_for out c0_mode additional) (declared_capabilities pe))"
  note b = built_tools [OF assms(2), of out c0_mode additional]
  have t: "tools = (case effective of None \<Rightarrow> ?b | Some names \<Rightarrow> filter (\<lambda>t. mt_name t \<in> set names) ?b)"
    using assms(1) by (auto simp: registry_init_def Let_def split: if_splits option.splits)
  have "sorted (map mt_name tools)" "distinct (map mt_name tools)"
    unfolding t using sorted_filter [OF b(2)] distinct_map_filter [OF b(3)] b(2,3) by (auto split: option.splits)
  moreover have "set (map mt_name tools) = {n \<in> set (map mt_name ?b). case effective of None \<Rightarrow> True | Some names \<Rightarrow> n \<in> set names}"
    unfolding t by (auto split: option.splits)
  then have iff: "n \<in> set (map mt_name tools) \<longleftrightarrow> (\<exists>c \<in> set (declared_capabilities pe). dc_name c = n \<and> offerable c0_mode additional c) \<and>
      (case effective of None \<Rightarrow> True | Some names \<Rightarrow> n \<in> set names)" for n
    unfolding b(1) by auto
  moreover have "pdec_decision (evaluate pe n) = Allow" if "n \<in> set (map mt_name tools)" for n
    using that evaluate_capability(1) [OF assms(2)] unfolding iff by (auto simp: offerable_def)
  ultimately show ?thesis by blast
qed

text \<open>The enumeration in the schema of a command tool is what the executor accepts for it.\<close>

lemma offered_commands_accepted:
  assumes "distinct (keys (pe_capabilities pe))" "c \<in> set (declared_capabilities pe)" "cmd \<noteq> []" "[] \<notin> set cmd"
  shows "JArr (map JStr cmd) \<in> set (map (\<lambda>x. JArr (map JStr x)) (sort (remdups (dc_allowed_commands c)))) \<longleftrightarrow>
    validated_command [(''command'', JArr (map JStr cmd))] (pdec_config (evaluate pe (dc_name c))) = Inr cmd"
proof -
  obtain v vs where cmd: "cmd = v # vs" using assms(3) by (cases cmd) auto
  have "string_items (JStr v # map JStr vs) = Some (v # vs)"
    using assms(4) by (auto simp: cmd string_items_def list_all_iff o_def)
  then show ?thesis unfolding evaluate_capability(2) [OF assms(1,2)]
    by (simp add: validated_command_def cmd config_json_def)
qed

definition ex_tool_engine :: policy_engine where
  "ex_tool_engine = \<lparr>pe_policy_sha256 = [], pe_default = Deny, pe_limits = default_limits,
     pe_capabilities = [(''workspace.read_text'', \<lparr>cc_decision = Allow, cc_allowed_commands = []\<rparr>),
       (''workspace.write_text'', \<lparr>cc_decision = Require_approval, cc_allowed_commands = []\<rparr>),
       (''git.diff'', \<lparr>cc_decision = Allow, cc_allowed_commands = [[''git'', ''diff'']]\<rparr>)]\<rparr>"

definition ex_tools :: "mcp_tool list" where
  "ex_tools = (case registry_init [] ex_tool_engine False None [] of Inl _ \<Rightarrow> [] | Inr ts \<Rightarrow> ts)"

theorem registry_offers_allowed_witness:
  "map mt_name ex_tools = [''git.diff'', ''workspace.read_text''] \<and> pdec_decision (evaluate ex_tool_engine ''git.diff'') = Allow"
proof -
  have r: "registry_init [] ex_tool_engine False None [] = Inr ex_tools" by code_simp
  have n: "map mt_name ex_tools = [''git.diff'', ''workspace.read_text'']" by code_simp
  have "distinct (keys (pe_capabilities ex_tool_engine))" by code_simp
  then show ?thesis using registry_offers_allowed [OF r] n by simp
qed

end
