(* ===== verification/Mcp_Adapter.thy ===== *)
theory Mcp_Adapter
  imports Gateway Mcp_Tools
begin

text \<open>
  mcp_runtime.py, the adapter: a call of an MCP tool becomes a task that the adapter signs itself, is processed
  like every other task, and its result becomes an MCP result, as text or through a renderer that
  commits its delivery only after the rendered result was checked. The processor, the renderer and the audit log
  for renderings are arguments; random identifiers and the clock come with the call. An awaited call
  may end in an exception or in a \<open>BaseException\<close> such as a cancellation.
\<close>

section \<open>Results\<close>

datatype tool_content = Text_content string | Other_content json

record tool_result =
  tl_content :: "tool_content list"
  tl_structured :: "json_object option"
  tl_is_error :: bool
  tl_meta :: "json_object option"

type_synonym metadata = "(string \<times> string) list"

definition meta_json :: "metadata \<Rightarrow> json_object" where
  "meta_json m = map (\<lambda>(k, v). (k, JStr v)) m"

definition tool_error :: "string \<Rightarrow> metadata option \<Rightarrow> tool_result" where
  "tool_error message metadata = \<lparr>tl_content = [Text_content message], tl_structured = None, tl_is_error = True,
     tl_meta = map_option meta_json metadata\<rparr>"

text \<open>\<open>None\<close> is the error for metadata of the renderer that disagrees with the required values.\<close>

fun merge_metadata :: "json_object \<Rightarrow> metadata \<Rightarrow> json_object option" where
  "merge_metadata existing [] = Some existing"
| "merge_metadata existing ((k, v) # required) =
     (if map_of existing k \<noteq> None \<and> map_of existing k \<noteq> Some (JStr v) then None
      else merge_metadata (AList.update k (JStr v) existing) required)"

definition with_required_metadata :: "tool_result \<Rightarrow> metadata \<Rightarrow> tool_result option" where
  "with_required_metadata r required =
     (case merge_metadata (case tl_meta r of None \<Rightarrow> [] | Some m \<Rightarrow> m) required of
        None \<Rightarrow> None | Some m \<Rightarrow> Some (r\<lparr>tl_meta := Some m\<rparr>))"

section \<open>The adapter\<close>

text \<open>An exception by the name of its type; \<open>Base_exc\<close> is one that is not an \<open>Exception\<close>.\<close>

datatype py_exc = Exc string | Base_exc string

fun exc_name :: "py_exc \<Rightarrow> string" where
  "exc_name (Exc n) = n" | "exc_name (Base_exc n) = n"

record 's prepared =
  pp_result :: "py_exc + tool_result"
  pp_commit :: "'s \<Rightarrow> (py_exc + unit) \<times> 's"
  pp_abort :: "'s \<Rightarrow> (py_exc + unit) \<times> 's"

record 's mcp_adapter =
  ma_hmac :: hmac_fn
  ma_shared_secret :: string
  ma_process :: "task_envelope \<Rightarrow> 's \<Rightarrow> (process_error + task_result) \<times> 's"
  ma_renderer :: "(string \<Rightarrow> json_object \<Rightarrow> json_object \<Rightarrow> metadata \<Rightarrow> 's \<Rightarrow> (py_exc + 's prepared option) \<times> 's) option"
  ma_render_audit :: "(audit_event \<Rightarrow> 's \<Rightarrow> (py_exc + string) \<times> 's) option"
  ma_max_rendered_response_bytes :: int
  ma_response_size :: "tool_result \<Rightarrow> int"
  ma_parse_datetime :: "string \<Rightarrow> datetime option"
  ma_json_utc :: "int \<Rightarrow> string"

definition adapter_limits_ok :: "int \<Rightarrow> int \<Rightarrow> string + unit" where
  "adapter_limits_ok max_concurrency max_rendered_response_bytes =
     (if max_concurrency < 1 then Inl ''max_concurrency must be positive''
      else if max_rendered_response_bytes < 1 then Inl ''rendered response byte limit must be positive'' else Inr ())"

text \<open>What the environment gives a call: \<open>uuid4().hex\<close>, \<open>secrets.token_urlsafe(24)\<close> and the clock.\<close>

record mcp_call =
  mc_uuid_hex :: string
  mc_nonce :: string
  mc_now :: datetime

definition build_task :: "'s mcp_adapter \<Rightarrow> mcp_call \<Rightarrow> string \<Rightarrow> json_object \<Rightarrow> task_envelope option" where
  "build_task a call name arguments =
     (let expires = dt_instant (mc_now call) + 60 * 1000000;
          unsigned = \<lparr>te_version = ''1'', te_task_id = ''mcp_'' @ mc_uuid_hex call, te_issued_at = mc_now call,
            te_expires_at = \<lparr>dt_instant = expires, dt_aware = dt_aware (mc_now call), dt_text = ma_json_utc a expires\<rparr>,
            te_agent = \<lparr>ai_provider = ''mcp'', ai_model = None, ai_session_id = ''streamable-http''\<rparr>, te_capability = name,
            te_arguments = arguments, te_approval_id = None, te_nonce = mc_nonce call, te_signature = replicate 43 (CHR ''A'')\<rparr>
      in if task_envelope_valid unsigned
         then Some (unsigned\<lparr>te_signature := compute_task_signature (ma_hmac a) unsigned (ma_shared_secret a)\<rparr>) else None)"

definition render_event :: "task_envelope \<Rightarrow> string \<Rightarrow> string option \<Rightarrow> audit_event" where
  "render_event t status failure_type = (task_event t status)\<lparr>ev_extras := [(''content_recorded'', JBool False)] @
     (case failure_type of None \<Rightarrow> [] | Some f \<Rightarrow> [(''failure_type'', JStr f)])\<rparr>"

definition append_render_audit :: "'s mcp_adapter \<Rightarrow> task_envelope \<Rightarrow> string \<Rightarrow> string option \<Rightarrow> 's \<Rightarrow> (py_exc + unit) \<times> 's" where
  "append_render_audit a t status failure_type s =
     (case ma_render_audit a of None \<Rightarrow> (Inr (), s)
      | Some write \<Rightarrow> (case write (render_event t status failure_type) s of
          (Inr _, s') \<Rightarrow> (Inr (), s')
        | (Inl (Exc _), s') \<Rightarrow> (Inl (Exc ''RuntimeError''), s')
        | (Inl (Base_exc n), s') \<Rightarrow> (Inl (Base_exc n), s')))"

definition abort_prepared :: "'s prepared option \<Rightarrow> 's \<Rightarrow> 's" where
  "abort_prepared p s = (case p of None \<Rightarrow> s | Some q \<Rightarrow> snd (pp_abort q s))"

definition abort_render :: "'s mcp_adapter \<Rightarrow> 's prepared option \<Rightarrow> task_envelope \<Rightarrow> string \<Rightarrow> 's \<Rightarrow> (py_exc + unit) \<times> 's" where
  "abort_render a p t failure_type s =
     (case append_render_audit a t ''render_failed'' (Some failure_type) (abort_prepared p s) of
        (Inl (Exc _), s') \<Rightarrow> (Inr (), s') | (Inl (Base_exc n), s') \<Rightarrow> (Inl (Base_exc n), s') | (Inr _, s') \<Rightarrow> (Inr (), s'))"

text \<open>The handler of a failed preparation or commit.\<close>

definition fail_render ::
  "'s mcp_adapter \<Rightarrow> 's prepared option \<Rightarrow> task_envelope \<Rightarrow> metadata \<Rightarrow> py_exc \<Rightarrow> 's \<Rightarrow> (py_exc + tool_result) \<times> 's" where
  "fail_render a p t metadata exc s =
     (case abort_render a p t (exc_name exc) s of
        (Inl e, s') \<Rightarrow> (Inl e, s')
      | (Inr _, s') \<Rightarrow> (case exc of Base_exc n \<Rightarrow> (Inl exc, s')
          | Exc n \<Rightarrow> (Inr (tool_error ''Tool response rendering failed'' (Some metadata)), s')))"

definition check_rendered :: "'s mcp_adapter \<Rightarrow> metadata \<Rightarrow> 's prepared \<Rightarrow> py_exc + tool_result" where
  "check_rendered a metadata p =
     (case pp_result p of Inl e \<Rightarrow> Inl e
      | Inr r \<Rightarrow> (case with_required_metadata r metadata of None \<Rightarrow> Inl (Exc ''ValueError'')
        | Some r' \<Rightarrow> if ma_max_rendered_response_bytes a < ma_response_size a r' then Inl (Exc ''ValueError'') else Inr r'))"

text \<open>\<open>None\<close>: the renderer declined and the result is returned as text.\<close>

definition render :: "'s mcp_adapter \<Rightarrow> (string \<Rightarrow> json_object \<Rightarrow> json_object \<Rightarrow> metadata \<Rightarrow> 's \<Rightarrow> (py_exc + 's prepared option) \<times> 's) \<Rightarrow>
    task_envelope \<Rightarrow> string \<Rightarrow> json_object \<Rightarrow> json_object \<Rightarrow> metadata \<Rightarrow> 's \<Rightarrow> (py_exc + tool_result) option \<times> 's" where
  "render a prepare t name arguments output metadata s =
     (case prepare name arguments output metadata s of
        (Inl e, s1) \<Rightarrow> (case fail_render a None t metadata e s1 of (r, s2) \<Rightarrow> (Some r, s2))
      | (Inr None, s1) \<Rightarrow> (None, s1)
      | (Inr (Some p), s1) \<Rightarrow>
          (case check_rendered a metadata p of
             Inl e \<Rightarrow> (case fail_render a (Some p) t metadata e s1 of (r, s2) \<Rightarrow> (Some r, s2))
           | Inr rendered \<Rightarrow>
               (case pp_commit p s1 of
                  (Inl e, s2) \<Rightarrow> (case fail_render a (Some p) t metadata e s2 of (r, s3) \<Rightarrow> (Some r, s3))
                | (Inr _, s2) \<Rightarrow>
                    (case append_render_audit a t ''render_completed'' None s2 of
                       (Inl e, s3) \<Rightarrow> (case fail_render a (Some p) t metadata e s3 of (r, s4) \<Rightarrow> (Some r, s4))
                     | (Inr _, s3) \<Rightarrow> (Some (Inr rendered), s3)))))"

definition text_result :: "json_object \<Rightarrow> metadata \<Rightarrow> tool_result" where
  "text_result output metadata = \<lparr>tl_content = [Text_content (dumps False (JObj output))], tl_structured = Some output,
     tl_is_error = False, tl_meta = Some (meta_json metadata)\<rparr>"

definition status_message :: "task_status \<Rightarrow> string" where
  "status_message st = (case st of Denied \<Rightarrow> ''Tool execution denied'' | Approval_required \<Rightarrow> ''Tool requires local approval''
     | Failed \<Rightarrow> ''Tool execution failed'' | Completed \<Rightarrow> [])"

definition result_metadata :: "string \<Rightarrow> string \<Rightarrow> metadata" where
  "result_metadata audit_id task_id = [(''systeme-local/audit-id'', audit_id), (''systeme-local/task-id'', task_id)]"

text \<open>A completed task: the probe's answer is finalised, then rendered or returned as text.\<close>

definition completed_result ::
  "'s mcp_adapter \<Rightarrow> task_envelope \<Rightarrow> string \<Rightarrow> json_object \<Rightarrow> task_result \<Rightarrow> 's \<Rightarrow> (py_exc + tool_result) \<times> 's" where
  "completed_result a t name arguments result s =
     (let metadata = result_metadata (tr_audit_id result) (tr_task_id result) in
      case (if name = C0_TOOL_NAME
            then finalize_c0_response (ma_parse_datetime a) (ma_json_utc a) (tr_output result) (tr_audit_id result)
            else Some (tr_output result)) of
        None \<Rightarrow> (Inr (tool_error ''Tool response validation failed'' (Some metadata)), s)
      | Some output \<Rightarrow>
          (case ma_renderer a of None \<Rightarrow> (Inr (text_result output metadata), s)
           | Some prepare \<Rightarrow>
               (case render a prepare t name arguments output metadata s of
                  (None, s') \<Rightarrow> (Inr (text_result output metadata), s') | (Some r, s') \<Rightarrow> (r, s'))))"

definition call_tool :: "'s mcp_adapter \<Rightarrow> mcp_call \<Rightarrow> string \<Rightarrow> json_object \<Rightarrow> 's \<Rightarrow> (py_exc + tool_result) \<times> 's" where
  "call_tool a call name arguments s =
     (case build_task a call name arguments of
        None \<Rightarrow> (Inr (tool_error ''Invalid tool request'' None), s)
      | Some t \<Rightarrow>
          (case ma_process a t s of
             (Inl (Task_authentication detail audit_id), s') \<Rightarrow>
               (Inr (tool_error detail (Some (result_metadata audit_id (te_task_id t)))), s')
           | (Inl (Task_unavailable detail audit_id), s') \<Rightarrow>
               (Inr (tool_error detail (Some (result_metadata audit_id (te_task_id t)))), s')
           | (Inl _, s') \<Rightarrow> (Inr (tool_error ''Tool service unavailable'' None), s')
           | (Inr result, s') \<Rightarrow>
               if tr_status result = Completed then completed_result a t name arguments result s'
               else (Inr (tool_error (status_message (tr_status result))
                 (Some (result_metadata (tr_audit_id result) (tr_task_id result)))), s')))"


section \<open>Calls through the gateway\<close>

text \<open>The adapter of the gateway, for a call in environment \<open>env\<close>, without a renderer (the modes other than C9).\<close>

definition gateway_adapter :: "'h gateway \<Rightarrow> call_env \<Rightarrow> (string \<Rightarrow> datetime option) \<Rightarrow> (int \<Rightarrow> string) \<Rightarrow> 'h gateway_state mcp_adapter" where
  "gateway_adapter gw env parse_dt json_utc = \<lparr>ma_hmac = gw_hmac gw, ma_shared_secret = gw_shared_secret gw,
     ma_process = process (gateway_services gw env), ma_renderer = None, ma_render_audit = None,
     ma_max_rendered_response_bytes = 16 * 1024 * 1024, ma_response_size = (\<lambda>_. 0), ma_parse_datetime = parse_dt,
     ma_json_utc = json_utc\<rparr>"

lemma build_task_fields:
  assumes "build_task a call name arguments = Some t"
  shows "te_capability t = name \<and> te_arguments t = arguments \<and> te_approval_id t = None \<and> te_nonce t = mc_nonce call \<and>
    te_task_id t = ''mcp_'' @ mc_uuid_hex call \<and> dt_instant (te_issued_at t) = dt_instant (mc_now call) \<and> dt_aware (te_expires_at t) \<and>
    dt_instant (te_expires_at t) = dt_instant (mc_now call) + 60000000"
  using assms by (auto simp: build_task_def Let_def task_envelope_valid_def require_timezone_def split: if_splits)

lemma build_task_signed:
  assumes "build_task a call name arguments = Some t"
  shows "te_signature t = compute_task_signature (ma_hmac a) t (ma_shared_secret a)"
  using assms by (auto simp: build_task_def Let_def compute_task_signature_def canonical_payload_def task_json_def split: if_splits)

lemma completed_result_plain:
  assumes "ma_renderer a = None"
  shows "\<exists>r. completed_result a t name arguments result s = (Inr r, s)"
  using assms by (simp add: completed_result_def Let_def split: option.splits)

text \<open>A call either stops before execution, with an error, or runs the gateway on its task.\<close>

lemma call_tool_process:
  assumes "call_tool a call name arguments s = (out, s')" "ma_renderer a = None"
  obtains (refused) "s' = s" "out = Inr (tool_error ''Invalid tool request'' None)"
  | (processed) t r where "build_task a call name arguments = Some t" "ma_process a t s = (r, s')"
    "(\<exists>x. out = Inr x \<and> (\<not> tl_is_error x \<longrightarrow> (\<exists>res. r = Inr res \<and> tr_status res = Completed)))"
proof (cases "build_task a call name arguments")
  case None
  then show ?thesis using assms(1) refused by (simp add: call_tool_def)
next
  case (Some t)
  obtain r s1 where p: "ma_process a t s = (r, s1)" by fastforce
  show ?thesis
  proof (cases r)
    case (Inl e)
    then show ?thesis using assms(1) Some p processed [of t r]
      by (cases e) (auto simp: call_tool_def tool_error_def)
  next
    case (Inr res)
    then show ?thesis using assms Some p processed [of t r] completed_result_plain [OF assms(2), of t name arguments res s1]
      by (auto simp: call_tool_def tool_error_def split: if_splits)
  qed
qed

text \<open>What a caller gets for the outcome of an execution that was recorded under an audit id: the output, the answer of the
  probe after the audit id was entered and the whole validated, or a fixed text.\<close>

definition adapter_answer :: "(string \<Rightarrow> datetime option) \<Rightarrow> (int \<Rightarrow> string) \<Rightarrow> string \<Rightarrow> string \<Rightarrow> exec_error + arguments \<Rightarrow> string + arguments" where
  "adapter_answer parse_dt json_utc name audit_id outcome =
     (case outcome of Inl _ \<Rightarrow> Inl ''Tool execution failed''
      | Inr res \<Rightarrow> if name = C0_TOOL_NAME
          then (case finalize_c0_response parse_dt json_utc res audit_id of None \<Rightarrow> Inl ''Tool response validation failed'' | Some x \<Rightarrow> Inr x)
          else Inr res)"

definition shows_answer :: "tool_result \<Rightarrow> string + arguments \<Rightarrow> bool" where
  "shows_answer r answer = (case answer of
     Inr x \<Rightarrow> tl_content r = [Text_content (dumps False (JObj x))] \<and> tl_structured r = Some x \<and> \<not> tl_is_error r
   | Inl message \<Rightarrow> tl_content r = [Text_content message] \<and> tl_is_error r)"

lemma call_tool_served:
  assumes "build_task (gateway_adapter gw env parse_dt json_utc) call name arguments = Some t"
    and "served gw env t s (process (gateway_services gw env) t s)"
  shows "\<exists>r audit_id. fst (call_tool (gateway_adapter gw env parse_dt json_utc) call name arguments s) = Inr r \<and>
    tl_meta r = Some (meta_json (result_metadata audit_id (te_task_id t))) \<and>
    shows_answer r (adapter_answer parse_dt json_utc name audit_id (fst (execute (gw_lib gw) (gw_executor gw) (ce_exec env) name arguments
      (pdec_config (evaluate (gw_policy gw) name)) (gs_exec s))))"
proof -
  let ?a = "gateway_adapter gw env parse_dt json_utc"
  note f = build_task_fields [OF assms(1)]
  obtain q x where q: "execute (gw_lib gw) (gw_executor gw) (ce_exec env) name arguments
      (pdec_config (evaluate (gw_policy gw) name)) (gs_exec s) = (q, x)" by fastforce
  have proc: "ma_process ?a = process (gateway_services gw env)" "ma_renderer ?a = None" "ma_parse_datetime ?a = parse_dt"
    "ma_json_utc ?a = json_utc" by (simp_all add: gateway_adapter_def)
  show ?thesis
  proof (cases q)
    case (Inl e)
    then obtain u s' where "process (gateway_services gw env) t s = (Inr \<lparr>tr_task_id = te_task_id t, tr_status = Failed, tr_output = [],
          tr_error = Some ''task execution failed'', tr_audit_id = u\<rparr>, s')" using assms(2) q f by (auto simp: served_def)
    then show ?thesis using Inl q assms(1)
      by (auto simp: call_tool_def proc tool_error_def status_message_def shows_answer_def adapter_answer_def)
  next
    case (Inr res)
    then obtain u s' where "process (gateway_services gw env) t s = (Inr \<lparr>tr_task_id = te_task_id t, tr_status = Completed, tr_output = res,
          tr_error = None, tr_audit_id = u\<rparr>, s')" using assms(2) q f by (auto simp: served_def)
    then show ?thesis using Inr q assms(1)
      by (intro exI [of _ "the (case fst (call_tool ?a call name arguments s) of Inr r \<Rightarrow> Some r | _ \<Rightarrow> None)"] exI [of _ u])
        (simp add: call_tool_def proc completed_result_def Let_def text_result_def tool_error_def shows_answer_def adapter_answer_def
          split: option.splits)
  qed
qed

section \<open>Rendering\<close>

lemma merge_metadata_ok:
  assumes "merge_metadata existing required = Some m" "distinct (map fst required)"
  shows "(\<forall>(k, v) \<in> set required. map_of m k = Some (JStr v)) \<and>
    (\<forall>k. k \<notin> fst ` set required \<longrightarrow> map_of m k = map_of existing k)"
  using assms
proof (induction existing required rule: merge_metadata.induct)
  case (2 existing k v required)
  then have r: "merge_metadata (AList.update k (JStr v) existing) required = Some m" by (auto split: if_splits)
  have ih: "(\<forall>(k', v') \<in> set required. map_of m k' = Some (JStr v')) \<and>
    (\<forall>k'. k' \<notin> fst ` set required \<longrightarrow> map_of m k' = map_of (AList.update k (JStr v) existing) k')"
    using 2 r by (auto split: if_splits)
  then show ?case using 2(3) by (auto simp: update_conv')
qed simp

lemma check_rendered_ok:
  assumes "check_rendered a metadata p = Inr r"
  shows "ma_response_size a r \<le> ma_max_rendered_response_bytes a \<and> (\<exists>r0. pp_result p = Inr r0 \<and> with_required_metadata r0 metadata = Some r)"
  using assms by (auto simp: check_rendered_def split: sum.splits option.splits if_splits)

lemma fail_render_aborts:
  "fail_render a p t metadata e s = (out, s') \<Longrightarrow>
     (\<exists>r. append_render_audit a t ''render_failed'' (Some (exc_name e)) (abort_prepared p s) = (r, s')) \<and>
     (case out of Inl _ \<Rightarrow> True | Inr x \<Rightarrow> x = tool_error ''Tool response rendering failed'' (Some metadata))"
  by (auto simp: fail_render_def abort_render_def split: prod.splits sum.splits py_exc.splits)

text \<open>The two ends of a prepared rendering.\<close>

definition delivered :: "'s mcp_adapter \<Rightarrow> task_envelope \<Rightarrow> metadata \<Rightarrow> 's prepared \<Rightarrow> 's \<Rightarrow> py_exc + tool_result \<Rightarrow> 's \<Rightarrow> bool" where
  "delivered a t metadata p s1 out s' \<longleftrightarrow>
     (\<exists>s2 r0 m. pp_commit p s1 = (Inr (), s2) \<and> append_render_audit a t ''render_completed'' None s2 = (Inr (), s') \<and>
        pp_result p = Inr r0 \<and> out = Inr (r0\<lparr>tl_meta := Some m\<rparr>) \<and> (\<forall>(k, v) \<in> set metadata. map_of m k = Some (JStr v)) \<and>
        ma_response_size a (r0\<lparr>tl_meta := Some m\<rparr>) \<le> ma_max_rendered_response_bytes a)"

definition withdrawn :: "'s mcp_adapter \<Rightarrow> task_envelope \<Rightarrow> metadata \<Rightarrow> 's prepared \<Rightarrow> py_exc + tool_result \<Rightarrow> 's \<Rightarrow> bool" where
  "withdrawn a t metadata p out s' \<longleftrightarrow>
     (\<exists>s2 f q. append_render_audit a t ''render_failed'' (Some f) (snd (pp_abort p s2)) = (q, s')) \<and>
     (case out of Inl _ \<Rightarrow> True | Inr x \<Rightarrow> x = tool_error ''Tool response rendering failed'' (Some metadata))"

lemma fail_render_withdrawn: "fail_render a (Some p) t metadata e s = (out, s') \<Longrightarrow> withdrawn a t metadata p out s'"
  using fail_render_aborts [of a "Some p" t metadata e s out s'] by (auto simp: withdrawn_def abort_prepared_def)

lemma check_rendered_metadata:
  assumes "check_rendered a metadata p = Inr r" "distinct (map fst metadata)"
  obtains r0 m where "pp_result p = Inr r0" "r = r0\<lparr>tl_meta := Some m\<rparr>" "\<forall>(k, v) \<in> set metadata. map_of m k = Some (JStr v)"
    "ma_response_size a r \<le> ma_max_rendered_response_bytes a"
proof -
  from check_rendered_ok [OF assms(1)] obtain r0 where r0: "pp_result p = Inr r0" "with_required_metadata r0 metadata = Some r"
    and size: "ma_response_size a r \<le> ma_max_rendered_response_bytes a" by blast
  from r0(2) obtain m where m: "merge_metadata (case tl_meta r0 of None \<Rightarrow> [] | Some m \<Rightarrow> m) metadata = Some m" "r = r0\<lparr>tl_meta := Some m\<rparr>"
    by (auto simp: with_required_metadata_def split: option.splits)
  show ?thesis using that [OF r0(1) m(2)] merge_metadata_ok [OF m(1) assms(2)] size by blast
qed

text \<open>C17. Private content is delivered or withdrawn: once the renderer prepared a result, either the call returns exactly that
  result with the audit and task identifiers of the call in its metadata and within the byte limit, after the
  delivery was committed and its audit record written; or the delivery is aborted, a failure record is
  attempted, and the caller gets the fixed failure text or the interruption, never the content.\<close>

theorem rendering_commits_or_aborts:
  assumes "prepare name arguments res metadata s = (Inr (Some p), s1)" "distinct (map fst metadata)"
    and "render a prepare t name arguments res metadata s = (out, s')"
  shows "\<exists>r. out = Some r \<and> (delivered a t metadata p s1 r s' \<or> withdrawn a t metadata p r s')"
proof (cases "check_rendered a metadata p")
  case (Inl e)
  then show ?thesis using assms(1,3) by (auto simp: render_def dest: fail_render_withdrawn split: prod.splits)
next
  case (Inr r)
  then obtain r0 m where r: "pp_result p = Inr r0" "r = r0\<lparr>tl_meta := Some m\<rparr>" "\<forall>(k, v) \<in> set metadata. map_of m k = Some (JStr v)"
    "ma_response_size a r \<le> ma_max_rendered_response_bytes a" by (rule check_rendered_metadata [OF _ assms(2)])
  obtain c s2 where c: "pp_commit p s1 = (c, s2)" by fastforce
  obtain u s3 where u: "append_render_audit a t ''render_completed'' None s2 = (u, s3)" by fastforce
  show ?thesis
  proof (cases "is_ok c \<and> is_ok u")
    case True
    then have "out = Some (Inr r)" "s' = s3" "c = Inr ()" "u = Inr ()"
      using assms(1,3) Inr c u by (auto simp: render_def is_ok_iff)
    then show ?thesis using c u r unfolding delivered_def by blast
  next
    case False
    then show ?thesis using assms(1,3) Inr c u
      by (cases c; cases u) (auto simp: render_def dest: fail_render_withdrawn split: prod.splits)
  qed
qed

definition ex_prepared :: "string list prepared" where
  "ex_prepared = \<lparr>pp_result = Inr \<lparr>tl_content = [Text_content ''secret''], tl_structured = None, tl_is_error = False, tl_meta = None\<rparr>,
     pp_commit = (\<lambda>s. (Inr (), s @ [''commit''])), pp_abort = (\<lambda>s. (Inr (), s @ [''abort'']))\<rparr>"

definition ex_adapter :: "string list mcp_adapter" where
  "ex_adapter = \<lparr>ma_hmac = toy_mac, ma_shared_secret = [], ma_process = (\<lambda>t s. (Inl (Task_unavailable [] []), s)),
     ma_renderer = None, ma_render_audit = Some (\<lambda>ev s. (Inl (Exc ''OSError''), s)), ma_max_rendered_response_bytes = 10,
     ma_response_size = (\<lambda>_. 5), ma_parse_datetime = (\<lambda>_. None), ma_json_utc = (\<lambda>_. [])\<rparr>"

theorem rendering_commits_or_aborts_witness:
  "\<exists>r s'. render ex_adapter (\<lambda>n ar ou me s. (Inr (Some ex_prepared), s)) ex_request [] [] [] [(''k'', ''v'')] [] = (Some r, s') \<and>
     withdrawn ex_adapter ex_request [(''k'', ''v'')] ex_prepared r s'"
proof -
  let ?prep = "\<lambda>n ar ou me s. (Inr (Some ex_prepared), s)" and ?m = "[(''k'', ''v'')]"
  obtain q s' where q: "render ex_adapter ?prep ex_request [] [] [] ?m [] = (q, s')" by fastforce
  have p: "?prep [] [] [] ?m [] = (Inr (Some ex_prepared), [])" by simp
  from rendering_commits_or_aborts [where prepare = ?prep, OF p _ q] obtain r where r: "q = Some r"
    "delivered ex_adapter ex_request ?m ex_prepared [] r s' \<or> withdrawn ex_adapter ex_request ?m ex_prepared r s'" by auto
  moreover have "\<not> delivered ex_adapter ex_request ?m ex_prepared [] r s'"
    by (auto simp: delivered_def append_render_audit_def ex_adapter_def)
  ultimately show ?thesis using q by blast
qed

end
