(* ===== verification/Mcp_Http.thy ===== *)
theory Mcp_Http
  imports Mcp_Adapter Py_Text
begin

text \<open>
  mcp_runtime.py, the transport: the sliding window rate limiter and the checks of an HTTP request before it
  reaches the MCP session manager. The session manager of the MCP library, and
  \<open>ipaddress.ip_address(...).is_loopback\<close>, whose answer for mapped addresses depends on the version of
  Python, are parameters. The clock readings of the limiter are of any linear order, with the
  subtraction of the window as a function.
\<close>

section \<open>Rate limiter\<close>

record 't limiter =
  sl_limit :: int
  sl_cutoff :: "'t \<Rightarrow> 't"
  sl_events :: "'t list"

definition limiter_init :: "int \<Rightarrow> bool \<Rightarrow> ('t \<Rightarrow> 't) \<Rightarrow> string + 't limiter" where
  "limiter_init limit window_positive cutoff =
     (if limit < 1 then Inl ''rate limit must be positive''
      else if \<not> window_positive then Inl ''rate limit window must be positive''
      else Inr \<lparr>sl_limit = limit, sl_cutoff = cutoff, sl_events = []\<rparr>)"

definition allow :: "'t::linorder \<Rightarrow> 't limiter \<Rightarrow> bool \<times> 't limiter" where
  "allow now l =
     (let kept = dropWhile (\<lambda>e. e \<le> sl_cutoff l now) (sl_events l) in
      if sl_limit l \<le> int (length kept) then (False, l\<lparr>sl_events := kept\<rparr>)
      else (True, l\<lparr>sl_events := kept @ [now]\<rparr>))"

fun allow_all :: "'t::linorder limiter \<Rightarrow> 't list \<Rightarrow> bool list" where
  "allow_all l [] = []"
| "allow_all l (t # ts) = (case allow t l of (ok, l') \<Rightarrow> ok # allow_all l' ts)"

text \<open>The reference: a request is allowed when fewer than the limit were allowed within the window before it.\<close>

fun window_all :: "int \<Rightarrow> ('t::linorder \<Rightarrow> 't) \<Rightarrow> 't list \<Rightarrow> 't list \<Rightarrow> bool list" where
  "window_all limit cutoff passed [] = []"
| "window_all limit cutoff passed (t # ts) =
     (let ok = int (length (filter (\<lambda>a. cutoff t < a) passed)) < limit in
      ok # window_all limit cutoff (if ok then passed @ [t] else passed) ts)"

lemma dropWhile_sorted: "sorted xs \<Longrightarrow> dropWhile (\<lambda>e. e \<le> c) xs = filter (\<lambda>a. (c::'t::linorder) < a) xs"
  by (induction xs) (auto simp: filter_id_conv [THEN iffD2] less_le_trans not_le)

lemma allow_all_window:
  fixes l :: "'t::linorder limiter"
  assumes "sorted (passed @ ts)" "mono (sl_cutoff l)" "\<forall>x. sl_cutoff l x < x"
    and "sl_events l = filter (\<lambda>a. c < a) passed" "\<forall>t \<in> set ts. c \<le> sl_cutoff l t"
  shows "allow_all l ts = window_all (sl_limit l) (sl_cutoff l) passed ts"
  using assms
proof (induction ts arbitrary: l passed c)
  case (Cons t ts)
  let ?cut = "sl_cutoff l t"
  have sorted: "sorted passed" "\<forall>t' \<in> set ts. t \<le> t'" using Cons.prems(1) by (auto simp: sorted_append)
  have "sorted (filter (\<lambda>a. c < a) passed)" using sorted_filter [of id passed] sorted(1) by simp
  then have kept: "dropWhile (\<lambda>e. e \<le> ?cut) (sl_events l) = filter (\<lambda>a. ?cut < a) passed"
    using Cons.prems(4,5) by (auto simp: dropWhile_sorted intro!: filter_cong)
  have later: "\<forall>t' \<in> set ts. ?cut \<le> sl_cutoff l t'" using sorted(2) Cons.prems(2) by (simp add: monoD)
  show ?case
  proof (cases "sl_limit l \<le> int (length (filter (\<lambda>a. ?cut < a) passed))")
    case True
    let ?l = "l\<lparr>sl_events := filter (\<lambda>a. ?cut < a) passed\<rparr>"
    have "allow t l = (False, ?l)" using True by (simp add: allow_def kept)
    moreover have "allow_all ?l ts = window_all (sl_limit ?l) (sl_cutoff ?l) passed ts"
      by (rule Cons.IH [where c = ?cut]) (use Cons.prems(1-3) later in \<open>auto simp: sorted_append\<close>)
    ultimately show ?thesis using True by simp
  next
    case False
    let ?l = "l\<lparr>sl_events := filter (\<lambda>a. ?cut < a) passed @ [t]\<rparr>"
    have "allow t l = (True, ?l)" using False by (simp add: allow_def kept)
    moreover have "allow_all ?l ts = window_all (sl_limit ?l) (sl_cutoff ?l) (passed @ [t]) ts"
      by (rule Cons.IH [where c = ?cut]) (use Cons.prems(1-3) later in auto)
    ultimately show ?thesis using False by simp
  qed
qed simp

text \<open>C39. The rate limiter is exact: for clock readings that do not decrease and a cut-off that does not decrease and
  lies before the reading, the deque decides every request as the reference does, which counts all requests it
  admitted since the start that lie within the window.\<close>

theorem rate_limiter_exact:
  fixes l :: "'t::linorder limiter"
  assumes "sorted ts" "mono (sl_cutoff l)" "\<forall>x. sl_cutoff l x < x" "sl_events l = []"
  shows "allow_all l ts = window_all (sl_limit l) (sl_cutoff l) [] ts"
proof (cases ts)
  case (Cons t ts')
  show ?thesis
    by (rule allow_all_window [where c = "sl_cutoff l t"]) (use assms Cons in \<open>auto simp: monoD\<close>)
qed simp

theorem rate_limiter_exact_witness:
  "allow_all \<lparr>sl_limit = 2, sl_cutoff = (\<lambda>t. t - 60), sl_events = []\<rparr> [0, 10, 20, 60, 61 :: int] = [True, True, False, True, False]"
proof -
  let ?l = "\<lparr>sl_limit = 2, sl_cutoff = (\<lambda>t. t - 60), sl_events = []\<rparr> :: int limiter"
  have "allow_all ?l [0, 10, 20, 60, 61] = window_all (sl_limit ?l) (sl_cutoff ?l) [] [0, 10, 20, 60, 61]"
    by (rule rate_limiter_exact) (simp_all add: mono_def)
  also have "\<dots> = [True, True, False, True, False]" by simp
  finally show ?thesis .
qed

section \<open>Requests\<close>

text \<open>A request as the ASGI scope has it; an item of the body stream is a chunk or an error.\<close>

record http_request =
  hr_client :: "string option"
  hr_method :: string
  hr_headers :: "(bytes \<times> bytes) list"
  hr_stream :: "(unit + bytes) list"

record http_response =
  rp_status :: int
  rp_body :: bytes
  rp_headers :: "(string \<times> string) list"

definition plain_response :: "int \<Rightarrow> string \<Rightarrow> (string \<times> string) list \<Rightarrow> http_response" where
  "plain_response status message headers = \<lparr>rp_status = status, rp_body = message, rp_headers = headers\<rparr>"

definition ascii_lower :: "char \<Rightarrow> char" where
  "ascii_lower c = (if is_upper c then char_of (of_char c + 32 :: nat) else c)"

definition header_values :: "http_request \<Rightarrow> bytes \<Rightarrow> string list" where
  "header_values req name = map snd (filter (\<lambda>(k, v). map ascii_lower k = name) (hr_headers req))"

definition unauthorized :: http_response where
  "unauthorized = plain_response 401 ''Unauthorized'' [(''WWW-Authenticate'', ''Bearer'')]"

definition validate_singleton_headers :: "http_request \<Rightarrow> http_response option" where
  "validate_singleton_headers req =
     (if length (header_values req ''host'') \<noteq> 1 then Some (plain_response 400 ''Invalid Host header'' [])
      else if 1 < length (header_values req ''origin'') then Some (plain_response 400 ''Invalid Origin header'' [])
      else if length (header_values req ''authorization'') \<noteq> 1 then Some unauthorized
      else if 1 < length (header_values req ''content-length'') then Some (plain_response 400 ''Invalid Content-Length'' [])
      else None)"

definition is_loopback_client :: "(string \<Rightarrow> bool option) \<Rightarrow> http_request \<Rightarrow> bool" where
  "is_loopback_client ip_is_loopback req =
     (case hr_client req of None \<Rightarrow> False
      | Some host \<Rightarrow> (case ip_is_loopback host of None \<Rightarrow> False | Some b \<Rightarrow> b))"

text \<open>\<open>partition\<close> at the first space; the scheme is compared without regard to case.\<close>

definition is_authorized :: "http_request \<Rightarrow> string \<Rightarrow> bool" where
  "is_authorized req expected_token =
     (let authorization = (case header_values req ''authorization'' of [] \<Rightarrow> [] | v # _ \<Rightarrow> v);
          scheme = takeWhile (\<lambda>c. c \<noteq> CHR '' '') authorization;
          rest = dropWhile (\<lambda>c. c \<noteq> CHR '' '') authorization;
          credential = drop 1 rest
      in if rest = [] \<or> map ascii_lower scheme \<noteq> ''bearer'' then False
         else if credential = [] \<or> py_strip credential \<noteq> credential then False
         else if list_ex py_space credential then False
         else utf8 credential = utf8 expected_token)"

text \<open>\<open>int(value, 10)\<close>: white space around, a sign, digits with single underscores between them, at most 4300 digits.\<close>

fun int_digits :: "string \<Rightarrow> string option" where
  "int_digits [] = None"
| "int_digits [c] = (if is_digit c then Some [c] else None)"
| "int_digits (c # d # cs) =
     (if \<not> is_digit c then None
      else map_option (\<lambda>r. c # r) (if d = CHR ''_'' then int_digits cs else int_digits (d # cs)))"

definition py_int :: "string \<Rightarrow> int option" where
  "py_int value =
     (let s = py_strip value;
          neg = (s \<noteq> [] \<and> hd s = CHR ''-'');
          body = (if s \<noteq> [] \<and> hd s \<in> {CHR ''-'', CHR ''+''} then tl s else s)
      in case int_digits body of None \<Rightarrow> None
         | Some ds \<Rightarrow> if 4300 < length ds then None
             else Some ((if neg then - 1 else 1) * int (digits_val 0 ds)))"

definition validate_content_length :: "http_request \<Rightarrow> int \<Rightarrow> http_response option" where
  "validate_content_length req max_request_bytes =
     (case header_values req ''content-length'' of [] \<Rightarrow> None
      | v # _ \<Rightarrow>
        (case py_int v of None \<Rightarrow> Some (plain_response 400 ''Invalid Content-Length'' [])
         | Some n \<Rightarrow> if n < 0 then Some (plain_response 400 ''Invalid Content-Length'' [])
             else if max_request_bytes < n then Some (plain_response 413 ''Request Entity Too Large'' []) else None))"

datatype body_error = Body_too_large | Body_failed

fun read_bounded_body :: "int \<Rightarrow> int \<Rightarrow> bytes \<Rightarrow> (unit + bytes) list \<Rightarrow> body_error + bytes" where
  "read_bounded_body limit total_read acc [] = Inr acc"
| "read_bounded_body limit total_read acc (Inl _ # items) = Inl Body_failed"
| "read_bounded_body limit total_read acc (Inr chunk # items) =
     (let n = total_read + int (length chunk) in
      if limit < n then Inl Body_too_large else read_bounded_body limit n (acc @ chunk) items)"

section \<open>The runtime\<close>

text \<open>What the session manager sends, or \<open>None\<close> when it raises (also because a second response start is refused).\<close>

datatype asgi_message = Response_start int "(string \<times> string) list" | Response_body bytes

record 's mcp_runtime =
  mr_token :: string
  mr_max_request_bytes :: int
  mr_ip_is_loopback :: "string \<Rightarrow> bool option"
  mr_session :: "http_request \<Rightarrow> bytes \<Rightarrow> 's \<Rightarrow> asgi_message list option \<times> 's"

definition mcp_runtime_init :: "string \<Rightarrow> int \<Rightarrow> string + unit" where
  "mcp_runtime_init token max_request_bytes =
     (if length (utf8 token) < 32 then Inl ''MCP token must contain at least 32 UTF-8 bytes''
      else if max_request_bytes < 1 then Inl ''max_request_bytes must be positive'' else Inr ())"

fun starts_of :: "asgi_message list \<Rightarrow> (int \<times> (string \<times> string) list) list" where
  "starts_of [] = []"
| "starts_of (Response_start st hs # ms) = (st, hs) # starts_of ms"
| "starts_of (Response_body b # ms) = starts_of ms"

fun bodies_of :: "asgi_message list \<Rightarrow> bytes" where
  "bodies_of [] = []"
| "bodies_of (Response_start st hs # ms) = bodies_of ms"
| "bodies_of (Response_body b # ms) = b @ bodies_of ms"

definition dispatch_to_session_manager :: "'s mcp_runtime \<Rightarrow> http_request \<Rightarrow> bytes \<Rightarrow> 's \<Rightarrow> http_response \<times> 's" where
  "dispatch_to_session_manager rt req body s =
     (case mr_session rt req body s of
        (None, s') \<Rightarrow> (plain_response 500 ''MCP transport failed'' [], s')
      | (Some ms, s') \<Rightarrow>
          (case starts_of ms of
             [(status, headers)] \<Rightarrow> (\<lparr>rp_status = status, rp_body = bodies_of ms, rp_headers = headers\<rparr>, s')
           | _ \<Rightarrow> (plain_response 500 ''MCP transport failed'' [], s')))"

definition handle_http_request ::
  "'s mcp_runtime \<Rightarrow> 't::linorder \<Rightarrow> http_request \<Rightarrow> 't limiter \<Rightarrow> 's \<Rightarrow> http_response \<times> 't limiter \<times> 's" where
  "handle_http_request rt now req l s =
     (if \<not> is_loopback_client (mr_ip_is_loopback rt) req then (plain_response 403 ''Forbidden'' [], l, s)
      else case validate_singleton_headers req of Some e \<Rightarrow> (e, l, s)
      | None \<Rightarrow>
        if \<not> is_authorized req (mr_token rt) then (unauthorized, l, s)
        else if hr_method req = ''GET'' then (plain_response 405 ''Method Not Allowed'' [(''Allow'', ''POST, DELETE'')], l, s)
        else (case allow now l of
          (False, l') \<Rightarrow> (plain_response 429 ''Too Many Requests'' [(''Retry-After'', ''60'')], l', s)
        | (True, l') \<Rightarrow>
            (case validate_content_length req (mr_max_request_bytes rt) of Some e \<Rightarrow> (e, l', s)
             | None \<Rightarrow>
                 (case read_bounded_body (mr_max_request_bytes rt) 0 [] (hr_stream req) of
                    Inl Body_too_large \<Rightarrow> (plain_response 413 ''Request Entity Too Large'' [], l', s)
                  | Inl Body_failed \<Rightarrow> (plain_response 400 ''Invalid request body'' [], l', s)
                  | Inr body \<Rightarrow> (case dispatch_to_session_manager rt req body s of (r, s') \<Rightarrow> (r, l', s'))))))"

lemma read_bounded_body_ok:
  "read_bounded_body limit n acc items = Inr body \<Longrightarrow> n = int (length acc) \<Longrightarrow> n \<le> limit \<Longrightarrow>
     \<exists>chunks. items = map Inr chunks \<and> body = acc @ concat chunks \<and> int (length body) \<le> limit"
proof (induction limit n acc items rule: read_bounded_body.induct)
  case (3 limit n acc chunk items)
  let ?n = "n + int (length chunk)"
  have le: "\<not> limit < ?n" and r: "read_bounded_body limit ?n (acc @ chunk) items = Inr body"
    using 3(2) by (auto simp: Let_def split: if_splits)
  from 3(1) [OF refl le r] 3(3) le obtain chunks where "items = map Inr chunks" "body = (acc @ chunk) @ concat chunks"
    "int (length body) \<le> limit" by auto
  then show ?case by (intro exI [of _ "chunk # chunks"]) simp
qed auto

lemma is_authorized_header:
  assumes "is_authorized req token" "validate_singleton_headers req = None"
  shows "\<exists>scheme. header_values req ''authorization'' = [scheme @ '' '' @ token] \<and> map ascii_lower scheme = ''bearer''"
proof -
  obtain v where v: "header_values req ''authorization'' = [v]"
    using assms(2) by (auto simp: validate_singleton_headers_def length_Suc_conv split: if_splits)
  let ?s = "takeWhile (\<lambda>c. c \<noteq> CHR '' '') v" and ?r = "dropWhile (\<lambda>c. c \<noteq> CHR '' '') v"
  have a: "?r \<noteq> []" "map ascii_lower ?s = ''bearer''" "drop 1 ?r = token"
    using assms(1) by (auto simp: is_authorized_def v Let_def split: if_splits)
  have "hd ?r = CHR '' ''" using hd_dropWhile [OF a(1)] by simp
  then have "?r = CHR '' '' # token" using a(1,3) by (cases ?r) auto
  then have "v = ?s @ '' '' @ token" by (metis append_Cons append_Nil takeWhile_dropWhile_id)
  then show ?thesis using v a(2) by (intro exI [of _ ?s]) simp
qed

text \<open>C15. The MCP endpoint is closed: when a request reaches the session manager, so that anything behind it changes, it came
  from a loopback client, carried exactly one host header and exactly one authorization header, which is
  the bearer scheme and the configured token, was not a GET, was admitted by the rate limiter, and its
  body was read completely and within the byte limit; a request that is not authorised does not even
  count for the rate limit.\<close>

theorem mcp_requests_are_admitted:
  assumes "handle_http_request rt now req l s = (resp, l', s')" "0 \<le> mr_max_request_bytes rt"
  shows "(s' \<noteq> s \<longrightarrow> is_loopback_client (mr_ip_is_loopback rt) req \<and> length (header_values req ''host'') = 1 \<and>
      (\<exists>scheme. header_values req ''authorization'' = [scheme @ '' '' @ mr_token rt] \<and> map ascii_lower scheme = ''bearer'') \<and>
      hr_method req \<noteq> ''GET'' \<and> allow now l = (True, l') \<and>
      (\<exists>chunks. hr_stream req = map Inr chunks \<and> int (length (concat chunks)) \<le> mr_max_request_bytes rt \<and>
        dispatch_to_session_manager rt req (concat chunks) s = (resp, s'))) \<and>
    (l' \<noteq> l \<longrightarrow> (\<exists>scheme. header_values req ''authorization'' = [scheme @ '' '' @ mr_token rt] \<and> map ascii_lower scheme = ''bearer''))"
proof (cases "is_loopback_client (mr_ip_is_loopback rt) req \<and> validate_singleton_headers req = None \<and> is_authorized req (mr_token rt)")
  case False
  then show ?thesis using assms(1) by (auto simp: handle_http_request_def split: if_splits option.splits)
next
  case True
  then have auth: "\<exists>scheme. header_values req ''authorization'' = [scheme @ '' '' @ mr_token rt] \<and> map ascii_lower scheme = ''bearer''"
    using is_authorized_header by blast
  have host: "length (header_values req ''host'') = 1" using True by (auto simp: validate_singleton_headers_def split: if_splits)
  have "is_loopback_client (mr_ip_is_loopback rt) req \<and> hr_method req \<noteq> ''GET'' \<and> allow now l = (True, l') \<and>
      (\<exists>chunks. hr_stream req = map Inr chunks \<and> int (length (concat chunks)) \<le> mr_max_request_bytes rt \<and>
        dispatch_to_session_manager rt req (concat chunks) s = (resp, s'))" if "s' \<noteq> s"
  proof -
    obtain ok l1 where l1: "allow now l = (ok, l1)" by fastforce
    from that assms(1) True l1 have g: "hr_method req \<noteq> ''GET''" "ok" "validate_content_length req (mr_max_request_bytes rt) = None"
      by (auto simp: handle_http_request_def split: if_splits bool.splits option.splits)
    from that assms(1) True l1 g obtain body where b: "read_bounded_body (mr_max_request_bytes rt) 0 [] (hr_stream req) = Inr body"
      "dispatch_to_session_manager rt req body s = (resp, s')" "l1 = l'"
      by (auto simp: handle_http_request_def split: sum.splits body_error.splits prod.splits)
    then show ?thesis using read_bounded_body_ok [OF b(1)] assms(2) g l1 True by auto
  qed
  then show ?thesis using auth host by blast
qed

definition ex_runtime :: "bytes mcp_runtime" where
  "ex_runtime = \<lparr>mr_token = ''tok'', mr_max_request_bytes = 8, mr_ip_is_loopback = (\<lambda>h. if h = ''127.0.0.1'' then Some True else None),
     mr_session = (\<lambda>req body s. (Some [Response_start 200 [], Response_body ''ok''], s @ body))\<rparr>"

definition ex_http_request :: http_request where
  "ex_http_request = \<lparr>hr_client = Some ''127.0.0.1'', hr_method = ''POST'', hr_headers = [(''Host'', ''localhost''),
     (''Authorization'', ''Bearer tok''), (''Content-Length'', '' 4 '')], hr_stream = [Inr ''{'', Inr ''}'']\<rparr>"

theorem mcp_requests_are_admitted_witness:
  "\<exists>scheme. header_values ex_http_request ''authorization'' = [scheme @ '' tok''] \<and> map ascii_lower scheme = ''bearer''"
proof -
  let ?l = "\<lparr>sl_limit = 1, sl_cutoff = (\<lambda>t. t - 60), sl_events = []\<rparr> :: int limiter"
  obtain resp l' s' where h: "handle_http_request ex_runtime 0 ex_http_request ?l [] = (resp, l', s')" by (metis prod_cases3)
  have "snd (snd (handle_http_request ex_runtime 0 ex_http_request ?l [])) = ''{}''" by code_simp
  then have "s' \<noteq> []" using h by simp
  then show ?thesis using mcp_requests_are_admitted [OF h] by (auto simp: ex_runtime_def)
qed

end
