(* ===== verification/Attachment_Models.thy ===== *)
theory Attachment_Models
  imports Context_Models Py_Text
begin

text \<open>
  providers/attachment_models.py: inspections, committed attachments, manifests, capability profiles, batch plans
  and receipts, with the constraints their pydantic models enforce and the SHA-256 digests over length-framed
  fields that the models carry. SHA-256 is a parameter. A value of a model is valid exactly when
  \<open>model_validate(model_dump())\<close> accepts it. Timestamps of the models are the microseconds of the instant.
\<close>

section \<open>Framing\<close>

text \<open>What goes into a digest: texts behind their eight-byte length, and eight-byte integers.\<close>

datatype frame = Frame_text string | Frame_int int

datatype model_error = Invalid_fields | Invalid_model string | Framing_negative | Framing_overflow

definition frame_limit :: int where
  "frame_limit = 18446744073709551616"

fun frame_bytes :: "frame \<Rightarrow> model_error + bytes" where
  "frame_bytes (Frame_text v) =
     (let encoded = utf8 v in
      if frame_limit \<le> int (length encoded) then Inl Framing_overflow else Inr (be_bytes 8 (length encoded) @ encoded))"
| "frame_bytes (Frame_int v) =
     (if v < 0 then Inl Framing_negative else if frame_limit \<le> v then Inl Framing_overflow else Inr (be_bytes 8 (nat v)))"

fun frames_bytes :: "frame list \<Rightarrow> model_error + bytes" where
  "frames_bytes [] = Inr []"
| "frames_bytes (f # fs) = (case frame_bytes f of Inl e \<Rightarrow> Inl e
     | Inr b \<Rightarrow> (case frames_bytes fs of Inl e \<Rightarrow> Inl e | Inr bs \<Rightarrow> Inr (b @ bs)))"

definition framed_digest :: "(bytes \<Rightarrow> bytes) \<Rightarrow> string \<Rightarrow> frame list \<Rightarrow> model_error + string" where
  "framed_digest sha domain fs = (case frames_bytes fs of Inl e \<Rightarrow> Inl e
     | Inr b \<Rightarrow> Inr (hexlify (sha (domain @ [CHR 0x00] @ b))))"

text \<open>The last check of a model: the digest it carries is that of its fields.\<close>

definition check_digest :: "model_error + string \<Rightarrow> string \<Rightarrow> string \<Rightarrow> model_error option" where
  "check_digest expected actual message = (case expected of Inl e \<Rightarrow> Some e
     | Inr d \<Rightarrow> if actual \<noteq> d then Some (Invalid_model message) else None)"

section \<open>Enumerations\<close>

datatype media_type = Media_png | Media_jpeg | Media_pdf | Media_text | Media_json
datatype media_family_kind = Family_image | Family_document
datatype attachment_role = Role_screenshot | Role_input_document | Role_reference | Role_data | Role_other
datatype attachment_source = Source_operator_selected | Source_agent_generated | Source_tool_output | Source_simulated
datatype quota_requirement = Requires_none | Requires_fresh_upload_quota
datatype transfer_status = Transfer_completed | Transfer_partial | Transfer_cancelled | Transfer_rejected | Transfer_ambiguous
datatype retry_directive = Do_not_retry | Safe_retry | Reconcile_required

fun media_value :: "media_type \<Rightarrow> string" where
  "media_value Media_png = ''image/png''"
| "media_value Media_jpeg = ''image/jpeg''"
| "media_value Media_pdf = ''application/pdf''"
| "media_value Media_text = ''text/plain''"
| "media_value Media_json = ''application/json''"

fun family_value :: "media_family_kind \<Rightarrow> string" where
  "family_value Family_image = ''image''"
| "family_value Family_document = ''document''"

definition media_family :: "media_type \<Rightarrow> media_family_kind" where
  "media_family m = (if m \<in> {Media_png, Media_jpeg} then Family_image else Family_document)"

fun role_value :: "attachment_role \<Rightarrow> string" where
  "role_value Role_screenshot = ''screenshot''"
| "role_value Role_input_document = ''input_document''"
| "role_value Role_reference = ''reference''"
| "role_value Role_data = ''data''"
| "role_value Role_other = ''other''"

fun source_value :: "attachment_source \<Rightarrow> string" where
  "source_value Source_operator_selected = ''operator_selected''"
| "source_value Source_agent_generated = ''agent_generated''"
| "source_value Source_tool_output = ''tool_output''"
| "source_value Source_simulated = ''simulated''"

fun requirement_value :: "quota_requirement \<Rightarrow> string" where
  "requirement_value Requires_none = ''none''"
| "requirement_value Requires_fresh_upload_quota = ''fresh_upload_quota''"

fun transfer_value :: "transfer_status \<Rightarrow> string" where
  "transfer_value Transfer_completed = ''completed''"
| "transfer_value Transfer_partial = ''partial''"
| "transfer_value Transfer_cancelled = ''cancelled''"
| "transfer_value Transfer_rejected = ''rejected''"
| "transfer_value Transfer_ambiguous = ''ambiguous''"

fun directive_value :: "retry_directive \<Rightarrow> string" where
  "directive_value Do_not_retry = ''do_not_retry''"
| "directive_value Safe_retry = ''safe_retry''"
| "directive_value Reconcile_required = ''reconcile_required''"

fun support_value :: "capability_support \<Rightarrow> string" where
  "support_value Supported = ''supported''"
| "support_value Unsupported = ''unsupported''"
| "support_value Unknown = ''unknown''"

fun evidence_value :: "capability_evidence \<Rightarrow> string" where
  "evidence_value Documented = ''documented''"
| "evidence_value Observed = ''observed''"
| "evidence_value Simulated = ''simulated''"
| "evidence_value No_evidence = ''none''"

fun quota_state_value :: "quota_state \<Rightarrow> string" where
  "quota_state_value Quota_available = ''available''"
| "quota_state_value Near_limit = ''near_limit''"
| "quota_state_value Exhausted = ''exhausted''"
| "quota_state_value Reset_pending = ''reset_pending''"
| "quota_state_value Quota_unavailable = ''unavailable''"
| "quota_state_value Quota_unknown = ''unknown''"

fun unit_value :: "quota_unit \<Rightarrow> string" where
  "unit_value Unit_requests = ''requests''"
| "unit_value Unit_files = ''files''"
| "unit_value Unit_bytes = ''bytes''"
| "unit_value Unit_credits = ''credits''"
| "unit_value Unit_unknown = ''unknown''"

section \<open>Inspections and attachments\<close>

definition max_inspection_bytes :: int where
  "max_inspection_bytes = 64 * 1024 * 1024"

definition max_attachments_per_manifest :: int where
  "max_attachments_per_manifest = 64"

definition max_display_name_utf8_bytes :: nat where
  "max_display_name_utf8_bytes = 240"

definition int_between :: "int \<Rightarrow> int \<Rightarrow> int \<Rightarrow> bool" where
  "int_between lo hi n \<longleftrightarrow> lo \<le> n \<and> n \<le> hi"

record attachment_inspection =
  ai_media_type :: media_type
  ai_content_sha256 :: string
  ai_byte_size :: int
  ai_image_width :: "int option"
  ai_image_height :: "int option"
  ai_inspected_at :: int

definition inspection_fields_valid :: "attachment_inspection \<Rightarrow> bool" where
  "inspection_fields_valid i \<longleftrightarrow> sha256_pattern (ai_content_sha256 i) \<and> int_between 1 max_inspection_bytes (ai_byte_size i) \<and>
     optional (int_between 1 1000000) (ai_image_width i) \<and> optional (int_between 1 1000000) (ai_image_height i) \<and>
     datetime_range (ai_inspected_at i)"

definition validate_dimensions :: "attachment_inspection \<Rightarrow> model_error option" where
  "validate_dimensions i =
     (if media_family (ai_media_type i) = Family_image then
        if ai_image_width i = None \<or> ai_image_height i = None then Some (Invalid_model ''image attachments require width and height'')
        else None
      else if ai_image_width i \<noteq> None \<or> ai_image_height i \<noteq> None
        then Some (Invalid_model ''non-image attachments cannot carry dimensions'')
      else None)"

definition check_inspection :: "attachment_inspection \<Rightarrow> model_error option" where
  "check_inspection i = (if \<not> inspection_fields_valid i then Some Invalid_fields else validate_dimensions i)"

text \<open>Display names. The Latin-1 characters are NFC-normalised as they are; those of a category C are the control
  characters and the soft hyphen. Case folding changes other letters only into letters that no reserved name has.\<close>

definition control_category :: "char \<Rightarrow> bool" where
  "control_category c \<longleftrightarrow> c \<noteq> ellipsis \<and> (let n = (of_char c :: nat) in n < 32 \<or> 127 \<le> n \<and> n \<le> 159 \<or> n = 0xAD)"

definition reserved_names :: "string list" where
  "reserved_names = [''con'', ''prn'', ''aux'', ''nul''] @ map (\<lambda>c. ''com'' @ [c]) ''123456789'' @ map (\<lambda>c. ''lpt'' @ [c]) ''123456789''"

definition name_stem :: "string \<Rightarrow> string" where
  "name_stem v = map py_lower (rev (dropWhile (\<lambda>c. c \<in> set '' .'') (rev (takeWhile (\<lambda>c. c \<noteq> CHR ''.'') v))))"

definition validate_attachment_display_name :: "string \<Rightarrow> model_error option" where
  "validate_attachment_display_name v =
     (if v \<in> {''.'', ''..''} then Some (Invalid_model ''attachment display names cannot be dot segments'')
      else if v \<noteq> [] \<and> last v \<in> set '' .'' then Some (Invalid_model ''attachment display names cannot end in space or dot'')
      else if list_ex (\<lambda>c. c \<in> set ''/:*?<>|'' \<or> c = CHR 0x5C \<or> c = CHR 0x22) v
        then Some (Invalid_model ''attachment display names cannot contain filesystem metacharacters'')
      else if list_ex control_category v then Some (Invalid_model ''attachment display names cannot contain control or format characters'')
      else if max_display_name_utf8_bytes < length (utf8 v) then Some (Invalid_model ''attachment display name exceeds UTF-8 byte limit'')
      else if name_stem v \<in> set reserved_names then Some (Invalid_model ''attachment display name uses a reserved Windows device name'')
      else None)"

record committed_attachment =
  ca_attachment_id :: string
  ca_conversation_id :: string
  ca_turn_id :: string
  ca_trace_id :: string
  ca_ordinal :: int
  ca_display_name :: string
  ca_role :: attachment_role
  ca_source :: attachment_source
  ca_inspection :: attachment_inspection
  ca_committed_at :: int
  ca_metadata_sha256 :: string

definition metadata_frames :: "committed_attachment \<Rightarrow> frame list" where
  "metadata_frames a =
     map Frame_text [ca_attachment_id a, ca_conversation_id a, ca_turn_id a, ca_trace_id a, ca_display_name a, role_value (ca_role a),
       source_value (ca_source a), media_value (ai_media_type (ca_inspection a)), ai_content_sha256 (ca_inspection a),
       iso_utc (ai_inspected_at (ca_inspection a)), iso_utc (ca_committed_at a)] @
     map Frame_int [ca_ordinal a, ai_byte_size (ca_inspection a), case_option 0 id (ai_image_width (ca_inspection a)),
       case_option 0 id (ai_image_height (ca_inspection a))]"

definition attachment_metadata_sha256 :: "(bytes \<Rightarrow> bytes) \<Rightarrow> committed_attachment \<Rightarrow> model_error + string" where
  "attachment_metadata_sha256 sha a = framed_digest sha ''systeme-local:committed-attachment:v1'' (metadata_frames a)"

definition attachment_fields_valid :: "committed_attachment \<Rightarrow> bool" where
  "attachment_fields_valid a \<longleftrightarrow> list_all id_pattern [ca_attachment_id a, ca_conversation_id a, ca_turn_id a, ca_trace_id a] \<and>
     0 \<le> ca_ordinal a \<and> ca_ordinal a < max_attachments_per_manifest \<and> len_between 1 240 (ca_display_name a) \<and>
     validate_attachment_display_name (ca_display_name a) = None \<and> datetime_range (ca_committed_at a) \<and>
     sha256_pattern (ca_metadata_sha256 a)"

definition validate_commitment :: "(bytes \<Rightarrow> bytes) \<Rightarrow> committed_attachment \<Rightarrow> model_error option" where
  "validate_commitment sha a =
     (if ca_committed_at a < ai_inspected_at (ca_inspection a) then Some (Invalid_model ''committed_at must not precede inspected_at'')
      else check_digest (attachment_metadata_sha256 sha a) (ca_metadata_sha256 a) ''attachment metadata digest mismatch'')"

definition check_attachment :: "(bytes \<Rightarrow> bytes) \<Rightarrow> committed_attachment \<Rightarrow> model_error option" where
  "check_attachment sha a =
     (if check_inspection (ca_inspection a) \<noteq> None \<or> \<not> attachment_fields_valid a then Some Invalid_fields
      else validate_commitment sha a)"

section \<open>Manifests\<close>

record attachment_manifest =
  am_manifest_id :: string
  am_conversation_id :: string
  am_turn_id :: string
  am_trace_id :: string
  am_principal :: agent_principal
  am_turn_content_sha256 :: string
  am_attachment_count :: int
  am_total_bytes :: int
  am_attachments :: "committed_attachment list"
  am_committed_at :: int
  am_manifest_sha256 :: string

definition manifest_head_frames :: "attachment_manifest \<Rightarrow> frame list" where
  "manifest_head_frames m =
     map Frame_text [am_manifest_id m, am_conversation_id m, am_turn_id m, am_trace_id m, ap_agent_id (am_principal m),
       ap_instance_id (am_principal m), ap_key_id (am_principal m), ap_verification_id (am_principal m), am_turn_content_sha256 m,
       iso_utc (am_committed_at m)] @ [Frame_int (int (length (am_attachments m)))]"

definition attachment_manifest_sha256 :: "(bytes \<Rightarrow> bytes) \<Rightarrow> attachment_manifest \<Rightarrow> model_error + string" where
  "attachment_manifest_sha256 sha m = framed_digest sha ''systeme-local:attachment-manifest:v1''
     (manifest_head_frames m @ map (Frame_text \<circ> ca_metadata_sha256) (am_attachments m))"

definition manifest_fields_valid :: "(bytes \<Rightarrow> bytes) \<Rightarrow> attachment_manifest \<Rightarrow> bool" where
  "manifest_fields_valid sha m \<longleftrightarrow> list_all id_pattern [am_manifest_id m, am_conversation_id m, am_turn_id m, am_trace_id m] \<and>
     agent_principal_valid (am_principal m) \<and> sha256_pattern (am_turn_content_sha256 m) \<and>
     int_between 1 max_attachments_per_manifest (am_attachment_count m) \<and>
     int_between 1 (max_attachments_per_manifest * max_inspection_bytes) (am_total_bytes m) \<and>
     int_between 1 max_attachments_per_manifest (int (length (am_attachments m))) \<and>
     list_all (\<lambda>a. check_attachment sha a = None) (am_attachments m) \<and> datetime_range (am_committed_at m) \<and>
     sha256_pattern (am_manifest_sha256 m)"

fun check_items :: "attachment_manifest \<Rightarrow> committed_attachment list \<Rightarrow> model_error option" where
  "check_items m [] = None"
| "check_items m (a # items) =
     (if ca_conversation_id a \<noteq> am_conversation_id m then Some (Invalid_model ''attachment conversation binding mismatch'')
      else if ca_turn_id a \<noteq> am_turn_id m then Some (Invalid_model ''attachment turn binding mismatch'')
      else if ca_trace_id a \<noteq> am_trace_id m then Some (Invalid_model ''attachment trace binding mismatch'')
      else if am_committed_at m < ca_committed_at a then Some (Invalid_model ''manifest cannot precede an attachment commit'')
      else check_items m items)"

definition validate_manifest :: "(bytes \<Rightarrow> bytes) \<Rightarrow> attachment_manifest \<Rightarrow> model_error option" where
  "validate_manifest sha m =
     (let items = am_attachments m in
      if am_attachment_count m \<noteq> int (length items) then Some (Invalid_model ''attachment_count does not match attachments'')
      else if am_total_bytes m \<noteq> sum_list (map (ai_byte_size \<circ> ca_inspection) items)
        then Some (Invalid_model ''total_bytes does not match attachments'')
      else if map ca_ordinal items \<noteq> map int [0..<length items] then Some (Invalid_model ''attachment ordinals must be contiguous from zero'')
      else if \<not> distinct (map ca_attachment_id items) then Some (Invalid_model ''duplicate attachment_id in manifest'')
      else if \<not> distinct (map (ai_content_sha256 \<circ> ca_inspection) items)
        then Some (Invalid_model ''duplicate attachment content in manifest'')
      else case check_items m items of Some e \<Rightarrow> Some e
        | None \<Rightarrow> check_digest (attachment_manifest_sha256 sha m) (am_manifest_sha256 m) ''attachment manifest digest mismatch'')"

definition check_manifest :: "(bytes \<Rightarrow> bytes) \<Rightarrow> attachment_manifest \<Rightarrow> model_error option" where
  "check_manifest sha m = (if \<not> manifest_fields_valid sha m then Some Invalid_fields else validate_manifest sha m)"

section \<open>Capability profiles\<close>

record attachment_profile =
  fp_profile_id :: string
  fp_revision :: int
  fp_provider :: string
  fp_surface :: string
  fp_support :: capability_claim
  fp_supported_media_types :: "media_type list"
  fp_max_file_bytes :: int
  fp_max_batch_bytes :: int
  fp_max_manifest_bytes :: int
  fp_max_files_per_batch :: int
  fp_max_files_per_manifest :: int
  fp_max_batches_per_manifest :: int
  fp_max_image_width :: int
  fp_max_image_height :: int
  fp_max_image_pixels :: int
  fp_allows_mixed_media :: bool
  fp_quota_requirement :: quota_requirement
  fp_observed_at :: int
  fp_profile_sha256 :: string

definition attachment_capability_profile_sha256 :: "(bytes \<Rightarrow> bytes) \<Rightarrow> attachment_profile \<Rightarrow> model_error + string" where
  "attachment_capability_profile_sha256 sha p = framed_digest sha ''systeme-local:attachment-capability-profile:v1''
     (map Frame_text [fp_profile_id p, fp_provider p, fp_surface p, support_value (cl_state (fp_support p)),
        evidence_value (cl_evidence (fp_support p)), requirement_value (fp_quota_requirement p), iso_utc (fp_observed_at p)] @
      [Frame_int (fp_revision p), Frame_int (int (length (fp_supported_media_types p)))] @
      map (Frame_text \<circ> media_value) (fp_supported_media_types p) @
      map Frame_int [fp_max_file_bytes p, fp_max_batch_bytes p, fp_max_manifest_bytes p, fp_max_files_per_batch p,
        fp_max_files_per_manifest p, fp_max_batches_per_manifest p, fp_max_image_width p, fp_max_image_height p,
        fp_max_image_pixels p, if fp_allows_mixed_media p then 1 else 0])"

definition profile_fields_valid :: "attachment_profile \<Rightarrow> bool" where
  "profile_fields_valid p \<longleftrightarrow> id_pattern (fp_profile_id p) \<and> 1 \<le> fp_revision p \<and> provider_pattern (fp_provider p) \<and>
     provider_pattern (fp_surface p) \<and> is_ok (validate_evidence (fp_support p)) \<and> length (fp_supported_media_types p) \<le> 16 \<and>
     int_between 0 max_inspection_bytes (fp_max_file_bytes p) \<and>
     int_between 0 (max_attachments_per_manifest * max_inspection_bytes) (fp_max_batch_bytes p) \<and>
     int_between 0 (max_attachments_per_manifest * max_inspection_bytes) (fp_max_manifest_bytes p) \<and>
     int_between 0 max_attachments_per_manifest (fp_max_files_per_batch p) \<and>
     int_between 0 max_attachments_per_manifest (fp_max_files_per_manifest p) \<and>
     int_between 0 max_attachments_per_manifest (fp_max_batches_per_manifest p) \<and>
     int_between 0 1000000 (fp_max_image_width p) \<and> int_between 0 1000000 (fp_max_image_height p) \<and>
     int_between 0 1000000000000 (fp_max_image_pixels p) \<and> datetime_range (fp_observed_at p) \<and> sha256_pattern (fp_profile_sha256 p)"

definition positive_limits :: "attachment_profile \<Rightarrow> int list" where
  "positive_limits p = [fp_max_file_bytes p, fp_max_batch_bytes p, fp_max_manifest_bytes p, fp_max_files_per_batch p,
     fp_max_files_per_manifest p, fp_max_batches_per_manifest p]"

definition image_limits :: "attachment_profile \<Rightarrow> int list" where
  "image_limits p = [fp_max_image_width p, fp_max_image_height p, fp_max_image_pixels p]"

definition supports_images :: "attachment_profile \<Rightarrow> bool" where
  "supports_images p \<longleftrightarrow> list_ex (\<lambda>m. media_family m = Family_image) (fp_supported_media_types p)"

definition validate_limits :: "attachment_profile \<Rightarrow> model_error option" where
  "validate_limits p =
     (if cl_state (fp_support p) = Supported then
        if list_ex (\<lambda>n. n \<le> 0) (positive_limits p) then Some (Invalid_model ''supported attachment profiles require positive limits'')
        else if fp_supported_media_types p = [] then Some (Invalid_model ''supported attachment profiles require media types'')
        else if fp_max_batch_bytes p < fp_max_file_bytes p then Some (Invalid_model ''max_file_bytes cannot exceed max_batch_bytes'')
        else if fp_max_manifest_bytes p < fp_max_batch_bytes p then Some (Invalid_model ''max_batch_bytes cannot exceed max_manifest_bytes'')
        else if fp_max_files_per_manifest p < fp_max_files_per_batch p
          then Some (Invalid_model ''batch file limit cannot exceed manifest file limit'')
        else if supports_images p then
          if list_ex (\<lambda>n. n \<le> 0) (image_limits p) then Some (Invalid_model ''image support requires positive dimension limits'') else None
        else if list_ex (\<lambda>n. n \<noteq> 0) (image_limits p) then Some (Invalid_model ''profiles without image media must use zero image limits'')
        else None
      else if fp_supported_media_types p \<noteq> [] \<or> list_ex (\<lambda>n. n \<noteq> 0) (positive_limits p @ image_limits p) \<or>
          fp_allows_mixed_media p \<or> fp_quota_requirement p \<noteq> Requires_none
        then Some (Invalid_model ''non-supported profiles must not advertise limits'')
      else None)"

definition validate_capability_profile :: "(bytes \<Rightarrow> bytes) \<Rightarrow> attachment_profile \<Rightarrow> model_error option" where
  "validate_capability_profile sha p =
     (if \<not> distinct (fp_supported_media_types p) then Some (Invalid_model ''supported_media_types must be unique'')
      else case validate_limits p of Some e \<Rightarrow> Some e
        | None \<Rightarrow> check_digest (attachment_capability_profile_sha256 sha p) (fp_profile_sha256 p)
            ''attachment capability profile digest mismatch'')"

definition check_profile :: "(bytes \<Rightarrow> bytes) \<Rightarrow> attachment_profile \<Rightarrow> model_error option" where
  "check_profile sha p = (if \<not> profile_fields_valid p then Some Invalid_fields else validate_capability_profile sha p)"

text \<open>\<open>commit_attachment_capability_profile\<close> on a profile without digest.\<close>

definition commit_attachment_capability_profile ::
  "(bytes \<Rightarrow> bytes) \<Rightarrow> attachment_profile \<Rightarrow> datetime \<Rightarrow> model_error + attachment_profile" where
  "commit_attachment_capability_profile sha p observed =
     (if \<not> dt_aware observed then Inl (Invalid_model ''timestamps must include a timezone'')
      else let p' = p\<lparr>fp_observed_at := dt_instant observed\<rparr> in
        case attachment_capability_profile_sha256 sha p' of Inl e \<Rightarrow> Inl e
        | Inr d \<Rightarrow> let q = p'\<lparr>fp_profile_sha256 := d\<rparr> in (case check_profile sha q of Some e \<Rightarrow> Inl e | None \<Rightarrow> Inr q))"

definition attachment_quota_snapshot_sha256 :: "(bytes \<Rightarrow> bytes) \<Rightarrow> provider_quota_snapshot \<Rightarrow> model_error + string" where
  "attachment_quota_snapshot_sha256 sha q = framed_digest sha ''systeme-local:attachment-quota-snapshot:v1''
     (map Frame_text [''1'', qs_snapshot_id q, qs_account_id q, dimension_value (qs_dimension q), quota_state_value (qs_state q),
        evidence_value (qs_evidence q), unit_value (qs_unit q), iso_utc (qs_observed_at q),
        case qs_reset_at q of None \<Rightarrow> [] | Some r \<Rightarrow> iso_utc r] @
      map Frame_int [if qs_reset_at q \<noteq> None then 1 else 0, if qs_remaining_value q \<noteq> None then 1 else 0,
        case_option 0 id (qs_remaining_value q), if qs_limit_value q \<noteq> None then 1 else 0, case_option 0 id (qs_limit_value q)])"

section \<open>Plans\<close>

record attachment_batch =
  ab_batch_id :: string
  ab_batch_index :: int
  ab_attachment_ids :: "string list"
  ab_total_bytes :: int
  ab_media_families :: "media_family_kind list"

definition check_batch :: "attachment_batch \<Rightarrow> model_error option" where
  "check_batch b =
     (if \<not> (id_pattern (ab_batch_id b) \<and> 0 \<le> ab_batch_index b \<and> ab_batch_index b < max_attachments_per_manifest \<and>
          int_between 1 max_attachments_per_manifest (int (length (ab_attachment_ids b))) \<and> 1 \<le> ab_total_bytes b \<and>
          length (ab_media_families b) \<in> {1, 2}) then Some Invalid_fields
      else if \<not> distinct (ab_attachment_ids b) then Some (Invalid_model ''duplicate attachment_id in batch'')
      else if \<not> distinct (ab_media_families b) then Some (Invalid_model ''duplicate media family in batch'')
      else None)"

record attachment_plan =
  pl_plan_id :: string
  pl_account_id :: string
  pl_manifest_id :: string
  pl_manifest_sha256 :: string
  pl_provider :: string
  pl_surface :: string
  pl_capability_profile_id :: string
  pl_capability_profile_revision :: int
  pl_capability_profile_sha256 :: string
  pl_upload_quota_snapshot_id :: "string option"
  pl_upload_quota_observed_at :: "int option"
  pl_upload_quota_sha256 :: "string option"
  pl_ordered_attachment_ids :: "string list"
  pl_attachment_count :: int
  pl_total_bytes :: int
  pl_batches :: "attachment_batch list"
  pl_planned_at :: int
  pl_plan_sha256 :: string

definition batch_frames :: "attachment_batch \<Rightarrow> frame list" where
  "batch_frames b = [Frame_text (ab_batch_id b), Frame_int (ab_batch_index b), Frame_int (ab_total_bytes b)] @
     map Frame_text (ab_attachment_ids b) @ map (Frame_text \<circ> family_value) (ab_media_families b)"

definition plan_frames :: "attachment_plan \<Rightarrow> frame list" where
  "plan_frames p =
     map Frame_text [pl_plan_id p, pl_account_id p, pl_manifest_id p, pl_manifest_sha256 p, pl_provider p, pl_surface p,
       pl_capability_profile_id p, pl_capability_profile_sha256 p, case_option [] id (pl_upload_quota_snapshot_id p),
       case pl_upload_quota_observed_at p of None \<Rightarrow> [] | Some t \<Rightarrow> iso_utc t, case_option [] id (pl_upload_quota_sha256 p),
       iso_utc (pl_planned_at p)] @
     [Frame_int (pl_capability_profile_revision p), Frame_int (int (length (pl_ordered_attachment_ids p)))] @
     map Frame_text (pl_ordered_attachment_ids p) @ [Frame_int (int (length (pl_batches p)))] @ concat (map batch_frames (pl_batches p))"

definition attachment_plan_sha256 :: "(bytes \<Rightarrow> bytes) \<Rightarrow> attachment_plan \<Rightarrow> model_error + string" where
  "attachment_plan_sha256 sha p = framed_digest sha ''systeme-local:attachment-batch-plan:v1'' (plan_frames p)"

definition plan_fields_valid :: "attachment_plan \<Rightarrow> bool" where
  "plan_fields_valid p \<longleftrightarrow> list_all id_pattern [pl_plan_id p, pl_account_id p, pl_manifest_id p, pl_capability_profile_id p] \<and>
     sha256_pattern (pl_manifest_sha256 p) \<and> provider_pattern (pl_provider p) \<and> provider_pattern (pl_surface p) \<and>
     1 \<le> pl_capability_profile_revision p \<and> sha256_pattern (pl_capability_profile_sha256 p) \<and>
     optional id_pattern (pl_upload_quota_snapshot_id p) \<and> optional datetime_range (pl_upload_quota_observed_at p) \<and>
     optional sha256_pattern (pl_upload_quota_sha256 p) \<and>
     int_between 1 max_attachments_per_manifest (int (length (pl_ordered_attachment_ids p))) \<and>
     int_between 1 max_attachments_per_manifest (pl_attachment_count p) \<and> 1 \<le> pl_total_bytes p \<and>
     int_between 1 max_attachments_per_manifest (int (length (pl_batches p))) \<and> list_all (\<lambda>b. check_batch b = None) (pl_batches p) \<and>
     datetime_range (pl_planned_at p) \<and> sha256_pattern (pl_plan_sha256 p)"

definition validate_plan :: "(bytes \<Rightarrow> bytes) \<Rightarrow> attachment_plan \<Rightarrow> model_error option" where
  "validate_plan sha p =
     (let quota_missing = [pl_upload_quota_snapshot_id p = None, pl_upload_quota_observed_at p = None, pl_upload_quota_sha256 p = None];
          ids = pl_ordered_attachment_ids p; batches = pl_batches p in
      if True \<in> set quota_missing \<and> False \<in> set quota_missing
        then Some (Invalid_model ''upload quota id, observation time and digest must appear together'')
      else if pl_attachment_count p \<noteq> int (length ids) then Some (Invalid_model ''attachment_count does not match ordered_attachment_ids'')
      else if \<not> distinct ids then Some (Invalid_model ''ordered_attachment_ids must be unique'')
      else if map ab_batch_index batches \<noteq> map int [0..<length batches] then Some (Invalid_model ''batch indices must be contiguous from zero'')
      else if concat (map ab_attachment_ids batches) \<noteq> ids then Some (Invalid_model ''batches must preserve the full attachment order'')
      else if pl_total_bytes p \<noteq> sum_list (map ab_total_bytes batches) then Some (Invalid_model ''plan total_bytes does not match batches'')
      else check_digest (attachment_plan_sha256 sha p) (pl_plan_sha256 p) ''attachment plan digest mismatch'')"

definition check_plan :: "(bytes \<Rightarrow> bytes) \<Rightarrow> attachment_plan \<Rightarrow> model_error option" where
  "check_plan sha p = (if \<not> plan_fields_valid p then Some Invalid_fields else validate_plan sha p)"

section \<open>Receipts\<close>

record batch_receipt =
  br_receipt_id :: string
  br_plan_id :: string
  br_batch_id :: string
  br_batch_index :: int
  br_idempotency_key :: string
  br_status :: transfer_status
  br_accepted_attachment_ids :: "string list"
  br_provider_upload_ids :: "string list"
  br_acceptance_known :: bool
  br_retry_directive :: retry_directive
  br_error_code :: "string option"
  br_observed_at :: int
  br_receipt_sha256 :: string

definition attachment_receipt_sha256 :: "(bytes \<Rightarrow> bytes) \<Rightarrow> batch_receipt \<Rightarrow> model_error + string" where
  "attachment_receipt_sha256 sha r = framed_digest sha ''systeme-local:attachment-batch-receipt:v1''
     (map Frame_text [br_receipt_id r, br_plan_id r, br_batch_id r, br_idempotency_key r, transfer_value (br_status r),
        directive_value (br_retry_directive r), case_option [] id (br_error_code r), iso_utc (br_observed_at r)] @
      map Frame_int [br_batch_index r, if br_acceptance_known r then 1 else 0, int (length (br_accepted_attachment_ids r))] @
      concat (map2 (\<lambda>a u. [Frame_text a, Frame_text u]) (br_accepted_attachment_ids r) (br_provider_upload_ids r)))"

definition receipt_fields_valid :: "batch_receipt \<Rightarrow> bool" where
  "receipt_fields_valid r \<longleftrightarrow> list_all id_pattern [br_receipt_id r, br_plan_id r, br_batch_id r, br_idempotency_key r] \<and>
     0 \<le> br_batch_index r \<and> br_batch_index r < max_attachments_per_manifest \<and>
     int (length (br_accepted_attachment_ids r)) \<le> max_attachments_per_manifest \<and>
     int (length (br_provider_upload_ids r)) \<le> max_attachments_per_manifest \<and> optional error_code_pattern (br_error_code r) \<and>
     datetime_range (br_observed_at r) \<and> sha256_pattern (br_receipt_sha256 r)"

text \<open>What a status demands of acceptance, retry directive and error code.\<close>

definition validate_status :: "batch_receipt \<Rightarrow> model_error option" where
  "validate_status r =
     (let known = br_acceptance_known r; some = br_accepted_attachment_ids r \<noteq> []; retry = br_retry_directive r;
          missing_code = br_error_code r = None in
      case br_status r of
        Transfer_completed \<Rightarrow>
          if \<not> known \<or> \<not> missing_code then Some (Invalid_model ''completed receipts require known acceptance and no error'')
          else if retry \<noteq> Do_not_retry then Some (Invalid_model ''completed receipts cannot request retry'') else None
      | Transfer_ambiguous \<Rightarrow>
          if known \<or> some then Some (Invalid_model ''ambiguous receipts cannot assert accepted attachments'')
          else if retry \<noteq> Reconcile_required then Some (Invalid_model ''ambiguous receipts require reconciliation'')
          else if missing_code then Some (Invalid_model ''ambiguous receipts require an error code'') else None
      | Transfer_partial \<Rightarrow>
          if \<not> known \<or> \<not> some then Some (Invalid_model ''partial receipts require known non-empty acceptance'')
          else if retry \<noteq> Do_not_retry then Some (Invalid_model ''partial receipts cannot authorize blind retry'')
          else if missing_code then Some (Invalid_model ''partial receipts require an error code'') else None
      | Transfer_cancelled \<Rightarrow>
          if \<not> known \<or> some then Some (Invalid_model ''cancelled receipts require known zero acceptance'')
          else if retry \<noteq> Safe_retry then Some (Invalid_model ''cancelled receipts require safe_retry'')
          else if missing_code then Some (Invalid_model ''cancelled receipts require an error code'') else None
      | Transfer_rejected \<Rightarrow>
          if \<not> known \<or> some then Some (Invalid_model ''rejected receipts require known zero acceptance'')
          else if retry \<noteq> Do_not_retry then Some (Invalid_model ''rejected receipts cannot authorize retry'')
          else if missing_code then Some (Invalid_model ''rejected receipts require an error code'') else None)"

definition validate_receipt :: "(bytes \<Rightarrow> bytes) \<Rightarrow> batch_receipt \<Rightarrow> model_error option" where
  "validate_receipt sha r =
     (if length (br_accepted_attachment_ids r) \<noteq> length (br_provider_upload_ids r)
        then Some (Invalid_model ''accepted attachments require matching provider upload ids'')
      else if \<not> distinct (br_accepted_attachment_ids r) then Some (Invalid_model ''accepted attachment ids must be unique'')
      else if \<not> distinct (br_provider_upload_ids r) then Some (Invalid_model ''provider upload ids must be unique'')
      else case validate_status r of Some e \<Rightarrow> Some e
        | None \<Rightarrow> check_digest (attachment_receipt_sha256 sha r) (br_receipt_sha256 r) ''attachment receipt digest mismatch'')"

definition check_receipt :: "(bytes \<Rightarrow> bytes) \<Rightarrow> batch_receipt \<Rightarrow> model_error option" where
  "check_receipt sha r = (if \<not> receipt_fields_valid r then Some Invalid_fields else validate_receipt sha r)"

section \<open>A digest determines the fields\<close>

fun same_kind :: "frame \<Rightarrow> frame \<Rightarrow> bool" where
  "same_kind (Frame_text _) (Frame_text _) = True"
| "same_kind (Frame_int _) (Frame_int _) = True"
| "same_kind _ _ = False"

lemma eight_bytes: "(256 :: nat) ^ 8 = nat frame_limit"
  by (simp add: frame_limit_def)

lemma frame_bytes_inj:
  assumes "frame_bytes f = Inr a" "frame_bytes g = Inr b" "a @ x = b @ y" "same_kind f g"
  shows "f = g \<and> x = y"
proof (cases f)
  case (Frame_text v)
  then obtain w where g: "g = Frame_text w" using assms(4) by (cases g) auto
  have small: "length (utf8 v) < 256 ^ 8" "length (utf8 w) < 256 ^ 8"
    and ab: "a = be_bytes 8 (length (utf8 v)) @ utf8 v" "b = be_bytes 8 (length (utf8 w)) @ utf8 w"
    using assms(1,2) Frame_text g unfolding eight_bytes by (auto simp: Let_def split: if_splits)
  then have "length (utf8 v) = length (utf8 w)" using assms(3) by (intro be_bytes_inj [OF small]) (simp add: append_eq_append_conv)
  then show ?thesis using assms(3) ab Frame_text g by (simp add: append_eq_append_conv)
next
  case (Frame_int m)
  then obtain n where g: "g = Frame_int n" using assms(4) by (cases g) auto
  have mn: "0 \<le> m" "0 \<le> n" "nat m < 256 ^ 8" "nat n < 256 ^ 8" and ab: "a = be_bytes 8 (nat m)" "b = be_bytes 8 (nat n)"
    using assms(1,2) Frame_int g unfolding eight_bytes by (auto simp: nat_less_eq_zless split: if_splits)
  then have "nat m = nat n" using assms(3) by (intro be_bytes_inj [OF mn(3,4)]) (simp add: append_eq_append_conv)
  then show ?thesis using assms(3) ab mn Frame_int g by (auto simp: append_eq_append_conv)
qed

lemma frames_inj:
  assumes "frames_bytes fs = Inr a" "frames_bytes gs = Inr b" "a @ x = b @ y" "list_all2 same_kind fs gs"
  shows "fs = gs \<and> x = y"
  using assms(4,1-3)
proof (induction fs gs arbitrary: a b rule: list_all2_induct)
  case (Cons f fs g gs)
  from Cons.prems obtain a1 a2 b1 b2 where s: "frame_bytes f = Inr a1" "frames_bytes fs = Inr a2" "a = a1 @ a2"
      "frame_bytes g = Inr b1" "frames_bytes gs = Inr b2" "b = b1 @ b2"
    by (auto split: sum.splits)
  have "f = g \<and> a2 @ x = b2 @ y" using frame_bytes_inj [OF s(1,4) _ Cons.hyps(1)] Cons.prems(3) s(3,6) by simp
  then show ?case using Cons.IH [OF s(2,5)] by simp
qed simp

lemma frames_bytes_eq:
  "frames_bytes fs = Inr a \<Longrightarrow> frames_bytes gs = Inr a \<Longrightarrow> list_all2 same_kind fs gs \<Longrightarrow> fs = gs"
  using frames_inj [of fs a gs a "[]" "[]"] by simp

lemma framed_append:
  "frames_bytes (fs @ gs) = Inr c \<longleftrightarrow> (\<exists>a b. frames_bytes fs = Inr a \<and> frames_bytes gs = Inr b \<and> c = a @ b)"
proof (induction fs arbitrary: c)
  case (Cons f fs)
  show ?case
  proof (cases "frame_bytes f")
    case (Inr b)
    have "frames_bytes ((f # fs) @ gs) = Inr c \<longleftrightarrow> (\<exists>c'. frames_bytes (fs @ gs) = Inr c' \<and> c = b @ c')"
      using Inr by (auto split: sum.splits)
    also have "\<dots> \<longleftrightarrow> (\<exists>a a'. frames_bytes fs = Inr a \<and> frames_bytes gs = Inr a' \<and> c = b @ a @ a')"
      using Cons.IH by auto
    also have "\<dots> \<longleftrightarrow> (\<exists>a a'. frames_bytes (f # fs) = Inr a \<and> frames_bytes gs = Inr a' \<and> c = a @ a')"
      using Inr by (auto split: sum.splits)
    finally show ?thesis .
  qed simp
qed simp

lemma same_kind_refl [simp]: "same_kind f f"
  by (cases f) simp_all

lemma same_kind_map: "length xs = length ys \<Longrightarrow> list_all2 same_kind (map Frame_text xs) (map Frame_text ys)"
  by (simp add: list_all2_conv_all_nth)

text \<open>The bytes a digest is taken of, and two different messages with one digest.\<close>

definition message_of :: "string \<Rightarrow> frame list \<Rightarrow> bytes" where
  "message_of domain fs = domain @ [CHR 0x00] @ (case frames_bytes fs of Inl _ \<Rightarrow> [] | Inr b \<Rightarrow> b)"

definition clash :: "(bytes \<Rightarrow> bytes) \<Rightarrow> bytes \<Rightarrow> bytes \<Rightarrow> bool" where
  "clash sha x y \<longleftrightarrow> x \<noteq> y \<and> sha x = sha y"

lemma check_digest_None: "check_digest r d message = None \<longleftrightarrow> r = Inr d"
  by (auto simp: check_digest_def split: sum.splits)

lemma framed_digest_Inr:
  "framed_digest sha domain fs = Inr d \<longleftrightarrow> (\<exists>b. frames_bytes fs = Inr b) \<and> d = hexlify (sha (message_of domain fs))"
  by (auto simp: framed_digest_def message_of_def split: sum.splits)

lemma framed_digest_eq:
  assumes "framed_digest sha domain fs = Inr d" "framed_digest sha domain gs = Inr d"
    and "\<not> clash sha (message_of domain fs) (message_of domain gs)"
  shows "frames_bytes fs = frames_bytes gs"
proof -
  from assms(1,2) have "sha (message_of domain fs) = sha (message_of domain gs)" by (auto simp: framed_digest_Inr)
  with assms(3) have "message_of domain fs = message_of domain gs" by (simp add: clash_def)
  then show ?thesis using assms(1,2) by (auto simp: message_of_def framed_digest_Inr)
qed

lemma value_inj [simp]:
  "role_value r = role_value r' \<longleftrightarrow> r = r'"
  "source_value s = source_value s' \<longleftrightarrow> s = s'"
  "media_value m = media_value m' \<longleftrightarrow> m = m'"
  "family_value f = family_value f' \<longleftrightarrow> f = f'"
  by (cases r; cases r'; simp; fail | cases s; cases s'; simp; fail | cases m; cases m'; simp; fail | cases f; cases f'; simp; fail)+

lemma dimension_eq:
  "optional (int_between 1 n) v \<Longrightarrow> optional (int_between 1 n) w \<Longrightarrow> case_option 0 id v = case_option 0 id w \<Longrightarrow> v = w"
  by (cases v; cases w) (auto simp: optional_def int_between_def)

abbreviation attachment_message :: "committed_attachment \<Rightarrow> bytes" where
  "attachment_message a \<equiv> message_of ''systeme-local:committed-attachment:v1'' (metadata_frames a)"

lemma check_attachmentD:
  assumes "check_attachment sha a = None"
  shows "inspection_fields_valid (ca_inspection a)" "validate_dimensions (ca_inspection a) = None" "attachment_fields_valid a"
    "ai_inspected_at (ca_inspection a) \<le> ca_committed_at a" "attachment_metadata_sha256 sha a = Inr (ca_metadata_sha256 a)"
  using assms by (auto simp: check_attachment_def check_inspection_def validate_commitment_def check_digest_None split: if_splits)

lemma same_inspection:
  assumes "inspection_fields_valid i" "inspection_fields_valid j"
    and "ai_media_type i = ai_media_type j" "ai_content_sha256 i = ai_content_sha256 j" "ai_byte_size i = ai_byte_size j"
    and "iso_utc (ai_inspected_at i) = iso_utc (ai_inspected_at j)"
    and "case_option 0 id (ai_image_width i) = case_option 0 id (ai_image_width j)"
    and "case_option 0 id (ai_image_height i) = case_option 0 id (ai_image_height j)"
  shows "i = j"
proof -
  have "ai_inspected_at i = ai_inspected_at j" using assms(1,2,6) by (simp add: inspection_fields_valid_def iso_utc_mono)
  moreover have "ai_image_width i = ai_image_width j" "ai_image_height i = ai_image_height j"
    using assms(1,2,7,8) by (auto simp: inspection_fields_valid_def intro: dimension_eq)
  ultimately show ?thesis using assms(3-5) by simp
qed

lemma attachment_digest_binds:
  assumes a: "check_attachment sha a = None" and b: "check_attachment sha b = None" and d: "ca_metadata_sha256 a = ca_metadata_sha256 b"
    and c: "\<not> clash sha (attachment_message a) (attachment_message b)"
  shows "a = b"
proof -
  have "frames_bytes (metadata_frames a) = frames_bytes (metadata_frames b)"
    using check_attachmentD(5) [OF a] check_attachmentD(5) [OF b] d c
    by (intro framed_digest_eq) (auto simp: attachment_metadata_sha256_def)
  moreover obtain m where "frames_bytes (metadata_frames a) = Inr m"
    using check_attachmentD(5) [OF a] by (auto simp: attachment_metadata_sha256_def framed_digest_Inr)
  moreover have "list_all2 same_kind (metadata_frames a) (metadata_frames b)" by (simp add: metadata_frames_def)
  ultimately have f: "metadata_frames a = metadata_frames b" by (metis frames_bytes_eq)
  then have "ca_inspection a = ca_inspection b"
    using check_attachmentD(1) [OF a] check_attachmentD(1) [OF b] by (intro same_inspection) (simp_all add: metadata_frames_def)
  moreover have "ca_committed_at a = ca_committed_at b"
    using f check_attachmentD(3) [OF a] check_attachmentD(3) [OF b] by (simp add: metadata_frames_def attachment_fields_valid_def iso_utc_mono)
  ultimately show ?thesis using f d by (simp add: metadata_frames_def)
qed

definition manifest_frames :: "attachment_manifest \<Rightarrow> frame list" where
  "manifest_frames m = manifest_head_frames m @ map (Frame_text \<circ> ca_metadata_sha256) (am_attachments m)"

abbreviation manifest_message :: "attachment_manifest \<Rightarrow> bytes" where
  "manifest_message m \<equiv> message_of ''systeme-local:attachment-manifest:v1'' (manifest_frames m)"

lemma check_items_None:
  "check_items m items = None \<longleftrightarrow> (\<forall>a \<in> set items. ca_conversation_id a = am_conversation_id m \<and> ca_turn_id a = am_turn_id m \<and>
     ca_trace_id a = am_trace_id m \<and> ca_committed_at a \<le> am_committed_at m)"
  by (induction items) auto

lemma check_manifest_None:
  "check_manifest sha m = None \<longleftrightarrow> manifest_fields_valid sha m \<and>
     am_attachment_count m = int (length (am_attachments m)) \<and>
     am_total_bytes m = sum_list (map (ai_byte_size \<circ> ca_inspection) (am_attachments m)) \<and>
     map ca_ordinal (am_attachments m) = map int [0..<length (am_attachments m)] \<and>
     distinct (map ca_attachment_id (am_attachments m)) \<and> distinct (map (ai_content_sha256 \<circ> ca_inspection) (am_attachments m)) \<and>
     check_items m (am_attachments m) = None \<and> attachment_manifest_sha256 sha m = Inr (am_manifest_sha256 m)"
  by (auto simp: check_manifest_def validate_manifest_def Let_def check_digest_None split: option.splits)

lemma manifest_frames_eq:
  assumes "frames_bytes (manifest_frames m) = Inr b" "frames_bytes (manifest_frames n) = Inr b"
  shows "manifest_head_frames m = manifest_head_frames n \<and> map ca_metadata_sha256 (am_attachments m) = map ca_metadata_sha256 (am_attachments n)"
proof -
  let ?t = "\<lambda>m. map (Frame_text \<circ> ca_metadata_sha256) (am_attachments m)"
  from assms obtain h t h' t' where s: "frames_bytes (manifest_head_frames m) = Inr h" "frames_bytes (?t m) = Inr t"
      "frames_bytes (manifest_head_frames n) = Inr h'" "frames_bytes (?t n) = Inr t'" "h @ t = h' @ t'"
    by (auto simp: manifest_frames_def framed_append)
  have "list_all2 same_kind (manifest_head_frames m) (manifest_head_frames n)" by (simp add: manifest_head_frames_def)
  from frames_inj [OF s(1,3,5) this] have e: "manifest_head_frames m = manifest_head_frames n" "t = t'" by auto
  from e(1) have "length (am_attachments m) = length (am_attachments n)" by (simp add: manifest_head_frames_def)
  then have "list_all2 same_kind (?t m) (?t n)" by (simp add: list_all2_conv_all_nth)
  from frames_bytes_eq [OF s(2) _ this] s(4) e have "?t m = ?t n" by simp
  then have "map Frame_text (map ca_metadata_sha256 (am_attachments m)) = map Frame_text (map ca_metadata_sha256 (am_attachments n))"
    by simp
  then have "map ca_metadata_sha256 (am_attachments m) = map ca_metadata_sha256 (am_attachments n)"
    by (rule map_injective) (simp add: inj_def)
  with e show ?thesis by simp
qed

lemma attachments_bound:
  assumes "map ca_metadata_sha256 as = map ca_metadata_sha256 bs"
    and "list_all (\<lambda>a. check_attachment sha a = None) as" "list_all (\<lambda>a. check_attachment sha a = None) bs"
    and "\<forall>(a, b) \<in> set (zip as bs). \<not> clash sha (attachment_message a) (attachment_message b)"
  shows "as = bs"
proof (rule nth_equalityI)
  show len: "length as = length bs" using assms(1) by (rule map_eq_imp_length_eq)
  fix i assume i: "i < length as"
  then have "(as ! i, bs ! i) \<in> set (zip as bs)" using len by (auto simp: set_zip)
  then have "\<not> clash sha (attachment_message (as ! i)) (attachment_message (bs ! i))" using assms(4) by blast
  moreover have "ca_metadata_sha256 (as ! i) = ca_metadata_sha256 (bs ! i)" using assms(1) i len by (metis nth_map)
  ultimately show "as ! i = bs ! i" using attachment_digest_binds [of sha "as ! i" "bs ! i"] assms(2,3) i len by (simp add: list_all_length)
qed

text \<open>C26. The digest of a manifest binds it: two valid manifests that carry the same digest are the same manifest,
  attachments with their names, sizes and content digests included, unless SHA-256 gives one digest to the two different messages
  of the manifests or of two attachments at the same place.\<close>

theorem manifest_digest_binds:
  assumes m: "check_manifest sha m = None" and n: "check_manifest sha n = None"
    and d: "am_manifest_sha256 m = am_manifest_sha256 n"
    and c: "\<not> clash sha (manifest_message m) (manifest_message n)"
      "\<forall>(a, b) \<in> set (zip (am_attachments m) (am_attachments n)). \<not> clash sha (attachment_message a) (attachment_message b)"
  shows "m = n"
proof -
  have f: "framed_digest sha ''systeme-local:attachment-manifest:v1'' (manifest_frames k) = Inr (am_manifest_sha256 k)"
    if "check_manifest sha k = None" for k
    using that by (simp add: check_manifest_None attachment_manifest_sha256_def manifest_frames_def)
  have eq: "frames_bytes (manifest_frames m) = frames_bytes (manifest_frames n)"
    using f [OF m] f [OF n] d c(1) by (intro framed_digest_eq) auto
  obtain b where b: "frames_bytes (manifest_frames m) = Inr b" using f [OF m] by (auto simp: framed_digest_Inr)
  from manifest_frames_eq [OF b] b eq have e: "manifest_head_frames m = manifest_head_frames n"
      "map ca_metadata_sha256 (am_attachments m) = map ca_metadata_sha256 (am_attachments n)" by (simp_all only:)
  have as: "am_attachments m = am_attachments n"
    using attachments_bound [OF e(2) _ _ c(2)] m n by (simp add: check_manifest_None manifest_fields_valid_def)
  moreover have "datetime_range (am_committed_at m)" "datetime_range (am_committed_at n)"
    using m n by (simp_all add: check_manifest_None manifest_fields_valid_def)
  then have "am_committed_at m = am_committed_at n"
    using e(1) by (simp add: manifest_head_frames_def iso_utc_mono(2))
  moreover have "am_attachment_count m = am_attachment_count n" "am_total_bytes m = am_total_bytes n"
    using m n as by (simp_all add: check_manifest_None)
  ultimately show ?thesis using e(1) d by (simp add: manifest_head_frames_def)
qed

text \<open>A manifest of one text attachment, with a digest function that gives one digest to everything.\<close>

definition ex_att_sha :: "bytes \<Rightarrow> bytes" where
  "ex_att_sha b = replicate 32 (CHR ''a'')"

definition ex_digest :: string where
  "ex_digest = hexlify (replicate 32 (CHR ''a''))"

definition ex_inspection :: attachment_inspection where
  "ex_inspection = \<lparr>ai_media_type = Media_text, ai_content_sha256 = ex_digest, ai_byte_size = 5, ai_image_width = None,
     ai_image_height = None, ai_inspected_at = 1700000000000000\<rparr>"

definition ex_attachment :: committed_attachment where
  "ex_attachment = \<lparr>ca_attachment_id = ''att_one'', ca_conversation_id = ''conv_one'', ca_turn_id = ''turn_one'',
     ca_trace_id = ''trace_one'', ca_ordinal = 0, ca_display_name = ''notes.txt'', ca_role = Role_reference,
     ca_source = Source_operator_selected, ca_inspection = ex_inspection, ca_committed_at = 1700000001000000,
     ca_metadata_sha256 = ex_digest\<rparr>"

definition ex_att_principal :: agent_principal where
  "ex_att_principal = \<lparr>ap_agent_id = ''agent'', ap_instance_id = ''instance'', ap_key_id = ''key_one'', ap_verification_id = ''ver_one''\<rparr>"

definition ex_manifest :: attachment_manifest where
  "ex_manifest = \<lparr>am_manifest_id = ''man_one'', am_conversation_id = ''conv_one'', am_turn_id = ''turn_one'',
     am_trace_id = ''trace_one'', am_principal = ex_att_principal, am_turn_content_sha256 = ex_digest, am_attachment_count = 1,
     am_total_bytes = 5, am_attachments = [ex_attachment], am_committed_at = 1700000002000000, am_manifest_sha256 = ex_digest\<rparr>"

lemma length_utf8: "length (utf8 v) \<le> 3 * length v"
proof (induction v)
  case (Cons c v)
  have "length (utf8_char c) \<le> 3" by (simp add: utf8_char_def Let_def)
  then show ?case using Cons by (simp add: utf8_def)
qed (simp add: utf8_def)

fun small_frame :: "frame \<Rightarrow> bool" where
  "small_frame (Frame_text v) \<longleftrightarrow> length v < 1000"
| "small_frame (Frame_int n) \<longleftrightarrow> 0 \<le> n \<and> n < 1000000"

lemma small_frames: "list_all small_frame fs \<Longrightarrow> \<exists>b. frames_bytes fs = Inr b"
proof (induction fs)
  case (Cons f fs)
  moreover have "\<exists>b. frame_bytes f = Inr b" if "small_frame f"
    using that
  proof (cases f)
    case (Frame_text v)
    then show ?thesis using that length_utf8 [of v] by (simp add: Let_def frame_limit_def)
  qed (simp add: frame_limit_def)
  ultimately show ?case by auto
qed simp

lemma ex_framed_digest: "list_all small_frame fs \<Longrightarrow> framed_digest ex_att_sha domain fs = Inr ex_digest"
  using small_frames by (auto simp: framed_digest_Inr ex_att_sha_def ex_digest_def)

lemma ex_patterns:
  "sha256_pattern ex_digest" "list_all id_pattern [''att_one'', ''conv_one'', ''turn_one'', ''trace_one'', ''man_one'', ''agent'', ''instance'',
     ''key_one'', ''ver_one'']"
  by code_simp+

lemma ex_times: "length (iso_utc 1700000000000000) = 25" "length (iso_utc 1700000001000000) = 25" "length (iso_utc 1700000002000000) = 25"
  by code_simp+

lemma ex_lengths: "length ex_digest = 64" "validate_attachment_display_name ''notes.txt'' = None"
  by code_simp+

lemmas ex_limits = int_between_def max_inspection_bytes_def max_attachments_per_manifest_def datetime_range_def

lemma ex_attachment_valid: "check_attachment ex_att_sha ex_attachment = None"
proof -
  have "attachment_metadata_sha256 ex_att_sha ex_attachment = Inr ex_digest"
    unfolding attachment_metadata_sha256_def by (rule ex_framed_digest) (simp add: metadata_frames_def ex_attachment_def ex_inspection_def ex_times ex_lengths)
  moreover have "check_inspection ex_inspection = None"
    by (simp add: check_inspection_def inspection_fields_valid_def validate_dimensions_def media_family_def ex_inspection_def ex_patterns
        optional_def ex_limits)
  moreover have "attachment_fields_valid ex_attachment"
    using ex_patterns by (simp add: attachment_fields_valid_def ex_attachment_def ex_lengths len_between_def ex_limits)
  ultimately show ?thesis
    by (simp add: check_attachment_def validate_commitment_def check_digest_def) (simp add: ex_attachment_def ex_inspection_def)
qed

lemma ex_manifest_valid: "check_manifest ex_att_sha ex_manifest = None"
proof -
  have "attachment_manifest_sha256 ex_att_sha ex_manifest = Inr (am_manifest_sha256 ex_manifest)"
    unfolding attachment_manifest_sha256_def
    by (subst ex_framed_digest) (simp_all add: manifest_head_frames_def ex_manifest_def ex_attachment_def ex_att_principal_def ex_times ex_lengths)
  moreover have "manifest_fields_valid ex_att_sha ex_manifest"
    using ex_patterns by (simp add: manifest_fields_valid_def ex_manifest_def ex_attachment_valid agent_principal_valid_def ex_att_principal_def ex_limits)
  ultimately show ?thesis
    by (simp add: check_manifest_None check_items_None) (simp add: ex_manifest_def ex_attachment_def ex_inspection_def)
qed

theorem manifest_digest_binds_witness:
  "check_manifest ex_att_sha ex_manifest = None \<and> ex_manifest = ex_manifest"
proof -
  have "\<not> clash ex_att_sha (manifest_message ex_manifest) (manifest_message ex_manifest)"
    "\<forall>(a, b) \<in> set (zip (am_attachments ex_manifest) (am_attachments ex_manifest)).
       \<not> clash ex_att_sha (attachment_message a) (attachment_message b)"
    by (auto simp: clash_def ex_manifest_def)
  from manifest_digest_binds [OF ex_manifest_valid ex_manifest_valid refl this] show ?thesis by (simp add: ex_manifest_valid)
qed

end
