(* ===== verification/Attachment_Content.thy ===== *)
theory Attachment_Content
  imports Attachment_Models "HOL-Library.Word"
begin

text \<open>
  providers/attachment_commit.py, the inspection of attachment bytes: PNG chunks with their CRC-32, JPEG segments, the
  header and the tail of a PDF, strict UTF-8 text and strict JSON. A loop over the offset into the content is a
  recursion over the bytes from that offset on.
\<close>

unbundle bit_operations_syntax

section \<open>Reasons\<close>

datatype inspection_reason = Empty_content | Content_too_large | Invalid_png | Invalid_jpeg | Invalid_pdf | Invalid_utf8 | Nul_byte | Invalid_json

type_synonym inspection_error = "inspection_reason \<times> string"

definition be_value :: "bytes \<Rightarrow> int" where
  "be_value bs = foldl (\<lambda>n b. n * 256 + of_char b) 0 bs"

section \<open>PNG\<close>

text \<open>\<open>zlib.crc32\<close>: the reflected polynomial, bit by bit.\<close>

definition crc_step :: "32 word \<Rightarrow> 32 word" where
  "crc_step w = (if bit w 0 then drop_bit 1 w XOR 0xEDB88320 else drop_bit 1 w)"

definition crc_byte :: "32 word \<Rightarrow> char \<Rightarrow> 32 word" where
  "crc_byte w b = (crc_step ^^ 8) (w XOR of_nat (of_char b))"

definition crc32 :: "bytes \<Rightarrow> 32 word \<Rightarrow> 32 word" where
  "crc32 bs w = NOT (foldl crc_byte (NOT w) bs)"

definition png_signature :: bytes where
  "png_signature = [CHR 0x89, CHR ''P'', CHR ''N'', CHR ''G'', CHR 0x0D, CHR 0x0A, CHR 0x1A, CHR 0x0A]"

definition ascii_letter :: "char \<Rightarrow> bool" where
  "ascii_letter c \<longleftrightarrow> (let n = (of_char c :: nat) in 65 \<le> n \<and> n \<le> 90 \<or> 97 \<le> n \<and> n \<le> 122)"

definition png_error :: "string \<Rightarrow> inspection_error + 'a" where
  "png_error message = Inl (Invalid_png, message)"

fun valid_depths :: "nat \<Rightarrow> nat list" where
  "valid_depths t = (if t = 0 then [1, 2, 4, 8, 16] else if t \<in> {2, 4, 6} then [8, 16] else if t = 3 then [1, 2, 4, 8] else [])"

text \<open>The header of thirteen bytes: width, height, depth, colour type, compression, filter and interlace.\<close>

definition png_header :: "bytes \<Rightarrow> inspection_error + int \<times> int" where
  "png_header d =
     (let width = be_value (take 4 d); height = be_value (take 4 (drop 4 d)); bit_depth = of_char (d ! 8); color_type = of_char (d ! 9) in
      if width = 0 \<or> height = 0 \<or> bit_depth \<notin> set (valid_depths color_type) \<or> d ! 10 \<noteq> CHR 0x00 \<or> d ! 11 \<noteq> CHR 0x00 \<or>
          d ! 12 \<notin> {CHR 0x00, CHR 0x01}
        then png_error ''invalid PNG IHDR'' else Inr (width, height))"

definition png_first :: "nat \<Rightarrow> string \<Rightarrow> bytes \<Rightarrow> (int \<times> int) option \<Rightarrow> inspection_error + (int \<times> int) option" where
  "png_first chunk_index chunk_type d dims =
     (if chunk_index = 0 then
        if chunk_type \<noteq> ''IHDR'' \<or> length d \<noteq> 13 then png_error ''PNG must begin with a 13-byte IHDR chunk''
        else (case png_header d of Inl e \<Rightarrow> Inl e | Inr wh \<Rightarrow> Inr (Some wh))
      else if chunk_type = ''IHDR'' then png_error ''duplicate PNG IHDR''
      else Inr dims)"

function png_loop :: "bytes \<Rightarrow> nat \<Rightarrow> (int \<times> int) option \<Rightarrow> bool \<Rightarrow> inspection_error + int \<times> int" where
  "png_loop rest chunk_index dims saw_idat =
     (if rest = [] then png_error ''incomplete PNG structure''
      else if length rest < 12 then png_error ''truncated PNG chunk''
      else let len = be_value (take 4 rest); chunk_type = take 4 (drop 4 rest) in
        if \<not> list_all ascii_letter chunk_type then png_error ''invalid PNG chunk type''
        else if int (length rest) < 12 + len then png_error ''PNG chunk length overflow''
        else let d = take (nat len) (drop 8 rest); after = drop (8 + nat len) rest; rest' = drop 4 after in
          if be_value (take 4 after) \<noteq> uint (crc32 d (crc32 chunk_type 0)) then png_error ''PNG chunk CRC mismatch''
          else case png_first chunk_index chunk_type d dims of Inl e \<Rightarrow> Inl e
          | Inr dims' \<Rightarrow>
              let saw_idat' = (saw_idat \<or> chunk_type = ''IDAT'') in
              if chunk_type = ''IEND'' then
                if len \<noteq> 0 \<or> \<not> saw_idat' then png_error ''invalid PNG IEND''
                else if rest' \<noteq> [] then png_error ''trailing bytes after PNG IEND''
                else (case dims' of None \<Rightarrow> png_error ''incomplete PNG structure'' | Some wh \<Rightarrow> Inr wh)
              else png_loop rest' (chunk_index + 1) dims' saw_idat')"
  by pat_completeness auto
termination by (relation "measure (\<lambda>(rest, _). length rest)") auto

declare png_loop.simps [simp del]

definition inspect_png :: "bytes \<Rightarrow> inspection_error + int \<times> int" where
  "inspect_png content =
     (if length content < 8 + 12 \<or> take 8 content \<noteq> png_signature then png_error ''invalid PNG signature or length''
      else png_loop (drop 8 content) 0 None False)"

section \<open>JPEG\<close>

definition jpeg_sof_markers :: "char list" where
  "jpeg_sof_markers = [CHR 0xC0, CHR 0xC1, CHR 0xC2, CHR 0xC3, CHR 0xC5, CHR 0xC6, CHR 0xC7, CHR 0xC9, CHR 0xCA, CHR 0xCB, CHR 0xCD,
     CHR 0xCE, CHR 0xCF]"

definition jpeg_error :: "string \<Rightarrow> inspection_error + 'a" where
  "jpeg_error message = Inl (Invalid_jpeg, message)"

definition jpeg_frame :: "char \<Rightarrow> int \<Rightarrow> bytes \<Rightarrow> (int \<times> int) option \<Rightarrow> inspection_error + (int \<times> int) option" where
  "jpeg_frame marker segment_length payload dims =
     (if marker \<notin> set jpeg_sof_markers then Inr dims
      else if dims \<noteq> None then jpeg_error ''JPEG contains multiple SOF dimension markers''
      else if length payload < 6 then jpeg_error ''truncated JPEG SOF''
      else let height = be_value (take 2 (drop 1 payload)); width = be_value (take 2 (drop 3 payload)); comps = of_char (payload ! 5) in
        if (of_char (payload ! 0) :: nat) \<notin> {8, 12, 16} \<or> width = 0 \<or> height = 0 \<or> comps = (0 :: int) \<or> segment_length \<noteq> 8 + 3 * comps
          then jpeg_error ''invalid JPEG SOF'' else Inr (Some (width, height)))"

text \<open>The dimensions, the start-of-scan segment and the scan data, which end the inspection.\<close>

definition jpeg_finish :: "(int \<times> int) option \<Rightarrow> bytes option \<Rightarrow> inspection_error + int \<times> int" where
  "jpeg_finish dims scan =
     (case dims of None \<Rightarrow> jpeg_error ''JPEG has no bounded SOF dimensions''
      | Some wh \<Rightarrow> (case scan of None \<Rightarrow> jpeg_error ''JPEG has no start-of-scan segment''
        | Some bs \<Rightarrow> if length bs \<le> 2 then jpeg_error ''JPEG scan data is empty'' else Inr wh))"

function jpeg_loop :: "bytes \<Rightarrow> (int \<times> int) option \<Rightarrow> inspection_error + int \<times> int" where
  "jpeg_loop rest dims =
     (if length rest \<le> 2 then jpeg_finish dims None
      else if hd rest \<noteq> CHR 0xFF then jpeg_error ''invalid JPEG marker prefix''
      else case dropWhile (\<lambda>b. b = CHR 0xFF) rest of [] \<Rightarrow> jpeg_error ''truncated JPEG marker''
      | marker # after \<Rightarrow>
          if marker = CHR 0x00 then jpeg_error ''unexpected stuffed JPEG marker''
          else if 0xD0 \<le> (of_char marker :: nat) \<and> (of_char marker :: nat) < 0xD8 \<or> marker = CHR 0x01 then jpeg_loop after dims
          else if marker \<in> {CHR 0xD8, CHR 0xD9} then jpeg_error ''unexpected JPEG boundary marker''
          else if length after < 2 then jpeg_error ''truncated JPEG segment length''
          else let segment_length = be_value (take 2 after) in
            if segment_length < 2 then jpeg_error ''invalid JPEG segment length''
            else if int (length after) < segment_length then jpeg_error ''truncated JPEG segment''
            else let payload = drop 2 (take (nat segment_length) after); next_rest = drop (nat segment_length) after in
              case jpeg_frame marker segment_length payload dims of Inl e \<Rightarrow> Inl e
              | Inr dims' \<Rightarrow> if marker = CHR 0xDA then jpeg_finish dims' (Some next_rest) else jpeg_loop next_rest dims')"
  by pat_completeness auto
termination
proof (relation "measure (\<lambda>(rest, _). length rest)")
  have shorter: "length after < length rest" if "dropWhile P rest = m # after" for P rest m and after :: bytes
    using that length_dropWhile_le [of P rest] by (cases "dropWhile P rest") auto
  show "((after, dims), (rest, dims)) \<in> measure (\<lambda>(rest, _). length rest)"
    if "dropWhile (\<lambda>b. b = CHR 0xFF) rest = marker # after" for rest dims marker after
    using shorter [OF that] by simp
  show "((next_rest, dims'), (rest, dims)) \<in> measure (\<lambda>(rest, _). length rest)"
    if "dropWhile (\<lambda>b. b = CHR 0xFF) rest = marker # after" "next_rest = drop (nat n) after" for rest dims marker after next_rest dims' n
    using shorter [OF that(1)] that(2) by simp
qed auto

declare jpeg_loop.simps [simp del]

definition inspect_jpeg :: "bytes \<Rightarrow> inspection_error + int \<times> int" where
  "inspect_jpeg content =
     (if length content < 8 \<or> take 2 content \<noteq> [CHR 0xFF, CHR 0xD8] \<or> \<not> ends_with content [CHR 0xFF, CHR 0xD9]
        then jpeg_error ''invalid JPEG boundaries''
      else jpeg_loop (drop 2 content) None)"

section \<open>PDF\<close>

definition pdf_space :: "char \<Rightarrow> bool" where
  "pdf_space c \<longleftrightarrow> (let n = (of_char c :: nat) in n = 32 \<or> 9 \<le> n \<and> n \<le> 13)"

text \<open>\<open>%PDF-(?:1\.[0-7]|2\.0)(?:\r\n|\r|\n)\<close> at the start.\<close>

definition pdf_header :: "bytes \<Rightarrow> bool" where
  "pdf_header s \<longleftrightarrow> take 5 s = ''%PDF-'' \<and>
     (take 2 (drop 5 s) = ''1.'' \<and> (\<exists>d \<in> set ''01234567''. take 1 (drop 7 s) = [d]) \<or> take 3 (drop 5 s) = ''2.0'') \<and>
     (take 1 (drop 8 s) = [CHR 0x0D] \<or> take 1 (drop 8 s) = [CHR 0x0A])"

text \<open>\<open>startxref\s+[0-9]+\s+%%EOF\s*\Z\<close> at the start of what is left, and somewhere in the text.\<close>

definition pdf_eof_at :: "bytes \<Rightarrow> bool" where
  "pdf_eof_at s \<longleftrightarrow> take 9 s = ''startxref'' \<and>
     (let r = drop 9 s; n = dropWhile pdf_space r; t = dropWhile is_digit n; e = dropWhile pdf_space t in
      n \<noteq> r \<and> t \<noteq> n \<and> e \<noteq> t \<and> take 5 e = ''%%EOF'' \<and> list_all pdf_space (drop 5 e))"

fun search_at :: "('a list \<Rightarrow> bool) \<Rightarrow> 'a list \<Rightarrow> bool" where
  "search_at p [] = p []"
| "search_at p (c # cs) = (p (c # cs) \<or> search_at p cs)"

definition last_bytes :: "nat \<Rightarrow> bytes \<Rightarrow> bytes" where
  "last_bytes n s = drop (length s - n) s"

definition inspect_pdf :: "bytes \<Rightarrow> inspection_error option" where
  "inspect_pdf content =
     (if \<not> pdf_header content then Some (Invalid_pdf, ''invalid PDF header'')
      else if \<not> search_at pdf_eof_at (last_bytes 4096 content)
        then Some (Invalid_pdf, ''PDF tail lacks startxref and terminal EOF marker'')
      else None)"

section \<open>Text\<close>

definition byte_in :: "nat \<Rightarrow> nat \<Rightarrow> char \<Rightarrow> bool" where
  "byte_in lo hi c \<longleftrightarrow> lo \<le> of_char c \<and> of_char c \<le> hi"

definition low_bits :: "char \<Rightarrow> nat" where
  "low_bits c = of_char c - 0x80"

text \<open>The code points of strict UTF-8: shortest forms only, no surrogates, nothing above 10FFFF.\<close>

fun utf8_points :: "bytes \<Rightarrow> nat list option" where
  "utf8_points [] = Some []"
| "utf8_points (b # bs) =
     (let n = (of_char b :: nat) in
      if n < 0x80 then map_option ((#) n) (utf8_points bs)
      else if n < 0xC2 then None
      else if n < 0xE0 then (case bs of c1 # r \<Rightarrow>
          if byte_in 0x80 0xBF c1 then map_option ((#) ((n - 0xC0) * 0x40 + low_bits c1)) (utf8_points r) else None
        | _ \<Rightarrow> None)
      else if n < 0xF0 then (case bs of c1 # c2 # r \<Rightarrow>
          if byte_in (if n = 0xE0 then 0xA0 else 0x80) (if n = 0xED then 0x9F else 0xBF) c1 \<and> byte_in 0x80 0xBF c2
            then map_option ((#) ((n - 0xE0) * 0x1000 + low_bits c1 * 0x40 + low_bits c2)) (utf8_points r) else None
        | _ \<Rightarrow> None)
      else if n < 0xF5 then (case bs of c1 # c2 # c3 # r \<Rightarrow>
          if byte_in (if n = 0xF0 then 0x90 else 0x80) (if n = 0xF4 then 0x8F else 0xBF) c1 \<and> byte_in 0x80 0xBF c2 \<and> byte_in 0x80 0xBF c3
            then map_option ((#) ((n - 0xF0) * 0x40000 + low_bits c1 * 0x1000 + low_bits c2 * 0x40 + low_bits c3)) (utf8_points r)
          else None
        | _ \<Rightarrow> None)
      else None)"

definition inspect_text :: "bytes \<Rightarrow> inspection_error + nat list" where
  "inspect_text content =
     (if CHR 0x00 \<in> set content then Inl (Nul_byte, ''text attachments cannot contain NUL'')
      else case utf8_points content of None \<Rightarrow> Inl (Invalid_utf8, ''text attachment is not strict UTF-8'') | Some t \<Rightarrow> Inr t)"

section \<open>JSON\<close>

text \<open>The scanner of \<open>json.JSONDecoder\<close> on code points, with the two hooks: constants such as \<open>NaN\<close> and a key that
  occurs twice in an object are refused. Only acceptance and the rest of the text matter, so values are
  not built; keys are, because they are compared after their escapes are decoded.\<close>

definition json_space :: "nat \<Rightarrow> bool" where
  "json_space c \<longleftrightarrow> c \<in> {0x20, 0x09, 0x0A, 0x0D}"

abbreviation skip_space :: "nat list \<Rightarrow> nat list" where
  "skip_space s \<equiv> dropWhile json_space s"

definition digit_point :: "nat \<Rightarrow> bool" where
  "digit_point c \<longleftrightarrow> 0x30 \<le> c \<and> c \<le> 0x39"

definition hex_point :: "nat \<Rightarrow> nat option" where
  "hex_point c = (if digit_point c then Some (c - 0x30) else if 0x41 \<le> c \<and> c \<le> 0x46 then Some (c - 0x37)
     else if 0x61 \<le> c \<and> c \<le> 0x66 then Some (c - 0x57) else None)"

definition hex4_point :: "nat list \<Rightarrow> nat option" where
  "hex4_point s = (case s of a # b # c # d # _ \<Rightarrow>
       (case (hex_point a, hex_point b, hex_point c, hex_point d) of
          (Some w, Some x, Some y, Some z) \<Rightarrow> Some (((w * 16 + x) * 16 + y) * 16 + z) | _ \<Rightarrow> None)
     | _ \<Rightarrow> None)"

definition escape_point :: "nat \<Rightarrow> nat option" where
  "escape_point e = map_of [(0x22, 0x22), (0x5C, 0x5C), (0x2F, 0x2F), (0x62, 8), (0x66, 12), (0x6E, 10), (0x72, 13), (0x74, 9)] e"

text \<open>Behind the opening quote: the characters and what follows the closing quote. Two escaped surrogates are one character.\<close>

function scan_string :: "nat list \<Rightarrow> nat list \<Rightarrow> (nat list \<times> nat list) option" where
  "scan_string acc s =
     (case s of [] \<Rightarrow> None
      | c # cs \<Rightarrow>
          if c = 0x22 then Some (rev acc, cs)
          else if c < 0x20 then None
          else if c \<noteq> 0x5C then scan_string (c # acc) cs
          else case cs of [] \<Rightarrow> None
            | e # es \<Rightarrow>
                if e = 0x75 then
                  (case hex4_point es of None \<Rightarrow> None
                   | Some u \<Rightarrow>
                       let r = drop 4 es in
                       if 0xD800 \<le> u \<and> u \<le> 0xDBFF \<and> take 2 r = [0x5C, 0x75] then
                         (case hex4_point (drop 2 r) of None \<Rightarrow> None
                          | Some v \<Rightarrow> if 0xDC00 \<le> v \<and> v \<le> 0xDFFF
                              then scan_string ((0x10000 + (u - 0xD800) * 0x400 + (v - 0xDC00)) # acc) (drop 6 r)
                              else scan_string (u # acc) r)
                       else scan_string (u # acc) r)
                else (case escape_point e of None \<Rightarrow> None | Some x \<Rightarrow> scan_string (x # acc) es))"
  by pat_completeness auto
termination by (relation "measure (\<lambda>(acc, s). length s)") auto

declare scan_string.simps [simp del]

definition max_int_digits :: nat where
  "max_int_digits = 4300"

text \<open>The fraction and the exponent of a number, when they are there.\<close>

definition skip_fraction :: "nat list \<Rightarrow> nat list" where
  "skip_fraction s = (case s of p # d # r \<Rightarrow> if p = 0x2E \<and> digit_point d then dropWhile digit_point r else s | _ \<Rightarrow> s)"

definition skip_exponent :: "nat list \<Rightarrow> nat list" where
  "skip_exponent s = (case s of e # r \<Rightarrow>
       let r' = (case r of g # r1 \<Rightarrow> if g \<in> {0x2B, 0x2D} then r1 else r | [] \<Rightarrow> r) in
       if e \<in> {0x45, 0x65} \<and> r' \<noteq> [] \<and> digit_point (hd r') then dropWhile digit_point r' else s
     | [] \<Rightarrow> s)"

definition scan_number :: "nat list \<Rightarrow> nat list option" where
  "scan_number s =
     (let t = (if take 1 s = [0x2D] then drop 1 s else s);
          ds = (if take 1 t = [0x30] then [0x30] else takeWhile digit_point t);
          r = drop (length ds) t; r' = skip_exponent (skip_fraction r) in
      if ds = [] then None
      else if r' = r \<and> max_int_digits < length ds then None
      else Some r')"

definition points :: "string \<Rightarrow> nat list" where
  "points t = map of_char t"

fun scan_value :: "nat \<Rightarrow> nat list \<Rightarrow> nat list option"
and scan_members :: "nat \<Rightarrow> nat list list \<Rightarrow> nat list \<Rightarrow> nat list option"
and scan_elements :: "nat \<Rightarrow> nat list \<Rightarrow> nat list option" where
  "scan_value 0 s = None"
| "scan_value (Suc k) s =
     (case s of [] \<Rightarrow> None
      | c # cs \<Rightarrow>
          if c = 0x22 then map_option snd (scan_string [] cs)
          else if c = 0x7B then (if take 1 (skip_space cs) = [0x7D] then Some (drop 1 (skip_space cs)) else scan_members k [] (skip_space cs))
          else if c = 0x5B then (if take 1 (skip_space cs) = [0x5D] then Some (drop 1 (skip_space cs)) else scan_elements k (skip_space cs))
          else if take 4 s \<in> {points ''null'', points ''true''} then Some (drop 4 s)
          else if take 5 s = points ''false'' then Some (drop 5 s)
          else scan_number s)"
| "scan_members 0 seen s = None"
| "scan_members (Suc k) seen s =
     (if take 1 s \<noteq> [0x22] then None
      else case scan_string [] (drop 1 s) of None \<Rightarrow> None
      | Some (key, r) \<Rightarrow>
          let r1 = skip_space r in
          if take 1 r1 \<noteq> [0x3A] \<or> key \<in> set seen then None
          else case scan_value k (skip_space (drop 1 r1)) of None \<Rightarrow> None
            | Some r2 \<Rightarrow>
                let r3 = skip_space r2 in
                if take 1 r3 = [0x7D] then Some (drop 1 r3)
                else if take 1 r3 = [0x2C] then scan_members k (key # seen) (skip_space (drop 1 r3))
                else None)"
| "scan_elements 0 s = None"
| "scan_elements (Suc k) s =
     (case scan_value k s of None \<Rightarrow> None
      | Some r \<Rightarrow>
          let r1 = skip_space r in
          if take 1 r1 = [0x5D] then Some (drop 1 r1)
          else if take 1 r1 = [0x2C] then scan_elements k (skip_space (drop 1 r1))
          else None)"

text \<open>Every step of the scanner consumes a character before it goes on, so the length is fuel enough.\<close>

definition strict_json :: "nat list \<Rightarrow> bool" where
  "strict_json t = (case scan_value (2 * length t + 2) (skip_space t) of None \<Rightarrow> False | Some r \<Rightarrow> list_all json_space r)"

definition inspect_json :: "bytes \<Rightarrow> inspection_error option" where
  "inspect_json content =
     (if take 3 content = [CHR 0xEF, CHR 0xBB, CHR 0xBF] then Some (Invalid_json, ''JSON attachment cannot use UTF-8 BOM'')
      else case inspect_text content of Inl e \<Rightarrow> Some e
      | Inr t \<Rightarrow> if strict_json t then None else Some (Invalid_json, ''JSON attachment is not one strict complete value''))"

section \<open>Inspection\<close>

text \<open>The declared media type chooses the check; images give their dimensions.\<close>

definition no_dimensions :: "inspection_error option \<Rightarrow> inspection_error + (int \<times> int) option" where
  "no_dimensions r = (case r of Some e \<Rightarrow> Inl e | None \<Rightarrow> Inr None)"

definition image_dimensions :: "inspection_error + int \<times> int \<Rightarrow> inspection_error + (int \<times> int) option" where
  "image_dimensions r = map_sum id Some r"

fun inspect_content :: "media_type \<Rightarrow> bytes \<Rightarrow> inspection_error + (int \<times> int) option" where
  "inspect_content Media_png content = image_dimensions (inspect_png content)"
| "inspect_content Media_jpeg content = image_dimensions (inspect_jpeg content)"
| "inspect_content Media_pdf content = no_dimensions (inspect_pdf content)"
| "inspect_content Media_text content = no_dimensions (case inspect_text content of Inl e \<Rightarrow> Some e | Inr _ \<Rightarrow> None)"
| "inspect_content Media_json content = no_dimensions (inspect_json content)"

end
