(* ===== verification/Json_Scanner.thy ===== *)
theory Json_Scanner
  imports Attachment_Content
begin

text \<open>
  The fuel of the JSON scanner is enough: from twice the length of the text on, more fuel changes nothing.
\<close>

lemma skip_space_length: "length (skip_space s) \<le> length s"
  by (rule length_dropWhile_le)

lemma scan_string_shorter: "scan_string acc s = Some (key, r) \<Longrightarrow> length r < length s"
proof (induction "length s" arbitrary: acc s rule: less_induct)
  case less
  have ih: "\<And>acc' s'. scan_string acc' s' = Some (key, r) \<Longrightarrow> length s' < length s \<Longrightarrow> length r \<le> length s'"
    using less.hyps less_imp_le_nat by blast
  from less.prems [unfolded scan_string.simps [of acc s]] ih show ?case
    by (auto split: list.splits if_splits option.splits simp: Let_def) (fastforce dest: less_imp_le_nat)+
qed

lemma skip_fraction_length: "length (skip_fraction s) \<le> length s"
  by (auto simp: skip_fraction_def split: list.splits intro: le_SucI le_trans [OF length_dropWhile_le])

lemma skip_exponent_length: "length (skip_exponent s) \<le> length s"
  by (auto simp: skip_exponent_def Let_def split: list.splits intro!: le_SucI le_trans [OF length_dropWhile_le])

lemma scan_number_shorter: "scan_number s = Some r \<Longrightarrow> length r < length s"
proof -
  assume a: "scan_number s = Some r"
  define t where "t = (if take 1 s = [0x2D] then drop 1 s else s)"
  define ds where "ds = (if take 1 t = [0x30] then [0x30] else takeWhile digit_point t)"
  have ds: "ds \<noteq> []" "r = skip_exponent (skip_fraction (drop (length ds) t))"
    using a unfolding scan_number_def Let_def t_def [symmetric] ds_def [symmetric] by (simp_all split: if_splits)
  have le: "length ds \<le> length t" by (cases t) (simp_all add: ds_def length_takeWhile_le)
  have "length r \<le> length (drop (length ds) t)"
    using skip_exponent_length [of "skip_fraction (drop (length ds) t)"] skip_fraction_length [of "drop (length ds) t"] ds(2) by simp
  moreover have "length (drop (length ds) t) < length t" using ds(1) le by (cases ds) auto
  moreover have "length t \<le> length s" by (simp add: t_def)
  ultimately show "length r < length s" by simp
qed

lemma scan_membersE:
  assumes "scan_members (Suc k) seen s = Some r"
  obtains key r1 r2 where "take 1 s = [0x22]" "scan_string [] (drop 1 s) = Some (key, r1)" "take 1 (skip_space r1) = [0x3A]"
    "key \<notin> set seen" "scan_value k (skip_space (drop 1 (skip_space r1))) = Some r2"
    "take 1 (skip_space r2) = [0x7D] \<and> r = drop 1 (skip_space r2) \<or>
     take 1 (skip_space r2) = [0x2C] \<and> scan_members k (key # seen) (skip_space (drop 1 (skip_space r2))) = Some r"
  using assms by (auto simp: Let_def split: if_splits option.splits)

lemma skip_drop_length [simp]: "length (skip_space (drop 1 (skip_space s))) \<le> length s"
  using skip_space_length [of "drop 1 (skip_space s)"] skip_space_length [of s] by simp

lemma scan_shorter:
  "(\<forall>s r. scan_value k s = Some r \<longrightarrow> length r < length s) \<and>
   (\<forall>seen s r. scan_members k seen s = Some r \<longrightarrow> length r < length s) \<and>
   (\<forall>s r. scan_elements k s = Some r \<longrightarrow> length r < length s)"
proof (induction k)
  case (Suc k)
  note ih = Suc.IH [THEN conjunct1, rule_format] Suc.IH [THEN conjunct2, THEN conjunct1, rule_format]
    Suc.IH [THEN conjunct2, THEN conjunct2, rule_format]
  have v: "length r < length s" if v: "scan_value (Suc k) s = Some r" for s r
  proof -
    obtain c cs where s: "s = c # cs" using v by (cases s) auto
    have le: "length (skip_space cs) \<le> length cs" by (rule skip_space_length)
    consider key where "scan_string [] cs = Some (key, r)" | "r = drop 1 (skip_space cs)" | "scan_members k [] (skip_space cs) = Some r"
      | "scan_elements k (skip_space cs) = Some r" | n where "r = drop (Suc n) s" | "scan_number s = Some r"
      using v by (simp add: s eval_nat_numeral split: if_splits) blast+
    then show ?thesis
    proof cases
      case 1
      then show ?thesis using scan_string_shorter [of "[]" cs] by (simp add: s less_Suc_eq)
    next
      case 3
      then show ?thesis using ih(2) [OF 3] le by (simp add: s)
    next
      case 4
      then show ?thesis using ih(3) [OF 4] le by (simp add: s)
    next
      case 6
      then show ?thesis by (rule scan_number_shorter)
    qed (use le in \<open>auto simp: s\<close>)
  qed
  moreover have "length r < length s" if "scan_members (Suc k) seen s = Some r" for seen s r
  proof -
    from that obtain key r1 r2 where m: "scan_string [] (drop 1 s) = Some (key, r1)"
        "scan_value k (skip_space (drop 1 (skip_space r1))) = Some r2"
        "r = drop 1 (skip_space r2) \<or> scan_members k (key # seen) (skip_space (drop 1 (skip_space r2))) = Some r"
      by (elim scan_membersE) auto
    have "length r1 < length s" using scan_string_shorter [OF m(1)] by simp
    moreover have "length r2 \<le> length r1" using ih(1) [OF m(2)] skip_drop_length [of r1] by simp
    moreover have "length r \<le> length r2" using m(3) ih(2) [of "key # seen" "skip_space (drop 1 (skip_space r2))" r] skip_drop_length [of r2]
      skip_space_length [of r2] by auto
    ultimately show ?thesis by simp
  qed
  moreover have "length r < length s" if "scan_elements (Suc k) s = Some r" for s r
  proof -
    from that obtain r1 where m: "scan_value k s = Some r1"
        "r = drop 1 (skip_space r1) \<or> scan_elements k (skip_space (drop 1 (skip_space r1))) = Some r"
      by (auto simp: Let_def split: if_splits option.splits)
    have "length r \<le> length r1" using m(2) ih(3) [of "skip_space (drop 1 (skip_space r1))" r] skip_drop_length [of r1]
      skip_space_length [of r1] by auto
    then show ?thesis using ih(1) [OF m(1)] by simp
  qed
  ultimately show ?case by blast
qed simp

lemmas scan_value_shorter = scan_shorter [THEN conjunct1, rule_format]

lemma scan_fuel:
  "(\<forall>s. 2 * length s + 1 \<le> k \<longrightarrow> scan_value (Suc k) s = scan_value k s) \<and>
   (\<forall>seen s. 2 * length s + 1 \<le> k \<longrightarrow> scan_members (Suc k) seen s = scan_members k seen s) \<and>
   (\<forall>s. 2 * length s + 2 \<le> k \<longrightarrow> scan_elements (Suc k) s = scan_elements k s)"
proof (induction k)
  case (Suc k)
  note ih = Suc.IH [THEN conjunct1, rule_format] Suc.IH [THEN conjunct2, THEN conjunct1, rule_format]
    Suc.IH [THEN conjunct2, THEN conjunct2, rule_format]
  have "scan_value (Suc (Suc k)) s = scan_value (Suc k) s" if "2 * length s + 1 \<le> Suc k" for s
  proof (cases s)
    case (Cons c cs)
    have "length (skip_space cs) \<le> length cs" by (rule skip_space_length)
    then have "scan_members (Suc k) [] (skip_space cs) = scan_members k [] (skip_space cs)"
      "scan_elements (Suc k) (skip_space cs) = scan_elements k (skip_space cs)"
      using that Cons by (intro ih; simp)+
    then show ?thesis unfolding Cons scan_value.simps(2) [of "Suc k"] scan_value.simps(2) [of k] by simp
  qed simp
  moreover have "scan_members (Suc (Suc k)) seen s = scan_members (Suc k) seen s" if "2 * length s + 1 \<le> Suc k" for seen s
  proof (cases "scan_string [] (drop 1 s)")
    case (Some p)
    obtain key r1 where p: "p = (key, r1)" by (cases p)
    have r1: "length r1 < length s" using scan_string_shorter [of "[]" "drop 1 s" key r1] Some p by simp
    let ?s = "skip_space (drop 1 (skip_space r1))"
    have v: "scan_value (Suc k) ?s = scan_value k ?s" using that r1 skip_drop_length [of r1] by (intro ih(1)) linarith
    have m: "scan_members (Suc k) (key # seen) (skip_space (drop 1 (skip_space r2))) =
        scan_members k (key # seen) (skip_space (drop 1 (skip_space r2)))" if "scan_value k ?s = Some r2" for r2
      using scan_value_shorter [OF that] skip_drop_length [of r1] skip_drop_length [of r2] r1 \<open>2 * length s + 1 \<le> Suc k\<close>
      by (intro ih(2)) linarith
    show ?thesis unfolding scan_members.simps(2) [of "Suc k" seen s] scan_members.simps(2) [of k seen s] Some p
      by (cases "scan_value k ?s") (simp_all only: v m Let_def prod.case option.case)
  qed simp
  moreover have "scan_elements (Suc (Suc k)) s = scan_elements (Suc k) s" if "2 * length s + 2 \<le> Suc k" for s
  proof -
    have v: "scan_value (Suc k) s = scan_value k s" using that by (intro ih(1)) simp
    have m: "scan_elements (Suc k) (skip_space (drop 1 (skip_space r))) = scan_elements k (skip_space (drop 1 (skip_space r)))"
      if "scan_value k s = Some r" for r
      using scan_value_shorter [OF that] skip_drop_length [of r] \<open>2 * length s + 2 \<le> Suc k\<close> by (intro ih(3)) linarith
    show ?thesis unfolding scan_elements.simps(2) [of "Suc k" s] scan_elements.simps(2) [of k s] v
      by (cases "scan_value k s") (simp_all only: m Let_def option.case)
  qed
  ultimately show ?case by blast
qed simp

lemma scan_value_fuel: "2 * length s + 1 \<le> k \<Longrightarrow> scan_value k s = scan_value (2 * length s + 1) s"
proof (induction k rule: dec_induct)
  case (step k)
  then show ?case using scan_fuel by simp
qed simp

text \<open>Acceptance of a JSON text does not depend on the fuel, once it is this large.\<close>

lemma strict_json_fuel:
  "2 * length t + 1 \<le> k \<Longrightarrow> strict_json t = (case scan_value k (skip_space t) of None \<Rightarrow> False | Some r \<Rightarrow> list_all json_space r)"
  unfolding strict_json_def
  using scan_value_fuel [of "skip_space t" k] scan_value_fuel [of "skip_space t" "2 * length t + 2"] skip_space_length [of t] by simp

end
