(* ===== verification/C9_Control.thy ===== *)
theory C9_Control
  imports Mcp_Http Json_Scanner
begin

text \<open>
  c9_control.py: the guard of the process-local control endpoints. Every refusal is the same generic denial. The body that is
  read is given back as the code points of its text, which are a strict JSON object. The erasure of the buffer
  after use is not modelled.
\<close>

section \<open>Requests\<close>

record c9_request = http_request +
  cq_query :: string
  cq_query_string :: bytes
  cq_path :: string

record control_request =
  cr_method :: string
  cr_path :: string

datatype control_error = Control_denied | Control_length_conversion | Control_stream_failed

definition forbidden_headers :: "bytes list" where
  "forbidden_headers = [''cookie'', ''forwarded'', ''origin'', ''referer'', ''sec-fetch-dest'', ''sec-fetch-mode'', ''sec-fetch-site'',
     ''sec-fetch-user'', ''transfer-encoding'', ''x-forwarded-for'', ''x-forwarded-host'', ''x-forwarded-port'', ''x-forwarded-proto'',
     ''x-real-ip'']"

definition control_headers :: "c9_request \<Rightarrow> bytes \<Rightarrow> bytes list" where
  "control_headers req name = header_values (http_request.truncate req) name"

definition decode_ascii :: "bytes \<Rightarrow> string option" where
  "decode_ascii v = (if is_ascii v then Some v else None)"

section \<open>The guard\<close>

record control_guard =
  cg_token :: bytes
  cg_allowed_hosts :: "string list"
  cg_max_body_bytes :: int
  cg_requests_per_minute :: int

definition default_allowed_hosts :: "string list" where
  "default_allowed_hosts = [''127.0.0.1:8765'']"

definition control_guard_init :: "string \<Rightarrow> string list \<Rightarrow> int \<Rightarrow> int \<Rightarrow> string + control_guard" where
  "control_guard_init token allowed_hosts max_body_bytes requests_per_minute =
     (if length (utf8 token) < 32 then Inl ''C9 control token must contain at least 32 UTF-8 bytes''
      else if allowed_hosts = [] \<or> list_ex (\<lambda>h. h \<noteq> map py_lower h \<or> \<not> is_ascii h) allowed_hosts
        then Inl ''C9 control hosts must be non-empty lowercase ASCII literals''
      else if max_body_bytes < 2 \<or> 1024 * 1024 < max_body_bytes then Inl ''C9 control body limit is outside the safe range''
      else if requests_per_minute < 1 \<or> 600 < requests_per_minute then Inl ''C9 control request budget is outside the safe range''
      else Inr \<lparr>cg_token = utf8 token, cg_allowed_hosts = allowed_hosts, cg_max_body_bytes = max_body_bytes,
        cg_requests_per_minute = requests_per_minute\<rparr>)"

text \<open>The deque of the guard starts empty; \<open>cutoff\<close> subtracts the minute.\<close>

definition control_limiter :: "control_guard \<Rightarrow> ('t \<Rightarrow> 't) \<Rightarrow> 't limiter" where
  "control_limiter g cutoff = \<lparr>sl_limit = cg_requests_per_minute g, sl_cutoff = cutoff, sl_events = []\<rparr>"

definition host_allowed :: "control_guard \<Rightarrow> bytes \<Rightarrow> bool" where
  "host_allowed g v = (case decode_ascii v of None \<Rightarrow> False | Some h \<Rightarrow> map py_lower h \<in> set (cg_allowed_hosts g))"

definition bearer_accepted :: "control_guard \<Rightarrow> bytes \<Rightarrow> bool" where
  "bearer_accepted g supplied \<longleftrightarrow> take 7 supplied = ''Bearer '' \<and> drop 7 supplied \<noteq> [] \<and> drop 7 supplied = cg_token g"

definition authorize ::
  "control_guard \<Rightarrow> 't::linorder \<Rightarrow> c9_request \<Rightarrow> 't limiter \<Rightarrow> (control_error + control_request) \<times> 't limiter" where
  "authorize g now req l =
     (if hr_method req \<notin> {''GET'', ''POST''} then (Inl Control_denied, l)
      else if cq_query req \<noteq> [] \<or> cq_query_string req \<noteq> [] then (Inl Control_denied, l)
      else if hr_client req \<notin> {Some ''127.0.0.1'', Some ''::1''} then (Inl Control_denied, l)
      else if list_ex (\<lambda>(key, _). map ascii_lower key \<in> set forbidden_headers) (hr_headers req) then (Inl Control_denied, l)
      else case (control_headers req ''host'', control_headers req ''authorization'') of
        ([host], [supplied]) \<Rightarrow>
          if \<not> host_allowed g host \<or> \<not> bearer_accepted g supplied then (Inl Control_denied, l)
          else (case allow now l of (False, l') \<Rightarrow> (Inl Control_denied, l')
            | (True, l') \<Rightarrow> (Inr \<lparr>cr_method = hr_method req, cr_path = cq_path req\<rparr>, l'))
      | _ \<Rightarrow> (Inl Control_denied, l))"

definition declared_length :: "bytes \<Rightarrow> control_error + int" where
  "declared_length v =
     (case decode_ascii v of None \<Rightarrow> Inl Control_denied
      | Some s \<Rightarrow> if s = [] \<or> \<not> list_all is_digit s then Inl Control_denied
          else if 4300 < length s then Inl Control_length_conversion
          else Inr (int (digits_val 0 s)))"

definition json_object_text :: "nat list \<Rightarrow> bool" where
  "json_object_text t \<longleftrightarrow> strict_json t \<and> take 1 (skip_space t) = [0x7B]"

definition decode_control_body :: "bytes \<Rightarrow> int \<Rightarrow> control_error + nat list" where
  "decode_control_body body n =
     (if body = [] \<or> int (length body) \<noteq> n then Inl Control_denied
      else case utf8_points body of None \<Rightarrow> Inl Control_denied
      | Some t \<Rightarrow> if json_object_text t then Inr t else Inl Control_denied)"

definition read_json_object :: "control_guard \<Rightarrow> c9_request \<Rightarrow> control_error + nat list" where
  "read_json_object g req =
     (if hr_method req \<noteq> ''POST'' then Inl Control_denied
      else case control_headers req ''content-type'' of
        [content_type] \<Rightarrow>
          if (case decode_ascii content_type of None \<Rightarrow> True | Some s \<Rightarrow> map py_lower s \<noteq> ''application/json'') then Inl Control_denied
          else (case control_headers req ''content-length'' of
            [raw] \<Rightarrow>
              (case declared_length raw of Inl e \<Rightarrow> Inl e
               | Inr n \<Rightarrow>
                   if n < 2 \<or> cg_max_body_bytes g < n then Inl Control_denied
                   else (case read_bounded_body (cg_max_body_bytes g) 0 [] (hr_stream req) of
                      Inl Body_too_large \<Rightarrow> Inl Control_denied
                    | Inl Body_failed \<Rightarrow> Inl Control_stream_failed
                    | Inr body \<Rightarrow> decode_control_body body n))
          | _ \<Rightarrow> Inl Control_denied)
      | _ \<Rightarrow> Inl Control_denied)"

section \<open>What passes the guard\<close>

lemma list_cases1: "(case xs of [x] \<Rightarrow> f x | _ \<Rightarrow> d) = (if length xs = 1 then f (hd xs) else d)"
  by (cases xs; cases "tl xs") auto

definition request_admissible :: "control_guard \<Rightarrow> c9_request \<Rightarrow> bool" where
  "request_admissible g req \<longleftrightarrow>
     hr_method req \<in> {''GET'', ''POST''} \<and> cq_query req = [] \<and> cq_query_string req = [] \<and>
     hr_client req \<in> {Some ''127.0.0.1'', Some ''::1''} \<and>
     (\<forall>h \<in> set forbidden_headers. control_headers req h = []) \<and>
     (\<exists>host. control_headers req ''host'' = [host] \<and> is_ascii host \<and> map py_lower host \<in> set (cg_allowed_hosts g)) \<and>
     control_headers req ''authorization'' = [''Bearer '' @ cg_token g]"

lemma no_header_of:
  "list_ex (\<lambda>(key, _). map ascii_lower key \<in> names) hs \<longleftrightarrow>
     \<not> (\<forall>h \<in> names. map snd (filter (\<lambda>(k, v). map ascii_lower k = h) hs) = [])"
  by (auto simp: list_ex_iff filter_empty_conv)

lemma control_headers_eq: "control_headers req name = map snd (filter (\<lambda>(k, v). map ascii_lower k = name) (hr_headers req))"
  by (simp add: control_headers_def header_values_def http_request.truncate_def)

lemma no_forbidden_header:
  "list_ex (\<lambda>(key, _). map ascii_lower key \<in> set forbidden_headers) (hr_headers req) \<longleftrightarrow>
     \<not> (\<forall>h \<in> set forbidden_headers. control_headers req h = [])"
  unfolding no_header_of control_headers_eq by (rule refl)

lemma bearer_accepted_iff: "cg_token g \<noteq> [] \<Longrightarrow> bearer_accepted g v \<longleftrightarrow> v = ''Bearer '' @ cg_token g"
proof -
  assume "cg_token g \<noteq> []"
  moreover have "length ''Bearer '' = 7" by simp
  ultimately show ?thesis
    unfolding bearer_accepted_def using append_eq_conv_conj [of "''Bearer ''" "cg_token g" v] by (metis (no_types))
qed

lemma host_allowed_iff: "host_allowed g v \<longleftrightarrow> is_ascii v \<and> map py_lower v \<in> set (cg_allowed_hosts g)"
  by (simp add: host_allowed_def decode_ascii_def)

lemma authorize_admissible:
  assumes "cg_token g \<noteq> []"
  shows "authorize g now req l =
    (if request_admissible g req then
       (case allow now l of (ok, l') \<Rightarrow> (if ok then Inr \<lparr>cr_method = hr_method req, cr_path = cq_path req\<rparr> else Inl Control_denied, l'))
     else (Inl Control_denied, l))"
proof -
  define hs where "hs = control_headers req ''host''"
  define as where "as = control_headers req ''authorization''"
  have "request_admissible g req \<longleftrightarrow> hr_method req \<in> {''GET'', ''POST''} \<and> cq_query req = [] \<and> cq_query_string req = [] \<and>
      hr_client req \<in> {Some ''127.0.0.1'', Some ''::1''} \<and>
      \<not> list_ex (\<lambda>(key, _). map ascii_lower key \<in> set forbidden_headers) (hr_headers req) \<and>
      (\<exists>host supplied. hs = [host] \<and> as = [supplied] \<and> host_allowed g host \<and> bearer_accepted g supplied)"
    unfolding request_admissible_def no_forbidden_header host_allowed_iff bearer_accepted_iff [OF assms] hs_def as_def by blast
  then show ?thesis unfolding authorize_def hs_def [symmetric] as_def [symmetric]
    by (auto split: list.splits prod.splits bool.splits)
qed

lemma decode_control_body_Inr:
  "decode_control_body body n = Inr t \<longleftrightarrow> body \<noteq> [] \<and> int (length body) = n \<and> utf8_points body = Some t \<and> json_object_text t"
  by (auto simp: decode_control_body_def split: option.splits)

lemma declared_length_Inr:
  "declared_length v = Inr n \<longleftrightarrow> v \<noteq> [] \<and> is_ascii v \<and> list_all is_digit v \<and> length v \<le> 4300 \<and> n = int (digits_val 0 v)"
  by (auto simp: declared_length_def decode_ascii_def)

lemma read_bounded_body_total:
  "read_bounded_body limit n acc (map Inr chunks) = Inr body \<longleftrightarrow>
     body = acc @ concat chunks \<and> (chunks = [] \<or> n + int (length (concat chunks)) \<le> limit)"
proof (induction chunks arbitrary: n acc)
  case (Cons c chunks)
  then show ?case by (cases "chunks = []") (auto simp: Let_def)
qed auto

text \<open>The body that a request declares and delivers.\<close>

definition body_admissible :: "control_guard \<Rightarrow> c9_request \<Rightarrow> bytes \<Rightarrow> bool" where
  "body_admissible g req body \<longleftrightarrow>
     hr_method req = ''POST'' \<and>
     (\<exists>v. control_headers req ''content-type'' = [v] \<and> is_ascii v \<and> map py_lower v = ''application/json'') \<and>
     (\<exists>v. control_headers req ''content-length'' = [v] \<and> declared_length v = Inr (int (length body))) \<and>
     (\<exists>chunks. hr_stream req = map Inr chunks \<and> concat chunks = body) \<and>
     2 \<le> length body \<and> int (length body) \<le> cg_max_body_bytes g"

lemma read_json_object_iff:
  "read_json_object g req = Inr t \<longleftrightarrow> (\<exists>body. body_admissible g req body \<and> utf8_points body = Some t \<and> json_object_text t)"
proof
  assume "read_json_object g req = Inr t"
  then obtain v raw n body where h: "hr_method req = ''POST''" "control_headers req ''content-type'' = [v]" "is_ascii v"
      "map py_lower v = ''application/json''" "control_headers req ''content-length'' = [raw]" "declared_length raw = Inr n"
      "2 \<le> n" "n \<le> cg_max_body_bytes g" "read_bounded_body (cg_max_body_bytes g) 0 [] (hr_stream req) = Inr body" "decode_control_body body n = Inr t"
    unfolding read_json_object_def decode_ascii_def
    by (auto split: list.splits if_splits sum.splits body_error.splits)
  from read_bounded_body_ok [OF h(9)] h(7,8) obtain chunks where "hr_stream req = map Inr chunks" "body = concat chunks" by auto
  with h show "\<exists>body. body_admissible g req body \<and> utf8_points body = Some t \<and> json_object_text t"
    by (intro exI [of _ body]) (auto simp: body_admissible_def decode_control_body_Inr)
next
  assume "\<exists>body. body_admissible g req body \<and> utf8_points body = Some t \<and> json_object_text t"
  then obtain body where b: "body_admissible g req body" and t: "utf8_points body = Some t" "json_object_text t" by blast
  from b obtain v raw chunks where h: "hr_method req = ''POST''" "control_headers req ''content-type'' = [v]" "is_ascii v"
      "map py_lower v = ''application/json''" "control_headers req ''content-length'' = [raw]"
      "declared_length raw = Inr (int (length body))" "hr_stream req = map Inr chunks" "concat chunks = body"
      "2 \<le> length body" "int (length body) \<le> cg_max_body_bytes g"
    unfolding body_admissible_def by (elim exE conjE) (rule that; assumption)
  then have "read_bounded_body (cg_max_body_bytes g) 0 [] (hr_stream req) = Inr body"
    by (simp add: read_bounded_body_total)
  moreover have "decode_control_body body (int (length body)) = Inr t" using h(9) t by (auto simp: decode_control_body_Inr)
  ultimately show "read_json_object g req = Inr t" using h by (simp add: read_json_object_def decode_ascii_def)
qed

text \<open>C31. The control endpoints admit exactly the requests they are meant for: a request is authorised exactly when it is a GET or
  POST without query from the loopback address, carries none of the headers of browsers and proxies, one allowed host
  and the bearer token byte for byte, and lies within the budget, to which refused requests of other kinds do not count. A
  body is accepted exactly when the one declared length is the length of what was streamed, within the limit, and the bytes
  are strict UTF-8 of one JSON object without repeated keys.\<close>

theorem control_requests_exact:
  assumes "control_guard_init token hosts max_body rpm = Inr g"
  shows "(fst (authorize g now req l) = Inr cr \<longleftrightarrow>
      request_admissible g req \<and> fst (allow now l) \<and> cr = \<lparr>cr_method = hr_method req, cr_path = cq_path req\<rparr>) \<and>
    (\<not> request_admissible g req \<longrightarrow> snd (authorize g now req l) = l) \<and>
    (read_json_object g req = Inr t \<longleftrightarrow> (\<exists>body. body_admissible g req body \<and> utf8_points body = Some t \<and> json_object_text t))"
proof -
  have "cg_token g \<noteq> []" using assms by (auto simp: control_guard_init_def split: if_splits)
  note authorize_admissible [OF this, of now req l]
  then show ?thesis by (auto simp: read_json_object_iff split: prod.splits if_splits)
qed

text \<open>A request that passes.\<close>

definition ex_control_token :: string where
  "ex_control_token = replicate 32 (CHR ''k'')"

definition ex_control_guard :: control_guard where
  "ex_control_guard = \<lparr>cg_token = ex_control_token, cg_allowed_hosts = default_allowed_hosts, cg_max_body_bytes = 16384,
     cg_requests_per_minute = 60\<rparr>"

definition ex_control_request :: c9_request where
  "ex_control_request = \<lparr>hr_client = Some ''127.0.0.1'', hr_method = ''POST'',
     hr_headers = [(''Host'', ''127.0.0.1:8765''), (''Authorization'', ''Bearer '' @ ex_control_token), (''Content-Type'', ''application/json''),
       (''Content-Length'', ''2'')], hr_stream = [Inr ''{}''], cq_query = [], cq_query_string = [], cq_path = ''/c9/status''\<rparr>"

theorem control_requests_exact_witness:
  "request_admissible ex_control_guard ex_control_request \<and>
   (\<exists>body. body_admissible ex_control_guard ex_control_request body \<and> utf8_points body = Some (points ''{}''))"
proof -
  let ?l = "control_limiter ex_control_guard (\<lambda>t. t - 60) :: int limiter"
  have "control_guard_init ex_control_token default_allowed_hosts 16384 60 = Inr ex_control_guard"
    by code_simp
  note exact = control_requests_exact [OF this, of 1000 ex_control_request ?l
      "\<lparr>cr_method = ''POST'', cr_path = ''/c9/status''\<rparr>" "points ''{}''"]
  have "fst (authorize ex_control_guard 1000 ex_control_request ?l) = Inr \<lparr>cr_method = ''POST'', cr_path = ''/c9/status''\<rparr>"
    "read_json_object ex_control_guard ex_control_request = Inr (points ''{}'')" by code_simp+
  with exact show ?thesis by blast
qed

end
