(* ===== verification/Config.thy ===== *)
theory Config
  imports File_System Provider_Models Py_Text
begin

text \<open>
  config.py: the settings of the gateway and the checks that they are consistent, with the path functions of
  c9_private_state.py and the endpoint check of c9_local_ai.py that they use. The reading of the environment is
  pydantic's; the model starts from the values. Paths are POSIX paths on the file tree of File_System, where
  \<open>normcase\<close> changes nothing; a path is its anchor and its components.
\<close>

section \<open>Paths\<close>

type_synonym posix_path = "string \<times> path"

text \<open>The anchor of a POSIX path: exactly two leading slashes are kept.\<close>

definition path_anchor :: "string \<Rightarrow> string" where
  "path_anchor s = (if \<not> absolute s then [] else if take 2 s = ''//'' \<and> take 3 s \<noteq> ''///'' then ''//'' else ''/'')"

definition pure_path :: "string \<Rightarrow> posix_path" where
  "pure_path s = (path_anchor s, components s)"

definition path_child :: "posix_path \<Rightarrow> path \<Rightarrow> posix_path" where
  "path_child p names = (fst p, snd p @ names)"

definition path_parent :: "posix_path \<Rightarrow> posix_path" where
  "path_parent p = (fst p, butlast (snd p))"

definition is_absolute :: "posix_path \<Rightarrow> bool" where
  "is_absolute p \<longleftrightarrow> fst p \<noteq> []"

text \<open>A path whose text is the root's or starts with the root's and a separator.\<close>

definition inside :: "posix_path \<Rightarrow> posix_path \<Rightarrow> bool" where
  "inside root p \<longleftrightarrow> fst p = fst root \<and> (snd p = snd root \<or> strict_prefix (snd root) (snd p))"

datatype private_state_reason = Path_not_absolute | Path_traversal | Path_outside_state | Parent_unavailable | Reparse_path_rejected
  | Directory_identity_changed | Unsafe_filesystem_object | Hard_link_rejected | Private_permissions_failed | Atomic_write_failed
  | Read_failed | Cleanup_failed

datatype config_error =
    Config_value_error string
  | Config_private_state private_state_reason
  | Config_type_error
  | Config_link_loop
  | Config_field_error

text \<open>\<open>_normalized_path\<close>: the resolved path, if the links end.\<close>

definition normalized_path :: "node \<Rightarrow> path \<Rightarrow> posix_path \<Rightarrow> config_error + path" where
  "normalized_path fs cwd p =
     (case realpath fs False [] [] ((if is_absolute p then [] else cwd) @ snd p) of
        None \<Rightarrow> Inl Config_link_loop | Some q \<Rightarrow> Inr q)"

definition lock_path_of :: "posix_path \<Rightarrow> posix_path" where
  "lock_path_of p = (fst p, butlast (snd p) @ [(if snd p = [] then [] else last (snd p)) @ ''.lock''])"

definition lexical_c9_path :: "posix_path \<Rightarrow> private_state_reason + posix_path" where
  "lexical_c9_path p =
     (if \<not> is_absolute p then Inl Path_not_absolute else if ''..'' \<in> set (snd p) then Inl Path_traversal else Inr p)"

text \<open>The prefixes of a path from the root on: a link is refused, and so is anything but a directory above the last
  component; behind a missing component there is nothing to inspect.\<close>

fun reject_prefix :: "node \<Rightarrow> bool \<Rightarrow> path \<Rightarrow> path \<Rightarrow> private_state_reason option" where
  "reject_prefix fs allow_missing_tail p rest =
     (case lookup p fs of None \<Rightarrow> if allow_missing_tail then None else Some Parent_unavailable
      | Some n \<Rightarrow>
          if link_target (Some n) \<noteq> None then Some Reparse_path_rejected
          else (case rest of [] \<Rightarrow> None
            | c # cs \<Rightarrow> if \<not> is_directory (Some n) then Some Unsafe_filesystem_object
                else reject_prefix fs allow_missing_tail (p @ [c]) cs))"

definition reject_c9_reparse_prefix :: "node \<Rightarrow> bool \<Rightarrow> posix_path \<Rightarrow> private_state_reason option" where
  "reject_c9_reparse_prefix fs allow_missing_tail p = (case lexical_c9_path p of Inl e \<Rightarrow> Some e
     | Inr q \<Rightarrow> reject_prefix fs allow_missing_tail [] (snd q))"

section \<open>Local endpoint\<close>

text \<open>What \<open>urlsplit\<close> gives for a text without backslash, question mark, number sign and control characters: the
  scheme before the first colon, the authority between two slashes and the next one, and the path. A bracket in
  the authority is refused or makes another host.\<close>

definition url_scheme :: "string \<Rightarrow> string" where
  "url_scheme u = (let s = takeWhile (\<lambda>c. c \<noteq> CHR '':'') u in if s = u then [] else map py_lower s)"

definition url_rest :: "string \<Rightarrow> string" where
  "url_rest u = drop 1 (dropWhile (\<lambda>c. c \<noteq> CHR '':'') u)"

definition url_netloc :: "string \<Rightarrow> string" where
  "url_netloc u = (if take 2 (url_rest u) = ''//'' then takeWhile (\<lambda>c. c \<noteq> CHR ''/'') (drop 2 (url_rest u)) else [])"

definition url_path :: "string \<Rightarrow> string" where
  "url_path u = (if take 2 (url_rest u) = ''//'' then dropWhile (\<lambda>c. c \<noteq> CHR ''/'') (drop 2 (url_rest u)) else url_rest u)"

definition url_host :: "string \<Rightarrow> string" where
  "url_host u = takeWhile (\<lambda>c. c \<noteq> CHR '':'') (url_netloc u)"

text \<open>\<open>None\<close> is a port that is refused, \<open>Some None\<close> no port.\<close>

definition url_port :: "string \<Rightarrow> nat option option" where
  "url_port u = (let p = drop 1 (dropWhile (\<lambda>c. c \<noteq> CHR '':'') (url_netloc u)) in
     if p = [] then Some None
     else if list_all is_digit p \<and> digits_val 0 p \<le> 65535 then Some (Some (digits_val 0 p)) else None)"

definition validate_c9_local_ai_endpoint :: "string \<Rightarrow> config_error + string" where
  "validate_c9_local_ai_endpoint value =
     (if value \<noteq> py_strip value \<or> set value \<inter> {CHR 0x5C, CHR ''?'', CHR ''#''} \<noteq> {} \<or> list_ex (\<lambda>c. (of_char c :: nat) < 32) value
        then Inl (Config_value_error ''local AI endpoint has an invalid form'')
      else if set (url_netloc value) \<inter> set ''[]'' \<noteq> {} then Inl (Config_value_error ''Invalid IPv6 URL'')
      else if url_scheme value \<noteq> ''http'' then Inl (Config_value_error ''local AI endpoint must use plain HTTP on literal loopback'')
      else if CHR ''@'' \<in> set (url_netloc value) then Inl (Config_value_error ''local AI endpoint must not contain user information'')
      else if url_host value \<noteq> ''127.0.0.1''
        then Inl (Config_value_error ''local AI endpoint must use literal loopback IPv4 127.0.0.1'')
      else case url_port value of
        None \<Rightarrow> Inl (Config_value_error ''local AI endpoint contains an invalid port'')
      | Some port \<Rightarrow>
          if port \<in> {None, Some 0} then Inl (Config_value_error ''local AI endpoint requires an explicit port'')
          else if url_path value \<noteq> ''/v1/chat/completions''
            then Inl (Config_value_error ''local AI endpoint must use the exact chat-completions path'')
          else Inr value)"

section \<open>Settings\<close>

datatype provider_runtime_mode = Chatgpt_chat_c4 | Chatgpt_work_c8 | Chatgpt_web_c9

record settings =
  se_shared_secret :: string
  se_audit_key :: string
  se_workspace :: string
  se_policy_file :: string
  se_audit_log :: string
  se_audit_anchor_log :: "string option"
  se_audit_anchor_key :: "string option"
  se_replay_db :: string
  se_replay_max_entries :: int
  se_approval_db :: string
  se_approval_max_entries :: int
  se_approval_ttl_seconds :: int
  se_sandbox_root :: string
  se_docker_image :: string
  se_mcp_enabled :: bool
  se_mcp_token :: "string option"
  se_c0_enabled :: bool
  se_c0_server_build_commit :: "string option"
  se_provider_runtime_mode :: "provider_runtime_mode option"
  se_provider_runtime_root :: "string option"
  se_c8_live_cycle_file :: "string option"
  se_c9_control_token :: "string option"
  se_c9_server_build_commit :: "string option"
  se_c9_state_directory :: "string option"
  se_c9_admission_file :: "string option"
  se_c9_local_ai_runtime_observation_file :: "string option"
  se_c9_local_ai_endpoint :: "string option"
  se_c9_local_ai_model :: "string option"
  se_mcp_max_request_bytes :: int
  se_mcp_requests_per_minute :: int
  se_mcp_max_concurrency :: int
  se_mcp_max_rendered_response_bytes :: int

definition insecure_values :: "string list" where
  "insecure_values = [''replace-with-at-least-32-random-characters'', ''replace-with-different-at-least-32-random-characters'',
     ''replace-with-third-independent-at-least-32-random-characters'', ''replace-with-fourth-independent-at-least-32-random-characters'',
     ''change-me-change-me-change-me-change-me'']"

definition reject_insecure_secret :: "string \<Rightarrow> bool" where
  "reject_insecure_secret v \<longleftrightarrow> v \<notin> set insecure_values"

definition commit_pattern :: "string \<Rightarrow> bool" where
  "commit_pattern s \<longleftrightarrow> length s = 40 \<and> list_all (\<lambda>c. is_digit c \<or> c \<in> set ''abcdef'') s"

definition validate_c9_local_ai_model_setting :: "string \<Rightarrow> bool" where
  "validate_c9_local_ai_model_setting v \<longleftrightarrow> v = py_strip v \<and> \<not> list_ex (\<lambda>c. (of_char c :: nat) < 32) v"

text \<open>The constraints and validators of the single fields.\<close>

definition settings_fields_valid :: "settings \<Rightarrow> bool" where
  "settings_fields_valid s \<longleftrightarrow>
     32 \<le> length (se_shared_secret s) \<and> reject_insecure_secret (se_shared_secret s) \<and>
     32 \<le> length (se_audit_key s) \<and> reject_insecure_secret (se_audit_key s) \<and>
     optional (\<lambda>k. 32 \<le> length k \<and> reject_insecure_secret k) (se_audit_anchor_key s) \<and>
     1 \<le> se_replay_max_entries s \<and> se_replay_max_entries s \<le> 1000000 \<and>
     1 \<le> se_approval_max_entries s \<and> se_approval_max_entries s \<le> 100000 \<and>
     30 \<le> se_approval_ttl_seconds s \<and> se_approval_ttl_seconds s \<le> 3600 \<and>
     optional (\<lambda>k. len_between 32 512 k \<and> reject_insecure_secret k) (se_mcp_token s) \<and>
     optional commit_pattern (se_c0_server_build_commit s) \<and>
     optional (\<lambda>k. len_between 32 512 k \<and> reject_insecure_secret k) (se_c9_control_token s) \<and>
     optional commit_pattern (se_c9_server_build_commit s) \<and>
     optional (\<lambda>e. is_ok (validate_c9_local_ai_endpoint e)) (se_c9_local_ai_endpoint s) \<and>
     optional (\<lambda>v. len_between 1 128 v \<and> validate_c9_local_ai_model_setting v) (se_c9_local_ai_model s) \<and>
     1024 \<le> se_mcp_max_request_bytes s \<and> se_mcp_max_request_bytes s \<le> 10485760 \<and>
     1 \<le> se_mcp_requests_per_minute s \<and> se_mcp_requests_per_minute s \<le> 10000 \<and>
     1 \<le> se_mcp_max_concurrency s \<and> se_mcp_max_concurrency s \<le> 64 \<and>
     1024 \<le> se_mcp_max_rendered_response_bytes s \<and> se_mcp_max_rendered_response_bytes s \<le> 64 * 1024 * 1024"

section \<open>Consistency\<close>

text \<open>\<open>hmac.compare_digest\<close> on two texts raises when one of them is not ASCII.\<close>

definition require_distinct :: "string \<Rightarrow> string \<Rightarrow> string \<Rightarrow> config_error option" where
  "require_distinct a b message =
     (case compare_digest a b of None \<Rightarrow> Some Config_type_error
      | Some True \<Rightarrow> Some (Config_value_error message) | Some False \<Rightarrow> None)"

definition require :: "bool \<Rightarrow> string \<Rightarrow> config_error option" where
  "require ok message = (if ok then None else Some (Config_value_error message))"

fun first_error :: "config_error option list \<Rightarrow> config_error option" where
  "first_error [] = None"
| "first_error (None # es) = first_error es"
| "first_error (Some e # es) = Some e"

definition check_anchor_settings :: "settings \<Rightarrow> config_error option" where
  "check_anchor_settings s =
     first_error [require_distinct (se_shared_secret s) (se_audit_key s) ''SLG_AUDIT_KEY must be different from SLG_SHARED_SECRET'',
       require ((se_audit_anchor_log s \<noteq> None) = (se_audit_anchor_key s \<noteq> None))
         ''SLG_AUDIT_ANCHOR_LOG and SLG_AUDIT_ANCHOR_KEY must be configured together'',
       case se_audit_anchor_key s of None \<Rightarrow> None
       | Some k \<Rightarrow> first_error [require_distinct k (se_shared_secret s) ''SLG_AUDIT_ANCHOR_KEY must be different from SLG_SHARED_SECRET'',
           require_distinct k (se_audit_key s) ''SLG_AUDIT_ANCHOR_KEY must be different from SLG_AUDIT_KEY'']]"

definition check_mcp_settings :: "settings \<Rightarrow> config_error option" where
  "check_mcp_settings s =
     first_error [require (\<not> (se_mcp_enabled s \<and> se_mcp_token s = None)) ''SLG_MCP_TOKEN must be configured when SLG_MCP_ENABLED is true'',
       if se_c0_enabled s then first_error [require (se_mcp_enabled s) ''SLG_MCP_ENABLED must be true when SLG_C0_ENABLED is true'',
         require (se_c0_server_build_commit s \<noteq> None) ''SLG_C0_SERVER_BUILD_COMMIT is required when SLG_C0_ENABLED is true'']
       else None]"

definition check_provider_settings :: "settings \<Rightarrow> config_error option" where
  "check_provider_settings s =
     first_error [require ((se_provider_runtime_mode s \<noteq> None) = (se_provider_runtime_root s \<noteq> None))
         ''SLG_PROVIDER_RUNTIME_MODE and SLG_PROVIDER_RUNTIME_ROOT must be configured together'',
       case se_provider_runtime_mode s of None \<Rightarrow> None
       | Some mode \<Rightarrow> first_error [require (se_mcp_enabled s) ''provider runtime requires SLG_MCP_ENABLED'',
           if mode = Chatgpt_web_c9 then require (\<not> se_c0_enabled s) ''C9 Web runtime must not enable the C0 probe surface''
           else require (se_c0_enabled s) ''provider runtime requires SLG_C0_ENABLED'',
           case se_provider_runtime_root s of None \<Rightarrow> None
           | Some r \<Rightarrow> require (is_absolute (pure_path r)) ''SLG_PROVIDER_RUNTIME_ROOT must be an absolute path'']]"

text \<open>\<open>cycle_path.startswith(expected_root + os.sep)\<close> on resolved paths: when the root is \<open>/\<close>, the prefix is \<open>//\<close>, which no
  resolved path has.\<close>

definition below :: "path \<Rightarrow> path \<Rightarrow> bool" where
  "below root p \<longleftrightarrow> root \<noteq> [] \<and> strict_prefix root p"

text \<open>The live cycle file of the Work runtime, after links are resolved.\<close>

definition check_cycle_file :: "node \<Rightarrow> path \<Rightarrow> string \<Rightarrow> string \<Rightarrow> config_error option" where
  "check_cycle_file fs cwd runtime_root cycle_file =
     (if \<not> is_absolute (pure_path cycle_file) then Some (Config_value_error ''SLG_C8_LIVE_CYCLE_FILE must be an absolute path'')
      else case normalized_path fs cwd (path_child (pure_path runtime_root) [''.systeme-local'', ''c8'']) of Inl e \<Rightarrow> Some e
      | Inr expected_root \<Rightarrow> (case normalized_path fs cwd (pure_path cycle_file) of Inl e \<Rightarrow> Some e
        | Inr cycle_path \<Rightarrow> require (cycle_path = expected_root \<or> below expected_root cycle_path)
            ''SLG_C8_LIVE_CYCLE_FILE must remain inside .systeme-local/c8''))"

definition check_c8_settings :: "node \<Rightarrow> path \<Rightarrow> settings \<Rightarrow> config_error option" where
  "check_c8_settings fs cwd s =
     (if se_provider_runtime_mode s = Some Chatgpt_work_c8 then
        (case (se_c8_live_cycle_file s, se_provider_runtime_root s) of
           (None, _) \<Rightarrow> Some (Config_value_error ''SLG_C8_LIVE_CYCLE_FILE is required for the C8 Work runtime'')
         | (Some f, Some r) \<Rightarrow> check_cycle_file fs cwd r f
         | _ \<Rightarrow> None)
      else require (se_c8_live_cycle_file s = None) ''SLG_C8_LIVE_CYCLE_FILE is only valid with chatgpt_work_c8'')"

text \<open>The state directory and the two files of the Web runtime, by their text and then on the file system.\<close>

definition check_c9_paths :: "node \<Rightarrow> string \<Rightarrow> string \<Rightarrow> string \<Rightarrow> string \<Rightarrow> config_error option" where
  "check_c9_paths fs runtime_root state_directory admission_file observation_file =
     (if \<not> is_absolute (pure_path state_directory) then Some (Config_value_error ''SLG_C9_STATE_DIRECTORY must be an absolute path'')
      else case lexical_c9_path (path_child (pure_path runtime_root) [''.systeme-local'', ''c9'']) of Inl e \<Rightarrow> Some (Config_private_state e)
      | Inr expected \<Rightarrow> (case lexical_c9_path (pure_path state_directory) of Inl e \<Rightarrow> Some (Config_private_state e)
      | Inr state \<Rightarrow> (case lexical_c9_path (pure_path admission_file) of Inl e \<Rightarrow> Some (Config_private_state e)
      | Inr admission \<Rightarrow> (case lexical_c9_path (pure_path observation_file) of Inl e \<Rightarrow> Some (Config_private_state e)
      | Inr observation \<Rightarrow>
          first_error [require (inside expected state) ''SLG_C9_STATE_DIRECTORY must remain inside .systeme-local/c9'',
            require (path_parent admission = state) ''SLG_C9_ADMISSION_FILE must be a direct child of SLG_C9_STATE_DIRECTORY'',
            require (path_parent observation = state)
              ''SLG_C9_LOCAL_AI_RUNTIME_OBSERVATION_FILE must be a direct child of SLG_C9_STATE_DIRECTORY'',
            require (observation \<noteq> admission) ''C9 admission and local-AI runtime observation files must differ'',
            require (list_all (\<lambda>p. reject_c9_reparse_prefix fs True p = None) [expected, state, admission, observation])
              ''C9 private state rejects symlink, junction, or reparse traversal'']))))"

definition c9_fields :: "settings \<Rightarrow> string option list" where
  "c9_fields s = [se_c9_control_token s, se_c9_server_build_commit s, se_c9_state_directory s, se_c9_admission_file s,
     se_c9_local_ai_runtime_observation_file s, se_c9_local_ai_endpoint s, se_c9_local_ai_model s]"

definition check_c9_settings :: "node \<Rightarrow> settings \<Rightarrow> config_error option" where
  "check_c9_settings fs s =
     (if se_provider_runtime_mode s = Some Chatgpt_web_c9 then
        if None \<in> set (c9_fields s) then Some (Config_value_error ''SLG_C9_CONTROL_TOKEN, SLG_C9_SERVER_BUILD_COMMIT, and SLG_C9_STATE_DIRECTORY, SLG_C9_ADMISSION_FILE, SLG_C9_LOCAL_AI_RUNTIME_OBSERVATION_FILE, SLG_C9_LOCAL_AI_ENDPOINT, and SLG_C9_LOCAL_AI_MODEL are required for the C9 Web runtime'')
        else (case (se_provider_runtime_root s, se_c9_state_directory s, se_c9_admission_file s, se_c9_local_ai_runtime_observation_file s) of
          (Some r, Some d, Some a, Some ob) \<Rightarrow> check_c9_paths fs r d a ob
        | _ \<Rightarrow> None)
      else require (\<not> list_ex (\<lambda>v. v \<noteq> None) (c9_fields s)) ''C9 runtime settings are only valid with chatgpt_web_c9'')"

definition named_secrets :: "settings \<Rightarrow> (string \<times> string) list" where
  "named_secrets s = [(''SLG_SHARED_SECRET'', se_shared_secret s), (''SLG_AUDIT_KEY'', se_audit_key s)] @
     (case se_audit_anchor_key s of None \<Rightarrow> [] | Some k \<Rightarrow> [(''SLG_AUDIT_ANCHOR_KEY'', k)])"

definition check_token :: "string \<Rightarrow> string option \<Rightarrow> (string \<times> string) list \<Rightarrow> config_error option" where
  "check_token variable token others =
     (case token of None \<Rightarrow> None
      | Some t \<Rightarrow> first_error (map (\<lambda>(name, secret). require_distinct t secret (variable @ '' must be different from '' @ name)) others))"

definition check_token_settings :: "settings \<Rightarrow> config_error option" where
  "check_token_settings s =
     first_error [check_token ''SLG_MCP_TOKEN'' (se_mcp_token s) (named_secrets s @
         (case se_c9_control_token s of None \<Rightarrow> [] | Some t \<Rightarrow> [(''SLG_C9_CONTROL_TOKEN'', t)])),
       check_token ''SLG_C9_CONTROL_TOKEN'' (se_c9_control_token s) (named_secrets s)]"

fun normalize_all :: "node \<Rightarrow> path \<Rightarrow> posix_path list \<Rightarrow> config_error + path list" where
  "normalize_all fs cwd [] = Inr []"
| "normalize_all fs cwd (p # ps) =
     (case normalized_path fs cwd p of Inl e \<Rightarrow> Inl e
      | Inr q \<Rightarrow> (case normalize_all fs cwd ps of Inl e \<Rightarrow> Inl e | Inr qs \<Rightarrow> Inr (q # qs)))"

definition log_files :: "string \<Rightarrow> posix_path list" where
  "log_files l = [pure_path l, lock_path_of (pure_path l)]"

definition check_audit_paths :: "node \<Rightarrow> path \<Rightarrow> settings \<Rightarrow> config_error option" where
  "check_audit_paths fs cwd s =
     (case se_audit_anchor_log s of None \<Rightarrow> None
      | Some anchor \<Rightarrow> (case normalize_all fs cwd (log_files (se_audit_log s)) of Inl e \<Rightarrow> Some e
        | Inr audit_paths \<Rightarrow> (case normalize_all fs cwd (log_files anchor) of Inl e \<Rightarrow> Some e
          | Inr anchor_paths \<Rightarrow> require (set audit_paths \<inter> set anchor_paths = {})
              ''audit log, audit anchor, and their lock paths must not overlap'')))"

definition require_consistent_security_configuration :: "node \<Rightarrow> path \<Rightarrow> settings \<Rightarrow> config_error option" where
  "require_consistent_security_configuration fs cwd s =
     first_error [check_anchor_settings s, check_mcp_settings s, check_provider_settings s, check_c8_settings fs cwd s,
       check_c9_settings fs s, check_token_settings s, check_audit_paths fs cwd s]"

text \<open>\<open>Settings()\<close> on the values that were read: the fields, then the model validator.\<close>

definition create_settings :: "node \<Rightarrow> path \<Rightarrow> settings \<Rightarrow> config_error + settings" where
  "create_settings fs cwd s =
     (if \<not> settings_fields_valid s then Inl Config_field_error
      else case require_consistent_security_configuration fs cwd s of Some e \<Rightarrow> Inl e | None \<Rightarrow> Inr s)"

section \<open>Which settings are accepted\<close>

lemma first_error_None [simp]: "first_error es = None \<longleftrightarrow> (\<forall>e \<in> set es. e = None)"
  by (induction es rule: first_error.induct) auto

lemma require_None [simp]: "require ok message = None \<longleftrightarrow> ok"
  by (simp add: require_def)

lemma require_distinct_None [simp]: "require_distinct a b message = None \<longleftrightarrow> is_ascii a \<and> is_ascii b \<and> a \<noteq> b"
  by (auto simp: require_distinct_def compare_digest_def split: option.splits)

lemma check_token_None:
  "check_token variable token others = None \<longleftrightarrow>
     (\<forall>t. token = Some t \<longrightarrow> (\<forall>(name, secret) \<in> set others. is_ascii t \<and> is_ascii secret \<and> t \<noteq> secret))"
  by (auto simp: check_token_def split: option.splits)

lemma normalize_all_Inr: "normalize_all fs cwd ps = Inr qs \<longleftrightarrow> map (normalized_path fs cwd) ps = map Inr qs"
proof (induction ps arbitrary: qs)
  case (Cons p ps)
  show ?case
  proof (cases "normalized_path fs cwd p")
    case (Inr q)
    have "normalize_all fs cwd (p # ps) = Inr qs \<longleftrightarrow> (\<exists>rs. qs = q # rs \<and> normalize_all fs cwd ps = Inr rs)"
      using Inr by (auto split: sum.splits)
    then show ?thesis using Inr Cons.IH by (cases qs) auto
  qed (cases qs; simp)
qed auto

lemma lexical_c9_path_Inr [simp]: "lexical_c9_path p = Inr q \<longleftrightarrow> q = p \<and> is_absolute p \<and> ''..'' \<notin> set (snd p)"
  by (auto simp: lexical_c9_path_def)

text \<open>The secrets a configuration holds.\<close>

definition configured_secrets :: "settings \<Rightarrow> string list" where
  "configured_secrets s = [se_shared_secret s, se_audit_key s] @
     concat (map (case_option [] (\<lambda>k. [k])) [se_audit_anchor_key s, se_mcp_token s, se_c9_control_token s])"

lemma check_secrets_None:
  "check_anchor_settings s = None \<and> check_token_settings s = None \<longleftrightarrow>
     ((se_audit_anchor_log s = None) = (se_audit_anchor_key s = None)) \<and>
     list_all is_ascii (configured_secrets s) \<and> distinct (configured_secrets s)"
  by (cases "se_audit_anchor_key s"; cases "se_mcp_token s"; cases "se_c9_control_token s")
     (auto simp: check_anchor_settings_def check_token_settings_def check_token_None named_secrets_def configured_secrets_def)

text \<open>The mode a configuration selects, and what each mode demands.\<close>

definition runtime_mode_consistent :: "settings \<Rightarrow> bool" where
  "runtime_mode_consistent s \<longleftrightarrow>
     (se_mcp_enabled s \<longrightarrow> se_mcp_token s \<noteq> None) \<and>
     (se_c0_enabled s \<longrightarrow> se_mcp_enabled s \<and> se_c0_server_build_commit s \<noteq> None) \<and>
     (case (se_provider_runtime_mode s, se_provider_runtime_root s) of
        (None, None) \<Rightarrow> True
      | (Some mode, Some r) \<Rightarrow> se_mcp_enabled s \<and> (se_c0_enabled s \<longleftrightarrow> mode \<noteq> Chatgpt_web_c9) \<and> absolute r
      | _ \<Rightarrow> False)"

lemma is_absolute_pure_path [simp]: "is_absolute (pure_path s) \<longleftrightarrow> absolute s"
  by (simp add: is_absolute_def pure_path_def path_anchor_def)

lemma is_absolute_child [simp]: "is_absolute (path_child p names) \<longleftrightarrow> is_absolute p"
  by (simp add: is_absolute_def path_child_def)

lemma snd_pure_path [simp]: "snd (pure_path s) = components s"
  by (simp add: pure_path_def)

lemma check_modes_None:
  "check_mcp_settings s = None \<and> check_provider_settings s = None \<longleftrightarrow> runtime_mode_consistent s"
  by (auto simp: check_mcp_settings_def check_provider_settings_def runtime_mode_consistent_def split: option.splits)

text \<open>The state directory lies below the runtime root, both files are different direct children of it, no text goes up,
  and nothing that already exists on the way is a link.\<close>

definition c9_layout :: "node \<Rightarrow> string \<Rightarrow> string \<Rightarrow> string \<Rightarrow> string \<Rightarrow> bool" where
  "c9_layout fs r d a ob \<longleftrightarrow>
     absolute d \<and> absolute a \<and> absolute ob \<and>
     (\<forall>p \<in> {r, d, a, ob}. ''..'' \<notin> set (components p)) \<and>
     (\<exists>below x y. pure_path d = path_child (pure_path r) ([''.systeme-local'', ''c9''] @ below) \<and>
        pure_path a = path_child (pure_path d) [x] \<and> pure_path ob = path_child (pure_path d) [y] \<and> x \<noteq> y) \<and>
     (\<forall>p \<in> set [path_child (pure_path r) [''.systeme-local'', ''c9''], pure_path d, pure_path a, pure_path ob].
        reject_c9_reparse_prefix fs True p = None)"

lemma inside_iff: "inside q p \<longleftrightarrow> (\<exists>below. p = path_child q below)"
  by (cases p; cases q) (auto simp: inside_def path_child_def strict_prefix_def prefix_def)

lemma path_child_child [simp]: "path_child (path_child p xs) ys = path_child p (xs @ ys)"
  by (simp add: path_child_def)

lemma path_parent_child [simp]: "path_parent (path_child q [x]) = q"
  by (simp add: path_parent_def path_child_def)

lemma path_child_eq [simp]: "path_child q [x] = path_child q [y] \<longleftrightarrow> x = y"
  by (simp add: path_child_def)

lemma path_parent_iff: "snd q \<noteq> [] \<Longrightarrow> path_parent p = q \<longleftrightarrow> (\<exists>x. p = path_child q [x])"
  by (cases p; cases "snd p" rule: rev_cases) (auto simp: path_parent_def path_child_def)

lemma direct_children_iff:
  "snd q \<noteq> [] \<Longrightarrow> path_parent p = q \<and> path_parent p' = q \<and> p' \<noteq> p \<longleftrightarrow>
    (\<exists>x y. p = path_child q [x] \<and> p' = path_child q [y] \<and> x \<noteq> y)"
  by (auto simp: path_parent_iff)

lemma c9_names_iff:
  "inside (path_child r [''.systeme-local'', ''c9'']) d \<and> path_parent a = d \<and> path_parent ob = d \<and> ob \<noteq> a \<longleftrightarrow>
     (\<exists>below x y. d = path_child r ([''.systeme-local'', ''c9''] @ below) \<and>
        a = path_child d [x] \<and> ob = path_child d [y] \<and> x \<noteq> y)"
proof (cases "\<exists>below. d = path_child r ([''.systeme-local'', ''c9''] @ below)")
  case True
  then have "snd d \<noteq> []" by (auto simp: path_child_def)
  from direct_children_iff [OF this, of a ob] True show ?thesis unfolding inside_iff path_child_child by metis
next
  case False
  then show ?thesis unfolding inside_iff path_child_child by blast
qed

lemma check_c9_paths_None:
  assumes "absolute r"
  shows "check_c9_paths fs r d a ob = None \<longleftrightarrow> c9_layout fs r d a ob"
proof -
  let ?e = "path_child (pure_path r) [''.systeme-local'', ''c9'']"
  have "check_c9_paths fs r d a ob = None \<longleftrightarrow>
    (absolute d \<and> absolute a \<and> absolute ob \<and> (\<forall>p \<in> {r, d, a, ob}. ''..'' \<notin> set (components p))) \<and>
    (inside ?e (pure_path d) \<and> path_parent (pure_path a) = pure_path d \<and> path_parent (pure_path ob) = pure_path d \<and>
      pure_path ob \<noteq> pure_path a) \<and>
    (\<forall>p \<in> set [?e, pure_path d, pure_path a, pure_path ob]. reject_c9_reparse_prefix fs True p = None)"
    using assms by (auto simp: check_c9_paths_def lexical_c9_path_def path_child_def pure_path_def path_anchor_def is_absolute_def)
  then show ?thesis unfolding c9_names_iff c9_layout_def by (simp only: conj_assoc)
qed

text \<open>The files of the settings by mode: only the Work runtime names a live cycle file, which resolves to the directory
  \<open>.systeme-local/c8\<close> of the runtime root or to a place below it, where nothing counts as below \<open>/\<close>; only the Web runtime has C9 settings, all of them, with the layout above.\<close>

definition runtime_files_consistent :: "node \<Rightarrow> path \<Rightarrow> settings \<Rightarrow> bool" where
  "runtime_files_consistent fs cwd s \<longleftrightarrow>
     (if se_provider_runtime_mode s = Some Chatgpt_work_c8 then
        (\<exists>f r top rest. se_c8_live_cycle_file s = Some f \<and> se_provider_runtime_root s = Some r \<and> absolute f \<and>
           normalized_path fs cwd (path_child (pure_path r) [''.systeme-local'', ''c8'']) = Inr top \<and>
           normalized_path fs cwd (pure_path f) = Inr (top @ rest) \<and> (top = [] \<longrightarrow> rest = []))
      else se_c8_live_cycle_file s = None) \<and>
     (if se_provider_runtime_mode s = Some Chatgpt_web_c9 then None \<notin> set (c9_fields s) \<and>
        (\<exists>r d a ob. se_provider_runtime_root s = Some r \<and> se_c9_state_directory s = Some d \<and> se_c9_admission_file s = Some a \<and>
           se_c9_local_ai_runtime_observation_file s = Some ob \<and> c9_layout fs r d a ob)
      else set (c9_fields s) = {None})"

lemma check_cycle_file_None:
  "check_cycle_file fs cwd r f = None \<longleftrightarrow> absolute f \<and>
     (\<exists>top rest. normalized_path fs cwd (path_child (pure_path r) [''.systeme-local'', ''c8'']) = Inr top \<and>
       normalized_path fs cwd (pure_path f) = Inr (top @ rest) \<and> (top = [] \<longrightarrow> rest = []))"
  by (auto simp: check_cycle_file_def below_def strict_prefix_def prefix_def split: sum.splits)

lemma check_c8_settings_None:
  assumes "runtime_mode_consistent s"
  shows "check_c8_settings fs cwd s = None \<longleftrightarrow>
    (if se_provider_runtime_mode s = Some Chatgpt_work_c8 then
       (\<exists>f r. se_c8_live_cycle_file s = Some f \<and> se_provider_runtime_root s = Some r \<and> check_cycle_file fs cwd r f = None)
     else se_c8_live_cycle_file s = None)"
  using assms by (auto simp: check_c8_settings_def runtime_mode_consistent_def split: option.splits)

lemma check_c9_settings_None:
  assumes "runtime_mode_consistent s"
  shows "check_c9_settings fs s = None \<longleftrightarrow>
    (if se_provider_runtime_mode s = Some Chatgpt_web_c9 then None \<notin> set (c9_fields s) \<and>
       (\<exists>r d a ob. se_provider_runtime_root s = Some r \<and> se_c9_state_directory s = Some d \<and> se_c9_admission_file s = Some a \<and>
          se_c9_local_ai_runtime_observation_file s = Some ob \<and> c9_layout fs r d a ob)
     else set (c9_fields s) = {None})"
proof (cases "se_provider_runtime_mode s = Some Chatgpt_web_c9")
  case True
  with assms obtain r where r: "se_provider_runtime_root s = Some r" "absolute r"
    by (auto simp: runtime_mode_consistent_def split: option.splits)
  then show ?thesis using True
    by (auto simp: check_c9_settings_def c9_fields_def check_c9_paths_None split: option.splits)
qed (auto simp: check_c9_settings_def c9_fields_def)

lemma check_runtime_files_None:
  assumes "runtime_mode_consistent s"
  shows "check_c8_settings fs cwd s = None \<and> check_c9_settings fs s = None \<longleftrightarrow> runtime_files_consistent fs cwd s"
  unfolding check_c8_settings_None [OF assms] check_c9_settings_None [OF assms] runtime_files_consistent_def check_cycle_file_None
  by (simp only: conj_ac ex_simps)

text \<open>The audit log, its anchor and their lock files are different files.\<close>

definition audit_files_disjoint :: "node \<Rightarrow> path \<Rightarrow> settings \<Rightarrow> bool" where
  "audit_files_disjoint fs cwd s \<longleftrightarrow>
     (\<forall>anchor. se_audit_anchor_log s = Some anchor \<longrightarrow>
        (\<exists>qs rs. map (normalized_path fs cwd) (log_files (se_audit_log s)) = map Inr qs \<and>
           map (normalized_path fs cwd) (log_files anchor) = map Inr rs \<and> set qs \<inter> set rs = {}))"

lemma check_audit_paths_None: "check_audit_paths fs cwd s = None \<longleftrightarrow> audit_files_disjoint fs cwd s"
  unfolding audit_files_disjoint_def check_audit_paths_def normalize_all_Inr [symmetric]
  by (auto split: option.splits sum.splits)

lemma consistent_configuration_iff:
  "require_consistent_security_configuration fs cwd s = None \<longleftrightarrow>
     ((se_audit_anchor_log s = None) = (se_audit_anchor_key s = None)) \<and>
     list_all is_ascii (configured_secrets s) \<and> distinct (configured_secrets s) \<and>
     runtime_mode_consistent s \<and> runtime_files_consistent fs cwd s \<and> audit_files_disjoint fs cwd s"
proof -
  have "require_consistent_security_configuration fs cwd s = None \<longleftrightarrow>
    (check_anchor_settings s = None \<and> check_token_settings s = None) \<and>
    (check_mcp_settings s = None \<and> check_provider_settings s = None) \<and>
    (check_c8_settings fs cwd s = None \<and> check_c9_settings fs s = None) \<and> check_audit_paths fs cwd s = None"
    by (auto simp: require_consistent_security_configuration_def)
  then show ?thesis unfolding check_secrets_None check_modes_None check_audit_paths_None
    by (cases "runtime_mode_consistent s") (simp_all add: check_runtime_files_None)
qed

text \<open>A configuration of the Web runtime, on an empty file system.\<close>

definition ex_web_settings :: settings where
  "ex_web_settings = \<lparr>se_shared_secret = replicate 32 (CHR ''a''), se_audit_key = replicate 32 (CHR ''b''),
     se_workspace = ''./workspace'', se_policy_file = ''./policy.yaml'', se_audit_log = ''./audit.jsonl'',
     se_audit_anchor_log = Some ''./anchor.jsonl'', se_audit_anchor_key = Some (replicate 32 (CHR ''c'')),
     se_replay_db = ''./replay.sqlite3'', se_replay_max_entries = 10000, se_approval_db = ''./approvals.sqlite3'',
     se_approval_max_entries = 1000, se_approval_ttl_seconds = 900, se_sandbox_root = ''./sandboxes'',
     se_docker_image = ''python:3.12-slim'', se_mcp_enabled = True, se_mcp_token = Some (replicate 32 (CHR ''d'')),
     se_c0_enabled = False, se_c0_server_build_commit = None, se_provider_runtime_mode = Some Chatgpt_web_c9,
     se_provider_runtime_root = Some ''/srv'', se_c8_live_cycle_file = None,
     se_c9_control_token = Some (replicate 32 (CHR ''e'')), se_c9_server_build_commit = Some (replicate 40 (CHR ''0'')),
     se_c9_state_directory = Some ''/srv/.systeme-local/c9/run'', se_c9_admission_file = Some ''/srv/.systeme-local/c9/run/admission.json'',
     se_c9_local_ai_runtime_observation_file = Some ''/srv/.systeme-local/c9/run/runtime.json'',
     se_c9_local_ai_endpoint = Some ''http://127.0.0.1:8080/v1/chat/completions'', se_c9_local_ai_model = Some ''local'',
     se_mcp_max_request_bytes = 1048576, se_mcp_requests_per_minute = 120, se_mcp_max_concurrency = 4,
     se_mcp_max_rendered_response_bytes = 16777216\<rparr>"

text \<open>C32. Acceptance of the settings: the values read from the environment become the settings of the gateway exactly
  when every field is valid, the audit anchor has both a log and a key or neither, all configured secrets are ASCII and pairwise
  different, the selected runtime mode is complete, its files resolve into \<open>.systeme-local/c8\<close> (Work) or have the layout below
  \<open>.systeme-local/c9\<close> without a link on the way (Web), and the audit log, the anchor log and their locks are different files; the values are not changed.\<close>

theorem settings_accepted_iff:
  "create_settings fs cwd s = Inr s' \<longleftrightarrow>
     s' = s \<and> settings_fields_valid s \<and>
     ((se_audit_anchor_log s = None) = (se_audit_anchor_key s = None)) \<and>
     list_all is_ascii (configured_secrets s) \<and> distinct (configured_secrets s) \<and>
     runtime_mode_consistent s \<and> runtime_files_consistent fs cwd s \<and> audit_files_disjoint fs cwd s"
  unfolding create_settings_def using consistent_configuration_iff [of fs cwd s] by (auto split: option.splits)

lemma ex_endpoint: "validate_c9_local_ai_endpoint ''http://127.0.0.1:8080/v1/chat/completions'' = Inr ''http://127.0.0.1:8080/v1/chat/completions''"
proof -
  let ?u = "''http://127.0.0.1:8080/v1/chat/completions''"
  have "url_port ?u = Some (Some 8080)"
    by (simp add: url_port_def url_netloc_def url_rest_def is_digit_def digit_val_def)
  moreover have "py_strip ?u = ?u" "url_scheme ?u = ''http''" "url_host ?u = ''127.0.0.1''" "url_path ?u = ''/v1/chat/completions''"
    by code_simp+
  moreover have "set ?u \<inter> {CHR 0x5C, CHR ''?'', CHR ''#''} = {}" "\<not> list_ex (\<lambda>c. (of_char c :: nat) < 32) ?u"
    "set (url_netloc ?u) \<inter> set ''[]'' = {}" "CHR ''@'' \<notin> set (url_netloc ?u)" by code_simp+
  ultimately show ?thesis by (simp only: validate_c9_local_ai_endpoint_def) simp
qed

lemma ex_web_settings_fields: "settings_fields_valid ex_web_settings"
proof -
  have "validate_c9_local_ai_model_setting ''local''" "commit_pattern (replicate 40 (CHR ''0''))"
    "list_all (\<lambda>c. reject_insecure_secret (replicate 32 c)) ''abcde''" by code_simp+
  then show ?thesis
    by (simp add: settings_fields_valid_def ex_web_settings_def ex_endpoint len_between_def optional_def)
qed

lemma ex_web_settings_accepted: "create_settings (Dir []) [''home''] ex_web_settings = Inr ex_web_settings"
proof -
  have "require_consistent_security_configuration (Dir []) [''home''] ex_web_settings = None" by code_simp
  then show ?thesis by (simp add: create_settings_def ex_web_settings_fields)
qed

end
