(* ===== verification/Png_Format.thy ===== *)
theory Png_Format
  imports Attachment_Content
begin

text \<open>
  The PNG inspection against the format it is meant to accept: a signature, a valid header chunk, chunks that are neither
  header nor end with image data among them, and an empty end chunk, each chunk with its length and its CRC.
\<close>

section \<open>Big-endian numbers\<close>

lemma be_value_Nil [simp]: "be_value [] = 0"
  by (simp add: be_value_def)

lemma be_value_snoc: "be_value (bs @ [b]) = be_value bs * 256 + of_char b"
  by (simp add: be_value_def)

lemma of_char_int: "(of_char c :: int) = int (of_char c)"
  by (simp add: of_char_def)

lemma be_value_nonneg: "0 \<le> be_value bs"
  by (induction bs rule: rev_induct) (simp_all add: be_value_snoc of_char_int)

lemma be_value_less: "be_value bs < 256 ^ length bs"
proof (induction bs rule: rev_induct)
  case (snoc b bs)
  have "(of_char b :: int) < 256" using nat_of_char_less_256 [of b] by (simp add: of_char_int)
  then show ?case using snoc by (simp add: be_value_snoc)
qed simp

lemma be_value_be_bytes: "n < 256 ^ k \<Longrightarrow> be_value (be_bytes k n) = int n"
proof (induction k arbitrary: n)
  case (Suc k)
  have "be_value (be_bytes k (n div 256)) = int (n div 256)" using Suc.prems by (intro Suc.IH) (auto simp: less_mult_imp_div_less)
  then have "be_value (be_bytes (Suc k) n) = int (n div 256) * 256 + int (n mod 256)" by (simp add: be_value_snoc of_char_int)
  also have "\<dots> = int n" by (simp add: zdiv_int zmod_int)
  finally show ?case .
qed simp

lemma be_bytes_be_value: "be_bytes (length bs) (nat (be_value bs)) = bs"
proof (induction bs rule: rev_induct)
  case (snoc b bs)
  have b: "(of_char b :: nat) < 256" by (rule nat_of_char_less_256)
  have n: "nat (be_value (bs @ [b])) = nat (be_value bs) * 256 + of_char b"
    using be_value_nonneg [of bs] by (simp add: be_value_snoc of_char_int nat_add_distrib nat_mult_distrib)
  have "nat (be_value (bs @ [b])) div 256 = nat (be_value bs)" "nat (be_value (bs @ [b])) mod 256 = of_char b"
    using b by (simp_all add: n)
  then show ?case using snoc by simp
qed simp

section \<open>Chunks\<close>

type_synonym chunk = "string \<times> bytes"

lemma crc32_append: "crc32 (t @ d) 0 = crc32 d (crc32 t 0)"
  by (simp add: crc32_def)

definition encode_chunk :: "chunk \<Rightarrow> bytes" where
  "encode_chunk c = be_bytes 4 (length (snd c)) @ fst c @ snd c @ be_bytes 4 (unat (crc32 (fst c @ snd c) 0))"

definition valid_chunk :: "chunk \<Rightarrow> bool" where
  "valid_chunk c \<longleftrightarrow> length (fst c) = 4 \<and> list_all ascii_letter (fst c) \<and> length (snd c) < 256 ^ 4"

lemma unat_crc: "unat (w :: 32 word) < 256 ^ 4"
  using unsigned_less [of w] by simp

text \<open>What one turn of the loop reads.\<close>

lemma chunk_written:
  assumes "valid_chunk (t, d)" "rest = encode_chunk (t, d) @ rest'"
  shows "rest \<noteq> []" "\<not> length rest < 12" "be_value (take 4 rest) = int (length d)" "take 4 (drop 4 rest) = t"
    "\<not> int (length rest) < 12 + int (length d)" "take (length d) (drop 8 rest) = d" "drop 4 (drop (8 + length d) rest) = rest'"
    "be_value (take 4 (drop (8 + length d) rest)) = uint (crc32 d (crc32 t 0))"
proof -
  have t: "length t = 4" using assms(1) by (simp add: valid_chunk_def)
  have rest: "rest = be_bytes 4 (length d) @ t @ d @ be_bytes 4 (unat (crc32 (t @ d) 0)) @ rest'"
    using assms(2) by (simp add: encode_chunk_def)
  show "rest \<noteq> []" "\<not> length rest < 12" "take 4 (drop 4 rest) = t" "\<not> int (length rest) < 12 + int (length d)"
    "take (length d) (drop 8 rest) = d" "drop 4 (drop (8 + length d) rest) = rest'" using t by (auto simp: rest)
  show "be_value (take 4 rest) = int (length d)" using assms(1) by (simp add: rest be_value_be_bytes valid_chunk_def)
  have "take 4 (drop (8 + length d) rest) = be_bytes 4 (unat (crc32 (t @ d) 0))" using t by (simp add: rest)
  then show "be_value (take 4 (drop (8 + length d) rest)) = uint (crc32 d (crc32 t 0))"
    by (simp only: be_value_be_bytes [OF unat_crc] crc32_append uint_nat)
qed

lemma png_loop_chunk:
  assumes "valid_chunk (t, d)"
  shows "png_loop (encode_chunk (t, d) @ rest') i dims saw =
    (case png_first i t d dims of Inl e \<Rightarrow> Inl e
     | Inr dims' \<Rightarrow>
         if t = ''IEND'' then
           if d \<noteq> [] \<or> \<not> (saw \<or> t = ''IDAT'') then png_error ''invalid PNG IEND''
           else if rest' \<noteq> [] then png_error ''trailing bytes after PNG IEND''
           else (case dims' of None \<Rightarrow> png_error ''incomplete PNG structure'' | Some wh \<Rightarrow> Inr wh)
         else png_loop rest' (i + 1) dims' (saw \<or> t = ''IDAT''))"
proof -
  have t: "list_all ascii_letter t" using assms by (simp add: valid_chunk_def)
  obtain rest where r: "rest = encode_chunk (t, d) @ rest'" by simp
  note w = chunk_written [OF assms r]
  have n: "nat (int (length d)) = length d" "(int (length d) \<noteq> 0) = (d \<noteq> [])" by simp_all
  show ?thesis unfolding r [symmetric]
    by (subst png_loop.simps) (simp only: w t n Let_def if_True if_False not_True_eq_False not_False_eq_True simp_thms)
qed

lemma chunk_read:
  assumes "\<not> length rest < 12" "list_all ascii_letter (take 4 (drop 4 rest))" "\<not> int (length rest) < 12 + be_value (take 4 rest)"
    and d: "d = take (nat (be_value (take 4 rest))) (drop 8 rest)" and after: "after = drop (8 + nat (be_value (take 4 rest))) rest"
    and crc: "be_value (take 4 after) = uint (crc32 d (crc32 (take 4 (drop 4 rest)) 0))"
  shows "rest = encode_chunk (take 4 (drop 4 rest), d) @ drop 4 after \<and> valid_chunk (take 4 (drop 4 rest), d)"
proof -
  let ?n = "nat (be_value (take 4 rest))" and ?t = "take 4 (drop 4 rest)"
  obtain k where k: "be_value (take 4 rest) = int k" using be_value_nonneg [of "take 4 rest"] nonneg_int_cases by blast
  have len: "length d = ?n" "4 \<le> length after" using assms(1,3) by (auto simp: d after k)
  have l4: "be_bytes 4 ?n = take 4 rest" using be_bytes_be_value [of "take 4 rest"] assms(1) by (simp add: min_absorb2)
  have "nat (be_value (take 4 after)) = unat (crc32 (?t @ d) 0)" by (simp only: crc crc32_append unat_eq_nat_uint)
  then have "be_bytes 4 (unat (crc32 (?t @ d) 0)) = take 4 after"
    using be_bytes_be_value [of "take 4 after"] len(2) by (simp add: min_absorb2)
  then have "encode_chunk (?t, d) @ drop 4 after = take 4 rest @ ?t @ d @ after"
    by (simp add: encode_chunk_def len(1) l4)
  also have "d @ after = drop 8 rest" by (simp only: d after add.commute [of 8] drop_drop [symmetric] append_take_drop_id)
  also have "take 4 rest @ ?t @ drop 8 rest = rest" 
    using append_take_drop_id [of 4 rest] append_take_drop_id [of 4 "drop 4 rest"] by simp
  finally have "rest = encode_chunk (?t, d) @ drop 4 after" by simp
  moreover have "?n < 256 ^ 4"
  proof -
    have "be_value (take 4 rest) < 256 ^ 4" using be_value_less [of "take 4 rest"] assms(1) by (simp add: min_absorb2)
    then show ?thesis using be_value_nonneg [of "take 4 rest"] by (simp add: nat_less_iff)
  qed
  ultimately show ?thesis using assms(1,2) len(1) by (simp add: valid_chunk_def)
qed

lemma png_loop_Inr:
  assumes "png_loop rest i dims saw = Inr wh"
  obtains t d rest' where "valid_chunk (t, d)" "rest = encode_chunk (t, d) @ rest'"
proof -
  define t where "t = take 4 (drop 4 rest)"
  define d where "d = take (nat (be_value (take 4 rest))) (drop 8 rest)"
  define after where "after = drop (8 + nat (be_value (take 4 rest))) rest"
  have "\<not> length rest < 12 \<and> list_all ascii_letter t \<and> \<not> int (length rest) < 12 + be_value (take 4 rest) \<and>
    be_value (take 4 after) = uint (crc32 d (crc32 t 0))"
    using assms unfolding png_loop.simps [of rest] Let_def t_def [symmetric] d_def [symmetric] after_def [symmetric]
    by (simp add: png_error_def split: if_splits)
  then have "rest = encode_chunk (t, d) @ drop 4 after \<and> valid_chunk (t, d)"
    unfolding t_def by (intro chunk_read) (auto simp: d_def after_def)
  then show ?thesis using that by blast
qed

section \<open>Files\<close>

definition end_chunk :: chunk where
  "end_chunk = (''IEND'', [])"

definition inner_chunk :: "chunk \<Rightarrow> bool" where
  "inner_chunk c \<longleftrightarrow> valid_chunk c \<and> fst c \<notin> {''IHDR'', ''IEND''}"

definition has_image_data :: "chunk list \<Rightarrow> bool" where
  "has_image_data cs \<longleftrightarrow> ''IDAT'' \<in> fst ` set cs"

definition encode_chunks :: "chunk list \<Rightarrow> bytes" where
  "encode_chunks cs = concat (map encode_chunk cs)"

lemma valid_end_chunk: "valid_chunk (''IEND'', [])"
  by (simp add: valid_chunk_def ascii_letter_def)

lemma png_loop_accepts:
  "list_all inner_chunk cs \<Longrightarrow> saw \<or> has_image_data cs \<Longrightarrow> 0 < i \<Longrightarrow>
     png_loop (encode_chunks (cs @ [end_chunk])) i (Some wh) saw = Inr wh"
proof (induction cs arbitrary: i saw)
  case Nil
  then have saw: "saw" by (simp add: has_image_data_def)
  have "png_loop (encode_chunk (''IEND'', []) @ []) i (Some wh) saw = Inr wh"
    unfolding png_loop_chunk [OF valid_end_chunk] using Nil saw by (simp add: png_first_def)
  then show ?case by (simp add: encode_chunks_def end_chunk_def)
next
  case (Cons c cs)
  obtain t d where c: "c = (t, d)" by (cases c)
  have v: "valid_chunk (t, d)" and t: "t \<noteq> ''IHDR''" "t \<noteq> ''IEND''" using Cons.prems(1) by (auto simp: c inner_chunk_def)
  have "png_loop (encode_chunks (cs @ [end_chunk])) (i + 1) (Some wh) (saw \<or> t = ''IDAT'') = Inr wh"
    using Cons.prems by (intro Cons.IH) (auto simp: c has_image_data_def)
  then have "png_loop (encode_chunk (t, d) @ encode_chunks (cs @ [end_chunk])) i (Some wh) saw = Inr wh"
    unfolding png_loop_chunk [OF v] using Cons.prems(3) t by (simp add: png_first_def)
  then show ?case by (simp add: c encode_chunks_def)
qed

lemma png_loop_complete:
  "png_loop rest i (Some wh) saw = Inr wh' \<Longrightarrow> 0 < i \<Longrightarrow>
     wh' = wh \<and> (\<exists>cs. rest = encode_chunks (cs @ [end_chunk]) \<and> list_all inner_chunk cs \<and> (saw \<or> has_image_data cs))"
proof (induction "length rest" arbitrary: rest i saw rule: less_induct)
  case less
  obtain t d rest' where v: "valid_chunk (t, d)" and rest: "rest = encode_chunk (t, d) @ rest'"
    using png_loop_Inr [OF less.prems(1)] .
  have shorter: "length rest' < length rest" using chunk_written(2) [OF v rest] by (simp add: rest encode_chunk_def)
  have step: "t \<noteq> ''IHDR''" "if t = ''IEND'' then d = [] \<and> saw \<and> rest' = [] \<and> wh' = wh
      else png_loop rest' (i + 1) (Some wh) (saw \<or> t = ''IDAT'') = Inr wh'"
    using less.prems unfolding rest png_loop_chunk [OF v] by (auto simp: png_first_def png_error_def split: if_splits)
  show ?case
  proof (cases "t = ''IEND''")
    case True
    then show ?thesis using step(2) by (intro conjI exI [of _ "[]"]) (simp_all add: rest encode_chunks_def end_chunk_def)
  next
    case False
    with step(2) have "png_loop rest' (i + 1) (Some wh) (saw \<or> t = ''IDAT'') = Inr wh'" by simp
    from less.hyps [OF shorter this] obtain cs where cs: "wh' = wh" "rest' = encode_chunks (cs @ [end_chunk])"
        "list_all inner_chunk cs" "(saw \<or> t = ''IDAT'') \<or> has_image_data cs" by auto
    then show ?thesis using False step(1) v
      by (intro conjI exI [of _ "(t, d) # cs"]) (auto simp: rest encode_chunks_def inner_chunk_def has_image_data_def)
  qed
qed

text \<open>C30. PNG inspection is exact: the bytes are accepted with a width and a height exactly when they are the PNG signature
  followed by a header chunk that declares this size with a legal depth, any chunks that are neither header nor end with
  image data among them, and an empty end chunk, every chunk with its length, a four-letter type and its CRC-32, and
  nothing after it.\<close>

theorem png_inspection_exact:
  "inspect_png content = Inr (w, h) \<longleftrightarrow>
     (\<exists>header cs. content = png_signature @ encode_chunks ([(''IHDR'', header)] @ cs @ [end_chunk]) \<and>
        length header = 13 \<and> png_header header = Inr (w, h) \<and> list_all inner_chunk cs \<and> has_image_data cs)"
proof
  assume "inspect_png content = Inr (w, h)"
  then have c: "take 8 content = png_signature" and l: "png_loop (drop 8 content) 0 None False = Inr (w, h)"
    by (auto simp: inspect_png_def png_error_def split: if_splits)
  obtain t d rest' where v: "valid_chunk (t, d)" and rest: "drop 8 content = encode_chunk (t, d) @ rest'" using png_loop_Inr [OF l] .
  have h: "t = ''IHDR''" "length d = 13"
    using l unfolding rest png_loop_chunk [OF v] by (auto simp: png_first_def png_error_def split: if_splits)
  obtain wh where wh: "png_header d = Inr wh" "png_loop rest' 1 (Some wh) False = Inr (w, h)"
    using l unfolding rest png_loop_chunk [OF v] by (auto simp: h png_first_def split: sum.splits)
  from png_loop_complete [OF wh(2)] obtain cs where cs: "(w, h) = wh" "rest' = encode_chunks (cs @ [end_chunk])"
      "list_all inner_chunk cs" "has_image_data cs" by auto
  have "content = png_signature @ encode_chunks ([(''IHDR'', d)] @ cs @ [end_chunk])"
    using c rest append_take_drop_id [of 8 content] by (simp add: h cs(2) encode_chunks_def)
  with h(2) wh(1) cs show "\<exists>header cs. content = png_signature @ encode_chunks ([(''IHDR'', header)] @ cs @ [end_chunk]) \<and>
      length header = 13 \<and> png_header header = Inr (w, h) \<and> list_all inner_chunk cs \<and> has_image_data cs" by blast
next
  assume "\<exists>header cs. content = png_signature @ encode_chunks ([(''IHDR'', header)] @ cs @ [end_chunk]) \<and>
    length header = 13 \<and> png_header header = Inr (w, h) \<and> list_all inner_chunk cs \<and> has_image_data cs"
  then obtain header cs where c: "content = png_signature @ encode_chunk (''IHDR'', header) @ encode_chunks (cs @ [end_chunk])"
    and h: "length header = 13" "png_header header = Inr (w, h)" "list_all inner_chunk cs" "has_image_data cs"
    by (auto simp: encode_chunks_def)
  have v: "valid_chunk (''IHDR'', header)" using h(1) by (simp add: valid_chunk_def ascii_letter_def)
  have "png_loop (encode_chunk (''IHDR'', header) @ encode_chunks (cs @ [end_chunk])) 0 None False = Inr (w, h)"
    unfolding png_loop_chunk [OF v] using h png_loop_accepts [OF h(3), of False 1 "(w, h)"] by (simp add: png_first_def)
  moreover have "take 8 content = png_signature" "drop 8 content = encode_chunk (''IHDR'', header) @ encode_chunks (cs @ [end_chunk])"
    "\<not> length content < 8 + 12" by (simp_all add: c png_signature_def encode_chunk_def)
  ultimately show "inspect_png content = Inr (w, h)" by (simp add: inspect_png_def)
qed

end
