(* ===== verification/Attachment_Commit.thy ===== *)
theory Attachment_Commit
  imports Png_Format Json_Scanner
begin

text \<open>
  providers/attachment_commit.py: committing the bytes of an attachment and a manifest of attachments to a turn, and verifying
  them later. The inspection of the bytes is in Attachment_Content.
\<close>

section \<open>Operations\<close>

datatype verification_reason = Content_digest_changed | Byte_size_changed | Media_type_changed | Image_dimensions_changed
  | Turn_binding_changed | Manifest_binding_changed | Attachment_integrity_changed | Manifest_integrity_changed | Verification_before_commit

datatype attachment_failure =
    Attachment_value string
  | Attachment_model model_error
  | Attachment_inspection inspection_reason string
  | Attachment_verification verification_reason string

text \<open>An exception of the validation becomes the given one; an overflow while framing is not caught.\<close>

definition integrity :: "model_error option \<Rightarrow> attachment_failure \<Rightarrow> attachment_failure option" where
  "integrity r failure = (case r of None \<Rightarrow> None
     | Some Framing_overflow \<Rightarrow> Some (Attachment_model Framing_overflow) | Some _ \<Rightarrow> Some failure)"

definition validate_attachment_integrity :: "(bytes \<Rightarrow> bytes) \<Rightarrow> committed_attachment \<Rightarrow> attachment_failure option" where
  "validate_attachment_integrity sha a = integrity (check_attachment sha a)
     (Attachment_verification Attachment_integrity_changed ''committed attachment integrity validation failed'')"

definition validate_manifest_integrity :: "(bytes \<Rightarrow> bytes) \<Rightarrow> attachment_manifest \<Rightarrow> attachment_failure option" where
  "validate_manifest_integrity sha m = integrity (check_manifest sha m)
     (Attachment_verification Manifest_integrity_changed ''attachment manifest integrity validation failed'')"

definition no_timezone :: attachment_failure where
  "no_timezone = Attachment_value ''timestamps must include a timezone''"

definition inspect_attachment_bytes ::
  "(bytes \<Rightarrow> bytes) \<Rightarrow> bytes \<Rightarrow> media_type \<Rightarrow> datetime \<Rightarrow> attachment_failure + attachment_inspection" where
  "inspect_attachment_bytes sha content media inspected =
     (if content = [] then Inl (Attachment_inspection Empty_content ''attachment content is empty'')
      else if max_inspection_bytes < int (length content)
        then Inl (Attachment_inspection Content_too_large ''attachment content exceeds the local inspection ceiling'')
      else case inspect_content media content of Inl (reason, message) \<Rightarrow> Inl (Attachment_inspection reason message)
      | Inr dims \<Rightarrow>
          if \<not> dt_aware inspected then Inl no_timezone
          else let i = \<lparr>ai_media_type = media, ai_content_sha256 = hexlify (sha content), ai_byte_size = int (length content),
              ai_image_width = map_option fst dims, ai_image_height = map_option snd dims, ai_inspected_at = dt_instant inspected\<rparr>
            in (case check_inspection i of Some e \<Rightarrow> Inl (Attachment_model e) | None \<Rightarrow> Inr i))"

definition commit_attachment ::
  "(bytes \<Rightarrow> bytes) \<Rightarrow> committed_turn \<Rightarrow> string \<Rightarrow> int \<Rightarrow> string \<Rightarrow> attachment_role \<Rightarrow> attachment_source \<Rightarrow> media_type \<Rightarrow> bytes \<Rightarrow>
    datetime \<Rightarrow> datetime \<Rightarrow> attachment_failure + committed_attachment" where
  "commit_attachment sha turn attachment_id ordinal display_name role source media content inspected committed =
     (case validate_attachment_display_name display_name of Some e \<Rightarrow> Inl (Attachment_model e)
      | None \<Rightarrow>
          if \<not> dt_aware inspected \<or> \<not> dt_aware committed then Inl no_timezone
          else if dt_instant inspected < ct_committed_at turn
            then Inl (Attachment_value ''attachment inspection cannot precede the committed turn'')
          else if dt_instant committed < dt_instant inspected then Inl (Attachment_value ''attachment commit cannot precede inspection'')
          else case inspect_attachment_bytes sha content media inspected of Inl e \<Rightarrow> Inl e
            | Inr i \<Rightarrow>
                let a = \<lparr>ca_attachment_id = attachment_id, ca_conversation_id = ct_conversation_id turn, ca_turn_id = ct_turn_id turn,
                    ca_trace_id = ct_trace_id turn, ca_ordinal = ordinal, ca_display_name = display_name, ca_role = role,
                    ca_source = source, ca_inspection = i, ca_committed_at = dt_instant committed, ca_metadata_sha256 = []\<rparr>
                in (case attachment_metadata_sha256 sha a of Inl e \<Rightarrow> Inl (Attachment_model e)
                    | Inr d \<Rightarrow> let a' = a\<lparr>ca_metadata_sha256 := d\<rparr> in
                        (case check_attachment sha a' of Some e \<Rightarrow> Inl (Attachment_model e) | None \<Rightarrow> Inr a')))"

definition verify_attachment_bytes ::
  "(bytes \<Rightarrow> bytes) \<Rightarrow> committed_attachment \<Rightarrow> bytes \<Rightarrow> datetime \<Rightarrow> attachment_failure + attachment_inspection" where
  "verify_attachment_bytes sha a content verified =
     (case validate_attachment_integrity sha a of Some e \<Rightarrow> Inl e
      | None \<Rightarrow>
          if \<not> dt_aware verified then Inl no_timezone
          else if dt_instant verified < ca_committed_at a
            then Inl (Attachment_verification Verification_before_commit ''attachment verification cannot precede commitment'')
          else case inspect_attachment_bytes sha content (ai_media_type (ca_inspection a)) verified of Inl e \<Rightarrow> Inl e
            | Inr i \<Rightarrow>
                if ai_media_type i \<noteq> ai_media_type (ca_inspection a)
                  then Inl (Attachment_verification Media_type_changed ''attachment media type changed after commitment'')
                else if ai_byte_size i \<noteq> ai_byte_size (ca_inspection a)
                  then Inl (Attachment_verification Byte_size_changed ''attachment byte size changed after commitment'')
                else if ai_content_sha256 i \<noteq> ai_content_sha256 (ca_inspection a)
                  then Inl (Attachment_verification Content_digest_changed ''attachment content digest changed after commitment'')
                else if ai_image_width i \<noteq> ai_image_width (ca_inspection a) \<or> ai_image_height i \<noteq> ai_image_height (ca_inspection a)
                  then Inl (Attachment_verification Image_dimensions_changed ''attachment dimensions changed after commitment'')
                else Inr i)"

fun check_turn_items :: "(bytes \<Rightarrow> bytes) \<Rightarrow> committed_turn \<Rightarrow> int \<Rightarrow> committed_attachment list \<Rightarrow> attachment_failure option" where
  "check_turn_items sha turn committed_at [] = None"
| "check_turn_items sha turn committed_at (a # items) =
     (case validate_attachment_integrity sha a of Some e \<Rightarrow> Some e
      | None \<Rightarrow>
          if ai_inspected_at (ca_inspection a) < ct_committed_at turn
            then Some (Attachment_verification Turn_binding_changed ''attachment inspection predates the committed turn'')
          else if ca_conversation_id a \<noteq> ct_conversation_id turn \<or> ca_turn_id a \<noteq> ct_turn_id turn \<or> ca_trace_id a \<noteq> ct_trace_id turn
            then Some (Attachment_verification Turn_binding_changed ''attachment does not belong to the committed turn'')
          else if committed_at < ca_committed_at a then Some (Attachment_value ''manifest cannot precede attachment commitment'')
          else check_turn_items sha turn committed_at items)"

definition commit_attachment_manifest ::
  "(bytes \<Rightarrow> bytes) \<Rightarrow> committed_turn \<Rightarrow> string \<Rightarrow> committed_attachment list \<Rightarrow> datetime \<Rightarrow> attachment_failure + attachment_manifest" where
  "commit_attachment_manifest sha turn manifest_id attachments committed =
     (if \<not> dt_aware committed then Inl no_timezone
      else if attachments = [] then Inl (Attachment_value ''attachment manifest requires at least one attachment'')
      else if dt_instant committed < ct_committed_at turn
        then Inl (Attachment_value ''manifest commitment cannot precede the committed turn'')
      else case check_turn_items sha turn (dt_instant committed) attachments of Some e \<Rightarrow> Inl e
        | None \<Rightarrow>
            let m = \<lparr>am_manifest_id = manifest_id, am_conversation_id = ct_conversation_id turn, am_turn_id = ct_turn_id turn,
                am_trace_id = ct_trace_id turn, am_principal = ct_principal turn, am_turn_content_sha256 = ct_content_sha256 turn,
                am_attachment_count = int (length attachments), am_total_bytes = sum_list (map (ai_byte_size \<circ> ca_inspection) attachments),
                am_attachments = attachments, am_committed_at = dt_instant committed, am_manifest_sha256 = []\<rparr>
            in (case attachment_manifest_sha256 sha m of Inl e \<Rightarrow> Inl (Attachment_model e)
                | Inr d \<Rightarrow> let m' = m\<lparr>am_manifest_sha256 := d\<rparr> in
                    (case check_manifest sha m' of Some e \<Rightarrow> Inl (Attachment_model e) | None \<Rightarrow> Inr m')))"

definition verify_attachment_manifest :: "(bytes \<Rightarrow> bytes) \<Rightarrow> attachment_manifest \<Rightarrow> committed_turn \<Rightarrow> attachment_failure option" where
  "verify_attachment_manifest sha m turn =
     (case validate_manifest_integrity sha m of Some e \<Rightarrow> Some e
      | None \<Rightarrow>
          if am_committed_at m < ct_committed_at turn
            then Some (Attachment_verification Manifest_binding_changed ''attachment manifest predates the committed turn'')
          else if list_ex (\<lambda>a. ai_inspected_at (ca_inspection a) < ct_committed_at turn) (am_attachments m)
            then Some (Attachment_verification Manifest_binding_changed ''attachment inspection predates the committed turn'')
          else if am_conversation_id m \<noteq> ct_conversation_id turn \<or> am_turn_id m \<noteq> ct_turn_id turn \<or> am_trace_id m \<noteq> ct_trace_id turn \<or>
              am_principal m \<noteq> ct_principal turn \<or> am_turn_content_sha256 m \<noteq> ct_content_sha256 turn
            then Some (Attachment_verification Manifest_binding_changed ''attachment manifest does not match the committed turn'')
          else None)"

section \<open>Committed bytes\<close>

lemma integrity_None [simp]: "integrity r failure = None \<longleftrightarrow> r = None"
  by (auto simp: integrity_def split: option.splits model_error.splits)

lemma validate_integrity_None:
  "validate_attachment_integrity sha a = None \<longleftrightarrow> check_attachment sha a = None"
  "validate_manifest_integrity sha m = None \<longleftrightarrow> check_manifest sha m = None"
  by (simp_all add: validate_attachment_integrity_def validate_manifest_integrity_def)

lemma inspect_attachment_bytes_Inr:
  "inspect_attachment_bytes sha content media t = Inr i \<longleftrightarrow>
     content \<noteq> [] \<and> int (length content) \<le> max_inspection_bytes \<and> dt_aware t \<and>
     (\<exists>dims. inspect_content media content = Inr dims \<and>
        i = \<lparr>ai_media_type = media, ai_content_sha256 = hexlify (sha content), ai_byte_size = int (length content),
          ai_image_width = map_option fst dims, ai_image_height = map_option snd dims, ai_inspected_at = dt_instant t\<rparr>) \<and>
     check_inspection i = None"
  by (auto simp: inspect_attachment_bytes_def Let_def split: sum.splits option.splits if_splits)

lemma commit_attachment_Inr:
  assumes "commit_attachment sha turn aid ordinal name role src media content inspected committed = Inr a"
  shows "check_attachment sha a = None \<and> inspect_attachment_bytes sha content media inspected = Inr (ca_inspection a) \<and>
    ca_committed_at a = dt_instant committed \<and> ai_media_type (ca_inspection a) = media"
  using assms
  by (auto simp: commit_attachment_def Let_def inspect_attachment_bytes_Inr split: option.splits if_splits sum.splits)

lemma inspection_later:
  assumes "inspect_attachment_bytes sha content media t = Inr i" "dt_aware u" "datetime_range (dt_instant u)"
  shows "inspect_attachment_bytes sha content media u = Inr (i\<lparr>ai_inspected_at := dt_instant u\<rparr>)"
  using assms by (auto simp: inspect_attachment_bytes_Inr check_inspection_def inspection_fields_valid_def validate_dimensions_def
      split: if_splits)

text \<open>C27. Committed bytes are bound: once an attachment is committed, the same bytes verify at any later time with the
  committed inspection, and other bytes never verify, unless SHA-256 gives them the same digest.\<close>

theorem committed_bytes_verify:
  assumes "commit_attachment sha turn aid ordinal name role src media content inspected committed = Inr a"
    and "dt_aware t" "datetime_range (dt_instant t)" "dt_instant committed \<le> dt_instant t"
  shows "verify_attachment_bytes sha a content t = Inr ((ca_inspection a)\<lparr>ai_inspected_at := dt_instant t\<rparr>) \<and>
    (\<forall>content'. is_ok (verify_attachment_bytes sha a content' t) \<longrightarrow> content' = content \<or> clash sha content content')"
proof (intro conjI allI impI)
  from commit_attachment_Inr [OF assms(1)] have a: "check_attachment sha a = None"
    "inspect_attachment_bytes sha content media inspected = Inr (ca_inspection a)" "ca_committed_at a = dt_instant committed"
    "ai_media_type (ca_inspection a) = media" by auto
  have v: "validate_attachment_integrity sha a = None" using a(1) by (simp add: validate_integrity_None)
  show "verify_attachment_bytes sha a content t = Inr ((ca_inspection a)\<lparr>ai_inspected_at := dt_instant t\<rparr>)"
    using inspection_later [OF a(2) assms(2,3)] assms(2,4) by (simp add: verify_attachment_bytes_def v a(3,4))
  fix content' assume "is_ok (verify_attachment_bytes sha a content' t)"
  then obtain i where i: "inspect_attachment_bytes sha content' (ai_media_type (ca_inspection a)) t = Inr i"
      "ai_content_sha256 i = ai_content_sha256 (ca_inspection a)"
    by (auto simp: verify_attachment_bytes_def is_ok_def split: option.splits if_splits sum.splits)
  moreover have "ai_content_sha256 (ca_inspection a) = hexlify (sha content)" using a(2) by (auto simp: inspect_attachment_bytes_Inr)
  ultimately have "sha content' = sha content" by (auto simp: inspect_attachment_bytes_Inr)
  then show "content' = content \<or> clash sha content content'" by (auto simp: clash_def)
qed

section \<open>Committed manifests\<close>

lemma check_turn_items_None:
  "check_turn_items sha turn at items = None \<longleftrightarrow>
     (\<forall>a \<in> set items. check_attachment sha a = None \<and> ct_committed_at turn \<le> ai_inspected_at (ca_inspection a) \<and>
        ca_conversation_id a = ct_conversation_id turn \<and> ca_turn_id a = ct_turn_id turn \<and> ca_trace_id a = ct_trace_id turn \<and>
        ca_committed_at a \<le> at)"
  unfolding validate_integrity_None [symmetric] by (induction items) (auto split: option.splits)

text \<open>The turn a manifest belongs to.\<close>

definition manifest_of_turn :: "attachment_manifest \<Rightarrow> committed_turn \<Rightarrow> bool" where
  "manifest_of_turn m turn \<longleftrightarrow> am_conversation_id m = ct_conversation_id turn \<and> am_turn_id m = ct_turn_id turn \<and>
     am_trace_id m = ct_trace_id turn \<and> am_principal m = ct_principal turn \<and> am_turn_content_sha256 m = ct_content_sha256 turn \<and>
     ct_committed_at turn \<le> am_committed_at m \<and>
     list_all (\<lambda>a. ct_committed_at turn \<le> ai_inspected_at (ca_inspection a)) (am_attachments m)"

lemma verify_attachment_manifest_None:
  "verify_attachment_manifest sha m turn = None \<longleftrightarrow> check_manifest sha m = None \<and> manifest_of_turn m turn"
  unfolding validate_integrity_None(2) [symmetric]
  by (auto simp: verify_attachment_manifest_def manifest_of_turn_def list_ex_iff list_all_iff not_less not_le split: option.splits)

lemma committed_manifest_verifies:
  assumes "commit_attachment_manifest sha turn manifest_id attachments committed = Inr m"
  shows "am_attachments m = attachments \<and> verify_attachment_manifest sha m turn = None"
proof -
  from assms have t: "check_turn_items sha turn (dt_instant committed) attachments = None" "ct_committed_at turn \<le> dt_instant committed"
    and m: "am_attachments m = attachments" "check_manifest sha m = None" "am_committed_at m = dt_instant committed"
      "am_conversation_id m = ct_conversation_id turn" "am_turn_id m = ct_turn_id turn" "am_trace_id m = ct_trace_id turn"
      "am_principal m = ct_principal turn" "am_turn_content_sha256 m = ct_content_sha256 turn"
    by (auto simp: commit_attachment_manifest_def Let_def split: option.splits if_splits sum.splits)
  from t have "manifest_of_turn m turn"
    unfolding manifest_of_turn_def m by (simp add: check_turn_items_None list_all_iff)
  with m(1,2) show ?thesis by (simp add: verify_attachment_manifest_None)
qed

text \<open>A text is committed and found again.\<close>

definition ex_att_turn :: committed_turn where
  "ex_att_turn = \<lparr>ct_conversation_id = ''conv_one'', ct_turn_id = ''turn_one'', ct_trace_id = ''trace_one'', ct_idempotency_key = ''idem_one'',
     ct_principal = ex_att_principal, ct_committed_at = 1700000000000000, ct_content_sha256 = ex_digest,
     ct_utf8_bytes = 4, ct_part_count = 1\<rparr>"

definition ex_att_time :: "int \<Rightarrow> datetime" where
  "ex_att_time us = \<lparr>dt_instant = us, dt_aware = True, dt_text = []\<rparr>"

lemma ex_inspected: "inspect_attachment_bytes ex_att_sha ''hello'' Media_text (ex_att_time 1700000000000000) = Inr ex_inspection"
proof -
  have "inspect_text ''hello'' = Inr (points ''hello'')" by code_simp
  moreover have "check_inspection ex_inspection = None" using ex_attachment_valid
    by (simp add: check_attachment_def ex_attachment_def split: if_splits)
  ultimately show ?thesis unfolding inspect_attachment_bytes_Inr
    by (simp add: no_dimensions_def ex_inspection_def ex_att_sha_def ex_digest_def ex_att_time_def max_inspection_bytes_def)
qed

lemma ex_att_commit:
  "commit_attachment ex_att_sha ex_att_turn ''att_one'' 0 ''notes.txt'' Role_reference Source_operator_selected Media_text ''hello''
     (ex_att_time 1700000000000000) (ex_att_time 1700000001000000) = Inr ex_attachment"
proof -
  have "attachment_metadata_sha256 ex_att_sha (ex_attachment\<lparr>ca_metadata_sha256 := []\<rparr>) = Inr ex_digest"
    using check_attachmentD(5) [OF ex_attachment_valid]
    by (simp add: attachment_metadata_sha256_def metadata_frames_def ex_attachment_def)
  then show ?thesis using ex_attachment_valid
    by (simp add: commit_attachment_def ex_lengths ex_inspected ex_att_turn_def ex_attachment_def) (simp add: ex_att_time_def)
qed

theorem committed_bytes_verify_witness:
  "verify_attachment_bytes ex_att_sha ex_attachment ''hello'' (ex_att_time 1700000005000000) =
     Inr ((ca_inspection ex_attachment)\<lparr>ai_inspected_at := 1700000005000000\<rparr>)"
  using committed_bytes_verify [OF ex_att_commit, of "ex_att_time 1700000005000000"] by (simp add: ex_att_time_def datetime_range_def)

end
