(* ===== verification/Attachment_Policy.thy ===== *)
theory Attachment_Policy
  imports Attachment_Commit
begin

text \<open>
  providers/attachment_policy.py: planning the batches in which the attachments of a manifest are uploaded under the limits of
  a provider, and verifying such a plan.
\<close>

section \<open>Errors\<close>

datatype planning_reason = Support_unknown | Support_unsupported | Profile_from_future | Manifest_integrity_invalid
  | Profile_integrity_invalid | Plan_integrity_invalid | Quota_integrity_invalid | Plan_before_manifest | Plan_account_mismatch
  | Media_unsupported | File_too_large | Manifest_too_large | Too_many_files | Image_width_exceeded | Image_height_exceeded
  | Image_pixels_exceeded | Upload_quota_missing | Upload_quota_account_mismatch | Upload_quota_dimension_mismatch
  | Upload_quota_from_future | Upload_quota_stale | Upload_quota_unknown | Upload_quota_exhausted | Upload_quota_unavailable
  | Upload_quota_reset_pending | Too_many_batches | Plan_binding_mismatch | Plan_content_mismatch

datatype planning_failure =
    Planning planning_reason string "string option"
  | Planning_value string
  | Planning_model model_error

definition planning_error :: "planning_reason \<Rightarrow> string \<Rightarrow> planning_failure" where
  "planning_error reason message = Planning reason message None"

fun first_failure :: "planning_failure option list \<Rightarrow> planning_failure option" where
  "first_failure [] = None"
| "first_failure (None # es) = first_failure es"
| "first_failure (Some e # es) = Some e"

definition unless :: "bool \<Rightarrow> planning_reason \<Rightarrow> string \<Rightarrow> planning_failure option" where
  "unless ok reason message = (if ok then None else Some (planning_error reason message))"

text \<open>\<open>_validate_model_integrity\<close> catches the errors of the validation, not an overflow while framing.\<close>

definition validate_model_integrity :: "model_error option \<Rightarrow> planning_reason \<Rightarrow> string \<Rightarrow> planning_failure option" where
  "validate_model_integrity r reason message = (case r of None \<Rightarrow> None
     | Some Framing_overflow \<Rightarrow> Some (Planning_model Framing_overflow) | Some _ \<Rightarrow> Some (planning_error reason message))"

definition check_quota_model :: "provider_quota_snapshot \<Rightarrow> model_error option" where
  "check_quota_model q = (if quota_snapshot_valid q then None else Some Invalid_fields)"

section \<open>Checks\<close>

definition validate_profile_support :: "attachment_profile \<Rightarrow> int \<Rightarrow> planning_failure option" where
  "validate_profile_support p evaluated_at =
     first_failure [unless (cl_state (fp_support p) \<noteq> Unknown) Support_unknown ''attachment support is unknown for this provider surface'',
       unless (cl_state (fp_support p) \<noteq> Unsupported) Support_unsupported ''attachment support is unavailable for this provider surface'',
       unless (\<not> evaluated_at < fp_observed_at p) Profile_from_future ''attachment capability profile cannot come from the future'']"

definition validate_attachment_against_profile ::
  "committed_attachment \<Rightarrow> attachment_profile \<Rightarrow> planning_failure + media_family_kind" where
  "validate_attachment_against_profile a p =
     (let i = ca_inspection a; fail = (\<lambda>reason message. Inl (Planning reason message (Some (ca_attachment_id a)))) in
      if ai_media_type i \<notin> set (fp_supported_media_types p)
        then fail Media_unsupported (''unsupported attachment media type: '' @ media_value (ai_media_type i))
      else if fp_max_file_bytes p < ai_byte_size i then fail File_too_large ''attachment exceeds the provider per-file byte limit''
      else if fp_max_batch_bytes p < ai_byte_size i then fail File_too_large ''single attachment exceeds the provider batch byte limit''
      else if media_family (ai_media_type i) = Family_image then
        (case (ai_image_width i, ai_image_height i) of
           (Some width, Some height) \<Rightarrow>
             if fp_max_image_width p < width then fail Image_width_exceeded ''image width exceeds the provider limit''
             else if fp_max_image_height p < height then fail Image_height_exceeded ''image height exceeds the provider limit''
             else if fp_max_image_pixels p < width * height then fail Image_pixels_exceeded ''image pixel count exceeds the provider limit''
             else Inr Family_image
         | _ \<Rightarrow> Inl (Planning_value ''assertion failed''))
      else Inr (media_family (ai_media_type i)))"

fun quota_state_reason :: "quota_state \<Rightarrow> planning_reason option" where
  "quota_state_reason Quota_unknown = Some Upload_quota_unknown"
| "quota_state_reason Exhausted = Some Upload_quota_exhausted"
| "quota_state_reason Quota_unavailable = Some Upload_quota_unavailable"
| "quota_state_reason Reset_pending = Some Upload_quota_reset_pending"
| "quota_state_reason _ = None"

definition validate_quota ::
  "string \<Rightarrow> attachment_profile \<Rightarrow> int \<Rightarrow> provider_quota_snapshot option \<Rightarrow> int \<Rightarrow> planning_failure option" where
  "validate_quota account_id p planned_at upload_quota quota_max_age =
     (if fp_quota_requirement p = Requires_none then None
      else case upload_quota of None \<Rightarrow> Some (planning_error Upload_quota_missing ''fresh file-upload quota evidence is required'')
      | Some q \<Rightarrow>
          first_failure [unless (qs_account_id q = account_id) Upload_quota_account_mismatch ''upload quota belongs to another account'',
            unless (qs_dimension q = File_upload_rate) Upload_quota_dimension_mismatch ''quota dimension must be file_upload_rate'',
            unless (\<not> planned_at < qs_observed_at q) Upload_quota_from_future ''quota observation cannot come from the future'',
            unless (\<not> quota_max_age < planned_at - qs_observed_at q) Upload_quota_stale ''upload quota observation is stale'',
            case quota_state_reason (qs_state q) of None \<Rightarrow> None
            | Some reason \<Rightarrow> Some (planning_error reason (''upload quota state is not usable: '' @ quota_state_value (qs_state q)))])"

definition stable_id :: "(bytes \<Rightarrow> bytes) \<Rightarrow> string \<Rightarrow> string list \<Rightarrow> model_error + string" where
  "stable_id sha pre parts = (case framed_digest sha ''systeme-local:attachment-stable-id:v1'' (map Frame_text parts) of
     Inl e \<Rightarrow> Inl e | Inr d \<Rightarrow> Inr (pre @ take 24 d))"

section \<open>Planning\<close>

record batch_state =
  bs_batches :: "attachment_batch list"
  bs_ids :: "string list"
  bs_bytes :: int
  bs_families :: "media_family_kind list"

definition flush_batch :: "(bytes \<Rightarrow> bytes) \<Rightarrow> string \<Rightarrow> string \<Rightarrow> batch_state \<Rightarrow> planning_failure + batch_state" where
  "flush_batch sha plan_id manifest_sha256 st =
     (if bs_ids st = [] then Inr st
      else let batch_index = int (length (bs_batches st)) in
        case stable_id sha ''attbatch_'' ([plan_id, manifest_sha256, jint batch_index] @ bs_ids st) of Inl e \<Rightarrow> Inl (Planning_model e)
        | Inr batch_id \<Rightarrow>
            let b = \<lparr>ab_batch_id = batch_id, ab_batch_index = batch_index, ab_attachment_ids = bs_ids st, ab_total_bytes = bs_bytes st,
                ab_media_families = bs_families st\<rparr>
            in (case check_batch b of Some e \<Rightarrow> Inl (Planning_model e)
                | None \<Rightarrow> Inr \<lparr>bs_batches = bs_batches st @ [b], bs_ids = [], bs_bytes = 0, bs_families = []\<rparr>))"

definition exceeds_batch :: "attachment_profile \<Rightarrow> batch_state \<Rightarrow> committed_attachment \<Rightarrow> media_family_kind \<Rightarrow> bool" where
  "exceeds_batch p st a family \<longleftrightarrow>
     fp_max_files_per_batch p < int (length (bs_ids st)) + 1 \<or>
     fp_max_batch_bytes p < bs_bytes st + ai_byte_size (ca_inspection a) \<or>
     \<not> fp_allows_mixed_media p \<and> bs_families st \<noteq> [] \<and> family \<notin> set (bs_families st)"

definition add_attachment :: "committed_attachment \<Rightarrow> media_family_kind \<Rightarrow> batch_state \<Rightarrow> batch_state" where
  "add_attachment a family st = st\<lparr>bs_ids := bs_ids st @ [ca_attachment_id a], bs_bytes := bs_bytes st + ai_byte_size (ca_inspection a),
     bs_families := (if family \<in> set (bs_families st) then bs_families st else bs_families st @ [family])\<rparr>"

fun plan_loop :: "(bytes \<Rightarrow> bytes) \<Rightarrow> string \<Rightarrow> string \<Rightarrow> attachment_profile \<Rightarrow> committed_attachment list \<Rightarrow> batch_state \<Rightarrow>
    planning_failure + batch_state" where
  "plan_loop sha plan_id manifest_sha256 p [] st = flush_batch sha plan_id manifest_sha256 st"
| "plan_loop sha plan_id manifest_sha256 p (a # items) st =
     (case validate_attachment_against_profile a p of Inl e \<Rightarrow> Inl e
      | Inr family \<Rightarrow>
          (case (if exceeds_batch p st a family then flush_batch sha plan_id manifest_sha256 st else Inr st) of Inl e \<Rightarrow> Inl e
           | Inr st' \<Rightarrow> plan_loop sha plan_id manifest_sha256 p items (add_attachment a family st')))"

definition effective_quota :: "attachment_profile \<Rightarrow> provider_quota_snapshot option \<Rightarrow> provider_quota_snapshot option" where
  "effective_quota p upload_quota = (if fp_quota_requirement p = Requires_fresh_upload_quota then upload_quota else None)"

text \<open>The checks before the batches are formed.\<close>

definition planning_checks ::
  "(bytes \<Rightarrow> bytes) \<Rightarrow> string \<Rightarrow> attachment_manifest \<Rightarrow> attachment_profile \<Rightarrow> int \<Rightarrow> provider_quota_snapshot option \<Rightarrow> int \<Rightarrow>
    planning_failure option" where
  "planning_checks sha account_id m p planned_at upload_quota quota_max_age =
     first_failure [if quota_max_age \<le> 0 then Some (Planning_value ''quota_max_age must be positive'') else None,
       validate_model_integrity (check_manifest sha m) Manifest_integrity_invalid ''attachment manifest integrity validation failed'',
       validate_model_integrity (check_profile sha p) Profile_integrity_invalid ''attachment capability profile integrity validation failed'',
       validate_profile_support p planned_at,
       unless (\<not> planned_at < am_committed_at m) Plan_before_manifest ''attachment planning cannot precede manifest commitment'',
       unless (\<not> fp_max_files_per_manifest p < am_attachment_count m) Too_many_files ''attachment manifest exceeds the provider file-count limit'',
       unless (\<not> fp_max_manifest_bytes p < am_total_bytes m) Manifest_too_large ''attachment manifest exceeds the provider byte limit'',
       case effective_quota p upload_quota of None \<Rightarrow> None
       | Some q \<Rightarrow> validate_model_integrity (check_quota_model q) Quota_integrity_invalid ''upload quota snapshot integrity validation failed'',
       validate_quota account_id p planned_at (effective_quota p upload_quota) quota_max_age]"

definition quota_digest :: "(bytes \<Rightarrow> bytes) \<Rightarrow> provider_quota_snapshot option \<Rightarrow> model_error + string option" where
  "quota_digest sha upload_quota = (case upload_quota of None \<Rightarrow> Inr None
     | Some q \<Rightarrow> map_sum id Some (attachment_quota_snapshot_sha256 sha q))"

definition unsigned_plan ::
  "string \<Rightarrow> string \<Rightarrow> attachment_manifest \<Rightarrow> attachment_profile \<Rightarrow> int \<Rightarrow> provider_quota_snapshot option \<Rightarrow> string option \<Rightarrow>
    attachment_batch list \<Rightarrow> attachment_plan" where
  "unsigned_plan plan_id account_id m p planned_at quota quota_sha256 batches =
     \<lparr>pl_plan_id = plan_id, pl_account_id = account_id, pl_manifest_id = am_manifest_id m, pl_manifest_sha256 = am_manifest_sha256 m,
      pl_provider = fp_provider p, pl_surface = fp_surface p, pl_capability_profile_id = fp_profile_id p,
      pl_capability_profile_revision = fp_revision p, pl_capability_profile_sha256 = fp_profile_sha256 p,
      pl_upload_quota_snapshot_id = map_option qs_snapshot_id quota, pl_upload_quota_observed_at = map_option qs_observed_at quota,
      pl_upload_quota_sha256 = quota_sha256, pl_ordered_attachment_ids = map ca_attachment_id (am_attachments m),
      pl_attachment_count = am_attachment_count m, pl_total_bytes = am_total_bytes m, pl_batches = batches,
      pl_planned_at = planned_at, pl_plan_sha256 = []\<rparr>"

definition empty_batch_state :: batch_state where
  "empty_batch_state = \<lparr>bs_batches = [], bs_ids = [], bs_bytes = 0, bs_families = []\<rparr>"

definition plan_attachment_batches ::
  "(bytes \<Rightarrow> bytes) \<Rightarrow> string \<Rightarrow> string \<Rightarrow> attachment_manifest \<Rightarrow> attachment_profile \<Rightarrow> datetime \<Rightarrow> provider_quota_snapshot option \<Rightarrow> int \<Rightarrow>
    planning_failure + attachment_plan" where
  "plan_attachment_batches sha plan_id account_id m p planned upload_quota quota_max_age =
     (let planned_at = dt_instant planned; quota = effective_quota p upload_quota in
      if \<not> dt_aware planned then Inl (Planning_value ''timestamps must include a timezone'')
      else case planning_checks sha account_id m p planned_at upload_quota quota_max_age of Some e \<Rightarrow> Inl e
      | None \<Rightarrow>
          (case quota_digest sha quota of Inl e \<Rightarrow> Inl (Planning_model e)
           | Inr quota_sha256 \<Rightarrow>
               (case plan_loop sha plan_id (am_manifest_sha256 m) p (am_attachments m) empty_batch_state of Inl e \<Rightarrow> Inl e
                | Inr st \<Rightarrow>
                    if fp_max_batches_per_manifest p < int (length (bs_batches st))
                      then Inl (planning_error Too_many_batches ''deterministic batching exceeds the provider batch-count limit'')
                    else let pl = unsigned_plan plan_id account_id m p planned_at quota quota_sha256 (bs_batches st) in
                      (case attachment_plan_sha256 sha pl of Inl e \<Rightarrow> Inl (Planning_model e)
                       | Inr d \<Rightarrow> let pl' = pl\<lparr>pl_plan_sha256 := d\<rparr> in
                           (case check_plan sha pl' of Some e \<Rightarrow> Inl (Planning_model e) | None \<Rightarrow> Inr pl')))))"

section \<open>Verification of a plan\<close>

fun batch_contents :: "attachment_profile \<Rightarrow> (string \<times> committed_attachment) list \<Rightarrow> string list \<Rightarrow> int \<Rightarrow> media_family_kind list \<Rightarrow>
    planning_failure + int \<times> media_family_kind list" where
  "batch_contents p by_id [] expected_bytes expected_families = Inr (expected_bytes, expected_families)"
| "batch_contents p by_id (i # ids) expected_bytes expected_families =
     (case map_of by_id i of
        None \<Rightarrow> Inl (Planning Plan_content_mismatch ''attachment plan references an unknown attachment'' (Some i))
      | Some a \<Rightarrow>
          (case validate_attachment_against_profile a p of Inl e \<Rightarrow> Inl e
           | Inr family \<Rightarrow> batch_contents p by_id ids (expected_bytes + ai_byte_size (ca_inspection a))
               (if family \<in> set expected_families then expected_families else expected_families @ [family])))"

definition verify_batch ::
  "(bytes \<Rightarrow> bytes) \<Rightarrow> attachment_plan \<Rightarrow> attachment_manifest \<Rightarrow> attachment_profile \<Rightarrow> (string \<times> committed_attachment) list \<Rightarrow>
    attachment_batch \<Rightarrow> planning_failure option" where
  "verify_batch sha pl m p by_id b =
     (case batch_contents p by_id (ab_attachment_ids b) 0 [] of Inl e \<Rightarrow> Some e
      | Inr (expected_bytes, expected_families) \<Rightarrow>
          (case stable_id sha ''attbatch_'' ([pl_plan_id pl, am_manifest_sha256 m, jint (ab_batch_index b)] @ ab_attachment_ids b) of
             Inl e \<Rightarrow> Some (Planning_model e)
           | Inr expected_batch_id \<Rightarrow>
               first_failure [unless (ab_batch_id b = expected_batch_id) Plan_content_mismatch ''attachment batch identifier is not deterministic'',
                 unless (ab_total_bytes b = expected_bytes) Plan_content_mismatch ''attachment batch byte total does not match the manifest'',
                 unless (ab_media_families b = expected_families) Plan_content_mismatch
                   ''attachment batch media families do not match the manifest'',
                 unless (\<not> fp_max_files_per_batch p < int (length (ab_attachment_ids b))) Plan_content_mismatch
                   ''attachment batch exceeds the committed file-count limit'',
                 unless (\<not> fp_max_batch_bytes p < ab_total_bytes b) Plan_content_mismatch ''attachment batch exceeds the committed byte limit'',
                 unless (fp_allows_mixed_media p \<or> \<not> 1 < length (ab_media_families b)) Plan_content_mismatch
                   ''attachment batch violates the committed mixed-media policy'']))"

definition verify_plan_binding :: "attachment_plan \<Rightarrow> string \<Rightarrow> attachment_manifest \<Rightarrow> attachment_profile \<Rightarrow> planning_failure option" where
  "verify_plan_binding pl account_id m p =
     first_failure [unless (\<not> pl_planned_at pl < am_committed_at m) Plan_before_manifest ''attachment plan predates manifest commitment'',
       unless (pl_account_id pl = account_id) Plan_account_mismatch ''attachment plan belongs to another account'',
       unless (pl_manifest_id pl = am_manifest_id m \<and> pl_manifest_sha256 pl = am_manifest_sha256 m \<and> pl_provider pl = fp_provider p \<and>
           pl_surface pl = fp_surface p \<and> pl_capability_profile_id pl = fp_profile_id p \<and>
           pl_capability_profile_revision pl = fp_revision p \<and> pl_capability_profile_sha256 pl = fp_profile_sha256 p)
         Plan_binding_mismatch ''attachment plan does not match its manifest or capability profile'',
       unless (pl_attachment_count pl = am_attachment_count m \<and> pl_total_bytes pl = am_total_bytes m) Plan_content_mismatch
         ''attachment plan totals do not match the manifest'',
       unless (\<not> fp_max_files_per_manifest p < am_attachment_count m) Plan_content_mismatch
         ''attachment plan exceeds the committed manifest file limit'',
       unless (\<not> fp_max_manifest_bytes p < am_total_bytes m) Plan_content_mismatch ''attachment plan exceeds the committed manifest byte limit'',
       unless (\<not> fp_max_batches_per_manifest p < int (length (pl_batches pl))) Plan_content_mismatch
         ''attachment plan exceeds the committed batch-count limit'']"

definition verify_plan_quota ::
  "(bytes \<Rightarrow> bytes) \<Rightarrow> attachment_plan \<Rightarrow> attachment_profile \<Rightarrow> provider_quota_snapshot option \<Rightarrow> int \<Rightarrow> planning_failure option" where
  "verify_plan_quota sha pl p upload_quota quota_max_age =
     (if fp_quota_requirement p = Requires_fresh_upload_quota then
        (case upload_quota of
           None \<Rightarrow> Some (planning_error Upload_quota_missing ''plan verification requires the committed upload quota snapshot'')
         | Some q \<Rightarrow>
             (case validate_model_integrity (check_quota_model q) Quota_integrity_invalid ''upload quota snapshot integrity validation failed'' of
                Some e \<Rightarrow> Some e
              | None \<Rightarrow>
                  if pl_upload_quota_snapshot_id pl \<noteq> Some (qs_snapshot_id q) \<or> pl_upload_quota_observed_at pl \<noteq> Some (qs_observed_at q)
                    then Some (planning_error Plan_binding_mismatch ''attachment plan quota evidence does not match the supplied snapshot'')
                  else (case attachment_quota_snapshot_sha256 sha q of Inl e \<Rightarrow> Some (Planning_model e)
                    | Inr d \<Rightarrow>
                        if pl_upload_quota_sha256 pl \<noteq> Some d
                          then Some (planning_error Plan_binding_mismatch ''attachment plan quota evidence does not match the supplied snapshot'')
                        else validate_quota (pl_account_id pl) p (pl_planned_at pl) upload_quota quota_max_age)))
      else unless (pl_upload_quota_snapshot_id pl = None \<and> pl_upload_quota_observed_at pl = None \<and> pl_upload_quota_sha256 pl = None)
        Plan_binding_mismatch ''attachment plan carries quota evidence not required by the profile'')"

text \<open>The keys of the dictionary are in the order of the manifest, whose ids are distinct once its integrity is checked.\<close>

definition attachments_by_id :: "attachment_manifest \<Rightarrow> (string \<times> committed_attachment) list" where
  "attachments_by_id m = map (\<lambda>a. (ca_attachment_id a, a)) (am_attachments m)"

definition verify_attachment_batch_plan ::
  "(bytes \<Rightarrow> bytes) \<Rightarrow> attachment_plan \<Rightarrow> string \<Rightarrow> attachment_manifest \<Rightarrow> attachment_profile \<Rightarrow> provider_quota_snapshot option \<Rightarrow> int \<Rightarrow>
    planning_failure option" where
  "verify_attachment_batch_plan sha pl account_id m p upload_quota quota_max_age =
     first_failure ([if quota_max_age \<le> 0 then Some (Planning_value ''quota_max_age must be positive'') else None,
       validate_model_integrity (check_plan sha pl) Plan_integrity_invalid ''attachment batch plan integrity validation failed'',
       validate_model_integrity (check_manifest sha m) Manifest_integrity_invalid ''attachment manifest integrity validation failed'',
       validate_model_integrity (check_profile sha p) Profile_integrity_invalid ''attachment capability profile integrity validation failed'',
       validate_profile_support p (pl_planned_at pl),
       verify_plan_binding pl account_id m p,
       verify_plan_quota sha pl p upload_quota quota_max_age,
       unless (map fst (attachments_by_id m) = pl_ordered_attachment_ids pl) Plan_content_mismatch
         ''attachment plan order does not match the manifest''] @
       map (verify_batch sha pl m p (attachments_by_id m)) (pl_batches pl))"

end
