(* ===== verification/Greedy_Split.thy ===== *)
theory Greedy_Split
  imports Main
begin

text \<open>
  Splitting a list into consecutive parts that are each acceptable: taking elements as long as the part stays acceptable
  uses the fewest parts, when parts of an acceptable part are acceptable.
\<close>

fun greedy :: "('a list \<Rightarrow> bool) \<Rightarrow> 'a list \<Rightarrow> 'a list \<Rightarrow> 'a list list" where
  "greedy ok current [] = (if current = [] then [] else [current])"
| "greedy ok current (x # xs) =
     (if current = [] \<or> ok (current @ [x]) then greedy ok (current @ [x]) xs else current # greedy ok [x] xs)"

lemma concat_greedy: "concat (greedy ok current xs) = current @ xs"
  by (induction ok current xs rule: greedy.induct) auto

lemma greedy_nonempty: "part \<in> set (greedy ok current xs) \<Longrightarrow> part \<noteq> []"
  by (induction ok current xs rule: greedy.induct) (auto split: if_splits)

lemma greedy_ok:
  "part \<in> set (greedy ok current xs) \<Longrightarrow> ok current \<or> current = [] \<Longrightarrow> \<forall>x \<in> set xs. ok [x] \<Longrightarrow> ok part"
  by (induction ok current xs rule: greedy.induct) (auto split: if_splits)

definition splits :: "('a list \<Rightarrow> bool) \<Rightarrow> 'a list \<Rightarrow> 'a list list \<Rightarrow> bool" where
  "splits ok xs parts \<longleftrightarrow> concat parts = xs \<and> list_all ok parts"

locale divisible =
  fixes ok :: "'a list \<Rightarrow> bool"
  assumes ok_left: "ok (xs @ ys) \<Longrightarrow> ok xs"
    and ok_right: "ok (xs @ ys) \<Longrightarrow> ok ys"
begin

text \<open>Without its first elements a list needs no more parts.\<close>

lemma splits_drop: "splits ok (xs @ ys) parts \<Longrightarrow> \<exists>parts'. splits ok ys parts' \<and> length parts' \<le> length parts"
proof (induction parts arbitrary: xs)
  case Nil
  then show ?case by (intro exI [of _ "[]"]) (simp add: splits_def)
next
  case (Cons p parts)
  have c: "p @ concat parts = xs @ ys" and ok: "ok p" "list_all ok parts" using Cons.prems by (simp_all add: splits_def)
  from c consider us where "p = xs @ us" "us @ concat parts = ys" | us where "p @ us = xs" "concat parts = us @ ys"
    by (auto simp: append_eq_append_conv2)
  then show ?case
  proof cases
    case 1
    then show ?thesis using ok ok_right [of xs us] by (intro exI [of _ "us # parts"]) (simp add: splits_def)
  next
    case 2
    then have "splits ok (us @ ys) parts" using ok(2) by (simp add: splits_def)
    from Cons.IH [OF this] obtain parts' where "splits ok ys parts'" "length parts' \<le> length parts" by blast
    then show ?thesis by (intro exI [of _ parts']) simp
  qed
qed

lemma greedy_shortest: "splits ok (current @ xs) parts \<Longrightarrow> length (greedy ok current xs) \<le> length parts"
proof (induction xs arbitrary: current parts)
  case Nil
  then show ?case by (cases parts) (auto simp: splits_def)
next
  case (Cons x xs)
  note ih = Cons.IH and prems = Cons.prems
  show ?case
  proof (cases "current = [] \<or> ok (current @ [x])")
    case True
    then show ?thesis using ih [of "current @ [x]" parts] prems by simp
  next
    case False
    show ?thesis
    proof (cases parts)
      case Nil
      then show ?thesis using prems by (simp add: splits_def)
    next
      case (Cons p ps)
      then have c: "p @ concat ps = current @ x # xs" and p: "ok p" "list_all ok ps" using prems by (simp_all add: splits_def)
      have "\<exists>us. current = p @ us \<and> concat ps = us @ x # xs"
      proof -
        from c consider us where "p = current @ us" "us @ concat ps = x # xs" | us where "p @ us = current" "concat ps = us @ x # xs"
          by (auto simp: append_eq_append_conv2)
        then show ?thesis
        proof cases
          case 1
          then have "us = [] \<or> (\<exists>vs. us = x # vs)" by (cases us) auto
          moreover have "us \<noteq> x # vs" for vs using ok_left [of "current @ [x]" vs] p(1) 1(1) False by auto
          ultimately show ?thesis using 1 by auto
        next
          case 2
          then show ?thesis by auto
        qed
      qed
      then obtain us where us: "concat ps = us @ x # xs" by blast
      then have "splits ok (us @ x # xs) ps" using p(2) by (simp add: splits_def)
      then obtain qs where "splits ok ([x] @ xs) qs" "length qs \<le> length ps" using splits_drop by force
      then have "length (greedy ok [x] xs) \<le> length ps" using ih [of "[x]" qs] by simp
      then show ?thesis using False Cons by simp
    qed
  qed
qed

end

end
