(* ===== verification/Attachment_Planning.thy ===== *)
theory Attachment_Planning
  imports Attachment_Policy Greedy_Split
begin

text \<open>
  What a plan of attachment batches guarantees: the batches are the greedy split of the manifest, every plan that is made
  verifies, and no order-preserving split within the limits of the provider has fewer batches.
\<close>

section \<open>Batches of attachments\<close>

abbreviation size_of :: "committed_attachment \<Rightarrow> int" where
  "size_of a \<equiv> ai_byte_size (ca_inspection a)"

abbreviation family_of :: "committed_attachment \<Rightarrow> media_family_kind" where
  "family_of a \<equiv> media_family (ai_media_type (ca_inspection a))"

definition part_bytes :: "committed_attachment list \<Rightarrow> int" where
  "part_bytes part = sum_list (map size_of part)"

definition add_family :: "media_family_kind list \<Rightarrow> committed_attachment \<Rightarrow> media_family_kind list" where
  "add_family fs a = (if family_of a \<in> set fs then fs else fs @ [family_of a])"

definition families_of :: "committed_attachment list \<Rightarrow> media_family_kind list" where
  "families_of part = foldl add_family [] part"

text \<open>What the profile of the provider lets into one batch.\<close>

definition batch_fits :: "attachment_profile \<Rightarrow> committed_attachment list \<Rightarrow> bool" where
  "batch_fits p part \<longleftrightarrow> list_all (\<lambda>a. 0 \<le> size_of a) part \<and> int (length part) \<le> fp_max_files_per_batch p \<and>
     part_bytes part \<le> fp_max_batch_bytes p \<and> (fp_allows_mixed_media p \<or> (\<forall>a \<in> set part. \<forall>b \<in> set part. family_of a = family_of b))"

lemma part_bytes_simps [simp]:
  "part_bytes [] = 0" "part_bytes (a # part) = size_of a + part_bytes part" "part_bytes (xs @ ys) = part_bytes xs + part_bytes ys"
  by (simp_all add: part_bytes_def)

lemma part_bytes_nonneg: "list_all (\<lambda>a. 0 \<le> size_of a) part \<Longrightarrow> 0 \<le> part_bytes part"
  by (induction part) auto

interpretation batch: divisible "batch_fits p" for p
proof
  fix xs ys
  assume f: "batch_fits p (xs @ ys)"
  then have "0 \<le> part_bytes xs" "0 \<le> part_bytes ys" by (auto simp: batch_fits_def intro: part_bytes_nonneg)
  then show "batch_fits p xs" "batch_fits p ys" using f by (auto simp: batch_fits_def)
qed

lemma families_of_snoc [simp]: "families_of (part @ [a]) = add_family (families_of part) a"
  by (simp add: families_of_def)

lemma families_of_Nil [simp]: "families_of [] = []"
  by (simp add: families_of_def)

lemma set_families_of: "set (families_of part) = family_of ` set part"
  by (induction part rule: rev_induct) (auto simp: add_family_def)

lemma distinct_families_of: "distinct (families_of part)"
  by (induction part rule: rev_induct) (auto simp: add_family_def)

lemma first_failure_None [simp]: "first_failure es = None \<longleftrightarrow> (\<forall>e \<in> set es. e = None)"
  by (induction es rule: first_failure.induct) auto

lemma unless_None [simp]: "unless ok reason message = None \<longleftrightarrow> ok"
  by (simp add: unless_def)

lemma validate_model_integrity_None [simp]: "validate_model_integrity r reason message = None \<longleftrightarrow> r = None"
  by (auto simp: validate_model_integrity_def split: option.splits model_error.splits)

lemma validate_model_integrity_ok [simp]: "validate_model_integrity None reason message = None"
  by simp

lemma validated_family:
  assumes "validate_attachment_against_profile a p = Inr f"
  shows "f = family_of a \<and> size_of a \<le> fp_max_batch_bytes p"
  using assms by (auto simp: validate_attachment_against_profile_def Let_def split: if_splits option.splits)

section \<open>The loop is the greedy split\<close>

definition represents :: "batch_state \<Rightarrow> committed_attachment list \<Rightarrow> bool" where
  "represents st current \<longleftrightarrow> bs_ids st = map ca_attachment_id current \<and> bs_bytes st = part_bytes current \<and>
     bs_families st = families_of current"

definition batch_of :: "(bytes \<Rightarrow> bytes) \<Rightarrow> string \<Rightarrow> string \<Rightarrow> nat \<times> committed_attachment list \<Rightarrow> attachment_batch \<Rightarrow> bool" where
  "batch_of sha plan_id manifest_sha256 kp b \<longleftrightarrow> (case kp of (k, part) \<Rightarrow>
     ab_batch_index b = int k \<and> ab_attachment_ids b = map ca_attachment_id part \<and> ab_total_bytes b = part_bytes part \<and>
     ab_media_families b = families_of part \<and> check_batch b = None \<and>
     stable_id sha ''attbatch_'' ([plan_id, manifest_sha256, jint (int k)] @ map ca_attachment_id part) = Inr (ab_batch_id b))"

lemma flush_batch_Inr:
  assumes "flush_batch sha plan_id ms st = Inr st'" "represents st current"
  shows "represents st' [] \<and> (if current = [] then bs_batches st' = bs_batches st
    else (\<exists>b. bs_batches st' = bs_batches st @ [b] \<and> batch_of sha plan_id ms (length (bs_batches st), current) b))"
  using assms by (auto simp: flush_batch_def represents_def batch_of_def Let_def split: if_splits sum.splits option.splits)

definition one_family :: "committed_attachment list \<Rightarrow> bool" where
  "one_family part \<longleftrightarrow> (\<forall>a \<in> set part. \<forall>b \<in> set part. family_of a = family_of b)"

lemma one_family_snoc:
  assumes "one_family part" "part \<noteq> []"
  shows "one_family (part @ [a]) \<longleftrightarrow> family_of a \<in> set (families_of part)"
proof -
  define g where "g = family_of (hd part)"
  have g: "\<forall>b \<in> set part. family_of b = g" using assms hd_in_set unfolding one_family_def g_def by blast
  have h: "hd part \<in> set part" "a \<in> set (part @ [a])" using assms(2) by simp_all
  have "one_family (part @ [a]) \<longleftrightarrow> family_of a = g"
  proof
    assume "one_family (part @ [a])"
    then show "family_of a = g" using h g unfolding one_family_def by (metis UnI1 set_append)
  next
    assume "family_of a = g"
    with g have "\<forall>b \<in> set (part @ [a]). family_of b = g" by simp
    then show "one_family (part @ [a])" unfolding one_family_def by metis
  qed
  moreover have "family_of ` set part = {g}"
  proof
    show "family_of ` set part \<subseteq> {g}" using g by (simp add: image_subset_iff)
    show "{g} \<subseteq> family_of ` set part" using h(1) by (simp add: g_def)
  qed
  ultimately show ?thesis by (simp add: set_families_of)
qed

lemma families_of_eq_Nil [simp]: "families_of part = [] \<longleftrightarrow> part = []"
  using set_families_of [of part] by (metis image_is_empty set_empty)

lemma exceeds_batch_fits:
  assumes "represents st current" "current \<noteq> []" "batch_fits p current" "0 \<le> size_of a"
  shows "exceeds_batch p st a (family_of a) \<longleftrightarrow> \<not> batch_fits p (current @ [a])"
proof -
  have "batch_fits p part \<longleftrightarrow> list_all (\<lambda>a. 0 \<le> size_of a) part \<and> int (length part) \<le> fp_max_files_per_batch p \<and>
      part_bytes part \<le> fp_max_batch_bytes p \<and> (fp_allows_mixed_media p \<or> one_family part)" for part
    by (simp add: batch_fits_def one_family_def)
  then show ?thesis using assms one_family_snoc [of current a]
    by (cases "fp_allows_mixed_media p") (auto simp: exceeds_batch_def represents_def not_less)
qed

lemma represents_add: "represents st current \<Longrightarrow> represents (add_attachment a (family_of a) st) (current @ [a])"
  by (simp add: represents_def add_attachment_def add_family_def)

lemma plan_loop_greedy:
  assumes "plan_loop sha plan_id ms p items st = Inr st'" "represents st current" "current = [] \<or> batch_fits p current"
    "1 \<le> fp_max_files_per_batch p" "\<forall>a \<in> set items. 0 \<le> size_of a"
  shows "\<exists>bs. bs_batches st' = bs_batches st @ bs \<and>
      list_all2 (batch_of sha plan_id ms) (enumerate (length (bs_batches st)) (greedy (batch_fits p) current items)) bs \<and>
      (\<forall>a \<in> set items. validate_attachment_against_profile a p = Inr (family_of a) \<and> batch_fits p [a])"
  using assms
proof (induction items arbitrary: st current)
  case Nil
  then have "flush_batch sha plan_id ms st = Inr st'" by simp
  from flush_batch_Inr [OF this Nil.prems(2)] show ?case
    by (cases "current = []") (auto intro: exI [of _ "[]"])
next
  case (Cons a items)
  from Cons.prems(1) obtain f st1 where v: "validate_attachment_against_profile a p = Inr f"
    and fl: "(if exceeds_batch p st a f then flush_batch sha plan_id ms st else Inr st) = Inr st1"
    and l: "plan_loop sha plan_id ms p items (add_attachment a f st1) = Inr st'"
    by (auto split: sum.splits)
  have f: "f = family_of a" and bytes: "size_of a \<le> fp_max_batch_bytes p" using validated_family [OF v] by auto
  have single: "batch_fits p [a]" using Cons.prems(4,5) bytes by (simp add: batch_fits_def)
  have rest: "\<forall>a \<in> set items. 0 \<le> size_of a" using Cons.prems(5) by simp
  show ?case
  proof (cases "current = [] \<or> batch_fits p (current @ [a])")
    case True
    have "st1 = st"
    proof (cases "current = []")
      case True
      then have "flush_batch sha plan_id ms st = Inr st" using Cons.prems(2) by (simp add: flush_batch_def represents_def)
      then show ?thesis using fl by (simp split: if_splits)
    next
      case False
      then have "\<not> exceeds_batch p st a f"
        using exceeds_batch_fits [OF Cons.prems(2) False] Cons.prems(3,5) True f by auto
      then show ?thesis using fl by simp
    qed
    then have "represents (add_attachment a f st1) (current @ [a])" "bs_batches (add_attachment a f st1) = bs_batches st"
      using represents_add [OF Cons.prems(2)] f by (auto simp: add_attachment_def)
    moreover have "batch_fits p (current @ [a])" using True single by auto
    ultimately show ?thesis using Cons.IH [OF l _ _ Cons.prems(4) rest, of "current @ [a]"] True v f single by auto
  next
    case False
    then have "exceeds_batch p st a f" using exceeds_batch_fits [OF Cons.prems(2)] Cons.prems(3,5) f by auto
    then have "flush_batch sha plan_id ms st = Inr st1" using fl by simp
    from flush_batch_Inr [OF this Cons.prems(2)] False obtain b where b: "represents st1 []" "bs_batches st1 = bs_batches st @ [b]"
        "batch_of sha plan_id ms (length (bs_batches st), current) b" by auto
    have "represents (add_attachment a f st1) [a]" "bs_batches (add_attachment a f st1) = bs_batches st @ [b]"
      using represents_add [OF b(1)] f b(2) by (auto simp: add_attachment_def)
    then show ?thesis using Cons.IH [OF l _ _ Cons.prems(4) rest, of "[a]"] False v f single b(3) by auto
  qed
qed

section \<open>Plans\<close>

lemma batch_contents_part:
  assumes "distinct (map ca_attachment_id (am_attachments m))"
    and "\<forall>a \<in> set part. a \<in> set (am_attachments m) \<and> validate_attachment_against_profile a p = Inr (family_of a)"
  shows "batch_contents p (attachments_by_id m) (map ca_attachment_id part) n fs = Inr (n + part_bytes part, foldl add_family fs part)"
  using assms(2)
proof (induction part arbitrary: n fs)
  case (Cons a part)
  then have "(ca_attachment_id a, a) \<in> set (attachments_by_id m)" by (simp add: attachments_by_id_def)
  moreover have "distinct (map fst (attachments_by_id m))" using assms(1) by (simp add: attachments_by_id_def comp_def)
  ultimately have "map_of (attachments_by_id m) (ca_attachment_id a) = Some a" by (simp add: map_of_eq_Some_iff)
  then show ?case using Cons by (simp add: add_family_def)
qed simp

lemma one_family_short: "one_family part \<Longrightarrow> length (families_of part) \<le> 1"
proof (induction part rule: rev_induct)
  case (snoc a part)
  have "one_family part" using snoc.prems unfolding one_family_def set_append by blast
  then show ?case using snoc one_family_snoc [of part a] by (cases "part = []") (simp_all add: add_family_def families_of_def)
qed simp

lemma verify_batch_None:
  assumes "batch_of sha (pl_plan_id pl) (am_manifest_sha256 m) (k, part) b" "batch_fits p part"
    and "distinct (map ca_attachment_id (am_attachments m))"
    and "\<forall>a \<in> set part. a \<in> set (am_attachments m) \<and> validate_attachment_against_profile a p = Inr (family_of a)"
  shows "verify_batch sha pl m p (attachments_by_id m) b = None"
proof -
  have "fp_allows_mixed_media p \<or> one_family part" using assms(2) by (simp add: batch_fits_def one_family_def)
  then show ?thesis using assms(1,2) batch_contents_part [OF assms(3,4), of 0 "[]"] one_family_short [of part]
    by (auto simp: batch_of_def verify_batch_def batch_fits_def families_of_def [symmetric] not_less)
qed

lemma supported_limits:
  assumes "check_profile sha p = None" "validate_profile_support p now = None"
  shows "1 \<le> fp_max_files_per_batch p"
proof -
  have "cl_state (fp_support p) = Supported" using assms(2) by (cases "cl_state (fp_support p)") (auto simp: validate_profile_support_def)
  then show ?thesis using assms(1)
    by (auto simp: check_profile_def validate_capability_profile_def validate_limits_def positive_limits_def
        split: if_splits option.splits)
qed

lemma valid_sizes:
  assumes "check_manifest sha m = None"
  shows "\<forall>a \<in> set (am_attachments m). 0 \<le> size_of a"
proof
  fix a assume "a \<in> set (am_attachments m)"
  then have "check_attachment sha a = None" using assms by (auto simp: check_manifest_None manifest_fields_valid_def list_all_iff)
  from check_attachmentD(1) [OF this] show "0 \<le> size_of a" by (simp add: inspection_fields_valid_def int_between_def)
qed

lemma planning_checksD:
  assumes "planning_checks sha account m p now upload_quota max_age = None"
  shows "0 < max_age" "check_manifest sha m = None" "check_profile sha p = None" "validate_profile_support p now = None"
    "am_committed_at m \<le> now" "am_attachment_count m \<le> fp_max_files_per_manifest p" "am_total_bytes m \<le> fp_max_manifest_bytes p"
    "\<forall>q. effective_quota p upload_quota = Some q \<longrightarrow> check_quota_model q = None"
    "validate_quota account p now (effective_quota p upload_quota) max_age = None"
  using assms by (auto simp: planning_checks_def split: if_splits option.splits)

text \<open>The state the loop ends in, from the checks before it.\<close>

lemma planned_batches:
  assumes "planning_checks sha account m p now upload_quota max_age = None"
    and "plan_loop sha plan_id ms p (am_attachments m) empty_batch_state = Inr st"
  shows "list_all2 (batch_of sha plan_id ms) (enumerate 0 (greedy (batch_fits p) [] (am_attachments m))) (bs_batches st) \<and>
    (\<forall>a \<in> set (am_attachments m). validate_attachment_against_profile a p = Inr (family_of a) \<and> batch_fits p [a])"
proof -
  note c = planning_checksD [OF assms(1)]
  have "represents empty_batch_state []" by (simp add: represents_def empty_batch_state_def)
  from plan_loop_greedy [OF assms(2) this _ supported_limits [OF c(3,4)] valid_sizes [OF c(2)]]
  show ?thesis by (auto simp: empty_batch_state_def)
qed

lemma planned_batches_verify:
  assumes "check_manifest sha m = None"
    and "list_all2 (batch_of sha (pl_plan_id pl) (am_manifest_sha256 m)) (enumerate 0 (greedy (batch_fits p) [] (am_attachments m))) bs"
    and "\<forall>a \<in> set (am_attachments m). validate_attachment_against_profile a p = Inr (family_of a) \<and> batch_fits p [a]"
    and "b \<in> set bs"
  shows "verify_batch sha pl m p (attachments_by_id m) b = None"
proof -
  let ?g = "greedy (batch_fits p) [] (am_attachments m)"
  from assms(4) obtain i where i: "i < length bs" "bs ! i = b" by (auto simp: in_set_conv_nth)
  then have "i < length ?g" using list_all2_lengthD [OF assms(2)] by simp
  then have b: "batch_of sha (pl_plan_id pl) (am_manifest_sha256 m) (i, ?g ! i) b" and part: "?g ! i \<in> set ?g"
    using list_all2_nthD2 [OF assms(2) i(1)] i(2) by (simp_all add: nth_enumerate_eq)
  have "batch_fits p (?g ! i)" using greedy_ok [OF part] assms(3) by simp
  moreover have "set (?g ! i) \<subseteq> set (am_attachments m)"
    using part concat_greedy [of "batch_fits p" "[]" "am_attachments m"] by (metis Sup_upper append_Nil image_eqI set_concat)
  moreover have "distinct (map ca_attachment_id (am_attachments m))" using assms(1) by (simp add: check_manifest_None)
  ultimately show ?thesis using verify_batch_None [OF b] assms(3) by blast
qed

lemma verify_plan_quota_None:
  assumes "quota_digest sha (effective_quota p upload_quota) = Inr quota_sha256"
    and "\<forall>q. effective_quota p upload_quota = Some q \<longrightarrow> check_quota_model q = None"
    and "validate_quota account p now (effective_quota p upload_quota) max_age = None"
    and "pl_account_id pl = account" "pl_planned_at pl = now"
    and "pl_upload_quota_snapshot_id pl = map_option qs_snapshot_id (effective_quota p upload_quota)"
    and "pl_upload_quota_observed_at pl = map_option qs_observed_at (effective_quota p upload_quota)"
    and "pl_upload_quota_sha256 pl = quota_sha256"
  shows "verify_plan_quota sha pl p upload_quota max_age = None"
proof (cases "fp_quota_requirement p")
  case Requires_none
  then show ?thesis using assms by (simp add: verify_plan_quota_def effective_quota_def quota_digest_def)
next
  case Requires_fresh_upload_quota
  with assms(3) obtain q where "upload_quota = Some q"
    by (auto simp: validate_quota_def effective_quota_def split: option.splits)
  with assms Requires_fresh_upload_quota show ?thesis
    by (cases "attachment_quota_snapshot_sha256 sha q") (auto simp: verify_plan_quota_def effective_quota_def quota_digest_def)
qed

lemma plan_attachment_batchesE:
  assumes "plan_attachment_batches sha plan_id account m p planned upload_quota max_age = Inr pl"
  obtains quota_sha256 st d where "dt_aware planned"
    "planning_checks sha account m p (dt_instant planned) upload_quota max_age = None"
    "quota_digest sha (effective_quota p upload_quota) = Inr quota_sha256"
    "plan_loop sha plan_id (am_manifest_sha256 m) p (am_attachments m) empty_batch_state = Inr st"
    "int (length (bs_batches st)) \<le> fp_max_batches_per_manifest p" "check_plan sha pl = None"
    "pl = (unsigned_plan plan_id account m p (dt_instant planned) (effective_quota p upload_quota) quota_sha256 (bs_batches st))
       \<lparr>pl_plan_sha256 := d\<rparr>"
  using assms by (auto simp: plan_attachment_batches_def Let_def split: if_splits option.splits sum.splits)

text \<open>C28. A plan is the greedy split, complete, verifiable and shortest: the batches of a plan that is made are, in order, the
  parts of the greedy split of the manifest (each part takes attachments as long as it stays within the limits of the
  provider), numbered from zero, each with the identifiers, the total of bytes, the media families and the stable batch id
  of its part; they keep the order of the manifest and hold every attachment once, the plan passes its verification with
  the same evidence, and no split of the attachments into consecutive batches within the limits of the provider has fewer
  batches.\<close>

theorem plan_verifies_and_is_shortest:
  assumes "plan_attachment_batches sha plan_id account m p planned upload_quota max_age = Inr pl"
  shows "list_all2 (batch_of sha plan_id (am_manifest_sha256 m))
      (enumerate 0 (greedy (batch_fits p) [] (am_attachments m))) (pl_batches pl) \<and>
    concat (map ab_attachment_ids (pl_batches pl)) = map ca_attachment_id (am_attachments m) \<and>
    verify_attachment_batch_plan sha pl account m p upload_quota max_age = None \<and>
    (\<forall>parts. splits (batch_fits p) (am_attachments m) parts \<longrightarrow> length (pl_batches pl) \<le> length parts)"
proof -
  let ?g = "greedy (batch_fits p) [] (am_attachments m)"
  from assms obtain quota_sha256 st d where checks: "planning_checks sha account m p (dt_instant planned) upload_quota max_age = None"
    and q: "quota_digest sha (effective_quota p upload_quota) = Inr quota_sha256"
    and l: "plan_loop sha plan_id (am_manifest_sha256 m) p (am_attachments m) empty_batch_state = Inr st"
    and n: "int (length (bs_batches st)) \<le> fp_max_batches_per_manifest p" and ok: "check_plan sha pl = None"
    and pl: "pl = (unsigned_plan plan_id account m p (dt_instant planned) (effective_quota p upload_quota) quota_sha256 (bs_batches st))
       \<lparr>pl_plan_sha256 := d\<rparr>"
    by (rule plan_attachment_batchesE)
  note c = planning_checksD [OF checks]
  have f: "pl_batches pl = bs_batches st" "pl_plan_id pl = plan_id" "pl_ordered_attachment_ids pl = map ca_attachment_id (am_attachments m)"
    by (simp_all add: pl unsigned_plan_def)
  from planned_batches [OF checks l] have g: "list_all2 (batch_of sha plan_id (am_manifest_sha256 m)) (enumerate 0 ?g) (bs_batches st)"
    and v: "\<forall>a \<in> set (am_attachments m). validate_attachment_against_profile a p = Inr (family_of a) \<and> batch_fits p [a]" by auto
  have "verify_batch sha pl m p (attachments_by_id m) b = None" if "b \<in> set (bs_batches st)" for b
    using planned_batches_verify [OF c(2) _ v that] g by (simp add: f)
  moreover have "verify_plan_quota sha pl p upload_quota max_age = None"
    using q c(8,9) by (rule verify_plan_quota_None) (simp_all add: pl unsigned_plan_def)
  moreover have "verify_plan_binding pl account m p = None"
    using c(5-7) n by (simp add: verify_plan_binding_def pl unsigned_plan_def not_less)
  ultimately have "verify_attachment_batch_plan sha pl account m p upload_quota max_age = None"
    using c(1-4) ok by (auto simp: verify_attachment_batch_plan_def f attachments_by_id_def comp_def) (simp add: pl unsigned_plan_def)
  moreover have "concat (map ab_attachment_ids (pl_batches pl)) = map ca_attachment_id (am_attachments m)"
    using ok by (auto simp: check_plan_def validate_plan_def Let_def f split: if_splits)
  moreover have "length (pl_batches pl) \<le> length parts" if "splits (batch_fits p) (am_attachments m) parts" for parts
    using batch.greedy_shortest [of p "[]" "am_attachments m" parts] that list_all2_lengthD [OF g] by (simp add: f)
  ultimately show ?thesis using g by (simp add: f)
qed

text \<open>A refusal for too many batches is never due to the way the batches are formed.\<close>

lemma too_many_batches_unavoidable:
  assumes "plan_attachment_batches sha plan_id account m p planned upload_quota max_age =
      Inl (planning_error Too_many_batches ''deterministic batching exceeds the provider batch-count limit'')"
    and "plan_loop sha plan_id (am_manifest_sha256 m) p (am_attachments m) empty_batch_state = Inr st"
    and "planning_checks sha account m p (dt_instant planned) upload_quota max_age = None"
    and "splits (batch_fits p) (am_attachments m) parts"
  shows "fp_max_batches_per_manifest p < int (length parts)"
proof -
  have "fp_max_batches_per_manifest p < int (length (bs_batches st))"
    using assms(1-3) by (auto simp: plan_attachment_batches_def Let_def planning_error_def split: if_splits sum.splits option.splits)
  moreover have "length (bs_batches st) \<le> length parts"
    using batch.greedy_shortest [of p "[]" "am_attachments m" parts] assms(4) planned_batches [OF assms(3,2)]
    by (auto dest: list_all2_lengthD)
  ultimately show ?thesis by linarith
qed

text \<open>A plan for the manifest of one attachment.\<close>

definition ex_profile :: attachment_profile where
  "ex_profile = \<lparr>fp_profile_id = ''profile_one'', fp_revision = 1, fp_provider = ''chatgpt'', fp_surface = ''web'',
     fp_support = \<lparr>cl_state = Supported, cl_evidence = Observed\<rparr>, fp_supported_media_types = [Media_text],
     fp_max_file_bytes = 100, fp_max_batch_bytes = 200, fp_max_manifest_bytes = 400, fp_max_files_per_batch = 2,
     fp_max_files_per_manifest = 4, fp_max_batches_per_manifest = 2, fp_max_image_width = 0, fp_max_image_height = 0,
     fp_max_image_pixels = 0, fp_allows_mixed_media = False, fp_quota_requirement = Requires_none,
     fp_observed_at = 1700000000000000, fp_profile_sha256 = ex_digest\<rparr>"

lemma ex_plan_patterns:
  "list_all id_pattern [''profile_one'', ''plan_one'', ''account_one'', ''attbatch_'' @ take 24 ex_digest]"
  "list_all provider_pattern [''chatgpt'', ''web'']" "length (iso_utc 1700000003000000) = 25"
  by code_simp+

lemma ex_profile_valid: "check_profile ex_att_sha ex_profile = None"
proof -
  have "attachment_capability_profile_sha256 ex_att_sha ex_profile = Inr ex_digest"
    unfolding attachment_capability_profile_sha256_def by (rule ex_framed_digest) (simp add: ex_profile_def ex_times)
  moreover have "profile_fields_valid ex_profile"
    using ex_plan_patterns ex_patterns by (simp add: profile_fields_valid_def ex_profile_def validate_evidence_def ex_limits)
  moreover have "validate_limits ex_profile = None"
    by (simp add: validate_limits_def ex_profile_def positive_limits_def image_limits_def supports_images_def media_family_def)
  ultimately show ?thesis
    by (simp add: check_profile_def validate_capability_profile_def check_digest_def) (simp add: ex_profile_def)
qed

definition ex_batch :: attachment_batch where
  "ex_batch = \<lparr>ab_batch_id = ''attbatch_'' @ take 24 ex_digest, ab_batch_index = 0, ab_attachment_ids = [''att_one''], ab_total_bytes = 5,
     ab_media_families = [Family_document]\<rparr>"

lemma ex_batch_valid: "check_batch ex_batch = None"
  using ex_plan_patterns by (simp add: check_batch_def ex_batch_def ex_limits)

lemma ex_validated: "validate_attachment_against_profile ex_attachment ex_profile = Inr Family_document"
  by (simp add: validate_attachment_against_profile_def ex_attachment_def ex_inspection_def ex_profile_def media_family_def)

lemma ex_loop:
  "plan_loop ex_att_sha ''plan_one'' ex_digest ex_profile [ex_attachment] empty_batch_state =
     Inr \<lparr>bs_batches = [ex_batch], bs_ids = [], bs_bytes = 0, bs_families = []\<rparr>"
proof -
  have "jint 0 = ''0''" by code_simp
  then have "stable_id ex_att_sha ''attbatch_'' [''plan_one'', ex_digest, jint 0, ''att_one''] = Inr (''attbatch_'' @ take 24 ex_digest)"
    unfolding stable_id_def by (subst ex_framed_digest) (simp_all add: ex_lengths)
  moreover have "ca_attachment_id ex_attachment = ''att_one''" "size_of ex_attachment = 5"
    by (simp_all add: ex_attachment_def ex_inspection_def)
  moreover have "\<not> exceeds_batch ex_profile empty_batch_state ex_attachment Family_document"
    by (simp add: exceeds_batch_def empty_batch_state_def ex_profile_def ex_attachment_def ex_inspection_def)
  ultimately show ?thesis using ex_batch_valid
    by (simp add: ex_validated empty_batch_state_def add_attachment_def flush_batch_def ex_batch_def)
qed

definition ex_plan :: attachment_plan where
  "ex_plan = (unsigned_plan ''plan_one'' ''account_one'' ex_manifest ex_profile 1700000003000000 None None [ex_batch])
     \<lparr>pl_plan_sha256 := ex_digest\<rparr>"

lemma ex_plan_frames: "list_all small_frame (plan_frames ex_plan)"
  using ex_plan_patterns(3) by (simp add: plan_frames_def batch_frames_def ex_plan_def unsigned_plan_def ex_manifest_def ex_profile_def
      ex_batch_def ex_attachment_def ex_lengths)

lemma ex_plan_valid: "check_plan ex_att_sha ex_plan = None"
proof -
  have "attachment_plan_sha256 ex_att_sha ex_plan = Inr ex_digest"
    unfolding attachment_plan_sha256_def by (rule ex_framed_digest) (rule ex_plan_frames)
  moreover have "plan_fields_valid ex_plan"
    using ex_plan_patterns ex_patterns ex_batch_valid by (simp add: plan_fields_valid_def ex_plan_def unsigned_plan_def ex_manifest_def
        ex_profile_def optional_def ex_limits)
  ultimately show ?thesis
    by (simp add: check_plan_def validate_plan_def check_digest_def)
       (simp add: ex_plan_def unsigned_plan_def ex_manifest_def ex_batch_def ex_attachment_def check_digest_def)
qed

lemma ex_plan_made:
  "plan_attachment_batches ex_att_sha ''plan_one'' ''account_one'' ex_manifest ex_profile (ex_att_time 1700000003000000) None 300000000 = Inr ex_plan"
proof -
  let ?p = "unsigned_plan ''plan_one'' ''account_one'' ex_manifest ex_profile 1700000003000000 None None [ex_batch]"
  have "plan_frames ?p = plan_frames ex_plan" by (simp add: plan_frames_def ex_plan_def)
  then have d: "attachment_plan_sha256 ex_att_sha ?p = Inr ex_digest"
    unfolding attachment_plan_sha256_def using ex_framed_digest [OF ex_plan_frames] by simp
  have n: "fp_max_batches_per_manifest ex_profile = 2" by (simp add: ex_profile_def)
  have q: "effective_quota ex_profile None = None" by (simp add: effective_quota_def)
  have m: "am_attachments ex_manifest = [ex_attachment]" "am_manifest_sha256 ex_manifest = ex_digest" by (simp_all add: ex_manifest_def)
  have "planning_checks ex_att_sha ''account_one'' ex_manifest ex_profile 1700000003000000 None 300000000 = None"
    by (simp add: planning_checks_def ex_manifest_valid ex_profile_valid q validate_profile_support_def validate_quota_def)
       (simp add: ex_manifest_def ex_profile_def)
  then show ?thesis using ex_plan_valid d
    by (simp add: plan_attachment_batches_def ex_att_time_def q quota_digest_def m ex_loop n ex_plan_def del: plan_loop.simps)
qed

theorem plan_verifies_and_is_shortest_witness:
  "verify_attachment_batch_plan ex_att_sha ex_plan ''account_one'' ex_manifest ex_profile None 300000000 = None"
  using plan_verifies_and_is_shortest [OF ex_plan_made] by blast

end
