(* ===== verification/Attachment_Receipts.thy ===== *)
theory Attachment_Receipts
  imports Attachment_Planning
begin

text \<open>
  providers/fake_attachment_provider.py: the deterministic provider that answers a submitted batch with a receipt, its
  idempotency, and the verification of receipts.
\<close>

section \<open>Operations\<close>

datatype fake_scenario = Fake_completed | Fake_partial | Fake_cancelled | Fake_rejected | Fake_ambiguous

datatype receipt_failure = Receipt_value string | Idempotency_conflict | Receipt_model model_error

type_synonym receipt_store = "string \<rightharpoonup> string \<times> batch_receipt"

text \<open>\<open>xs[i]\<close>, where a negative index counts from the end; \<open>None\<close> is the \<open>IndexError\<close>.\<close>

definition py_index :: "'a list \<Rightarrow> int \<Rightarrow> 'a option" where
  "py_index xs i = (let j = (if i < 0 then i + int (length xs) else i) in
     if 0 \<le> j \<and> j < int (length xs) then Some (xs ! nat j) else None)"

definition receipt_integrity :: "model_error option \<Rightarrow> string \<Rightarrow> receipt_failure option" where
  "receipt_integrity r message = (case r of None \<Rightarrow> None
     | Some Framing_overflow \<Rightarrow> Some (Receipt_model Framing_overflow) | Some _ \<Rightarrow> Some (Receipt_value message))"

definition fake_stable_id :: "(bytes \<Rightarrow> bytes) \<Rightarrow> string \<Rightarrow> string list \<Rightarrow> model_error + string" where
  "fake_stable_id sha pre parts = (case framed_digest sha ''systeme-local:fake-attachment-id:v1'' (map Frame_text parts) of
     Inl e \<Rightarrow> Inl e | Inr d \<Rightarrow> Inr (pre @ take 24 d))"

definition batch_payload_digest :: "(bytes \<Rightarrow> bytes) \<Rightarrow> attachment_plan \<Rightarrow> attachment_batch \<Rightarrow> model_error + string" where
  "batch_payload_digest sha pl b = framed_digest sha ''systeme-local:fake-attachment-batch-payload:v1''
     (map Frame_text ([pl_plan_sha256 pl, ab_batch_id b, jint (ab_batch_index b)] @ ab_attachment_ids b))"

fun upload_ids :: "(bytes \<Rightarrow> bytes) \<Rightarrow> attachment_plan \<Rightarrow> attachment_batch \<Rightarrow> string list \<Rightarrow> model_error + string list" where
  "upload_ids sha pl b [] = Inr []"
| "upload_ids sha pl b (a # ids) =
     (case fake_stable_id sha ''fakeupload_'' [pl_plan_sha256 pl, ab_batch_id b, a] of Inl e \<Rightarrow> Inl e
      | Inr u \<Rightarrow> (case upload_ids sha pl b ids of Inl e \<Rightarrow> Inl e | Inr us \<Rightarrow> Inr (u # us)))"

text \<open>The attachments a scenario accepts, whether that is known, and what the receipt says.\<close>

fun scenario_outcome :: "fake_scenario \<Rightarrow> string list \<Rightarrow> string list \<times> bool \<times> retry_directive \<times> transfer_status \<times> string option" where
  "scenario_outcome Fake_completed ids = (ids, True, Do_not_retry, Transfer_completed, None)"
| "scenario_outcome Fake_partial ids =
     (take (max 1 (length ids div 2)) ids, True, Do_not_retry, Transfer_partial, Some ''FAKE_PARTIAL_ACCEPTANCE'')"
| "scenario_outcome Fake_cancelled ids = ([], True, Safe_retry, Transfer_cancelled, Some ''FAKE_CANCELLED_BEFORE_ACCEPTANCE'')"
| "scenario_outcome Fake_rejected ids = ([], True, Do_not_retry, Transfer_rejected, Some ''FAKE_PROVIDER_REJECTION'')"
| "scenario_outcome Fake_ambiguous ids = ([], False, Reconcile_required, Transfer_ambiguous, Some ''FAKE_ACCEPTANCE_UNKNOWN'')"

definition make_receipt ::
  "(bytes \<Rightarrow> bytes) \<Rightarrow> attachment_plan \<Rightarrow> attachment_batch \<Rightarrow> string \<Rightarrow> fake_scenario \<Rightarrow> int \<Rightarrow> model_error + batch_receipt" where
  "make_receipt sha pl b key scenario observed_at =
     (case scenario_outcome scenario (ab_attachment_ids b) of (accepted, known, directive, status, code) \<Rightarrow>
      (case upload_ids sha pl b accepted of Inl e \<Rightarrow> Inl e
       | Inr uploads \<Rightarrow>
           (case fake_stable_id sha ''attreceipt_'' [pl_plan_sha256 pl, ab_batch_id b, key] of Inl e \<Rightarrow> Inl e
            | Inr receipt_id \<Rightarrow>
                let r = \<lparr>br_receipt_id = receipt_id, br_plan_id = pl_plan_id pl, br_batch_id = ab_batch_id b,
                    br_batch_index = ab_batch_index b, br_idempotency_key = key, br_status = status, br_accepted_attachment_ids = accepted,
                    br_provider_upload_ids = uploads, br_acceptance_known = known, br_retry_directive = directive, br_error_code = code,
                    br_observed_at = observed_at, br_receipt_sha256 = []\<rparr>
                in (case attachment_receipt_sha256 sha r of Inl e \<Rightarrow> Inl e
                    | Inr d \<Rightarrow> let r' = r\<lparr>br_receipt_sha256 := d\<rparr> in
                        (case check_receipt sha r' of Some e \<Rightarrow> Inl e | None \<Rightarrow> Inr r')))))"

definition fake_provider :: string where
  "fake_provider = ''chatgpt''"

definition fake_surface :: string where
  "fake_surface = ''deterministic_fake_attachment''"

definition submit_batch ::
  "(bytes \<Rightarrow> bytes) \<Rightarrow> attachment_plan \<Rightarrow> int \<Rightarrow> string \<Rightarrow> fake_scenario \<Rightarrow> datetime \<Rightarrow> receipt_store \<Rightarrow>
    (receipt_failure + batch_receipt) \<times> receipt_store" where
  "submit_batch sha pl batch_index key scenario observed st =
     (if \<not> dt_aware observed then (Inl (Receipt_value ''timestamps must include a timezone''), st)
      else case receipt_integrity (check_plan sha pl) ''attachment plan integrity invalid'' of Some e \<Rightarrow> (Inl e, st)
      | None \<Rightarrow>
          if pl_provider pl \<noteq> fake_provider \<or> pl_surface pl \<noteq> fake_surface
            then (Inl (Receipt_value ''attachment plan targets another provider surface''), st)
          else if dt_instant observed < pl_planned_at pl
            then (Inl (Receipt_value ''attachment receipt cannot precede plan creation''), st)
          else (case py_index (pl_batches pl) batch_index of
              None \<Rightarrow> (Inl (Receipt_value ''batch_index is outside the attachment plan''), st)
            | Some b \<Rightarrow>
                if ab_batch_index b \<noteq> batch_index then (Inl (Receipt_value ''attachment plan batch index is inconsistent''), st)
                else (case batch_payload_digest sha pl b of Inl e \<Rightarrow> (Inl (Receipt_model e), st)
                  | Inr payload_digest \<Rightarrow>
                      (case st key of
                         Some (previous_digest, receipt) \<Rightarrow>
                           if previous_digest \<noteq> payload_digest then (Inl Idempotency_conflict, st) else (Inr receipt, st)
                       | None \<Rightarrow>
                           (case make_receipt sha pl b key scenario (dt_instant observed) of Inl e \<Rightarrow> (Inl (Receipt_model e), st)
                            | Inr receipt \<Rightarrow> (Inr receipt, st(key \<mapsto> (payload_digest, receipt))))))))"

section \<open>Verification\<close>

definition accepted_fits_status :: "transfer_status \<Rightarrow> string list \<Rightarrow> string list \<Rightarrow> receipt_failure option" where
  "accepted_fits_status status accepted ids =
     (case status of
        Transfer_completed \<Rightarrow>
          if accepted \<noteq> ids then Some (Receipt_value ''completed receipt must accept the entire batch'') else None
      | Transfer_partial \<Rightarrow>
          if accepted = [] \<or> accepted = ids then Some (Receipt_value ''partial receipt must accept a non-empty proper prefix'')
          else if accepted \<noteq> take (length accepted) ids then Some (Receipt_value ''partial receipt must accept a stable batch prefix'')
          else None
      | _ \<Rightarrow> if accepted \<noteq> [] then Some (Receipt_value ''non-accepting receipt cannot list accepted attachments'') else None)"

definition verify_attachment_batch_receipt ::
  "(bytes \<Rightarrow> bytes) \<Rightarrow> batch_receipt \<Rightarrow> attachment_plan \<Rightarrow> receipt_failure option" where
  "verify_attachment_batch_receipt sha r pl =
     (case receipt_integrity (check_plan sha pl) ''attachment plan integrity invalid'' of Some e \<Rightarrow> Some e
      | None \<Rightarrow>
      (case receipt_integrity (check_receipt sha r) ''attachment receipt integrity invalid'' of Some e \<Rightarrow> Some e
       | None \<Rightarrow>
          if br_observed_at r < pl_planned_at pl then Some (Receipt_value ''attachment receipt predates the attachment plan'')
          else (case py_index (pl_batches pl) (br_batch_index r) of
              None \<Rightarrow> Some (Receipt_value ''receipt batch index is outside the attachment plan'')
            | Some b \<Rightarrow>
                if br_plan_id r \<noteq> pl_plan_id pl \<or> br_batch_id r \<noteq> ab_batch_id b
                  then Some (Receipt_value ''receipt does not belong to the attachment plan batch'')
                else (case fake_stable_id sha ''attreceipt_'' [pl_plan_sha256 pl, ab_batch_id b, br_idempotency_key r] of
                    Inl e \<Rightarrow> Some (Receipt_model e)
                  | Inr expected_receipt_id \<Rightarrow>
                      if br_receipt_id r \<noteq> expected_receipt_id then Some (Receipt_value ''receipt identifier is not deterministic'')
                      else if \<not> set (br_accepted_attachment_ids r) \<subseteq> set (ab_attachment_ids b)
                        then Some (Receipt_value ''receipt accepts an attachment outside the batch'')
                      else (case upload_ids sha pl b (br_accepted_attachment_ids r) of Inl e \<Rightarrow> Some (Receipt_model e)
                        | Inr expected_upload_ids \<Rightarrow>
                            if br_provider_upload_ids r \<noteq> expected_upload_ids
                              then Some (Receipt_value ''receipt provider upload identifiers are not deterministic'')
                            else accepted_fits_status (br_status r) (br_accepted_attachment_ids r) (ab_attachment_ids b))))))"

section \<open>Receipts of the provider\<close>

lemma receipt_integrity_None: "receipt_integrity r message = None \<longleftrightarrow> r = None"
  by (auto simp: receipt_integrity_def split: option.splits model_error.splits)

lemma make_receipt_Inr:
  assumes "make_receipt sha pl b key scenario now = Inr r"
  shows "check_receipt sha r = None \<and> br_observed_at r = now \<and> br_batch_index r = ab_batch_index b \<and> br_plan_id r = pl_plan_id pl \<and>
    br_batch_id r = ab_batch_id b \<and> br_idempotency_key r = key \<and>
    fake_stable_id sha ''attreceipt_'' [pl_plan_sha256 pl, ab_batch_id b, key] = Inr (br_receipt_id r) \<and>
    upload_ids sha pl b (br_accepted_attachment_ids r) = Inr (br_provider_upload_ids r) \<and>
    br_accepted_attachment_ids r = fst (scenario_outcome scenario (ab_attachment_ids b)) \<and>
    br_status r = fst (snd (snd (snd (scenario_outcome scenario (ab_attachment_ids b)))))"
  using assms by (auto simp: make_receipt_def Let_def split: prod.splits sum.splits option.splits)

lemma scenario_fits:
  assumes "ids \<noteq> []"
  shows "accepted_fits_status (fst (snd (snd (snd (scenario_outcome scenario ids))))) (fst (scenario_outcome scenario ids)) ids = None \<longleftrightarrow>
      \<not> (scenario = Fake_partial \<and> length ids = 1)"
    "set (fst (scenario_outcome scenario ids)) \<subseteq> set ids"
proof -
  let ?n = "max 1 (length ids div 2)"
  have n: "0 < ?n" "?n \<le> length ids" using assms by (cases ids; simp)+
  have "take ?n ids = ids \<longleftrightarrow> length ids = 1"
  proof
    assume "take ?n ids = ids"
    then have "length ids \<le> ?n" by (metis length_take min.cobounded2)
    moreover from assms have "0 < length ids" by simp
    ultimately show "length ids = 1" by (simp add: max_def del: length_greater_0_conv split: if_splits)
  qed simp
  moreover have "take ?n ids \<noteq> []" "length (take ?n ids) = ?n" using n assms by simp_all
  ultimately show "accepted_fits_status (fst (snd (snd (snd (scenario_outcome scenario ids))))) (fst (scenario_outcome scenario ids)) ids = None \<longleftrightarrow>
      \<not> (scenario = Fake_partial \<and> length ids = 1)"
    using assms by (cases scenario) (simp_all add: accepted_fits_status_def del: length_take)
  show "set (fst (scenario_outcome scenario ids)) \<subseteq> set ids" by (cases scenario) (auto dest: in_set_takeD)
qed

text \<open>C29. The receipt of a new submission verifies against its plan exactly when it is not a partial acceptance of a batch of
  one attachment: such a receipt accepts the whole batch, which the verification refuses.\<close>

theorem new_receipt_verifies_iff:
  assumes "submit_batch sha pl i key scenario observed st = (Inr r, st')" "st key = None" "py_index (pl_batches pl) i = Some b"
  shows "verify_attachment_batch_receipt sha r pl = None \<longleftrightarrow> \<not> (scenario = Fake_partial \<and> length (ab_attachment_ids b) = 1)"
proof -
  from assms have p: "check_plan sha pl = None" "\<not> dt_instant observed < pl_planned_at pl" "ab_batch_index b = i"
    and m: "make_receipt sha pl b key scenario (dt_instant observed) = Inr r"
    by (auto simp: submit_batch_def receipt_integrity_None split: if_splits option.splits sum.splits)
  have "b \<in> set (pl_batches pl)" using assms(3) by (auto simp: py_index_def Let_def split: if_splits)
  then have "check_batch b = None" using p(1) by (auto simp: check_plan_def plan_fields_valid_def list_all_iff split: if_splits)
  then have ids: "ab_attachment_ids b \<noteq> []" by (auto simp: check_batch_def int_between_def split: if_splits)
  define out where "out = scenario_outcome scenario (ab_attachment_ids b)"
  have "check_receipt sha r = None" "\<not> br_observed_at r < pl_planned_at pl" "br_batch_index r = i" "br_plan_id r = pl_plan_id pl"
    "br_batch_id r = ab_batch_id b" "br_idempotency_key r = key" "br_status r = fst (snd (snd (snd out)))"
    "br_accepted_attachment_ids r = fst out" "upload_ids sha pl b (fst out) = Inr (br_provider_upload_ids r)"
    "fake_stable_id sha ''attreceipt_'' [pl_plan_sha256 pl, ab_batch_id b, key] = Inr (br_receipt_id r)"
    using make_receipt_Inr [OF m] p by (auto simp: out_def)
  then show ?thesis using p assms(3) scenario_fits [OF ids, of scenario, folded out_def]
    by (simp add: verify_attachment_batch_receipt_def receipt_integrity_def)
qed

text \<open>A key that was used gives the receipt it was used for, whatever scenario is asked for, or a conflict; nothing changes.\<close>

lemma submission_is_idempotent:
  assumes "st key = Some (digest, receipt)" "submit_batch sha pl i key scenario observed st = (res, st')"
  shows "st' = st \<and> (case res of Inr r \<Rightarrow> r = receipt | Inl _ \<Rightarrow> True)"
  using assms by (auto simp: submit_batch_def split: if_splits option.splits sum.splits)

text \<open>The plan of the example, aimed at the fake provider, and the partial acceptance of its only attachment.\<close>

definition ex_fake_plan :: attachment_plan where
  "ex_fake_plan = ex_plan\<lparr>pl_surface := fake_surface\<rparr>"

lemma ex_fake_plan_valid: "check_plan ex_att_sha ex_fake_plan = None"
proof -
  have "provider_pattern fake_surface" by code_simp
  moreover have "list_all small_frame (plan_frames ex_fake_plan)"
    using ex_plan_frames by (simp add: plan_frames_def ex_fake_plan_def fake_surface_def)
  then have "attachment_plan_sha256 ex_att_sha ex_fake_plan = Inr ex_digest"
    unfolding attachment_plan_sha256_def by (rule ex_framed_digest)
  moreover have "attachment_plan_sha256 ex_att_sha ex_plan = Inr ex_digest"
    unfolding attachment_plan_sha256_def by (rule ex_framed_digest) (rule ex_plan_frames)
  moreover have "pl_plan_sha256 ex_plan = ex_digest" by (simp add: ex_plan_def)
  ultimately show ?thesis using ex_plan_valid
    by (simp add: check_plan_def plan_fields_valid_def validate_plan_def check_digest_def optional_def ex_fake_plan_def Let_def
        split: if_splits)
qed

definition ex_receipt :: batch_receipt where
  "ex_receipt = \<lparr>br_receipt_id = ''attreceipt_'' @ take 24 ex_digest, br_plan_id = ''plan_one'', br_batch_id = ab_batch_id ex_batch,
     br_batch_index = 0, br_idempotency_key = ''key_one'', br_status = Transfer_partial, br_accepted_attachment_ids = [''att_one''],
     br_provider_upload_ids = [''fakeupload_'' @ take 24 ex_digest], br_acceptance_known = True, br_retry_directive = Do_not_retry,
     br_error_code = Some ''FAKE_PARTIAL_ACCEPTANCE'', br_observed_at = 1700000003000000, br_receipt_sha256 = ex_digest\<rparr>"

lemma ex_receipt_digest: "attachment_receipt_sha256 ex_att_sha (ex_receipt\<lparr>br_receipt_sha256 := d\<rparr>) = Inr ex_digest"
  unfolding attachment_receipt_sha256_def
  by (rule ex_framed_digest) (simp add: ex_receipt_def ex_batch_def ex_lengths ex_plan_patterns(3))

lemma ex_receipt_valid: "check_receipt ex_att_sha ex_receipt = None"
proof -
  have "list_all id_pattern [''attreceipt_'' @ take 24 ex_digest, ''plan_one'', ''attbatch_'' @ take 24 ex_digest, ''key_one'']"
    "error_code_pattern ''FAKE_PARTIAL_ACCEPTANCE''" by code_simp+
  then have "receipt_fields_valid ex_receipt"
    using ex_patterns(1) by (simp add: receipt_fields_valid_def ex_receipt_def ex_batch_def optional_def ex_limits)
  moreover have "validate_status ex_receipt = None" by (simp add: validate_status_def ex_receipt_def)
  moreover have "ex_receipt\<lparr>br_receipt_sha256 := ex_digest\<rparr> = ex_receipt" by (simp add: ex_receipt_def)
  ultimately show ?thesis using ex_receipt_digest [of ex_digest]
    by (simp add: check_receipt_def validate_receipt_def check_digest_def) (simp add: ex_receipt_def)
qed

lemma ex_fake_plan_fields:
  "pl_provider ex_fake_plan = fake_provider" "pl_surface ex_fake_plan = fake_surface" "pl_planned_at ex_fake_plan = 1700000003000000"
  "pl_batches ex_fake_plan = [ex_batch]" "pl_plan_sha256 ex_fake_plan = ex_digest" "pl_plan_id ex_fake_plan = ''plan_one''"
  by (simp_all add: ex_fake_plan_def ex_plan_def unsigned_plan_def ex_profile_def fake_provider_def)

lemma ex_make_receipt: "make_receipt ex_att_sha ex_fake_plan ex_batch ''key_one'' Fake_partial 1700000003000000 = Inr ex_receipt"
proof -
  have "length (''attbatch_'' @ take 24 ex_digest) = 33" by (simp add: ex_lengths)
  then have "fake_stable_id ex_att_sha pre [ex_digest, ''attbatch_'' @ take 24 ex_digest, k] = Inr (pre @ take 24 ex_digest)"
    if "k = ''att_one'' \<or> k = ''key_one''" for pre k
    using that ex_plan_patterns(3) unfolding fake_stable_id_def by (subst ex_framed_digest) (auto simp: ex_lengths)
  then show ?thesis using ex_receipt_valid ex_receipt_digest [of "[]"]
    by (simp add: make_receipt_def ex_fake_plan_fields ex_batch_def) (simp add: ex_receipt_def ex_batch_def)
qed

theorem new_receipt_verifies_iff_witness:
  "fst (submit_batch ex_att_sha ex_fake_plan 0 ''key_one'' Fake_partial (ex_att_time 1700000003000000) Map.empty) = Inr ex_receipt \<and>
    verify_attachment_batch_receipt ex_att_sha ex_receipt ex_fake_plan \<noteq> None"
proof -
  have "jint 0 = ''0''" by code_simp
  then have "batch_payload_digest ex_att_sha ex_fake_plan ex_batch = Inr ex_digest"
    unfolding batch_payload_digest_def by (subst ex_framed_digest) (simp_all add: ex_fake_plan_fields ex_batch_def ex_lengths)
  moreover have "dt_instant (ex_att_time 1700000003000000) = 1700000003000000" "dt_aware (ex_att_time 1700000003000000)"
    by (simp_all add: ex_att_time_def)
  moreover have "ab_batch_index ex_batch = 0" by (simp add: ex_batch_def)
  moreover have i: "py_index (pl_batches ex_fake_plan) 0 = Some ex_batch" by (simp add: ex_fake_plan_fields py_index_def)
  ultimately have s: "submit_batch ex_att_sha ex_fake_plan 0 ''key_one'' Fake_partial (ex_att_time 1700000003000000) Map.empty =
      (Inr ex_receipt, [''key_one'' \<mapsto> (ex_digest, ex_receipt)])"
    using ex_make_receipt ex_fake_plan_valid ex_fake_plan_fields(1-3) by (simp add: submit_batch_def receipt_integrity_def)
  from new_receipt_verifies_iff [OF s _ i] s show ?thesis by (simp add: ex_batch_def)
qed

end
