(* ===== verification/Spec2Isabelle.thy ===== *)
theory Spec2Isabelle
  imports Gateway Store_Refinement Context_Refinement Brains C9_Control Config Attachment_Receipts
begin

text \<open>
  A verification library for systeme-local, a gateway that lets remote AI agents act on a local machine. The program
  is the Python package \<open>src/src/systeme_local_gateway\<close>; file names below are relative to it.

  \<^bold>\<open>The program.\<close> An agent sends a signed task to the HTTP endpoint (main.py), or calls a tool over the Model Context
  Protocol (mcp_runtime.py), which turns the call into such a task. The task processor (task_processor.py)
  verifies the signature, the lifetime and the nonce (auth.py), asks the policy engine (policy.py), asks for or consumes an
  operator's approval (approvals.py), runs the capability (executor.py, with paths.py, sandbox.py and c0_probe.py)
  and writes every decision to an audit log (audit.py) that is chained by MACs and checkpointed in a second file
  (audit_anchor.py). Beside it the package keeps what it knows about chat providers: runs of turns with their life cycle
  (providers/state_machine.py, store.py), accounts, quotas and bindings (context_models.py, context_store.py), attachments
  that are inspected, committed, planned into upload batches and answered by receipts (attachment_*.py).

  \<^bold>\<open>Foundations.\<close>
  \<^item> Prelude: theorem collections, lists and maps; the locales \<open>single_use\<close> (an identifier is used at most once over any
    run) and \<open>expiring_use\<close> (not again before it expires), which the stores and the whole gateway interpret.
    Strings are lists of characters with codes below 256, read as Latin-1 with one exchange for the ellipsis.
  \<^item> Py_Text, Py_Time, Iso_Order: Python's string methods; datetimes as microseconds, the double arithmetic of
    \<open>int(timestamp() * 1_000_000)\<close>, ISO texts whose order is that of the instants.
  \<^item> Py_Number, Json: the texts of integers and floats (a float is the shortest decimal text that \<open>json.dumps\<close> prints for the
    double); \<open>json.dumps\<close> and \<open>json.loads\<close>, their round trip and the injectivity of the canonical text, floats, \<open>NaN\<close> and the
    infinities included. The reader's fuel is the length of the text plus one; the round trip shows it suffices for every
    printed text. Json_Codec: what a store relies on in a model printed by pydantic, with an instance. Crypto: digests in
    hexadecimal and base64 around HMAC.
  \<^item> Hash_Chain: text lines and the locale \<open>mac_chain\<close>: the last MAC determines the chain. File_Lock: the polling loop of
    the process lock, whose fuel (the timeout in steps of 50 ms, plus two) always suffices when the clock advances.
  \<^item> Tables: the locale \<open>keyed_table\<close> for database tables. Greedy_Split: the locale \<open>divisible\<close>; the greedy division of a list
    into groups that fit is the shortest one.

  \<^bold>\<open>The gateway.\<close>
  \<^item> Models, Policy (models.py, policy.py): envelopes, results, policy documents and decisions. Redaction, Hash_Chain,
    Audit_Anchor, Audit_Log, Audit_Runtime (audit.py, audit_anchor.py, audit_runtime.py): redaction, the event projection, the
    chain, checkpoints, verification and append; a change of history is found, an append is read back, a kept checkpoint keeps
    the history, an anchor that lags by a crash heals. What holds of an append holds with and without an anchor; an event with
    \<open>NaN\<close> or an infinity is refused, as the code refuses it.
  \<^item> Auth (auth.py): signatures and two replay guards under one locale \<open>replay_guard\<close>; exactly which tasks are accepted.
    Approvals (approvals.py): the approval database as rows with MACs; an approval is consumed once, by the request
    it was given for.
  \<^item> File_System, Sandbox, C0_Probe, Executor (paths.py, sandbox.py, c0_probe.py, executor.py): the file tree with links,
    path resolution, snapshots, change reports, the docker command line, the probe; execution stays in the workspace.
  \<^item> Task_Processor, Gateway (task_processor.py, main.py): the processor over its protocols (locale \<open>task_services\<close>), its
    refinement of the abstract gate \<open>authorized\<close>, and the composition with the concrete services, which interprets the locale.
  \<^item> Mcp_Tools, Mcp_Adapter, Mcp_Http (mcp_tools.py, mcp_runtime.py): tool registry, calls, rendering with
    commit and abort, rate limiter, and the header checks of the HTTP endpoint.
  \<^item> Config (config.py, parts of c9_private_state.py and c9_local_ai.py): exactly which settings are accepted.
    C9_Control (c9_control.py): the guard of the operator's control endpoint. Brains (brains/): routing of requests.

  \<^bold>\<open>Providers.\<close>
  \<^item> Provider_Models, Lifecycle (providers/models.py, state_machine.py): values and the state machine of a run, with the
    invariants of every reachable run. Event_Store, Store_Refinement (store.py): the SQLite store, its
    invariant, and the simulation of the state machine by its tables.
  \<^item> Context_Models, Context_Store, Context_Refinement (context_models.py, context_policy.py, context_store.py): versioned
    accounts and bindings and quota observations; the locale \<open>version_table\<close> and its instances; any calls keep the
    histories, and a store written through its operations opens again.
  \<^item> Attachment_Models, Attachment_Content, Png_Format, Json_Scanner, Attachment_Commit (attachment_models.py,
    attachment_commit.py): digests over framed fields bind them; PNG inspection accepts exactly the byte strings
    of a grammar; committed bytes verify. The strict JSON scanner has fuel twice the length of the text plus two;
    Json_Scanner shows that more changes nothing.
  \<^item> Attachment_Policy, Attachment_Planning, Attachment_Receipts (attachment_policy.py, fake_attachment_provider.py): plans
    are the greedy split, verify and have the fewest batches; which receipts verify.

  This theory holds the properties that span the components: what a run of the gateway can do, what it records,
  what refusals say, and that valid tasks are served.

  \<^bold>\<open>Parameters.\<close> Code outside the package is an argument of the definitions: HMAC and SHA-256, \<open>datetime.fromisoformat\<close>,
  the YAML loader, docker and the processes it runs, the texts of library errors, pydantic's codec of the stored models and its
  schema generator, the MCP session manager, \<open>ip_address.is_loopback\<close>, the renderer of handoffs. Of pydantic's JSON mode the
  model keeps the documented default that \<open>NaN\<close> and the infinities are dumped as null (\<open>json_mode\<close>). Theorems that need
  more of the parameters than that they are functions say so in a hypothesis (no collision of a MAC among the compared messages, a codec
  that reads what it prints), and a witness instantiates it. SQLite is tables with their constraints and transactions that
  commit or roll back; the answers of the operating system (clocks, faults, random identifiers) are part of a call.

  \<^bold>\<open>Not modelled.\<close> The argument parsers and printing of operator commands; FastAPI and the lifespan of the server; threads
  (calls are sequences of steps, as the locks of the code make them). The C0 to C9 evidence, governance and seal
  modules record observations of web sites and digests of Git trees, run Git or fetch pages, and are not called by the
  gateway. The C9 handoff runtime with its leases, image re-encoding and Windows handles rests on Pillow and operating system
  interfaces. The ChatGPT deployment and readiness modules are catalogues with consistency checks. The
  Rust crates are separate programs.
\<close>

section \<open>Authorisation\<close>

text \<open>C1. Nothing is executed without authorisation: when a submission changes anything the executor works on, or is
  answered as completed or failed, then the task carries the signature of the shared secret and has not
  expired, the replay guard accepted its nonce in this call, and either the policy allows the capability
  and the task names no approval, or the policy requires approval and this call consumed the approval
  the task names, for this task's request.\<close>

theorem execution_requires_authorization:
  assumes "process (gateway_services gw env) t s = (r, s')" "gs_exec s' \<noteq> gs_exec s \<or> outcome_executed r"
  shows "te_signature t = compute_task_signature (gw_hmac gw) t (gw_shared_secret gw) \<and>
    ce_now env < dt_instant (te_expires_at t) \<and>
    check_and_mark_us (gw_hmac gw) (gw_replay_guard gw) (ce_guard_fault env) (micros (ce_guard_now env)) (te_nonce t)
      (micros (te_expires_at t)) (gs_replay s) = (Inr (), gs_replay s') \<and>
    (case pdec_decision (evaluate (gw_policy gw) (te_capability t)) of
       Allow \<Rightarrow> te_approval_id t = None
     | Require_approval \<Rightarrow> (\<exists>k rec. te_approval_id t = Some k \<and>
         consume (gw_hmac gw) (gw_approval_store gw) (ce_store_fault env) (ce_store_now env) k t (gs_approvals s) =
           (Inr rec, gs_approvals s'))
     | Deny \<Rightarrow> False)"
  using assms(1)
proof (cases rule: gateway.process_cases)
  case (executed s1)
  let ?sv = "gateway_services gw env"
  from executed(1) obtain s0 where v: "sv_verify ?sv t s = (Inr (), s0)" by (auto simp: authorized_def)
  obtain q s2 where q: "sv_verify ?sv t s = (q, s2)" "gs_replay s' = gs_replay s2"
    using gateway.process_replay [OF assms(1)] by blast
  then have "gs_replay s' = gs_replay s0" using v by simp
  moreover have "case pdec_decision (evaluate (gw_policy gw) (te_capability t)) of
       Allow \<Rightarrow> te_approval_id t = None
     | Require_approval \<Rightarrow> (\<exists>k rec. te_approval_id t = Some k \<and>
         consume (gw_hmac gw) (gw_approval_store gw) (ce_store_fault env) (ce_store_now env) k t (gs_approvals s) =
           (Inr rec, gs_approvals s'))
     | Deny \<Rightarrow> False"
  proof (cases "pdec_decision (evaluate (gw_policy gw) (te_capability t))")
    case Require_approval
    with executed(1) v obtain k rec s3 a where k: "te_approval_id t = Some k" "sv_consume ?sv k t s0 = (Inr rec, s3)"
      "sv_append ?sv (consumed_event t (ar_approval_id rec)) s3 = (Inr a, s1)" by (auto simp: authorized_def)
    have "gs_approvals s0 = gs_approvals s" "gs_approvals s' = gs_approvals s3"
      using gateway.verify_frame [OF v] gateway.append_frame [OF k(3)] gateway.execute_task_parts [OF executed(3)] by simp_all
    then show ?thesis using k(1,2) Require_approval
      by (auto simp: gateway_services_def gateway_consume_def split: prod.splits)
  qed (use executed(1) in \<open>auto simp: authorized_def\<close>)
  ultimately show ?thesis using gateway_verify_ok [OF v] by simp
qed (use assms(2) in simp)

text \<open>C2. A nonce buys one answer: over any run of the gateway with a guard clock that does not run backwards, whatever
  else is submitted, decided or fails in between, a task is not answered when an earlier task with the
  same nonce was answered and that task's expiry has not passed.\<close>

theorem gateway_no_replay:
  assumes "replay_db_wf (gw_replay_guard gw) (gs_replay s)" "sorted (map gateway_clock cs)" "i < j" "j < length cs"
    and "answered (result_at (gateway_step gw) cs s i)" "nonce_of (cs ! i) = nonce_of (cs ! j)"
    and "gateway_clock (cs ! j) < expiry_of (cs ! i)"
  shows "\<not> answered (result_at (gateway_step gw) cs s j)"
  using gateway_nonces.no_reuse [OF assms(1-5) _ assms(6)] assms(7) by auto

text \<open>C3. An approval runs one task: over any run of the gateway, after a task was executed with an approval, no later
  task is executed with the same approval id unless the store issued that id again in between.\<close>

theorem gateway_approval_runs_once:
  assumes "i < j" "j < length cs" "ran_with gw (cs ! i) (result_at (gateway_step gw) cs s i) k"
    and "\<And>m. i < m \<Longrightarrow> m < j \<Longrightarrow> \<not> issued_by (store_call (cs ! m)) k"
  shows "\<not> ran_with gw (cs ! j) (result_at (gateway_step gw) cs s j) k"
  using gateway_approvals.used_once [OF TrueI assms(1,2,3)] assms(4) by blast

text \<open>C4. What required approval was approved by the operator: when a run executes a task with an approval that was not
  already approved for such a request at the start, then an earlier operator call of that run approved
  this id for a request with the same digest.\<close>

theorem gateway_run_was_approved:
  assumes "j < length cs" "ran_with gw (cs ! j) (result_at (gateway_step gw) cs s j) k" "call_task (cs ! j) = Some t"
    and "\<not> holds_row k (request_hmac (gw_hmac gw) (gw_approval_store gw) t) (\<lambda>st. st = ''approved'') (gs_approvals s)"
  shows "\<exists>i < j. \<exists>fault now u. cs ! i = Operate (fault, now, Approve k u) \<and>
    (\<exists>x. result_at (gateway_step gw) cs s i = Operated (Inr x)) \<and>
    request_hmac (gw_hmac gw) (gw_approval_store gw) u = request_hmac (gw_hmac gw) (gw_approval_store gw) t"
proof -
  let ?h = "request_hmac (gw_hmac gw) (gw_approval_store gw) t"
  let ?P = "\<lambda>s :: 'a gateway_state. holds_row k ?h (\<lambda>st. st = ''approved'') (gs_approvals s)"
  note step = step_at [where step = "gateway_step gw" and cs = cs and s = s]
  from ran_with_consumed [OF step [OF assms(1)] assms(2)] obtain env q where
    c: "cs ! j = Submit env t" "te_approval_id t = Some k"
    "approval_step (gw_hmac gw) (gw_approval_store gw) (store_call (cs ! j)) (gs_approvals (state_at (gateway_step gw) cs s j)) =
       (Inr q, gs_approvals (state_at (gateway_step gw) cs s (Suc j)))"
    using assms(3) by auto
  have "?P (state_at (gateway_step gw) cs s j)"
    using consume_step_ok [OF c(3) [unfolded c(1) store_call_def gateway_call.case c(2) option.case]]
    by (auto simp: holds_row_def)
  then obtain i where i: "i < j" "\<not> ?P (state_at (gateway_step gw) cs s i)" "?P (state_at (gateway_step gw) cs s (Suc i))"
    using run_established [where P = ?P and s = s, OF assms(4)] assms(1) by (metis less_or_eq_imp_le)
  have st: "gateway_step gw (cs ! i) (state_at (gateway_step gw) cs s i) =
      (result_at (gateway_step gw) cs s i, state_at (gateway_step gw) cs s (Suc i))" using step [of i] i(1) assms(1) by simp
  from gateway_step_store [OF st] obtain q' where q': "approval_step (gw_hmac gw) (gw_approval_store gw) (store_call (cs ! i))
      (gs_approvals (state_at (gateway_step gw) cs s i)) = (q', gs_approvals (state_at (gateway_step gw) cs s (Suc i)))"
    using i by auto
  from approved_row_origin [OF q' i(2,3)] obtain u where u: "is_ok q'" "call_op (store_call (cs ! i)) = Approve k u"
    "request_hmac (gw_hmac gw) (gw_approval_store gw) u = ?h" by blast
  then obtain fault now where o: "cs ! i = Operate (fault, now, Approve k u)"
    by (cases "cs ! i") (auto simp: store_call_def call_op_def split: option.splits)
  then have "result_at (gateway_step gw) cs s i = Operated q'" using st q' by (auto simp: store_call_def split: prod.splits)
  then show ?thesis using i(1) o u(1,3) by (auto simp: is_ok_iff)
qed

section \<open>Audit\<close>

interpretation gateway_audit: service_relation "gateway_services gw env" "\<lambda>s s'. extends (gs_audit s) (gs_audit s')" for gw env
proof (unfold_locales, goal_cases)
  case (2 s1 s2 s3)
  then show ?case by (rule extends_trans)
next
  case (7 ev s r s')
  then show ?case using audit_append_extends [of "gs_audit s" "gw_hmac gw" "gw_fromiso gw" "gw_audit_log gw"]
    by (auto simp: gateway_services_def gateway_append_def split: prod.splits) (metis snd_conv)
qed (auto simp: gateway_service_defs split: prod.splits)

text \<open>C5. Every answer is on record: when a submission is answered with a result, the audit files only grew, and the last
  line of the log is the record of an event with the result's audit id, the task's id and capability, and
  the status of the result.\<close>

theorem answers_are_audited:
  assumes "submit_task gw env t s = (Http_result x, s')"
  shows "extends (gs_audit s) (gs_audit s') \<and> tr_task_id x = te_task_id t \<and>
    (\<exists>content n h ev. af_log (gs_audit s') =
        Log_text (content @ record_line (gw_hmac gw) (al_key (gw_audit_log gw)) (ce_audit env n) h ev @ [NL]) \<and>
      en_uuid (ce_audit env n) = tr_audit_id x \<and> ev_status ev = Some (status_text (tr_status x)) \<and>
      ev_task_id ev = Some (te_task_id t) \<and> ev_capability ev = Some (te_capability t))"
proof -
  from assms obtain p where "process (gateway_services gw env) t s = (p, s')" "Http_result x = Http_result x \<longleftrightarrow> p = Inr x"
    by (rule submit_task_process) blast
  then have p: "process (gateway_services gw env) t s = (Inr x, s')" by simp
  from process_well_answered [OF p] obtain ev s1 where a: "sv_append (gateway_services gw env) ev s1 = (Inr (tr_audit_id x), s')"
    "ev_status ev = Some (status_text (tr_status x))" "ev_task_id ev = Some (te_task_id t)"
    "ev_capability ev = Some (te_capability t)" "tr_task_id x = te_task_id t"
    by (auto simp: well_answered_def audited_def)
  from a(1) obtain fs where "audit_append (gw_hmac gw) (gw_fromiso gw) (gw_audit_log gw) (ce_audit env (gs_appends s1)) ev (gs_audit s1) =
      (Inr (tr_audit_id x), fs)" "gs_audit s' = fs"
    by (auto simp: gateway_services_def gateway_append_def split: prod.splits)
  with audit_append_ok [OF this(1)] a(2-5) gateway_audit.R_process [OF p] show ?thesis by metis
qed

section \<open>What a refusal says\<close>

definition auth_details :: "string list" where
  "auth_details = [''task lifetime exceeds maximum'', ''task expired'', ''task issued in the future'', ''invalid task signature'',
     ''replayed task nonce'', ''timestamps must include a timezone'']"

definition denial_reasons :: "policy_engine \<Rightarrow> string \<Rightarrow> string list" where
  "denial_reasons pe capability = [pdec_reason (evaluate pe capability), ''approval ID is not valid for this capability'',
     ''approval not found'', ''approval was denied'', ''approval was already used'', ''approval expired'',
     ''approval does not match submitted task'']"

lemma gateway_verify_error:
  "sv_verify (gateway_services gw env) t s = (Inl (Value_error m), s') \<Longrightarrow> m \<in> set auth_details"
  by (auto simp: gateway_services_def gateway_verify_def verify_task_def Let_def sqlite_check_and_mark_def
      datetime_to_microseconds_def check_and_mark_us_def auth_details_def
      split: prod.splits if_splits option.splits bool.splits)

definition plain_result :: "policy_engine \<Rightarrow> string \<Rightarrow> task_result \<Rightarrow> bool" where
  "plain_result pe capability x \<longleftrightarrow>
     (case tr_status x of
        Completed \<Rightarrow> tr_error x = None
      | Approval_required \<Rightarrow> tr_error x = None
      | Failed \<Rightarrow> tr_output x = [] \<and> tr_error x = Some ''task execution failed''
      | Denied \<Rightarrow> tr_output x = [] \<and> (\<exists>m \<in> set (denial_reasons pe capability). tr_error x = Some m))"

lemma with_audit_plain:
  "with_audit sv ev f s = (Inr x, s') \<Longrightarrow> (\<And>a. plain_result pe c (f a)) \<Longrightarrow> plain_result pe c x"
  using with_audit_result by fastforce

lemma denied_plain:
  "denied sv t reason s = (Inr x, s') \<Longrightarrow> reason \<in> set (denial_reasons pe c) \<Longrightarrow> plain_result pe c x"
  unfolding denied_def by (erule with_audit_plain) (auto simp: plain_result_def)

lemma execute_task_plain: "execute_task sv t config s = (Inr x, s') \<Longrightarrow> plain_result pe c x"
  by (auto simp: execute_task_def plain_result_def split: prod.splits sum.splits dest!: with_audit_result)

lemma handle_approval_plain:
  assumes "handle_approval sv t s = (Inr (Some x), s')"
  shows "plain_result pe c x"
proof -
  obtain q s1 where q: "(case te_approval_id t of None \<Rightarrow> sv_create sv t s | Some k \<Rightarrow> sv_consume sv k t s) = (q, s1)"
    by fastforce
  have some: "Inr (Some x) = map_sum id Some z \<longleftrightarrow> z = Inr x" for z :: "process_error + task_result" by (cases z) auto
  from assms q show ?thesis
  proof (cases rule: handle_approval_cases)
    case (ask y v z)
    then have "approval_required sv t y v s1 = (Inr x, s')" by (simp add: some)
    then show ?thesis unfolding approval_required_def Let_def by (rule with_audit_plain) (simp add: plain_result_def)
  next
    case (deny e z)
    then have "denied sv t (approval_error_text e) s1 = (Inr x, s')" by (simp add: some)
    then show ?thesis
      by (rule denied_plain) (use deny(3) in \<open>auto simp: approval_error_text_def denial_reasons_def\<close>)
  qed (auto split: sum.splits)
qed

lemma process_plain:
  assumes "process (gateway_services gw env) t s = (Inr x, s')"
  shows "plain_result (gw_policy gw) (te_capability t) x"
proof -
  let ?sv = "gateway_services gw env"
  obtain v s0 where v: "verify ?sv t s = (v, s0)" by fastforce
  obtain h s2 where h: "handle_approval ?sv t s0 = (h, s2)" by fastforce
  have reason: "pdec_reason (evaluate (gw_policy gw) (te_capability t)) \<in> set (denial_reasons (gw_policy gw) (te_capability t))"
    "''approval ID is not valid for this capability'' \<in> set (denial_reasons (gw_policy gw) (te_capability t))"
    by (simp_all add: denial_reasons_def)
  have "(\<exists>m \<in> set (denial_reasons (gw_policy gw) (te_capability t)). denied ?sv t m s0 = (Inr x, s')) \<or>
      h = Inr (Some x) \<and> s2 = s' \<or> (\<exists>c s3. execute_task ?sv t c s3 = (Inr x, s'))"
    using assms v h reason by (auto simp: process_def Let_def split: sum.splits if_splits option.splits)
  then show ?thesis using denied_plain handle_approval_plain execute_task_plain h by metis
qed

lemma process_error_detail:
  assumes "process (gateway_services gw env) t s = (Inl e, s')"
  shows "case e of Task_authentication d _ \<Rightarrow> d \<in> set auth_details
    | Task_unavailable d _ \<Rightarrow> d \<in> {''replay protection unavailable'', ''approval service unavailable''} | _ \<Rightarrow> True"
proof -
  let ?sv = "gateway_services gw env"
  obtain v s0 where v: "verify ?sv t s = (v, s0)" by fastforce
  obtain h s2 where h: "handle_approval ?sv t s0 = (h, s2)" by fastforce
  obtain q s1 where q: "(case te_approval_id t of None \<Rightarrow> sv_create ?sv t s0 | Some k \<Rightarrow> sv_consume ?sv k t s0) = (q, s1)"
    by fastforce
  have aud: "with_audit sv ev f s3 = (Inl x, s4) \<Longrightarrow> \<exists>y. x = Uncaught_audit y" for sv :: "'a gateway_state services" and ev f s3 x s4
    using with_audit_result by fastforce
  have down: "raise_unavailable ?sv t d s3 = (x, s4) \<Longrightarrow> (\<exists>a. x = Task_unavailable d a) \<or> (\<exists>y. x = Uncaught_audit y)" for d s3 x s4
    by (auto simp: raise_unavailable_def split: prod.splits sum.splits)
  have "v = Inl e \<or> h = Inl e \<or> (\<exists>y. e = Uncaught_audit y)"
    using assms v h aud
    by (fastforce simp: process_def Let_def denied_def execute_task_def split: sum.splits if_splits option.splits prod.splits)
  moreover have ?thesis if "v = Inl e"
    using v that gateway_verify_error [of gw env t s] down
    by (fastforce simp: verify_def split: prod.splits sum.splits auth_error.splits process_error.splits)
  moreover have ?thesis if "h = Inl e"
    using h [unfolded that] q
  proof (cases rule: handle_approval_cases)
    case (ask x y z)
    then have "approval_required ?sv t x y s1 = (Inl e, s2)" by (cases z) auto
    then show ?thesis using aud by (fastforce simp: approval_required_def Let_def)
  next
    case (deny y z)
    then have "denied ?sv t (approval_error_text y) s1 = (Inl e, s2)" by (cases z) auto
    then show ?thesis using aud by (fastforce simp: denied_def)
  next
    case (unavailable y)
    then show ?thesis using down by fastforce
  qed (auto split: sum.splits)
  ultimately show ?thesis by auto
qed

text \<open>C37. What a refusal says is fixed in advance: an HTTP error is a 401 with one of six texts or a 503 with one of two, a
  failed execution is reported with a constant text and no output, a denial with no output and the
  policy's reason or one of six texts, and every other result has no error. Nothing of an exception, a
  path or an internal state reaches the caller.\<close>

theorem refusals_say_fixed_texts:
  "case fst (submit_task gw env t s) of
     Http_result x \<Rightarrow> plain_result (gw_policy gw) (te_capability t) x
   | Http_exception n detail \<Rightarrow>
       (n = 401 \<and> detail \<in> set auth_details) \<or>
       (n = 503 \<and> detail \<in> {''replay protection unavailable'', ''approval service unavailable''})
   | Unhandled _ \<Rightarrow> True"
proof -
  obtain p s' where p: "process (gateway_services gw env) t s = (p, s')" by fastforce
  show ?thesis
  proof (cases p)
    case (Inr x)
    then show ?thesis using process_plain [of gw env t s] p by (simp add: submit_task_def)
  next
    case (Inl e)
    then show ?thesis using process_error_detail [of gw env t s e s'] p by (cases e) (simp_all add: submit_task_def)
  qed
qed

section \<open>Service\<close>

text \<open>C7. A valid task is served, with or without an audit anchor: when nothing fails in the environment and the log, and the anchor
  if one is configured, verify, a task that is signed, in time and fresh, and that the policy allows, or that requires an
  approval the store consumes, is executed, and its answer is the outcome of that execution, provided that neither its
  arguments nor its output hold \<open>NaN\<close> or an infinity. A digest of the MAC has 32 bytes, as those of HMAC-SHA256 have.\<close>

theorem valid_tasks_are_served:
  assumes "\<And>k m. length (gw_hmac gw k m) = 32" "fair_call gw env s" "valid_task gw env t s"
    and "finite_exchange gw env (te_capability t) (te_arguments t) s"
    and "pdec_decision (evaluate (gw_policy gw) (te_capability t)) = Allow \<and> te_approval_id t = None \<or>
      pdec_decision (evaluate (gw_policy gw) (te_capability t)) = Require_approval \<and>
      (\<exists>k. te_approval_id t = Some k \<and> is_ok (fst (consume (gw_hmac gw) (gw_approval_store gw) (ce_store_fault env)
        (ce_store_now env) k t (gs_approvals s))))"
  shows "served gw env t s (process (gateway_services gw env) t s)"
  using assms(5)
proof
  assume "pdec_decision (evaluate (gw_policy gw) (te_capability t)) = Require_approval \<and>
      (\<exists>k. te_approval_id t = Some k \<and> is_ok (fst (consume (gw_hmac gw) (gw_approval_store gw) (ce_store_fault env)
        (ce_store_now env) k t (gs_approvals s))))"
  then obtain k rec db where "pdec_decision (evaluate (gw_policy gw) (te_capability t)) = Require_approval" "te_approval_id t = Some k"
    "consume (gw_hmac gw) (gw_approval_store gw) (ce_store_fault env) (ce_store_now env) k t (gs_approvals s) = (Inr rec, db)"
    by (auto simp: is_ok_iff) (metis prod.collapse)
  then show ?thesis by (rule approved_task_served [OF assms(1-4)])
qed (use allowed_task_served [OF assms(1-4)] in blast)

section \<open>MCP callers\<close>

text \<open>C14. MCP callers cannot use what needs a person: when a tool call through the gateway changes anything the executor works on, or is
  answered without an error, then the policy allows the capability outright; a capability that is denied or that
  requires approval is never executed for an MCP call, whatever the caller sends.\<close>

theorem mcp_runs_only_allowed:
  assumes "call_tool (gateway_adapter gw env parse_dt json_utc) call name arguments s = (out, s')"
    and "gs_exec s' \<noteq> gs_exec s \<or> (\<exists>r. out = Inr r \<and> \<not> tl_is_error r)"
  shows "pdec_decision (evaluate (gw_policy gw) name) = Allow"
proof -
  let ?a = "gateway_adapter gw env parse_dt json_utc"
  have "ma_renderer ?a = None" by (simp add: gateway_adapter_def)
  with assms(1) show ?thesis
  proof (cases rule: call_tool_process)
    case refused
    then show ?thesis using assms(2) by (simp add: tool_error_def)
  next
    case (processed t r)
    have p: "process (gateway_services gw env) t s = (r, s')" using processed(2) by (simp add: gateway_adapter_def)
    have ran: "gs_exec s' \<noteq> gs_exec s \<or> outcome_executed r"
      using assms(2) processed(3) by (auto simp: outcome_executed_def)
    from p show ?thesis
    proof (cases rule: gateway.process_cases)
      case stopped
      then show ?thesis using ran by simp
    next
      case (executed s1)
      then have "authorized (gateway_services gw env) t s s1" by simp
      then show ?thesis using build_task_fields [OF processed(1)]
        by (cases "pdec_decision (evaluate (gw_policy gw) name)") (auto simp: authorized_def split: decision.splits)
    qed
  qed
qed

text \<open>C16. An allowed tool call is served, with or without an audit anchor: when the policy allows the capability, the request is well
  formed, the clock of the adapter is at most 60 seconds ahead of the verifier's and the task is not yet expired there, the
  nonce is fresh, neither arguments nor output hold \<open>NaN\<close> or an infinity, and nothing else fails, then the
  caller gets the output of the execution as its text and as its structured content, or the fixed failure text when
  the execution failed. The answer of the C0 probe is finalised with the audit id first, and a
  fixed text replaces it when it does not validate.\<close>

theorem mcp_call_served:
  assumes "\<And>k m. length (gw_hmac gw k m) = 32" "fair_call gw env s"
    and "build_task (gateway_adapter gw env parse_dt json_utc) call name arguments = Some t"
    and "finite_exchange gw env name arguments s" "pdec_decision (evaluate (gw_policy gw) name) = Allow"
    and "\<not> timestamp_diff_gt (dt_instant (mc_now call)) (ce_now env) 60" "ce_now env < dt_instant (mc_now call) + 60000000"
    and "dt_aware (ce_guard_now env)" "is_ok (fst (check_and_mark_us (gw_hmac gw) (gw_replay_guard gw) (ce_guard_fault env)
      (micros (ce_guard_now env)) (mc_nonce call) (micros (te_expires_at t)) (gs_replay s)))"
  shows "\<exists>r audit_id. fst (call_tool (gateway_adapter gw env parse_dt json_utc) call name arguments s) = Inr r \<and>
    tl_meta r = Some (meta_json (result_metadata audit_id (te_task_id t))) \<and>
    shows_answer r (adapter_answer parse_dt json_utc name audit_id (fst (execute (gw_lib gw) (gw_executor gw) (ce_exec env) name arguments
      (pdec_config (evaluate (gw_policy gw) name)) (gs_exec s))))"
proof -
  note f = build_task_fields [OF assms(3)]
  have sig: "te_signature t = compute_task_signature (gw_hmac gw) t (gw_shared_secret gw)"
    using build_task_signed [OF assms(3)] by (simp add: gateway_adapter_def)
  have "valid_task gw env t s" using assms(6-9) f sig by (simp add: valid_task_def)
  then have "served gw env t s (process (gateway_services gw env) t s)"
    using allowed_task_served [OF assms(1,2)] assms(4,5) f by simp
  then show ?thesis by (rule call_tool_served [OF assms(3)])
qed

section \<open>An example gateway\<close>

definition ex_gateway :: "unit gateway" where
  "ex_gateway = \<lparr>gw_hmac = toy_mac, gw_fromiso = ex_fromiso, gw_lib = ex_lib, gw_library_text = (\<lambda>_. ''library error''),
     gw_shared_secret = ''secret'', gw_replay_guard = ex_guard,
     gw_policy = \<lparr>pe_policy_sha256 = [], pe_default = Deny, pe_limits = default_limits,
       pe_capabilities = [(''process.run'', \<lparr>cc_decision = Require_approval, cc_allowed_commands = []\<rparr>),
         (''workspace.write_text'', \<lparr>cc_decision = Allow, cc_allowed_commands = []\<rparr>)]\<rparr>,
     gw_approval_store = ex_store, gw_audit_log = ex_anchored, gw_executor = ex_exec\<rparr>"

definition ex_state :: "stored_approval list \<Rightarrow> unit gateway_state" where
  "ex_state rows = \<lparr>gs_replay = ex_db, gs_approvals = ex_approvals\<lparr>ad_rows := rows\<rparr>,
     gs_audit = ex_files, gs_exec = ex_xstate ex_tree, gs_appends = 0\<rparr>"

text \<open>The environments of the two appends of a call.\<close>

abbreviation uuid_e :: string where "uuid_e \<equiv> ''55555555-5555-4555-8555-555555555555''"

definition ex_later_env :: audit_env where
  "ex_later_env = ex_env\<lparr>en_uuid := uuid_b, en_heal := ex_ck uuid_d, en_checkpoint := ex_ck uuid_e\<rparr>"

definition ex_call :: call_env where
  "ex_call = \<lparr>ce_now = 3, ce_guard_now = ex_time 3, ce_guard_fault = False, ce_store_now = ex_time 3, ce_store_fault = False,
     ce_token = ''b'', ce_exec = ex_xenv, ce_audit = (\<lambda>n. if n = 0 then ex_append_env else ex_later_env)\<rparr>"

definition ex_submission :: "string \<Rightarrow> arguments \<Rightarrow> string option \<Rightarrow> task_envelope" where
  "ex_submission capability arguments approval_id =
     (let t = ex_request\<lparr>te_capability := capability, te_arguments := arguments, te_approval_id := approval_id\<rparr>
      in t\<lparr>te_signature := compute_task_signature toy_mac t ''secret''\<rparr>)"

lemma ex_submission_fields [simp]:
  "te_capability (ex_submission c a k) = c" "te_arguments (ex_submission c a k) = a" "te_approval_id (ex_submission c a k) = k"
  "te_issued_at (ex_submission c a k) = ex_time 0" "te_expires_at (ex_submission c a k) = ex_time 9"
  "te_nonce (ex_submission c a k) = ''nonce-0123456789''"
  by (simp_all add: ex_submission_def Let_def ex_request_def)

lemma ex_submission_signed: "te_signature (ex_submission c a k) = compute_task_signature toy_mac (ex_submission c a k) ''secret''"
  by (simp add: ex_submission_def Let_def compute_task_signature_def canonical_payload_def task_json_def)

lemma ex_valid: "valid_task ex_gateway ex_call (ex_submission c a k) (ex_state rows)"
proof -
  have "is_ok (fst (check_and_mark_us toy_mac ex_guard False (micros (ex_time 3)) ''nonce-0123456789'' (micros (ex_time 9)) ex_db))"
    "\<not> timestamp_diff_gt (dt_instant (ex_time 0)) 3 60"
    by code_simp+
  moreover have "dt_instant (ex_time 9) = 9" "dt_instant (ex_time 0) = 0" by (simp_all add: ex_time_def)
  ultimately show ?thesis
    by (simp add: valid_task_def ex_gateway_def ex_call_def ex_state_def ex_submission_signed)
qed

lemma ex_uuid_e: "uuid_ok uuid_e"
  by code_simp

lemma ex_hmac: "length (gw_hmac ex_gateway k m) = 32"
  by (simp add: ex_gateway_def)

lemma ex_fair: "fair_call ex_gateway ex_call (ex_state rows)"
proof -
  have "log_ready toy_mac ex_fromiso ex_anchored [ex_append_env, ex_later_env] ex_files"
    by (rule ex_ready) (auto simp: quiet_env_def quiet_checkpoint_def ex_append_env_def ex_later_env_def ex_env_def ex_ck_def
        ex_uuids ex_uuids2 ex_uuid_e ex_now checkpoint_ids_def)
  then show ?thesis by (simp add: fair_call_def ex_gateway_def ex_call_def ex_state_def)
qed

lemma ex_decisions:
  "pdec_decision (evaluate (gw_policy ex_gateway) ''workspace.write_text'') = Allow"
  "pdec_decision (evaluate (gw_policy ex_gateway) ''process.run'') = Require_approval"
  "pdec_decision (evaluate (gw_policy ex_gateway) ''x.y'') = Deny"
  by (simp_all add: ex_gateway_def evaluate_def)

abbreviation ex_write_task :: task_envelope where
  "ex_write_task \<equiv> ex_submission ''workspace.write_text'' (write_args ''d/b.txt'' ''new'') None"

abbreviation ex_run_task :: task_envelope where
  "ex_run_task \<equiv> ex_submission ''process.run'' [] (Some ''apr_a'')"

lemma ex_run_digest: "request_hmac hm st ex_run_task = request_hmac hm st ex_request"
  by (simp add: request_hmac_def approval_request_payload_def request_fields_def ex_submission_def Let_def ex_request_def)

lemma ex_run_consumes:
  "consume toy_mac ex_store False (ex_time 3) ''apr_a'' ex_run_task (ex_approvals\<lparr>ad_rows := [ex_row 1]\<rparr>) =
     (Inr (record_from_stored (ex_row 2)), ex_approvals\<lparr>ad_rows := [ex_row 2]\<rparr>)"
  using ex_consume by (simp add: consume_def ex_run_digest)

lemma ex_execute:
  "execute (gw_lib ex_gateway) (gw_executor ex_gateway) (ce_exec ex_call) ''workspace.write_text'' (write_args ''d/b.txt'' ''new'')
     config (gs_exec (ex_state rows)) = (Inr [(''path'', JStr ''d/b.txt''), (''bytes_written'', JInt 3)],
       ex_xstate (put [''srv'', ''ws'', ''d'', ''b.txt''] (File ''new'') ex_tree))"
  "execute (gw_lib ex_gateway) (gw_executor ex_gateway) (ce_exec ex_call) ''process.run'' [] config (gs_exec (ex_state rows)) =
     (Inl (Exec_error ''capability has no executor''), gs_exec (ex_state rows))"
proof -
  show "execute (gw_lib ex_gateway) (gw_executor ex_gateway) (ce_exec ex_call) ''workspace.write_text'' (write_args ''d/b.txt'' ''new'')
     config (gs_exec (ex_state rows)) = (Inr [(''path'', JStr ''d/b.txt''), (''bytes_written'', JInt 3)],
       ex_xstate (put [''srv'', ''ws'', ''d'', ''b.txt''] (File ''new'') ex_tree))"
    using ex_write by (simp add: ex_gateway_def ex_call_def ex_state_def execute_def ex_exec_def)
qed (simp add: execute_def ex_gateway_def ex_exec_def C0_TOOL_NAME_def)

lemma ex_finite:
  "finite_exchange ex_gateway ex_call ''workspace.write_text'' (write_args ''d/b.txt'' ''new'') (ex_state rows)"
  "finite_exchange ex_gateway ex_call ''process.run'' [] (ex_state rows)"
  by (simp_all add: finite_exchange_def ex_execute)

theorem valid_tasks_are_served_witness:
  "served ex_gateway ex_call ex_write_task (ex_state []) (process (gateway_services ex_gateway ex_call) ex_write_task (ex_state []))"
  by (rule valid_tasks_are_served [OF ex_hmac ex_fair ex_valid]) (simp_all add: ex_decisions ex_finite)

lemma ex_write_outcome:
  "\<exists>a s'. process (gateway_services ex_gateway ex_call) ex_write_task (ex_state []) =
     (Inr \<lparr>tr_task_id = te_task_id ex_write_task, tr_status = Completed,
        tr_output = [(''path'', JStr ''d/b.txt''), (''bytes_written'', JInt 3)], tr_error = None, tr_audit_id = a\<rparr>, s')"
  using allowed_task_served [OF ex_hmac ex_fair ex_valid, of "''workspace.write_text''" "write_args ''d/b.txt'' ''new''" None "[]"]
  by (auto simp: served_def ex_decisions ex_execute ex_finite)

theorem execution_requires_authorization_witness:
  "te_signature ex_write_task = compute_task_signature toy_mac ex_write_task ''secret''"
proof -
  obtain a s' where p: "process (gateway_services ex_gateway ex_call) ex_write_task (ex_state []) =
     (Inr \<lparr>tr_task_id = te_task_id ex_write_task, tr_status = Completed,
        tr_output = [(''path'', JStr ''d/b.txt''), (''bytes_written'', JInt 3)], tr_error = None, tr_audit_id = a\<rparr>, s')"
    using ex_write_outcome by blast
  have "gw_hmac ex_gateway = toy_mac" "gw_shared_secret ex_gateway = ''secret''" by (simp_all add: ex_gateway_def)
  with execution_requires_authorization [OF p] show ?thesis by (simp add: outcome_executed_def)
qed

theorem answers_are_audited_witness:
  "\<exists>x s' content line. submit_task ex_gateway ex_call ex_write_task (ex_state []) = (Http_result x, s') \<and>
     tr_status x = Completed \<and> af_log (gs_audit s') = Log_text (content @ line @ [NL])"
proof -
  obtain x s' where x: "submit_task ex_gateway ex_call ex_write_task (ex_state []) = (Http_result x, s')" "tr_status x = Completed"
    using ex_write_outcome by (auto simp: submit_task_def)
  from answers_are_audited [OF x(1)] x show ?thesis by blast
qed

lemma ex_run_ran:
  "\<exists>x s'. gateway_step ex_gateway (Submit ex_call ex_run_task) (ex_state [ex_row 1]) = (Submitted (Http_result x), s') \<and>
     tr_status x = Failed"
proof -
  have c: "gw_hmac ex_gateway = toy_mac" "gw_approval_store ex_gateway = ex_store" "ce_store_fault ex_call = False"
    "ce_store_now ex_call = ex_time 3" "gs_approvals (ex_state [ex_row 1]) = ex_approvals\<lparr>ad_rows := [ex_row 1]\<rparr>"
    by (simp_all add: ex_gateway_def ex_call_def ex_state_def)
  have "served ex_gateway ex_call ex_run_task (ex_state [ex_row 1])
      (process (gateway_services ex_gateway ex_call) ex_run_task (ex_state [ex_row 1]))"
    by (rule approved_task_served [OF ex_hmac ex_fair ex_valid, where k = "''apr_a''"]) (simp_all add: ex_decisions c ex_run_consumes ex_finite)
  then show ?thesis by (auto simp: served_def ex_execute submit_task_def)
qed

theorem gateway_approval_runs_once_witness:
  "let cs = [Submit ex_call ex_run_task, Submit ex_call ex_run_task]
   in ran_with ex_gateway (cs ! 0) (result_at (gateway_step ex_gateway) cs (ex_state [ex_row 1]) 0) ''apr_a'' \<and>
      \<not> ran_with ex_gateway (cs ! 1) (result_at (gateway_step ex_gateway) cs (ex_state [ex_row 1]) 1) ''apr_a''"
proof -
  let ?cs = "[Submit ex_call ex_run_task, Submit ex_call ex_run_task]"
  have r: "ran_with ex_gateway (?cs ! 0) (result_at (gateway_step ex_gateway) ?cs (ex_state [ex_row 1]) 0) ''apr_a''"
    using ex_run_ran by (auto simp: ran_with_def ran_def ex_decisions result_at_def state_at_def simp del: gateway_step.simps)
  have "\<not> ran_with ex_gateway (?cs ! 1) (result_at (gateway_step ex_gateway) ?cs (ex_state [ex_row 1]) 1) ''apr_a''"
    by (rule gateway_approval_runs_once [OF _ _ r]) simp_all
  with r show ?thesis by (simp add: Let_def)
qed

theorem gateway_run_was_approved_witness:
  "let cs = [Operate (False, ex_time 2, Approve ''apr_a'' ex_request), Submit ex_call ex_run_task]
   in \<exists>i < 1. \<exists>fault now u. cs ! i = Operate (fault, now, Approve ''apr_a'' u)"
proof -
  let ?cs = "[Operate (False, ex_time 2, Approve ''apr_a'' ex_request), Submit ex_call ex_run_task]"
  have c: "gw_hmac ex_gateway = toy_mac" "gw_approval_store ex_gateway = ex_store"
    "gs_approvals (ex_state rows) = ex_approvals\<lparr>ad_rows := rows\<rparr>" for rows
    by (simp_all add: ex_gateway_def ex_state_def)
  have st: "state_at (gateway_step ex_gateway) ?cs (ex_state [ex_row 0]) (Suc 0) = ex_state [ex_row 1]"
    using ex_approve by (simp add: state_at_def c one_def) (simp add: ex_state_def)
  have r: "ran_with ex_gateway (?cs ! 1) (result_at (gateway_step ex_gateway) ?cs (ex_state [ex_row 0]) 1) ''apr_a''"
    using ex_run_ran st
    by (auto simp: ran_with_def ran_def ex_decisions result_at_def simp del: gateway_step.simps)
  have "\<not> holds_row ''apr_a'' (request_hmac (gw_hmac ex_gateway) (gw_approval_store ex_gateway) ex_run_task)
      (\<lambda>st. st = ''approved'') (gs_approvals (ex_state [ex_row 0]))"
    by (simp add: c holds_row_def ex_row_def Let_def)
  from gateway_run_was_approved [OF _ r _ this] show ?thesis by (fastforce simp: Let_def)
qed

theorem gateway_no_replay_witness:
  "let t = ex_submission ''x.y'' [] None; cs = [Submit ex_call t, Submit ex_call t]
   in answered (result_at (gateway_step ex_gateway) cs (ex_state []) 0) \<and>
      \<not> answered (result_at (gateway_step ex_gateway) cs (ex_state []) 1)"
proof -
  let ?t = "ex_submission ''x.y'' [] None" let ?cs = "[Submit ex_call ?t, Submit ex_call ?t]"
  have a: "answered (result_at (gateway_step ex_gateway) ?cs (ex_state []) 0)"
    using denied_task_answered [OF ex_hmac ex_fair ex_valid, of "''x.y''" "[]" None "[]"]
    by (auto simp: ex_decisions result_at_def state_at_def answered_def submit_task_def)
  have m: "micros (ex_time 3) < micros (ex_time 9)" by code_simp
  have "\<not> answered (result_at (gateway_step ex_gateway) ?cs (ex_state []) 1)"
    by (rule gateway_no_replay [OF _ _ _ _ a])
      (use m ex_db_wf in \<open>simp_all add: ex_gateway_def ex_state_def expiry_of_def ex_call_def\<close>)
  with a show ?thesis by (simp add: Let_def)
qed

definition ex_mcp_call :: mcp_call where
  "ex_mcp_call = \<lparr>mc_uuid_hex = replicate 32 (CHR ''a''), mc_nonce = ''nonce-0123456789'', mc_now = ex_time 0\<rparr>"

abbreviation ex_mcp :: "unit gateway_state mcp_adapter" where
  "ex_mcp \<equiv> gateway_adapter ex_gateway ex_call (\<lambda>_. None) (\<lambda>_. ''later'')"

definition ex_mcp_task :: task_envelope where
  "ex_mcp_task = the (build_task ex_mcp ex_mcp_call ''workspace.write_text'' (write_args ''d/b.txt'' ''new''))"

lemma ex_mcp_task: "build_task ex_mcp ex_mcp_call ''workspace.write_text'' (write_args ''d/b.txt'' ''new'') = Some ex_mcp_task"
proof -
  have "task_envelope_valid \<lparr>te_version = ''1'', te_task_id = ''mcp_'' @ replicate 32 (CHR ''a''), te_issued_at = ex_time 0,
      te_expires_at = \<lparr>dt_instant = 60000000, dt_aware = True, dt_text = ''later''\<rparr>,
      te_agent = \<lparr>ai_provider = ''mcp'', ai_model = None, ai_session_id = ''streamable-http''\<rparr>, te_capability = ''workspace.write_text'',
      te_arguments = write_args ''d/b.txt'' ''new'', te_approval_id = None, te_nonce = ''nonce-0123456789'',
      te_signature = replicate 43 (CHR ''A'')\<rparr>" by code_simp
  moreover have "dt_instant (ex_time 0) = 0" "dt_aware (ex_time 0)" by (simp_all add: ex_time_def)
  ultimately show ?thesis by (simp add: ex_mcp_task_def build_task_def Let_def ex_mcp_call_def gateway_adapter_def)
qed

lemma ex_mcp_nonce:
  "is_ok (fst (check_and_mark_us (gw_hmac ex_gateway) (gw_replay_guard ex_gateway) (ce_guard_fault ex_call) (micros (ce_guard_now ex_call))
     (mc_nonce ex_mcp_call) (micros (te_expires_at ex_mcp_task)) (gs_replay (ex_state []))))"
  "\<not> timestamp_diff_gt (dt_instant (mc_now ex_mcp_call)) (ce_now ex_call) 60" "ce_now ex_call < dt_instant (mc_now ex_mcp_call) + 60000000"
  "dt_aware (ce_guard_now ex_call)" "''workspace.write_text'' \<noteq> C0_TOOL_NAME"
proof -
  have t: "dt_instant (ex_time n) = n" "dt_aware (ex_time n)" for n by (simp_all add: ex_time_def)
  have "micros (te_expires_at ex_mcp_task) = micros \<lparr>dt_instant = 60000000, dt_aware = True, dt_text = ''later''\<rparr>"
    using build_task_fields [OF ex_mcp_task] by (simp add: micros_def ex_mcp_call_def t)
  moreover have "is_ok (fst (check_and_mark_us toy_mac ex_guard False (micros (ex_time 3)) ''nonce-0123456789''
     (micros \<lparr>dt_instant = 60000000, dt_aware = True, dt_text = ''later''\<rparr>) ex_db))" by code_simp
  ultimately show "is_ok (fst (check_and_mark_us (gw_hmac ex_gateway) (gw_replay_guard ex_gateway) (ce_guard_fault ex_call) (micros (ce_guard_now ex_call))
     (mc_nonce ex_mcp_call) (micros (te_expires_at ex_mcp_task)) (gs_replay (ex_state []))))"
    by (simp add: ex_gateway_def ex_call_def ex_state_def ex_mcp_call_def)
  have "\<not> timestamp_diff_gt 0 3 60" by code_simp
  then show "\<not> timestamp_diff_gt (dt_instant (mc_now ex_mcp_call)) (ce_now ex_call) 60" "ce_now ex_call < dt_instant (mc_now ex_mcp_call) + 60000000"
    "dt_aware (ce_guard_now ex_call)" by (simp_all add: ex_mcp_call_def ex_call_def t)
  show "''workspace.write_text'' \<noteq> C0_TOOL_NAME" by (simp add: C0_TOOL_NAME_def)
qed

theorem mcp_call_served_witness:
  "\<exists>r. fst (call_tool ex_mcp ex_mcp_call ''workspace.write_text'' (write_args ''d/b.txt'' ''new'') (ex_state [])) = Inr r \<and>
     tl_structured r = Some [(''path'', JStr ''d/b.txt''), (''bytes_written'', JInt 3)]"
proof -
  have "''workspace.write_text'' \<noteq> C0_TOOL_NAME" by (rule ex_mcp_nonce(5))
  then show ?thesis using mcp_call_served [OF ex_hmac ex_fair ex_mcp_task ex_finite(1) ex_decisions(1) ex_mcp_nonce(2,3,4,1)]
    by (auto simp: ex_execute adapter_answer_def shows_answer_def)
qed

theorem mcp_runs_only_allowed_witness:
  "pdec_decision (evaluate (gw_policy ex_gateway) ''workspace.write_text'') = Allow"
proof -
  have "valid_task ex_gateway ex_call ex_mcp_task (ex_state [])"
    using ex_mcp_nonce build_task_fields [OF ex_mcp_task] build_task_signed [OF ex_mcp_task]
    by (simp add: valid_task_def gateway_adapter_def)
  then have "served ex_gateway ex_call ex_mcp_task (ex_state []) (process (gateway_services ex_gateway ex_call) ex_mcp_task (ex_state []))"
    using build_task_fields [OF ex_mcp_task] ex_decisions(1) by (intro allowed_task_served [OF ex_hmac ex_fair]) (simp_all add: ex_finite)
  from call_tool_served [OF ex_mcp_task this] ex_mcp_nonce(5) obtain r where
    r: "fst (call_tool ex_mcp ex_mcp_call ''workspace.write_text'' (write_args ''d/b.txt'' ''new'') (ex_state [])) = Inr r" "\<not> tl_is_error r"
    by (auto simp: ex_execute adapter_answer_def shows_answer_def)
  then obtain s' where "call_tool ex_mcp ex_mcp_call ''workspace.write_text'' (write_args ''d/b.txt'' ''new'') (ex_state []) = (Inr r, s')"
    by (metis prod.collapse)
  then show ?thesis by (rule mcp_runs_only_allowed) (use r(2) in blast)
qed

end
